(* ===== verification/Prelude.thy ===== *)
theory Prelude
  imports Main "HOL-Library.List_Lexorder" "HOL-Library.Char_ord" "HOL-Library.Sublist"
begin

text \<open>
  What every component shares: the part of Python's \<open>str\<close>, \<open>re\<close> and \<open>dict\<close> that the code uses,
  and the generic lemmas on lists and strings.

  A \<open>str\<close> is a \<^typ>\<open>string\<close>: one \<^typ>\<open>char\<close> per code point, so the model covers the code points
  U+0000 to U+00FF, among them every character the code itself treats specially except the
  em dash of two messages (\<open>em_dash\<close> below). Python compares strings by code point, which is
  the lexicographic order of the imported \<open>List_Lexorder\<close> and \<open>Char_ord\<close>. A \<open>dict\<close> with string
  keys is an association list in insertion order, read by \<^const>\<open>map_of\<close>.
\<close>

named_theorems py_simps \<open>evaluation rules of the Python primitives\<close>
named_theorems decision_simps \<open>unfolding rules of the decision procedures\<close>

type_synonym 'v dict = "(string \<times> 'v) list"

section \<open>Characters\<close>

abbreviation ord :: "char \<Rightarrow> nat" where
  "ord c \<equiv> of_char c"

text \<open>The code points below 256 for which \<open>str.isspace\<close> holds.\<close>

definition py_isspace :: "char \<Rightarrow> bool" where
  "py_isspace c \<longleftrightarrow>
     (9 \<le> ord c \<and> ord c \<le> 13) \<or> (28 \<le> ord c \<and> ord c \<le> 32) \<or> ord c = 133 \<or> ord c = 160"

definition ascii_digit :: "char \<Rightarrow> bool" where
  "ascii_digit c \<longleftrightarrow> 48 \<le> ord c \<and> ord c \<le> 57"

definition ascii_lower :: "char \<Rightarrow> bool" where
  "ascii_lower c \<longleftrightarrow> 97 \<le> ord c \<and> ord c \<le> 122"

definition ascii_upper :: "char \<Rightarrow> bool" where
  "ascii_upper c \<longleftrightarrow> 65 \<le> ord c \<and> ord c \<le> 90"

text \<open>
  \<open>str.isdigit\<close> also holds of the superscripts two, three and one (U+00B2, U+00B3, U+00B9),
  which \<open>int()\<close> does not read.
\<close>

definition py_isdigit :: "char \<Rightarrow> bool" where
  "py_isdigit c \<longleftrightarrow> ascii_digit c \<or> ord c = 178 \<or> ord c = 179 \<or> ord c = 185"

lemmas char_class_defs [py_simps] =
  py_isspace_def ascii_digit_def ascii_lower_def ascii_upper_def py_isdigit_def

section \<open>String operations\<close>

abbreviation newline :: char where
  "newline \<equiv> CHR 0x0A"

text \<open>The em dash is not a code point below 256; it is written as its Windows-1252 code.\<close>

definition em_dash :: string where
  "em_dash = [CHR 0x97]"

abbreviation starts_with :: "string \<Rightarrow> string \<Rightarrow> bool" where
  "starts_with s p \<equiv> prefix p s"

abbreviation ends_with :: "string \<Rightarrow> string \<Rightarrow> bool" where
  "ends_with s p \<equiv> suffix p s"

definition removesuffix :: "string \<Rightarrow> string \<Rightarrow> string" where
  "removesuffix s p = (if ends_with s p then take (length s - length p) s else s)"

definition removeprefix :: "string \<Rightarrow> string \<Rightarrow> string" where
  "removeprefix s p = (if starts_with s p then drop (length p) s else s)"

definition lstrip_by :: "(char \<Rightarrow> bool) \<Rightarrow> string \<Rightarrow> string" where
  "lstrip_by P s = dropWhile P s"

definition strip_by :: "(char \<Rightarrow> bool) \<Rightarrow> string \<Rightarrow> string" where
  "strip_by P s = rev (dropWhile P (rev (dropWhile P s)))"

definition strip :: "string \<Rightarrow> string" where
  "strip s = strip_by py_isspace s"

text \<open>\<open>s.split(c)\<close> for a one-character separator: never empty.\<close>

fun split_on :: "char \<Rightarrow> string \<Rightarrow> string list" where
  "split_on c [] = [[]]"
| "split_on c (x # xs) =
     (if x = c then [] # split_on c xs
      else (case split_on c xs of [] \<Rightarrow> [[x]] | w # ws \<Rightarrow> (x # w) # ws))"

text \<open>\<open>sep.join(parts)\<close>\<close>

fun join :: "string \<Rightarrow> string list \<Rightarrow> string" where
  "join sep [] = []"
| "join sep [w] = w"
| "join sep (w # v # ws) = w @ sep @ join sep (v # ws)"

text \<open>\<open>s.partition(c)\<close>: the part before the first \<open>c\<close>, whether there is one, the part after it.\<close>

definition partition_on :: "char \<Rightarrow> string \<Rightarrow> string \<times> bool \<times> string" where
  "partition_on c s =
     (takeWhile (\<lambda>x. x \<noteq> c) s, c \<in> set s, drop 1 (dropWhile (\<lambda>x. x \<noteq> c) s))"

text \<open>\<open>needle in haystack\<close> for strings\<close>

fun is_infix :: "string \<Rightarrow> string \<Rightarrow> bool" where
  "is_infix p [] \<longleftrightarrow> p = []"
| "is_infix p (x # xs) \<longleftrightarrow> prefix p (x # xs) \<or> is_infix p xs"

text \<open>
  \<open>re.match(r"^...$", s)\<close>: outside multi-line mode \<open>$\<close> matches at the end of the string
  \<^emph>\<open>and\<close> just before one trailing newline, so the body may match all of \<open>s\<close> but its last
  character, when that is a newline. \<open>body\<close> says which whole strings the expression between the
  anchors matches.
\<close>

definition match_dollar :: "(string \<Rightarrow> bool) \<Rightarrow> string \<Rightarrow> bool" where
  "match_dollar body s \<longleftrightarrow> body s \<or> (s \<noteq> [] \<and> last s = newline \<and> body (butlast s))"

text \<open>Decimal rendering of a count in an f-string.\<close>

definition digit_char :: "nat \<Rightarrow> char" where
  "digit_char d = char_of (48 + d)"

fun show_nat :: "nat \<Rightarrow> string" where
  "show_nat n = (if n < 10 then [digit_char n] else show_nat (n div 10) @ [digit_char (n mod 10)])"

declare show_nat.simps [simp del]

lemma digit_char_ascii: "d < 10 \<Longrightarrow> of_char (digit_char d) = 48 + d"
  by (simp add: digit_char_def)

lemma show_nat_digits: "c \<in> set (show_nat n) \<Longrightarrow> 48 \<le> (of_char c :: nat) \<and> (of_char c :: nat) \<le> 57"
proof (induction n rule: show_nat.induct)
  case (1 n)
  then show ?case
    by (subst (asm) (2) show_nat.simps) (auto simp: digit_char_ascii split: if_splits)
qed

lemma show_nat_not_Nil: "show_nat n \<noteq> []"
  by (subst show_nat.simps) simp

lemma show_nat_inject: "show_nat m = show_nat n \<Longrightarrow> m = n"
proof (induction m arbitrary: n rule: show_nat.induct)
  case (1 m)
  have d: "digit_char a = digit_char b \<Longrightarrow> a < 10 \<Longrightarrow> b < 10 \<Longrightarrow> a = b" for a b
    by (metis add_left_cancel digit_char_ascii)
  show ?case
  proof (cases "m < 10 \<or> n < 10")
    case True
    then have "m < 10 \<and> n < 10"
      using "1.prems" show_nat_not_Nil show_nat_not_Nil [symmetric]
      by (auto simp: show_nat.simps [of m] show_nat.simps [of n] append_eq_Cons_conv split: if_splits)
    then show ?thesis
      using "1.prems" d by (simp add: show_nat.simps [of m] show_nat.simps [of n])
  next
    case False
    then have "show_nat (m div 10) = show_nat (n div 10)" and "digit_char (m mod 10) = digit_char (n mod 10)"
      using "1.prems" by (simp_all add: show_nat.simps [of m] show_nat.simps [of n])
    then have "m div 10 = n div 10" and "m mod 10 = n mod 10"
      using "1.IH" False d by auto
    then show ?thesis
      by (metis div_mult_mod_eq)
  qed
qed

definition show_int :: "int \<Rightarrow> string" where
  "show_int i = (if i < 0 then ''-'' @ show_nat (nat (- i)) else show_nat (nat i))"

text \<open>A value between single quotes, as the messages write it.\<close>

definition quoted :: "string \<Rightarrow> string" where
  "quoted s = CHR 0x27 # s @ [CHR 0x27]"

section \<open>Dictionaries\<close>

definition dict_get :: "'v dict \<Rightarrow> string \<Rightarrow> 'v option" where
  "dict_get d k = map_of d k"

definition dict_keys :: "'v dict \<Rightarrow> string list" where
  "dict_keys d = map fst d"

text \<open>\<open>d[k] = v\<close>: an existing key keeps its place, a new one goes last.\<close>

fun dict_set :: "'v dict \<Rightarrow> string \<Rightarrow> 'v \<Rightarrow> 'v dict" where
  "dict_set [] k v = [(k, v)]"
| "dict_set ((k', v') # d) k v = (if k' = k then (k, v) # d else (k', v') # dict_set d k v)"

definition wf_dict :: "'v dict \<Rightarrow> bool" where
  "wf_dict d \<longleftrightarrow> distinct (map fst d)"

lemma dict_get_in_keys: "dict_get d k \<noteq> None \<longleftrightarrow> k \<in> set (dict_keys d)"
  by (auto simp: dict_get_def dict_keys_def map_of_eq_None_iff)

lemma dict_get_set [simp]: "dict_get (dict_set d k v) k' = (if k' = k then Some v else dict_get d k')"
  by (induction d k v rule: dict_set.induct) (auto simp: dict_get_def)

lemma dict_keys_set: "set (dict_keys (dict_set d k v)) = insert k (set (dict_keys d))"
  by (induction d k v rule: dict_set.induct) (auto simp: dict_keys_def)

lemma wf_dict_set: "wf_dict d \<Longrightarrow> wf_dict (dict_set d k v)"
proof (induction d k v rule: dict_set.induct)
  case (2 k' v' d k v)
  then show ?case
    using dict_keys_set [of d k v] by (auto simp: wf_dict_def dict_keys_def)
qed (simp add: wf_dict_def)

section \<open>Lemmas on strings\<close>

lemma split_on_not_Nil [simp]: "split_on c s \<noteq> []"
  by (induction s) (auto split: list.splits)

lemma join_Cons: "ws \<noteq> [] \<Longrightarrow> join sep (w # ws) = w @ sep @ join sep ws"
  by (cases ws) auto

lemma join_split_on: "join [c] (split_on c s) = s"
proof (induction s)
  case (Cons x xs)
  obtain w ws where w: "split_on c xs = w # ws"
    by (cases "split_on c xs") auto
  then show ?case
    using Cons by (cases ws) auto
qed simp

lemma split_on_no_sep: "w \<in> set (split_on c s) \<Longrightarrow> c \<notin> set w"
proof (induction s arbitrary: w)
  case (Cons x xs)
  obtain u us where u: "split_on c xs = u # us"
    by (cases "split_on c xs") auto
  then show ?case
    using Cons by (auto split: if_splits)
qed simp

lemma split_on_free: "c \<notin> set s \<Longrightarrow> split_on c s = [s]"
  by (induction s) auto

lemma split_on_append: "c \<notin> set a \<Longrightarrow> split_on c (a @ c # b) = a # split_on c b"
  by (induction a) auto

lemma split_on_join:
  "ws \<noteq> [] \<Longrightarrow> \<forall>w \<in> set ws. c \<notin> set w \<Longrightarrow> split_on c (join [c] ws) = ws"
proof (induction ws)
  case (Cons w ws)
  then show ?case
    by (cases ws) (auto simp: split_on_free split_on_append)
qed simp

lemma set_join: "set (join sep ws) \<subseteq> set sep \<union> \<Union> (set ` set ws)"
  by (induction sep ws rule: join.induct) auto

lemma split_on_covers: "x \<in> set s \<Longrightarrow> x \<noteq> c \<Longrightarrow> \<exists>w \<in> set (split_on c s). x \<in> set w"
  using set_join [of "[c]" "split_on c s"] by (auto simp: join_split_on)

lemma removesuffix_append [simp]: "removesuffix (s @ p) p = s"
proof -
  have "ends_with (s @ p) p" by (rule suffixI) (rule refl)
  then show ?thesis by (simp only: removesuffix_def) simp
qed

lemma ends_with_decomp: "ends_with s p \<Longrightarrow> s = removesuffix s p @ p"
  by (metis removesuffix_append suffixE)

text \<open>Two prefixes of one string are comparable.\<close>

lemma starts_with_linear:
  "starts_with s p \<Longrightarrow> starts_with s q \<Longrightarrow> starts_with p q \<or> starts_with q p"
  by (metis prefix_same_cases)

lemma starts_with_append [simp]: "starts_with (p @ s) p"
  by simp

lemma match_dollar_body: "body s \<Longrightarrow> match_dollar body s"
  by (simp add: match_dollar_def)

lemma match_dollar_newline: "body s \<Longrightarrow> match_dollar body (s @ [newline])"
  by (simp add: match_dollar_def)

lemma match_dollar_cases:
  assumes "match_dollar body s"
  obtains "body s" | t where "s = t @ [newline]" and "body t"
  using assms unfolding match_dollar_def by (metis append_butlast_last_id)

section \<open>Lemmas on lists\<close>

text \<open>\<open>max(xs, key=f)\<close> returns the first of the elements with the greatest key.\<close>

fun max_by :: "('a \<Rightarrow> nat) \<Rightarrow> 'a \<Rightarrow> 'a list \<Rightarrow> 'a" where
  "max_by f best [] = best"
| "max_by f best (x # xs) = max_by f (if f best < f x then x else best) xs"

lemma max_by_in: "max_by f b xs \<in> insert b (set xs)"
  by (induction f b xs rule: max_by.induct) auto

lemma max_by_ge: "x \<in> insert b (set xs) \<Longrightarrow> f x \<le> f (max_by f b xs)"
proof (induction f b xs arbitrary: x rule: max_by.induct)
  case (2 f b y ys)
  then show ?case
    by (cases "f b < f y") (auto, fastforce+)
qed simp

lemma find_Some_in: "List.find P xs = Some x \<Longrightarrow> x \<in> set xs \<and> P x"
  by (auto simp: find_Some_iff)

lemma find_None: "List.find P xs = None \<longleftrightarrow> (\<forall>x \<in> set xs. \<not> P x)"
  by (auto simp: find_None_iff)

lemma sort_key_hd_minimal:
  "xs \<noteq> [] \<Longrightarrow> x \<in> set xs \<Longrightarrow> f (hd (sort_key f xs)) \<le> f x"
proof -
  assume ne: "xs \<noteq> []" and x: "x \<in> set xs"
  obtain y ys where s: "sort_key f xs = y # ys"
    using ne by (metis list.exhaust length_0_conv length_sort)
  have "sorted (map f (y # ys))"
    using sorted_sort_key [of f xs] s by simp
  moreover have "x \<in> set (y # ys)"
    using x s by (metis set_sort)
  ultimately show ?thesis
    using s by auto
qed

end
