(* ===== verification/Capabilities.thy ===== *)
theory Capabilities
  imports Prelude
begin

text \<open>
  \<open>packages/policy/src/jhin_policy/capabilities.py\<close> and \<open>risk.py\<close>: capability names and grant
  patterns, the namespaces no agent may hold, tool definitions with their construction-time
  checks, and the registry of tools. Pydantic runs the two field validators first and the
  model validator only when they pass; a \<open>ValueError\<close> is a value of \<open>tool_error\<close>. The input and
  output schemas (\<open>input_model\<close>, \<open>output_model\<close>) are Pydantic classes and are left out.
\<close>

section \<open>Risk levels\<close>

datatype risk_level = READ | WRITE | ELEVATED | DESTRUCTIVE

datatype rule_action = AUTO | APPROVAL | FORBID

fun DEFAULT_ACTION_BY_RISK :: "risk_level \<Rightarrow> rule_action" where
  "DEFAULT_ACTION_BY_RISK READ = AUTO"
| "DEFAULT_ACTION_BY_RISK WRITE = AUTO"
| "DEFAULT_ACTION_BY_RISK ELEVATED = APPROVAL"
| "DEFAULT_ACTION_BY_RISK DESTRUCTIVE = APPROVAL"

fun risk_value :: "risk_level \<Rightarrow> string" where
  "risk_value READ = ''read''"
| "risk_value WRITE = ''write''"
| "risk_value ELEVATED = ''elevated''"
| "risk_value DESTRUCTIVE = ''destructive''"

section \<open>Capability names and patterns\<close>

definition capability_char :: "char \<Rightarrow> bool" where
  "capability_char c \<longleftrightarrow> ascii_lower c \<or> ascii_digit c \<or> c = CHR ''_''"

definition capability_token :: "string \<Rightarrow> bool" where
  "capability_token s \<longleftrightarrow> s \<noteq> [] \<and> list_all capability_char s"

text \<open>The language of the expression between the anchors of \<open>_CAPABILITY_RE\<close>.\<close>

definition dotted_path :: "string \<Rightarrow> bool" where
  "dotted_path s \<longleftrightarrow> list_all capability_token (split_on CHR ''.'' s)"

definition is_valid_capability :: "string \<Rightarrow> bool" where
  "is_valid_capability name = match_dollar dotted_path name"

definition capability_matches :: "string \<Rightarrow> string \<Rightarrow> bool" where
  "capability_matches pat capability =
     (if pat = ''*'' then True
      else if ends_with pat ''.*''
      then (let p = removesuffix pat ''.*''
            in is_valid_capability p \<and> starts_with capability (p @ ''.''))
      else pat = capability)"

definition FORBIDDEN_CAPABILITY_PREFIXES :: "string list" where
  "FORBIDDEN_CAPABILITY_PREFIXES =
     [''agent.permission'', ''agent.grant'', ''agent.policy'', ''workspace.member'', ''capability'',
      ''policy'', ''approval'', ''secret'', ''auth'']"

definition is_forbidden_capability :: "string \<Rightarrow> bool" where
  "is_forbidden_capability capability =
     list_ex (\<lambda>p. capability = p \<or> starts_with capability (p @ ''.'')) FORBIDDEN_CAPABILITY_PREFIXES"

definition covers_forbidden_capability :: "string \<Rightarrow> bool" where
  "covers_forbidden_capability p =
     list_ex (\<lambda>forbidden. starts_with forbidden (p @ ''.'')) FORBIDDEN_CAPABILITY_PREFIXES"

definition grant_pattern_problem :: "string \<Rightarrow> string option" where
  "grant_pattern_problem pat =
     (let subtree = ends_with pat ''.*'';
          base = (if subtree then removesuffix pat ''.*'' else pat)
      in if pat \<noteq> ''*'' \<and> \<not> is_valid_capability base
         then Some ''not a valid dotted capability name or pattern''
         else if is_forbidden_capability base
         then Some ''capabilities in this namespace can never be granted to agents''
         else if subtree \<and> covers_forbidden_capability base
         then Some ''this subtree contains capabilities that can never be granted to agents''
         else None)"

section \<open>Tool definitions\<close>

record tool =
  t_name :: string
  t_description :: string
  t_risk :: risk_level
  t_required_capability :: string
  t_supports_approval :: bool
  t_scope_keys :: "string list"
  t_required_grant_scope_keys :: "string list"
  t_defers_scope :: bool
  t_result_scope_keys :: "string list"
  t_redispatch_is_safe :: bool

datatype tool_error =
    NotACapabilityName "string list"
  | NotUnique string
  | InvalidScopeKeys string "string list"
  | RequiredNotScopeKeys "string list"
  | DefersWithRequiredKeys
  | ResultNotScopeKeys "string list"
  | RequiredAndResult "string list"
  | DefersWithResultKeys

text \<open>\<open>_SCOPE_KEY_RE.fullmatch\<close>\<close>

definition is_scope_key :: "string \<Rightarrow> bool" where
  "is_scope_key s \<longleftrightarrow> s \<noteq> [] \<and> list_all capability_char s"

text \<open>\<open>sorted(set(xs) - set(ys))\<close>\<close>

definition sorted_difference :: "string list \<Rightarrow> string list \<Rightarrow> string list" where
  "sorted_difference xs ys = sort (remdups (filter (\<lambda>x. x \<notin> set ys) xs))"

definition validate_capability_form :: "tool \<Rightarrow> string list" where
  "validate_capability_form t =
     filter (\<lambda>v. \<not> is_valid_capability v) [t_name t, t_required_capability t]"

fun check_keys :: "(string \<times> string list) list \<Rightarrow> tool_error option" where
  "check_keys [] = None"
| "check_keys ((display_name, keys) # rest) =
     (if \<not> distinct keys then Some (NotUnique display_name)
      else if filter (\<lambda>k. \<not> is_scope_key k) keys \<noteq> []
      then Some (InvalidScopeKeys display_name (filter (\<lambda>k. \<not> is_scope_key k) keys))
      else check_keys rest)"

definition validate_scope_contract :: "tool \<Rightarrow> tool_error option" where
  "validate_scope_contract t =
     (case check_keys
             [(''scope keys'', t_scope_keys t),
              (''required grant scope keys'', t_required_grant_scope_keys t),
              (''result scope keys'', t_result_scope_keys t)] of
        Some e \<Rightarrow> Some e
      | None \<Rightarrow>
          (let missing = sorted_difference (t_required_grant_scope_keys t) (t_scope_keys t);
               unknown = sorted_difference (t_result_scope_keys t) (t_scope_keys t);
               both = sort (remdups (filter (\<lambda>k. k \<in> set (t_required_grant_scope_keys t))
                                       (t_result_scope_keys t)))
           in if missing \<noteq> [] then Some (RequiredNotScopeKeys missing)
              else if t_defers_scope t \<and> t_required_grant_scope_keys t \<noteq> []
              then Some DefersWithRequiredKeys
              else if unknown \<noteq> [] then Some (ResultNotScopeKeys unknown)
              else if both \<noteq> [] then Some (RequiredAndResult both)
              else if t_defers_scope t \<and> t_result_scope_keys t \<noteq> []
              then Some DefersWithResultKeys
              else None))"

text \<open>\<open>ToolDefinition(...)\<close>\<close>

definition make_tool :: "tool \<Rightarrow> tool_error + tool" where
  "make_tool t =
     (if validate_capability_form t \<noteq> [] then Inl (NotACapabilityName (validate_capability_form t))
      else case validate_scope_contract t of Some e \<Rightarrow> Inl e | None \<Rightarrow> Inr t)"

section \<open>The registry\<close>

type_synonym registry = "tool dict"

datatype registry_error = AlreadyRegistered string | SelfModification string string

definition empty_registry :: registry where
  "empty_registry = []"

definition register :: "registry \<Rightarrow> tool \<Rightarrow> registry_error + registry" where
  "register reg t =
     (if dict_get reg (t_name t) \<noteq> None then Inl (AlreadyRegistered (t_name t))
      else if is_forbidden_capability (t_required_capability t) \<or> is_forbidden_capability (t_name t)
      then Inl (SelfModification (t_name t) (t_required_capability t))
      else Inr (dict_set reg (t_name t) t))"

definition registry_get :: "registry \<Rightarrow> string \<Rightarrow> tool option" where
  "registry_get reg name = dict_get reg name"

definition registry_iter :: "registry \<Rightarrow> tool list" where
  "registry_iter reg = map snd reg"

definition registry_len :: "registry \<Rightarrow> nat" where
  "registry_len reg = length reg"

definition registry_names :: "registry \<Rightarrow> string list" where
  "registry_names reg = dict_keys reg"

text \<open>A start-up registers its tools one by one and stops at the first refusal.\<close>

fun register_all :: "registry \<Rightarrow> tool list \<Rightarrow> registry_error + registry" where
  "register_all reg [] = Inr reg"
| "register_all reg (t # ts) =
     (case register reg t of Inl e \<Rightarrow> Inl e | Inr reg' \<Rightarrow> register_all reg' ts)"

section \<open>Lemmas on names and patterns\<close>

lemma capability_token_no_dot: "capability_token s \<Longrightarrow> CHR ''.'' \<notin> set s"
  by (auto simp: capability_token_def capability_char_def list_all_iff py_simps)

lemma dotted_path_chars: "dotted_path s \<Longrightarrow> c \<in> set s \<Longrightarrow> capability_char c \<or> c = CHR ''.''"
  using split_on_covers [of c s "CHR ''.''"]
  by (auto simp: dotted_path_def capability_token_def list_all_iff)

lemma valid_capability_chars:
  "is_valid_capability s \<Longrightarrow> c \<in> set s \<Longrightarrow> capability_char c \<or> c = CHR ''.'' \<or> c = newline"
  unfolding is_valid_capability_def by (erule match_dollar_cases) (auto dest: dotted_path_chars)

lemma valid_capability_no_star: "is_valid_capability s \<Longrightarrow> CHR ''*'' \<notin> set s"
  using valid_capability_chars by (force simp: capability_char_def py_simps)

lemma valid_not_subtree: "is_valid_capability c \<Longrightarrow> \<not> ends_with c ''.*''"
proof
  assume "is_valid_capability c" and "ends_with c ''.*''"
  then have "CHR ''*'' \<in> set c"
    by (auto simp: suffix_def)
  with valid_capability_no_star \<open>is_valid_capability c\<close> show False by blast
qed

text \<open>The three forms of a grant pattern.\<close>

lemma capability_matches_everything [simp]: "capability_matches ''*'' c"
  by (simp add: capability_matches_def)

lemma subtree_not_star: "p @ ''.*'' \<noteq> ''*''"
  by (cases p) auto

lemma capability_matches_subtree:
  "capability_matches (p @ ''.*'') c \<longleftrightarrow> is_valid_capability p \<and> starts_with c (p @ ''.'')"
  using subtree_not_star [of p] by (simp add: capability_matches_def suffixI)

lemma capability_matches_exact:
  "is_valid_capability p \<Longrightarrow> capability_matches p c \<longleftrightarrow> c = p"
  using valid_not_subtree [of p] valid_capability_no_star [of p]
  by (auto simp: capability_matches_def)

lemma capability_matchesE:
  assumes "capability_matches pat c"
  obtains (everything) "pat = ''*''"
  | (subtree) p where "pat = p @ ''.*''" and "is_valid_capability p" and "starts_with c (p @ ''.'')"
  | (exact) "pat = c" and "\<not> ends_with pat ''.*''"
proof -
  consider "pat = ''*''" | "pat \<noteq> ''*''" "ends_with pat ''.*''" | "pat \<noteq> ''*''" "\<not> ends_with pat ''.*''"
    by blast
  then show thesis
  proof cases
    case 2
    then obtain p where p: "pat = p @ ''.*''"
      by (auto simp: suffix_def)
    then show thesis
      using assms capability_matches_subtree subtree by blast
  next
    case 3
    then show thesis
      using assms exact by (simp add: capability_matches_def)
  qed (rule everything)
qed

lemma forbidden_iff:
  "is_forbidden_capability c \<longleftrightarrow>
     (\<exists>f \<in> set FORBIDDEN_CAPABILITY_PREFIXES. c = f \<or> starts_with c (f @ ''.''))"
  by (auto simp: is_forbidden_capability_def list_ex_iff)

text \<open>A capability below \<open>b.\<close> that is forbidden puts \<open>b\<close> inside, or above, a forbidden namespace.\<close>

lemma forbidden_below:
  assumes "is_forbidden_capability c" and "starts_with c (b @ ''.'')"
  shows "is_forbidden_capability b \<or> covers_forbidden_capability b"
proof -
  obtain f where f: "f \<in> set FORBIDDEN_CAPABILITY_PREFIXES" and cf: "c = f \<or> starts_with c (f @ ''.'')"
    using assms(1) by (auto simp: forbidden_iff)
  have up: "starts_with f (b @ ''.'') \<Longrightarrow> covers_forbidden_capability b"
    using f by (auto simp: covers_forbidden_capability_def list_ex_iff)
  show ?thesis
  proof (cases "c = f")
    case True
    with assms(2) up show ?thesis by blast
  next
    case False
    with cf have "starts_with c (f @ ''.'')" by simp
    with assms(2) have "starts_with (f @ ''.'') (b @ ''.'') \<or> starts_with (b @ ''.'') (f @ ''.'')"
      by (metis starts_with_linear)
    then have "starts_with f (b @ ''.'') \<or> f = b \<or> starts_with b (f @ ''.'')"
      by (auto simp: prefix_snoc)
    with up f show ?thesis
      by (auto simp: forbidden_iff)
  qed
qed

lemma grant_pattern_problem_None:
  "grant_pattern_problem pat = None \<longleftrightarrow>
     (let base = (if ends_with pat ''.*'' then removesuffix pat ''.*'' else pat)
      in (pat = ''*'' \<or> is_valid_capability base) \<and> \<not> is_forbidden_capability base
         \<and> \<not> (ends_with pat ''.*'' \<and> covers_forbidden_capability base))"
  by (auto simp: grant_pattern_problem_def Let_def)

text \<open>
  A pattern the grant writers accept, other than the documented \<open>*\<close>, matches no
  capability of a namespace agents must never hold: neither by naming it, nor as a subtree, nor
  as an ancestor of it.
\<close>

theorem accepted_pattern_never_forbidden:
  assumes "grant_pattern_problem pat = None" and "pat \<noteq> ''*''" and "capability_matches pat c"
  shows "\<not> is_forbidden_capability c"
  using assms(3)
proof (cases rule: capability_matchesE)
  case (subtree p)
  then have "\<not> is_forbidden_capability p" and "\<not> covers_forbidden_capability p"
    using assms(1) by (auto simp: grant_pattern_problem_None Let_def suffixI)
  then show ?thesis
    using subtree forbidden_below by blast
next
  case exact
  then show ?thesis
    using assms(1) by (simp add: grant_pattern_problem_None)
qed (use assms in simp)

theorem accepted_pattern_never_forbidden_witness:
  "capability_matches ''github.*'' ''github.issue.read''
   \<and> \<not> is_forbidden_capability ''github.issue.read''"
proof -
  have p: "grant_pattern_problem ''github.*'' = None"
    by (simp add: grant_pattern_problem_def removesuffix_def suffix_def covers_forbidden_capability_def
        is_forbidden_capability_def FORBIDDEN_CAPABILITY_PREFIXES_def is_valid_capability_def
        match_dollar_def dotted_path_def capability_token_def capability_char_def py_simps)
  have m: "capability_matches ''github.*'' ''github.issue.read''"
    by code_simp
  show ?thesis
    using m accepted_pattern_never_forbidden [OF p _ m] by simp
qed

text \<open>
  The names \<open>is_valid_capability\<close> accepts are the dotted paths of
  lowercase tokens and, because \<open>$\<close> also matches before a final newline, the same paths followed
  by one newline character.
\<close>

theorem valid_capability_iff:
  "is_valid_capability s \<longleftrightarrow> dotted_path s \<or> (\<exists>p. s = p @ [newline] \<and> dotted_path p)"
  unfolding is_valid_capability_def
  by (auto elim!: match_dollar_cases intro: match_dollar_body match_dollar_newline)

theorem valid_capability_accepts_newline:
  "is_valid_capability (''system.echo'' @ [newline]) \<and> \<not> dotted_path (''system.echo'' @ [newline])"
  by code_simp

section \<open>The contract of a tool definition\<close>

definition tool_contract :: "tool \<Rightarrow> bool" where
  "tool_contract t \<longleftrightarrow>
     is_valid_capability (t_name t) \<and> is_valid_capability (t_required_capability t)
     \<and> (\<forall>keys \<in> {t_scope_keys t, t_required_grant_scope_keys t, t_result_scope_keys t}.
          distinct keys \<and> (\<forall>k \<in> set keys. is_scope_key k))
     \<and> set (t_required_grant_scope_keys t) \<subseteq> set (t_scope_keys t)
     \<and> set (t_result_scope_keys t) \<subseteq> set (t_scope_keys t)
     \<and> set (t_required_grant_scope_keys t) \<inter> set (t_result_scope_keys t) = {}
     \<and> (t_defers_scope t \<longrightarrow> t_required_grant_scope_keys t = [] \<and> t_result_scope_keys t = [])"

lemma sorted_difference_Nil: "sorted_difference xs ys = [] \<longleftrightarrow> set xs \<subseteq> set ys"
proof -
  have "set (sorted_difference xs ys) = set xs - set ys"
    by (auto simp: sorted_difference_def)
  then show ?thesis
    by (metis Diff_eq_empty_iff set_empty)
qed

lemma sorted_intersection_Nil:
  "sort (remdups (filter (\<lambda>k. k \<in> A) xs)) = [] \<longleftrightarrow> set xs \<inter> A = {}"
proof -
  have "set (sort (remdups (filter (\<lambda>k. k \<in> A) xs))) = set xs \<inter> A"
    by auto
  then show ?thesis
    by (metis set_empty)
qed

lemma check_keys_None:
  "check_keys ks = None \<longleftrightarrow> (\<forall>(n, keys) \<in> set ks. distinct keys \<and> (\<forall>k \<in> set keys. is_scope_key k))"
  by (induction ks rule: check_keys.induct) (auto simp: filter_empty_conv)

lemma validate_capability_form_Nil:
  "validate_capability_form t = [] \<longleftrightarrow>
     is_valid_capability (t_name t) \<and> is_valid_capability (t_required_capability t)"
  by (simp add: validate_capability_form_def)

definition keys_ok :: "string list \<Rightarrow> bool" where
  "keys_ok keys \<longleftrightarrow> distinct keys \<and> (\<forall>k \<in> set keys. is_scope_key k)"

lemma validate_scope_contract_None:
  "validate_scope_contract t = None \<longleftrightarrow>
     keys_ok (t_scope_keys t) \<and> keys_ok (t_required_grant_scope_keys t) \<and> keys_ok (t_result_scope_keys t)
     \<and> set (t_required_grant_scope_keys t) \<subseteq> set (t_scope_keys t)
     \<and> \<not> (t_defers_scope t \<and> t_required_grant_scope_keys t \<noteq> [])
     \<and> set (t_result_scope_keys t) \<subseteq> set (t_scope_keys t)
     \<and> set (t_result_scope_keys t) \<inter> set (t_required_grant_scope_keys t) = {}
     \<and> \<not> (t_defers_scope t \<and> t_result_scope_keys t \<noteq> [])"
proof -
  let ?ks = "[(''scope keys'', t_scope_keys t),
              (''required grant scope keys'', t_required_grant_scope_keys t),
              (''result scope keys'', t_result_scope_keys t)]"
  have ks: "check_keys ?ks = None \<longleftrightarrow> keys_ok (t_scope_keys t)
      \<and> keys_ok (t_required_grant_scope_keys t) \<and> keys_ok (t_result_scope_keys t)"
    by (simp only: check_keys_None) (simp add: keys_ok_def)
  show ?thesis
  proof (cases "check_keys ?ks")
    case None
    then show ?thesis
      using ks by (simp add: validate_scope_contract_def Let_def sorted_difference_Nil
          sorted_intersection_Nil del: check_keys.simps)
  next
    case (Some e)
    then show ?thesis
      using ks by (simp add: validate_scope_contract_def del: check_keys.simps) blast
  qed
qed

lemma tool_contract_iff:
  "tool_contract t \<longleftrightarrow> validate_capability_form t = [] \<and> validate_scope_contract t = None"
  unfolding validate_capability_form_Nil validate_scope_contract_None tool_contract_def keys_ok_def
  by blast

text \<open>
  A tool definition is constructed exactly when it meets its contract: names in
  dotted form, three lists of distinct well-formed keys, required and result keys that are scope
  keys, no key in both roles, and neither role for a tool that defers its scope.
\<close>

theorem make_tool_iff: "make_tool t = Inr u \<longleftrightarrow> u = t \<and> tool_contract t"
  by (auto simp: make_tool_def tool_contract_iff split: option.splits)

section \<open>The registry as a map\<close>

definition forbidden_tool :: "tool \<Rightarrow> bool" where
  "forbidden_tool t \<longleftrightarrow>
     is_forbidden_capability (t_required_capability t) \<or> is_forbidden_capability (t_name t)"

lemma dict_set_new: "dict_get d k = None \<Longrightarrow> dict_set d k v = d @ [(k, v)]"
  by (induction d k v rule: dict_set.induct) (auto simp: dict_get_def)

lemma register_Inr:
  "register reg t = Inr reg' \<longleftrightarrow>
     dict_get reg (t_name t) = None \<and> \<not> forbidden_tool t \<and> reg' = reg @ [(t_name t, t)]"
  by (auto simp: register_def forbidden_tool_def dict_set_new)

lemma register_all_Inr:
  "register_all reg ts = Inr reg' \<longleftrightarrow>
     reg' = reg @ map (\<lambda>t. (t_name t, t)) ts
     \<and> distinct (map t_name ts) \<and> set (map t_name ts) \<inter> set (dict_keys reg) = {}
     \<and> (\<forall>t \<in> set ts. \<not> forbidden_tool t)"
proof (induction ts arbitrary: reg)
  case (Cons t ts)
  show ?case
  proof (cases "register reg t")
    case (Inl e)
    then have "dict_get reg (t_name t) \<noteq> None \<or> forbidden_tool t"
      by (auto simp: register_def forbidden_tool_def split: if_splits)
    with Inl show ?thesis
      using dict_get_in_keys [of reg "t_name t"] by auto
  next
    case (Inr r)
    then have "dict_get reg (t_name t) = None" "\<not> forbidden_tool t" "r = reg @ [(t_name t, t)]"
      by (auto simp: register_Inr)
    with Inr Cons.IH [of r] show ?thesis
      using dict_get_in_keys [of reg "t_name t"] by (auto simp: dict_keys_def)
  qed
qed auto

text \<open>
  Registering a list of tools succeeds exactly when their names are distinct and
  none of them lies in a forbidden namespace, and then the registry is the map from each name to
  its tool, in registration order.
\<close>

theorem register_all_iff:
  "register_all empty_registry ts = Inr reg \<longleftrightarrow>
     distinct (map t_name ts) \<and> list_all (\<lambda>t. \<not> forbidden_tool t) ts
     \<and> registry_iter reg = ts \<and> registry_names reg = map t_name ts"
proof -
  have "registry_iter reg = ts \<and> registry_names reg = map t_name ts \<longleftrightarrow> reg = map (\<lambda>t. (t_name t, t)) ts"
    by (auto simp: registry_iter_def registry_names_def dict_keys_def o_def
        intro!: nth_equalityI prod_eqI dest: arg_cong [of _ _ length])
  then show ?thesis
    by (auto simp: register_all_Inr empty_registry_def dict_keys_def list_all_iff)
qed

lemma registry_get_iff:
  assumes "register_all empty_registry ts = Inr reg"
  shows "registry_get reg n = Some t \<longleftrightarrow> t \<in> set ts \<and> t_name t = n"
proof -
  have "reg = map (\<lambda>t. (t_name t, t)) ts" and "distinct (map t_name ts)"
    using assms by (auto simp: register_all_Inr empty_registry_def)
  then show ?thesis
    by (auto simp: registry_get_def dict_get_def o_def map_of_eq_Some_iff)
qed

end
