(* ===== verification/Glob.thy ===== *)
theory Glob
  imports Prelude
begin

text \<open>
  \<open>fnmatch.fnmatchcase\<close> of the Python standard library, which the policy package uses for scope
  values and repository names: the translation of a pattern into tokens (with its treatment of
  character classes, empty ranges and unclosed brackets) and the match of a whole string.
  The lemmas give the language of the patterns the code writes: a pattern without special
  characters matches only itself, and a literal followed by a star matches its extensions.
\<close>

section \<open>Patterns as tokens\<close>

datatype gtok =
    GStar
  | GAny
  | GNever
  | GLit char
  | GClass bool "(char \<times> char) list"

text \<open>The text of a class up to its closing bracket, and what follows; \<open>None\<close> when unclosed.\<close>

definition find_close :: "string \<Rightarrow> (string \<times> string) option" where
  "find_close s =
     (let neg = (if starts_with s ''!'' then ''!'' else []);
          s1 = drop (length neg) s;
          br = (if starts_with s1 '']'' then '']'' else []);
          s2 = drop (length br) s1;
          body = takeWhile (\<lambda>c. c \<noteq> CHR '']'') s2
      in case drop (length body) s2 of
           [] \<Rightarrow> None
         | _ # rest \<Rightarrow> Some (neg @ br @ body, rest))"

text \<open>The first hyphen at an index not below \<open>k\<close>: what precedes and what follows it.\<close>

fun find_dash :: "nat \<Rightarrow> string \<Rightarrow> (string \<times> string) option" where
  "find_dash k [] = None"
| "find_dash 0 (c # cs) =
     (if c = CHR ''-'' then Some ([], cs)
      else map_option (\<lambda>(a, b). (c # a, b)) (find_dash 0 cs))"
| "find_dash (Suc k) (c # cs) = map_option (\<lambda>(a, b). (c # a, b)) (find_dash k cs)"

lemma find_dash_shorter: "find_dash k s = Some (a, b) \<Longrightarrow> length b < length s"
  by (induction k s arbitrary: a b rule: find_dash.induct) (auto split: if_splits)

function range_chunks :: "nat \<Rightarrow> string \<Rightarrow> string list" where
  "range_chunks k s =
     (case find_dash k s of
        None \<Rightarrow> [s]
      | Some (a, b) \<Rightarrow> (if b = [] then [a @ ''-''] else a # range_chunks 2 b))"
  by pat_completeness auto
termination
  by (relation "measure (\<lambda>(k, s). length s)") (auto dest: find_dash_shorter)

declare range_chunks.simps [simp del]

text \<open>Empty ranges are removed from the right, as the library's loop does.\<close>

fun drop_empty_ranges :: "string list \<Rightarrow> string list" where
  "drop_empty_ranges [] = []"
| "drop_empty_ranges (c # cs) =
     (case drop_empty_ranges cs of
        [] \<Rightarrow> [c]
      | d # ds \<Rightarrow>
          (if hd d < last c then (butlast c @ tl d) # ds else c # d # ds))"

fun class_items :: "string list \<Rightarrow> (char \<times> char) list" where
  "class_items [] = []"
| "class_items [c] = map (\<lambda>x. (x, x)) c"
| "class_items (c # d # ds) =
     map (\<lambda>x. (x, x)) (butlast c) @ (last c, hd d) # class_items (tl d # ds)"

definition class_token :: "string \<Rightarrow> gtok" where
  "class_token stuff =
     (let chunks =
            (if CHR ''-'' \<in> set stuff
             then drop_empty_ranges (range_chunks (if starts_with stuff ''!'' then 2 else 1) stuff)
             else [stuff])
      in case chunks of
           [] \<Rightarrow> GNever
         | c # cs \<Rightarrow>
             (if c = [] \<and> cs = [] then GNever
              else if c = ''!'' \<and> cs = [] then GAny
              else if starts_with c ''!'' then GClass True (class_items (tl c # cs))
              else GClass False (class_items chunks)))"

lemma find_close_shorter:
  assumes "find_close s = Some (a, b)"
  shows "length b < length s"
proof -
  define s1 where "s1 = drop (length (if starts_with s ''!'' then ''!'' else [])) s"
  define s2 where "s2 = drop (length (if starts_with s1 '']'' then '']'' else [])) s1"
  define n where "n = length (takeWhile (\<lambda>c. c \<noteq> CHR '']'') s2)"
  obtain c where "drop n s2 = c # b"
    using assms unfolding find_close_def Let_def
    by (fold s1_def, fold s2_def, fold n_def) (auto split: list.splits)
  then have "length (drop n s2) = Suc (length b)"
    by simp
  moreover have "length s2 \<le> length s"
    unfolding s2_def s1_def by simp
  ultimately show ?thesis
    by simp
qed

function glob_tokens :: "string \<Rightarrow> gtok list" where
  "glob_tokens [] = []"
| "glob_tokens (c # cs) =
     (if c = CHR ''*'' then GStar # glob_tokens cs
      else if c = CHR ''?'' then GAny # glob_tokens cs
      else if c = CHR ''['' then
        (case find_close cs of
           None \<Rightarrow> GLit c # glob_tokens cs
         | Some (stuff, rest) \<Rightarrow> class_token stuff # glob_tokens rest)
      else GLit c # glob_tokens cs)"
  by pat_completeness auto
termination
  by (relation "measure length") (auto dest: find_close_shorter)

section \<open>Matching\<close>

fun tok_matches :: "gtok \<Rightarrow> char \<Rightarrow> bool" where
  "tok_matches GStar c = True"
| "tok_matches GAny c = True"
| "tok_matches GNever c = False"
| "tok_matches (GLit d) c = (d = c)"
| "tok_matches (GClass neg items) c = (neg \<noteq> list_ex (\<lambda>(lo, hi). lo \<le> c \<and> c \<le> hi) items)"

fun glob_match :: "gtok list \<Rightarrow> string \<Rightarrow> bool" where
  "glob_match [] s = (s = [])"
| "glob_match (GStar # ts) [] = glob_match ts []"
| "glob_match (GStar # ts) (x # xs) = (glob_match ts (x # xs) \<or> glob_match (GStar # ts) xs)"
| "glob_match (t # ts) [] = False"
| "glob_match (t # ts) (x # xs) = (tok_matches t x \<and> glob_match ts xs)"

definition fnmatchcase :: "string \<Rightarrow> string \<Rightarrow> bool" where
  "fnmatchcase name pat = glob_match (glob_tokens pat) name"

section \<open>The language of a pattern\<close>

definition glob_plain :: "string \<Rightarrow> bool" where
  "glob_plain p \<longleftrightarrow> CHR ''*'' \<notin> set p \<and> CHR ''?'' \<notin> set p \<and> CHR ''['' \<notin> set p"

lemma glob_star_iff: "glob_match (GStar # ts) s \<longleftrightarrow> (\<exists>a b. s = a @ b \<and> glob_match ts b)"
proof (induction s)
  case (Cons x xs)
  show ?case
  proof
    assume "glob_match (GStar # ts) (x # xs)"
    then show "\<exists>a b. x # xs = a @ b \<and> glob_match ts b"
      using Cons.IH by (metis append_Cons append_Nil glob_match.simps(3))
  next
    assume "\<exists>a b. x # xs = a @ b \<and> glob_match ts b"
    then show "glob_match (GStar # ts) (x # xs)"
      using Cons.IH by (metis append_eq_Cons_conv glob_match.simps(3))
  qed
qed simp

lemma glob_match_lits: "glob_match (map GLit p @ ts) s \<longleftrightarrow> (\<exists>b. s = p @ b \<and> glob_match ts b)"
proof (induction p arbitrary: s)
  case (Cons x p)
  then show ?case
    by (cases s) auto
qed simp

lemma glob_tokens_plain: "glob_plain p \<Longrightarrow> glob_tokens (p @ q) = map GLit p @ glob_tokens q"
  by (induction p) (auto simp: glob_plain_def)

lemma fnmatch_plain: "glob_plain p \<Longrightarrow> fnmatchcase s p \<longleftrightarrow> s = p"
  using glob_tokens_plain [of p "[]"] glob_match_lits [of p "[]" s]
  by (auto simp: fnmatchcase_def)

lemma fnmatch_star [simp]: "fnmatchcase s ''*''"
  using glob_star_iff [of "[]" s] by (auto simp: fnmatchcase_def)

lemma fnmatch_plain_star: "glob_plain p \<Longrightarrow> fnmatchcase s (p @ ''*'') \<longleftrightarrow> starts_with s p"
proof -
  assume p: "glob_plain p"
  have "glob_match [GStar] b" for b
    using glob_star_iff [of "[]" b] by auto
  then show ?thesis
    using glob_tokens_plain [OF p, of "''*''"] glob_match_lits [of p "[GStar]" s]
    by (auto simp: fnmatchcase_def prefix_def)
qed

lemma tokens_no_star_match_plain_char:
  "glob_match (GLit c # ts) s \<Longrightarrow> \<exists>t. s = c # t \<and> glob_match ts t"
  by (cases s) auto

section \<open>Concatenation\<close>

lemma glob_match_append:
  "glob_match (ts @ us) s \<longleftrightarrow> (\<exists>a b. s = a @ b \<and> glob_match ts a \<and> glob_match us b)"
proof (induction ts arbitrary: s)
  case (Cons t ts)
  show ?case
  proof (cases "t = GStar")
    case True
    have "glob_match ((t # ts) @ us) s \<longleftrightarrow> (\<exists>c d. s = c @ d \<and> glob_match (ts @ us) d)"
      using True by (simp add: glob_star_iff)
    also have "\<dots> \<longleftrightarrow> (\<exists>c a b. s = (c @ a) @ b \<and> glob_match ts a \<and> glob_match us b)"
      unfolding Cons.IH append_assoc by blast
    also have "\<dots> \<longleftrightarrow> (\<exists>a b. s = a @ b \<and> glob_match (t # ts) a \<and> glob_match us b)"
      unfolding True glob_star_iff by blast
    finally show ?thesis .
  next
    case False
    then have step: "glob_match (t # vs) (x # xs) \<longleftrightarrow> tok_matches t x \<and> glob_match vs xs"
      and nil: "\<not> glob_match (t # vs) []" for vs x xs
      by (cases t; simp)+
    show ?thesis
    proof (cases s)
      case Nil
      then show ?thesis
        using nil by auto
    next
      case (Cons x xs)
      have "(\<exists>a b. x # xs = a @ b \<and> glob_match (t # ts) a \<and> glob_match us b) \<longleftrightarrow>
            (\<exists>a b. xs = a @ b \<and> glob_match (t # ts) (x # a) \<and> glob_match us b)"
        by (auto simp: Cons_eq_append_conv nil)
      then show ?thesis
        using Cons Cons.IH step by auto
    qed
  qed
qed simp

text \<open>A literal of the pattern occurs in every string it matches.\<close>

lemma glob_match_literal: "glob_match ts s \<Longrightarrow> GLit c \<in> set ts \<Longrightarrow> c \<in> set s"
  by (induction ts s rule: glob_match.induct) auto

lemma find_close_append: "find_close s = Some (a, b) \<Longrightarrow> find_close (s @ q) = Some (a, b @ q)"
proof -
  assume fc: "find_close s = Some (a, b)"
  define neg where "neg = (if starts_with s ''!'' then ''!'' else [])"
  define s1 where "s1 = drop (length neg) s"
  define br where "br = (if starts_with s1 '']'' then '']'' else [])"
  define s2 where "s2 = drop (length br) s1"
  define body where "body = takeWhile (\<lambda>c. c \<noteq> CHR '']'') s2"
  from fc obtain c where d: "drop (length body) s2 = c # b" and a: "a = neg @ br @ body"
    unfolding find_close_def Let_def
    by (fold neg_def, fold s1_def, fold br_def, fold s2_def, fold body_def) (auto split: list.splits)
  have dw: "dropWhile (\<lambda>c. c \<noteq> CHR '']'') s2 = c # b"
    using d by (simp add: body_def dropWhile_eq_drop)
  then have split: "s2 = takeWhile (\<lambda>c. c \<noteq> CHR '']'') s2 @ c # b" and c: "c = CHR '']''"
    by (simp_all only: dropWhile_eq_Cons_conv) blast
  have mem: "CHR '']'' \<in> set s2"
    by (subst split) (simp add: c)
  have "s2 \<noteq> []" using mem by auto
  then have s1ne: "s1 \<noteq> []" and sne: "s \<noteq> []"
    by (auto simp: s2_def s1_def)
  have neg': "(if starts_with (s @ q) ''!'' then ''!'' else []) = neg"
    using sne by (cases s) (auto simp: neg_def)
  have s1': "drop (length neg) (s @ q) = s1 @ q"
    using sne by (cases s) (auto simp: s1_def neg_def)
  have br': "(if starts_with (s1 @ q) '']'' then '']'' else []) = br"
    using s1ne by (cases s1) (auto simp: br_def)
  have s2': "drop (length br) (s1 @ q) = s2 @ q"
    using s1ne by (cases s1) (auto simp: s2_def br_def)
  have body': "takeWhile (\<lambda>c. c \<noteq> CHR '']'') (s2 @ q) = body"
    using mem by (simp add: body_def takeWhile_append1)
  have rest: "drop (length body) (s2 @ q) = c # b @ q"
  proof -
    have "length body < length s2"
      using d by (metis drop_all leI list.distinct(1))
    then show ?thesis using d by simp
  qed
  show ?thesis
    unfolding find_close_def Let_def neg' s1' br' s2' body' rest using a by simp
qed

lemma glob_tokens_append:
  "GLit CHR ''['' \<notin> set (glob_tokens p) \<Longrightarrow> glob_tokens (p @ q) = glob_tokens p @ glob_tokens q"
  by (induction p rule: glob_tokens.induct) (auto split: option.splits if_splits simp: find_close_append)

text \<open>
  Matching the two sides of a separator is matching the whole, for names without an opening
  bracket (a bracket of the pattern that only a later segment closes could match nothing there).
\<close>

lemma fnmatch_append:
  assumes "fnmatchcase a p" and "fnmatchcase b q" and "CHR ''['' \<notin> set a"
  shows "fnmatchcase (a @ b) (p @ q)"
proof -
  have "GLit CHR ''['' \<notin> set (glob_tokens p)"
    using assms(1,3) glob_match_literal unfolding fnmatchcase_def by blast
  then have "glob_tokens (p @ q) = glob_tokens p @ glob_tokens q"
    by (rule glob_tokens_append)
  then show ?thesis
    using assms(1,2) by (auto simp: fnmatchcase_def glob_match_append)
qed

end
