(* ===== verification/Repositories.thy ===== *)
theory Repositories
  imports Glob
begin

text \<open>
  \<open>packages/policy/src/jhin_policy/repositories.py\<close>: what an \<open>owner/name\<close> repository is, what a
  repository pattern is, and when a pattern or an allow-list covers a repository. The module is
  pure; its regular expressions are written \<open>re.match(r"^[...]+$", s)\<close> and are modelled with
  \<^const>\<open>match_dollar\<close>.
\<close>

definition ANY_REPOSITORY :: string where
  "ANY_REPOSITORY = ''*''"

definition segment_char :: "char \<Rightarrow> bool" where
  "segment_char c \<longleftrightarrow>
     ascii_upper c \<or> ascii_lower c \<or> ascii_digit c \<or> c = CHR ''_'' \<or> c = CHR ''.'' \<or> c = CHR ''-''"

definition pattern_segment_char :: "char \<Rightarrow> bool" where
  "pattern_segment_char c \<longleftrightarrow> segment_char c \<or> c = CHR ''*''"

definition SEGMENT :: "string \<Rightarrow> bool" where
  "SEGMENT = match_dollar (\<lambda>s. s \<noteq> [] \<and> list_all segment_char s)"

definition PATTERN_SEGMENT :: "string \<Rightarrow> bool" where
  "PATTERN_SEGMENT = match_dollar (\<lambda>s. s \<noteq> [] \<and> list_all pattern_segment_char s)"

definition is_plain_repository :: "string \<Rightarrow> bool" where
  "is_plain_repository repository =
     (let segments = split_on CHR ''/'' repository
      in length segments = 2
         \<and> list_all (\<lambda>segment. segment \<notin> {''.'', ''..''} \<and> SEGMENT segment) segments)"

definition is_repository_pattern :: "string \<Rightarrow> bool" where
  "is_repository_pattern v =
     (if v = ANY_REPOSITORY then True
      else (let segments = split_on CHR ''/'' v
            in length segments = 2
               \<and> list_all (\<lambda>segment. segment \<notin> {''.'', ''..''} \<and> PATTERN_SEGMENT segment) segments))"

definition repository_matches :: "string \<Rightarrow> string \<Rightarrow> bool" where
  "repository_matches pat repository =
     (if \<not> is_plain_repository repository then False
      else if pat = ANY_REPOSITORY then True
      else (let pattern_parts = split_on CHR ''/'' pat;
                repository_parts = split_on CHR ''/'' repository
            in if length pattern_parts \<noteq> length repository_parts then False
               else list_all (\<lambda>(expected, part). fnmatchcase part expected)
                      (zip pattern_parts repository_parts)))"

definition repository_covered_by_allow_list :: "string \<Rightarrow> string list \<Rightarrow> bool" where
  "repository_covered_by_allow_list entry allowed =
     (if ANY_REPOSITORY \<in> set allowed then True
      else if CHR ''*'' \<in> set entry then entry \<in> set allowed
      else list_ex (\<lambda>pat. repository_matches pat entry) allowed)"

lemmas repo_defs [decision_simps] =
  ANY_REPOSITORY_def is_plain_repository_def repository_matches_def
  repository_covered_by_allow_list_def

section \<open>Names\<close>

lemma segment_char_plain: "segment_char c \<Longrightarrow> c \<noteq> CHR ''*'' \<and> c \<noteq> CHR ''?'' \<and> c \<noteq> CHR ''['' \<and> c \<noteq> CHR ''/''"
  by (auto simp: segment_char_def py_simps)

lemma SEGMENT_glob_plain: "SEGMENT s \<Longrightarrow> glob_plain s"
proof -
  assume "SEGMENT s"
  then have "\<forall>c \<in> set s. segment_char c \<or> c = newline"
    unfolding SEGMENT_def by (rule match_dollar_cases) (auto simp: list_all_iff)
  then show ?thesis
    using segment_char_plain by (fastforce simp: glob_plain_def)
qed

lemma plain_repositoryE:
  assumes "is_plain_repository r"
  obtains a b where "split_on CHR ''/'' r = [a, b]" and "r = a @ ''/'' @ b"
    and "SEGMENT a" and "SEGMENT b" and "a \<notin> {''.'', ''..''}" and "b \<notin> {''.'', ''..''}"
proof -
  let ?segs = "split_on CHR ''/'' r"
  have "length ?segs = Suc (Suc 0)" and ok: "list_all (\<lambda>s. s \<notin> {''.'', ''..''} \<and> SEGMENT s) ?segs"
    using assms by (auto simp: is_plain_repository_def Let_def)
  then obtain a b where ab: "?segs = [a, b]"
    by (auto simp: length_Suc_conv)
  moreover have "r = a @ ''/'' @ b"
    using join_split_on [of "CHR ''/''" r] ab by simp
  ultimately show thesis
    using ok that by simp
qed

section \<open>Matching\<close>

lemma repository_matches_plain: "repository_matches p r \<Longrightarrow> is_plain_repository r"
  by (simp add: repository_matches_def split: if_splits)

lemma repository_matches_two:
  assumes "p \<noteq> ANY_REPOSITORY"
  shows "repository_matches p r \<longleftrightarrow>
    (\<exists>p1 p2 a b. split_on CHR ''/'' p = [p1, p2] \<and> split_on CHR ''/'' r = [a, b]
       \<and> is_plain_repository r \<and> fnmatchcase a p1 \<and> fnmatchcase b p2)"
    (is "?l = ?r")
proof
  assume l: ?l
  then obtain a b where ab: "split_on CHR ''/'' r = [a, b]"
    by (meson plain_repositoryE repository_matches_plain)
  with l assms have "length (split_on CHR ''/'' p) = Suc (Suc 0)"
    by (auto simp: repository_matches_def Let_def split: if_splits)
  then obtain p1 p2 where "split_on CHR ''/'' p = [p1, p2]"
    by (auto simp: length_Suc_conv)
  with l ab assms show ?r
    by (auto simp: repository_matches_def Let_def split: if_splits)
next
  assume ?r
  with assms show ?l
    by (auto simp: repository_matches_def Let_def)
qed

text \<open>A plain name used as a pattern matches only itself.\<close>

lemma repository_matches_literal:
  assumes "is_plain_repository e" and "e \<noteq> ANY_REPOSITORY"
  shows "repository_matches e r \<longleftrightarrow> r = e"
proof -
  obtain a b where e: "split_on CHR ''/'' e = [a, b]" "e = a @ ''/'' @ b" "SEGMENT a" "SEGMENT b"
    using assms(1) by (rule plain_repositoryE)
  have ga: "glob_plain a" and gb: "glob_plain b"
    using e SEGMENT_glob_plain by auto
  show ?thesis
  proof
    assume "repository_matches e r"
    then obtain c d where "split_on CHR ''/'' r = [c, d]" "fnmatchcase c a" "fnmatchcase d b"
      using e assms(2) by (auto simp: repository_matches_two)
    then have "split_on CHR ''/'' r = split_on CHR ''/'' e"
      using fnmatch_plain ga gb e by simp
    then show "r = e"
      by (metis join_split_on)
  next
    assume "r = e"
    then show "repository_matches e r"
      using e assms ga gb by (auto simp: repository_matches_two fnmatch_plain)
  qed
qed

lemma plain_repository_not_any: "is_plain_repository e \<Longrightarrow> e \<noteq> ANY_REPOSITORY"
  by (auto simp: is_plain_repository_def ANY_REPOSITORY_def)

section \<open>Properties\<close>

lemma SEGMENT_iff:
  "SEGMENT s \<longleftrightarrow> (s \<noteq> [] \<and> list_all segment_char s)
     \<or> (\<exists>t. s = t @ [newline] \<and> t \<noteq> [] \<and> list_all segment_char t)"
  unfolding SEGMENT_def by (auto elim!: match_dollar_cases intro: match_dollar_body match_dollar_newline)

lemma SEGMENT_no_bracket: "SEGMENT s \<Longrightarrow> CHR ''['' \<notin> set s"
  using SEGMENT_glob_plain by (auto simp: glob_plain_def)

text \<open>A match by segments is a match of the whole name by the same pattern.\<close>

lemma repository_matches_fnmatch: "repository_matches p r \<Longrightarrow> fnmatchcase r p"
proof (cases "p = ANY_REPOSITORY")
  case False
  assume "repository_matches p r"
  then obtain p1 p2 a b where s: "split_on CHR ''/'' p = [p1, p2]" "split_on CHR ''/'' r = [a, b]"
    "is_plain_repository r" and m: "fnmatchcase a p1" "fnmatchcase b p2"
    using False by (auto simp: repository_matches_two)
  have p: "p = p1 @ ''/'' @ p2" and r: "r = a @ ''/'' @ b"
    using join_split_on [of "CHR ''/''" p] join_split_on [of "CHR ''/''" r] s by simp_all
  have "CHR ''['' \<notin> set a"
    using s plain_repositoryE [of r] SEGMENT_no_bracket by (metis list.inject)
  moreover have "fnmatchcase ''/'' ''/''"
    by code_simp
  then have "fnmatchcase (''/'' @ b) (''/'' @ p2)"
    using m(2) by (rule fnmatch_append) simp
  ultimately show "fnmatchcase r p"
    unfolding p r using m(1) fnmatch_append by blast
qed (simp add: ANY_REPOSITORY_def)

text \<open>
  A pattern \<open>owner/*\<close> covers exactly the repositories of that owner: the star
  never crosses the slash, so \<open>octo/*\<close> does not reach \<open>octo-labs\<close>.
\<close>

theorem owner_star_matches:
  assumes "SEGMENT owner" and "CHR ''/'' \<notin> set owner"
  shows "repository_matches (owner @ ''/*'') r \<longleftrightarrow>
           is_plain_repository r \<and> hd (split_on CHR ''/'' r) = owner"
proof -
  have s: "split_on CHR ''/'' (owner @ ''/*'') = [owner, ''*'']"
    using split_on_append [OF assms(2), of "''*''"] by simp
  have ne: "owner @ ''/*'' \<noteq> ANY_REPOSITORY"
    by (cases owner) (auto simp: ANY_REPOSITORY_def)
  have g: "fnmatchcase a owner \<longleftrightarrow> a = owner" for a
    using fnmatch_plain SEGMENT_glob_plain assms(1) by blast
  show ?thesis
  proof
    assume "repository_matches (owner @ ''/*'') r"
    then show "is_plain_repository r \<and> hd (split_on CHR ''/'' r) = owner"
      unfolding repository_matches_two [OF ne] s using g by (clarsimp simp del: split_on.simps)
  next
    assume r: "is_plain_repository r \<and> hd (split_on CHR ''/'' r) = owner"
    then obtain a b where "split_on CHR ''/'' r = [a, b]"
      by (meson plain_repositoryE)
    with r show "repository_matches (owner @ ''/*'') r"
      unfolding repository_matches_two [OF ne] s using g by (simp del: split_on.simps)
  qed
qed

theorem owner_star_matches_witness:
  "repository_matches (''octo'' @ ''/*'') ''octo/alpha''
   \<and> \<not> repository_matches (''octo'' @ ''/*'') ''octo-labs/alpha''"
proof -
  have o: "SEGMENT ''octo''" and n: "CHR ''/'' \<notin> set ''octo''"
    by code_simp+
  have "is_plain_repository ''octo/alpha''"
    by code_simp
  then show ?thesis
    unfolding owner_star_matches [OF o n] by simp
qed

text \<open>
  The allow-list check of a grant writer is sound: an entry it finds covered covers
  nothing that some entry of the allow-list does not cover as well.
\<close>

theorem covered_entry_contained:
  assumes "repository_covered_by_allow_list entry allow" and "repository_matches entry r"
  shows "\<exists>pat \<in> set allow. repository_matches pat r"
proof (cases "ANY_REPOSITORY \<in> set allow \<or> CHR ''*'' \<in> set entry")
  case True
  then have "ANY_REPOSITORY \<in> set allow \<or> entry \<in> set allow"
    using assms(1) by (auto simp: repository_covered_by_allow_list_def split: if_splits)
  moreover have "repository_matches ANY_REPOSITORY r"
    using repository_matches_plain [OF assms(2)] by (simp add: repository_matches_def)
  ultimately show ?thesis
    using assms(2) by blast
next
  case False
  then obtain pat where pat: "pat \<in> set allow" "repository_matches pat entry"
    using assms(1) by (auto simp: repository_covered_by_allow_list_def list_ex_iff)
  have "is_plain_repository entry"
    using pat(2) by (rule repository_matches_plain)
  moreover have "entry \<noteq> ANY_REPOSITORY"
    using False by (auto simp: ANY_REPOSITORY_def)
  ultimately have "r = entry"
    using assms(2) repository_matches_literal by blast
  with pat show ?thesis by blast
qed

theorem covered_entry_contained_witness:
  "\<exists>pat \<in> set [''octo/*'']. repository_matches pat ''octo/alpha''"
proof -
  have c: "repository_covered_by_allow_list ''octo/alpha'' [''octo/*'']"
    by code_simp
  have m: "repository_matches ''octo/alpha'' ''octo/alpha''"
    by code_simp
  show ?thesis
    by (rule covered_entry_contained [OF c m])
qed

text \<open>
  Both halves of a plain repository are made of name characters
  and are not a dot name, except that each may end in one newline: the value \<open>..\<close> followed by a
  newline is accepted as a name although \<open>..\<close> is refused.
\<close>

theorem plain_repository_iff:
  "is_plain_repository r \<longleftrightarrow>
     (\<exists>a b. r = a @ ''/'' @ b \<and> CHR ''/'' \<notin> set a \<and> CHR ''/'' \<notin> set b
        \<and> a \<notin> {''.'', ''..''} \<and> b \<notin> {''.'', ''..''} \<and> SEGMENT a \<and> SEGMENT b)"
proof
  assume p: "is_plain_repository r"
  then obtain a b where "split_on CHR ''/'' r = [a, b]" "r = a @ ''/'' @ b" "SEGMENT a" "SEGMENT b"
    "a \<notin> {''.'', ''..''}" "b \<notin> {''.'', ''..''}"
    by (rule plain_repositoryE)
  moreover from this(1) have "CHR ''/'' \<notin> set a" "CHR ''/'' \<notin> set b"
    using split_on_no_sep [of _ "CHR ''/''" r] by auto
  ultimately show "\<exists>a b. r = a @ ''/'' @ b \<and> CHR ''/'' \<notin> set a \<and> CHR ''/'' \<notin> set b
        \<and> a \<notin> {''.'', ''..''} \<and> b \<notin> {''.'', ''..''} \<and> SEGMENT a \<and> SEGMENT b"
    by blast
next
  assume "\<exists>a b. r = a @ ''/'' @ b \<and> CHR ''/'' \<notin> set a \<and> CHR ''/'' \<notin> set b
        \<and> a \<notin> {''.'', ''..''} \<and> b \<notin> {''.'', ''..''} \<and> SEGMENT a \<and> SEGMENT b"
  then show "is_plain_repository r"
    by (auto simp: is_plain_repository_def Let_def split_on_append split_on_free simp del: split_on.simps)
qed

theorem plain_repository_accepts_dotdot_newline:
  "is_plain_repository (''octo/..'' @ [newline]) \<and> \<not> is_plain_repository ''octo/..''"
  by code_simp

end
