(* ===== verification/PyValue.thy ===== *)
theory PyValue
  imports Prelude Complex_Main
begin

text \<open>
  The values a JSON document holds once Python has decoded it, with Python's \<open>==\<close>, \<open>in\<close> and
  truth value. Booleans are integers to \<open>==\<close> (\<open>True == 1\<close>), integers and floats compare by
  value (a finite float is the rational it stands for), and dictionaries compare without regard
  to the order of their keys.
\<close>

datatype pyval =
    PNone
  | PBool bool
  | PInt int
  | PFloat rat
  | PStr string
  | PList "pyval list"
  | PDict "(string \<times> pyval) list"

fun num_of :: "pyval \<Rightarrow> rat option" where
  "num_of (PBool b) = Some (if b then 1 else 0)"
| "num_of (PInt i) = Some (of_int i)"
| "num_of (PFloat r) = Some r"
| "num_of _ = None"

fun py_eq :: "pyval \<Rightarrow> pyval \<Rightarrow> bool"
  and py_eq_list :: "pyval list \<Rightarrow> pyval list \<Rightarrow> bool"
  and py_eq_sub :: "(string \<times> pyval) list \<Rightarrow> (string \<times> pyval) list \<Rightarrow> bool" where
  "py_eq PNone w = (w = PNone)"
| "py_eq (PStr s) w = (w = PStr s)"
| "py_eq (PList xs) w = (case w of PList ys \<Rightarrow> py_eq_list xs ys | _ \<Rightarrow> False)"
| "py_eq (PDict d) w =
     (case w of PDict e \<Rightarrow> length d = length e \<and> py_eq_sub d e | _ \<Rightarrow> False)"
| "py_eq v w = (case num_of w of None \<Rightarrow> False | Some r \<Rightarrow> num_of v = Some r)"
| "py_eq_list [] ys = (ys = [])"
| "py_eq_list (x # xs) ys =
     (case ys of [] \<Rightarrow> False | y # zs \<Rightarrow> py_eq x y \<and> py_eq_list xs zs)"
| "py_eq_sub [] e = True"
| "py_eq_sub ((k, v) # d) e =
     ((case map_of e k of None \<Rightarrow> False | Some w \<Rightarrow> py_eq v w) \<and> py_eq_sub d e)"

text \<open>\<open>v in xs\<close> for a list\<close>

definition py_in :: "pyval \<Rightarrow> pyval list \<Rightarrow> bool" where
  "py_in v xs = list_ex (py_eq v) xs"

fun py_truthy :: "pyval \<Rightarrow> bool" where
  "py_truthy PNone = False"
| "py_truthy (PBool b) = b"
| "py_truthy (PInt i) = (i \<noteq> 0)"
| "py_truthy (PFloat r) = (r \<noteq> 0)"
| "py_truthy (PStr s) = (s \<noteq> [])"
| "py_truthy (PList xs) = (xs \<noteq> [])"
| "py_truthy (PDict d) = (d \<noteq> [])"

text \<open>Every dictionary inside the value has distinct keys, as every Python \<open>dict\<close> does.\<close>

fun wf_py :: "pyval \<Rightarrow> bool" where
  "wf_py (PList xs) = list_all wf_py xs"
| "wf_py (PDict d) = (distinct (map fst d) \<and> list_all (\<lambda>(k, v). wf_py v) d)"
| "wf_py _ = True"

lemma py_eq_str [simp]: "py_eq v (PStr s) \<longleftrightarrow> v = PStr s"
  by (cases v) auto

lemma py_eq_list_refl: "\<forall>x \<in> set xs. py_eq x x \<Longrightarrow> py_eq_list xs xs"
  by (induction xs) auto

lemma py_eq_sub_refl:
  "\<forall>(k, v) \<in> set d. py_eq v v \<and> map_of e k = Some v \<Longrightarrow> py_eq_sub d e"
  by (induction d) auto

lemma py_eq_refl: "wf_py v \<Longrightarrow> py_eq v v"
proof (induction v)
  case (PList xs)
  then show ?case
    by (auto simp: list_all_iff intro: py_eq_list_refl)
next
  case (PDict d)
  then have "\<forall>(k, v) \<in> set d. py_eq v v \<and> map_of d k = Some v"
    by (fastforce simp: list_all_iff)
  then show ?case
    by (simp add: py_eq_sub_refl)
qed auto

end
