(* ===== verification/GrantGate.thy ===== *)
theory GrantGate
  imports Main
begin

text \<open>
  The interface every decision on capability grants implements, whatever it decides (a tool call,
  a delegation, a work request): the decision is closed unless the structural facts leave it open,
  some grant allows and no grant denies; when all three hold the outcome is one fixed verdict. The
  laws proved here (deny by default, an explicit deny wins, the order and the multiplicity of the
  grants are irrelevant, allow grants only widen and deny grants only narrow) hold for every
  provider that interprets the interface.
\<close>

locale grant_gate =
  fixes decide :: "'g list \<Rightarrow> 'd"
    and refused :: "'d \<Rightarrow> bool"
    and unguarded :: bool
    and allows :: "'g \<Rightarrow> bool"
    and denies :: "'g \<Rightarrow> bool"
    and verdict :: 'd
  assumes admitted: "\<lbrakk>unguarded; \<exists>g \<in> set gs. allows g; \<not> (\<exists>g \<in> set gs. denies g)\<rbrakk>
                       \<Longrightarrow> decide gs = verdict"
    and closed: "\<not> (unguarded \<and> (\<exists>g \<in> set gs. allows g) \<and> \<not> (\<exists>g \<in> set gs. denies g))
                       \<Longrightarrow> refused (decide gs)"
begin

definition admits :: "'g list \<Rightarrow> bool" where
  "admits gs \<longleftrightarrow> unguarded \<and> (\<exists>g \<in> set gs. allows g) \<and> \<not> (\<exists>g \<in> set gs. denies g)"

lemma decide_admits: "admits gs \<Longrightarrow> decide gs = verdict"
  using admitted by (simp add: admits_def)

lemma decide_closed: "\<not> admits gs \<Longrightarrow> refused (decide gs)"
  using closed by (simp add: admits_def)

lemma not_refused_admits: "\<not> refused (decide gs) \<Longrightarrow> admits gs"
  using decide_closed by blast

lemma deny_by_default: "refused (decide [])"
  by (rule decide_closed) (simp add: admits_def)

lemma explicit_deny_wins: "\<lbrakk>g \<in> set gs; denies g\<rbrakk> \<Longrightarrow> refused (decide gs)"
  by (rule decide_closed) (auto simp: admits_def)

lemma guard_wins: "\<not> unguarded \<Longrightarrow> refused (decide gs)"
  by (rule decide_closed, unfold admits_def) blast

lemma admits_set: "set gs = set hs \<Longrightarrow> admits gs \<longleftrightarrow> admits hs"
  by (simp add: admits_def)

lemma order_irrelevant:
  assumes "set gs = set hs"
  shows "refused (decide gs) \<longleftrightarrow> refused (decide hs)"
    and "\<not> refused (decide gs) \<Longrightarrow> decide hs = decide gs"
proof -
  show "refused (decide gs) \<longleftrightarrow> refused (decide hs)"
    using admits_set [OF assms] decide_admits decide_closed by metis
  show "decide hs = decide gs" if "\<not> refused (decide gs)"
    using not_refused_admits [OF that] admits_set [OF assms] decide_admits by metis
qed

lemma more_allows:
  assumes "\<not> refused (decide gs)" and "set gs \<subseteq> set hs" and "\<forall>g \<in> set hs - set gs. \<not> denies g"
  shows "decide hs = decide gs"
proof -
  have "admits gs"
    using assms(1) by (rule not_refused_admits)
  moreover from this have "admits hs"
    using assms(2,3) unfolding admits_def by blast
  ultimately show ?thesis
    by (simp add: decide_admits)
qed

lemma more_denies:
  assumes "refused (decide gs)" and "\<not> refused verdict" and "set gs \<subseteq> set hs"
    and "\<forall>g \<in> set hs - set gs. \<not> allows g"
  shows "refused (decide hs)"
proof (rule decide_closed)
  show "\<not> admits hs"
  proof
    assume "admits hs"
    then have "admits gs"
      using assms(3,4) unfolding admits_def by blast
    then show False
      using assms(1,2) decide_admits by simp
  qed
qed

lemma accepted_iff:
  assumes "\<not> refused verdict"
  shows "\<not> refused (decide gs) \<longleftrightarrow>
    unguarded \<and> (\<exists>g \<in> set gs. allows g) \<and> \<not> (\<exists>g \<in> set gs. denies g)"
  using admitted closed assms by metis

lemma refused_iff: "\<not> refused verdict \<Longrightarrow> refused (decide gs) \<longleftrightarrow> \<not> admits gs"
  using decide_admits decide_closed by metis

end

end
