(* ===== verification/Evaluator.thy ===== *)
theory Evaluator
  imports Capabilities Repositories PyValue GrantGate
begin

text \<open>
  \<open>packages/policy/src/jhin_policy/evaluator.py\<close>: the pure decision on one tool call. Grants and
  policy rules are the rows of an agent's configuration; a scope is a JSON object. \<open>evaluate\<close>
  keeps the code's order: explicit deny, deny by default, required scope dimensions, scope
  match, policy rules, risk defaults. The interface \<open>grant_gate\<close> states what every decision on
  grants owes its callers, and is interpreted on \<open>evaluate\<close> here and on the delegation and
  work-request decisions in their own theories.
\<close>

section \<open>Grants, rules and decisions\<close>

datatype grant_effect = GALLOW | GDENY

record grant =
  g_capability :: string
  g_scope :: "pyval dict"
  g_effect :: grant_effect

record policy_rule =
  r_capability :: string
  r_risk :: "risk_level option"
  r_action :: rule_action

datatype decision_type = ALLOW | DENY | REQUIRE_APPROVAL

record policy_decision =
  d_decision :: decision_type
  d_code :: string
  d_reason :: string

definition allowed :: "policy_decision \<Rightarrow> bool" where
  "allowed d \<longleftrightarrow> d_decision d = ALLOW"

section \<open>Scopes\<close>

fun scope_value_matches :: "pyval \<Rightarrow> pyval \<Rightarrow> bool" where
  "scope_value_matches (PList items) requested =
     list_ex (\<lambda>item. scope_value_matches item requested) items"
| "scope_value_matches (PStr granted) (PStr requested) = fnmatchcase requested granted"
| "scope_value_matches granted requested = py_eq granted requested"

definition scope_matches :: "pyval dict \<Rightarrow> pyval dict \<Rightarrow> bool" where
  "scope_matches granted_scope requested_scope =
     list_all (\<lambda>(key, granted). case dict_get requested_scope key of
                 None \<Rightarrow> False
               | Some requested \<Rightarrow> scope_value_matches granted requested) granted_scope"

definition request_dimensions :: "tool \<Rightarrow> pyval dict \<Rightarrow> pyval dict" where
  "request_dimensions t granted_scope =
     (if t_result_scope_keys t = [] then granted_scope
      else filter (\<lambda>(key, value). key \<notin> set (t_result_scope_keys t)) granted_scope)"

text \<open>\<open>required.issubset(scope)\<close>\<close>

definition keys_within :: "string list \<Rightarrow> pyval dict \<Rightarrow> bool" where
  "keys_within required scope \<longleftrightarrow> list_all (\<lambda>k. k \<in> set (dict_keys scope)) required"

definition authorizing_allow_grants :: "tool \<Rightarrow> grant list \<Rightarrow> pyval dict option \<Rightarrow> grant list" where
  "authorizing_allow_grants t grants requested_scope =
     (let scope = (case requested_scope of None \<Rightarrow> [] | Some s \<Rightarrow> s)
      in filter (\<lambda>g. g_effect g = GALLOW
                     \<and> capability_matches (g_capability g) (t_required_capability t)
                     \<and> keys_within (t_required_grant_scope_keys t) (g_scope g)
                     \<and> (t_defers_scope t \<or> scope_matches (request_dimensions t (g_scope g)) scope))
           grants)"

definition result_value_admits :: "string \<Rightarrow> pyval \<Rightarrow> string \<Rightarrow> bool" where
  "result_value_admits key granted v =
     (if key \<noteq> ''repository'' then scope_value_matches granted (PStr v)
      else (let patterns = (case granted of PList ps \<Rightarrow> ps | _ \<Rightarrow> [granted])
            in list_ex (\<lambda>pat. case pat of PStr p \<Rightarrow> repository_matches p v | _ \<Rightarrow> False) patterns))"

definition result_scope_admits :: "grant list \<Rightarrow> string \<Rightarrow> string \<Rightarrow> bool" where
  "result_scope_admits grants key v =
     list_ex (\<lambda>g. case dict_get (g_scope g) key of
                None \<Rightarrow> True | Some granted \<Rightarrow> result_value_admits key granted v) grants"

section \<open>The decision\<close>

definition first_matching_rule :: "policy_rule list \<Rightarrow> string \<Rightarrow> risk_level \<Rightarrow> policy_rule option" where
  "first_matching_rule rules capability risk =
     List.find (\<lambda>r. capability_matches (r_capability r) capability
                    \<and> (r_risk r = None \<or> r_risk r = Some risk)) rules"

definition deny_covers :: "tool \<Rightarrow> pyval dict \<Rightarrow> grant \<Rightarrow> bool" where
  "deny_covers t scope g =
     (if t_defers_scope t then g_scope g = []
      else scope_matches (request_dimensions t (g_scope g)) scope)"

definition policy_deny :: "string \<Rightarrow> string \<Rightarrow> policy_decision" where
  "policy_deny code reason = \<lparr>d_decision = DENY, d_code = code, d_reason = reason\<rparr>"

definition rule_action_for :: "tool \<Rightarrow> policy_rule list \<Rightarrow> rule_action" where
  "rule_action_for t rules =
     (case first_matching_rule rules (t_required_capability t) (t_risk t) of
        Some r \<Rightarrow> r_action r
      | None \<Rightarrow> DEFAULT_ACTION_BY_RISK (t_risk t))"

definition rule_source :: "tool \<Rightarrow> policy_rule list \<Rightarrow> string" where
  "rule_source t rules =
     (if first_matching_rule rules (t_required_capability t) (t_risk t) \<noteq> None then ''policy rule''
      else ''default for '' @ risk_value (t_risk t) @ '' risk'')"

text \<open>Step 3 of the code: what the rules and the risk defaults say once the grants permit the call.\<close>

definition decide_by_rules :: "tool \<Rightarrow> policy_rule list \<Rightarrow> policy_decision" where
  "decide_by_rules t rules =
     (let action = rule_action_for t rules; source = rule_source t rules
      in if action = FORBID
         then policy_deny ''forbidden_by_policy''
                (risk_value (t_risk t) @ ''-risk call forbidden by '' @ source)
         else if action = APPROVAL
         then (if \<not> t_supports_approval t
               then policy_deny ''approval_unsupported''
                      (source @ '' requires human approval but tool '' @ quoted (t_name t) @
                       '' does not support approval-gated execution'')
               else \<lparr>d_decision = REQUIRE_APPROVAL, d_code = ''approval_required'',
                     d_reason = risk_value (t_risk t) @ ''-risk call requires human approval ('' @
                                source @ '')''\<rparr>)
         else \<lparr>d_decision = ALLOW, d_code = ''granted'',
               d_reason = ''capability granted; '' @ source @ '' permits automatic execution''\<rparr>)"

definition evaluate :: "tool \<Rightarrow> grant list \<Rightarrow> policy_rule list \<Rightarrow> pyval dict option \<Rightarrow> policy_decision" where
  "evaluate t grants rules requested_scope =
     (let capability = t_required_capability t;
          scope = (case requested_scope of None \<Rightarrow> [] | Some s \<Rightarrow> s);
          required = t_required_grant_scope_keys t
      in if list_ex (\<lambda>g. g_effect g = GDENY \<and> capability_matches (g_capability g) capability
                         \<and> deny_covers t scope g) grants
         then policy_deny ''explicit_deny''
                (''capability '' @ quoted capability @ '' is explicitly denied for this agent'')
         else
           (case filter (\<lambda>g. g_effect g = GALLOW \<and> capability_matches (g_capability g) capability)
                   grants of
              [] \<Rightarrow> policy_deny ''no_grant''
                      (''agent has no capability grant matching '' @ quoted capability)
            | allow_first # allow_rest \<Rightarrow>
                (let allow_grants = allow_first # allow_rest
                 in if \<not> keys_within required scope
                    then policy_deny ''required_scope_missing''
                           (''call for '' @ quoted capability @
                            '' is missing a required scope dimension: '' @
                            join '', '' (sorted_difference required (dict_keys scope)))
                    else
                      (let scoped = filter (\<lambda>g. keys_within required (g_scope g)) allow_grants
                       in if scoped = []
                          then
                            (let closest =
                                   max_by (\<lambda>g. card (set required \<inter> set (dict_keys (g_scope g))))
                                     allow_first allow_rest
                             in policy_deny ''required_scope_missing''
                                  (''no grant for '' @ quoted capability @
                                   '' is scoped by every required dimension; '' @
                                   ''the closest is missing: '' @
                                   join '', '' (sorted_difference required (dict_keys (g_scope closest)))))
                          else if authorizing_allow_grants t scoped (Some scope) = []
                          then policy_deny ''scope_mismatch''
                                 (''grant for '' @ quoted capability @
                                  '' does not cover the requested scope'')
                          else decide_by_rules t rules))))"

section \<open>Reading the checks as sets\<close>

lemma keys_within_iff [simp]: "keys_within required scope \<longleftrightarrow> set required \<subseteq> set (dict_keys scope)"
  by (auto simp: keys_within_def list_all_iff)

definition requested :: "pyval dict option \<Rightarrow> pyval dict" where
  "requested sc = (case sc of None \<Rightarrow> [] | Some s \<Rightarrow> s)"

definition grant_authorizes :: "tool \<Rightarrow> pyval dict \<Rightarrow> grant \<Rightarrow> bool" where
  "grant_authorizes t scope g \<longleftrightarrow>
     capability_matches (g_capability g) (t_required_capability t)
     \<and> set (t_required_grant_scope_keys t) \<subseteq> set (dict_keys (g_scope g))
     \<and> (t_defers_scope t \<or> scope_matches (request_dimensions t (g_scope g)) scope)"

definition grant_denies :: "tool \<Rightarrow> pyval dict \<Rightarrow> grant \<Rightarrow> bool" where
  "grant_denies t scope g \<longleftrightarrow>
     capability_matches (g_capability g) (t_required_capability t) \<and> deny_covers t scope g"

lemma set_authorizing:
  "set (authorizing_allow_grants t gs sc) =
     {g \<in> set gs. g_effect g = GALLOW \<and> grant_authorizes t (requested sc) g}"
  by (auto simp: authorizing_allow_grants_def grant_authorizes_def requested_def Let_def)

lemma authorizing_Nil:
  "authorizing_allow_grants t gs sc = [] \<longleftrightarrow>
     \<not> (\<exists>g \<in> set gs. g_effect g = GALLOW \<and> grant_authorizes t (requested sc) g)"
  using set_authorizing [of t gs sc] by (metis (mono_tags, lifting) Collect_empty_eq set_empty)

text \<open>What the grants alone say of a call: the specification of steps 1 and 2.\<close>

definition call_permitted :: "tool \<Rightarrow> grant list \<Rightarrow> pyval dict \<Rightarrow> bool" where
  "call_permitted t gs scope \<longleftrightarrow>
     (\<exists>g \<in> set gs. g_effect g = GALLOW \<and> grant_authorizes t scope g)
     \<and> \<not> (\<exists>g \<in> set gs. g_effect g = GDENY \<and> grant_denies t scope g)
     \<and> set (t_required_grant_scope_keys t) \<subseteq> set (dict_keys scope)"

definition grant_refusal_codes :: "string set" where
  "grant_refusal_codes = {''explicit_deny'', ''no_grant'', ''required_scope_missing'', ''scope_mismatch''}"

text \<open>The allow grants of the capability, and those of them scoped by every required key.\<close>

definition allows_for :: "tool \<Rightarrow> grant list \<Rightarrow> grant list" where
  "allows_for t gs =
     filter (\<lambda>g. g_effect g = GALLOW \<and> capability_matches (g_capability g) (t_required_capability t)) gs"

definition scoped_for :: "tool \<Rightarrow> grant list \<Rightarrow> grant list" where
  "scoped_for t gs = filter (\<lambda>g. keys_within (t_required_grant_scope_keys t) (g_scope g)) (allows_for t gs)"

lemma policy_deny_simps [simp]:
  "d_decision (policy_deny c r) = DENY" "d_code (policy_deny c r) = c"
  by (simp_all add: policy_deny_def)

lemma if_deny:
  "\<exists>r. x = f r \<Longrightarrow>
     \<exists>r. (if c then policy_deny e m else x) = (if c then policy_deny e r else f r)"
  by (cases c) auto

lemma evaluate_form:
  "\<exists>r. evaluate t gs rules sc =
     (if \<exists>g \<in> set gs. g_effect g = GDENY \<and> grant_denies t (requested sc) g
      then policy_deny ''explicit_deny'' r
      else if allows_for t gs = [] then policy_deny ''no_grant'' r
      else if \<not> set (t_required_grant_scope_keys t) \<subseteq> set (dict_keys (requested sc))
      then policy_deny ''required_scope_missing'' r
      else if scoped_for t gs = [] then policy_deny ''required_scope_missing'' r
      else if \<not> (\<exists>g \<in> set (scoped_for t gs). grant_authorizes t (requested sc) g)
      then policy_deny ''scope_mismatch'' r
      else decide_by_rules t rules)"
proof -
  have d: "list_ex (\<lambda>g. g_effect g = GDENY \<and> capability_matches (g_capability g) (t_required_capability t)
             \<and> deny_covers t (requested sc) g) gs
           \<longleftrightarrow> (\<exists>g \<in> set gs. g_effect g = GDENY \<and> grant_denies t (requested sc) g)"
    by (auto simp: list_ex_iff grant_denies_def)
  have a: "authorizing_allow_grants t (scoped_for t gs) (Some (requested sc)) = []
           \<longleftrightarrow> \<not> (\<exists>g \<in> set (scoped_for t gs). grant_authorizes t (requested sc) g)"
    unfolding authorizing_Nil by (auto simp: requested_def scoped_for_def allows_for_def)
  show ?thesis
  proof (cases "allows_for t gs")
    case Nil
    then show ?thesis
      unfolding evaluate_def Let_def
      unfolding requested_def [symmetric] d allows_for_def [symmetric]
      by (simp only: list.case simp_thms if_True) (intro if_deny, rule exI, rule refl)
  next
    case (Cons g0 rest)
    have s: "filter (\<lambda>g. keys_within (t_required_grant_scope_keys t) (g_scope g)) (g0 # rest) = scoped_for t gs"
      using Cons by (simp only: scoped_for_def)
    show ?thesis
      unfolding evaluate_def Let_def
      unfolding requested_def [symmetric] d allows_for_def [symmetric]
      unfolding Cons list.case
      unfolding s
      unfolding a keys_within_iff
      apply (simp only: list.distinct if_False simp_thms)
      apply (intro if_deny, rule exI, rule refl)
      done
  qed
qed

lemma allows_scoped_for:
  assumes "g \<in> set gs" and "g_effect g = GALLOW" and "grant_authorizes t sc g"
  shows "g \<in> set (scoped_for t gs)" and "scoped_for t gs \<noteq> []" and "allows_for t gs \<noteq> []"
proof -
  show "g \<in> set (scoped_for t gs)"
    using assms by (simp add: scoped_for_def allows_for_def grant_authorizes_def)
  then show "scoped_for t gs \<noteq> []" by auto
  then show "allows_for t gs \<noteq> []" by (auto simp: scoped_for_def)
qed

lemma evaluate_permitted:
  assumes "call_permitted t gs (requested sc)"
  shows "evaluate t gs rules sc = decide_by_rules t rules"
proof -
  obtain g where g: "g \<in> set gs" "g_effect g = GALLOW" "grant_authorizes t (requested sc) g"
    using assms by (auto simp: call_permitted_def)
  show ?thesis
    using evaluate_form [of t gs rules sc] assms allows_scoped_for [OF g] g(3)
    by (auto simp: call_permitted_def)
qed

lemma evaluate_refused:
  assumes "\<not> call_permitted t gs (requested sc)"
  shows "d_decision (evaluate t gs rules sc) = DENY"
    and "d_code (evaluate t gs rules sc) \<in> grant_refusal_codes"
proof -
  obtain r where r: "evaluate t gs rules sc =
     (if \<exists>g \<in> set gs. g_effect g = GDENY \<and> grant_denies t (requested sc) g
      then policy_deny ''explicit_deny'' r
      else if allows_for t gs = [] then policy_deny ''no_grant'' r
      else if \<not> set (t_required_grant_scope_keys t) \<subseteq> set (dict_keys (requested sc))
      then policy_deny ''required_scope_missing'' r
      else if scoped_for t gs = [] then policy_deny ''required_scope_missing'' r
      else if \<not> (\<exists>g \<in> set (scoped_for t gs). grant_authorizes t (requested sc) g)
      then policy_deny ''scope_mismatch'' r
      else decide_by_rules t rules)"
    using evaluate_form by blast
  have "\<not> (\<exists>g \<in> set (scoped_for t gs). grant_authorizes t (requested sc) g)"
    if "\<not> (\<exists>g \<in> set gs. g_effect g = GDENY \<and> grant_denies t (requested sc) g)"
      and "set (t_required_grant_scope_keys t) \<subseteq> set (dict_keys (requested sc))"
    using that assms by (auto simp: call_permitted_def scoped_for_def allows_for_def)
  then show "d_decision (evaluate t gs rules sc) = DENY"
    and "d_code (evaluate t gs rules sc) \<in> grant_refusal_codes"
    unfolding r grant_refusal_codes_def by (auto split: if_split)
qed

section \<open>The decision through the interface\<close>

definition is_refusal :: "policy_decision \<Rightarrow> bool" where
  "is_refusal d \<longleftrightarrow> d_decision d = DENY"

text \<open>The grants-side reading of one call, as the interface asks for it.\<close>

definition call_allows :: "tool \<Rightarrow> pyval dict option \<Rightarrow> grant \<Rightarrow> bool" where
  "call_allows t sc g \<longleftrightarrow> g_effect g = GALLOW \<and> grant_authorizes t (requested sc) g"

definition call_denies :: "tool \<Rightarrow> pyval dict option \<Rightarrow> grant \<Rightarrow> bool" where
  "call_denies t sc g \<longleftrightarrow> g_effect g = GDENY \<and> grant_denies t (requested sc) g"

definition names_required :: "tool \<Rightarrow> pyval dict option \<Rightarrow> bool" where
  "names_required t sc \<longleftrightarrow> set (t_required_grant_scope_keys t) \<subseteq> set (dict_keys (requested sc))"

lemmas gate_defs = call_allows_def call_denies_def names_required_def call_permitted_def

interpretation tool_gate: grant_gate "\<lambda>gs. evaluate t gs rules sc" is_refusal "names_required t sc"
    "call_allows t sc" "call_denies t sc" "decide_by_rules t rules"
  for t rules sc
proof
  fix gs
  show "evaluate t gs rules sc = decide_by_rules t rules"
    if "names_required t sc" "\<exists>g \<in> set gs. call_allows t sc g" "\<not> (\<exists>g \<in> set gs. call_denies t sc g)"
    using that by (intro evaluate_permitted) (auto simp: gate_defs)
  show "is_refusal (evaluate t gs rules sc)"
    if "\<not> (names_required t sc \<and> (\<exists>g \<in> set gs. call_allows t sc g) \<and> \<not> (\<exists>g \<in> set gs. call_denies t sc g))"
    using that evaluate_refused(1) [of t gs sc rules] by (auto simp: gate_defs is_refusal_def)
qed

lemma decide_by_rules_cases:
  "d_decision (decide_by_rules t rules) =
     (case rule_action_for t rules of
        AUTO \<Rightarrow> ALLOW
      | APPROVAL \<Rightarrow> (if t_supports_approval t then REQUIRE_APPROVAL else DENY)
      | FORBID \<Rightarrow> DENY)"
  by (auto simp: decide_by_rules_def Let_def split: rule_action.split)

lemma effect_cases: "g_effect g = GALLOW \<or> g_effect g = GDENY"
  by (cases "g_effect g") auto

section \<open>Properties\<close>

text \<open>
  C6 (refinement). The decision on a tool call implements its two-step contract: when some allow
  grant covers the call, no deny grant does and the call names every required dimension, the
  answer is exactly what the rules and the risk defaults say; otherwise it is a denial carrying
  one of the four grant refusal codes.
\<close>

theorem evaluate_refines:
  "if call_permitted t gs (requested sc)
   then evaluate t gs rules sc = decide_by_rules t rules
   else d_decision (evaluate t gs rules sc) = DENY
        \<and> d_code (evaluate t gs rules sc) \<in> grant_refusal_codes"
  using evaluate_permitted evaluate_refused by simp

text \<open>
  C7 (safety). A call runs without a person exactly when the grants permit it and the first
  matching rule (or, without one, the default of the tool's risk) says automatic; it waits for a
  person exactly when the grants permit it, the action is approval and the tool supports it.
\<close>

theorem evaluate_outcome:
  "(d_decision (evaluate t gs rules sc) = ALLOW \<longleftrightarrow>
      call_permitted t gs (requested sc) \<and> rule_action_for t rules = AUTO)
   \<and> (d_decision (evaluate t gs rules sc) = REQUIRE_APPROVAL \<longleftrightarrow>
      call_permitted t gs (requested sc) \<and> rule_action_for t rules = APPROVAL \<and> t_supports_approval t)"
  by (cases "call_permitted t gs (requested sc)")
     (simp_all add: evaluate_permitted evaluate_refused decide_by_rules_cases split: rule_action.split)

text \<open>
  Grants are a set to the decision: reordering or repeating them never changes a
  permitted decision, and never turns a refusal into anything else.
\<close>

theorem evaluate_grant_order:
  assumes "set gs = set hs"
  shows "is_refusal (evaluate t gs rules sc) = is_refusal (evaluate t hs rules sc)
         \<and> (if is_refusal (evaluate t gs rules sc) then True
            else evaluate t hs rules sc = evaluate t gs rules sc)"
  using tool_gate.order_irrelevant [OF assms] by simp

text \<open>
  Deny grants only narrow: on a tool whose rules do not forbid it, a refused call
  stays refused after any number of deny grants is added.
\<close>

theorem evaluate_deny_narrows:
  assumes "is_refusal (evaluate t gs rules sc)" and "\<not> is_refusal (decide_by_rules t rules)"
    and "\<forall>g \<in> set ds. g_effect g = GDENY"
  shows "is_refusal (evaluate t (gs @ ds) rules sc)"
proof (rule tool_gate.more_denies [OF assms(1,2)])
  show "\<forall>g \<in> set (gs @ ds) - set gs. \<not> call_allows t sc g"
    using assms(3) by (auto simp: call_allows_def)
qed simp

text \<open>A row the strict repository matcher admits is a row the scope value matches.\<close>

lemma result_value_admits_scope:
  "result_value_admits key granted v \<Longrightarrow> scope_value_matches granted (PStr v)"
proof -
  have item: "scope_value_matches x (PStr v)"
    if "case x of PStr p \<Rightarrow> repository_matches p v | _ \<Rightarrow> False" for x
    using that repository_matches_fnmatch by (cases x) auto
  assume "result_value_admits key granted v"
  then show ?thesis
    using item repository_matches_fnmatch by (cases granted) (auto simp: result_value_admits_def Let_def list_ex_iff split: if_splits)
qed

text \<open>
  A row shown by a narrowed listing is one some authorizing grant also covers by
  name: the stricter repository matcher never shows what the scope matcher would refuse.
\<close>

theorem result_rows_covered:
  assumes "result_scope_admits grants key v"
  shows "\<exists>g \<in> set grants. case dict_get (g_scope g) key of
           None \<Rightarrow> True | Some granted \<Rightarrow> scope_value_matches granted (PStr v)"
proof -
  obtain g where "g \<in> set grants" and
    "case dict_get (g_scope g) key of None \<Rightarrow> True | Some granted \<Rightarrow> result_value_admits key granted v"
    using assms by (auto simp: result_scope_admits_def list_ex_iff)
  then show ?thesis
    using result_value_admits_scope by (intro bexI [of _ g]) (auto split: option.splits)
qed

section \<open>Witnesses\<close>

definition sample_tool :: tool where
  "sample_tool =
     \<lparr>t_name = ''git.push'', t_description = ''Push a branch'', t_risk = WRITE,
      t_required_capability = ''git.push'', t_supports_approval = True,
      t_scope_keys = [''repository'', ''branch''], t_required_grant_scope_keys = [''repository''],
      t_defers_scope = False, t_result_scope_keys = [], t_redispatch_is_safe = False\<rparr>"

definition sample_grant :: grant where
  "sample_grant = \<lparr>g_capability = ''git.*'', g_scope = [(''repository'', PStr ''octo/*'')], g_effect = GALLOW\<rparr>"

definition sample_deny :: grant where
  "sample_deny = \<lparr>g_capability = ''git.push'', g_scope = [(''repository'', PStr ''octo/alpha'')], g_effect = GDENY\<rparr>"

definition sample_scope :: "pyval dict" where
  "sample_scope = [(''repository'', PStr ''octo/alpha'')]"

theorem evaluate_grant_order_witness:
  "is_refusal (evaluate sample_tool [sample_grant, sample_deny] [] (Some sample_scope))
     = is_refusal (evaluate sample_tool [sample_deny, sample_grant] [] (Some sample_scope))"
  using evaluate_grant_order [of "[sample_grant, sample_deny]" "[sample_deny, sample_grant]"
      sample_tool "[]" "Some sample_scope"] by (simp add: insert_commute)

theorem evaluate_deny_narrows_witness:
  "is_refusal (evaluate sample_tool ([sample_grant, sample_deny] @ [sample_deny]) [] (Some sample_scope))"
proof (rule evaluate_deny_narrows)
  show "is_refusal (evaluate sample_tool [sample_grant, sample_deny] [] (Some sample_scope))"
    by code_simp
  show "\<not> is_refusal (decide_by_rules sample_tool [])"
    by code_simp
  show "\<forall>g \<in> set [sample_deny]. g_effect g = GDENY"
    by (simp add: sample_deny_def)
qed

theorem result_rows_covered_witness:
  "\<exists>g \<in> set [sample_grant]. case dict_get (g_scope g) ''repository'' of
     None \<Rightarrow> True | Some granted \<Rightarrow> scope_value_matches granted (PStr ''octo/alpha'')"
proof -
  have "result_scope_admits [sample_grant] ''repository'' ''octo/alpha''"
    by code_simp
  then show ?thesis
    by (rule result_rows_covered)
qed

end
