(* ===== verification/Approvals.thy ===== *)
theory Approvals
  imports Evaluator
begin

text \<open>
  \<open>packages/policy/src/jhin_policy/approvals.py\<close>: the approval presets, and the writer of
  \<open>apps/api/src/jhin_api/policy/service.py\<close> that expands one over an agent's rules. A preset
  speaks for risk levels only; the lemmas show that choosing one keeps the per-capability rules in
  force, that the preset is recognised underneath them, and that the preset reported for an agent
  without risk rules is the one whose rules decide as the evaluator does.
\<close>

datatype approval_preset = AUTONOMOUS | BALANCED | RESTRICTED

definition ANY_CAPABILITY :: string where
  "ANY_CAPABILITY = ''*''"

definition preset_rules_of :: "(risk_level \<times> rule_action) list \<Rightarrow> policy_rule list" where
  "preset_rules_of pairs =
     map (\<lambda>(risk, action). \<lparr>r_capability = ANY_CAPABILITY, r_risk = Some risk, r_action = action\<rparr>) pairs"

fun PRESET_RULES :: "approval_preset \<Rightarrow> policy_rule list" where
  "PRESET_RULES AUTONOMOUS =
     preset_rules_of [(READ, AUTO), (WRITE, AUTO), (ELEVATED, AUTO), (DESTRUCTIVE, APPROVAL)]"
| "PRESET_RULES BALANCED =
     preset_rules_of [(READ, AUTO), (WRITE, AUTO), (ELEVATED, APPROVAL), (DESTRUCTIVE, APPROVAL)]"
| "PRESET_RULES RESTRICTED =
     preset_rules_of [(READ, AUTO), (WRITE, APPROVAL), (ELEVATED, APPROVAL), (DESTRUCTIVE, FORBID)]"

definition all_presets :: "approval_preset list" where
  "all_presets = [AUTONOMOUS, BALANCED, RESTRICTED]"

definition DEFAULT_RULES :: "policy_rule list" where
  "DEFAULT_RULES =
     preset_rules_of (map (\<lambda>risk. (risk, DEFAULT_ACTION_BY_RISK risk)) [READ, WRITE, ELEVATED, DESTRUCTIVE])"

definition rules_for_preset :: "approval_preset \<Rightarrow> policy_rule list" where
  "rules_for_preset p = PRESET_RULES p"

definition capability_rules :: "policy_rule list \<Rightarrow> policy_rule list" where
  "capability_rules rules = filter (\<lambda>r. r_capability r \<noteq> ANY_CAPABILITY) rules"

definition matching_preset :: "policy_rule list \<Rightarrow> approval_preset option" where
  "matching_preset rules =
     (let risk_rules = filter (\<lambda>r. r_capability r = ANY_CAPABILITY) rules
      in List.find (\<lambda>p. (if risk_rules = [] then DEFAULT_RULES else risk_rules) = PRESET_RULES p)
           all_presets)"

text \<open>The rules a chosen preset leaves on the agent (\<open>update_policy\<close>).\<close>

definition apply_preset :: "approval_preset \<Rightarrow> policy_rule list \<Rightarrow> policy_rule list" where
  "apply_preset p rules = capability_rules rules @ rules_for_preset p"

section \<open>Lemmas\<close>

lemmas preset_defs = preset_rules_of_def rules_for_preset_def ANY_CAPABILITY_def

lemma capability_matches_any [simp]: "capability_matches ANY_CAPABILITY c"
  by (simp add: ANY_CAPABILITY_def capability_matches_def)

lemma preset_any: "r \<in> set (PRESET_RULES p) \<Longrightarrow> r_capability r = ANY_CAPABILITY"
  by (cases p) (auto simp: preset_rules_of_def)

lemma PRESET_RULES_not_Nil: "PRESET_RULES p \<noteq> []"
  by (cases p) (simp_all add: preset_rules_of_def)

lemma PRESET_RULES_inject: "PRESET_RULES p = PRESET_RULES q \<longleftrightarrow> p = q"
  by (cases p; cases q) (simp_all add: preset_rules_of_def)

lemma DEFAULT_RULES_balanced: "DEFAULT_RULES = PRESET_RULES BALANCED"
  by (simp add: DEFAULT_RULES_def)

lemma find_preset: "List.find (\<lambda>p. PRESET_RULES q = PRESET_RULES p) all_presets = Some q"
  by (cases q) (simp_all add: all_presets_def preset_rules_of_def)

lemma capability_rules_preset [simp]: "capability_rules (rules_for_preset p) = []"
  using preset_any by (auto simp: capability_rules_def rules_for_preset_def filter_empty_conv)

lemma risk_rules_preset:
  "filter (\<lambda>r. r_capability r = ANY_CAPABILITY) (apply_preset p rules) = PRESET_RULES p"
  using preset_any by (auto simp: apply_preset_def capability_rules_def rules_for_preset_def
      filter_empty_conv filter_id_conv)

lemma capability_rules_apply [simp]: "capability_rules (apply_preset p rules) = capability_rules rules"
proof -
  have "capability_rules (apply_preset p rules)
        = filter (\<lambda>r. r_capability r \<noteq> ANY_CAPABILITY) (capability_rules rules) @ capability_rules (rules_for_preset p)"
    by (simp add: apply_preset_def capability_rules_def)
  then show ?thesis
    unfolding capability_rules_preset by (simp add: capability_rules_def)
qed

lemma matching_presetD:
  assumes "matching_preset rules = Some p"
  shows "filter (\<lambda>r. r_capability r = ANY_CAPABILITY) rules = PRESET_RULES p
         \<or> filter (\<lambda>r. r_capability r = ANY_CAPABILITY) rules = [] \<and> p = BALANCED"
  using find_Some_in [OF assms [unfolded matching_preset_def Let_def]]
  by (auto simp: DEFAULT_RULES_balanced PRESET_RULES_inject simp del: PRESET_RULES.simps split: if_splits)

text \<open>A rule that does not match the capability does not take part in the first match.\<close>

lemma find_skip:
  assumes "\<forall>r \<in> set rules. \<not> keep r \<longrightarrow> \<not> P r"
  shows "List.find P rules = List.find P (filter keep rules)"
  using assms by (induction rules) auto

lemma find_append: "List.find P (xs @ ys) = (case List.find P xs of None \<Rightarrow> List.find P ys | Some x \<Rightarrow> Some x)"
  by (induction xs) auto

lemma preset_decides:
  "rule_action_for t (PRESET_RULES BALANCED) = DEFAULT_ACTION_BY_RISK (t_risk t)"
  by (cases "t_risk t") (simp_all add: rule_action_for_def first_matching_rule_def preset_rules_of_def)

section \<open>Properties\<close>

text \<open>
  Choosing a preset is recognised and loses no per-capability decision: the preset
  chosen is the one reported, and the per-capability rules are the ones the agent had.
\<close>

theorem apply_preset_roundtrip:
  "matching_preset (apply_preset p rules) = Some p
   \<and> capability_rules (apply_preset p rules) = capability_rules rules"
  using PRESET_RULES_not_Nil find_preset
  by (simp add: matching_preset_def risk_rules_preset Let_def)

text \<open>
  The preset reported for an agent is the one that decides: on a call no
  per-capability rule speaks for, the rules of the agent and the rules of the preset give the same
  action, also when the agent has no risk rules at all and the risk defaults answer.
\<close>

theorem matching_preset_decides:
  assumes "matching_preset rules = Some p"
    and "\<forall>r \<in> set (capability_rules rules). \<not> capability_matches (r_capability r) (t_required_capability t)"
  shows "rule_action_for t rules = rule_action_for t (rules_for_preset p)"
proof -
  let ?risk = "filter (\<lambda>r. r_capability r = ANY_CAPABILITY) rules"
  have "first_matching_rule rules (t_required_capability t) (t_risk t)
        = first_matching_rule ?risk (t_required_capability t) (t_risk t)"
    unfolding first_matching_rule_def using assms(2)
    by (intro find_skip) (auto simp: capability_rules_def)
  then have "rule_action_for t rules = rule_action_for t ?risk"
    by (simp add: rule_action_for_def)
  moreover have "rule_action_for t [] = rule_action_for t (PRESET_RULES BALANCED)"
    unfolding preset_decides by (simp add: rule_action_for_def first_matching_rule_def)
  ultimately show ?thesis
    using matching_presetD [OF assms(1)] by (auto simp: rules_for_preset_def)
qed

text \<open>
  A change of preset never overrides a per-capability decision: whatever the preset,
  a call the per-capability rules answer keeps their answer.
\<close>

theorem apply_preset_keeps_gates:
  assumes "first_matching_rule (capability_rules rules) (t_required_capability t) (t_risk t) = Some r"
  shows "rule_action_for t (apply_preset p rules) = r_action r"
  using assms by (simp add: rule_action_for_def apply_preset_def first_matching_rule_def find_append)

definition push_gate :: policy_rule where
  "push_gate = \<lparr>r_capability = ''git.push'', r_risk = None, r_action = APPROVAL\<rparr>"

definition other_gate :: policy_rule where
  "other_gate = \<lparr>r_capability = ''linear.write'', r_risk = None, r_action = FORBID\<rparr>"

theorem matching_preset_decides_witness:
  "rule_action_for sample_tool [other_gate] = rule_action_for sample_tool (rules_for_preset BALANCED)"
proof (rule matching_preset_decides)
  show "matching_preset [other_gate] = Some BALANCED"
    by code_simp
  show "\<forall>r \<in> set (capability_rules [other_gate]).
          \<not> capability_matches (r_capability r) (t_required_capability sample_tool)"
    by code_simp
qed

theorem apply_preset_keeps_gates_witness:
  "rule_action_for sample_tool (apply_preset AUTONOMOUS [push_gate]) = APPROVAL"
proof -
  have "first_matching_rule (capability_rules [push_gate]) (t_required_capability sample_tool)
          (t_risk sample_tool) = Some push_gate"
    by code_simp
  from apply_preset_keeps_gates [OF this] show ?thesis
    by (simp add: push_gate_def)
qed

end
