(* ===== verification/TargetScopes.thy ===== *)
theory TargetScopes
  imports Evaluator
begin

text \<open>
  What \<open>delegation.py\<close> and \<open>work_requests.py\<close> of \<open>packages/policy/src/jhin_policy\<close> share word for word:
  the normalisation of a grant's \<open>targets\<close> scope, the relationship test, the agent pin, and the last
  steps of both decisions (deny grants, then allow grants, then the grants that cover the target).
\<close>

definition VALID_TARGETS :: "string list" where
  "VALID_TARGETS = [''subordinates'', ''team'', ''any'']"

text \<open>
  \<open>str(v)\<close> of a value that is not a string is never one of the three words, so the comprehension of
  \<open>_targets_of\<close> keeps string items only.
\<close>

definition clean_targets :: "pyval list \<Rightarrow> string list" where
  "clean_targets vs = concat (map (\<lambda>v. case v of PStr s \<Rightarrow> if s \<in> set VALID_TARGETS then [s] else [] | _ \<Rightarrow> []) vs)"

definition scope_targets :: "string \<Rightarrow> pyval dict \<Rightarrow> string list" where
  "scope_targets fallback scope =
     (let raw = (case dict_get scope ''targets'' of None \<Rightarrow> PStr fallback | Some v \<Rightarrow> v);
          values = (case raw of PList vs \<Rightarrow> vs | _ \<Rightarrow> [raw]);
          cleaned = clean_targets values
      in if cleaned = [] then [fallback] else cleaned)"

definition target_reaches :: "string \<Rightarrow> bool \<Rightarrow> bool \<Rightarrow> bool" where
  "target_reaches target subordinate same_team \<longleftrightarrow>
     target = ''any'' \<or> target = ''subordinates'' \<and> subordinate \<or> target = ''team'' \<and> same_team"

definition id_pin_permits :: "pyval dict \<Rightarrow> string \<Rightarrow> bool" where
  "id_pin_permits scope target_agent_id =
     (case dict_get scope ''target_agent_id'' of
        None \<Rightarrow> True
      | Some pin \<Rightarrow> scope_value_matches pin (PStr target_agent_id))"

section \<open>The covering step\<close>

definition covering_grant :: "string \<Rightarrow> (grant \<Rightarrow> bool) \<Rightarrow> grant_effect \<Rightarrow> grant \<Rightarrow> bool" where
  "covering_grant cap covers e g \<longleftrightarrow> g_effect g = e \<and> capability_matches (g_capability g) cap \<and> covers g"

text \<open>The end of both decisions, with the three refusals and the verdict as arguments.\<close>

definition covering_gate ::
    "string \<Rightarrow> (grant \<Rightarrow> bool) \<Rightarrow> 'd \<Rightarrow> 'd \<Rightarrow> 'd \<Rightarrow> 'd \<Rightarrow> grant list \<Rightarrow> 'd" where
  "covering_gate cap covers denied none uncovered granted grants =
     (let matching = filter (\<lambda>g. capability_matches (g_capability g) cap) grants
      in if list_ex (\<lambda>g. g_effect g = GDENY \<and> covers g) matching then denied
         else (let allow = filter (\<lambda>g. g_effect g = GALLOW) matching
               in if allow = [] then none
                  else if \<not> list_ex covers allow then uncovered else granted))"

lemma covering_allow_iff:
  "list_ex covers (filter (\<lambda>g. g_effect g = GALLOW) (filter (\<lambda>g. capability_matches (g_capability g) cap) gs))
     \<longleftrightarrow> (\<exists>g \<in> set gs. covering_grant cap covers GALLOW g)"
  by (auto simp: list_ex_iff covering_grant_def)

lemma covering_deny_iff:
  "list_ex (\<lambda>g. g_effect g = GDENY \<and> covers g) (filter (\<lambda>g. capability_matches (g_capability g) cap) gs)
     \<longleftrightarrow> (\<exists>g \<in> set gs. covering_grant cap covers GDENY g)"
  by (auto simp: list_ex_iff covering_grant_def)

lemma covering_gate_open:
  assumes "\<exists>g \<in> set gs. covering_grant cap covers GALLOW g"
    and "\<not> (\<exists>g \<in> set gs. covering_grant cap covers GDENY g)"
  shows "covering_gate cap covers d1 d2 d3 v gs = v"
proof -
  let ?allow = "filter (\<lambda>g. g_effect g = GALLOW) (filter (\<lambda>g. capability_matches (g_capability g) cap) gs)"
  have "list_ex covers ?allow"
    unfolding covering_allow_iff by (rule assms(1))
  moreover from this have "?allow \<noteq> []"
    by (metis empty_iff list.set(1) list_ex_iff)
  ultimately show ?thesis
    using assms(2) unfolding covering_gate_def Let_def covering_deny_iff by presburger
qed

lemma covering_gate_closed:
  assumes "\<not> ((\<exists>g \<in> set gs. covering_grant cap covers GALLOW g)
              \<and> \<not> (\<exists>g \<in> set gs. covering_grant cap covers GDENY g))"
    and "\<not> ok d1" and "\<not> ok d2" and "\<not> ok d3"
  shows "\<not> ok (covering_gate cap covers d1 d2 d3 v gs)"
  using assms unfolding covering_gate_def Let_def covering_deny_iff covering_allow_iff by presburger

end
