(* ===== verification/Delegation.thy ===== *)
theory Delegation
  imports TargetScopes
begin

text \<open>
  \<open>packages/policy/src/jhin_policy/delegation.py\<close>: who may hand work to whom. The facts are loaded
  by the caller; the structural guards (existence, activity, no cycle, depth) come before any grant.
  \<open>DelegationSettings.model_validate\<close> is pydantic's and is the parameter \<open>validate\<close>. The decision
  interprets \<open>grant_gate\<close>.
\<close>

definition DELEGATE_CAPABILITY :: string where
  "DELEGATE_CAPABILITY = ''organization.delegate''"

definition DEFAULT_MAX_TASK_DEPTH :: int where
  "DEFAULT_MAX_TASK_DEPTH = 5"

record delegation_facts =
  df_delegator_agent_id :: string
  df_target_agent_id :: string
  df_target_exists :: bool
  df_target_active :: bool
  df_target_is_subordinate :: bool
  df_target_in_same_team :: bool
  df_task_depth :: int
  df_ancestor_agent_ids :: "string list"

record delegation_decision =
  dd_allowed :: bool
  dd_code :: string
  dd_reason :: string

definition delegation_deny :: "string \<Rightarrow> string \<Rightarrow> delegation_decision" where
  "delegation_deny code reason = \<lparr>dd_allowed = False, dd_code = code, dd_reason = reason\<rparr>"

definition delegation_targets_of :: "pyval dict \<Rightarrow> string list" where
  "delegation_targets_of scope = scope_targets ''subordinates'' scope"

definition delegation_relationship_permits :: "pyval dict \<Rightarrow> delegation_facts \<Rightarrow> bool" where
  "delegation_relationship_permits scope facts =
     list_ex (\<lambda>target. target_reaches target (df_target_is_subordinate facts) (df_target_in_same_team facts))
       (delegation_targets_of scope)"

definition delegation_grant_covers :: "grant \<Rightarrow> delegation_facts \<Rightarrow> bool" where
  "delegation_grant_covers g facts \<longleftrightarrow>
     delegation_relationship_permits (g_scope g) facts \<and> id_pin_permits (g_scope g) (df_target_agent_id facts)"

definition evaluate_delegation :: "grant list \<Rightarrow> delegation_facts \<Rightarrow> int \<Rightarrow> delegation_decision" where
  "evaluate_delegation grants facts max_task_depth =
     (if \<not> df_target_exists facts
      then delegation_deny ''target_not_found'' ''target agent does not exist in this workspace''
      else if \<not> df_target_active facts
      then delegation_deny ''target_inactive'' ''target agent is not active''
      else if df_target_agent_id facts \<in> set (df_ancestor_agent_ids facts)
      then delegation_deny ''delegation_cycle''
             ''target agent already owns a task on this lineage; delegating back would deadlock''
      else if df_task_depth facts + 1 > max_task_depth
      then delegation_deny ''delegation_depth_exceeded''
             (''delegation chain depth limit is '' @ show_int max_task_depth)
      else
        (let matching = filter (\<lambda>g. capability_matches (g_capability g) DELEGATE_CAPABILITY) grants
         in if list_ex (\<lambda>g. g_effect g = GDENY \<and> delegation_grant_covers g facts) matching
            then delegation_deny ''explicit_deny''
                   ''delegation to this target is explicitly denied for this agent''
            else
              (let allow = filter (\<lambda>g. g_effect g = GALLOW) matching
               in if allow = []
                  then delegation_deny ''no_grant''
                         (''agent has no capability grant matching '' @ quoted DELEGATE_CAPABILITY)
                  else if \<not> list_ex (\<lambda>g. delegation_grant_covers g facts) allow
                  then delegation_deny ''delegation_target_not_permitted''
                         ''no delegation grant permits this target (relationship or agent pin mismatch)''
                  else \<lparr>dd_allowed = True, dd_code = ''granted'',
                        dd_reason = ''delegation permitted by capability grant''\<rparr>)))"

record delegation_settings =
  ds_max_task_depth :: int

definition default_delegation_settings :: delegation_settings where
  "default_delegation_settings = \<lparr>ds_max_task_depth = DEFAULT_MAX_TASK_DEPTH\<rparr>"

text \<open>\<open>ge=1, le=20\<close> of the field.\<close>

definition delegation_settings_valid :: "delegation_settings \<Rightarrow> bool" where
  "delegation_settings_valid s \<longleftrightarrow> 1 \<le> ds_max_task_depth s \<and> ds_max_task_depth s \<le> 20"

definition parse_delegation_settings ::
    "(pyval dict \<Rightarrow> delegation_settings option) \<Rightarrow> pyval dict option \<Rightarrow> delegation_settings" where
  "parse_delegation_settings validate settings_json =
     (case dict_get (case settings_json of None \<Rightarrow> [] | Some d \<Rightarrow> d) ''delegation'' of
        Some (PDict raw) \<Rightarrow> (case validate raw of Some s \<Rightarrow> s | None \<Rightarrow> default_delegation_settings)
      | _ \<Rightarrow> default_delegation_settings)"

section \<open>The decision through the interface\<close>

definition delegation_open :: "delegation_facts \<Rightarrow> int \<Rightarrow> bool" where
  "delegation_open facts max_depth \<longleftrightarrow>
     df_target_exists facts \<and> df_target_active facts
     \<and> df_target_agent_id facts \<notin> set (df_ancestor_agent_ids facts) \<and> df_task_depth facts + 1 \<le> max_depth"

definition delegation_granted :: delegation_decision where
  "delegation_granted =
     \<lparr>dd_allowed = True, dd_code = ''granted'', dd_reason = ''delegation permitted by capability grant''\<rparr>"

abbreviation delegation_grant :: "delegation_facts \<Rightarrow> grant_effect \<Rightarrow> grant \<Rightarrow> bool" where
  "delegation_grant facts \<equiv> covering_grant DELEGATE_CAPABILITY (\<lambda>g. delegation_grant_covers g facts)"

lemma delegation_deny_simps [simp]:
  "\<not> dd_allowed (delegation_deny c r)" "dd_code (delegation_deny c r) = c"
  by (simp_all add: delegation_deny_def)

lemma delegation_granted_simps [simp]: "dd_allowed delegation_granted" "dd_code delegation_granted = ''granted''"
  by (simp_all add: delegation_granted_def)

lemma evaluate_delegation_chain:
  "evaluate_delegation gs facts d =
     (if \<not> df_target_exists facts
      then delegation_deny ''target_not_found'' ''target agent does not exist in this workspace''
      else if \<not> df_target_active facts
      then delegation_deny ''target_inactive'' ''target agent is not active''
      else if df_target_agent_id facts \<in> set (df_ancestor_agent_ids facts)
      then delegation_deny ''delegation_cycle''
             ''target agent already owns a task on this lineage; delegating back would deadlock''
      else if df_task_depth facts + 1 > d
      then delegation_deny ''delegation_depth_exceeded''
             (''delegation chain depth limit is '' @ show_int d)
      else covering_gate DELEGATE_CAPABILITY (\<lambda>g. delegation_grant_covers g facts)
             (delegation_deny ''explicit_deny''
                ''delegation to this target is explicitly denied for this agent'')
             (delegation_deny ''no_grant''
                (''agent has no capability grant matching '' @ quoted DELEGATE_CAPABILITY))
             (delegation_deny ''delegation_target_not_permitted''
                ''no delegation grant permits this target (relationship or agent pin mismatch)'')
             delegation_granted gs)"
  by (simp only: evaluate_delegation_def covering_gate_def delegation_granted_def)

interpretation delegation_gate: grant_gate "\<lambda>gs. evaluate_delegation gs facts d" "\<lambda>r. \<not> dd_allowed r"
    "delegation_open facts d" "delegation_grant facts GALLOW" "delegation_grant facts GDENY" delegation_granted
  for facts d
proof
  fix gs
  show "evaluate_delegation gs facts d = delegation_granted"
    if "delegation_open facts d" "\<exists>g \<in> set gs. delegation_grant facts GALLOW g"
      "\<not> (\<exists>g \<in> set gs. delegation_grant facts GDENY g)"
    using that by (simp add: evaluate_delegation_chain delegation_open_def covering_gate_open)
  show "\<not> dd_allowed (evaluate_delegation gs facts d)"
    if "\<not> (delegation_open facts d \<and> (\<exists>g \<in> set gs. delegation_grant facts GALLOW g)
           \<and> \<not> (\<exists>g \<in> set gs. delegation_grant facts GDENY g))"
  proof (cases "delegation_open facts d")
    case True
    with that have "\<not> ((\<exists>g \<in> set gs. delegation_grant facts GALLOW g) \<and> \<not> (\<exists>g \<in> set gs. delegation_grant facts GDENY g))"
      by blast
    then have "\<not> dd_allowed (covering_gate DELEGATE_CAPABILITY (\<lambda>g. delegation_grant_covers g facts)
        (delegation_deny c1 r1) (delegation_deny c2 r2) (delegation_deny c3 r3) delegation_granted gs)"
      for c1 r1 c2 r2 c3 r3
      by (rule covering_gate_closed) simp_all
    with True show ?thesis
      unfolding evaluate_delegation_chain by (simp add: delegation_open_def)
  next
    case False
    then show ?thesis
      unfolding evaluate_delegation_chain delegation_open_def by auto
  qed
qed

lemma parsed_settings_valid:
  assumes "\<And>raw s. validate raw = Some s \<Longrightarrow> delegation_settings_valid s"
  shows "delegation_settings_valid (parse_delegation_settings validate settings_json)"
proof -
  have "delegation_settings_valid default_delegation_settings"
    by (simp add: default_delegation_settings_def delegation_settings_valid_def DEFAULT_MAX_TASK_DEPTH_def)
  then show ?thesis
    using assms by (auto simp: parse_delegation_settings_def split: option.split pyval.split)
qed

section \<open>Properties\<close>

text \<open>
  A delegation is permitted exactly when the target exists, is active, is not on
  the active lineage, the child stays within the depth limit, some allow grant covers the target by
  relationship and pin, and no deny grant covers it.
\<close>

theorem delegation_allowed_iff:
  "dd_allowed (evaluate_delegation gs facts d) \<longleftrightarrow>
     df_target_exists facts \<and> df_target_active facts
     \<and> df_target_agent_id facts \<notin> set (df_ancestor_agent_ids facts) \<and> df_task_depth facts + 1 \<le> d
     \<and> (\<exists>g \<in> set gs. delegation_grant facts GALLOW g) \<and> \<not> (\<exists>g \<in> set gs. delegation_grant facts GDENY g)"
  using delegation_gate.accepted_iff [where facts = facts and d = d and gs = gs]
  unfolding delegation_open_def by simp

text \<open>
  Whatever a workspace's settings hold, a chain of permitted delegations is short: the
  child of a permitted delegation sits at depth 20 or less.
\<close>

theorem delegation_depth_bounded:
  assumes "\<And>raw s. validate raw = Some s \<Longrightarrow> delegation_settings_valid s"
    and "dd_allowed (evaluate_delegation gs facts (ds_max_task_depth (parse_delegation_settings validate settings_json)))"
  shows "df_task_depth facts + 1 \<le> 20"
proof -
  have "\<not> \<not> delegation_open facts (ds_max_task_depth (parse_delegation_settings validate settings_json))"
    using assms(2) delegation_gate.guard_wins by blast
  moreover have "delegation_settings_valid (parse_delegation_settings validate settings_json)"
    using assms(1) by (rule parsed_settings_valid)
  ultimately show ?thesis
    by (simp add: delegation_open_def delegation_settings_valid_def)
qed

definition sample_facts :: delegation_facts where
  "sample_facts = \<lparr>df_delegator_agent_id = ''a'', df_target_agent_id = ''b'', df_target_exists = True,
     df_target_active = True, df_target_is_subordinate = True, df_target_in_same_team = False,
     df_task_depth = 2, df_ancestor_agent_ids = [''a'']\<rparr>"

definition delegate_grant :: grant where
  "delegate_grant = \<lparr>g_capability = ''organization.delegate'', g_scope = [], g_effect = GALLOW\<rparr>"

text \<open>A validator of one field that reads an integer in range, as the model does.\<close>

definition sample_validate :: "pyval dict \<Rightarrow> delegation_settings option" where
  "sample_validate raw = (case dict_get raw ''max_task_depth'' of
     Some (PInt n) \<Rightarrow> if 1 \<le> n \<and> n \<le> 20 then Some \<lparr>ds_max_task_depth = n\<rparr> else None
   | None \<Rightarrow> Some default_delegation_settings | _ \<Rightarrow> None)"

theorem delegation_depth_bounded_witness: "df_task_depth sample_facts + 1 \<le> 20"
proof (rule delegation_depth_bounded)
  show "delegation_settings_valid s" if "sample_validate raw = Some s" for raw s
    using that by (auto simp: sample_validate_def delegation_settings_valid_def default_delegation_settings_def
        DEFAULT_MAX_TASK_DEPTH_def split: option.splits pyval.splits if_splits)
  show "dd_allowed (evaluate_delegation [delegate_grant] sample_facts (ds_max_task_depth
          (parse_delegation_settings sample_validate (Some [(''delegation'', PDict [(''max_task_depth'', PInt 7)])]))))"
    by code_simp
qed

end
