(* ===== verification/WorkRequests.thy ===== *)
theory WorkRequests
  imports TargetScopes
begin

text \<open>
  \<open>packages/policy/src/jhin_policy/work_requests.py\<close>: who may ask whom for work. The structural
  guards (no self-request, the target's state, no ping-pong, chain depth, the three caps) come
  before any grant; the decision interprets \<open>grant_gate\<close>. \<open>CoordinationSettings.model_validate\<close> is
  pydantic's and is the parameter \<open>validate\<close>.
\<close>

definition WORK_REQUEST_CAPABILITY :: string where
  "WORK_REQUEST_CAPABILITY = ''organization.work.request''"

definition WORK_RESPOND_CAPABILITY :: string where
  "WORK_RESPOND_CAPABILITY = ''organization.work.respond''"

definition DIRECTORY_READ_CAPABILITY :: string where
  "DIRECTORY_READ_CAPABILITY = ''organization.directory.read''"

definition collaboration_grant_specs :: "(string \<times> pyval dict) list" where
  "collaboration_grant_specs =
     [(DIRECTORY_READ_CAPABILITY, []),
      (WORK_REQUEST_CAPABILITY, [(''targets'', PStr ''any'')]),
      (WORK_RESPOND_CAPABILITY, [])]"

record coordination_settings =
  cs_max_request_depth :: int
  cs_max_pending_requests_per_agent :: int
  cs_max_requests_per_agent_per_hour :: int
  cs_max_active_request_tasks_per_agent :: int
  cs_auto_activate_targets :: bool

definition default_coordination_settings :: coordination_settings where
  "default_coordination_settings =
     \<lparr>cs_max_request_depth = 4, cs_max_pending_requests_per_agent = 10,
      cs_max_requests_per_agent_per_hour = 30, cs_max_active_request_tasks_per_agent = 3,
      cs_auto_activate_targets = True\<rparr>"

text \<open>The bounds of the fields.\<close>

definition coordination_settings_valid :: "coordination_settings \<Rightarrow> bool" where
  "coordination_settings_valid s \<longleftrightarrow>
     1 \<le> cs_max_request_depth s \<and> cs_max_request_depth s \<le> 20
     \<and> 1 \<le> cs_max_pending_requests_per_agent s \<and> cs_max_pending_requests_per_agent s \<le> 500
     \<and> 1 \<le> cs_max_requests_per_agent_per_hour s \<and> cs_max_requests_per_agent_per_hour s \<le> 5000
     \<and> 1 \<le> cs_max_active_request_tasks_per_agent s \<and> cs_max_active_request_tasks_per_agent s \<le> 500"

definition parse_coordination_settings ::
    "(pyval dict \<Rightarrow> coordination_settings option) \<Rightarrow> pyval dict option \<Rightarrow> coordination_settings" where
  "parse_coordination_settings validate settings_json =
     (case dict_get (case settings_json of None \<Rightarrow> [] | Some d \<Rightarrow> d) ''coordination'' of
        Some (PDict raw) \<Rightarrow> (case validate raw of Some s \<Rightarrow> s | None \<Rightarrow> default_coordination_settings)
      | _ \<Rightarrow> default_coordination_settings)"

record work_request_facts =
  wf_requester_agent_id :: string
  wf_target_agent_id :: string
  wf_target_exists :: bool
  wf_target_active :: bool
  wf_target_available :: bool
  wf_target_is_subordinate :: bool
  wf_target_in_same_team :: bool
  wf_request_depth :: int
  wf_open_requests_by_requester :: int
  wf_requests_last_hour_by_requester :: int
  wf_active_request_tasks_for_target :: int
  wf_reverse_request_open :: bool

record work_request_decision =
  wd_allowed :: bool
  wd_code :: string
  wd_reason :: string

definition request_deny :: "string \<Rightarrow> string \<Rightarrow> work_request_decision" where
  "request_deny code reason = \<lparr>wd_allowed = False, wd_code = code, wd_reason = reason\<rparr>"

definition request_targets_of :: "pyval dict \<Rightarrow> string list" where
  "request_targets_of scope = scope_targets ''team'' scope"

definition request_relationship_permits :: "pyval dict \<Rightarrow> work_request_facts \<Rightarrow> bool" where
  "request_relationship_permits scope facts =
     list_ex (\<lambda>target. target_reaches target (wf_target_is_subordinate facts) (wf_target_in_same_team facts))
       (request_targets_of scope)"

definition request_grant_covers :: "grant \<Rightarrow> work_request_facts \<Rightarrow> bool" where
  "request_grant_covers g facts \<longleftrightarrow>
     request_relationship_permits (g_scope g) facts \<and> id_pin_permits (g_scope g) (wf_target_agent_id facts)"

definition evaluate_work_request ::
    "grant list \<Rightarrow> work_request_facts \<Rightarrow> coordination_settings option \<Rightarrow> work_request_decision" where
  "evaluate_work_request grants facts settings =
     (let limits = (case settings of None \<Rightarrow> default_coordination_settings | Some s \<Rightarrow> s)
      in if wf_requester_agent_id facts = wf_target_agent_id facts
      then request_deny ''self_request'' ''an agent cannot request work from itself''
      else if \<not> wf_target_exists facts
      then request_deny ''target_not_found'' ''target agent does not exist in this workspace''
      else if \<not> wf_target_active facts
      then request_deny ''target_inactive'' ''target agent is not active''
      else if \<not> wf_target_available facts
      then request_deny ''target_unavailable'' ''target agent is marked unavailable''
      else if wf_reverse_request_open facts
      then request_deny ''request_ping_pong''
             (''the target already has an open request to you on this work; '' @
              ''answer it instead of opening a request back'')
      else if wf_request_depth facts > cs_max_request_depth limits
      then request_deny ''request_depth_exceeded''
             (''work-request chain depth limit is '' @ show_int (cs_max_request_depth limits))
      else if wf_open_requests_by_requester facts \<ge> cs_max_pending_requests_per_agent limits
      then request_deny ''requester_pending_limit''
             (''you already have '' @ show_int (wf_open_requests_by_requester facts) @
              '' requests out with colleagues that have not come back yet (limit '' @
              show_int (cs_max_pending_requests_per_agent limits) @ ''); wait for one to finish'')
      else if wf_requests_last_hour_by_requester facts \<ge> cs_max_requests_per_agent_per_hour limits
      then request_deny ''requester_rate_limit''
             (''request rate limit is '' @ show_int (cs_max_requests_per_agent_per_hour limits) @ '' per hour'')
      else if wf_active_request_tasks_for_target facts \<ge> cs_max_active_request_tasks_per_agent limits
      then request_deny ''target_capacity_exceeded''
             (''the target agent is already working on '' @
              show_int (wf_active_request_tasks_for_target facts) @ '' requested tasks (limit '' @
              show_int (cs_max_active_request_tasks_per_agent limits) @ '')'')
      else
        (let matching = filter (\<lambda>g. capability_matches (g_capability g) WORK_REQUEST_CAPABILITY) grants
         in if list_ex (\<lambda>g. g_effect g = GDENY \<and> request_grant_covers g facts) matching
            then request_deny ''explicit_deny'' ''requesting work from this target is explicitly denied''
            else
              (let allow = filter (\<lambda>g. g_effect g = GALLOW) matching
               in if allow = []
                  then request_deny ''no_grant''
                         (''agent has no capability grant matching '' @ quoted WORK_REQUEST_CAPABILITY)
                  else if \<not> list_ex (\<lambda>g. request_grant_covers g facts) allow
                  then request_deny ''request_target_not_permitted''
                         ''no work-request grant permits this target (relationship or agent pin mismatch)''
                  else \<lparr>wd_allowed = True, wd_code = ''granted'',
                        wd_reason = ''work request permitted by capability grant''\<rparr>)))"

section \<open>The decision through the interface\<close>

text \<open>What must hold of the facts whatever the grants say.\<close>

definition request_open :: "work_request_facts \<Rightarrow> coordination_settings \<Rightarrow> bool" where
  "request_open facts limits \<longleftrightarrow>
     wf_requester_agent_id facts \<noteq> wf_target_agent_id facts
     \<and> wf_target_exists facts \<and> wf_target_active facts \<and> wf_target_available facts
     \<and> \<not> wf_reverse_request_open facts
     \<and> wf_request_depth facts \<le> cs_max_request_depth limits
     \<and> wf_open_requests_by_requester facts < cs_max_pending_requests_per_agent limits
     \<and> wf_requests_last_hour_by_requester facts < cs_max_requests_per_agent_per_hour limits
     \<and> wf_active_request_tasks_for_target facts < cs_max_active_request_tasks_per_agent limits"

definition request_granted :: work_request_decision where
  "request_granted =
     \<lparr>wd_allowed = True, wd_code = ''granted'', wd_reason = ''work request permitted by capability grant''\<rparr>"

abbreviation request_grant :: "work_request_facts \<Rightarrow> grant_effect \<Rightarrow> grant \<Rightarrow> bool" where
  "request_grant facts \<equiv> covering_grant WORK_REQUEST_CAPABILITY (\<lambda>g. request_grant_covers g facts)"

definition limits_of :: "coordination_settings option \<Rightarrow> coordination_settings" where
  "limits_of settings = (case settings of None \<Rightarrow> default_coordination_settings | Some s \<Rightarrow> s)"

lemma request_deny_simps [simp]: "\<not> wd_allowed (request_deny c r)" "wd_code (request_deny c r) = c"
  by (simp_all add: request_deny_def)

lemma request_granted_simps [simp]: "wd_allowed request_granted" "wd_code request_granted = ''granted''"
  by (simp_all add: request_granted_def)

text \<open>The last steps of the decision are the covering step.\<close>

definition request_gate :: "grant list \<Rightarrow> work_request_facts \<Rightarrow> work_request_decision" where
  "request_gate gs facts =
     covering_gate WORK_REQUEST_CAPABILITY (\<lambda>g. request_grant_covers g facts)
       (request_deny ''explicit_deny'' ''requesting work from this target is explicitly denied'')
       (request_deny ''no_grant''
          (''agent has no capability grant matching '' @ quoted WORK_REQUEST_CAPABILITY))
       (request_deny ''request_target_not_permitted''
          ''no work-request grant permits this target (relationship or agent pin mismatch)'')
       request_granted gs"

lemma evaluate_request_open:
  "request_open facts (limits_of settings) \<Longrightarrow> evaluate_work_request gs facts settings = request_gate gs facts"
  unfolding evaluate_work_request_def request_open_def limits_of_def
  unfolding request_gate_def covering_gate_def request_granted_def
  by (simp only: Let_def not_le [symmetric] simp_thms if_False if_True)

lemma evaluate_request_guarded:
  "\<not> request_open facts (limits_of settings) \<Longrightarrow> \<not> wd_allowed (evaluate_work_request gs facts settings)"
proof (rule contrapos_nn)
  assume "wd_allowed (evaluate_work_request gs facts settings)"
  then show "request_open facts (limits_of settings)"
    unfolding evaluate_work_request_def Let_def limits_of_def [symmetric]
    by (simp only: request_open_def request_deny_simps not_le not_less simp_thms split: if_split_asm)
qed

interpretation request_gate: grant_gate "\<lambda>gs. evaluate_work_request gs facts settings" "\<lambda>r. \<not> wd_allowed r"
    "request_open facts (limits_of settings)" "request_grant facts GALLOW" "request_grant facts GDENY"
    request_granted
  for facts settings
proof
  fix gs
  show "evaluate_work_request gs facts settings = request_granted"
    if "request_open facts (limits_of settings)" "\<exists>g \<in> set gs. request_grant facts GALLOW g"
      "\<not> (\<exists>g \<in> set gs. request_grant facts GDENY g)"
    using that by (simp add: evaluate_request_open request_gate_def covering_gate_open)
  show "\<not> wd_allowed (evaluate_work_request gs facts settings)"
    if "\<not> (request_open facts (limits_of settings) \<and> (\<exists>g \<in> set gs. request_grant facts GALLOW g)
           \<and> \<not> (\<exists>g \<in> set gs. request_grant facts GDENY g))"
  proof (cases "request_open facts (limits_of settings)")
    case True
    with that have "\<not> ((\<exists>g \<in> set gs. request_grant facts GALLOW g) \<and> \<not> (\<exists>g \<in> set gs. request_grant facts GDENY g))"
      by blast
    then have "\<not> wd_allowed (request_gate gs facts)"
      unfolding request_gate_def by (rule covering_gate_closed) simp_all
    with True show ?thesis
      by (simp add: evaluate_request_open)
  qed (rule evaluate_request_guarded)
qed

section \<open>Properties\<close>

text \<open>
  A work request is permitted exactly when every structural guard is met, some
  allow grant covers the target by relationship and pin, and no deny grant covers it.
\<close>

theorem work_request_allowed_iff:
  "wd_allowed (evaluate_work_request gs facts settings) \<longleftrightarrow>
     request_open facts (limits_of settings)
     \<and> (\<exists>g \<in> set gs. request_grant facts GALLOW g) \<and> \<not> (\<exists>g \<in> set gs. request_grant facts GDENY g)"
  using request_gate.accepted_iff [where facts = facts and settings = settings and gs = gs] by simp

end
