(* ===== verification/AgentDefaults.thy ===== *)
theory AgentDefaults
  imports Delegation WorkRequests
begin

text \<open>
  \<open>packages/policy/src/jhin_policy/agent_defaults.py\<close> and the grant specs it collects
  (\<open>memory.py\<close>, \<open>ask_person.py\<close>, \<open>personas.py\<close>, the spec of \<open>identity.py\<close>): what a new agent can do.
  The properties run the default grant set through the decisions of the other components.
\<close>

type_synonym grant_spec = "string \<times> pyval dict"

definition MEMORY_READ_CAPABILITY :: string where
  "MEMORY_READ_CAPABILITY = ''memory.read''"

definition MEMORY_PROPOSE_CAPABILITY :: string where
  "MEMORY_PROPOSE_CAPABILITY = ''memory.propose''"

definition ASK_PERSON_CAPABILITY :: string where
  "ASK_PERSON_CAPABILITY = ''organization.ask_person''"

definition PERSONA_SELF_CAPABILITY :: string where
  "PERSONA_SELF_CAPABILITY = ''organization.persona.self''"

definition IDENTITY_SELF_CAPABILITY :: string where
  "IDENTITY_SELF_CAPABILITY = ''organization.identity.self''"

definition memory_grant_specs :: "grant_spec list" where
  "memory_grant_specs = [(MEMORY_READ_CAPABILITY, []), (MEMORY_PROPOSE_CAPABILITY, [])]"

definition ask_person_grant_specs :: "grant_spec list" where
  "ask_person_grant_specs = [(ASK_PERSON_CAPABILITY, [])]"

definition persona_grant_specs :: "grant_spec list" where
  "persona_grant_specs = [(PERSONA_SELF_CAPABILITY, [])]"

definition identity_grant_specs :: "grant_spec list" where
  "identity_grant_specs = [(IDENTITY_SELF_CAPABILITY, [])]"

definition default_agent_grant_specs :: "grant_spec list" where
  "default_agent_grant_specs =
     collaboration_grant_specs @ memory_grant_specs @ ask_person_grant_specs
     @ persona_grant_specs @ identity_grant_specs"

text \<open>The grants a creation site writes: every spec as an allow grant.\<close>

definition grants_of_specs :: "grant_spec list \<Rightarrow> grant list" where
  "grants_of_specs = map (\<lambda>(capability, scope). \<lparr>g_capability = capability, g_scope = scope, g_effect = GALLOW\<rparr>)"

lemmas spec_defs = default_agent_grant_specs_def collaboration_grant_specs_def memory_grant_specs_def
  ask_person_grant_specs_def persona_grant_specs_def identity_grant_specs_def grants_of_specs_def
  DIRECTORY_READ_CAPABILITY_def WORK_REQUEST_CAPABILITY_def WORK_RESPOND_CAPABILITY_def
  MEMORY_READ_CAPABILITY_def MEMORY_PROPOSE_CAPABILITY_def ASK_PERSON_CAPABILITY_def
  PERSONA_SELF_CAPABILITY_def IDENTITY_SELF_CAPABILITY_def

abbreviation default_grants :: "grant list" where
  "default_grants \<equiv> grants_of_specs default_agent_grant_specs"

lemma default_grants_allow: "\<forall>g \<in> set default_grants. g_effect g = GALLOW"
  by (auto simp: grants_of_specs_def)

text \<open>The one default grant of the work-request capability reaches every target.\<close>

lemma any_target_covers: "request_grant_covers \<lparr>g_capability = c, g_scope = [(''targets'', PStr ''any'')], g_effect = e\<rparr> facts"
  by (simp add: request_grant_covers_def request_relationship_permits_def request_targets_of_def
      scope_targets_def id_pin_permits_def dict_get_def clean_targets_def VALID_TARGETS_def target_reaches_def)

lemma request_capability_itself: "capability_matches ''organization.work.request'' ''organization.work.request''"
  by code_simp

lemma default_grants_request: "\<exists>g \<in> set default_grants. request_grant facts GALLOW g"
proof
  let ?g = "\<lparr>g_capability = ''organization.work.request'', g_scope = [(''targets'', PStr ''any'')], g_effect = GALLOW\<rparr>"
  show "?g \<in> set default_grants"
    by (simp add: spec_defs)
  show "request_grant facts GALLOW ?g"
    unfolding covering_grant_def WORK_REQUEST_CAPABILITY_def
    using any_target_covers by (simp add: request_capability_itself)
qed

lemma default_grants_no_delegate:
  "\<forall>g \<in> set default_grants. \<not> capability_matches (g_capability g) DELEGATE_CAPABILITY"
  by code_simp

section \<open>Properties\<close>

text \<open>
  A new agent can ask any colleague for work, and nothing more stands between them
  than the structural guards; it can delegate to nobody, whatever the facts and the limits are.
\<close>

theorem new_agent_asks_never_delegates:
  "(wd_allowed (evaluate_work_request default_grants rfacts settings) \<longleftrightarrow> request_open rfacts (limits_of settings))
   \<and> \<not> dd_allowed (evaluate_delegation default_grants dfacts depth)"
proof
  have "\<not> (\<exists>g \<in> set default_grants. request_grant rfacts GDENY g)"
    using default_grants_allow by (auto simp: covering_grant_def)
  then show "wd_allowed (evaluate_work_request default_grants rfacts settings)
             \<longleftrightarrow> request_open rfacts (limits_of settings)"
    using request_gate.accepted_iff [where facts = rfacts and settings = settings and gs = default_grants]
      default_grants_request by simp
  have "\<not> (\<exists>g \<in> set default_grants. delegation_grant dfacts GALLOW g)"
    using default_grants_no_delegate by (auto simp: covering_grant_def)
  then show "\<not> dd_allowed (evaluate_delegation default_grants dfacts depth)"
    using delegation_gate.accepted_iff [where facts = dfacts and d = depth and gs = default_grants] by simp
qed

end
