(* ===== verification/Reviews.thy ===== *)
theory Reviews
  imports Prelude PyValue "HOL-Library.Product_Lexorder" "HOL-Library.Multiset"
begin

text \<open>
  \<open>packages/policy/src/jhin_policy/reviews.py\<close>: exception-based oversight. A policy fires on the facts
  of one moment, the fired policies are ordered by scope specificity, priority and id, and a selector
  is resolved against candidates the caller has authorized. Thresholds, which the code keeps as
  floats, are rationals. \<open>model_validate\<close> of a condition and of a selector are pydantic's and are
  parameters of \<open>policy_spec_from_row\<close>.
\<close>

datatype review_mode = PRE_ACTION | BEFORE_CLOSE | POST_ACTION | PERIODIC

definition REVIEW_BLOCKING_MODES :: "review_mode list" where
  "REVIEW_BLOCKING_MODES = [PRE_ACTION, BEFORE_CLOSE]"

datatype review_scope_kind = SCOPE_WORKSPACE | SCOPE_TEAM | SCOPE_AGENT | SCOPE_TASK_TYPE

datatype review_condition_kind =
    ELEVATED_ACTION | DESTRUCTIVE_ACTION | COST_THRESHOLD | TOKEN_THRESHOLD | TIME_THRESHOLD
  | TOOL_FAILURE | TEST_FAILURE | APPROVAL_DENIED | POLICY_DENIED | BLOCKED | LOW_CONFIDENCE
  | CROSS_TEAM_REQUEST | EXPLICIT_REQUEST | ALWAYS

fun condition_kind_value :: "review_condition_kind \<Rightarrow> string" where
  "condition_kind_value ELEVATED_ACTION = ''elevated_action''"
| "condition_kind_value DESTRUCTIVE_ACTION = ''destructive_action''"
| "condition_kind_value COST_THRESHOLD = ''cost_threshold''"
| "condition_kind_value TOKEN_THRESHOLD = ''token_threshold''"
| "condition_kind_value TIME_THRESHOLD = ''time_threshold''"
| "condition_kind_value TOOL_FAILURE = ''tool_failure''"
| "condition_kind_value TEST_FAILURE = ''test_failure''"
| "condition_kind_value APPROVAL_DENIED = ''approval_denied''"
| "condition_kind_value POLICY_DENIED = ''policy_denied''"
| "condition_kind_value BLOCKED = ''blocked''"
| "condition_kind_value LOW_CONFIDENCE = ''low_confidence''"
| "condition_kind_value CROSS_TEAM_REQUEST = ''cross_team_request''"
| "condition_kind_value EXPLICIT_REQUEST = ''explicit_request''"
| "condition_kind_value ALWAYS = ''always''"

record review_condition =
  rc_kind :: review_condition_kind
  rc_threshold :: "rat option"

datatype reviewer_kind = REPORTING_MANAGER | AGENT_REVIEWER | TEAM_ROLE | HUMAN_REVIEWER

fun reviewer_kind_value :: "reviewer_kind \<Rightarrow> string" where
  "reviewer_kind_value REPORTING_MANAGER = ''reporting_manager''"
| "reviewer_kind_value AGENT_REVIEWER = ''agent''"
| "reviewer_kind_value TEAM_ROLE = ''team_role''"
| "reviewer_kind_value HUMAN_REVIEWER = ''human''"

record reviewer_selector =
  rs_kind :: reviewer_kind
  rs_agent_id :: "string option"
  rs_role_label :: "string option"
  rs_fallback_agent_id :: "string option"
  rs_fallback_to_human :: bool

record review_policy_spec =
  rp_policy_id :: string
  rp_mode :: review_mode
  rp_scope_kind :: review_scope_kind
  rp_scope_id :: "string option"
  rp_scope_key :: "string option"
  rp_enabled :: bool
  rp_conditions :: "review_condition list"
  rp_reviewer :: reviewer_selector
  rp_fail_closed :: bool
  rp_priority :: int

record review_context =
  cx_mode :: review_mode
  cx_agent_id :: string
  cx_team_ids :: "string list"
  cx_task_type :: "string option"
  cx_risk :: "string option"
  cx_tool_failed :: bool
  cx_test_failed :: bool
  cx_approval_denied :: bool
  cx_policy_denied :: bool
  cx_cost_micros :: int
  cx_total_tokens :: int
  cx_elapsed_seconds :: int
  cx_blocked :: bool
  cx_confidence :: "rat option"
  cx_cross_team_request :: bool
  cx_explicit_request :: bool

record review_requirement =
  rq_policy_id :: string
  rq_mode :: review_mode
  rq_matched_conditions :: "review_condition_kind list"
  rq_reviewer :: reviewer_selector
  rq_fail_closed :: bool
  rq_priority :: int

record review_decision =
  rd_required :: bool
  rd_blocking :: bool
  rd_requirements :: "review_requirement list"
  rd_code :: string
  rd_reason :: string

fun scope_specificity :: "review_scope_kind \<Rightarrow> nat" where
  "scope_specificity SCOPE_AGENT = 0"
| "scope_specificity SCOPE_TASK_TYPE = 1"
| "scope_specificity SCOPE_TEAM = 2"
| "scope_specificity SCOPE_WORKSPACE = 3"

definition scope_applies :: "review_policy_spec \<Rightarrow> review_context \<Rightarrow> bool" where
  "scope_applies p c =
     (case rp_scope_kind p of
        SCOPE_WORKSPACE \<Rightarrow> True
      | SCOPE_AGENT \<Rightarrow> rp_scope_id p = Some (cx_agent_id c)
      | SCOPE_TEAM \<Rightarrow> (case rp_scope_id p of None \<Rightarrow> False | Some t \<Rightarrow> t \<in> set (cx_team_ids c))
      | SCOPE_TASK_TYPE \<Rightarrow> rp_scope_key p \<noteq> None \<and> rp_scope_key p = cx_task_type c)"

definition threshold_reached :: "rat option \<Rightarrow> int \<Rightarrow> bool" where
  "threshold_reached threshold v = (case threshold of None \<Rightarrow> False | Some th \<Rightarrow> rat_of_int v \<ge> th)"

definition condition_matches :: "review_condition \<Rightarrow> review_context \<Rightarrow> bool" where
  "condition_matches cond c =
     (case rc_kind cond of
        ALWAYS \<Rightarrow> True
      | ELEVATED_ACTION \<Rightarrow> cx_risk c = Some ''elevated'' \<or> cx_risk c = Some ''destructive''
      | DESTRUCTIVE_ACTION \<Rightarrow> cx_risk c = Some ''destructive''
      | COST_THRESHOLD \<Rightarrow> threshold_reached (rc_threshold cond) (cx_cost_micros c)
      | TOKEN_THRESHOLD \<Rightarrow> threshold_reached (rc_threshold cond) (cx_total_tokens c)
      | TIME_THRESHOLD \<Rightarrow> threshold_reached (rc_threshold cond) (cx_elapsed_seconds c)
      | TOOL_FAILURE \<Rightarrow> cx_tool_failed c
      | TEST_FAILURE \<Rightarrow> cx_test_failed c
      | APPROVAL_DENIED \<Rightarrow> cx_approval_denied c
      | POLICY_DENIED \<Rightarrow> cx_policy_denied c
      | BLOCKED \<Rightarrow> cx_blocked c
      | LOW_CONFIDENCE \<Rightarrow>
          (case cx_confidence c of
             None \<Rightarrow> False
           | Some v \<Rightarrow> v < (case rc_threshold cond of None \<Rightarrow> 1 / 2 | Some th \<Rightarrow> th))
      | CROSS_TEAM_REQUEST \<Rightarrow> cx_cross_team_request c
      | EXPLICIT_REQUEST \<Rightarrow> cx_explicit_request c)"

type_synonym review_key = "nat \<times> int \<times> string"

text \<open>One turn of the loop: what the policy adds to the list of keyed requirements.\<close>

definition review_requirements_of ::
    "review_context \<Rightarrow> review_policy_spec \<Rightarrow> (review_key \<times> review_requirement) list" where
  "review_requirements_of c p =
     (if \<not> rp_enabled p \<or> rp_mode p \<noteq> cx_mode c then []
      else if \<not> scope_applies p c then []
      else
        (let matched = map rc_kind (filter (\<lambda>cond. condition_matches cond c) (rp_conditions p))
         in if matched = [] then []
            else [((scope_specificity (rp_scope_kind p), rp_priority p, rp_policy_id p),
                   \<lparr>rq_policy_id = rp_policy_id p, rq_mode = rp_mode p, rq_matched_conditions = matched,
                    rq_reviewer = rp_reviewer p, rq_fail_closed = rp_fail_closed p,
                    rq_priority = rp_priority p\<rparr>)]))"

definition evaluate_review_policies :: "review_policy_spec list \<Rightarrow> review_context \<Rightarrow> review_decision" where
  "evaluate_review_policies policies c =
     (let requirements = concat (map (review_requirements_of c) policies)
      in if requirements = []
         then \<lparr>rd_required = False, rd_blocking = False, rd_requirements = [], rd_code = ''no_review'',
               rd_reason = ''no review policy matched''\<rparr>
         else
           (let ordered = map snd (sort_key fst requirements); primary = hd ordered
            in \<lparr>rd_required = True, rd_blocking = cx_mode c \<in> set REVIEW_BLOCKING_MODES,
                rd_requirements = ordered, rd_code = ''review_required'',
                rd_reason = ''review policy '' @ rq_policy_id primary @ '' matched '' @
                            join '', '' (map condition_kind_value (rq_matched_conditions primary))\<rparr>))"

section \<open>Reviewer resolution\<close>

record reviewer_candidates =
  ca_manager_agent_id :: "string option"
  ca_active_agents :: "bool dict"
  ca_team_role_agents :: "string list dict"
  ca_human_available :: bool

datatype resolution_outcome = RESOLVED | HUMAN_REQUIRED | SKIPPED | FAIL_CLOSED

record reviewer_resolution =
  rr_outcome :: resolution_outcome
  rr_reviewer_agent_id :: "string option"
  rr_code :: string
  rr_reason :: string

definition active_agent :: "reviewer_candidates \<Rightarrow> string option \<Rightarrow> string option" where
  "active_agent cs agent_id =
     (case agent_id of
        None \<Rightarrow> None
      | Some a \<Rightarrow> if dict_get (ca_active_agents cs) a = Some True then Some a else None)"

definition primary_reviewer :: "reviewer_selector \<Rightarrow> reviewer_candidates \<Rightarrow> string option" where
  "primary_reviewer sel cs =
     (case rs_kind sel of
        REPORTING_MANAGER \<Rightarrow> active_agent cs (ca_manager_agent_id cs)
      | AGENT_REVIEWER \<Rightarrow> active_agent cs (rs_agent_id sel)
      | TEAM_ROLE \<Rightarrow>
          (let label = (case rs_role_label sel of None \<Rightarrow> [] | Some l \<Rightarrow> l);
               holders = (case dict_get (ca_team_role_agents cs) label of None \<Rightarrow> [] | Some hs \<Rightarrow> hs)
           in List.find (\<lambda>a. active_agent cs (Some a) \<noteq> None \<and> a \<noteq> []) (sort holders))
      | HUMAN_REVIEWER \<Rightarrow> None)"

definition resolution :: "resolution_outcome \<Rightarrow> string option \<Rightarrow> string \<Rightarrow> string \<Rightarrow> reviewer_resolution" where
  "resolution outcome agent code reason =
     \<lparr>rr_outcome = outcome, rr_reviewer_agent_id = agent, rr_code = code, rr_reason = reason\<rparr>"

definition resolve_reviewer ::
    "reviewer_selector \<Rightarrow> reviewer_candidates \<Rightarrow> review_mode \<Rightarrow> bool \<Rightarrow> reviewer_resolution" where
  "resolve_reviewer sel cs mode fail_closed =
     (if rs_kind sel = HUMAN_REVIEWER \<and> ca_human_available cs
      then resolution HUMAN_REQUIRED None ''human_reviewer'' ''policy names a human''
      else
        (case primary_reviewer sel cs of
           Some a \<Rightarrow> resolution RESOLVED (Some a) ''reviewer_resolved''
                       (''reviewer resolved via '' @ reviewer_kind_value (rs_kind sel))
         | None \<Rightarrow>
             (case active_agent cs (rs_fallback_agent_id sel) of
                Some a \<Rightarrow> resolution RESOLVED (Some a) ''reviewer_fallback_agent''
                            ''primary reviewer unavailable; fallback agent selected''
              | None \<Rightarrow>
                  if rs_fallback_to_human sel \<and> ca_human_available cs
                  then resolution HUMAN_REQUIRED None ''reviewer_fallback_human''
                         ''no agent reviewer available; escalated to a human''
                  else if fail_closed \<and> mode \<in> set REVIEW_BLOCKING_MODES
                  then resolution FAIL_CLOSED None ''mandatory_reviewer_missing''
                         ''mandatory review has no reviewer; the action is blocked''
                  else resolution SKIPPED None ''reviewer_missing''
                         ''no reviewer available; review skipped'')))"

section \<open>Rows\<close>

definition parse_review_mode :: "string \<Rightarrow> review_mode option" where
  "parse_review_mode s =
     map_of [(''pre_action'', PRE_ACTION), (''before_close'', BEFORE_CLOSE),
             (''post_action'', POST_ACTION), (''periodic'', PERIODIC)] s"

definition parse_review_scope_kind :: "string \<Rightarrow> review_scope_kind option" where
  "parse_review_scope_kind s =
     map_of [(''workspace'', SCOPE_WORKSPACE), (''team'', SCOPE_TEAM), (''agent'', SCOPE_AGENT),
             (''task_type'', SCOPE_TASK_TYPE)] s"

fun all_some :: "('a \<Rightarrow> 'b option) \<Rightarrow> 'a list \<Rightarrow> 'b list option" where
  "all_some f [] = Some []"
| "all_some f (x # xs) = (case f x of None \<Rightarrow> None | Some y \<Rightarrow> map_option ((#) y) (all_some f xs))"

definition policy_spec_from_row ::
    "(pyval \<Rightarrow> review_condition option) \<Rightarrow> (pyval dict \<Rightarrow> reviewer_selector option) \<Rightarrow>
     string \<Rightarrow> string \<Rightarrow> string \<Rightarrow> string option \<Rightarrow> string option \<Rightarrow> bool \<Rightarrow> pyval \<Rightarrow> pyval \<Rightarrow> bool \<Rightarrow> int \<Rightarrow>
     review_policy_spec option" where
  "policy_spec_from_row validate_condition validate_selector policy_id mode scope_kind scope_id scope_key
     enabled conditions_json selector_json fail_closed priority =
     (case all_some validate_condition (case conditions_json of PList raws \<Rightarrow> raws | _ \<Rightarrow> []) of
        None \<Rightarrow> None
      | Some conditions \<Rightarrow>
          (case validate_selector (case selector_json of PDict d \<Rightarrow> d | _ \<Rightarrow> []) of
             None \<Rightarrow> None
           | Some reviewer \<Rightarrow>
               (case (parse_review_mode mode, parse_review_scope_kind scope_kind) of
                  (Some m, Some k) \<Rightarrow>
                    Some \<lparr>rp_policy_id = policy_id, rp_mode = m, rp_scope_kind = k, rp_scope_id = scope_id,
                          rp_scope_key = scope_key, rp_enabled = enabled, rp_conditions = conditions,
                          rp_reviewer = reviewer, rp_fail_closed = fail_closed, rp_priority = priority\<rparr>
                | _ \<Rightarrow> None)))"

section \<open>What a policy promises\<close>

definition policy_fires :: "review_context \<Rightarrow> review_policy_spec \<Rightarrow> bool" where
  "policy_fires c p \<longleftrightarrow>
     rp_enabled p \<and> rp_mode p = cx_mode c \<and> scope_applies p c
     \<and> (\<exists>cond \<in> set (rp_conditions p). condition_matches cond c)"

definition policy_key :: "review_policy_spec \<Rightarrow> review_key" where
  "policy_key p = (scope_specificity (rp_scope_kind p), rp_priority p, rp_policy_id p)"

definition requirement_of :: "review_context \<Rightarrow> review_policy_spec \<Rightarrow> review_requirement" where
  "requirement_of c p =
     \<lparr>rq_policy_id = rp_policy_id p, rq_mode = rp_mode p,
      rq_matched_conditions = map rc_kind (filter (\<lambda>cond. condition_matches cond c) (rp_conditions p)),
      rq_reviewer = rp_reviewer p, rq_fail_closed = rp_fail_closed p, rq_priority = rp_priority p\<rparr>"

lemma review_requirements_of_fires:
  "review_requirements_of c p = (if policy_fires c p then [(policy_key p, requirement_of c p)] else [])"
  by (auto simp: review_requirements_of_def policy_fires_def policy_key_def requirement_of_def Let_def
      filter_empty_conv)

lemma requirements_filter:
  "concat (map (review_requirements_of c) ps)
   = map (\<lambda>p. (policy_key p, requirement_of c p)) (filter (policy_fires c) ps)"
  by (induction ps) (simp_all add: review_requirements_of_fires)

text \<open>The keyed requirements in order are the fired policies in order.\<close>

lemma sort_key_map: "sort_key f (map g xs) = map g (sort_key (\<lambda>x. f (g x)) xs)"
proof -
  have "insort_key f (g x) (map g ys) = map g (insort_key (\<lambda>x. f (g x)) x ys)" for x ys
    by (induction ys) auto
  then show ?thesis
    by (induction xs) simp_all
qed

definition fired_in_order :: "review_policy_spec list \<Rightarrow> review_context \<Rightarrow> review_policy_spec list" where
  "fired_in_order ps c = sort_key policy_key (filter (policy_fires c) ps)"

lemma sort_key_Nil: "sort_key f xs = [] \<longleftrightarrow> xs = []"
  by (metis length_0_conv length_sort)

text \<open>The decision as a function of the requirements in order.\<close>

definition decision_of :: "review_context \<Rightarrow> review_requirement list \<Rightarrow> review_decision" where
  "decision_of c ordered =
     (if ordered = []
      then \<lparr>rd_required = False, rd_blocking = False, rd_requirements = [], rd_code = ''no_review'',
            rd_reason = ''no review policy matched''\<rparr>
      else \<lparr>rd_required = True, rd_blocking = cx_mode c \<in> set REVIEW_BLOCKING_MODES,
            rd_requirements = ordered, rd_code = ''review_required'',
            rd_reason = ''review policy '' @ rq_policy_id (hd ordered) @ '' matched '' @
                        join '', '' (map condition_kind_value (rq_matched_conditions (hd ordered)))\<rparr>)"

lemma evaluate_decision_of:
  "evaluate_review_policies ps c = decision_of c (map (requirement_of c) (fired_in_order ps c))"
proof -
  have "map snd (sort_key fst (concat (map (review_requirements_of c) ps)))
        = map (requirement_of c) (fired_in_order ps c)"
    by (simp add: requirements_filter sort_key_map o_def fired_in_order_def)
  moreover have "concat (map (review_requirements_of c) ps) = [] \<longleftrightarrow> fired_in_order ps c = []"
    unfolding requirements_filter fired_in_order_def sort_key_Nil by simp
  ultimately show ?thesis
    by (simp only: evaluate_review_policies_def Let_def decision_of_def map_is_Nil_conv)
qed

lemma decision_of_simps:
  "rd_required (decision_of c rs) \<longleftrightarrow> rs \<noteq> []"
  "rd_blocking (decision_of c rs) \<longleftrightarrow> rs \<noteq> [] \<and> cx_mode c \<in> set REVIEW_BLOCKING_MODES"
  "rd_requirements (decision_of c rs) = rs"
  by (simp_all add: decision_of_def)

lemma policy_key_inj: "distinct (map rp_policy_id ps) \<Longrightarrow> inj_on policy_key (set ps)"
  by (auto simp: inj_on_def policy_key_def distinct_map)

section \<open>Properties\<close>

text \<open>
  A review is required exactly when some policy fires, it blocks exactly when one
  fires in a blocking mode, and the requirement named first is that of the fired policy with the
  least scope specificity, priority and id: no fired policy has a smaller key.
\<close>

theorem review_decision_spec:
  "rd_required (evaluate_review_policies ps c) = (\<exists>p \<in> set ps. policy_fires c p)
   \<and> rd_blocking (evaluate_review_policies ps c)
       = ((\<exists>p \<in> set ps. policy_fires c p) \<and> cx_mode c \<in> {PRE_ACTION, BEFORE_CLOSE})
   \<and> rd_requirements (evaluate_review_policies ps c) = map (requirement_of c) (fired_in_order ps c)
   \<and> sorted (map policy_key (fired_in_order ps c))
   \<and> mset (fired_in_order ps c) = filter_mset (policy_fires c) (mset ps)"
proof -
  have nil: "fired_in_order ps c = [] \<longleftrightarrow> \<not> (\<exists>p \<in> set ps. policy_fires c p)"
    unfolding fired_in_order_def sort_key_Nil by (simp add: filter_empty_conv)
  have "sorted (map policy_key (fired_in_order ps c))"
    and "mset (fired_in_order ps c) = filter_mset (policy_fires c) (mset ps)"
    by (simp_all add: fired_in_order_def)
  then show ?thesis
    unfolding evaluate_decision_of decision_of_simps map_is_Nil_conv nil REVIEW_BLOCKING_MODES_def by simp
qed

text \<open>
  The decision does not depend on the order the rows were loaded in: two lists of
  the same policies, ids distinct, give the same decision, its reason included.
\<close>

theorem review_decision_deterministic:
  assumes "mset ps = mset qs" and "distinct (map rp_policy_id ps)"
  shows "evaluate_review_policies ps c = evaluate_review_policies qs c"
proof -
  have "fired_in_order ps c = fired_in_order qs c"
    unfolding fired_in_order_def
  proof (rule sort_key_inj_key_eq)
    show "mset (filter (policy_fires c) ps) = mset (sort_key policy_key (filter (policy_fires c) qs))"
      using assms(1) by simp
    show "inj_on policy_key (set (filter (policy_fires c) ps))"
      using policy_key_inj [OF assms(2)] by (rule inj_on_subset) auto
  qed simp
  then show ?thesis
    by (simp add: evaluate_decision_of)
qed

lemma active_agent_active: "active_agent cs i = Some a \<Longrightarrow> dict_get (ca_active_agents cs) a = Some True"
  by (auto simp: active_agent_def split: option.splits if_splits)

lemma primary_reviewer_active:
  assumes "primary_reviewer sel cs = Some a"
  shows "dict_get (ca_active_agents cs) a = Some True"
proof (cases "rs_kind sel = TEAM_ROLE")
  case True
  then obtain hs where "List.find (\<lambda>a. active_agent cs (Some a) \<noteq> None \<and> a \<noteq> []) hs = Some a"
    using assms by (auto simp: primary_reviewer_def Let_def)
  then have "active_agent cs (Some a) \<noteq> None"
    using find_Some_in by fastforce
  then show ?thesis
    by (simp add: active_agent_def split: if_splits)
next
  case False
  then show ?thesis
    using assms active_agent_active
    by (cases "rs_kind sel") (simp_all add: primary_reviewer_def)
qed

text \<open>
  Every outcome of the reviewer resolution is earned: a resolved reviewer is an active
  agent of the workspace, a person is asked only when one is available, a mandatory blocking review
  is never skipped, and only a mandatory blocking review fails closed.
\<close>

theorem resolve_reviewer_sound:
  "case rr_outcome (resolve_reviewer sel cs mode fail_closed) of
     RESOLVED \<Rightarrow> (\<exists>a. rr_reviewer_agent_id (resolve_reviewer sel cs mode fail_closed) = Some a
                     \<and> dict_get (ca_active_agents cs) a = Some True)
   | HUMAN_REQUIRED \<Rightarrow> ca_human_available cs
   | SKIPPED \<Rightarrow> \<not> (fail_closed \<and> mode \<in> {PRE_ACTION, BEFORE_CLOSE})
   | FAIL_CLOSED \<Rightarrow> fail_closed \<and> mode \<in> {PRE_ACTION, BEFORE_CLOSE}"
  using primary_reviewer_active [of sel cs] active_agent_active [of cs "rs_fallback_agent_id sel"]
  by (cases "primary_reviewer sel cs"; cases "active_agent cs (rs_fallback_agent_id sel)")
     (simp_all add: resolve_reviewer_def resolution_def REVIEW_BLOCKING_MODES_def)

definition sample_condition :: review_condition where
  "sample_condition = \<lparr>rc_kind = ELEVATED_ACTION, rc_threshold = None\<rparr>"

definition sample_selector :: reviewer_selector where
  "sample_selector = \<lparr>rs_kind = REPORTING_MANAGER, rs_agent_id = None, rs_role_label = None,
     rs_fallback_agent_id = None, rs_fallback_to_human = True\<rparr>"

definition sample_policy :: "string \<Rightarrow> review_policy_spec" where
  "sample_policy i = \<lparr>rp_policy_id = i, rp_mode = PRE_ACTION, rp_scope_kind = SCOPE_WORKSPACE,
     rp_scope_id = None, rp_scope_key = None, rp_enabled = True, rp_conditions = [sample_condition],
     rp_reviewer = sample_selector, rp_fail_closed = True, rp_priority = 100\<rparr>"

theorem review_decision_deterministic_witness:
  "\<forall>c. evaluate_review_policies [sample_policy ''b'', sample_policy ''a''] c
       = evaluate_review_policies [sample_policy ''a'', sample_policy ''b''] c"
  by (rule allI, rule review_decision_deterministic) (simp_all add: sample_policy_def)

end
