(* ===== verification/Filters.thy ===== *)
theory Filters
  imports PyValue
begin

text \<open>
  \<open>packages/triggers/src/jhin_triggers/filters.py\<close>: the trigger filter DSL. Documents and events are
  JSON values; every exception the code can raise is a value of \<open>filter_exn\<close>. Explanations carry
  their wording as constructors (\<open>explanation\<close>) because the text embeds Python's \<open>repr\<close>; everything
  else of a condition's result is kept. The lemmas compile a validated document to an abstract
  filter and show that the evaluation is its denotation.
\<close>

section \<open>Documents\<close>

definition OPS :: "string list" where
  "OPS = [''eq'', ''neq'', ''in'', ''not_in'', ''contains'', ''exists'', ''gt'', ''gte'', ''lt'', ''lte'',
          ''transitioned_to'']"

definition LIST_OPS :: "string list" where
  "LIST_OPS = [''in'', ''not_in'']"

definition ORDER_OPS :: "string list" where
  "ORDER_OPS = [''gt'', ''gte'', ''lt'', ''lte'']"

definition MAX_DEPTH :: nat where
  "MAX_DEPTH = 8"

definition MAX_CONDITIONS :: nat where
  "MAX_CONDITIONS = 50"

datatype filter_reason =
    TooManyConditions nat
  | TooDeep
  | NotAnObject
  | NotOneOfAllAny "string list"
  | ChildrenNotAList string
  | UnknownConditionKeys "string list"
  | PathNotAString
  | UnknownOp pyval
  | ValueNotAList string
  | ExistsNotABool
  | ValueNotOrdered string
  | ValueMissing string

datatype filter_exn = FilterError filter_reason | TypeError | ValueError

definition has_key :: "string \<Rightarrow> pyval dict \<Rightarrow> bool" where
  "has_key k node \<longleftrightarrow> k \<in> set (dict_keys node)"

text \<open>\<open>node.get(k)\<close>\<close>

definition get_or_none :: "pyval dict \<Rightarrow> string \<Rightarrow> pyval" where
  "get_or_none node k = (case dict_get node k of None \<Rightarrow> PNone | Some v \<Rightarrow> v)"

definition is_number :: "pyval \<Rightarrow> bool" where
  "is_number v = (case v of PInt _ \<Rightarrow> True | PFloat _ \<Rightarrow> True | _ \<Rightarrow> False)"

definition is_str :: "pyval \<Rightarrow> bool" where
  "is_str v = (case v of PStr _ \<Rightarrow> True | _ \<Rightarrow> False)"

text \<open>\<open>v in OPS\<close> on a frozenset of strings: hashing a list or an object raises.\<close>

definition in_ops :: "pyval \<Rightarrow> filter_exn + bool" where
  "in_ops v = (case v of PList _ \<Rightarrow> Inl TypeError | PDict _ \<Rightarrow> Inl TypeError
                | PStr s \<Rightarrow> Inr (s \<in> set OPS) | _ \<Rightarrow> Inr False)"

definition validate_condition :: "pyval dict \<Rightarrow> filter_exn + unit" where
  "validate_condition node =
     (let unknown = sort (filter (\<lambda>k. k \<notin> {''path'', ''op'', ''value''}) (dict_keys node))
      in if unknown \<noteq> [] then Inl (FilterError (UnknownConditionKeys unknown))
      else if \<not> (case get_or_none node ''path'' of PStr p \<Rightarrow> strip p \<noteq> [] | _ \<Rightarrow> False)
      then Inl (FilterError PathNotAString)
      else
        (case in_ops (get_or_none node ''op'') of
           Inl e \<Rightarrow> Inl e
         | Inr False \<Rightarrow> Inl (FilterError (UnknownOp (get_or_none node ''op'')))
         | Inr True \<Rightarrow>
             (case get_or_none node ''op'' of
                PStr op \<Rightarrow>
                  (let v = get_or_none node ''value''
                   in if op \<in> set LIST_OPS \<and> \<not> (case v of PList _ \<Rightarrow> True | _ \<Rightarrow> False)
                      then Inl (FilterError (ValueNotAList op))
                      else if op = ''exists'' \<and> v \<noteq> PNone \<and> \<not> (case v of PBool _ \<Rightarrow> True | _ \<Rightarrow> False)
                      then Inl (FilterError ExistsNotABool)
                      else if op \<in> set ORDER_OPS \<and> \<not> is_number v \<and> \<not> is_str v
                      then Inl (FilterError (ValueNotOrdered op))
                      else if op \<noteq> ''exists'' \<and> \<not> has_key ''value'' node
                      then Inl (FilterError (ValueMissing op))
                      else Inr ())
              | _ \<Rightarrow> Inl TypeError)))"

text \<open>\<open>isinstance(v, Sequence) and not isinstance(v, str | bytes)\<close>\<close>

definition list_items :: "pyval \<Rightarrow> pyval list option" where
  "list_items v = (case v of PList xs \<Rightarrow> Some xs | _ \<Rightarrow> None)"

text \<open>
  \<open>_validate_group\<close>, and its sum over the children, which stops at the first child that raises.
\<close>

function validate_group :: "nat \<Rightarrow> pyval \<Rightarrow> filter_exn + nat"
  and validate_children :: "nat \<Rightarrow> pyval list \<Rightarrow> filter_exn + nat" where
  "validate_group depth node =
     (if depth > MAX_DEPTH then Inl (FilterError TooDeep)
      else
        (case node of
           PDict d \<Rightarrow>
             (if d = [] then Inr 0
              else if has_key ''path'' d \<or> has_key ''op'' d
              then (case validate_condition d of Inl e \<Rightarrow> Inl e | Inr _ \<Rightarrow> Inr 1)
              else if set (dict_keys d) \<noteq> {''all''} \<and> set (dict_keys d) \<noteq> {''any''}
              then Inl (FilterError (NotOneOfAllAny (sort (dict_keys d))))
              else
                (let kind = (if has_key ''all'' d then ''all'' else ''any'')
                 in (case list_items (get_or_none d kind) of
                       None \<Rightarrow> Inl (FilterError (ChildrenNotAList kind))
                     | Some children \<Rightarrow> validate_children depth children)))
         | _ \<Rightarrow> Inl (FilterError NotAnObject)))"
| "validate_children depth [] = Inr 0"
| "validate_children depth (c # cs) =
     (case validate_group (Suc depth) c of
        Inl e \<Rightarrow> Inl e
      | Inr n \<Rightarrow> (case validate_children depth cs of Inl e \<Rightarrow> Inl e | Inr m \<Rightarrow> Inr (n + m)))"
  by pat_completeness auto

text \<open>
  The depth bounds the recursion: a group that recurses is within \<open>MAX_DEPTH\<close>, and its children sit
  one level deeper.
\<close>

termination
  by (relation "measures [\<lambda>x. case x of Inl (depth, _) \<Rightarrow> 2 * (10 - depth) | Inr (depth, _) \<Rightarrow> 2 * (10 - depth) - 1,
                          \<lambda>x. case x of Inl _ \<Rightarrow> 0 | Inr (_, cs) \<Rightarrow> length cs]")
     (auto simp: MAX_DEPTH_def)

definition validate_filter :: "pyval \<Rightarrow> filter_exn + unit" where
  "validate_filter document =
     (case validate_group 0 document of
        Inl e \<Rightarrow> Inl e
      | Inr count \<Rightarrow> if count > MAX_CONDITIONS then Inl (FilterError (TooManyConditions count)) else Inr ())"

section \<open>Paths\<close>

text \<open>
  \<open>int(segment)\<close>: the decimal digits only (a superscript digit satisfies \<open>isdigit\<close> but is no decimal),
  and at most 4300 of them, Python's limit for a conversion from text.
\<close>

definition INT_MAX_STR_DIGITS :: nat where
  "INT_MAX_STR_DIGITS = 4300"

definition digit_value :: "char \<Rightarrow> nat" where
  "digit_value c = ord c - 48"

definition py_int :: "string \<Rightarrow> nat option" where
  "py_int s = (if s \<noteq> [] \<and> list_all ascii_digit s \<and> length s \<le> INT_MAX_STR_DIGITS
               then Some (foldl (\<lambda>n c. 10 * n + digit_value c) 0 s) else None)"

definition all_isdigit :: "string \<Rightarrow> bool" where
  "all_isdigit s \<longleftrightarrow> s \<noteq> [] \<and> list_all py_isdigit s"

text \<open>The loop of \<open>resolve_path\<close>; \<open>None\<close> is \<open>MISSING\<close>.\<close>

fun resolve_segments :: "pyval \<Rightarrow> string list \<Rightarrow> filter_exn + pyval option" where
  "resolve_segments cursor [] = Inr (Some cursor)"
| "resolve_segments (PDict d) (segment # rest) =
     (case dict_get d segment of None \<Rightarrow> Inr None | Some v \<Rightarrow> resolve_segments v rest)"
| "resolve_segments (PList xs) (segment # rest) =
     (if \<not> all_isdigit segment then Inr None
      else (case py_int segment of
              None \<Rightarrow> Inl ValueError
            | Some i \<Rightarrow> if i \<ge> length xs then Inr None else resolve_segments (xs ! i) rest))"
| "resolve_segments _ (segment # rest) = Inr None"

definition resolve_path :: "pyval dict \<Rightarrow> string \<Rightarrow> filter_exn + pyval option" where
  "resolve_path event path = resolve_segments (PDict event) (split_on CHR ''.'' path)"

definition CHANGED_FROM :: string where
  "CHANGED_FROM = ''changed_from''"

definition changed_from_paths :: "string \<Rightarrow> (string \<times> string) option" where
  "changed_from_paths path =
     (let segments = split_on CHR ''.'' path
      in if length segments < 2 \<or> hd segments \<noteq> ''data'' \<or> CHANGED_FROM \<in> set segments then None
         else Some (''data.'' @ CHANGED_FROM @ ''.'' @ segments ! 1,
                    join ''.'' (''data'' # CHANGED_FROM # tl segments)))"

section \<open>Conditions\<close>

datatype explanation =
    NoDetail | Present | Absent | PathAbsent | NotUnderData
  | CurrentIsNot pyval | FieldDidNotChange | PreviousWasAlready pyval | ChangedTo pyval
  | ContainsNeedsStringOrList | NotComparable | UnknownOpDetail string

record condition_result =
  c_path :: string
  c_op :: string
  c_value :: pyval
  c_passed :: bool
  c_actual :: pyval
  c_actual_present :: bool
  c_previous :: pyval
  c_previous_present :: bool
  c_detail :: explanation

definition or_none :: "pyval option \<Rightarrow> pyval" where
  "or_none v = (case v of None \<Rightarrow> PNone | Some x \<Rightarrow> x)"

definition compare_by :: "string \<Rightarrow> 'a::linorder \<Rightarrow> 'a \<Rightarrow> bool" where
  "compare_by op actual v =
     (if op = ''gt'' then actual > v else if op = ''gte'' then actual \<ge> v
      else if op = ''lt'' then actual < v else actual \<le> v)"

definition apply_order_op :: "string \<Rightarrow> pyval \<Rightarrow> pyval option \<Rightarrow> bool \<times> explanation" where
  "apply_order_op op v actual =
     (case actual of
        None \<Rightarrow> (False, PathAbsent)
      | Some a \<Rightarrow>
          if is_number a \<and> is_number v
          then (case (num_of a, num_of v) of (Some x, Some y) \<Rightarrow> (compare_by op x y, NoDetail)
                | _ \<Rightarrow> (False, NotComparable))
          else (case (a, v) of (PStr x, PStr y) \<Rightarrow> (compare_by op x y, NoDetail)
                | _ \<Rightarrow> (False, NotComparable)))"

definition apply_op :: "string \<Rightarrow> pyval \<Rightarrow> pyval option \<Rightarrow> bool \<times> explanation" where
  "apply_op op v actual =
     (if op = ''exists''
      then ((actual \<noteq> None) = (v = PNone \<or> py_truthy v), if actual \<noteq> None then Present else Absent)
      else if op = ''eq''
      then (case actual of None \<Rightarrow> (False, PathAbsent) | Some a \<Rightarrow> (py_eq a v, NoDetail))
      else if op = ''neq''
      then (case actual of None \<Rightarrow> True | Some a \<Rightarrow> \<not> py_eq a v, NoDetail)
      else if op = ''in''
      then (case actual of None \<Rightarrow> (False, PathAbsent)
            | Some a \<Rightarrow> ((case v of PList vs \<Rightarrow> py_in a vs | _ \<Rightarrow> False), NoDetail))
      else if op = ''not_in''
      then ((case actual of None \<Rightarrow> True
             | Some a \<Rightarrow> (case v of PList vs \<Rightarrow> \<not> py_in a vs | _ \<Rightarrow> True)), NoDetail)
      else if op = ''contains''
      then (case actual of
              None \<Rightarrow> (False, PathAbsent)
            | Some a \<Rightarrow>
                (case (a, v) of
                   (PStr s, PStr x) \<Rightarrow> (is_infix x s, NoDetail)
                 | (PList xs, _) \<Rightarrow> (py_in v xs, NoDetail)
                 | _ \<Rightarrow> (False, ContainsNeedsStringOrList)))
      else if op \<in> set ORDER_OPS then apply_order_op op v actual
      else (False, UnknownOpDetail op))"

definition plain_result :: "string \<Rightarrow> string \<Rightarrow> pyval \<Rightarrow> bool \<times> explanation \<Rightarrow> pyval option \<Rightarrow> condition_result" where
  "plain_result path op v outcome actual =
     \<lparr>c_path = path, c_op = op, c_value = v, c_passed = fst outcome,
      c_actual = or_none actual, c_actual_present = actual \<noteq> None,
      c_previous = PNone, c_previous_present = False, c_detail = snd outcome\<rparr>"

text \<open>What the four arms of \<open>_eval_transitioned_to\<close> decide.\<close>

definition transition_outcome :: "pyval \<Rightarrow> pyval option \<Rightarrow> pyval option \<Rightarrow> pyval option \<Rightarrow> bool \<times> explanation" where
  "transition_outcome v actual branch exact =
     (if (case actual of None \<Rightarrow> True | Some a \<Rightarrow> \<not> py_eq a v) then (False, CurrentIsNot v)
      else if branch = None then (False, FieldDidNotChange)
      else if (case exact of None \<Rightarrow> False | Some x \<Rightarrow> py_eq x v) then (False, PreviousWasAlready v)
      else (True, ChangedTo v))"

definition eval_transitioned_to ::
    "string \<Rightarrow> pyval \<Rightarrow> pyval option \<Rightarrow> pyval dict \<Rightarrow> filter_exn + condition_result" where
  "eval_transitioned_to path v actual event =
     (case changed_from_paths path of
        None \<Rightarrow> Inr (plain_result path ''transitioned_to'' v (False, NotUnderData) actual)
      | Some (branch_path, exact_path) \<Rightarrow>
          (case resolve_path event branch_path of
             Inl e \<Rightarrow> Inl e
           | Inr branch \<Rightarrow>
               (case resolve_path event exact_path of
                  Inl e \<Rightarrow> Inl e
                | Inr exact \<Rightarrow>
                    (let previous = (if exact \<noteq> None then exact else branch);
                         outcome = transition_outcome v actual branch exact
                     in Inr ((plain_result path ''transitioned_to'' v outcome actual)
                               \<lparr>c_previous := or_none previous, c_previous_present := previous \<noteq> None\<rparr>)))))"

text \<open>
  \<open>str_of\<close> is Python's \<open>str\<close> of a value that is not a string, which only a document that was never
  validated holds at \<open>path\<close> or \<open>op\<close>.
\<close>

definition text_or :: "(pyval \<Rightarrow> string) \<Rightarrow> pyval dict \<Rightarrow> string \<Rightarrow> string" where
  "text_or str_of node k = (case dict_get node k of None \<Rightarrow> [] | Some (PStr s) \<Rightarrow> s | Some v \<Rightarrow> str_of v)"

definition eval_condition :: "(pyval \<Rightarrow> string) \<Rightarrow> pyval dict \<Rightarrow> pyval dict \<Rightarrow> filter_exn + condition_result" where
  "eval_condition str_of node event =
     (let path = text_or str_of node ''path''; op = text_or str_of node ''op'';
          v = get_or_none node ''value''
      in (case resolve_path event path of
            Inl e \<Rightarrow> Inl e
          | Inr actual \<Rightarrow>
              if op = ''transitioned_to'' then eval_transitioned_to path v actual event
              else Inr (plain_result path op v (apply_op op v actual) actual)))"

section \<open>Groups\<close>

text \<open>\<open>isinstance(v, Sequence)\<close>: a list, or the characters of a string.\<close>

definition sequence_items :: "pyval \<Rightarrow> pyval list option" where
  "sequence_items v =
     (case v of PList xs \<Rightarrow> Some xs | PStr s \<Rightarrow> Some (map (\<lambda>c. PStr [c]) s) | _ \<Rightarrow> None)"

definition group_items :: "pyval dict \<Rightarrow> string \<Rightarrow> pyval list option" where
  "group_items d kind = (case dict_get d kind of None \<Rightarrow> None | Some v \<Rightarrow> sequence_items v)"

function eval_node ::
    "(pyval \<Rightarrow> string) \<Rightarrow> nat \<Rightarrow> pyval \<Rightarrow> pyval dict \<Rightarrow> filter_exn + (bool \<times> condition_result list)"
  and eval_nodes ::
    "(pyval \<Rightarrow> string) \<Rightarrow> nat \<Rightarrow> pyval list \<Rightarrow> pyval dict \<Rightarrow> filter_exn + (bool list \<times> condition_result list)" where
  "eval_node str_of depth node event =
     (if depth > MAX_DEPTH then Inr (False, [])
      else
        (case node of
           PDict d \<Rightarrow>
             (if d = [] then Inr (True, [])
              else if has_key ''path'' d \<or> has_key ''op'' d
              then (case eval_condition str_of d event of
                      Inl e \<Rightarrow> Inl e | Inr r \<Rightarrow> Inr (c_passed r, [r]))
              else
                (case group_items d ''all'' of
                   Some children \<Rightarrow>
                     (case eval_nodes str_of depth children event of
                        Inl e \<Rightarrow> Inl e | Inr (results, out) \<Rightarrow> Inr (list_all id results, out))
                 | None \<Rightarrow>
                     (case group_items d ''any'' of
                        Some children \<Rightarrow>
                          (case eval_nodes str_of depth children event of
                             Inl e \<Rightarrow> Inl e | Inr (results, out) \<Rightarrow> Inr (list_ex id results, out))
                      | None \<Rightarrow> Inr (False, []))))
         | _ \<Rightarrow> Inr (False, [])))"
| "eval_nodes str_of depth [] event = Inr ([], [])"
| "eval_nodes str_of depth (c # cs) event =
     (case eval_node str_of (Suc depth) c event of
        Inl e \<Rightarrow> Inl e
      | Inr (b, out) \<Rightarrow>
          (case eval_nodes str_of depth cs event of
             Inl e \<Rightarrow> Inl e | Inr (bs, outs) \<Rightarrow> Inr (b # bs, out @ outs)))"
  by pat_completeness auto

termination
  by (relation "measures [\<lambda>x. case x of Inl (_, depth, _) \<Rightarrow> 2 * (10 - depth) | Inr (_, depth, _) \<Rightarrow> 2 * (10 - depth) - 1,
                          \<lambda>x. case x of Inl _ \<Rightarrow> 0 | Inr (_, _, cs, _) \<Rightarrow> length cs]")
     (auto simp: MAX_DEPTH_def)

record evaluation_result =
  e_matched :: bool
  e_conditions :: "condition_result list"

definition evaluate_filter :: "(pyval \<Rightarrow> string) \<Rightarrow> pyval \<Rightarrow> pyval dict \<Rightarrow> filter_exn + evaluation_result" where
  "evaluate_filter str_of document event =
     (case eval_node str_of 0 document event of
        Inl e \<Rightarrow> Inl e
      | Inr (matched, conditions) \<Rightarrow> Inr \<lparr>e_matched = matched, e_conditions = conditions\<rparr>)"

section \<open>The abstract filter\<close>

datatype filter_ast =
    FTrue
  | FCond string string pyval
  | FAll "filter_ast list"
  | FAny "filter_ast list"

text \<open>The document a validated filter is, and the conditions it holds in order.\<close>

inductive compiles :: "pyval \<Rightarrow> filter_ast \<Rightarrow> bool" where
  compiles_empty: "compiles (PDict []) FTrue"
| compiles_cond: "\<lbrakk>dict_get d ''path'' = Some (PStr p); dict_get d ''op'' = Some (PStr op); op \<in> set OPS\<rbrakk>
    \<Longrightarrow> compiles (PDict d) (FCond p op (get_or_none d ''value''))"
| compiles_all: "\<lbrakk>set (dict_keys d) = {''all''}; dict_get d ''all'' = Some (PList cs); list_all2 compiles cs fs\<rbrakk>
    \<Longrightarrow> compiles (PDict d) (FAll fs)"
| compiles_any: "\<lbrakk>set (dict_keys d) = {''any''}; dict_get d ''any'' = Some (PList cs); list_all2 compiles cs fs\<rbrakk>
    \<Longrightarrow> compiles (PDict d) (FAny fs)"

fun conditions_of :: "filter_ast \<Rightarrow> (string \<times> string \<times> pyval) list" where
  "conditions_of FTrue = []"
| "conditions_of (FCond p op v) = [(p, op, v)]"
| "conditions_of (FAll fs) = concat (map conditions_of fs)"
| "conditions_of (FAny fs) = concat (map conditions_of fs)"

definition lookup_path :: "pyval dict \<Rightarrow> string \<Rightarrow> pyval option" where
  "lookup_path event path = (case resolve_path event path of Inl _ \<Rightarrow> None | Inr v \<Rightarrow> v)"

definition condition_holds :: "pyval dict \<Rightarrow> string \<Rightarrow> string \<Rightarrow> pyval \<Rightarrow> bool" where
  "condition_holds event path op v =
     (if op = ''transitioned_to''
      then (case changed_from_paths path of
              None \<Rightarrow> False
            | Some (branch, exact) \<Rightarrow>
                (case lookup_path event path of None \<Rightarrow> False | Some a \<Rightarrow> py_eq a v)
                \<and> lookup_path event branch \<noteq> None
                \<and> (case lookup_path event exact of None \<Rightarrow> True | Some x \<Rightarrow> \<not> py_eq x v))
      else fst (apply_op op v (lookup_path event path)))"

fun filter_sat :: "pyval dict \<Rightarrow> filter_ast \<Rightarrow> bool" where
  "filter_sat event FTrue = True"
| "filter_sat event (FCond p op v) = condition_holds event p op v"
| "filter_sat event (FAll fs) = list_all (filter_sat event) fs"
| "filter_sat event (FAny fs) = list_ex (filter_sat event) fs"

text \<open>A segment that looks like an index to \<open>isdigit\<close> and is none to \<open>int\<close>.\<close>

definition digit_trap :: "string \<Rightarrow> bool" where
  "digit_trap path \<longleftrightarrow> list_ex (\<lambda>s. all_isdigit s \<and> py_int s = None) (split_on CHR ''.'' path)"

section \<open>Paths\<close>

lemma resolve_segments_error:
  "resolve_segments v segs = Inl e \<Longrightarrow> e = ValueError \<and> list_ex (\<lambda>s. all_isdigit s \<and> py_int s = None) segs"
  by (induction v segs rule: resolve_segments.induct) (auto split: option.splits if_splits)

lemma resolve_path_error: "resolve_path event path = Inl e \<Longrightarrow> e = ValueError \<and> digit_trap path"
  unfolding resolve_path_def digit_trap_def by (rule resolve_segments_error)

lemma split_CHANGED_FROM: "CHR ''.'' \<notin> set CHANGED_FROM" and split_data: "CHR ''.'' \<notin> set ''data''"
  by (simp_all add: CHANGED_FROM_def)

text \<open>Both mirror paths are made of segments of the path they mirror and two fixed names.\<close>

lemma changed_from_segments:
  assumes "changed_from_paths path = Some (branch, exact)"
  shows "split_on CHR ''.'' branch = [''data'', CHANGED_FROM, split_on CHR ''.'' path ! 1]"
    and "split_on CHR ''.'' exact = ''data'' # CHANGED_FROM # tl (split_on CHR ''.'' path)"
    and "2 \<le> length (split_on CHR ''.'' path)"
proof -
  let ?segs = "split_on CHR ''.'' path"
  have long: "2 \<le> length ?segs" and b: "branch = join ''.'' [''data'', CHANGED_FROM, ?segs ! 1]"
    and x: "exact = join ''.'' (''data'' # CHANGED_FROM # tl ?segs)"
    using assms by (auto simp: changed_from_paths_def Let_def not_less simp del: split_on.simps split: if_splits)
  show "2 \<le> length ?segs"
    by (rule long)
  have free: "\<forall>s \<in> set ?segs. CHR ''.'' \<notin> set s"
    using split_on_no_sep by blast
  moreover have "set (tl ?segs) \<subseteq> set ?segs"
    by (meson list.set_sel(2) split_on_not_Nil subsetI)
  moreover have "?segs ! 1 \<in> set ?segs"
    using long by (intro nth_mem) simp
  ultimately show "split_on CHR ''.'' branch = [''data'', CHANGED_FROM, ?segs ! 1]"
    and "split_on CHR ''.'' exact = ''data'' # CHANGED_FROM # tl ?segs"
    unfolding b x using split_CHANGED_FROM split_data by (intro split_on_join; auto)+
qed

lemma changed_from_trap:
  assumes "changed_from_paths path = Some (branch, exact)" and "digit_trap branch \<or> digit_trap exact"
  shows "digit_trap path"
proof -
  let ?segs = "split_on CHR ''.'' path"
  have "\<not> all_isdigit ''data''" and "\<not> all_isdigit CHANGED_FROM"
    by code_simp+
  moreover have "?segs ! 1 \<in> set ?segs"
    using changed_from_segments(3) [OF assms(1)] by (intro nth_mem) simp
  moreover have "set (tl ?segs) \<subseteq> set ?segs"
    by (meson list.set_sel(2) split_on_not_Nil subsetI)
  ultimately show ?thesis
    using assms(2) changed_from_segments(1,2) [OF assms(1)] by (auto simp: digit_trap_def list_ex_iff)
qed

section \<open>Evaluation is the denotation\<close>

text \<open>The triple a condition's result answers for.\<close>

definition triple_of :: "condition_result \<Rightarrow> string \<times> string \<times> pyval" where
  "triple_of r = (c_path r, c_op r, c_value r)"

definition agrees ::
    "pyval dict \<Rightarrow> filter_ast \<Rightarrow> filter_exn + (bool \<times> condition_result list) \<Rightarrow> bool" where
  "agrees event f r =
     (case r of
        Inl e \<Rightarrow> e = ValueError \<and> list_ex (\<lambda>(p, op, v). digit_trap p) (conditions_of f)
      | Inr (b, out) \<Rightarrow> b = filter_sat event f \<and> map triple_of out = conditions_of f)"

definition agrees_all ::
    "pyval dict \<Rightarrow> filter_ast list \<Rightarrow> filter_exn + (bool list \<times> condition_result list) \<Rightarrow> bool" where
  "agrees_all event fs r =
     (case r of
        Inl e \<Rightarrow> e = ValueError \<and> list_ex (\<lambda>(p, op, v). digit_trap p) (concat (map conditions_of fs))
      | Inr (bs, out) \<Rightarrow> bs = map (filter_sat event) fs \<and> map triple_of out = concat (map conditions_of fs))"

lemma plain_result_simps [simp]:
  "c_passed (plain_result path op v outcome actual) = fst outcome"
  "triple_of (plain_result path op v outcome actual) = (path, op, v)"
  "triple_of (r\<lparr>c_previous := x, c_previous_present := b\<rparr>) = triple_of r"
  "c_passed (r\<lparr>c_previous := x, c_previous_present := b\<rparr>) = c_passed r"
  by (simp_all add: plain_result_def triple_of_def)

lemma transition_outcome_passed:
  "fst (transition_outcome v actual branch exact) \<longleftrightarrow>
     (case actual of None \<Rightarrow> False | Some a \<Rightarrow> py_eq a v) \<and> branch \<noteq> None
     \<and> (case exact of None \<Rightarrow> True | Some x \<Rightarrow> \<not> py_eq x v)"
  by (auto simp: transition_outcome_def split: option.splits)

lemma eval_transitioned_agrees:
  assumes "resolve_path event path = Inr actual"
  shows "case eval_transitioned_to path v actual event of
           Inl e \<Rightarrow> e = ValueError \<and> digit_trap path
         | Inr r \<Rightarrow> c_passed r = condition_holds event path ''transitioned_to'' v
                    \<and> triple_of r = (path, ''transitioned_to'', v)"
proof (cases "changed_from_paths path")
  case None
  then show ?thesis
    by (simp add: eval_transitioned_to_def condition_holds_def)
next
  case (Some be)
  obtain b x where be: "be = (b, x)" by (cases be)
  show ?thesis
  proof (cases "resolve_path event b")
    case (Inl e)
    then show ?thesis
      using Some be resolve_path_error [OF Inl] changed_from_trap [of path b x]
      by (simp add: eval_transitioned_to_def)
  next
    case (Inr vb)
    show ?thesis
    proof (cases "resolve_path event x")
      case (Inl e)
      then show ?thesis
        using Some be Inr resolve_path_error [OF Inl] changed_from_trap [of path b x]
        by (simp add: eval_transitioned_to_def)
    next
      case Inr': (Inr vx)
      show ?thesis
        using Some be Inr Inr' assms
        by (simp add: eval_transitioned_to_def Let_def condition_holds_def lookup_path_def transition_outcome_passed)
    qed
  qed
qed

lemma eval_condition_agrees:
  assumes "dict_get d ''path'' = Some (PStr p)" and "dict_get d ''op'' = Some (PStr op)"
  shows "case eval_condition str_of d event of
           Inl e \<Rightarrow> e = ValueError \<and> digit_trap p
         | Inr r \<Rightarrow> c_passed r = condition_holds event p op (get_or_none d ''value'')
                    \<and> triple_of r = (p, op, get_or_none d ''value'')"
proof (cases "resolve_path event p")
  case (Inl e)
  then show ?thesis
    using assms resolve_path_error [OF Inl] by (simp add: eval_condition_def text_or_def Let_def)
next
  case (Inr actual)
  show ?thesis
  proof (cases "op = ''transitioned_to''")
    case True
    show ?thesis
      using assms Inr eval_transitioned_agrees [OF Inr, of "get_or_none d ''value''"] unfolding True
      by (simp add: eval_condition_def text_or_def Let_def)
  next
    case False
    then show ?thesis
      using assms Inr by (simp add: eval_condition_def text_or_def Let_def condition_holds_def lookup_path_def)
  qed
qed

text \<open>What a condition that validates looks like.\<close>

lemma validate_condition_Inr:
  assumes "validate_condition d = Inr ()"
  shows "\<exists>p op. dict_get d ''path'' = Some (PStr p) \<and> dict_get d ''op'' = Some (PStr op) \<and> op \<in> set OPS"
proof -
  have "case get_or_none d ''path'' of PStr p \<Rightarrow> strip p \<noteq> [] | _ \<Rightarrow> False"
    using assms unfolding validate_condition_def Let_def by (metis (no_types, lifting) Inl_Inr_False)
  then obtain p where "get_or_none d ''path'' = PStr p"
    by (auto split: pyval.splits)
  moreover obtain op where "get_or_none d ''op'' = PStr op" "op \<in> set OPS"
    using assms unfolding validate_condition_def Let_def in_ops_def
    by (auto split: if_splits pyval.splits bool.splits)
  ultimately show ?thesis
    unfolding get_or_none_def by (auto split: option.splits)
qed

text \<open>A group that validates holds exactly the children its one key names.\<close>

lemma has_key_iff: "has_key k d \<longleftrightarrow> dict_get d k \<noteq> None"
  by (simp only: has_key_def dict_get_in_keys)

lemma group_key:
  assumes "set (dict_keys d) = {k}" and "list_items (get_or_none d k) = Some cs"
  shows "dict_get d k = Some (PList cs)" and "group_items d k = Some cs"
    and "k' \<noteq> k \<Longrightarrow> group_items d k' = None" and "k' \<noteq> k \<Longrightarrow> \<not> has_key k' d"
proof -
  have "dict_get d k \<noteq> None"
    unfolding dict_get_in_keys by (simp add: assms(1))
  then show g: "dict_get d k = Some (PList cs)"
    using assms(2) by (auto simp: get_or_none_def list_items_def split: pyval.splits)
  then show "group_items d k = Some cs"
    by (simp add: group_items_def sequence_items_def)
  show "\<not> has_key k' d" if "k' \<noteq> k"
    using that assms(1) by (simp add: has_key_def)
  then show "group_items d k' = None" if "k' \<noteq> k"
    using that by (simp add: group_items_def has_key_iff)
qed

text \<open>What the induction carries for a node and for a list of children.\<close>

definition node_denotes :: "(pyval \<Rightarrow> string) \<Rightarrow> nat \<Rightarrow> pyval \<Rightarrow> nat \<Rightarrow> bool" where
  "node_denotes str_of depth node n \<longleftrightarrow>
     (\<exists>f. compiles node f \<and> length (conditions_of f) = n
        \<and> (\<forall>event. agrees event f (eval_node str_of depth node event)))"

definition children_denote :: "(pyval \<Rightarrow> string) \<Rightarrow> nat \<Rightarrow> pyval list \<Rightarrow> nat \<Rightarrow> bool" where
  "children_denote str_of depth cs n \<longleftrightarrow>
     (\<exists>fs. list_all2 compiles cs fs \<and> length (concat (map conditions_of fs)) = n
        \<and> (\<forall>event. agrees_all event fs (eval_nodes str_of depth cs event)))"

lemma condition_denotes:
  assumes "validate_condition d = Inr ()" and "d \<noteq> []" and "has_key ''path'' d \<or> has_key ''op'' d"
    and "depth \<le> MAX_DEPTH"
  shows "node_denotes str_of depth (PDict d) 1"
proof -
  obtain p op where po: "dict_get d ''path'' = Some (PStr p)" "dict_get d ''op'' = Some (PStr op)" "op \<in> set OPS"
    using validate_condition_Inr [OF assms(1)] by blast
  let ?f = "FCond p op (get_or_none d ''value'')"
  have "agrees event ?f (eval_node str_of depth (PDict d) event)" for event
    using eval_condition_agrees [OF po(1,2), where str_of = str_of and event = event] assms(2-)
    by (auto simp: agrees_def split: sum.splits)
  moreover have "compiles (PDict d) ?f"
    using po by (rule compiles_cond)
  ultimately show ?thesis
    unfolding node_denotes_def by (intro exI [of _ ?f]) simp
qed

lemma group_denotes:
  assumes "children_denote str_of depth cs n" and "set (dict_keys d) = {k}" and "k \<in> {''all'', ''any''}"
    and "list_items (get_or_none d k) = Some cs" and "depth \<le> MAX_DEPTH"
  shows "node_denotes str_of depth (PDict d) n"
proof -
  obtain fs where fs: "list_all2 compiles cs fs" "length (concat (map conditions_of fs)) = n"
    and ag: "\<And>event. agrees_all event fs (eval_nodes str_of depth cs event)"
    using assms(1) by (auto simp: children_denote_def)
  note key = group_key [OF assms(2,4)]
  have "d \<noteq> []"
    using key(1) by (auto simp: dict_get_def)
  moreover have "\<not> has_key ''path'' d" and "\<not> has_key ''op'' d"
    using key(4) assms(3) by auto
  ultimately have
    ev: "eval_node str_of depth (PDict d) event =
           (case eval_nodes str_of depth cs event of
              Inl e \<Rightarrow> Inl e
            | Inr (bs, out) \<Rightarrow> Inr (if k = ''all'' then list_all id bs else list_ex id bs, out))" for event
    using key(2,3) assms(3,5) by (cases "eval_nodes str_of depth cs event") auto
  let ?f = "if k = ''all'' then FAll fs else FAny fs"
  have "compiles (PDict d) ?f"
    using compiles_all [of d cs fs] compiles_any [of d cs fs] key(1) fs(1) assms(2,3) by auto
  moreover have "length (conditions_of ?f) = n"
    using fs(2) by simp
  moreover have "agrees event ?f (eval_node str_of depth (PDict d) event)" for event
    using ag [of event] unfolding ev
    by (cases "eval_nodes str_of depth cs event")
       (auto simp: agrees_def agrees_all_def list_all_iff list_ex_iff)
  ultimately show ?thesis
    unfolding node_denotes_def by blast
qed

lemma validate_denotes:
  "validate_group depth node = Inr n \<Longrightarrow> node_denotes str_of depth node n"
  "validate_children depth cs = Inr n \<Longrightarrow> children_denote str_of depth cs n"
proof (induction depth node and depth cs arbitrary: n and n rule: validate_group_validate_children.induct)
  case (1 depth node)
  obtain d where d: "node = PDict d" and deep: "depth \<le> MAX_DEPTH"
    using "1.prems" by (cases node) (auto split: if_splits)
  consider "d = []" | "d \<noteq> []" "has_key ''path'' d \<or> has_key ''op'' d"
    | "d \<noteq> []" "\<not> (has_key ''path'' d \<or> has_key ''op'' d)"
    by blast
  then show ?case
  proof cases
    case 1
    have "agrees event FTrue (eval_node str_of depth node event)" for event
      using 1 d deep by (simp add: agrees_def)
    with 1 d "1.prems" deep show ?thesis
      unfolding node_denotes_def by (intro exI [of _ FTrue]) (simp add: compiles_empty)
  next
    case 2
    then have "validate_condition d = Inr () \<and> n = 1"
      using "1.prems" d deep by (auto split: sum.splits)
    then show ?thesis
      using condition_denotes 2 deep d by simp
  next
    case 3
    define k where "k = (if has_key ''all'' d then ''all'' else ''any'')"
    have keys: "set (dict_keys d) = {''all''} \<or> set (dict_keys d) = {''any''}"
      by (rule ccontr) (use "1.prems" 3 d deep in simp)
    then have nk: "\<not> (set (dict_keys d) \<noteq> {''all''} \<and> set (dict_keys d) \<noteq> {''any''})"
      by blast
    have "validate_group depth node =
            (let kind = (if has_key ''all'' d then ''all'' else ''any'')
             in (case list_items (get_or_none d kind) of
                   None \<Rightarrow> Inl (FilterError (ChildrenNotAList kind))
                 | Some children \<Rightarrow> validate_children depth children))"
      unfolding validate_group.simps d pyval.case if_not_P [OF nk] using 3 deep by simp
    then have "(case list_items (get_or_none d k) of
                  None \<Rightarrow> Inl (FilterError (ChildrenNotAList k))
                | Some children \<Rightarrow> validate_children depth children) = Inr n"
      using "1.prems" by (simp only: k_def Let_def)
    have has_all: "set (dict_keys d) = {''all''} \<Longrightarrow> has_key ''all'' d"
      "set (dict_keys d) = {''any''} \<Longrightarrow> \<not> has_key ''all'' d"
      unfolding has_key_def by simp_all
    obtain cs where cs: "list_items (get_or_none d k) = Some cs" "validate_children depth cs = Inr n"
      using \<open>(case list_items (get_or_none d k) of
                  None \<Rightarrow> Inl (FilterError (ChildrenNotAList k))
                | Some children \<Rightarrow> validate_children depth children) = Inr n\<close>
      by (metis (no_types, lifting) Inl_Inr_False option.case_eq_if option.collapse)
    have ks: "set (dict_keys d) = {k}"
      using keys
    proof
      assume a: "set (dict_keys d) = {''all''}"
      then show ?thesis
        unfolding k_def if_P [OF has_all(1) [OF a]] .
    next
      assume a: "set (dict_keys d) = {''any''}"
      then show ?thesis
        unfolding k_def if_not_P [OF has_all(2) [OF a]] .
    qed
    have ka: "k \<in> {''all'', ''any''}"
      unfolding k_def by simp
    have "children_denote str_of depth cs n"
      using "1.IH" [OF _ d _ _ _ k_def cs] 3 deep keys by simp
    then show ?thesis
      unfolding d using ks ka cs(1) deep by (rule group_denotes)
  qed
next
  case (2 depth)
  then show ?case
    by (auto simp: children_denote_def agrees_all_def)
next
  case (3 depth c cs)
  obtain a b where a: "validate_group (Suc depth) c = Inr a" and b: "validate_children depth cs = Inr b"
    and n: "n = a + b"
    using "3.prems" by (auto split: sum.splits)
  obtain f where f: "compiles c f" "length (conditions_of f) = a"
    and agf: "\<And>event. agrees event f (eval_node str_of (Suc depth) c event)"
    using "3.IH"(1) [OF a] by (auto simp: node_denotes_def)
  obtain fs where fs: "list_all2 compiles cs fs" "length (concat (map conditions_of fs)) = b"
    and agfs: "\<And>event. agrees_all event fs (eval_nodes str_of depth cs event)"
    using "3.IH"(2) [OF a b] by (auto simp: children_denote_def)
  have "agrees_all event (f # fs) (eval_nodes str_of depth (c # cs) event)" for event
    using agf [of event] agfs [of event]
    by (auto simp: agrees_def agrees_all_def split: sum.splits)
  then show ?case
    using f fs n unfolding children_denote_def by (intro exI [of _ "f # fs"]) simp
qed

section \<open>Properties\<close>

text \<open>
  A document that validates is an abstract filter of at most fifty conditions, and
  evaluating it on any event gives that filter's truth value together with one result per condition,
  in document order; the only way it can fail is a \<open>ValueError\<close> from a path segment that passes
  \<open>isdigit\<close> and is no integer to \<open>int\<close>.
\<close>

theorem validated_filter_denotes:
  assumes "validate_filter doc = Inr ()"
  shows "\<exists>f. compiles doc f \<and> length (conditions_of f) \<le> MAX_CONDITIONS
    \<and> (\<forall>event. case evaluate_filter str_of doc event of
          Inl e \<Rightarrow> e = ValueError \<and> list_ex (\<lambda>(p, op, v). digit_trap p) (conditions_of f)
        | Inr r \<Rightarrow> e_matched r = filter_sat event f \<and> map triple_of (e_conditions r) = conditions_of f)"
proof -
  obtain n where n: "validate_group 0 doc = Inr n" "n \<le> MAX_CONDITIONS"
    using assms by (auto simp: validate_filter_def split: sum.splits if_splits)
  then obtain f where f: "compiles doc f" "length (conditions_of f) = n"
    and ag: "\<And>event. agrees event f (eval_node str_of 0 doc event)"
    using validate_denotes(1) [OF n(1), of str_of] unfolding node_denotes_def by blast
  have "case evaluate_filter str_of doc event of
          Inl e \<Rightarrow> e = ValueError \<and> list_ex (\<lambda>(p, op, v). digit_trap p) (conditions_of f)
        | Inr r \<Rightarrow> e_matched r = filter_sat event f \<and> map triple_of (e_conditions r) = conditions_of f" for event
    using ag [of event] by (auto simp: agrees_def evaluate_filter_def simp del: eval_node.simps split: sum.splits)
  with f n(2) show ?thesis by blast
qed

text \<open>The filter of the documentation: a state change to Todo on a team.\<close>

definition sample_filter :: pyval where
  "sample_filter = PDict [(''all'', PList
     [PDict [(''path'', PStr ''data.team.key''), (''op'', PStr ''eq''), (''value'', PStr ''ENG'')],
      PDict [(''path'', PStr ''data.state.name''), (''op'', PStr ''transitioned_to''), (''value'', PStr ''Todo'')]])]"

theorem validated_filter_denotes_witness:
  "\<exists>f. compiles sample_filter f \<and> length (conditions_of f) \<le> MAX_CONDITIONS
    \<and> (\<forall>event. case evaluate_filter (\<lambda>_. []) sample_filter event of
          Inl e \<Rightarrow> e = ValueError \<and> list_ex (\<lambda>(p, op, v). digit_trap p) (conditions_of f)
        | Inr r \<Rightarrow> e_matched r = filter_sat event f \<and> map triple_of (e_conditions r) = conditions_of f)"
proof (rule validated_filter_denotes)
  show "validate_filter sample_filter = Inr ()"
    by code_simp
qed

text \<open>
  Neither function keeps to its one documented exception: a filter that validates raises
  \<open>ValueError\<close> on an event whose value at the path is a list, when the segment is a superscript digit,
  and validating a condition whose \<open>op\<close> is a list raises \<open>TypeError\<close> instead of \<open>FilterError\<close>.
\<close>

theorem filter_exceptions_escape:
  "(let doc = PDict [(''path'', PStr (''items.'' @ [char_of (178 :: nat)])), (''op'', PStr ''exists'')]
    in validate_filter doc = Inr ()
       \<and> evaluate_filter str_of doc [(''items'', PList [])] = Inl ValueError)
   \<and> validate_filter (PDict [(''path'', PStr ''a''), (''op'', PList []), (''value'', PNone)]) = Inl TypeError"
  by code_simp

end
