(* ===== verification/Idempotency.thy ===== *)
theory Idempotency
  imports Filters
begin

text \<open>
  \<open>packages/triggers/src/jhin_triggers/idempotency.py\<close>: the key that makes two deliveries of one
  event the same start. The hash and the JSON rendering of the evidence are parameters (hashlib's
  digest is relied on only where a lemma assumes it injective); the material of the key, its time
  bucket and the workflow id are the code's. Times are microseconds since the epoch.
\<close>

definition WORKFLOW_ID_PREFIX :: string where
  "WORKFLOW_ID_PREFIX = ''triggered-task''"

text \<open>The evidence of one condition, as the fingerprint renders it.\<close>

definition evidence :: "condition_result \<Rightarrow> string \<times> string \<times> pyval \<times> pyval \<times> pyval" where
  "evidence c = (c_path c, c_op c, c_value c, c_actual c, c_previous c)"

definition transition_fingerprint ::
    "((string \<times> string \<times> pyval \<times> pyval \<times> pyval) list \<Rightarrow> string) \<Rightarrow> (string \<Rightarrow> string) \<Rightarrow>
     evaluation_result \<Rightarrow> string" where
  "transition_fingerprint dumps sha256 result = sha256 (dumps (map evidence (e_conditions result)))"

text \<open>\<open>int(x)\<close> of a timestamp truncates towards zero; \<open>//\<close> floors.\<close>

definition whole_seconds :: "int \<Rightarrow> int" where
  "whole_seconds micros = (if micros \<ge> 0 then micros div 1000000 else - ((- micros) div 1000000))"

definition time_bucket :: "int \<Rightarrow> int \<Rightarrow> int" where
  "time_bucket window occurred_at = (if window > 0 then whole_seconds occurred_at div window else 0)"

definition key_material :: "string \<Rightarrow> string option \<Rightarrow> string \<Rightarrow> string \<Rightarrow> int \<Rightarrow> int \<Rightarrow> string" where
  "key_material trigger_id connection_id external_id fingerprint window occurred_at =
     join ''|'' [trigger_id, (case connection_id of None \<Rightarrow> [] | Some c \<Rightarrow> c), external_id, fingerprint,
               show_int window, show_int (time_bucket window occurred_at)]"

definition build_idempotency_key ::
    "(string \<Rightarrow> string) \<Rightarrow> string \<Rightarrow> string option \<Rightarrow> string \<Rightarrow> string \<Rightarrow> int \<Rightarrow> int \<Rightarrow> string" where
  "build_idempotency_key sha256 trigger_id connection_id external_id fingerprint window occurred_at =
     sha256 (key_material trigger_id connection_id external_id fingerprint window occurred_at)"

definition workflow_id_for_key :: "string \<Rightarrow> string" where
  "workflow_id_for_key idempotency_key = WORKFLOW_ID_PREFIX @ ''-'' @ take 32 idempotency_key"

section \<open>Decimal renderings\<close>

lemma show_int_inject: "show_int i = show_int j \<Longrightarrow> i = j"
proof -
  have neg: "show_nat a \<noteq> ''-'' @ show_nat b" for a b
  proof
    assume "show_nat a = ''-'' @ show_nat b"
    then have "CHR ''-'' \<in> set (show_nat a)" by simp
    then show False using show_nat_digits by fastforce
  qed
  assume "show_int i = show_int j"
  then show ?thesis
    using neg neg [symmetric] by (auto simp: show_int_def dest!: show_nat_inject split: if_splits)
qed

lemma show_int_no_bar: "CHR ''|'' \<notin> set (show_int i)"
  using show_nat_digits [of "CHR ''|''"] by (auto simp: show_int_def)

section \<open>The material names its parts\<close>

lemma split_first_bar:
  assumes "a @ ''|'' @ b = c @ ''|'' @ d" and "CHR ''|'' \<notin> set a" and "CHR ''|'' \<notin> set c"
  shows "a = c \<and> b = d"
  using assms by (auto simp: append_eq_append_conv2 append_eq_Cons_conv Cons_eq_append_conv)

lemma split_last_bar:
  assumes "a @ ''|'' @ b = c @ ''|'' @ d" and "CHR ''|'' \<notin> set b" and "CHR ''|'' \<notin> set d"
  shows "a = c \<and> b = d"
proof -
  have "rev b @ ''|'' @ rev a = rev d @ ''|'' @ rev c"
    using arg_cong [OF assms(1), of rev] by simp
  from split_first_bar [OF this] show ?thesis
    using assms(2,3) by simp
qed

text \<open>
  Only the external id can hold a bar: ids are UUIDs, the fingerprint is a hexadecimal digest. The
  parts are read off from both ends.
\<close>

lemma key_material_inject:
  assumes "key_material t c x f w o1 = key_material t' c' x' f' w' o2"
    and "CHR ''|'' \<notin> set t" "CHR ''|'' \<notin> set t'" "CHR ''|'' \<notin> set f" "CHR ''|'' \<notin> set f'"
    and "CHR ''|'' \<notin> set (case c of None \<Rightarrow> [] | Some s \<Rightarrow> s)"
    and "CHR ''|'' \<notin> set (case c' of None \<Rightarrow> [] | Some s \<Rightarrow> s)"
  shows "t = t' \<and> (case c of None \<Rightarrow> [] | Some s \<Rightarrow> s) = (case c' of None \<Rightarrow> [] | Some s \<Rightarrow> s)
         \<and> x = x' \<and> f = f' \<and> w = w' \<and> time_bucket w o1 = time_bucket w' o2"
proof -
  let ?c = "case c of None \<Rightarrow> [] | Some s \<Rightarrow> s" and ?c' = "case c' of None \<Rightarrow> [] | Some s \<Rightarrow> s"
  let ?b = "show_int (time_bucket w o1)" and ?b' = "show_int (time_bucket w' o2)"
  have "t @ ''|'' @ ?c @ ''|'' @ x @ ''|'' @ f @ ''|'' @ show_int w @ ''|'' @ ?b
        = t' @ ''|'' @ ?c' @ ''|'' @ x' @ ''|'' @ f' @ ''|'' @ show_int w' @ ''|'' @ ?b'"
    using assms(1) by (simp add: key_material_def)
  from split_first_bar [OF this assms(2,3)] have t: "t = t'"
    and r1: "?c @ ''|'' @ x @ ''|'' @ f @ ''|'' @ show_int w @ ''|'' @ ?b
        = ?c' @ ''|'' @ x' @ ''|'' @ f' @ ''|'' @ show_int w' @ ''|'' @ ?b'"
    by simp_all
  from split_first_bar [OF r1 assms(6,7)] have cc: "?c = ?c'"
    and r2: "((x @ ''|'' @ f) @ ''|'' @ show_int w) @ ''|'' @ ?b = ((x' @ ''|'' @ f') @ ''|'' @ show_int w') @ ''|'' @ ?b'"
    by simp_all
  from split_last_bar [OF r2 show_int_no_bar show_int_no_bar] have b: "?b = ?b'"
    and r3: "(x @ ''|'' @ f) @ ''|'' @ show_int w = (x' @ ''|'' @ f') @ ''|'' @ show_int w'"
    by simp_all
  from split_last_bar [OF r3 show_int_no_bar show_int_no_bar] have w: "show_int w = show_int w'"
    and r4: "x @ ''|'' @ f = x' @ ''|'' @ f'"
    by simp_all
  from split_last_bar [OF r4 assms(4,5)] t cc b w show ?thesis
    using show_int_inject by blast
qed

section \<open>Properties\<close>

text \<open>
  Two starts share an idempotency key exactly when they agree on the trigger, the
  connection, the external id, the fingerprint, the window and the time bucket: no separator inside
  an external id makes two different events collide. The ids are UUIDs and the fingerprint is a hex
  digest, so they hold no separator; the digest is assumed collision-free.
\<close>

theorem idempotency_key_iff:
  assumes "inj sha256"
    and "list_all (\<lambda>s. CHR ''|'' \<notin> set s) [t, t', f, f', conn, conn']"
  shows "build_idempotency_key sha256 t (Some conn) x f w o1 = build_idempotency_key sha256 t' (Some conn') x' f' w' o2
     \<longleftrightarrow> (t, conn, x, f, w, time_bucket w o1) = (t', conn', x', f', w', time_bucket w' o2)"
proof
  assume "build_idempotency_key sha256 t (Some conn) x f w o1 = build_idempotency_key sha256 t' (Some conn') x' f' w' o2"
  then have "key_material t (Some conn) x f w o1 = key_material t' (Some conn') x' f' w' o2"
    unfolding build_idempotency_key_def by (rule injD [OF assms(1)])
  from key_material_inject [OF this] assms(2)
  show "(t, conn, x, f, w, time_bucket w o1) = (t', conn', x', f', w', time_bucket w' o2)"
    by auto
qed (auto simp: build_idempotency_key_def key_material_def)

theorem idempotency_key_iff_witness:
  "build_idempotency_key (\<lambda>s. s) ''t'' (Some ''c'') ''ENG|1'' ''f0'' 60 119000000
     = build_idempotency_key (\<lambda>s. s) ''t'' (Some ''c'') ''ENG|1'' ''f0'' 60 61000000
   \<and> build_idempotency_key (\<lambda>s. s) ''t'' (Some ''c'') ''ENG|1'' ''f0'' 60 119000000
     \<noteq> build_idempotency_key (\<lambda>s. s) ''t'' (Some ''c'') ''ENG'' ''f0'' 60 119000000"
proof -
  have i: "inj (\<lambda>s :: string. s)"
    by simp
  have l: "list_all (\<lambda>s. CHR ''|'' \<notin> set s) [''t'', ''t'', ''f0'', ''f0'', ''c'', ''c'']"
    by simp
  show ?thesis
    unfolding idempotency_key_iff [OF i l] by (simp add: time_bucket_def whole_seconds_def)
qed

text \<open>
  Repeats close together share a bucket and repeats a window apart never do: two times
  at or after the epoch in one bucket are less than a window apart, to the second.
\<close>

theorem bucket_window:
  assumes "0 < window" and "0 \<le> o1" and "o1 \<le> o2"
    and "time_bucket window o1 = time_bucket window o2"
  shows "o2 - o1 < window * 1000000"
proof -
  let ?a = "o1 div 1000000" and ?b = "o2 div 1000000"
  have "?a div window = ?b div window"
    using assms by (simp add: time_bucket_def whole_seconds_def)
  then have "?b - ?a < window"
    using assms(1) by (smt (verit) minus_mod_eq_mult_div pos_mod_bound pos_mod_sign)
  then have "?b - ?a \<le> window - 1"
    by simp
  moreover have "o2 < 1000000 * (?b + 1)" and "1000000 * ?a \<le> o1"
    by presburger+
  ultimately show ?thesis
    by simp
qed

theorem bucket_window_witness: "(119000000 :: int) - 61000000 < 60 * 1000000"
  by (rule bucket_window) (simp_all add: time_bucket_def whole_seconds_def)

end
