(* ===== verification/EngineeringTicket.thy ===== *)
theory EngineeringTicket
  imports PyValue
begin

text \<open>
  \<open>packages/workflows/src/jhin_workflows/engineering_ticket/workflows.py\<close>: the engineering template
  (implement, review, fix and retest, finalize, sync). What the workflow awaits is the environment
  \<open>env\<close>: the answer of every activity and child workflow, \<open>None\<close> where it raises; the n-th delegation
  gets the n-th answer, so an environment is any behaviour of the agents. A run is the list of the
  effects it commanded, in order, and its result, \<open>None\<close> when an exception ends it.
\<close>

section \<open>Inputs and effects\<close>

record ticket_base =
  tb_workspace_id :: string
  tb_connection_id :: string
  tb_title :: string
  tb_description :: string
  tb_agent_id :: string
  tb_comment_back :: bool

record ticket_input =
  ti_base :: ticket_base
  ti_max_retest_cycles :: int

record prepared_task =
  pt_task_id :: string
  pt_created :: bool

record engineering_plan =
  ep_implementer_agent_id :: string
  ep_coordinator_mode :: bool
  ep_qa_agent_id :: string
  ep_manager_agent_id :: string

record delegation_summary =
  su_summary :: string
  su_verdict :: string
  su_artifacts :: "pyval list"

record delegated_result =
  dr_run_status :: string
  dr_run_id :: string
  dr_summary :: delegation_summary

text \<open>The child task \<open>_delegate\<close> creates and runs.\<close>

record child_request =
  cr_parent_task_id :: string
  cr_target_agent_id :: string
  cr_delegated_by_agent_id :: string
  cr_kind :: string
  cr_title :: string
  cr_instructions :: string
  cr_expected_output :: string
  cr_artifacts :: "pyval list"
  cr_cycle :: nat

datatype ticket_event =
    EvPrepare
  | EvResolvePlan
  | EvRunAgent string string
  | EvDelegate child_request
  | EvFinalize string string nat
  | EvSync string

record ticket_env =
  en_prepare :: "prepared_task option"
  en_plan :: "engineering_plan option"
  en_run_agent :: "(string \<times> string option) option"
  en_delegate :: "nat \<Rightarrow> delegated_result option"
  en_finalize :: "unit option"
  en_sync :: "bool option"

record ticket_result =
  tr_task_id :: string
  tr_status :: string
  tr_verdict :: string
  tr_cycles_used :: nat
  tr_created_task :: bool
  tr_synced_external :: bool

section \<open>The review loop\<close>

text \<open>What the loop reads and never changes.\<close>

record ticket_ctx =
  tc_title :: string
  tc_task_id :: string
  tc_implementer :: string
  tc_delegated_by :: string
  tc_max_cycles :: nat

definition review_instructions :: "string \<Rightarrow> nat \<Rightarrow> string \<Rightarrow> string" where
  "review_instructions title cycle failure_context =
     ''Review the implementation of: '' @ title @ ''. Check out the pull request branch in your sandbox, run the test suite, and report status='' @
     quoted ''pass'' @ '' or status='' @ quoted ''fail'' @
     '' with organization.report_result, including concrete evidence (test output) in the summary.'' @
     (if cycle > 1 \<and> failure_context \<noteq> []
      then [newline, newline] @ ''This is retest cycle '' @ show_nat cycle @ ''. The previous review failed with:'' @
           [newline] @ failure_context @ [newline] @ ''Verify those problems are fixed.''
      else [])"

definition review_request :: "ticket_ctx \<Rightarrow> nat \<Rightarrow> string \<Rightarrow> pyval list \<Rightarrow> string \<times> string \<Rightarrow> child_request" where
  "review_request c cycle failure_context artifacts reviewer =
     \<lparr>cr_parent_task_id = tc_task_id c, cr_target_agent_id = snd reviewer,
      cr_delegated_by_agent_id = tc_delegated_by c, cr_kind = ''review_request'',
      cr_title = take 500 ((if fst reviewer = ''manager'' then ''Manager review'' else ''QA review'') @ '': '' @ tc_title c),
      cr_instructions = review_instructions (tc_title c) cycle failure_context,
      cr_expected_output = ''status='' @ quoted ''pass'' @ '' or '' @ quoted ''fail'' @ '' via organization.report_result'',
      cr_artifacts = artifacts, cr_cycle = cycle\<rparr>"

definition fix_request :: "ticket_ctx \<Rightarrow> nat \<Rightarrow> delegation_summary \<Rightarrow> pyval list \<Rightarrow> child_request" where
  "fix_request c cycle failed artifacts =
     \<lparr>cr_parent_task_id = tc_task_id c, cr_target_agent_id = tc_implementer c,
      cr_delegated_by_agent_id = tc_delegated_by c, cr_kind = ''delegation'',
      cr_title = take 500 (''Fix (cycle '' @ show_nat cycle @ ''): '' @ tc_title c),
      cr_instructions = ''The review failed. Reviewer summary:'' @ [newline] @ su_summary failed @ [newline, newline] @
        ''Fix the problems, update the pull request, and report the result with organization.report_result.'',
      cr_expected_output = ''The pull request updated with the fix'',
      cr_artifacts = (if su_artifacts failed \<noteq> [] then su_artifacts failed else artifacts), cr_cycle = cycle\<rparr>"

datatype round_outcome = RoundRaised | RoundPassed string | RoundFailed delegation_summary

text \<open>
  One turn of \<open>for role, reviewer_id in reviewers\<close>: it stops at the first verdict that is not pass. \<open>n\<close>
  counts the delegations made so far.
\<close>

fun review_round ::
    "ticket_env \<Rightarrow> ticket_ctx \<Rightarrow> nat \<Rightarrow> string \<Rightarrow> pyval list \<Rightarrow> (string \<times> string) list \<Rightarrow> nat \<Rightarrow> string \<Rightarrow>
     ticket_event list \<times> nat \<times> round_outcome" where
  "review_round env c cycle ctxt artifacts [] n verdict = ([], n, RoundPassed verdict)"
| "review_round env c cycle ctxt artifacts (reviewer # rest) n verdict =
     (let ev = EvDelegate (review_request c cycle ctxt artifacts reviewer)
      in (case en_delegate env n of
            None \<Rightarrow> ([ev], Suc n, RoundRaised)
          | Some r \<Rightarrow>
              if su_verdict (dr_summary r) \<noteq> ''pass'' then ([ev], Suc n, RoundFailed (dr_summary r))
              else (let (evs, n', out) = review_round env c cycle ctxt artifacts rest (Suc n) (su_verdict (dr_summary r))
                    in (ev # evs, n', out))))"

datatype loop_outcome = LoopRaised | LoopDone string string nat

text \<open>\<open>while reviewers\<close>: the cycle counter grows in every turn and stops the loop at the limit.\<close>

function review_loop ::
    "ticket_env \<Rightarrow> ticket_ctx \<Rightarrow> (string \<times> string) list \<Rightarrow> nat \<Rightarrow> string \<Rightarrow> pyval list \<Rightarrow> nat \<Rightarrow> string \<Rightarrow>
     ticket_event list \<times> loop_outcome" where
  "review_loop env c reviewers cycle0 ctxt artifacts n verdict0 =
     (let cycle = Suc cycle0;
          (evs, n', out) = review_round env c cycle ctxt artifacts reviewers n verdict0
      in (case out of
            RoundRaised \<Rightarrow> (evs, LoopRaised)
          | RoundPassed verdict \<Rightarrow> (evs, LoopDone ''completed'' verdict cycle)
          | RoundFailed failed \<Rightarrow>
              if cycle \<ge> tc_max_cycles c
              then (evs, LoopDone ''review_failed'' (su_verdict failed) cycle)
              else
                (let ev = EvDelegate (fix_request c cycle failed artifacts)
                 in (case en_delegate env n' of
                       None \<Rightarrow> (evs @ [ev], LoopRaised)
                     | Some fixed \<Rightarrow>
                         if dr_run_status fixed \<noteq> ''completed''
                         then (evs @ [ev], LoopDone ''implementation_failed'' (su_verdict failed) cycle)
                         else
                           (let artifacts' = (if su_artifacts (dr_summary fixed) \<noteq> []
                                              then su_artifacts (dr_summary fixed) else artifacts);
                                (evs', out') = review_loop env c reviewers cycle (su_summary failed) artifacts'
                                                 (Suc n') (su_verdict failed)
                            in (evs @ ev # evs', out'))))))"
  by pat_completeness auto

termination
  by (relation "measure (\<lambda>(env, c, reviewers, cycle, _). tc_max_cycles c - cycle)") auto

section \<open>The run\<close>

definition plan_reviewers :: "engineering_plan \<Rightarrow> (string \<times> string) list" where
  "plan_reviewers p =
     (if ep_manager_agent_id p \<noteq> [] then [(''manager'', ep_manager_agent_id p)] else [])
     @ (if ep_qa_agent_id p \<noteq> [] then [(''qa'', ep_qa_agent_id p)] else [])"

definition implement_request :: "ticket_base \<Rightarrow> prepared_task \<Rightarrow> engineering_plan \<Rightarrow> child_request" where
  "implement_request base prepared p =
     \<lparr>cr_parent_task_id = pt_task_id prepared, cr_target_agent_id = ep_implementer_agent_id p,
      cr_delegated_by_agent_id = tb_agent_id base, cr_kind = ''delegation'',
      cr_title = take 500 (''Implement: '' @ tb_title base),
      cr_instructions = tb_description base @ [newline, newline] @
        ''Implement this ticket: make the change in your sandbox, run the tests, open a pull request, and report the result with organization.report_result including the PR as an artifact.'',
      cr_expected_output = ''An open pull request implementing the ticket'',
      cr_artifacts = [], cr_cycle = 0\<rparr>"

text \<open>
  The implementation step: its effect, and when it did not raise the run's status, the artifacts, the
  run id and the number of delegations made.
\<close>

definition implement ::
    "ticket_env \<Rightarrow> ticket_base \<Rightarrow> prepared_task \<Rightarrow> engineering_plan \<Rightarrow>
     ticket_event \<times> (string \<times> pyval list \<times> string \<times> nat) option" where
  "implement env base prepared p =
     (if ep_coordinator_mode p
      then (EvDelegate (implement_request base prepared p),
            map_option (\<lambda>r. (dr_run_status r, su_artifacts (dr_summary r), dr_run_id r, 1)) (en_delegate env 0))
      else (EvRunAgent (pt_task_id prepared) (ep_implementer_agent_id p),
            map_option (\<lambda>(status, run_id). (status, [], case run_id of None \<Rightarrow> [] | Some i \<Rightarrow> i, 0)) (en_run_agent env)))"

definition ticket_ctx_of :: "ticket_base \<Rightarrow> nat \<Rightarrow> prepared_task \<Rightarrow> engineering_plan \<Rightarrow> ticket_ctx" where
  "ticket_ctx_of base max_cycles prepared p =
     \<lparr>tc_title = tb_title base, tc_task_id = pt_task_id prepared, tc_implementer = ep_implementer_agent_id p,
      tc_delegated_by = (if ep_coordinator_mode p then tb_agent_id base else ep_implementer_agent_id p),
      tc_max_cycles = max_cycles\<rparr>"

definition run_reviews ::
    "ticket_env \<Rightarrow> ticket_ctx \<Rightarrow> engineering_plan \<Rightarrow> string \<Rightarrow> pyval list \<Rightarrow> nat \<Rightarrow> ticket_event list \<times> loop_outcome" where
  "run_reviews env c p impl_status artifacts n =
     (if impl_status \<noteq> ''completed'' then ([], LoopDone ''implementation_failed'' [] 0)
      else if plan_reviewers p = [] then ([], LoopDone ''completed'' [] 0)
      else review_loop env c (plan_reviewers p) 0 [] artifacts n [])"

text \<open>\<open>max(1, min(10, params.max_retest_cycles))\<close>\<close>

definition clamp_cycles :: "int \<Rightarrow> nat" where
  "clamp_cycles n = nat (max 1 (min 10 n))"

definition finish_ticket ::
    "ticket_env \<Rightarrow> ticket_base \<Rightarrow> prepared_task \<Rightarrow> string \<Rightarrow> string \<Rightarrow> string \<Rightarrow> nat \<Rightarrow>
     ticket_event list \<times> ticket_result option" where
  "finish_ticket env base prepared impl_run_id status verdict cycles =
     (case en_finalize env of
        None \<Rightarrow> ([EvFinalize status verdict cycles], None)
      | Some _ \<Rightarrow>
          (let sync = tb_comment_back base \<and> tb_connection_id base \<noteq> [] \<and> impl_run_id \<noteq> [];
               synced = (if sync then (case en_sync env of None \<Rightarrow> False | Some b \<Rightarrow> b) else False)
           in (EvFinalize status verdict cycles # (if sync then [EvSync impl_run_id] else []),
               Some \<lparr>tr_task_id = pt_task_id prepared, tr_status = status, tr_verdict = verdict,
                     tr_cycles_used = cycles, tr_created_task = True, tr_synced_external = synced\<rparr>)))"

definition ticket_run :: "ticket_env \<Rightarrow> ticket_input \<Rightarrow> ticket_event list \<times> ticket_result option" where
  "ticket_run env params =
     (let base = ti_base params; max_cycles = clamp_cycles (ti_max_retest_cycles params)
      in (case en_prepare env of
            None \<Rightarrow> ([EvPrepare], None)
          | Some prepared \<Rightarrow>
              if \<not> pt_created prepared
              then ([EvPrepare],
                    Some \<lparr>tr_task_id = pt_task_id prepared, tr_status = ''skipped_duplicate_task'', tr_verdict = [],
                          tr_cycles_used = 0, tr_created_task = False, tr_synced_external = False\<rparr>)
              else
                (case en_plan env of
                   None \<Rightarrow> ([EvPrepare, EvResolvePlan], None)
                 | Some p \<Rightarrow>
                     (let (ev, impl) = implement env base prepared p
                      in (case impl of
                            None \<Rightarrow> ([EvPrepare, EvResolvePlan, ev], None)
                          | Some (impl_status, artifacts, impl_run_id, n) \<Rightarrow>
                              (let c = ticket_ctx_of base max_cycles prepared p;
                                   (evs, out) = run_reviews env c p impl_status artifacts n
                               in (case out of
                                     LoopRaised \<Rightarrow> ([EvPrepare, EvResolvePlan, ev] @ evs, None)
                                   | LoopDone status verdict cycles \<Rightarrow>
                                       (let (evs', res) = finish_ticket env base prepared impl_run_id status verdict cycles
                                        in ([EvPrepare, EvResolvePlan, ev] @ evs @ evs', res)))))))))"

section \<open>Delegations of a run\<close>

fun delegation_of :: "ticket_event \<Rightarrow> child_request list" where
  "delegation_of (EvDelegate r) = [r]"
| "delegation_of _ = []"

definition delegations :: "ticket_event list \<Rightarrow> child_request list" where
  "delegations evs = concat (map delegation_of evs)"

fun finalize_of :: "ticket_event \<Rightarrow> (string \<times> string \<times> nat) list" where
  "finalize_of (EvFinalize s v n) = [(s, v, n)]"
| "finalize_of _ = []"

definition finalizes :: "ticket_event list \<Rightarrow> (string \<times> string \<times> nat) list" where
  "finalizes evs = concat (map finalize_of evs)"

lemma delegations_simps [simp]:
  "delegations [] = []" "delegations (e # es) = delegation_of e @ delegations es"
  "delegations (es @ fs) = delegations es @ delegations fs"
  by (simp_all add: delegations_def)

lemma finalizes_simps [simp]:
  "finalizes [] = []" "finalizes (e # es) = finalize_of e @ finalizes es"
  "finalizes (es @ fs) = finalizes es @ finalizes fs"
  by (simp_all add: finalizes_def)

text \<open>The n-th answer passes a review.\<close>

definition answers_pass :: "ticket_env \<Rightarrow> nat \<Rightarrow> bool" where
  "answers_pass env n \<longleftrightarrow>
     (case en_delegate env n of None \<Rightarrow> False | Some r \<Rightarrow> su_verdict (dr_summary r) = ''pass'')"

section \<open>A round\<close>

lemma review_round_counts:
  assumes "review_round env c cycle ctxt arts rs n v = (evs, n', out)"
  shows "n' = n + length (delegations evs) \<and> length (delegations evs) \<le> length rs \<and> finalizes evs = []"
  using assms
proof (induction rs arbitrary: n v evs n' out)
  case (Cons r rs)
  show ?case
  proof (cases "en_delegate env n")
    case (Some d)
    show ?thesis
    proof (cases "su_verdict (dr_summary d) = ''pass''")
      case True
      then obtain evs1 where "review_round env c cycle ctxt arts rs (Suc n) ''pass'' = (evs1, n', out)"
        and "evs = EvDelegate (review_request c cycle ctxt arts r) # evs1"
        using Cons.prems Some by (auto simp: Let_def split: prod.splits)
      with Cons.IH show ?thesis by fastforce
    qed (use Cons.prems Some in auto)
  qed (use Cons.prems in auto)
qed simp

text \<open>A passed round asked every reviewer, in order, and every answer passed.\<close>

lemma review_round_passed:
  assumes "review_round env c cycle ctxt arts rs n v = (evs, n', RoundPassed v')"
  shows "delegations evs = map (review_request c cycle ctxt arts) rs
         \<and> list_all (answers_pass env) [n..<n + length rs]"
  using assms
proof (induction rs arbitrary: n v evs)
  case (Cons r rs)
  obtain d where d: "en_delegate env n = Some d" and pass: "su_verdict (dr_summary d) = ''pass''"
    using Cons.prems by (auto simp: Let_def split: option.splits if_splits)
  obtain evs1 where r: "review_round env c cycle ctxt arts rs (Suc n) ''pass'' = (evs1, n', RoundPassed v')"
    and evs: "evs = EvDelegate (review_request c cycle ctxt arts r) # evs1"
    using Cons.prems d pass by (auto simp: Let_def split: prod.splits)
  have "answers_pass env n"
    using d pass by (simp add: answers_pass_def)
  moreover have "[n..<n + length (r # rs)] = n # [Suc n..<Suc n + length rs]"
    by (subst upt_conv_Cons) simp_all
  ultimately show ?case
    using Cons.IH [OF r] evs by simp
qed simp

section \<open>The loop\<close>

text \<open>
  The last delegations of the events ask every reviewer, in order, in the given cycle, and their
  answers pass; \<open>n\<close> delegations came before the events.
\<close>

definition approved ::
    "ticket_env \<Rightarrow> ticket_ctx \<Rightarrow> (string \<times> string) list \<Rightarrow> nat \<Rightarrow> ticket_event list \<Rightarrow> nat \<Rightarrow> bool" where
  "approved env c rs n evs cycle \<longleftrightarrow>
     (\<exists>pre ctxt arts. delegations evs = pre @ map (review_request c cycle ctxt arts) rs
        \<and> list_all (answers_pass env) [n + length pre..<n + length pre + length rs])"

lemma approved_later:
  assumes "approved env c rs (n + length (delegations evs1)) evs2 k"
  shows "approved env c rs n (evs1 @ evs2) k"
proof -
  let ?m = "n + length (delegations evs1)"
  obtain pre ctxt arts where "delegations evs2 = pre @ map (review_request c k ctxt arts) rs"
    and "list_all (answers_pass env) [?m + length pre..<?m + length pre + length rs]"
    using assms unfolding approved_def by blast
  then show ?thesis
    unfolding approved_def
    by (intro exI [of _ "delegations evs1 @ pre"] exI [of _ ctxt] exI [of _ arts]) (simp add: add.assoc)
qed

text \<open>What the loop guarantees of its events and its outcome, for the cycles still left.\<close>

definition loop_status :: "string \<Rightarrow> bool" where
  "loop_status s \<longleftrightarrow> s \<in> {''completed'', ''review_failed'', ''implementation_failed''}"

lemma loop_status_simps [simp]:
  "loop_status ''completed''" "loop_status ''review_failed''" "loop_status ''implementation_failed''"
  by (simp_all add: loop_status_def)

definition loop_ok ::
    "ticket_env \<Rightarrow> ticket_ctx \<Rightarrow> (string \<times> string) list \<Rightarrow> nat \<Rightarrow> nat \<Rightarrow> ticket_event list \<Rightarrow> loop_outcome \<Rightarrow> bool" where
  "loop_ok env c rs cycle n evs out \<longleftrightarrow>
     length (delegations evs) + 1 \<le> (tc_max_cycles c - cycle) * Suc (length rs)
     \<and> finalizes evs = []
     \<and> (case out of
          LoopRaised \<Rightarrow> True
        | LoopDone status verdict cycles \<Rightarrow>
            cycle < cycles \<and> cycles \<le> tc_max_cycles c
            \<and> loop_status status
            \<and> (status = ''review_failed'' \<longrightarrow> cycles = tc_max_cycles c)
            \<and> (status = ''completed'' \<longrightarrow>
                 approved env c rs n evs cycles))"

lemma loop_ok_later:
  assumes ok: "loop_ok env c rs (Suc cycle) (n + length (delegations evs1)) evs2 out"
    and short: "length (delegations evs1) \<le> Suc (length rs)" and fin: "finalizes evs1 = []"
  shows "loop_ok env c rs cycle n (evs1 @ evs2) out"
proof -
  let ?k = "Suc (length rs)"
  have len: "length (delegations evs2) + 1 \<le> (tc_max_cycles c - Suc cycle) * ?k"
    using ok by (simp add: loop_ok_def)
  then have "tc_max_cycles c - cycle = Suc (tc_max_cycles c - Suc cycle)"
    by (cases "tc_max_cycles c - Suc cycle") auto
  then have bound: "length (delegations (evs1 @ evs2)) + 1 \<le> (tc_max_cycles c - cycle) * ?k"
    using len short by simp
  show ?thesis
  proof (cases out)
    case LoopRaised
    then show ?thesis
      using ok bound fin by (simp add: loop_ok_def)
  next
    case (LoopDone status verdict cycles)
    note ok = ok [unfolded loop_ok_def LoopDone loop_outcome.case]
    have "status = ''completed'' \<longrightarrow> approved env c rs n (evs1 @ evs2) cycles"
      using ok approved_later by blast
    moreover have "cycle < cycles" and "finalizes (evs1 @ evs2) = []"
      using ok fin by simp_all
    ultimately show ?thesis
      unfolding loop_ok_def LoopDone loop_outcome.case using bound ok by simp
  qed
qed

text \<open>The three ways a turn can end the loop.\<close>

lemma loop_ok_here:
  assumes "cycle < tc_max_cycles c" and "length (delegations evs) \<le> length rs" and "finalizes evs = []"
    and "out = LoopRaised
         \<or> (\<exists>v. out = LoopDone ''review_failed'' v (Suc cycle)) \<and> Suc cycle = tc_max_cycles c
         \<or> (\<exists>v. out = LoopDone ''completed'' v (Suc cycle))
            \<and> (\<exists>ctxt arts. delegations evs = map (review_request c (Suc cycle) ctxt arts) rs)
            \<and> list_all (answers_pass env) [n..<n + length rs]"
  shows "loop_ok env c rs cycle n evs out"
proof -
  have "length (delegations evs) + 1 \<le> (tc_max_cycles c - cycle) * Suc (length rs)"
    using assms(1,2) by (cases "tc_max_cycles c - cycle") auto
  moreover have "approved env c rs n evs (Suc cycle)"
    if e: "\<exists>ctxt arts. delegations evs = map (review_request c (Suc cycle) ctxt arts) rs"
      and l: "list_all (answers_pass env) [n..<n + length rs]"
  proof -
    obtain ctxt arts where "delegations evs = map (review_request c (Suc cycle) ctxt arts) rs"
      using e by blast
    with l show ?thesis
      unfolding approved_def by (intro exI [of _ "[]"] exI [of _ ctxt] exI [of _ arts]) simp
  qed
  ultimately show ?thesis
    using assms(1,3,4) unfolding loop_ok_def by (elim disjE) (auto split: loop_outcome.split)
qed

lemma review_loop_ok:
  assumes "cycle < tc_max_cycles c"
    and "review_loop env c rs cycle ctxt arts n v = (evs, out)"
  shows "loop_ok env c rs cycle n evs out"
  using assms
proof (induction env c rs cycle ctxt arts n v arbitrary: evs out rule: review_loop.induct)
  case (1 env c rs cycle ctxt arts n v)
  obtain evs1 n' out1 where r: "review_round env c (Suc cycle) ctxt arts rs n v = (evs1, n', out1)"
    by (metis prod_cases3)
  note counts = review_round_counts [OF r]
  note run = "1.prems"(2) [unfolded review_loop.simps [of env c rs cycle ctxt arts n v] Let_def r prod.case]
  show ?case
  proof (cases out1)
    case RoundRaised
    with run have "evs = evs1" and "out = LoopRaised"
      by simp_all
    then show ?thesis
      using "1.prems"(1) counts by (intro loop_ok_here) simp_all
  next
    case (RoundPassed v')
    with run have "evs = evs1" and "out = LoopDone ''completed'' v' (Suc cycle)"
      by simp_all
    then show ?thesis
      using "1.prems"(1) counts review_round_passed [OF r [unfolded RoundPassed]]
      by (intro loop_ok_here) auto
  next
    case (RoundFailed failed)
    note run = run [unfolded RoundFailed round_outcome.case]
    let ?fix = "EvDelegate (fix_request c (Suc cycle) failed arts)"
    show ?thesis
    proof (cases "Suc cycle \<ge> tc_max_cycles c")
      case True
      with run have "evs = evs1" and "out = LoopDone ''review_failed'' (su_verdict failed) (Suc cycle)"
        by simp_all
      then show ?thesis
        using "1.prems"(1) counts True by (intro loop_ok_here) simp_all
    next
      case more: False
      have short: "length (delegations (evs1 @ [?fix])) \<le> Suc (length rs)" and fin: "finalizes (evs1 @ [?fix]) = []"
        using counts by simp_all
      have "2 * Suc (length rs) \<le> (tc_max_cycles c - cycle) * Suc (length rs)"
        using more by (intro mult_le_mono1) simp
      then have bound: "length (delegations (evs1 @ [?fix])) + 1 \<le> (tc_max_cycles c - cycle) * Suc (length rs)"
        by (rule le_trans [rotated]) (use short in simp)
      show ?thesis
      proof (cases "en_delegate env n'")
        case None
        with run more have "evs = evs1 @ [?fix]" and "out = LoopRaised"
          by simp_all
        then show ?thesis
          using bound fin unfolding loop_ok_def by simp
      next
        case (Some fixed)
        show ?thesis
        proof (cases "dr_run_status fixed = ''completed''")
          case False
          with run more Some have "evs = evs1 @ [?fix]"
            and "out = LoopDone ''implementation_failed'' (su_verdict failed) (Suc cycle)"
            by simp_all
          then show ?thesis
            using bound fin more unfolding loop_ok_def by simp
        next
          case True
          obtain evs2 out2 where rec: "review_loop env c rs (Suc cycle) (su_summary failed)
              (if su_artifacts (dr_summary fixed) \<noteq> [] then su_artifacts (dr_summary fixed) else arts)
              (Suc n') (su_verdict failed) = (evs2, out2)"
            by (metis surj_pair)
          with run more Some True have evs: "evs = (evs1 @ [?fix]) @ evs2" and out: "out = out2"
            by simp_all
          have "loop_ok env c rs (Suc cycle) (Suc n') evs2 out2"
            using "1.IH" [OF refl refl r [symmetric] refl RoundFailed _ refl Some _ refl] more True rec by simp
          moreover have "Suc n' = n + length (delegations (evs1 @ [?fix]))"
            using counts by simp
          ultimately have "loop_ok env c rs (Suc cycle) (n + length (delegations (evs1 @ [?fix]))) evs2 out2"
            by simp
          then show ?thesis
            unfolding evs out using short fin by (rule loop_ok_later)
        qed
      qed
    qed
  qed
qed

section \<open>Properties\<close>

text \<open>A run that got past planning: its events in three parts.\<close>

lemma implement_counts:
  assumes "implement env base prepared p = (ev, Some (status, arts, run_id, n))"
  shows "n = length (delegations [ev])" and "finalizes [ev] = []" and "n \<le> 1"
  using assms by (auto simp: implement_def split: if_splits)

lemma implement_event: "implement env base prepared p = (ev, r) \<Longrightarrow> length (delegations [ev]) \<le> 1 \<and> finalizes [ev] = []"
  by (auto simp: implement_def split: if_splits)

lemma plan_reviewers_length: "length (plan_reviewers p) \<le> 2"
  by (simp add: plan_reviewers_def)

lemma clamp_cycles_range: "1 \<le> clamp_cycles n" "clamp_cycles n \<le> 10"
  by (simp_all add: clamp_cycles_def nat_le_iff)

lemma finish_ticket_events:
  assumes "finish_ticket env base prepared run_id s v k = (evs, res)"
  shows "delegations evs = []" and "finalizes evs = [(s, v, k)]"
    and "res = Some r \<Longrightarrow> tr_status r = s \<and> tr_verdict r = v \<and> tr_cycles_used r = k \<and> tr_created_task r"
  using assms by (auto simp: finish_ticket_def Let_def split: option.splits if_splits)

text \<open>What the reviews guarantee, whether the loop ran or not.\<close>

lemma run_reviews_ok:
  assumes "run_reviews env c p status arts n = (evs, out)" and "1 \<le> tc_max_cycles c"
  shows "length (delegations evs) + 1 \<le> tc_max_cycles c * 3 \<and> finalizes evs = []
    \<and> (case out of LoopRaised \<Rightarrow> True
       | LoopDone s v k \<Rightarrow> k \<le> tc_max_cycles c
           \<and> loop_status s
           \<and> (s = ''review_failed'' \<longrightarrow> k = tc_max_cycles c)
           \<and> (s = ''completed'' \<longrightarrow> status = ''completed''
                \<and> (plan_reviewers p = [] \<or> approved env c (plan_reviewers p) n evs k)))"
proof (cases "status = ''completed'' \<and> plan_reviewers p \<noteq> []")
  case True
  then have "review_loop env c (plan_reviewers p) 0 [] arts n [] = (evs, out)"
    using assms(1) by (simp add: run_reviews_def)
  then have ok: "loop_ok env c (plan_reviewers p) 0 n evs out"
    using assms(2) by (intro review_loop_ok) auto
  have le: "tc_max_cycles c * Suc (length (plan_reviewers p)) \<le> tc_max_cycles c * 3"
    using plan_reviewers_length [of p] by (intro mult_le_mono2) simp
  note ok = ok [unfolded loop_ok_def diff_zero]
  have len: "length (delegations evs) + 1 \<le> tc_max_cycles c * 3"
    using ok le by (blast intro: le_trans)
  have "status = ''completed''"
    using True by blast
  then show ?thesis
    using ok len by (cases out, simp_all only: loop_outcome.case simp_thms) iprover
next
  case False
  then have "evs = []" and "out = LoopDone ''implementation_failed'' [] 0 \<and> status \<noteq> ''completed''
      \<or> out = LoopDone ''completed'' [] 0 \<and> status = ''completed'' \<and> plan_reviewers p = []"
    using assms(1) by (auto simp: run_reviews_def split: if_splits)
  then show ?thesis
    using assms(2) by auto
qed

lemma ticket_runE:
  assumes "ticket_run env params = (evs, res)"
  obtains (early) "delegations evs = []" "finalizes evs = []"
      "case res of None \<Rightarrow> True | Some r \<Rightarrow> \<not> tr_created_task r \<and> tr_status r = ''skipped_duplicate_task'' \<and> tr_cycles_used r = 0"
  | (no_impl) ev where "evs = [EvPrepare, EvResolvePlan, ev]" "length (delegations [ev]) \<le> 1" "finalizes [ev] = []" "res = None"
  | (raised) prepared p ev status arts run_id n c evs1 where "en_prepare env = Some prepared" "en_plan env = Some p"
      "implement env (ti_base params) prepared p = (ev, Some (status, arts, run_id, n))"
      "c = ticket_ctx_of (ti_base params) (clamp_cycles (ti_max_retest_cycles params)) prepared p"
      "run_reviews env c p status arts n = (evs1, LoopRaised)"
      "evs = [EvPrepare, EvResolvePlan, ev] @ evs1" "res = None"
  | (finished) prepared p ev status arts run_id n c evs1 s v k evs2 where "en_prepare env = Some prepared" "en_plan env = Some p"
      "implement env (ti_base params) prepared p = (ev, Some (status, arts, run_id, n))"
      "c = ticket_ctx_of (ti_base params) (clamp_cycles (ti_max_retest_cycles params)) prepared p"
      "run_reviews env c p status arts n = (evs1, LoopDone s v k)"
      "finish_ticket env (ti_base params) prepared run_id s v k = (evs2, res)"
      "evs = [EvPrepare, EvResolvePlan, ev] @ evs1 @ evs2"
proof (cases "en_prepare env")
  case None
  then show ?thesis
    using assms early by (auto simp: ticket_run_def Let_def)
next
  case (Some prepared)
  note pre = Some
  show ?thesis
  proof (cases "pt_created prepared \<and> en_plan env \<noteq> None")
    case False
    then show ?thesis
      using assms pre early by (auto simp: ticket_run_def Let_def split: option.splits if_splits)
  next
    case True
    then obtain p where plan: "en_plan env = Some p" and created: "pt_created prepared"
      by auto
    obtain ev impl where impl: "implement env (ti_base params) prepared p = (ev, impl)"
      by (metis surj_pair)
    show ?thesis
    proof (cases impl)
      case None
      then show ?thesis
        using assms pre plan created impl no_impl [of ev] implement_event [OF impl] by (simp add: ticket_run_def Let_def)
    next
      case (Some q)
      obtain status arts run_id n where q: "q = (status, arts, run_id, n)"
        by (metis prod_cases4)
      define c where "c = ticket_ctx_of (ti_base params) (clamp_cycles (ti_max_retest_cycles params)) prepared p"
      obtain evs1 out where rev: "run_reviews env c p status arts n = (evs1, out)"
        by (metis surj_pair)
      show ?thesis
      proof (cases out)
        case LoopRaised
        then show ?thesis
          using raised [OF pre plan _ c_def] assms pre plan created impl Some q rev
          by (simp add: ticket_run_def Let_def c_def [symmetric])
      next
        case (LoopDone s v k)
        obtain evs2 res2 where fin: "finish_ticket env (ti_base params) prepared run_id s v k = (evs2, res2)"
          by (metis surj_pair)
        show ?thesis
          using finished [OF pre plan _ c_def] assms pre plan created impl Some q rev LoopDone fin
          by (simp add: ticket_run_def Let_def c_def [symmetric])
      qed
    qed
  qed
qed

text \<open>
  A ticket is bounded whatever the agents answer: it makes at most thirty delegations
  (three per cycle), and reports at most the clamped number of retest cycles, ten at most.
\<close>

theorem ticket_bounded:
  "length (delegations (fst (ticket_run env params))) \<le> 3 * clamp_cycles (ti_max_retest_cycles params)
   \<and> 3 * clamp_cycles (ti_max_retest_cycles params) \<le> 30
   \<and> (case snd (ticket_run env params) of None \<Rightarrow> True
      | Some r \<Rightarrow> tr_cycles_used r \<le> clamp_cycles (ti_max_retest_cycles params))"
proof -
  let ?m = "clamp_cycles (ti_max_retest_cycles params)"
  obtain evs res where run: "ticket_run env params = (evs, res)"
    by (metis surj_pair)
  from run have "length (delegations evs) \<le> 3 * ?m
    \<and> (case res of None \<Rightarrow> True | Some r \<Rightarrow> tr_cycles_used r \<le> ?m)"
  proof (cases rule: ticket_runE)
    case early
    then show ?thesis by (auto split: option.splits)
  next
    case (no_impl ev)
    then show ?thesis
      using clamp_cycles_range(1) [of "ti_max_retest_cycles params"] by simp
  next
    case (raised prepared p ev status arts run_id n c evs1)
    then have "tc_max_cycles c = ?m"
      by (simp add: ticket_ctx_of_def)
    then show ?thesis
      using raised run_reviews_ok [OF raised(5)] implement_counts [OF raised(3)] clamp_cycles_range
      by simp
  next
    case (finished prepared p ev status arts run_id n c evs1 s v k evs2)
    then have "tc_max_cycles c = ?m"
      by (simp add: ticket_ctx_of_def)
    then show ?thesis
      using finished(7) run_reviews_ok [OF finished(5)] implement_counts [OF finished(3)] clamp_cycles_range
        finish_ticket_events [OF finished(6)]
      by (auto split: option.splits)
  qed
  then show ?thesis
    using run clamp_cycles_range(2) [of "ti_max_retest_cycles params"] by simp
qed

text \<open>
  The outcome of a ticket is persisted exactly once, and it is the outcome reported: a
  run that returns a created task finalized it once, with the status, verdict and cycles it returns;
  a skipped duplicate finalizes nothing; and no run ever finalizes twice.
\<close>

theorem ticket_finalized_once:
  "case snd (ticket_run env params) of
     None \<Rightarrow> length (finalizes (fst (ticket_run env params))) \<le> 1
   | Some r \<Rightarrow> finalizes (fst (ticket_run env params))
               = (if tr_created_task r then [(tr_status r, tr_verdict r, tr_cycles_used r)] else [])"
proof -
  obtain evs res where run: "ticket_run env params = (evs, res)"
    by (metis surj_pair)
  from run show ?thesis
  proof (cases rule: ticket_runE)
    case early
    then show ?thesis using run by (auto split: option.splits)
  next
    case (no_impl ev)
    then show ?thesis using run by simp
  next
    case (raised prepared p ev status arts run_id n c evs1)
    then have "1 \<le> tc_max_cycles c"
      using clamp_cycles_range by (simp add: ticket_ctx_of_def)
    then show ?thesis
      using run raised run_reviews_ok [OF raised(5)] implement_counts [OF raised(3)] by simp
  next
    case (finished prepared p ev status arts run_id n c evs1 s v k evs2)
    then have "1 \<le> tc_max_cycles c"
      using clamp_cycles_range by (simp add: ticket_ctx_of_def)
    then have "finalizes evs = [(s, v, k)]"
      using finished(7) run_reviews_ok [OF finished(5)] implement_counts [OF finished(3)]
        finish_ticket_events(2) [OF finished(6)] by simp
    then show ?thesis
      using run finish_ticket_events(3) [OF finished(6)] by (cases res) simp_all
  qed
qed

definition implementation_completed :: "ticket_env \<Rightarrow> engineering_plan \<Rightarrow> bool" where
  "implementation_completed env p \<longleftrightarrow>
     (if ep_coordinator_mode p
      then (case en_delegate env 0 of None \<Rightarrow> False | Some r \<Rightarrow> dr_run_status r = ''completed'')
      else (case en_run_agent env of None \<Rightarrow> False | Some (status, _) \<Rightarrow> status = ''completed''))"

text \<open>
  C25 (safety). A ticket reported completed was implemented, and every configured reviewer approved it
  after the last change: its last delegations are review requests to the reviewers in order, each
  answered with a pass, and nothing was delegated after them.
\<close>

theorem ticket_completed_approved:
  assumes "ticket_run env params = (evs, Some r)" and "tr_status r = ''completed''" and "en_plan env = Some p"
  shows "let ds = delegations evs; k = length (plan_reviewers p)
         in implementation_completed env p \<and> k \<le> length ds
            \<and> map (\<lambda>q. (cr_kind q, cr_target_agent_id q)) (drop (length ds - k) ds)
                = map (\<lambda>rv. (''review_request'', snd rv)) (plan_reviewers p)
            \<and> list_all (answers_pass env) [length ds - k..<length ds]"
  using assms(1)
proof (cases rule: ticket_runE)
  case early
  then show ?thesis using assms(2) by simp
next
  case (finished prepared p' ev status arts run_id n c evs1 s v k evs2)
  have [simp]: "p' = p"
    using finished(2) assms(3) by simp
  have "1 \<le> tc_max_cycles c"
    using finished(4) clamp_cycles_range by (simp add: ticket_ctx_of_def)
  moreover have "s = ''completed''"
    using finish_ticket_events(3) [OF finished(6)] assms(2) by simp
  ultimately have st: "status = ''completed''" and ap: "plan_reviewers p = [] \<or> approved env c (plan_reviewers p) n evs1 k"
    using run_reviews_ok [OF finished(5)] by simp_all
  have impl: "implementation_completed env p"
    using finished(3) st unfolding implementation_completed_def implement_def
    by (auto split: if_splits)
  obtain pre ctxt as where pre: "delegations evs1 = pre @ map (review_request c k ctxt as) (plan_reviewers p)"
    and all: "list_all (answers_pass env) [n + length pre..<n + length pre + length (plan_reviewers p)]"
  proof (cases "plan_reviewers p = []")
    case True
    then show ?thesis
      using that [of "delegations evs1"] by simp
  next
    case False
    then show ?thesis
      using ap that unfolding approved_def by blast
  qed
  have n: "n = length (delegations [ev])"
    using implement_counts [OF finished(3)] by simp
  have ds: "delegations evs = delegations [ev] @ pre @ map (review_request c k ctxt as) (plan_reviewers p)"
    using finished(7) pre finish_ticket_events(1) [OF finished(6)] by simp
  have len: "length (delegations evs) = n + length pre + length (plan_reviewers p)"
    unfolding ds n by simp
  have "drop (n + length pre) (delegations evs) = map (review_request c k ctxt as) (plan_reviewers p)"
    unfolding ds n by simp
  then show ?thesis
    using impl all unfolding Let_def len by (simp add: review_request_def o_def)
qed simp_all

text \<open>A ticket that needs one fix: the second review of the only reviewer passes.\<close>

definition sample_answer :: "string \<Rightarrow> string \<Rightarrow> delegated_result" where
  "sample_answer status verdict = \<lparr>dr_run_status = status, dr_run_id = ''run'',
     dr_summary = \<lparr>su_summary = ''s'', su_verdict = verdict, su_artifacts = []\<rparr>\<rparr>"

definition sample_plan :: engineering_plan where
  "sample_plan = \<lparr>ep_implementer_agent_id = ''swe'', ep_coordinator_mode = True, ep_qa_agent_id = ''qa'',
     ep_manager_agent_id = []\<rparr>"

definition sample_env :: ticket_env where
  "sample_env = \<lparr>en_prepare = Some \<lparr>pt_task_id = ''t'', pt_created = True\<rparr>, en_plan = Some sample_plan,
     en_run_agent = None,
     en_delegate = (\<lambda>n. Some (sample_answer ''completed'' (if n = 1 then ''fail'' else ''pass''))),
     en_finalize = Some (), en_sync = None\<rparr>"

definition sample_params :: ticket_input where
  "sample_params = \<lparr>ti_base = \<lparr>tb_workspace_id = ''w'', tb_connection_id = [], tb_title = ''T'', tb_description = ''D'',
     tb_agent_id = ''cto'', tb_comment_back = False\<rparr>, ti_max_retest_cycles = 3\<rparr>"

theorem ticket_completed_approved_witness:
  "let ds = delegations (fst (ticket_run sample_env sample_params)); k = length (plan_reviewers sample_plan)
         in implementation_completed sample_env sample_plan \<and> k \<le> length ds
            \<and> map (\<lambda>q. (cr_kind q, cr_target_agent_id q)) (drop (length ds - k) ds)
                = map (\<lambda>rv. (''review_request'', snd rv)) (plan_reviewers sample_plan)
            \<and> list_all (answers_pass sample_env) [length ds - k..<length ds]"
proof -
  let ?r = "\<lparr>tr_task_id = ''t'', tr_status = ''completed'', tr_verdict = ''pass'', tr_cycles_used = 2,
             tr_created_task = True, tr_synced_external = False\<rparr>"
  have "snd (ticket_run sample_env sample_params) = Some ?r"
    by code_simp
  then have run: "ticket_run sample_env sample_params = (fst (ticket_run sample_env sample_params), Some ?r)"
    by (metis prod.collapse)
  have "en_plan sample_env = Some sample_plan"
    by (simp add: sample_env_def)
  from ticket_completed_approved [OF run _ this] show ?thesis
    by simp
qed

end
