(* ===== verification/WorkflowMonad.thy ===== *)
theory WorkflowMonad
  imports Prelude
begin

text \<open>
  The execution model of a Temporal workflow, for \<open>packages/workflows\<close>: one deterministic thread that
  advances at its awaits. Time is a tick counter; at every tick the signals of that tick are delivered
  (their handlers run while the thread is suspended) and the awaited answer arrives. A step of the
  thread either gives a value, raises, or is still parked, at a command or at a wait, when the observed
  history (the \<open>horizon\<close>) ends. The state, the environment and the effects are parameters, as is what delivering a tick does.
\<close>

datatype park = AtCommand | AtWait

datatype ('a, 'x) outcome = Val 'a | Exn 'x | Parked park

type_synonym ('env, 's, 'a, 'x) wf = "'env \<Rightarrow> 's \<Rightarrow> ('a, 'x) outcome \<times> 's"

definition wret :: "'a \<Rightarrow> ('env, 's, 'a, 'x) wf" where
  "wret a env s = (Val a, s)"

definition wraise :: "'x \<Rightarrow> ('env, 's, 'a, 'x) wf" where
  "wraise x env s = (Exn x, s)"

definition wbind :: "('env, 's, 'a, 'x) wf \<Rightarrow> ('a \<Rightarrow> ('env, 's, 'b, 'x) wf) \<Rightarrow> ('env, 's, 'b, 'x) wf" where
  "wbind m f env s =
     (case m env s of (Val a, t) \<Rightarrow> f a env t | (Exn x, t) \<Rightarrow> (Exn x, t) | (Parked p, t) \<Rightarrow> (Parked p, t))"

definition wseq :: "('env, 's, 'a, 'x) wf \<Rightarrow> ('env, 's, 'b, 'x) wf \<Rightarrow> ('env, 's, 'b, 'x) wf" where
  "wseq m n = wbind m (\<lambda>_. n)"

text \<open>\<open>try: m except: ...\<close> with the outcome as a value.\<close>

definition attempt :: "('env, 's, 'a, 'x) wf \<Rightarrow> ('env, 's, 'x + 'a, 'x) wf" where
  "attempt m env s =
     (case m env s of (Val a, t) \<Rightarrow> (Val (Inr a), t) | (Exn x, t) \<Rightarrow> (Val (Inl x), t) | (Parked p, t) \<Rightarrow> (Parked p, t))"

text \<open>\<open>with contextlib.suppress(Exception): m\<close>\<close>

definition suppress :: "('env, 's, 'a, 'x) wf \<Rightarrow> ('env, 's, unit, 'x) wf" where
  "suppress m = wbind (attempt m) (\<lambda>_. wret ())"

definition wget :: "('s \<Rightarrow> 'a) \<Rightarrow> ('env, 's, 'a, 'x) wf" where
  "wget f env s = (Val (f s), s)"

definition wask :: "('env \<Rightarrow> 'a) \<Rightarrow> ('env, 's, 'a, 'x) wf" where
  "wask f env s = (Val (f env), s)"

definition wmod :: "('s \<Rightarrow> 's) \<Rightarrow> ('env, 's, unit, 'x) wf" where
  "wmod f env s = (Val (), f s)"

definition wif :: "bool \<Rightarrow> ('env, 's, unit, 'x) wf \<Rightarrow> ('env, 's, unit, 'x) wf" where
  "wif b m = (if b then m else wret ())"

fun wfor :: "('i \<Rightarrow> ('env, 's, unit, 'x) wf) \<Rightarrow> 'i list \<Rightarrow> ('env, 's, unit, 'x) wf" where
  "wfor f [] = wret ()"
| "wfor f (i # is) = wseq (f i) (wfor f is)"

section \<open>Relations between the states before and after\<close>

text \<open>
  \<open>relates R m\<close>: whatever the environment answers, the state \<open>m\<close> leaves is \<open>R\<close>-related to the state it
  starts in, also when it raises or parks. For a preorder this composes along a program, which is
  what the interface states; invariants are the relations \<open>I s \<longrightarrow> I t\<close>.
\<close>

definition relates :: "('env \<Rightarrow> 's \<Rightarrow> 's \<Rightarrow> bool) \<Rightarrow> ('env, 's, 'a, 'x) wf \<Rightarrow> bool" where
  "relates R m \<longleftrightarrow> (\<forall>env s. R env s (snd (m env s)))"

lemma relatesD: "relates R m \<Longrightarrow> m env s = (r, t) \<Longrightarrow> R env s t"
  unfolding relates_def by (metis snd_conv)

lemma relatesI: "(\<And>env s r t. m env s = (r, t) \<Longrightarrow> R env s t) \<Longrightarrow> relates R m"
  unfolding relates_def by (metis surjective_pairing)

lemma relates_if: "(b \<Longrightarrow> relates R m) \<Longrightarrow> (\<not> b \<Longrightarrow> relates R n) \<Longrightarrow> relates R (if b then m else n)"
  by simp

lemma relates_option:
  "(x = None \<Longrightarrow> relates R m) \<Longrightarrow> (\<And>a. x = Some a \<Longrightarrow> relates R (f a)) \<Longrightarrow>
   relates R (case x of None \<Rightarrow> m | Some a \<Rightarrow> f a)"
  by (cases x) auto

lemma relates_sum:
  "(\<And>a. x = Inl a \<Longrightarrow> relates R (f a)) \<Longrightarrow> (\<And>b. x = Inr b \<Longrightarrow> relates R (g b)) \<Longrightarrow>
   relates R (case x of Inl a \<Rightarrow> f a | Inr b \<Rightarrow> g b)"
  by (cases x) auto

lemma relates_prod: "(\<And>a b. x = (a, b) \<Longrightarrow> relates R (f a b)) \<Longrightarrow> relates R (case x of (a, b) \<Rightarrow> f a b)"
  by (cases x) auto

lemmas relates_cases = relates_if relates_option relates_sum relates_prod

locale wf_relation =
  fixes R :: "'env \<Rightarrow> 's \<Rightarrow> 's \<Rightarrow> bool"
  assumes related_refl: "R env s s"
    and related_trans: "\<lbrakk>R env s t; R env t u\<rbrakk> \<Longrightarrow> R env s u"
begin

lemma relates_ret: "relates R (wret a)"
  by (simp add: relates_def wret_def related_refl)

lemma relates_raise: "relates R (wraise x)"
  by (simp add: relates_def wraise_def related_refl)

lemma relates_get: "relates R (wget f)"
  by (simp add: relates_def wget_def related_refl)

lemma relates_ask: "relates R (wask f)"
  by (simp add: relates_def wask_def related_refl)

lemma relates_mod: "(\<And>env s. R env s (f s)) \<Longrightarrow> relates R (wmod f)"
  by (simp add: relates_def wmod_def)

lemma relates_bind:
  assumes m: "relates R m" and f: "\<And>a. relates R (f a)"
  shows "relates R (wbind m f)"
proof (rule relatesI)
  fix env s r t
  assume run: "wbind m f env s = (r, t)"
  obtain q u where q: "m env s = (q, u)"
    by fastforce
  have su: "R env s u"
    using m q by (rule relatesD)
  show "R env s t"
  proof (cases q)
    case (Val a)
    then have "R env u t"
      using relatesD [OF f] run q by (simp add: wbind_def)
    with su show ?thesis
      by (rule related_trans)
  qed (use run q su in \<open>simp_all add: wbind_def\<close>)
qed

lemma relates_seq: "relates R m \<Longrightarrow> relates R n \<Longrightarrow> relates R (wseq m n)"
  unfolding wseq_def by (rule relates_bind)

lemma relates_attempt: "relates R m \<Longrightarrow> relates R (attempt m)"
  unfolding relates_def attempt_def by (auto split: prod.splits outcome.splits) (metis snd_conv)+

lemma relates_suppress: "relates R m \<Longrightarrow> relates R (suppress m)"
  unfolding suppress_def by (intro relates_bind relates_attempt relates_ret)

lemma relates_wif: "(b \<Longrightarrow> relates R m) \<Longrightarrow> relates R (wif b m)"
  by (simp add: wif_def relates_ret)

lemma relates_for: "(\<And>i. i \<in> set is \<Longrightarrow> relates R (f i)) \<Longrightarrow> relates R (wfor f is)"
  by (induction "is") (simp_all add: relates_ret relates_seq)

lemmas relates_program = relates_ret relates_raise relates_get relates_ask relates_bind relates_seq
  relates_attempt relates_suppress relates_wif relates_for relates_cases

end

section \<open>Relations under an assertion\<close>

text \<open>
  \<open>triple R P m Q\<close>: from a state that satisfies \<open>P\<close>, the states before and after \<open>m\<close> are \<open>R\<close>-related, and
  \<open>Q\<close> holds of the value and the state when \<open>m\<close> gives one.
\<close>

definition triple ::
  "('env \<Rightarrow> 's \<Rightarrow> 's \<Rightarrow> bool) \<Rightarrow> ('env \<Rightarrow> 's \<Rightarrow> bool) \<Rightarrow> ('env, 's, 'a, 'x) wf \<Rightarrow> ('a \<Rightarrow> 'env \<Rightarrow> 's \<Rightarrow> bool) \<Rightarrow> bool" where
  "triple R P m Q \<longleftrightarrow>
     (\<forall>env s r t. P env s \<longrightarrow> m env s = (r, t) \<longrightarrow> R env s t \<and> (\<forall>a. r = Val a \<longrightarrow> Q a env t))"

abbreviation anything :: "'env \<Rightarrow> 's \<Rightarrow> bool" where
  "anything \<equiv> \<lambda>_ _. True"

lemma tripleI:
  "(\<And>env s r t. P env s \<Longrightarrow> m env s = (r, t) \<Longrightarrow> R env s t \<and> (\<forall>a. r = Val a \<longrightarrow> Q a env t)) \<Longrightarrow> triple R P m Q"
  by (simp add: triple_def)

lemma tripleD:
  "triple R P m Q \<Longrightarrow> P env s \<Longrightarrow> m env s = (r, t) \<Longrightarrow> R env s t"
  "triple R P m Q \<Longrightarrow> P env s \<Longrightarrow> m env s = (Val a, t) \<Longrightarrow> Q a env t"
  by (simp_all add: triple_def)

lemma triple_relates: "relates R m \<longleftrightarrow> triple R anything m (\<lambda>_. anything)"
  unfolding triple_def relates_def by (metis snd_conv surjective_pairing)

lemma triple_conseq:
  "triple R P m Q \<Longrightarrow> (\<And>env s. P' env s \<Longrightarrow> P env s) \<Longrightarrow> (\<And>a env s. Q a env s \<Longrightarrow> Q' a env s) \<Longrightarrow> triple R P' m Q'"
  unfolding triple_def by blast

lemma triple_pre: "triple R P m Q \<Longrightarrow> (\<And>env s. P' env s \<Longrightarrow> P env s) \<Longrightarrow> triple R P' m Q"
  by (rule triple_conseq)

lemma triple_weaken: "relates R m \<Longrightarrow> triple R P m (\<lambda>_. anything)"
  unfolding triple_relates by (erule triple_pre) simp

lemma triple_cases:
  "(b \<Longrightarrow> triple R P m Q) \<Longrightarrow> (\<not> b \<Longrightarrow> triple R P n Q) \<Longrightarrow> triple R P (if b then m else n) Q"
  "(x = None \<Longrightarrow> triple R P m Q) \<Longrightarrow> (\<And>a. x = Some a \<Longrightarrow> triple R P (f a) Q) \<Longrightarrow>
   triple R P (case x of None \<Rightarrow> m | Some a \<Rightarrow> f a) Q"
  "(\<And>a. y = Inl a \<Longrightarrow> triple R P (g a) Q) \<Longrightarrow> (\<And>b. y = Inr b \<Longrightarrow> triple R P (h b) Q) \<Longrightarrow>
   triple R P (case y of Inl a \<Rightarrow> g a | Inr b \<Rightarrow> h b) Q"
  "(\<And>a b. z = (a, b) \<Longrightarrow> triple R P (k a b) Q) \<Longrightarrow> triple R P (case z of (a, b) \<Rightarrow> k a b) Q"
  by (cases b; cases x; cases y; cases z; simp)+

text \<open>A predicate that a second relation carries over can be framed onto a triple.\<close>

lemma triple_frame:
  assumes "triple R P m Q" and "relates S m" and "\<And>env s t. S env s t \<Longrightarrow> F env s \<Longrightarrow> F env t"
  shows "triple R (\<lambda>env s. P env s \<and> F env s) m (\<lambda>a env s. Q a env s \<and> F env s)"
  using assms unfolding triple_def relates_def by (metis snd_conv)

context wf_relation
begin

lemma triple_ret: "(\<And>env s. P env s \<Longrightarrow> Q a env s) \<Longrightarrow> triple R P (wret a) Q"
  by (auto simp: triple_def wret_def related_refl)

lemma triple_raise: "triple R P (wraise x) Q"
  by (auto simp: triple_def wraise_def related_refl)

lemma triple_get: "triple R P (wget f) (\<lambda>a env s. P env s \<and> a = f s)"
  by (auto simp: triple_def wget_def related_refl)

lemma triple_ask: "triple R P (wask f) (\<lambda>a env s. P env s \<and> a = f env)"
  by (auto simp: triple_def wask_def related_refl)

lemma triple_bind:
  assumes m: "triple R P m Q" and f: "\<And>a. triple R (Q a) (f a) U"
  shows "triple R P (wbind m f) U"
proof (rule tripleI)
  fix env s r t
  assume P: "P env s" and run: "wbind m f env s = (r, t)"
  obtain q u where q: "m env s = (q, u)"
    by fastforce
  have su: "R env s u"
    using tripleD(1) [OF m P q] .
  show "R env s t \<and> (\<forall>a. r = Val a \<longrightarrow> U a env t)"
  proof (cases q)
    case (Val a)
    then have "f a env u = (r, t)" "Q a env u"
      using run q tripleD(2) [OF m P] by (auto simp: wbind_def)
    then have "R env u t \<and> (\<forall>a. r = Val a \<longrightarrow> U a env t)"
      using f [of a] by (auto simp: triple_def)
    with su show ?thesis
      using related_trans by blast
  qed (use run q su in \<open>auto simp: wbind_def\<close>)
qed

lemma triple_seq:
  assumes "triple R P m (\<lambda>_. Q)" and "triple R Q n U"
  shows "triple R P (wseq m n) U"
  unfolding wseq_def using assms by (rule triple_bind)

end

section \<open>Running\<close>

lemma wbind_Val: "m env s = (Val a, t) \<Longrightarrow> wbind m f env s = f a env t"
  by (simp add: wbind_def)

lemma wget_Val: "wget f env s = (Val (f s), s)"
  by (simp add: wget_def)

lemma wbindE:
  assumes "wbind m f env s = (r, t)"
  obtains a u where "m env s = (Val a, u)" "f a env u = (r, t)"
  | x where "m env s = (Exn x, t)" "r = Exn x"
  | p where "m env s = (Parked p, t)" "r = Parked p"
  using assms by (auto simp: wbind_def split: prod.splits outcome.splits)

lemma wbind_ValE:
  assumes "wbind m f env s = (Val b, t)"
  obtains a u where "m env s = (Val a, u)" "f a env u = (Val b, t)"
  using assms by (auto simp: wbind_def split: prod.splits outcome.splits)

lemmas w_simps = wret_def wraise_def wget_def wask_def wmod_def

end
