(* ===== verification/AgentTask.thy ===== *)
theory AgentTask
  imports WorkflowMonad
begin

text \<open>
  \<open>packages/workflows/src/jhin_workflows/agent_task/workflows.py\<close>: the durable run of one agent-owned
  task, as a program of the execution model of \<open>WorkflowMonad\<close>. The environment answers every activity
  and child workflow by the tick at which it was asked; the signals of a tick change the state through
  the workflow's own handlers. The trace records every command the workflow issued together with
  whether a cancel had been delivered when it did.
\<close>

section \<open>Failures\<close>

text \<open>
  One exception of a cause chain: the \<open>type\<close> attribute, the \<open>message\<close> attribute, \<open>str()\<close> of it, and
  whether it is an \<open>ApplicationError\<close>.
\<close>

record exn_link =
  xl_type :: "string option"
  xl_message :: "string option"
  xl_str :: string
  xl_application :: bool

datatype failure_kind = ActivityFailure | AlreadyStarted | OtherFailure

text \<open>An exception with its causes, the exception itself first.\<close>

record wf_failure =
  f_kind :: failure_kind
  f_head :: exn_link
  f_causes :: "exn_link list"

definition failure_chain :: "wf_failure \<Rightarrow> exn_link list" where
  "failure_chain x = take 8 (f_head x # f_causes x)"

definition GENERIC_FAILURE_TEXTS :: "string list" where
  "GENERIC_FAILURE_TEXTS = [''Activity task failed'', ''Child workflow execution failed'']"

definition SPECIFIC_FAILURE_CODES :: "string list" where
  "SPECIFIC_FAILURE_CODES = [''insufficient_funds'', ''budget_exceeded'', ''model_incompatible_request'',
                             ''model_output_truncated'']"

definition ORDINARY_TOOL_FAILURE_MESSAGE :: string where
  "ORDINARY_TOOL_FAILURE_MESSAGE = ''bound tool execution was rejected before a usable outcome''"

definition specific_code :: "exn_link \<Rightarrow> string option" where
  "specific_code l =
     (case xl_type l of Some t \<Rightarrow> if t \<in> set SPECIFIC_FAILURE_CODES then Some t else None | None \<Rightarrow> None)"

definition failure_code :: "wf_failure \<Rightarrow> string \<Rightarrow> string" where
  "failure_code x fallback =
     (case List.find (\<lambda>l. specific_code l \<noteq> None) (failure_chain x) of
        None \<Rightarrow> fallback
      | Some l \<Rightarrow> (case specific_code l of None \<Rightarrow> fallback | Some c \<Rightarrow> c))"

definition is_ordinary_tool_failure :: "wf_failure \<Rightarrow> bool" where
  "is_ordinary_tool_failure x =
     list_ex (\<lambda>l. xl_application l \<and> xl_message l = Some ORDINARY_TOOL_FAILURE_MESSAGE) (failure_chain x)"

text \<open>\<open>getattr(current, "message", None) or str(current)\<close>\<close>

definition link_text :: "exn_link \<Rightarrow> string" where
  "link_text l = (case xl_message l of None \<Rightarrow> xl_str l | Some m \<Rightarrow> if m = [] then xl_str l else m)"

definition failure_message :: "wf_failure \<Rightarrow> string" where
  "failure_message x =
     take 2000 (foldl (\<lambda>message l. if link_text l \<noteq> [] \<and> link_text l \<notin> set GENERIC_FAILURE_TEXTS
                                   then link_text l else message)
                  (xl_str (f_head x)) (failure_chain x))"

section \<open>What the activities answer\<close>

record snapshot_result =
  sn_run_id :: string
  sn_max_steps :: nat
  sn_queued :: bool
  sn_queue_reason :: string
  sn_denied_code :: string
  sn_denied_message :: string

record delegation_request =
  dq_child_task_id :: string
  dq_blocking :: bool

record work_request_start =
  ws_work_request_id :: string
  ws_task_id :: string
  ws_agent_id :: string
  ws_side :: string

record review_signal =
  rg_review_id :: string
  rg_status :: string
  rg_source_workflow_id :: string

record person_question =
  pq_question_id :: string
  pq_required :: bool

record step_result =
  st_done :: bool
  st_input_tokens :: int
  st_output_tokens :: int
  st_cost_micros :: int
  st_waiting_approval_id :: "string option"
  st_waiting_review_id :: "string option"
  st_delegations :: "delegation_request list"
  st_work_request_starts :: "work_request_start list"
  st_corpus_sync_starts :: "string list"
  st_review_decisions :: "review_signal list"
  st_person_questions :: "person_question list"
  st_execution_unknown :: "string option"

record bound_result =
  bo_tool_call_id :: string
  bo_stop_reason :: "string option"

section \<open>State\<close>

datatype wf_signal =
    Pause | Resume | Cancel
  | UserInstruction string
  | ApprovalDecision string string
  | ReviewDecision string string
  | QuestionAnswer string
  | SlotAvailable

text \<open>The commands a run issues; the steps of a run are numbered.\<close>

datatype command =
    CResolveSnapshot
  | CResolveTools
  | CReason nat "string list"
  | CExecuteTool nat nat
  | CCommitStep nat "string list" "string option"
  | CRunStep nat "string list"
  | CStartDelegation string bool
  | CDeliverDelegation string
  | CDeliverAnswer string bool
  | CCorpusSync string
  | CAdvanceCorpus string
  | CPrepareContinuation string
  | CStartWorkRequest string bool
  | CFinalizeWorkRequest string
  | CNoteUnanswered string
  | CForwardReview string string string
  | CResolveReview string
  | CCommitReview string string
  | CResolveBoundApproval string
  | CCommitApproval string string
  | CResolveApproval string string
  | CMarkPaused bool
  | CCleanup string
  | CFinalize "string option" string nat "string option" "string option"

record task_state =
  a_clock :: nat
  a_trace :: "(command \<times> bool) list"
  a_status :: string
  a_waiting_reason :: "string option"
  a_paused :: bool
  a_cancelled :: bool
  a_steps_used :: nat
  a_pending_instructions :: "string list"
  a_approval_decisions :: "string dict"
  a_review_decisions :: "string dict"
  a_question_answers :: "string list"
  a_slot_kick :: bool
  a_input_tokens :: int
  a_output_tokens :: int
  a_cost_micros :: int

definition initial_task_state :: task_state where
  "initial_task_state = \<lparr>a_clock = 0, a_trace = [], a_status = ''starting'', a_waiting_reason = None,
     a_paused = False, a_cancelled = False, a_steps_used = 0, a_pending_instructions = [],
     a_approval_decisions = [], a_review_decisions = [], a_question_answers = [], a_slot_kick = False,
     a_input_tokens = 0, a_output_tokens = 0, a_cost_micros = 0\<rparr>"

text \<open>The signal handlers.\<close>

fun handle_signal :: "wf_signal \<Rightarrow> task_state \<Rightarrow> task_state" where
  "handle_signal Pause s = s\<lparr>a_paused := True\<rparr>"
| "handle_signal Resume s = s\<lparr>a_paused := False\<rparr>"
| "handle_signal Cancel s = s\<lparr>a_cancelled := True\<rparr>"
| "handle_signal (UserInstruction text) s =
     (if text \<noteq> [] then s\<lparr>a_pending_instructions := a_pending_instructions s @ [text]\<rparr> else s)"
| "handle_signal (ApprovalDecision i d) s =
     (if i \<noteq> [] \<and> d \<in> {''approved'', ''rejected''}
      then s\<lparr>a_approval_decisions := dict_set (a_approval_decisions s) i d\<rparr> else s)"
| "handle_signal (ReviewDecision i d) s =
     (if i \<noteq> [] \<and> d \<in> {''approved'', ''changes_requested'', ''escalated''}
      then s\<lparr>a_review_decisions := dict_set (a_review_decisions s) i d\<rparr> else s)"
| "handle_signal (QuestionAnswer i) s =
     (if i \<noteq> [] then s\<lparr>a_question_answers := i # a_question_answers s\<rparr> else s)"
| "handle_signal SlotAvailable s = s\<lparr>a_slot_kick := True\<rparr>"

section \<open>Environment\<close>

text \<open>
  The patches a history was recorded with, the signals of every tick, and the answer to every command
  by tick. A child workflow started at a tick is done from \<open>en_child_done\<close> on; \<open>en_bound_id\<close> is the
  UUIDv5 of a step's ordinal, a hash.
\<close>

record task_env =
  en_horizon :: nat
  en_signals :: "nat \<Rightarrow> wf_signal list"
  en_timeout :: "nat \<Rightarrow> bool"
  en_snapshot :: "nat \<Rightarrow> wf_failure + snapshot_result"
  en_reason :: "nat \<Rightarrow> wf_failure + nat"
  en_bound :: "nat \<Rightarrow> wf_failure + bound_result"
  en_step :: "nat \<Rightarrow> wf_failure + step_result"
  en_unit :: "nat \<Rightarrow> wf_failure + unit"
  en_corpus_status :: "nat \<Rightarrow> wf_failure + string"
  en_child_done :: "nat \<Rightarrow> nat"
  en_child_result :: "nat \<Rightarrow> wf_failure + unit"
  en_bound_id :: "string \<Rightarrow> nat \<Rightarrow> nat \<Rightarrow> string"
  en_tool_worker :: bool
  en_drain :: bool
  en_pause_observed :: bool
  en_ask_person :: bool
  en_requester_wait :: bool
  en_continuation :: bool

type_synonym 'a task_wf = "(task_env, task_state, 'a, wf_failure) wf"

definition deliver :: "task_env \<Rightarrow> task_state \<Rightarrow> task_state" where
  "deliver env s = fold handle_signal (en_signals env (a_clock s)) (s\<lparr>a_clock := Suc (a_clock s)\<rparr>)"

text \<open>One awaited command: issued, then suspended until its tick is over.\<close>

definition command :: "command \<Rightarrow> (task_env \<Rightarrow> nat \<Rightarrow> wf_failure + 'a) \<Rightarrow> 'a task_wf" where
  "command c answer env s =
     (let s1 = s\<lparr>a_trace := a_trace s @ [(c, a_cancelled s)]\<rparr>
      in if en_horizon env \<le> a_clock s then (Parked AtCommand, s1)
         else (case answer env (a_clock s) of
                 Inl x \<Rightarrow> (Exn x, deliver env s1)
               | Inr a \<Rightarrow> (Val a, deliver env s1)))"

text \<open>\<open>workflow.wait_condition\<close>, without and with a timeout (the value says whether the condition held).\<close>

function wait_condition :: "(task_env \<Rightarrow> task_state \<Rightarrow> bool) \<Rightarrow> unit task_wf" where
  "wait_condition cond env s =
     (if cond env s then (Val (), s)
      else if en_horizon env \<le> a_clock s then (Parked AtWait, s)
      else wait_condition cond env (deliver env s))"
  by pat_completeness auto

function wait_timeout :: "(task_env \<Rightarrow> task_state \<Rightarrow> bool) \<Rightarrow> bool task_wf" where
  "wait_timeout cond env s =
     (if cond env s then (Val True, s)
      else if en_timeout env (a_clock s) then (Val False, s)
      else if en_horizon env \<le> a_clock s then (Parked AtWait, s)
      else wait_timeout cond env (deliver env s))"
  by pat_completeness auto

text \<open>Delivering a tick advances the clock by one, whatever its signals do.\<close>

lemma handle_signal_clock [simp]: "a_clock (handle_signal g s) = a_clock s"
  by (cases g) auto

lemma fold_handle_signal_clock [simp]: "a_clock (fold handle_signal gs s) = a_clock s"
  by (induction gs arbitrary: s) auto

lemma deliver_clock [simp]: "a_clock (deliver env s) = Suc (a_clock s)"
  by (simp add: deliver_def)

termination wait_condition
  by (relation "measure (\<lambda>(cond, env, s). en_horizon env - a_clock s)") auto

termination wait_timeout
  by (relation "measure (\<lambda>(cond, env, s). en_horizon env - a_clock s)") auto

declare wait_condition.simps [simp del] wait_timeout.simps [simp del]

definition set_status :: "string \<Rightarrow> unit task_wf" where
  "set_status x = wmod (\<lambda>s. s\<lparr>a_status := x\<rparr>)"

definition set_waiting :: "string option \<Rightarrow> unit task_wf" where
  "set_waiting x = wmod (\<lambda>s. s\<lparr>a_waiting_reason := x\<rparr>)"

definition unit_command :: "command \<Rightarrow> unit task_wf" where
  "unit_command c = command c (\<lambda>env t. en_unit env t)"

section \<open>Child workflows and waits\<close>

record task_params =
  ap_task_id :: string
  ap_agent_id :: string

definition cancel_or :: "(task_env \<Rightarrow> task_state \<Rightarrow> bool) \<Rightarrow> task_env \<Rightarrow> task_state \<Rightarrow> bool" where
  "cancel_or cond env s \<longleftrightarrow> cond env s \<or> a_cancelled s"

definition child_done :: "nat \<Rightarrow> task_env \<Rightarrow> task_state \<Rightarrow> bool" where
  "child_done h env s \<longleftrightarrow> en_child_done env h \<le> a_clock s"

definition test :: "(task_env \<Rightarrow> task_state \<Rightarrow> bool) \<Rightarrow> bool task_wf" where
  "test cond env s = (Val (cond env s), s)"

text \<open>\<open>child_future.result()\<close>\<close>

definition child_result :: "nat \<Rightarrow> unit task_wf" where
  "child_result h env s = (case en_child_result env h of Inl x \<Rightarrow> (Exn x, s) | Inr _ \<Rightarrow> (Val (), s))"

definition mark_paused :: "bool \<Rightarrow> unit task_wf" where
  "mark_paused paused =
     wbind (wask en_pause_observed) (\<lambda>patched. wif patched (suppress (unit_command (CMarkPaused paused))))"

definition run_delegation :: "delegation_request \<Rightarrow> unit task_wf" where
  "run_delegation req =
     wbind (wget a_clock) (\<lambda>h.
     wseq (unit_command (CStartDelegation (dq_child_task_id req) (dq_blocking req)))
       (wif (dq_blocking req)
          (wseq (set_status ''waiting_delegation'')
          (wseq (set_waiting (Some (''delegation:'' @ dq_child_task_id req)))
          (wseq (wait_condition (cancel_or (child_done h)))
          (wbind (test (child_done h)) (\<lambda>finished. wif finished
            (wseq (child_result h)
            (wseq (set_waiting None)
            (wseq (set_status ''running'')
                  (unit_command (CDeliverDelegation (dq_child_task_id req)))))))))))))"

definition forward_review :: "task_params \<Rightarrow> review_signal \<Rightarrow> unit task_wf" where
  "forward_review params decided =
     wif (rg_source_workflow_id decided \<noteq> [] \<and> rg_review_id decided \<noteq> [])
       (if rg_source_workflow_id decided = ''task-'' @ ap_task_id params
        then wmod (handle_signal (ReviewDecision (rg_review_id decided) (rg_status decided)))
        else suppress (unit_command
               (CForwardReview (rg_source_workflow_id decided) (rg_review_id decided) (rg_status decided))))"

text \<open>A command that answered took one tick inside the horizon.\<close>

lemma command_Val:
  "command c ans env s = (Val a, t) \<Longrightarrow> a_clock t = Suc (a_clock s) \<and> a_clock s < en_horizon env"
  by (auto simp: command_def Let_def split: if_splits sum.splits)

text \<open>\<open>while not self._cancelled\<close> of \<open>_await_corpus_sync\<close>\<close>

function advance_corpus :: "string \<Rightarrow> unit task_wf" where
  "advance_corpus sync env s =
     (if a_cancelled s then (Val (), s)
      else (case command (CAdvanceCorpus sync) en_corpus_status env s of
              (Val status, t) \<Rightarrow>
                if status \<notin> {''queued'', ''running''} then (Val (), t) else advance_corpus sync env t
            | (Exn x, t) \<Rightarrow> (Exn x, t)
            | (Parked p, t) \<Rightarrow> (Parked p, t)))"
  by pat_completeness auto

termination
proof (relation "measure (\<lambda>(sync, env, s). en_horizon env - a_clock s)", simp, goal_cases)
  case (1 sync env s x t status)
  then have "a_clock t = Suc (a_clock s) \<and> a_clock s < en_horizon env"
    using command_Val by metis
  then show ?case by simp linarith
qed

declare advance_corpus.simps [simp del]

definition await_corpus_sync :: "string \<Rightarrow> unit task_wf" where
  "await_corpus_sync sync =
     wbind (attempt (unit_command (CCorpusSync sync))) (\<lambda>r.
       case r of
         Inr _ \<Rightarrow> wret ()
       | Inl x \<Rightarrow> if f_kind x = AlreadyStarted then advance_corpus sync else wraise x)"

definition WORK_REQUEST_SIDE_REQUESTER :: string where
  "WORK_REQUEST_SIDE_REQUESTER = ''requester''"

definition await_work_request_answer :: "task_params \<Rightarrow> work_request_start \<Rightarrow> nat \<Rightarrow> unit task_wf" where
  "await_work_request_answer params accepted h =
     wif (ws_side accepted = WORK_REQUEST_SIDE_REQUESTER \<and> ws_agent_id accepted \<noteq> ap_agent_id params)
     (wbind (wask en_requester_wait) (\<lambda>patched. wif patched
       (wseq (set_status ''waiting_work_request'')
       (wseq (set_waiting (Some (''work_request:'' @ ws_work_request_id accepted)))
       (wbind (wait_timeout (cancel_or (child_done h))) (\<lambda>_.
       (wseq (set_waiting None)
       (wseq (set_status ''running'')
       (wbind (wget a_cancelled) (\<lambda>cancelled. wif (\<not> cancelled)
         (wbind (test (\<lambda>env s. child_done h env s \<and> (case en_child_result env h of Inl _ \<Rightarrow> False | Inr _ \<Rightarrow> True)))
           (\<lambda>answered. wif (\<not> answered)
              (suppress (unit_command (CNoteUnanswered (ws_work_request_id accepted))))))))))))))))"

definition start_work_request_task :: "task_params \<Rightarrow> work_request_start \<Rightarrow> bool task_wf" where
  "start_work_request_task params accepted =
     wbind (wask en_continuation) (\<lambda>patched.
     let durable = (ws_side accepted = WORK_REQUEST_SIDE_REQUESTER
                    \<and> ws_agent_id accepted \<noteq> ap_agent_id params \<and> patched)
     in wseq (wif durable (unit_command (CPrepareContinuation (ws_work_request_id accepted))))
       (wbind (wget a_clock) (\<lambda>h.
        wbind (attempt (unit_command (CStartWorkRequest (ws_work_request_id accepted) durable))) (\<lambda>r.
          case r of
            Inl x \<Rightarrow>
              if f_kind x = AlreadyStarted then wret durable
              else wseq (suppress (unit_command (CFinalizeWorkRequest (ws_work_request_id accepted)))) (wret durable)
          | Inr _ \<Rightarrow>
              wseq (wif (\<not> durable) (await_work_request_answer params accepted h)) (wret durable)))))"

fun start_work_requests :: "task_params \<Rightarrow> work_request_start list \<Rightarrow> bool \<Rightarrow> bool task_wf" where
  "start_work_requests params [] yield_for_result = wret yield_for_result"
| "start_work_requests params (a # as) yield_for_result =
     wbind (start_work_request_task params a) (\<lambda>b. start_work_requests params as (b \<or> yield_for_result))"

definition await_person_answer :: "person_question \<Rightarrow> unit task_wf" where
  "await_person_answer q =
     wbind (wask en_ask_person) (\<lambda>patched. wif patched
       (wseq (set_status ''waiting_person'')
       (wseq (set_waiting (Some (''question:'' @ pq_question_id q)))
       (wbind
          (let cond = cancel_or (\<lambda>env s. pq_question_id q \<in> set (a_question_answers s))
           in if pq_required q then wseq (wait_condition cond) (wret True) else wait_timeout cond)
          (\<lambda>in_time.
       (wseq (set_waiting None)
       (wseq (set_status ''running'')
       (wbind (wget a_cancelled) (\<lambda>cancelled. wif (\<not> cancelled)
         (wseq (wmod (\<lambda>s. s\<lparr>a_question_answers := filter (\<lambda>i. i \<noteq> pq_question_id q) (a_question_answers s)\<rparr>))
               (suppress (unit_command (CDeliverAnswer (pq_question_id q) (\<not> in_time))))))))))))))"

section \<open>One step\<close>

text \<open>
  The loop over a step's tool calls. The value is the ids bound so far and whether a durable outcome
  (an approval, a review, a delegation) stopped the manifest.
\<close>

fun execute_tools :: "string \<Rightarrow> nat \<Rightarrow> nat list \<Rightarrow> string list \<Rightarrow> (string list \<times> bool) task_wf" where
  "execute_tools run_id step [] ids = wret (ids, False)"
| "execute_tools run_id step (ordinal # rest) ids =
     wbind (wget a_cancelled) (\<lambda>cancelled.
     if cancelled then wret (ids, False)
     else
       wbind (attempt (command (CExecuteTool step ordinal) en_bound)) (\<lambda>r.
       case r of
         Inl x \<Rightarrow>
           if f_kind x = ActivityFailure \<and> is_ordinary_tool_failure x
           then wbind (wask (\<lambda>env. en_bound_id env run_id step ordinal)) (\<lambda>i.
                  execute_tools run_id step rest (ids @ [i]))
           else wraise x
       | Inr b \<Rightarrow>
           if bo_stop_reason b \<noteq> None then wret (ids @ [bo_tool_call_id b], True)
           else wbind (wget a_cancelled) (\<lambda>cancelled'.
                  if cancelled' then wret (ids @ [bo_tool_call_id b], False)
                  else execute_tools run_id step rest (ids @ [bo_tool_call_id b]))))"

text \<open>The tool-worker path of a step; \<open>None\<close> is its \<open>break\<close>.\<close>

definition reason_and_act :: "string \<Rightarrow> string list \<Rightarrow> step_result option task_wf" where
  "reason_and_act run_id instructions =
     wseq (unit_command CResolveTools)
     (wbind (wget a_steps_used) (\<lambda>step.
      wbind (command (CReason step instructions) en_reason) (\<lambda>call_count.
      wbind (execute_tools run_id step [0..<call_count] []) (\<lambda>(ids, stopped).
      wbind (wget a_cancelled) (\<lambda>cancelled.
        let truncated = (cancelled \<and> length ids < call_count \<and> \<not> stopped)
        in if truncated \<and> ids = [] then wret None
           else wbind (command (CCommitStep step ids (if truncated then Some (last ids) else None)) en_step)
                  (\<lambda>r. wret (Some r)))))))"

definition run_agent_step :: "string list \<Rightarrow> step_result option task_wf" where
  "run_agent_step instructions =
     wbind (wget a_steps_used) (\<lambda>step.
     wbind (command (CRunStep step instructions) en_step) (\<lambda>r. wret (Some r)))"

text \<open>The variables the loop of \<open>_run_step_loop\<close> carries.\<close>

record loop_vars =
  lv_done :: bool
  lv_code :: "string option"
  lv_message :: "string option"

definition fail_vars :: "loop_vars \<Rightarrow> string \<Rightarrow> string \<Rightarrow> loop_vars" where
  "fail_vars lv code message = lv\<lparr>lv_code := Some code, lv_message := Some message\<rparr>"

text \<open>What a turn of the loop ends with: \<open>Again\<close> falls through, \<open>Leave\<close> is a \<open>break\<close> or a \<open>return\<close>.\<close>

datatype turn = Again loop_vars | Leave loop_vars

text \<open>The delegations of a step, stopping at the first that raises.\<close>

fun run_delegations :: "delegation_request list \<Rightarrow> wf_failure option task_wf" where
  "run_delegations [] = wret None"
| "run_delegations (d # ds) =
     wbind (attempt (run_delegation d)) (\<lambda>r. case r of Inl x \<Rightarrow> wret (Some x) | Inr _ \<Rightarrow> run_delegations ds)"

definition unknown_message :: "string \<Rightarrow> string" where
  "unknown_message call =
     ''tool call '' @ call @ '' execution outcome is unknown; manual reconciliation is required''"

text \<open>
  The review wait: \<open>Inl\<close> leaves the loop, \<open>Inr\<close> goes on to the approval wait with the approval the
  reviewed call may have staged.
\<close>

definition await_review :: "bool \<Rightarrow> loop_vars \<Rightarrow> string \<Rightarrow> (loop_vars + string option) task_wf" where
  "await_review use_tool_worker lv review_id =
     (if \<not> use_tool_worker
      then wret (Inl (fail_vars lv ''review_wait_unsupported'' ''legacy histories cannot park on a work review''))
      else
        wseq (set_status ''waiting_review'')
        (wseq (set_waiting (Some (''review:'' @ review_id)))
        (wseq (wait_condition (cancel_or (\<lambda>env s. review_id \<in> set (dict_keys (a_review_decisions s)))))
        (wbind (wget (\<lambda>s. review_id \<in> set (dict_keys (a_review_decisions s)))) (\<lambda>decided.
         if \<not> decided then wret (Inl lv)
         else
           wseq (wmod (\<lambda>s. s\<lparr>a_review_decisions := filter (\<lambda>(k, v). k \<noteq> review_id) (a_review_decisions s)\<rparr>))
           (wseq (set_waiting None)
           (wseq (set_status ''running'')
           (wbind (attempt
              (wbind (command (CResolveReview review_id) en_bound) (\<lambda>b.
                 command (CCommitReview review_id (bo_tool_call_id b)) en_step)))
              (\<lambda>r. case r of
                     Inl x \<Rightarrow> wret (Inl (fail_vars lv ''review_resolution_failed'' (failure_message x)))
                   | Inr reviewed \<Rightarrow>
                       wret (case st_execution_unknown reviewed of
                               Some call \<Rightarrow> Inl (fail_vars lv ''tool_execution_unknown'' (unknown_message call))
                             | None \<Rightarrow> Inr (st_waiting_approval_id reviewed)))))))))))"

definition resolve_approval :: "bool \<Rightarrow> string \<Rightarrow> string \<Rightarrow> unit task_wf" where
  "resolve_approval use_tool_worker approval_id decision =
     (if use_tool_worker
      then wbind (command (CResolveBoundApproval approval_id) en_bound) (\<lambda>b.
             unit_command (CCommitApproval approval_id (bo_tool_call_id b)))
      else unit_command (CResolveApproval approval_id decision))"

definition await_approval :: "bool \<Rightarrow> loop_vars \<Rightarrow> string \<Rightarrow> turn task_wf" where
  "await_approval use_tool_worker lv approval_id =
     wseq (set_status ''waiting_approval'')
     (wseq (set_waiting (Some (''approval:'' @ approval_id)))
     (wseq (wait_condition (cancel_or (\<lambda>env s. approval_id \<in> set (dict_keys (a_approval_decisions s)))))
     (wbind (wget (\<lambda>s. dict_get (a_approval_decisions s) approval_id)) (\<lambda>decided.
        case decided of
          None \<Rightarrow> wret (Leave lv)
        | Some decision \<Rightarrow>
            wseq (wmod (\<lambda>s. s\<lparr>a_approval_decisions := filter (\<lambda>(k, v). k \<noteq> approval_id) (a_approval_decisions s)\<rparr>))
            (wseq (set_waiting None)
            (wseq (set_status ''running'')
            (wbind (attempt (resolve_approval use_tool_worker approval_id decision)) (\<lambda>r.
               case r of
                 Inl x \<Rightarrow> wret (Leave (fail_vars lv ''approval_resolution_failed'' (failure_message x)))
               | Inr _ \<Rightarrow> wret (Again lv)))))))))"

text \<open>What a step result means to the loop.\<close>

definition settle_step :: "task_params \<Rightarrow> bool \<Rightarrow> loop_vars \<Rightarrow> step_result \<Rightarrow> turn task_wf" where
  "settle_step params use_tool_worker lv step =
     (case st_execution_unknown step of
        Some call \<Rightarrow> wret (Leave (fail_vars lv ''tool_execution_unknown'' (unknown_message call)))
      | None \<Rightarrow>
          wbind (run_delegations (st_delegations step)) (\<lambda>failed.
          case failed of
            Some x \<Rightarrow> wret (Leave (fail_vars lv ''delegation_failed'' (failure_message x)))
          | None \<Rightarrow>
              wseq (wfor await_person_answer (take 1 (st_person_questions step)))
              (wseq (wfor await_corpus_sync (st_corpus_sync_starts step))
              (wbind (start_work_requests params (st_work_request_starts step) False) (\<lambda>yield_for_result.
               wseq (wfor (forward_review params) (st_review_decisions step))
               (if yield_for_result then wret (Leave (lv\<lparr>lv_done := True\<rparr>))
                else
                  wbind (case st_waiting_review_id step of
                           None \<Rightarrow> wret (Inr (st_waiting_approval_id step))
                         | Some review_id \<Rightarrow> await_review use_tool_worker lv review_id) (\<lambda>r.
                  case r of
                    Inl left \<Rightarrow> wret (Leave left)
                  | Inr None \<Rightarrow> wret (Again lv)
                  | Inr (Some approval_id) \<Rightarrow> await_approval use_tool_worker lv approval_id)))))))"

definition count_step :: "step_result \<Rightarrow> task_state \<Rightarrow> task_state" where
  "count_step step s =
     s\<lparr>a_steps_used := Suc (a_steps_used s), a_input_tokens := a_input_tokens s + st_input_tokens step,
       a_output_tokens := a_output_tokens s + st_output_tokens step,
       a_cost_micros := a_cost_micros s + st_cost_micros step\<rparr>"

text \<open>What follows the reasoning of a turn: its failure, its \<open>break\<close>, or its step.\<close>

definition after_reasoning ::
  "task_params \<Rightarrow> bool \<Rightarrow> loop_vars \<Rightarrow> wf_failure + step_result option \<Rightarrow> turn task_wf" where
  "after_reasoning params use_tool_worker lv reasoned =
     (case reasoned of
        Inl x \<Rightarrow>
          (let code = failure_code x ''step_failed''
           in if code = ''generation_cancelled''
              then wseq (wmod (\<lambda>s. s\<lparr>a_cancelled := True\<rparr>)) (wret (Leave (lv\<lparr>lv_code := None, lv_message := None\<rparr>)))
              else wret (Leave (fail_vars lv code (failure_message x))))
      | Inr None \<Rightarrow> wret (Leave lv)
      | Inr (Some step) \<Rightarrow>
          wseq (wmod (count_step step)) (settle_step params use_tool_worker (lv\<lparr>lv_done := st_done step\<rparr>) step))"

definition take_step :: "task_params \<Rightarrow> string \<Rightarrow> bool \<Rightarrow> loop_vars \<Rightarrow> turn task_wf" where
  "take_step params run_id use_tool_worker lv =
     wseq (set_status ''running'')
     (wbind (wget a_pending_instructions) (\<lambda>instructions.
      wseq (wmod (\<lambda>s. s\<lparr>a_pending_instructions := []\<rparr>))
      (wbind (attempt (if use_tool_worker then reason_and_act run_id instructions else run_agent_step instructions))
        (after_reasoning params use_tool_worker lv))))"

definition pause_turn :: "loop_vars \<Rightarrow> turn task_wf" where
  "pause_turn lv =
     wseq (set_status ''paused'')
     (wseq (set_waiting (Some ''paused_by_user''))
     (wseq (mark_paused True)
     (wseq (wait_condition (\<lambda>env s. \<not> a_paused s \<or> a_cancelled s))
     (wseq (set_waiting None)
     (wseq (mark_paused False) (wret (Again lv)))))))"

text \<open>One turn of the loop body, once its condition held.\<close>

definition loop_turn :: "task_params \<Rightarrow> string \<Rightarrow> bool \<Rightarrow> loop_vars \<Rightarrow> turn task_wf" where
  "loop_turn params run_id use_tool_worker lv =
     wbind (wget a_cancelled) (\<lambda>cancelled.
     if cancelled then wret (Leave lv)
     else wbind (wget a_paused) (\<lambda>paused.
            if paused then pause_turn lv else take_step params run_id use_tool_worker lv))"

end
