(* ===== verification/AgentTaskLaws.thy ===== *)
theory AgentTaskLaws
  imports AgentTask
begin

text \<open>
  What one turn of the agent-task loop can do to the workflow's state, for any preorder on states that
  its primitive steps respect (\<open>turn_relation\<close>): quiet updates, one tick of the clock, one command
  issued. The commands that start work (\<open>guarded_command\<close>) are issued only while no cancel has been
  delivered. Every property of the loop is one more interpretation of this interface.
\<close>

section \<open>Commands of the loop\<close>

text \<open>The commands that begin a model step or execute a tool.\<close>

fun guarded_command :: "command \<Rightarrow> bool" where
  "guarded_command CResolveTools = True"
| "guarded_command (CRunStep _ _) = True"
| "guarded_command (CExecuteTool _ _) = True"
| "guarded_command _ = False"

text \<open>The commands of the run around the loop: admission, cleanup and finalization.\<close>

fun frame_command :: "command \<Rightarrow> bool" where
  "frame_command CResolveSnapshot = True"
| "frame_command (CCleanup _) = True"
| "frame_command (CFinalize _ _ _ _ _) = True"
| "frame_command _ = False"

definition issued :: "command \<Rightarrow> task_state \<Rightarrow> task_state" where
  "issued c s = s\<lparr>a_trace := a_trace s @ [(c, a_cancelled s)]\<rparr>"

text \<open>Nothing but the workflow's own variables changed, and a cancel is never taken back.\<close>

definition same_core :: "task_state \<Rightarrow> task_state \<Rightarrow> bool" where
  "same_core s t \<longleftrightarrow> a_clock t = a_clock s \<and> a_trace t = a_trace s \<and> a_steps_used t = a_steps_used s
                    \<and> (a_cancelled s \<longrightarrow> a_cancelled t)"

lemma same_core_handle_signal: "same_core s (handle_signal g s)"
  by (cases g) (auto simp: same_core_def)

lemma same_core_trans: "same_core s t \<Longrightarrow> same_core t u \<Longrightarrow> same_core s u"
  by (simp add: same_core_def)

lemma same_core_fold: "same_core s (fold handle_signal gs s)"
proof (induction gs arbitrary: s)
  case (Cons g gs)
  then show ?case
    using same_core_trans same_core_handle_signal by fastforce
qed (simp add: same_core_def)

lemma deliver_core:
  "a_trace (deliver env s) = a_trace s" "a_steps_used (deliver env s) = a_steps_used s"
  "a_cancelled s \<Longrightarrow> a_cancelled (deliver env s)"
  using same_core_fold [of "s\<lparr>a_clock := Suc (a_clock s)\<rparr>" "en_signals env (a_clock s)"]
  by (simp_all add: deliver_def same_core_def)

lemma command_cases:
  assumes "command c ans env s = (r, t)"
  shows "(r = Parked AtCommand \<and> t = issued c s) \<or> (a_clock s < en_horizon env \<and> (\<forall>p. r \<noteq> Parked p) \<and> t = deliver env (issued c s))"
  using assms by (auto simp: command_def issued_def Let_def split: if_splits sum.splits)

locale turn_relation = wf_relation R for R :: "task_env \<Rightarrow> task_state \<Rightarrow> task_state \<Rightarrow> bool" +
  assumes quiet: "same_core s t \<Longrightarrow> R env s t"
    and tick: "a_clock s < en_horizon env \<Longrightarrow> R env s (deliver env s)"
    and issue: "\<lbrakk>\<not> frame_command c; guarded_command c \<longrightarrow> \<not> a_cancelled s\<rbrakk> \<Longrightarrow> R env s (issued c s)"
begin

section \<open>Primitive steps\<close>

lemma command_if:
  assumes "R env s (issued c s)"
  shows "R env s (snd (command c ans env s))"
proof -
  obtain r t where run: "command c ans env s = (r, t)"
    by fastforce
  from command_cases [OF run] have "R env (issued c s) t"
    using tick [of "issued c s" env] related_refl by (auto simp: issued_def)
  with assms run show ?thesis
    using related_trans by simp
qed

lemma relates_command_if: "(\<And>env s. R env s (issued c s)) \<Longrightarrow> relates R (command c ans)"
  unfolding relates_def by (intro allI command_if)

lemma command_at:
  assumes "\<not> frame_command c" and "guarded_command c \<longrightarrow> \<not> a_cancelled s"
  shows "R env s (snd (command c ans env s))"
  using assms by (intro command_if issue)

lemma relates_command: "\<lbrakk>\<not> frame_command c; \<not> guarded_command c\<rbrakk> \<Longrightarrow> relates R (command c ans)"
  by (intro relates_command_if issue) simp_all

lemma relates_unit_command: "\<lbrakk>\<not> frame_command c; \<not> guarded_command c\<rbrakk> \<Longrightarrow> relates R (unit_command c)"
  unfolding unit_command_def by (rule relates_command)

lemma relates_quiet: "(\<And>s. same_core s (f s)) \<Longrightarrow> relates R (wmod f)"
  by (intro relates_mod quiet)

lemma relates_status: "relates R (set_status x)" and relates_waiting: "relates R (set_waiting w)"
  unfolding set_status_def set_waiting_def by (intro relates_quiet, simp add: same_core_def)+

lemma relates_test: "relates R (test cond)"
  by (simp add: relates_def test_def related_refl)

lemma relates_child_result: "relates R (child_result h)"
  by (auto simp: relates_def child_result_def related_refl split: sum.split)

lemma relates_wait: "relates R (wait_condition cond)"
proof (rule relatesI)
  fix env s r t
  show "wait_condition cond env s = (r, t) \<Longrightarrow> R env s t"
  proof (induction cond env s arbitrary: r t rule: wait_condition.induct)
    case (1 cond env s)
    have "t = s \<or> (a_clock s < en_horizon env \<and> R env (deliver env s) t)"
      using "1.prems" "1.IH" wait_condition.simps [of cond env s] by (auto split: if_splits)
    then show ?case
      using related_refl tick related_trans by blast
  qed
qed

lemma relates_wait_timeout: "relates R (wait_timeout cond)"
proof (rule relatesI)
  fix env s r t
  show "wait_timeout cond env s = (r, t) \<Longrightarrow> R env s t"
  proof (induction cond env s arbitrary: r t rule: wait_timeout.induct)
    case (1 cond env s)
    have "t = s \<or> (a_clock s < en_horizon env \<and> R env (deliver env s) t)"
      using "1.prems" "1.IH" wait_timeout.simps [of cond env s] by (auto split: if_splits)
    then show ?case
      using related_refl tick related_trans by blast
  qed
qed

lemmas relates_steps = relates_program relates_command relates_unit_command relates_status relates_waiting
  relates_test relates_child_result relates_wait relates_wait_timeout

lemma bind_at: "\<lbrakk>R env s (snd (m env s)); \<And>a. relates R (f a)\<rbrakk> \<Longrightarrow> R env s (snd (wbind m f env s))"
  unfolding wbind_def relates_def
  by (cases "m env s") (auto split: outcome.splits intro: related_trans)

lemma attempt_at: "R env s (snd (m env s)) \<Longrightarrow> R env s (snd (attempt m env s))"
  by (auto simp: attempt_def split: prod.splits outcome.splits)

lemma relates_unless_cancelled:
  assumes "relates R m" and "\<And>env s. \<not> a_cancelled s \<Longrightarrow> R env s (snd (n env s))"
  shows "relates R (wbind (wget a_cancelled) (\<lambda>cancelled. if cancelled then m else n))"
  using assms by (simp add: relates_def wbind_def wget_def)

section \<open>Children and waits\<close>

lemma relates_mark_paused: "relates R (mark_paused b)"
  unfolding mark_paused_def by (intro relates_steps) simp_all

lemma relates_run_delegation: "relates R (run_delegation d)"
  unfolding run_delegation_def by (intro relates_steps) simp_all

lemma relates_forward_review: "relates R (forward_review params d)"
  unfolding forward_review_def
  by (intro relates_steps relates_quiet same_core_handle_signal) simp_all

lemma relates_advance_corpus: "relates R (advance_corpus sync)"
proof (rule relatesI)
  fix env s r t
  show "advance_corpus sync env s = (r, t) \<Longrightarrow> R env s t"
  proof (induction sync env s arbitrary: r t rule: advance_corpus.induct)
    case (1 sync env s)
    obtain q u where q: "command (CAdvanceCorpus sync) en_corpus_status env s = (q, u)"
      by fastforce
    have su: "R env s u"
      using relatesD [OF relates_command q] by simp
    show ?case
    proof (cases "t = s \<or> t = u")
      case False
      then obtain status where go: "\<not> a_cancelled s" "q = Val status" "\<not> status \<notin> {''queued'', ''running''}"
          and rec: "advance_corpus sync env u = (r, t)"
        using "1.prems" q advance_corpus.simps [of sync env s] by (cases q) (auto split: if_splits)
      from go(2) q have "command (CAdvanceCorpus sync) en_corpus_status env s = (Val status, u)"
        by (simp only:)
      from "1.IH" [OF go(1) this [symmetric] refl go(3) rec] show ?thesis
        by (rule related_trans [OF su])
    qed (use su related_refl in auto)
  qed
qed

lemma relates_await_corpus: "relates R (await_corpus_sync sync)"
  unfolding await_corpus_sync_def by (intro relates_steps relates_advance_corpus) simp_all

lemma relates_await_answer: "relates R (await_work_request_answer params w h)"
  unfolding await_work_request_answer_def by (intro relates_steps) simp_all

lemma relates_start_work_request: "relates R (start_work_request_task params w)"
  unfolding start_work_request_task_def Let_def
  by (intro relates_steps relates_await_answer) simp_all

lemma relates_start_work_requests: "relates R (start_work_requests params ws b)"
  by (induction params ws b rule: start_work_requests.induct)
     (simp_all add: relates_ret relates_bind relates_start_work_request)

lemma relates_await_person: "relates R (await_person_answer q)"
  unfolding await_person_answer_def Let_def
  by (intro relates_steps relates_quiet) (simp_all add: same_core_def)

section \<open>A step\<close>

lemma relates_execute_tools: "relates R (execute_tools run_id step os ids)"
proof (induction os arbitrary: ids)
  case (Cons o os)
  show ?case
    unfolding execute_tools.simps
    by (intro relates_unless_cancelled relates_ret bind_at attempt_at command_at)
       (auto intro!: relates_steps Cons.IH)
qed (simp add: relates_ret)

text \<open>After the tools were resolved, a step issues no guarded command but the tool calls, each behind its own check.\<close>

lemma reason_and_act_at:
  assumes "\<not> a_cancelled s"
  shows "R env s (snd (reason_and_act run_id ins env s))"
  unfolding reason_and_act_def wseq_def unit_command_def Let_def
  by (rule bind_at, rule command_at) (use assms in \<open>auto intro!: relates_steps relates_execute_tools\<close>)

lemma run_agent_step_at: "\<not> a_cancelled s \<Longrightarrow> R env s (snd (run_agent_step ins env s))"
  unfolding run_agent_step_def wbind_Val [where m = "wget a_steps_used", OF wget_Val]
  by (intro bind_at command_at relates_ret) simp_all

lemma relates_run_delegations: "relates R (run_delegations ds)"
  by (induction ds) (auto intro!: relates_steps relates_run_delegation)

lemma relates_await_review: "relates R (await_review tw lv i)"
  unfolding await_review_def
  by (intro relates_steps relates_quiet) (simp_all add: same_core_def)

lemma relates_resolve_approval: "relates R (resolve_approval tw i d)"
  unfolding resolve_approval_def by (intro relates_steps) simp_all

lemma relates_await_approval: "relates R (await_approval tw lv i)"
  unfolding await_approval_def
  by (intro relates_steps relates_quiet relates_resolve_approval) (simp_all add: same_core_def)

lemma relates_settle_step: "relates R (settle_step params tw lv step)"
  unfolding settle_step_def
  by (intro relates_steps relates_run_delegations relates_await_person relates_await_corpus
      relates_start_work_requests relates_forward_review relates_await_review relates_await_approval)

lemma relates_pause: "relates R (pause_turn lv)"
  unfolding pause_turn_def by (intro relates_steps relates_mark_paused)


section \<open>A turn\<close>

text \<open>A step that is taken either ends the loop without being counted, or is counted once and settled.\<close>

lemma take_step_split:
  assumes "\<not> a_cancelled s" and "take_step params run_id tw lv env s = (r, t)"
  shows "(R env s t \<and> (\<forall>v. r = Val v \<longrightarrow> (\<exists>lv'. v = Leave lv' \<and> lv_done lv' = lv_done lv)))
         \<or> (\<exists>u step. R env s u \<and> settle_step params tw (lv\<lparr>lv_done := st_done step\<rparr>) step env (count_step step u) = (r, t))"
proof -
  define u0 where "u0 = s\<lparr>a_status := ''running'', a_pending_instructions := []\<rparr>"
  define body where "body = (if tw then reason_and_act run_id (a_pending_instructions s)
                             else run_agent_step (a_pending_instructions s))"
  obtain p u where q: "attempt body env u0 = (p, u)"
    by fastforce
  have run: "wbind (attempt body) (after_reasoning params tw lv) env u0 = (r, t)"
    using assms(2) by (cases tw) (simp_all add: take_step_def wseq_def wbind_def w_simps set_status_def u0_def body_def)
  have "R env s u0"
    by (rule quiet) (simp add: same_core_def u0_def)
  moreover have "R env u0 u"
    using q attempt_at [of env u0 body] reason_and_act_at [of u0] run_agent_step_at [of u0] assms(1)
    by (auto simp: body_def u0_def split: if_splits)
  ultimately have su: "R env s u"
    by (rule related_trans)
  have no_exn: "p \<noteq> Exn x" for x
    using q by (auto simp: attempt_def split: prod.splits outcome.splits)
  have cancelled: "R env u (u\<lparr>a_cancelled := True\<rparr>)"
    by (rule quiet) (simp add: same_core_def)
  have left: "(R env s t \<and> (\<forall>v. r = Val v \<longrightarrow> (\<exists>lv'. v = Leave lv' \<and> lv_done lv' = lv_done lv)))"
    if "after_reasoning params tw lv (Inl x) env u = (r, t)" for x
    using that su related_trans [OF su cancelled]
    by (auto simp: after_reasoning_def Let_def fail_vars_def wseq_def wbind_def w_simps split: if_splits)
  show ?thesis
  proof (cases p)
    case (Val a)
    then have "after_reasoning params tw lv a env u = (r, t)"
      using run q by (simp add: wbind_def)
    then show ?thesis
      using su left by (cases a) (auto simp: after_reasoning_def wseq_def wbind_def w_simps split: option.splits)
  qed (use no_exn run q su in \<open>auto simp: wbind_def\<close>)
qed

lemma loop_turn_split:
  assumes "loop_turn params run_id tw lv env s = (r, t)"
  shows "(R env s t \<and> (\<forall>v. r = Val v \<longrightarrow> (\<exists>lv'. v = Leave lv' \<and> lv_done lv' = lv_done lv)))
         \<or> (R env s t \<and> a_paused s \<and> \<not> a_cancelled s \<and> pause_turn lv env s = (r, t))
         \<or> (\<exists>u step lv'. R env s u \<and> settle_step params tw lv' step env (count_step step u) = (r, t))"
proof -
  consider "a_cancelled s" | "\<not> a_cancelled s" "a_paused s" | "\<not> a_cancelled s" "\<not> a_paused s"
    by blast
  then show ?thesis
  proof cases
    case 1
    then show ?thesis
      using assms related_refl by (auto simp: loop_turn_def wbind_def w_simps)
  next
    case 2
    then have "pause_turn lv env s = (r, t)"
      using assms by (simp add: loop_turn_def wbind_def w_simps)
    with 2 relates_pause show ?thesis
      by (blast dest: relatesD)
  next
    case 3
    then have "take_step params run_id tw lv env s = (r, t)"
      using assms by (simp add: loop_turn_def wbind_def w_simps)
    with 3(1) show ?thesis
      using take_step_split by blast
  qed
qed

text \<open>For a relation that also admits counting a step, the turn is one more related program.\<close>

lemma relates_loop_turn:
  assumes "\<And>env step s. R env s (count_step step s)"
  shows "relates R (loop_turn params run_id tw lv)"
proof (rule relatesI)
  fix env s r t
  assume "loop_turn params run_id tw lv env s = (r, t)"
  then consider "R env s t"
    | u step lv' where "R env s u" "settle_step params tw lv' step env (count_step step u) = (r, t)"
    using loop_turn_split by blast
  then show "R env s t"
  proof cases
    case (2 u step lv')
    then have "R env (count_step step u) t"
      by (blast intro: relatesD relates_settle_step)
    with 2(1) assms show ?thesis
      using related_trans by blast
  qed
qed

end

end
