(* ===== verification/AgentTaskRun.thy ===== *)
theory AgentTaskRun
  imports AgentTaskLaws
begin

text \<open>
  \<open>AgentTaskWorkflow.run\<close>: admission, the loop of turns, the outer drain loop, cleanup and finalization,
  over the turns of \<open>AgentTask\<close>. The loops are total functions; their measures are the steps and the
  ticks that are left, which the interpretations of \<open>turn_relation\<close> show every turn uses up.
\<close>

section \<open>The relations a turn keeps\<close>

text \<open>Time only moves forward, inside the history; steps are not counted; a cancel stays.\<close>

definition quiet_progress :: "task_env \<Rightarrow> task_state \<Rightarrow> task_state \<Rightarrow> bool" where
  "quiet_progress env s t \<longleftrightarrow> a_clock s \<le> a_clock t \<and> (a_clock s < a_clock t \<longrightarrow> a_clock t \<le> en_horizon env)
     \<and> a_steps_used t = a_steps_used s \<and> (a_cancelled s \<longrightarrow> a_cancelled t)"

text \<open>
  What a command and the cancel flag beside it have to satisfy until the run is finalized: it finalizes
  nothing, and a guarded command was issued before any cancel.
\<close>

fun is_finalize :: "command \<Rightarrow> bool" where
  "is_finalize (CFinalize _ _ _ _ _) = True"
| "is_finalize _ = False"

definition before_cancel :: "command \<times> bool \<Rightarrow> bool" where
  "before_cancel = (\<lambda>(c, cancelled). guarded_command c \<longrightarrow> \<not> cancelled)"

definition orderly :: "command \<times> bool \<Rightarrow> bool" where
  "orderly = (\<lambda>(c, cancelled). \<not> is_finalize c \<and> before_cancel (c, cancelled))"

definition orderly_commands :: "task_env \<Rightarrow> task_state \<Rightarrow> task_state \<Rightarrow> bool" where
  "orderly_commands env s t \<longleftrightarrow> (\<exists>cs. a_trace t = a_trace s @ cs \<and> list_all orderly cs)"

lemma orderly_issued:
  "orderly (c, a_cancelled s) \<Longrightarrow> orderly_commands env s (issued c s)"
  by (auto simp: orderly_commands_def issued_def intro!: exI [of _ "[(c, a_cancelled s)]"])

lemma finalize_is_frame: "is_finalize c \<Longrightarrow> frame_command c"
  by (cases c) simp_all

interpretation progress: turn_relation quiet_progress
  by unfold_locales
     (auto simp: quiet_progress_def same_core_def issued_def deliver_core)

interpretation commands: turn_relation orderly_commands
proof unfold_locales
  fix env s t u
  assume "orderly_commands env s t" "orderly_commands env t u"
  then show "orderly_commands env s u"
    by (auto simp: orderly_commands_def)
next
  fix c and s :: task_state and env
  assume "\<not> frame_command c" "guarded_command c \<longrightarrow> \<not> a_cancelled s"
  then show "orderly_commands env s (issued c s)"
    by (intro orderly_issued) (auto simp: orderly_def before_cancel_def dest: finalize_is_frame)
qed (simp_all add: orderly_commands_def same_core_def deliver_core)

text \<open>A turn that comes back to the loop counted a step, or waited out a pause.\<close>

lemma suppress_command_ticks:
  assumes "suppress (unit_command c) env s = (Val a, t)"
  shows "a_clock t = Suc (a_clock s) \<and> a_clock s < en_horizon env"
  using assms by (auto simp: suppress_def attempt_def unit_command_def command_def wbind_def wret_def Let_def
      split: prod.splits outcome.splits if_splits sum.splits)

lemma wait_condition_ticks:
  assumes "wait_condition cond env s = (Val a, t)" and "\<not> cond env s"
  shows "a_clock s < a_clock t \<and> a_clock t \<le> en_horizon env"
proof -
  have "a_clock s < en_horizon env" and w: "wait_condition cond env (deliver env s) = (Val a, t)"
    using assms wait_condition.simps [of cond env s] by (auto split: if_splits)
  moreover have "quiet_progress env (deliver env s) t"
    using relatesD [OF progress.relates_wait w] .
  ultimately show ?thesis
    by (auto simp: quiet_progress_def)
qed

lemma pause_turn_ticks:
  assumes run: "pause_turn lv env s = (Val v, t)" and s: "a_paused s" "\<not> a_cancelled s"
  shows "v = Again lv \<and> a_clock s < a_clock t"
proof -
  define s0 where "s0 = s\<lparr>a_status := ''paused'', a_waiting_reason := Some ''paused_by_user''\<rparr>"
  have "wseq (mark_paused True) (wseq (wait_condition (\<lambda>env s. \<not> a_paused s \<or> a_cancelled s))
         (wseq (set_waiting None) (wseq (mark_paused False) (wret (Again lv))))) env s0 = (Val v, t)"
    using run by (simp add: pause_turn_def wseq_def wbind_def w_simps set_status_def set_waiting_def s0_def)
  then obtain s1 s2 s3 where marked: "mark_paused True env s0 = (Val (), s1)"
      and waited: "wait_condition (\<lambda>env s. \<not> a_paused s \<or> a_cancelled s) env s1 = (Val (), s2)"
      and cleared: "mark_paused False env (s2\<lparr>a_waiting_reason := None\<rparr>) = (Val (), s3)"
      and v: "v = Again lv" "t = s3"
    unfolding wseq_def set_waiting_def by (auto elim!: wbind_ValE simp: w_simps)
  have "a_clock s0 < a_clock s2"
  proof (cases "en_pause_observed env")
    case True
    then have "suppress (unit_command (CMarkPaused True)) env s0 = (Val (), s1)"
      using marked by (simp add: mark_paused_def wbind_def wask_def wif_def)
    moreover have "quiet_progress env s1 s2"
      using relatesD [OF progress.relates_wait waited] .
    ultimately show ?thesis
      by (auto dest: suppress_command_ticks simp: quiet_progress_def)
  next
    case False
    then have "s1 = s0"
      using marked by (simp add: mark_paused_def wbind_def wask_def wif_def wret_def)
    with waited s show ?thesis
      by (auto dest: wait_condition_ticks simp: s0_def)
  qed
  moreover have "quiet_progress env (s2\<lparr>a_waiting_reason := None\<rparr>) s3"
    using relatesD [OF progress.relates_mark_paused cleared] .
  ultimately show ?thesis
    using v by (simp add: quiet_progress_def s0_def)
qed

definition turn_done :: "turn \<Rightarrow> bool" where
  "turn_done v = (case v of Again lv \<Rightarrow> lv_done lv | Leave lv \<Rightarrow> lv_done lv)"

definition comes_back :: "turn \<Rightarrow> bool" where
  "comes_back v = (case v of Again lv \<Rightarrow> True | Leave lv \<Rightarrow> False)"

lemma turn_progress:
  assumes "loop_turn params run_id tw lv env s = (r, t)"
  shows "a_clock s \<le> a_clock t \<and> (a_clock s < a_clock t \<longrightarrow> a_clock t \<le> en_horizon env) \<and>
         (a_steps_used t = Suc (a_steps_used s) \<or> a_steps_used t = a_steps_used s \<and>
          (\<forall>v. r = Val v \<longrightarrow> turn_done v = lv_done lv \<and> (comes_back v \<longrightarrow> a_clock s < a_clock t)))"
  using progress.loop_turn_split [OF assms]
proof (elim disjE)
  assume "quiet_progress env s t \<and> (\<forall>v. r = Val v \<longrightarrow> (\<exists>lv'. v = Leave lv' \<and> lv_done lv' = lv_done lv))"
  then show ?thesis
    by (auto simp: quiet_progress_def turn_done_def comes_back_def)
next
  assume "quiet_progress env s t \<and> a_paused s \<and> \<not> a_cancelled s \<and> pause_turn lv env s = (r, t)"
  then show ?thesis
    using pause_turn_ticks [of lv env s _ t] by (auto simp: quiet_progress_def turn_done_def)
next
  assume "\<exists>u step lv'. quiet_progress env s u \<and> settle_step params tw lv' step env (count_step step u) = (r, t)"
  then obtain u step lv' where u: "quiet_progress env s u"
      and "settle_step params tw lv' step env (count_step step u) = (r, t)"
    by blast
  then have "quiet_progress env (count_step step u) t"
    using relatesD [OF progress.relates_settle_step] by blast
  with u show ?thesis
    by (auto simp: quiet_progress_def count_step_def)
qed

section \<open>The loop\<close>

text \<open>\<open>_run_step_loop\<close>: its condition, and the turns while it holds.\<close>

definition loop_goes_on :: "nat \<Rightarrow> bool \<Rightarrow> loop_vars \<Rightarrow> task_state \<Rightarrow> bool" where
  "loop_goes_on max_steps drain_late lv s \<longleftrightarrow>
     (\<not> lv_done lv \<or> (drain_late \<and> a_pending_instructions s \<noteq> [])) \<and> a_steps_used s < max_steps"

function run_step_loop :: "task_params \<Rightarrow> string \<Rightarrow> nat \<Rightarrow> bool \<Rightarrow> bool \<Rightarrow> loop_vars \<Rightarrow> loop_vars task_wf" where
  "run_step_loop params run_id max_steps use_tool_worker drain_late lv env s =
     (if \<not> loop_goes_on max_steps drain_late lv s then (Val lv, s)
      else (case loop_turn params run_id use_tool_worker lv env s of
              (Val (Again lv'), t) \<Rightarrow> run_step_loop params run_id max_steps use_tool_worker drain_late lv' env t
            | (Val (Leave lv'), t) \<Rightarrow> (Val lv', t)
            | (Exn x, t) \<Rightarrow> (Exn x, t)
            | (Parked p, t) \<Rightarrow> (Parked p, t)))"
  by pat_completeness auto

text \<open>A turn that comes back used up a step or a tick.\<close>

lemma turn_measure:
  assumes "loop_turn params run_id tw lv env s = (Val (Again lv'), t)" and "a_steps_used s < max_steps"
  shows "(max_steps - a_steps_used t) + (en_horizon env - a_clock t)
         < (max_steps - a_steps_used s) + (en_horizon env - a_clock s)"
  using turn_progress [OF assms(1)] assms(2) by (auto simp: comes_back_def)

termination run_step_loop
proof (relation "measure (\<lambda>(params, run_id, max_steps, tw, drain_late, lv, env, s).
                  (max_steps - a_steps_used s) + (en_horizon env - a_clock s))", simp, goal_cases)
  case (1 params run_id max_steps tw drain_late lv env s r t v lv')
  then have "loop_turn params run_id tw lv env s = (Val (Again lv'), t)" and "a_steps_used s < max_steps"
    by (simp_all add: loop_goes_on_def)
  then show ?case
    using turn_measure by (simp only: in_measure prod.case)
qed

declare run_step_loop.simps [simp del]

section \<open>Finalization\<close>

text \<open>\<open>_cleanup_run_workspace\<close> and \<open>_finalize\<close>; the two finalizing activities are one command.\<close>

definition cleanup_run_workspace :: "string option \<Rightarrow> bool \<Rightarrow> unit task_wf" where
  "cleanup_run_workspace run_id use_tool_worker =
     (case run_id of
        None \<Rightarrow> wret ()
      | Some i \<Rightarrow> wif use_tool_worker (suppress (unit_command (CCleanup i))))"

definition finalize ::
  "string option \<Rightarrow> string \<Rightarrow> string option \<Rightarrow> string option \<Rightarrow> bool \<Rightarrow> bool \<Rightarrow> unit task_wf" where
  "finalize run_id status error_code error_message use_tool_worker skip_cleanup =
     wbind (wget a_steps_used) (\<lambda>steps.
     wseq (wif (use_tool_worker \<and> \<not> skip_cleanup) (cleanup_run_workspace run_id use_tool_worker))
          (unit_command (CFinalize run_id status steps error_code error_message)))"

record task_result =
  tr_run_id :: "string option"
  tr_status :: string
  tr_steps_used :: nat
  tr_input_tokens :: int
  tr_output_tokens :: int
  tr_cost_micros :: int

definition ended_early :: "string \<Rightarrow> task_result" where
  "ended_early status = \<lparr>tr_run_id = None, tr_status = status, tr_steps_used = 0, tr_input_tokens = 0,
     tr_output_tokens = 0, tr_cost_micros = 0\<rparr>"

text \<open>\<open>self._status = status; await self._finalize(run_id=None, ...); return AgentTaskResult(...)\<close>\<close>

definition end_early :: "string \<Rightarrow> string option \<Rightarrow> string option \<Rightarrow> task_result task_wf" where
  "end_early status error_code error_message =
     wseq (set_status status)
     (wseq (finalize None status error_code error_message False False) (wret (ended_early status)))"

section \<open>Admission\<close>

text \<open>One round of the admission loop: \<open>Inl\<close> returns, \<open>Inr None\<close> goes round, \<open>Inr (Some _)\<close> breaks.\<close>

definition slot_or_cancel :: "task_env \<Rightarrow> task_state \<Rightarrow> bool" where
  "slot_or_cancel env s \<longleftrightarrow> a_slot_kick s \<or> a_cancelled s"

definition wait_for_slot :: "snapshot_result \<Rightarrow> (task_result + snapshot_result option) task_wf" where
  "wait_for_slot snapshot =
     wseq (set_status ''queued'')
     (wseq (set_waiting (Some (''queued:'' @ sn_queue_reason snapshot)))
     (wseq (wmod (\<lambda>s. s\<lparr>a_slot_kick := False\<rparr>))
     (wseq (wait_timeout slot_or_cancel)
     (wbind (wget a_cancelled) (\<lambda>cancelled.
      if cancelled then wbind (end_early ''cancelled'' None None) (\<lambda>res. wret (Inl res))
      else wret (Inr None))))))"

definition admission_round :: "(task_result + snapshot_result option) task_wf" where
  "admission_round =
     wbind (attempt (command CResolveSnapshot en_snapshot)) (\<lambda>r.
     case r of
       Inl x \<Rightarrow>
         wbind (end_early ''failed'' (Some ''snapshot_failed'') (Some (failure_message x))) (\<lambda>res. wret (Inl res))
     | Inr snapshot \<Rightarrow>
         if \<not> sn_queued snapshot then wret (Inr (Some snapshot))
         else wait_for_slot snapshot)"

function admit :: "(task_result + snapshot_result) task_wf" where
  "admit env s =
     (case admission_round env s of
        (Val (Inl res), t) \<Rightarrow> (Val (Inl res), t)
      | (Val (Inr (Some snapshot)), t) \<Rightarrow> (Val (Inr snapshot), t)
      | (Val (Inr None), t) \<Rightarrow> admit env t
      | (Exn x, t) \<Rightarrow> (Exn x, t)
      | (Parked p, t) \<Rightarrow> (Parked p, t))"
  by pat_completeness auto

text \<open>Every round waits for the answer of the admission activity.\<close>

lemma attempt_command_cases:
  assumes "attempt (command c ans) env s = (r, t)"
  shows "(r = Parked AtCommand \<and> t = issued c s) \<or>
         (\<exists>v. r = Val v \<and> a_clock s < en_horizon env \<and> t = deliver env (issued c s))"
  using assms by (auto simp: attempt_def command_def issued_def Let_def split: prod.splits outcome.splits if_splits sum.splits)

lemma admission_round_again:
  assumes "admission_round env s = (Val (Inr None), t)"
  shows "a_clock s < a_clock t \<and> a_clock t \<le> en_horizon env"
proof -
  obtain r u where c: "attempt (command CResolveSnapshot en_snapshot) env s = (r, u)"
    by fastforce
  with assms obtain v where v: "r = Val v"
    by (cases r) (auto simp: admission_round_def wbind_def)
  then have u: "a_clock s < en_horizon env" "a_clock u = Suc (a_clock s)"
    using attempt_command_cases [OF c] by (auto simp: issued_def)
  obtain sn where "wait_for_slot sn env u = (Val (Inr None), t)"
    using assms c v by (cases v) (auto simp: admission_round_def wbind_def w_simps split: prod.splits outcome.splits if_splits)
  then obtain b where "wait_timeout slot_or_cancel env
         (u\<lparr>a_status := ''queued'', a_waiting_reason := Some (''queued:'' @ sn_queue_reason sn), a_slot_kick := False\<rparr>)
       = (Val b, t)"
    unfolding wait_for_slot_def wseq_def set_status_def set_waiting_def
    by (auto elim!: wbind_ValE simp: w_simps split: if_splits)
  then have "quiet_progress env
         (u\<lparr>a_status := ''queued'', a_waiting_reason := Some (''queued:'' @ sn_queue_reason sn), a_slot_kick := False\<rparr>) t"
    using relatesD [OF progress.relates_wait_timeout] by blast
  with u show ?thesis
    by (auto simp: quiet_progress_def)
qed

termination admit
proof (relation "measure (\<lambda>(env, s). en_horizon env - a_clock s)", simp, goal_cases)
  case (1 env s r t v o')
  then have "admission_round env s = (Val (Inr None), t)"
    by simp
  from admission_round_again [OF this] show ?case
    by (auto intro: diff_less_mono2)
qed

declare admit.simps [simp del]

section \<open>The run\<close>

definition final_status :: "nat \<Rightarrow> bool \<Rightarrow> loop_vars \<Rightarrow> string \<times> loop_vars" where
  "final_status max_steps cancelled lv =
     (if cancelled then (''cancelled'', lv)
      else if lv_code lv \<noteq> None then (''failed'', lv)
      else if lv_done lv then (''completed'', lv)
      else (''failed'', fail_vars lv ''max_steps_exceeded''
              (''run hit the '' @ show_nat max_steps @ ''-step limit before finishing'')))"

text \<open>\<open>self._status = "finalizing"; await self._finalize(...); break\<close>\<close>

definition finish_run :: "snapshot_result \<Rightarrow> string \<times> loop_vars \<Rightarrow> bool \<Rightarrow> bool \<Rightarrow> (string + loop_vars) task_wf" where
  "finish_run snapshot final use_tool_worker skip_cleanup =
     wseq (set_status ''finalizing'')
     (wseq (finalize (Some (sn_run_id snapshot)) (fst final) (lv_code (snd final)) (lv_message (snd final))
             use_tool_worker skip_cleanup)
           (wret (Inl (fst final))))"

text \<open>After the loop: cleanup and one last look at the late instructions, or the end.\<close>

definition end_of_pass :: "snapshot_result \<Rightarrow> bool \<Rightarrow> bool \<Rightarrow> string \<times> loop_vars \<Rightarrow> (string + loop_vars) task_wf" where
  "end_of_pass snapshot use_tool_worker drain_late final =
     (if drain_late \<and> fst final = ''completed''
      then wseq (cleanup_run_workspace (Some (sn_run_id snapshot)) use_tool_worker)
           (wbind (wget (\<lambda>s. a_pending_instructions s \<noteq> [] \<and> a_steps_used s < sn_max_steps snapshot)) (\<lambda>late.
            if late then wret (Inr ((snd final)\<lparr>lv_done := False\<rparr>))
            else finish_run snapshot final use_tool_worker True))
      else finish_run snapshot final use_tool_worker False)"

text \<open>
  One pass of the outer loop: \<open>Inl\<close> breaks with the status of the run, \<open>Inr\<close> goes round with the
  variables of the next pass.
\<close>

definition run_pass :: "task_params \<Rightarrow> snapshot_result \<Rightarrow> bool \<Rightarrow> bool \<Rightarrow> loop_vars \<Rightarrow> (string + loop_vars) task_wf" where
  "run_pass params snapshot use_tool_worker drain_late lv =
     wbind (run_step_loop params (sn_run_id snapshot) (sn_max_steps snapshot) use_tool_worker drain_late lv) (\<lambda>left.
     wbind (wget a_cancelled) (\<lambda>cancelled.
       end_of_pass snapshot use_tool_worker drain_late (final_status (sn_max_steps snapshot) cancelled left)))"

section \<open>What a pass does\<close>

text \<open>The loop takes no more steps than it has left, and \<open>done\<close> comes only from a counted step.\<close>

lemma step_loop_effect:
  assumes "run_step_loop params run_id max_steps tw drain_late lv env s = (r, t)"
  shows "a_steps_used s \<le> a_steps_used t \<and> a_steps_used t \<le> max (a_steps_used s) max_steps \<and>
         orderly_commands env s t \<and>
         (\<forall>lv'. r = Val lv' \<longrightarrow> lv_done lv' = lv_done lv \<or> a_steps_used s < a_steps_used t)"
  using assms
proof (induction params run_id max_steps tw drain_late lv env s arbitrary: r t rule: run_step_loop.induct)
  case (1 params run_id max_steps tw drain_late lv env s)
  show ?case
  proof (cases "loop_goes_on max_steps drain_late lv s")
    case False
    then show ?thesis
      using "1.prems" commands.related_refl run_step_loop.simps [of params run_id max_steps tw drain_late lv env s]
      by auto
  next
    case True
    then have room: "a_steps_used s < max_steps"
      by (simp add: loop_goes_on_def)
    obtain q u where q: "loop_turn params run_id tw lv env s = (q, u)"
      by fastforce
    have cmds: "orderly_commands env s u"
      using relatesD [OF commands.relates_loop_turn q] by (simp add: orderly_commands_def count_step_def)
    note turn = turn_progress [OF q]
    show ?thesis
    proof (cases "\<exists>lv'. q = Val (Again lv')")
      case True
      then obtain lv' where lv': "q = Val (Again lv')"
        by blast
      then have rec: "run_step_loop params run_id max_steps tw drain_late lv' env u = (r, t)"
        using "1.prems" q \<open>loop_goes_on max_steps drain_late lv s\<close>
          run_step_loop.simps [of params run_id max_steps tw drain_late lv env s] by simp
      have ih: "a_steps_used u \<le> a_steps_used t \<and> a_steps_used t \<le> max (a_steps_used u) max_steps \<and>
         orderly_commands env u t \<and>
         (\<forall>lv''. r = Val lv'' \<longrightarrow> lv_done lv'' = lv_done lv' \<or> a_steps_used u < a_steps_used t)"
        using "1.IH" [OF _ q [symmetric] lv' refl rec] \<open>loop_goes_on max_steps drain_late lv s\<close> by simp
      show ?thesis
        using ih turn room lv' commands.related_trans [OF cmds, of t] by (auto simp: turn_done_def)
    next
      case False
      then show ?thesis
        using "1.prems" q room turn cmds \<open>loop_goes_on max_steps drain_late lv s\<close>
          run_step_loop.simps [of params run_id max_steps tw drain_late lv env s]
        by (auto simp: turn_done_def split: outcome.splits turn.splits)
    qed
  qed
qed

lemma relates_any_command: "relates quiet_progress (command c ans)"
  by (rule progress.relates_command_if) (simp add: quiet_progress_def issued_def)

lemma relates_orderly_command: "\<lbrakk>\<not> is_finalize c; \<not> guarded_command c\<rbrakk> \<Longrightarrow> relates orderly_commands (command c ans)"
  by (intro commands.relates_command_if orderly_issued) (simp add: orderly_def before_cancel_def)

lemma relates_cleanup:
  "relates quiet_progress (cleanup_run_workspace run_id tw)"
  "relates orderly_commands (cleanup_run_workspace run_id tw)"
  unfolding cleanup_run_workspace_def unit_command_def
  by (intro progress.relates_program relates_any_command)
     (intro commands.relates_program relates_orderly_command, simp_all)

text \<open>The state a finalization leaves: one command more, after commands that were all orderly.\<close>

definition finalized_from ::
  "task_env \<Rightarrow> task_state \<Rightarrow> string option \<Rightarrow> string \<Rightarrow> string option \<Rightarrow> string option \<Rightarrow> task_state \<Rightarrow> bool" where
  "finalized_from env s run_id status code message t \<longleftrightarrow>
     (\<exists>u. orderly_commands env s u \<and> a_steps_used u = a_steps_used s \<and>
          t = deliver env (issued (CFinalize run_id status (a_steps_used s) code message) u))"

lemma finalize_Val:
  assumes "finalize run_id status code message tw skip env s = (Val a, t)"
  shows "finalized_from env s run_id status code message t"
proof -
  define clean where "clean = wif (tw \<and> \<not> skip) (cleanup_run_workspace run_id tw)"
  define close where "close = CFinalize run_id status (a_steps_used s) code message"
  have "wseq clean (unit_command close) env s = (Val a, t)"
    using assms by (simp add: finalize_def wbind_def [of "wget _"] wget_def clean_def close_def)
  then obtain u b where q: "clean env s = (Val b, u)" and closing: "command close (\<lambda>env t. en_unit env t) env u = (Val a, t)"
    unfolding wseq_def unit_command_def by (rule wbind_ValE)
  have "relates orderly_commands clean" "relates quiet_progress clean"
    unfolding clean_def by (intro commands.relates_wif progress.relates_wif relates_cleanup)+
  then have "orderly_commands env s u" "quiet_progress env s u"
    using q by (auto dest: relatesD)
  with command_cases [OF closing] show ?thesis
    by (auto simp: finalized_from_def quiet_progress_def close_def)
qed

text \<open>A state whose trace was closed by one finalization, with the commands before it orderly.\<close>

definition codes_fit :: "string \<Rightarrow> string option \<Rightarrow> bool" where
  "codes_fit status code \<longleftrightarrow> (if code = None then status \<noteq> ''failed'' else status \<noteq> ''completed'')"

lemma codes_fit_simps [simp]:
  "codes_fit ''failed'' code \<longleftrightarrow> code \<noteq> None" "codes_fit ''cancelled'' code" "codes_fit ''completed'' code \<longleftrightarrow> code = None"
  by (auto simp: codes_fit_def)

definition closed_run :: "task_state \<Rightarrow> string option \<Rightarrow> string \<Rightarrow> nat \<Rightarrow> bool" where
  "closed_run t run_id status steps \<longleftrightarrow>
     (\<exists>cs code message cancelled. a_trace t = cs @ [(CFinalize run_id status steps code message, cancelled)] \<and>
        list_all orderly cs \<and> codes_fit status code)"

lemma finalized_closes:
  assumes "finalized_from env s run_id status code message t" and "list_all orderly (a_trace s)"
    and "codes_fit status code"
  shows "closed_run t run_id status (a_steps_used s) \<and> a_steps_used t = a_steps_used s"
  using assms by (auto simp: finalized_from_def closed_run_def orderly_commands_def issued_def deliver_core)

lemma orderly_extends: "orderly_commands env s t \<Longrightarrow> list_all orderly (a_trace s) \<Longrightarrow> list_all orderly (a_trace t)"
  by (auto simp: orderly_commands_def)

section \<open>The outer loop\<close>

lemma final_status_codes:
  "final_status n cancelled lv = (status, lv') \<Longrightarrow>
     codes_fit status (lv_code lv') \<and> (status = ''completed'' \<longrightarrow> lv' = lv \<and> lv_done lv)"
  by (auto simp: final_status_def fail_vars_def codes_fit_def split: if_splits)

lemma finish_run_Val:
  assumes "finish_run sn final tw skip env s = (Val r, t)"
  shows "r = Inl (fst final) \<and>
         finalized_from env (s\<lparr>a_status := ''finalizing''\<rparr>) (Some (sn_run_id sn)) (fst final) (lv_code (snd final))
           (lv_message (snd final)) t"
  using assms unfolding finish_run_def wseq_def set_status_def
  by (auto elim!: wbind_ValE simp: w_simps dest: finalize_Val)

text \<open>
  A pass that goes round again found a late instruction with steps left to answer it; a pass that ends
  the run has finalized it.
\<close>

lemma end_of_pass_Val:
  assumes "end_of_pass sn tw drain_late final env s = (Val r, t)"
  shows "\<exists>u. orderly_commands env s u \<and> a_steps_used u = a_steps_used s \<and>
          (case r of
             Inr lv' \<Rightarrow> t = u \<and> fst final = ''completed'' \<and> lv' = (snd final)\<lparr>lv_done := False\<rparr> \<and>
                        a_steps_used s < sn_max_steps sn
           | Inl status \<Rightarrow> status = fst final \<and>
               finalized_from env u (Some (sn_run_id sn)) status (lv_code (snd final)) (lv_message (snd final)) t)"
proof -
  have marked: "orderly_commands env w (w\<lparr>a_status := ''finalizing''\<rparr>)" for w
    by (rule commands.quiet) (simp add: same_core_def)
  have finished: "\<exists>u. orderly_commands env s u \<and> a_steps_used u = a_steps_used s \<and> r = Inl (fst final) \<and>
      finalized_from env u (Some (sn_run_id sn)) (fst final) (lv_code (snd final)) (lv_message (snd final)) t"
    if "finish_run sn final tw skip env w = (Val r, t)" "orderly_commands env s w" "a_steps_used w = a_steps_used s"
    for skip w
    using finish_run_Val [OF that(1)] that(2,3) commands.related_trans [OF that(2) marked]
    by (auto intro!: exI [of _ "w\<lparr>a_status := ''finalizing''\<rparr>"])
  show ?thesis
  proof (cases "drain_late \<and> fst final = ''completed''")
    case False
    then have "finish_run sn final tw False env s = (Val r, t)"
      using assms by (simp only: end_of_pass_def if_False)
    with finished [OF this commands.related_refl refl] show ?thesis
      by auto
  next
    case True
    then obtain w where clean: "cleanup_run_workspace (Some (sn_run_id sn)) tw env s = (Val (), w)"
        and rest: "(if a_pending_instructions w \<noteq> [] \<and> a_steps_used w < sn_max_steps sn
                    then wret (Inr ((snd final)\<lparr>lv_done := False\<rparr>))
                    else finish_run sn final tw True) env w = (Val r, t)"
      using assms unfolding end_of_pass_def wseq_def by (auto elim!: wbind_ValE simp: wget_def)
    have w: "orderly_commands env s w" "a_steps_used w = a_steps_used s"
      using relatesD [OF relates_cleanup(2) clean] relatesD [OF relates_cleanup(1) clean]
      by (simp_all add: quiet_progress_def)
    show ?thesis
    proof (cases "a_pending_instructions w \<noteq> [] \<and> a_steps_used w < sn_max_steps sn")
      case True
      then show ?thesis
        using rest w \<open>drain_late \<and> _\<close> by (auto simp: wret_def)
    next
      case False
      then have "finish_run sn final tw True env w = (Val r, t)"
        using rest by (simp only: if_False)
      with finished [OF this w] show ?thesis
        by auto
    qed
  qed
qed

lemma run_pass_Val:
  assumes "run_pass params sn tw drain_late lv env s = (Val r, t)"
  shows "\<exists>u. orderly_commands env s u \<and> a_steps_used s \<le> a_steps_used u \<and>
          a_steps_used u \<le> max (a_steps_used s) (sn_max_steps sn) \<and>
          (case r of
             Inr lv' \<Rightarrow> t = u \<and> \<not> lv_done lv' \<and> a_steps_used t < sn_max_steps sn \<and>
                        (lv_done lv \<or> a_steps_used s < a_steps_used t)
           | Inl status \<Rightarrow> \<exists>code message. codes_fit status code \<and>
               finalized_from env u (Some (sn_run_id sn)) status code message t)"
proof -
  obtain left w where loop: "run_step_loop params (sn_run_id sn) (sn_max_steps sn) tw drain_late lv env s = (Val left, w)"
      and rest: "end_of_pass sn tw drain_late (final_status (sn_max_steps sn) (a_cancelled w) left) env w = (Val r, t)"
    using assms unfolding run_pass_def by (auto elim!: wbind_ValE simp: wget_def)
  define final where "final = final_status (sn_max_steps sn) (a_cancelled w) left"
  have codes: "codes_fit (fst final) (lv_code (snd final))"
      "fst final = ''completed'' \<longrightarrow> lv_done left"
    using final_status_codes [of "sn_max_steps sn" "a_cancelled w" left "fst final" "snd final"] unfolding final_def by auto
  note effect = step_loop_effect [OF loop]
  obtain u where u: "orderly_commands env w u" "a_steps_used u = a_steps_used w"
      and cases: "case r of
             Inr lv' \<Rightarrow> t = u \<and> fst final = ''completed'' \<and> lv' = (snd final)\<lparr>lv_done := False\<rparr> \<and>
                        a_steps_used w < sn_max_steps sn
           | Inl status \<Rightarrow> status = fst final \<and>
               finalized_from env u (Some (sn_run_id sn)) status (lv_code (snd final)) (lv_message (snd final)) t"
    using end_of_pass_Val [OF rest] unfolding final_def by blast
  have "orderly_commands env s u"
    using effect u(1) commands.related_trans by blast
  with effect u(2) cases codes show ?thesis
    by (intro exI [of _ u]) (cases r; auto)
qed

text \<open>The passes of a run.\<close>

function run_passes :: "task_params \<Rightarrow> snapshot_result \<Rightarrow> bool \<Rightarrow> bool \<Rightarrow> loop_vars \<Rightarrow> string task_wf" where
  "run_passes params snapshot use_tool_worker drain_late lv env s =
     (case run_pass params snapshot use_tool_worker drain_late lv env s of
        (Val (Inl status), t) \<Rightarrow> (Val status, t)
      | (Val (Inr lv'), t) \<Rightarrow> run_passes params snapshot use_tool_worker drain_late lv' env t
      | (Exn x, t) \<Rightarrow> (Exn x, t)
      | (Parked p, t) \<Rightarrow> (Parked p, t))"
  by pat_completeness auto

text \<open>A pass that is followed by another used up steps, or had started from completed work.\<close>

termination run_passes
proof (relation "measure (\<lambda>(params, sn, tw, drain_late, lv, env, s).
                  (sn_max_steps sn - a_steps_used s) + (if lv_done lv then 1 else 0))", simp, goal_cases)
  case (1 params sn tw drain_late lv env s r t v lv')
  then have "run_pass params sn tw drain_late lv env s = (Val (Inr lv'), t)"
    by simp
  from run_pass_Val [OF this] show ?case
    by auto
qed

declare run_passes.simps [simp del]

lemma run_passes_closed:
  assumes "run_passes params sn tw drain_late lv env s = (Val status, t)"
    and "list_all orderly (a_trace s)" "a_steps_used s \<le> sn_max_steps sn"
  shows "closed_run t (Some (sn_run_id sn)) status (a_steps_used t)"
  using assms
proof (induction params sn tw drain_late lv env s arbitrary: status t rule: run_passes.induct)
  case (1 params sn tw drain_late lv env s)
  obtain q u where q: "run_pass params sn tw drain_late lv env s = (Val q, u)"
    using "1.prems"(1) run_passes.simps [of params sn tw drain_late lv env s]
    by (auto split: prod.splits outcome.splits)
  from run_pass_Val [OF this] obtain w where w: "orderly_commands env s w"
      "a_steps_used w \<le> max (a_steps_used s) (sn_max_steps sn)"
      and cases: "case q of
             Inr lv' \<Rightarrow> u = w \<and> \<not> lv_done lv' \<and> a_steps_used u < sn_max_steps sn \<and>
                        (lv_done lv \<or> a_steps_used s < a_steps_used u)
           | Inl status \<Rightarrow> \<exists>code message. codes_fit status code \<and>
               finalized_from env w (Some (sn_run_id sn)) status code message u"
    by blast
  note orderly = orderly_extends [OF w(1) "1.prems"(2)]
  show ?case
  proof (cases q)
    case (Inl st)
    then have "st = status" "u = t"
      using "1.prems"(1) q run_passes.simps [of params sn tw drain_late lv env s] by auto
    with cases Inl show ?thesis
      using finalized_closes [OF _ orderly] by auto
  next
    case (Inr lv')
    then have "run_passes params sn tw drain_late lv' env u = (Val status, t)"
      using "1.prems"(1) q run_passes.simps [of params sn tw drain_late lv env s] by simp
    moreover have "u = w" "a_steps_used u \<le> sn_max_steps sn"
      using cases Inr by auto
    ultimately show ?thesis
      using "1.IH" [OF q [symmetric] refl Inr] orderly by blast
  qed
qed

section \<open>The whole run\<close>

definition task_totals :: "string \<Rightarrow> string \<Rightarrow> task_state \<Rightarrow> task_result" where
  "task_totals run_id status s =
     \<lparr>tr_run_id = Some run_id, tr_status = status, tr_steps_used = a_steps_used s,
      tr_input_tokens = a_input_tokens s, tr_output_tokens = a_output_tokens s, tr_cost_micros = a_cost_micros s\<rparr>"

definition run_admitted :: "task_params \<Rightarrow> snapshot_result \<Rightarrow> task_result task_wf" where
  "run_admitted params snapshot =
     wseq (set_waiting None)
     (if sn_denied_code snapshot \<noteq> []
      then (if sn_denied_code snapshot = ''turn_cancelled'' then end_early ''cancelled'' None None
            else end_early ''failed'' (Some (sn_denied_code snapshot))
                   (Some (if sn_denied_message snapshot = [] then ''a monthly budget was reached''
                          else sn_denied_message snapshot)))
      else
        wbind (wask en_tool_worker) (\<lambda>use_tool_worker.
        wbind (wask en_drain) (\<lambda>drain_late.
        wbind (run_passes params snapshot use_tool_worker drain_late
                 \<lparr>lv_done = False, lv_code = None, lv_message = None\<rparr>) (\<lambda>status.
        wseq (set_status status) (wget (task_totals (sn_run_id snapshot) status))))))"

definition task_run :: "task_params \<Rightarrow> task_result task_wf" where
  "task_run params =
     wseq (set_status ''resolving'')
     (wbind admit (\<lambda>r. case r of Inl ended \<Rightarrow> wret ended | Inr snapshot \<Rightarrow> run_admitted params snapshot))"

lemma end_early_closed:
  assumes "end_early status code message env s = (Val res, t)" and "list_all orderly (a_trace s)"
    and "a_steps_used s = 0" "codes_fit status code"
  shows "closed_run t (tr_run_id res) (tr_status res) (tr_steps_used res)"
proof -
  obtain u where "finalize None status code message False False env (s\<lparr>a_status := status\<rparr>) = (Val (), t)"
      and res: "res = ended_early status"
    using assms(1) unfolding end_early_def wseq_def set_status_def by (auto elim!: wbind_ValE simp: w_simps)
  from finalized_closes [OF finalize_Val [OF this(1)]] res assms(2-) show ?thesis
    by (simp add: ended_early_def)
qed

end
