(* ===== verification/AgentTaskProps.thy ===== *)
theory AgentTaskProps
  imports AgentTaskRun
begin

text \<open>
  The properties of a whole agent-task run: how it is finalized, how many steps it takes, what a cancel
  stops, where a cancelled run can be suspended, and how failures are classified.
\<close>

section \<open>Relations kept by the loops\<close>

text \<open>Each loop keeps what its body keeps.\<close>

lemma relates_admit_if:
  assumes "wf_relation R" and body: "relates R admission_round"
  shows "relates R admit"
proof (rule relatesI)
  fix env s r t
  show "admit env s = (r, t) \<Longrightarrow> R env s t"
  proof (induction env s arbitrary: r t rule: admit.induct)
    case (1 env s)
    obtain q u where q: "admission_round env s = (q, u)"
      by fastforce
    have su: "R env s u"
      using body q by (rule relatesD)
    show ?case
    proof (cases "q = Val (Inr None)")
      case True
      then have "admit env u = (r, t)"
        using "1.prems" q admit.simps [of env s] by simp
      with "1.IH" [OF q [symmetric] True refl refl] show ?thesis
        by (blast intro: wf_relation.related_trans [OF assms(1) su])
    next
      case False
      then have "t = u"
        using "1.prems" q admit.simps [of env s] by (auto split: outcome.splits sum.splits option.splits)
      with su show ?thesis
        by simp
    qed
  qed
qed

lemma relates_step_loop_if:
  assumes "wf_relation R" and body: "\<And>lv. relates R (loop_turn params run_id tw lv)"
  shows "relates R (run_step_loop params run_id max_steps tw drain_late lv)"
proof (rule relatesI)
  fix env s r t
  show "run_step_loop params run_id max_steps tw drain_late lv env s = (r, t) \<Longrightarrow> R env s t"
    using body
  proof (induction params run_id max_steps tw drain_late lv env s arbitrary: r t rule: run_step_loop.induct)
    case (1 params run_id max_steps tw drain_late lv env s)
    note simps = run_step_loop.simps [of params run_id max_steps tw drain_late lv env s]
    obtain q u where q: "loop_turn params run_id tw lv env s = (q, u)"
      by fastforce
    have su: "R env s u"
      using "1.prems"(2) q by (rule relatesD)
    show ?case
    proof (cases "loop_goes_on max_steps drain_late lv s \<and> (\<exists>lv'. q = Val (Again lv'))")
      case True
      then obtain lv' where lv': "q = Val (Again lv')"
        by blast
      with True have "run_step_loop params run_id max_steps tw drain_late lv' env u = (r, t)"
        using "1.prems"(1) q simps by simp
      with "1.IH" [OF _ q [symmetric] lv' refl _ "1.prems"(2)] True show ?thesis
        by (blast intro: wf_relation.related_trans [OF assms(1) su])
    next
      case False
      then have "t = u \<or> t = s"
        using "1.prems"(1) q simps by (auto split: outcome.splits turn.splits if_splits)
      with su wf_relation.related_refl [OF assms(1)] show ?thesis
        by auto
    qed
  qed
qed

lemma relates_run_passes_if:
  assumes "wf_relation R" and body: "\<And>lv. relates R (run_pass params sn tw drain_late lv)"
  shows "relates R (run_passes params sn tw drain_late lv)"
proof (rule relatesI)
  fix env s r t
  show "run_passes params sn tw drain_late lv env s = (r, t) \<Longrightarrow> R env s t"
    using body
  proof (induction params sn tw drain_late lv env s arbitrary: r t rule: run_passes.induct)
    case (1 params sn tw drain_late lv env s)
    note simps = run_passes.simps [of params sn tw drain_late lv env s]
    obtain q u where q: "run_pass params sn tw drain_late lv env s = (q, u)"
      by fastforce
    have su: "R env s u"
      using "1.prems"(2) q by (rule relatesD)
    show ?case
    proof (cases "\<exists>lv'. q = Val (Inr lv')")
      case True
      then obtain lv' where lv': "q = Val (Inr lv')"
        by blast
      then have "run_passes params sn tw drain_late lv' env u = (r, t)"
        using "1.prems"(1) q simps by simp
      with "1.IH" [OF q [symmetric] lv' refl _ "1.prems"(2)] show ?thesis
        by (blast intro: wf_relation.related_trans [OF assms(1) su])
    next
      case False
      then have "t = u"
        using "1.prems"(1) q simps by (auto split: outcome.splits sum.splits)
      with su show ?thesis
        by simp
    qed
  qed
qed

section \<open>Relations kept by the whole run\<close>

text \<open>
  A relation of turns that also admits counting a step and issuing any command that is not guarded is
  kept by the run as a whole, whatever its outcome.
\<close>

locale run_relation = turn_relation +
  assumes count: "R env s (count_step step s)"
    and unguarded: "\<not> guarded_command c \<Longrightarrow> R env s (issued c s)"
begin

lemma relates_unguarded: "\<not> guarded_command c \<Longrightarrow> relates R (command c ans)"
  by (intro relates_command_if unguarded)

lemma relates_cleanup_workspace: "relates R (cleanup_run_workspace run_id tw)"
  unfolding cleanup_run_workspace_def unit_command_def by (intro relates_program relates_unguarded) simp_all

lemma relates_finalize: "relates R (finalize run_id status code message tw skip)"
  unfolding finalize_def unit_command_def by (intro relates_program relates_cleanup_workspace relates_unguarded) simp_all

lemma relates_end_early: "relates R (end_early status code message)"
  unfolding end_early_def by (intro relates_program relates_status relates_finalize)

lemma relates_admission_round: "relates R admission_round"
  unfolding admission_round_def wait_for_slot_def
  by (intro relates_steps relates_unguarded relates_end_early relates_quiet) (simp_all add: same_core_def)

lemma relates_admit: "relates R admit"
  by (rule relates_admit_if [OF wf_relation_axioms relates_admission_round])

lemma relates_step_loop: "relates R (run_step_loop params run_id max_steps tw drain_late lv)"
  by (rule relates_step_loop_if [OF wf_relation_axioms relates_loop_turn [OF count]])

lemma relates_run_pass: "relates R (run_pass params sn tw drain_late lv)"
  unfolding run_pass_def end_of_pass_def finish_run_def
  by (intro relates_program relates_step_loop relates_cleanup_workspace relates_status relates_finalize)

lemma relates_run_passes: "relates R (run_passes params sn tw drain_late lv)"
  by (rule relates_run_passes_if [OF wf_relation_axioms relates_run_pass])

lemma relates_run: "relates R (task_run params)"
  unfolding task_run_def run_admitted_def
  by (intro relates_program relates_status relates_waiting relates_admit relates_end_early relates_run_passes)

end

text \<open>Guarded commands are issued before any cancel, over the whole run.\<close>

definition cancel_respected :: "task_env \<Rightarrow> task_state \<Rightarrow> task_state \<Rightarrow> bool" where
  "cancel_respected env s t \<longleftrightarrow> (list_all before_cancel (a_trace s) \<longrightarrow> list_all before_cancel (a_trace t))"

interpretation guarded: run_relation cancel_respected
  by unfold_locales
     (auto simp: cancel_respected_def same_core_def deliver_core issued_def before_cancel_def count_step_def)

text \<open>Nothing is undone: time, the trace, the step count and a delivered cancel only grow.\<close>

definition history_grows :: "task_env \<Rightarrow> task_state \<Rightarrow> task_state \<Rightarrow> bool" where
  "history_grows env s t \<longleftrightarrow> a_clock s \<le> a_clock t \<and> (\<exists>cs. a_trace t = a_trace s @ cs)
     \<and> a_steps_used s \<le> a_steps_used t \<and> (a_cancelled s \<longrightarrow> a_cancelled t)"

interpretation history: run_relation history_grows
  by unfold_locales
     (auto simp: history_grows_def same_core_def deliver_core issued_def count_step_def)

section \<open>Finalization\<close>

lemma wait_for_slot_orderly:
  assumes "wait_for_slot sn env s = (Val q, t)" and s: "list_all orderly (a_trace s)" "a_steps_used s = 0"
  shows "case q of Inl res \<Rightarrow> closed_run t (tr_run_id res) (tr_status res) (tr_steps_used res)
                 | Inr found \<Rightarrow> found = None \<and> list_all orderly (a_trace t) \<and> a_steps_used t = 0"
proof -
  define s0 where "s0 = s\<lparr>a_status := ''queued'', a_waiting_reason := Some (''queued:'' @ sn_queue_reason sn), a_slot_kick := False\<rparr>"
  then have s0: "list_all orderly (a_trace s0)" "a_steps_used s0 = 0"
    using s by simp_all
  obtain b w where wait: "wait_timeout slot_or_cancel env s0 = (Val b, w)"
      and last: "(if a_cancelled w then wbind (end_early ''cancelled'' None None) (\<lambda>res. wret (Inl res))
                  else wret (Inr None)) env w = (Val q, t)"
    using assms(1) unfolding wait_for_slot_def wseq_def set_status_def set_waiting_def s0_def
    by (auto elim!: wbind_ValE simp: w_simps)
  have w: "list_all orderly (a_trace w)" "a_steps_used w = 0"
    using orderly_extends [OF relatesD [OF commands.relates_wait_timeout wait] s0(1)]
      relatesD [OF progress.relates_wait_timeout wait] s0(2)
    by (simp_all add: quiet_progress_def)
  show ?thesis
  proof (cases "a_cancelled w")
    case True
    then obtain res where "end_early ''cancelled'' None None env w = (Val res, t)" and "q = Inl res"
      using last by (simp only: if_True) (auto elim!: wbind_ValE simp: wret_def)
    with end_early_closed [OF this(1) w] show ?thesis
      by simp
  next
    case False
    with last w show ?thesis
      by (auto simp: wret_def)
  qed
qed

text \<open>The answer the admission activity gave at some tick.\<close>

definition snapshot_answered :: "task_env \<Rightarrow> snapshot_result \<Rightarrow> bool" where
  "snapshot_answered env sn \<longleftrightarrow> (\<exists>k. en_snapshot env k = Inr sn)"

lemma admission_round_orderly:
  assumes "admission_round env s = (Val q, t)" and s: "list_all orderly (a_trace s)" "a_steps_used s = 0"
  shows "case q of Inl res \<Rightarrow> closed_run t (tr_run_id res) (tr_status res) (tr_steps_used res)
                 | Inr found \<Rightarrow> list_all orderly (a_trace t) \<and> a_steps_used t = 0 \<and>
                              (case found of None \<Rightarrow> True | Some sn \<Rightarrow> snapshot_answered env sn)"
proof -
  obtain v u where v: "attempt (command CResolveSnapshot en_snapshot) env s = (Val v, u)"
      and rest: "(case v of
       Inl x \<Rightarrow>
         wbind (end_early ''failed'' (Some ''snapshot_failed'') (Some (failure_message x))) (\<lambda>res. wret (Inl res))
     | Inr snapshot \<Rightarrow>
         if \<not> sn_queued snapshot then wret (Inr (Some snapshot)) else wait_for_slot snapshot) env u = (Val q, t)"
    using assms(1) unfolding admission_round_def by (rule wbind_ValE)
  have "relates orderly_commands (attempt (command CResolveSnapshot en_snapshot))"
       "relates quiet_progress (attempt (command CResolveSnapshot en_snapshot))"
    by (intro commands.relates_attempt relates_orderly_command, simp_all)
       (intro progress.relates_attempt relates_any_command)
  then have u: "list_all orderly (a_trace u)" "a_steps_used u = 0"
    using v s by (auto dest!: relatesD simp: quiet_progress_def intro: orderly_extends)
  show ?thesis
  proof (cases v)
    case (Inl x)
    then obtain res where "end_early ''failed'' (Some ''snapshot_failed'') (Some (failure_message x)) env u = (Val res, t)"
        and "q = Inl res"
      using rest by (auto elim!: wbind_ValE simp: wret_def)
    with end_early_closed [OF this(1) u] show ?thesis
      by simp
  next
    case (Inr sn)
    have "snapshot_answered env sn"
      using v Inr by (auto simp: snapshot_answered_def attempt_def command_def Let_def
          split: prod.splits outcome.splits if_splits sum.splits)
    with rest Inr u show ?thesis
      using wait_for_slot_orderly [of sn env u q t] by (auto simp: wret_def split: if_splits sum.splits)
  qed
qed

lemma admit_orderly:
  assumes "admit env s = (Val q, t)" "list_all orderly (a_trace s)" "a_steps_used s = 0"
  shows "case q of Inl res \<Rightarrow> closed_run t (tr_run_id res) (tr_status res) (tr_steps_used res)
                 | Inr sn \<Rightarrow> list_all orderly (a_trace t) \<and> a_steps_used t = 0 \<and> snapshot_answered env sn"
  using assms
proof (induction env s arbitrary: q t rule: admit.induct)
  case (1 env s)
  obtain r u where r: "admission_round env s = (Val r, u)"
    using "1.prems"(1) admit.simps [of env s] by (auto split: prod.splits outcome.splits)
  note fact = admission_round_orderly [OF r "1.prems"(2,3)]
  show ?case
  proof (cases "r = Inr None")
    case True
    then have "admit env u = (Val q, t)"
      using "1.prems"(1) r admit.simps [of env s] by simp
    with "1.IH" [OF r [symmetric] refl True refl] fact True show ?thesis
      by simp
  next
    case False
    then show ?thesis
      using "1.prems"(1) r fact admit.simps [of env s] by (auto split: sum.splits option.splits)
  qed
qed

lemma run_admitted_closed:
  assumes "run_admitted params sn env s = (Val res, t)" "list_all orderly (a_trace s)" "a_steps_used s = 0"
  shows "closed_run t (tr_run_id res) (tr_status res) (tr_steps_used res)"
proof -
  define s0 where "s0 = s\<lparr>a_waiting_reason := None\<rparr>"
  then have s0: "list_all orderly (a_trace s0)" "a_steps_used s0 = 0"
    using assms by simp_all
  show ?thesis
  proof (cases "sn_denied_code sn = []")
    case False
    then obtain status code message where "end_early status code message env s0 = (Val res, t)" "codes_fit status code"
      using assms(1) by (cases "sn_denied_code sn = ''turn_cancelled''")
        (simp_all add: run_admitted_def wseq_def wbind_def set_waiting_def wmod_def s0_def)
    with s0 show ?thesis
      by (intro end_early_closed)
  next
    case True
    then obtain status u where u: "run_passes params sn (en_tool_worker env) (en_drain env)
          \<lparr>lv_done = False, lv_code = None, lv_message = None\<rparr> env s0 = (Val status, u)"
        and res: "t = u\<lparr>a_status := status\<rparr>" "res = task_totals (sn_run_id sn) status t"
      using assms(1) unfolding run_admitted_def wseq_def set_waiting_def set_status_def
      by (auto elim!: wbind_ValE simp: w_simps s0_def)
    have "closed_run u (Some (sn_run_id sn)) status (a_steps_used u)"
      using run_passes_closed [OF u s0(1)] s0(2) by simp
    with res show ?thesis
      by (simp add: task_totals_def closed_run_def)
  qed
qed

text \<open>
  C20 (invariant): a run that returns was finalized exactly once, by its last command, with the run id,
  the status and the step count it returns; a failed finalization carries an error code and a completed
  one carries none; and no other command of the run finalizes anything.
\<close>

theorem run_finalized_once:
  "case task_run params env initial_task_state of
     (Val res, t) \<Rightarrow> closed_run t (tr_run_id res) (tr_status res) (tr_steps_used res)
   | _ \<Rightarrow> True"
proof (cases "\<exists>res t. task_run params env initial_task_state = (Val res, t)")
  case True
  then obtain res t where "task_run params env initial_task_state = (Val res, t)"
    by blast
  then obtain q u where q: "admit env (initial_task_state\<lparr>a_status := ''resolving''\<rparr>) = (Val q, u)"
      and rest: "(case q of Inl ended \<Rightarrow> wret ended | Inr snapshot \<Rightarrow> run_admitted params snapshot) env u = (Val res, t)"
    unfolding task_run_def wseq_def set_status_def by (auto elim!: wbind_ValE simp: w_simps)
  have "closed_run t (tr_run_id res) (tr_status res) (tr_steps_used res)"
    using admit_orderly [OF q] rest
    by (cases q) (auto simp: initial_task_state_def wret_def intro: run_admitted_closed)
  with \<open>task_run params env initial_task_state = (Val res, t)\<close> show ?thesis
    by simp
next
  case False
  then show ?thesis
    by (cases "task_run params env initial_task_state") (auto split: outcome.split)
qed

section \<open>Cancellation\<close>

text \<open>
  C21 (safety): whatever the history, every command of the run that resolves the tools of a turn, runs a legacy
  step or executes one of the tools so resolved was issued while no cancel had been delivered. The commands that
  settle an approval or a review are not among them: these may run the tool that was decided on, and are issued
  when the decision arrived, also when a cancel arrived with it.
\<close>

theorem run_respects_cancel:
  "list_all before_cancel (a_trace (snd (task_run params env initial_task_state)))"
proof -
  have "cancel_respected env initial_task_state (snd (task_run params env initial_task_state))"
    using guarded.relates_run unfolding relates_def by blast
  then show ?thesis
    by (simp add: cancel_respected_def initial_task_state_def)
qed

section \<open>Steps\<close>

definition steps_within :: "nat \<Rightarrow> task_env \<Rightarrow> task_state \<Rightarrow> task_state \<Rightarrow> bool" where
  "steps_within n env s t \<longleftrightarrow> (a_steps_used s \<le> n \<longrightarrow> a_steps_used t \<le> n)"

interpretation within: wf_relation "steps_within n" for n
  by unfold_locales (auto simp: steps_within_def)

lemma relates_mono: "relates R m \<Longrightarrow> (\<And>env s t. R env s t \<Longrightarrow> Q env s t) \<Longrightarrow> relates Q m"
  by (auto simp: relates_def)

lemma progress_within: "relates quiet_progress m \<Longrightarrow> relates (steps_within n) m"
  by (erule relates_mono) (simp add: quiet_progress_def steps_within_def)

lemma finalize_progress: "relates quiet_progress (finalize run_id status code message tw skip)"
  unfolding finalize_def unit_command_def
  by (intro progress.relates_program relates_cleanup relates_any_command)

lemma end_early_progress: "relates quiet_progress (end_early status code message)"
  unfolding end_early_def by (intro progress.relates_program progress.relates_status finalize_progress)

lemma run_passes_within:
  assumes "sn_max_steps sn \<le> n"
  shows "relates (steps_within n) (run_passes params sn tw drain_late lv)"
proof -
  have "relates (steps_within n) (run_step_loop params run_id (sn_max_steps sn) tw drain_late lv)" for run_id lv
    using step_loop_effect assms by (fastforce intro: relatesI simp: steps_within_def)
  then have pass: "relates (steps_within n) (run_pass params sn tw drain_late lv)" for lv
    unfolding run_pass_def end_of_pass_def finish_run_def
    by (intro within.relates_program progress_within [OF progress.relates_status]
        progress_within [OF finalize_progress] progress_within [OF relates_cleanup(1)])
  show ?thesis
    by (rule relates_run_passes_if [OF within.wf_relation_axioms pass])
qed

lemma admit_progress: "relates quiet_progress admit"
proof (rule relates_admit_if [OF progress.wf_relation_axioms])
  show "relates quiet_progress admission_round"
    unfolding admission_round_def wait_for_slot_def
    by (intro progress.relates_program relates_any_command end_early_progress progress.relates_status
        progress.relates_waiting progress.relates_quiet progress.relates_wait_timeout) (simp add: same_core_def)
qed

text \<open>
  C22 (bounds): the steps of a run never exceed the step limit of the snapshot it was admitted with,
  whatever is signalled and however often late instructions send it around again, also in a run that
  fails or is still suspended.
\<close>

theorem run_steps_bounded:
  assumes "\<And>k sn. en_snapshot env k = Inr sn \<Longrightarrow> sn_max_steps sn \<le> n"
  shows "a_steps_used (snd (task_run params env initial_task_state)) \<le> n"
proof -
  define s0 where "s0 = initial_task_state\<lparr>a_status := ''resolving''\<rparr>"
  then have s0: "list_all orderly (a_trace s0)" "a_steps_used s0 = 0"
    by (simp_all add: initial_task_state_def)
  obtain q u where q: "admit env s0 = (q, u)"
    by fastforce
  have u: "a_steps_used u = 0"
    using relatesD [OF admit_progress q] s0 by (simp add: quiet_progress_def)
  obtain r t where run: "task_run params env initial_task_state = (r, t)"
    by fastforce
  have "steps_within n env u t"
  proof (cases "\<exists>sn. q = Val (Inr sn)")
    case True
    then obtain sn where sn: "q = Val (Inr sn)"
      by (rule exE)
    have "snapshot_answered env sn"
      using admit_orderly [OF q [unfolded sn] s0] by simp
    then have "sn_max_steps sn \<le> n"
      using assms by (auto simp: snapshot_answered_def)
    then have "relates (steps_within n) (run_admitted params sn)"
      unfolding run_admitted_def
      by (intro within.relates_program run_passes_within progress_within [OF progress.relates_status]
          progress_within [OF progress.relates_waiting] progress_within [OF end_early_progress])
    moreover have "run_admitted params sn env u = (r, t)"
      using run q sn by (simp add: task_run_def wseq_def wbind_def set_status_def wmod_def s0_def)
    ultimately show ?thesis
      by (rule relatesD)
  next
    case False
    then have "t = u"
      using run q by (auto simp: task_run_def wseq_def wbind_def set_status_def wmod_def wret_def s0_def
          split: outcome.splits sum.splits)
    then show ?thesis
      by (simp add: steps_within_def)
  qed
  with run u show ?thesis
    by (simp add: steps_within_def)
qed

text \<open>A history whose every answer is the snapshot of a two-step run.\<close>

definition two_step_env :: task_env where
  "two_step_env =
     \<lparr>en_horizon = 9, en_signals = (\<lambda>_. []), en_timeout = (\<lambda>_. False),
      en_snapshot = (\<lambda>_. Inr \<lparr>sn_run_id = ''r'', sn_max_steps = 2, sn_queued = False, sn_queue_reason = [],
                              sn_denied_code = [], sn_denied_message = []\<rparr>),
      en_reason = (\<lambda>_. Inr 0), en_bound = (\<lambda>_. Inr \<lparr>bo_tool_call_id = ''c'', bo_stop_reason = None\<rparr>),
      en_step = (\<lambda>_. Inr \<lparr>st_done = False, st_input_tokens = 3, st_output_tokens = 1, st_cost_micros = 0,
                          st_waiting_approval_id = None, st_waiting_review_id = None, st_delegations = [],
                          st_work_request_starts = [], st_corpus_sync_starts = [], st_review_decisions = [],
                          st_person_questions = [], st_execution_unknown = None\<rparr>),
      en_unit = (\<lambda>_. Inr ()), en_corpus_status = (\<lambda>_. Inr ''done''), en_child_done = (\<lambda>_. 0),
      en_child_result = (\<lambda>_. Inr ()), en_bound_id = (\<lambda>_ _ _. ''b''), en_tool_worker = False, en_drain = True,
      en_pause_observed = True, en_ask_person = True, en_requester_wait = True, en_continuation = True\<rparr>"

theorem run_steps_bounded_witness:
  "a_steps_used (snd (task_run \<lparr>ap_task_id = ''t'', ap_agent_id = ''a''\<rparr> two_step_env initial_task_state)) \<le> 2"
  by (rule run_steps_bounded) (auto simp: two_step_env_def)

section \<open>Failures of a step\<close>

lemma failure_code_range: "failure_code x fallback \<in> set (fallback # SPECIFIC_FAILURE_CODES)"
  by (auto simp: failure_code_def specific_code_def split: option.splits)

text \<open>The code a failure gives: the type of the first link of its chain that is specific, or else the fallback.\<close>

lemma failure_code_cases:
  "(\<exists>before l after. failure_chain x = before @ l # after \<and> xl_type l = Some (failure_code x fallback)
       \<and> failure_code x fallback \<in> set SPECIFIC_FAILURE_CODES \<and> list_all (\<lambda>k. specific_code k = None) before)
   \<or> failure_code x fallback = fallback \<and> list_all (\<lambda>k. specific_code k = None) (failure_chain x)"
proof (cases "List.find (\<lambda>l. specific_code l \<noteq> None) (failure_chain x)")
  case None
  then have "failure_code x fallback = fallback"
    by (simp only: failure_code_def option.case)
  with None show ?thesis
    by (simp add: find_None_iff list_all_iff)
next
  case (Some l)
  then obtain i where i: "i < length (failure_chain x)" "specific_code l \<noteq> None" "l = failure_chain x ! i"
      "\<forall>j<i. specific_code (failure_chain x ! j) = None"
    unfolding find_Some_iff by blast
  have "failure_chain x = take i (failure_chain x) @ l # drop (Suc i) (failure_chain x)"
    using id_take_nth_drop [OF i(1)] i(3) by simp
  moreover have "list_all (\<lambda>k. specific_code k = None) (take i (failure_chain x))"
    using i(4) by (auto simp: list_all_length)
  moreover have "xl_type l = Some (failure_code x fallback) \<and> failure_code x fallback \<in> set SPECIFIC_FAILURE_CODES"
    using Some i(2) by (auto simp: failure_code_def specific_code_def split: option.splits if_splits)
  ultimately show ?thesis
    by blast
qed

text \<open>The work of a turn, as \<open>take_step\<close> starts it, and what it raised or answered.\<close>

definition turn_work ::
  "string \<Rightarrow> bool \<Rightarrow> task_env \<Rightarrow> task_state \<Rightarrow> (wf_failure + step_result option, wf_failure) outcome \<times> task_state" where
  "turn_work run_id use_tool_worker env s =
     attempt (if use_tool_worker then reason_and_act run_id (a_pending_instructions s)
              else run_agent_step (a_pending_instructions s))
       env (s\<lparr>a_status := ''running'', a_pending_instructions := []\<rparr>)"

text \<open>
  C24 (error): when the work of a turn raises, the turn leaves the loop with the failure's message and a code:
  the first specific code in the chain of causes, and \<open>step_failed\<close> when there is none. It changes nothing else;
  in particular it never marks the run as cancelled, so the branch that would turn a stopped generation into a
  cancelled run is dead: its code is not among the specific ones.
\<close>

theorem raised_step_fails:
  assumes "\<not> a_cancelled s" "\<not> a_paused s" "turn_work run_id use_tool_worker env s = (Val (Inl x), t)"
  shows "\<exists>code. loop_turn params run_id use_tool_worker lv env s
        = (Val (Leave (lv\<lparr>lv_code := Some code, lv_message := Some (failure_message x)\<rparr>)), t)
    \<and> ((\<exists>before l after. failure_chain x = before @ l # after \<and> xl_type l = Some code
          \<and> code \<in> set SPECIFIC_FAILURE_CODES \<and> list_all (\<lambda>k. specific_code k = None) before)
        \<or> code = ''step_failed'' \<and> list_all (\<lambda>k. specific_code k = None) (failure_chain x))"
proof -
  have "failure_code x ''step_failed'' \<noteq> ''generation_cancelled''"
    using failure_code_range [of x "''step_failed''"] by (auto simp: SPECIFIC_FAILURE_CODES_def)
  then have "loop_turn params run_id use_tool_worker lv env s
      = (Val (Leave (lv\<lparr>lv_code := Some (failure_code x ''step_failed''), lv_message := Some (failure_message x)\<rparr>)), t)"
    using assms
    by (cases use_tool_worker) (simp_all add: loop_turn_def take_step_def after_reasoning_def turn_work_def set_status_def wseq_def wbind_def
        wget_def wmod_def wret_def fail_vars_def Let_def)
  then show ?thesis
    using failure_code_cases [of x "''step_failed''"] by blast
qed

text \<open>A generation the user stopped: the agent worker raises, and the run fails.\<close>

definition stopped_generation :: wf_failure where
  "stopped_generation = \<lparr>f_kind = ActivityFailure,
     f_head = \<lparr>xl_type = None, xl_message = Some ''Activity task failed'', xl_str = [], xl_application = False\<rparr>,
     f_causes = [\<lparr>xl_type = Some ''generation_cancelled'', xl_message = Some ''Stopped by user'', xl_str = [],
                   xl_application = True\<rparr>]\<rparr>"

definition stopped_env :: task_env where
  "stopped_env = two_step_env\<lparr>en_reason := (\<lambda>_. Inl stopped_generation)\<rparr>"

definition fresh_vars :: loop_vars where
  "fresh_vars = \<lparr>lv_done = False, lv_code = None, lv_message = None\<rparr>"

theorem raised_step_fails_witness:
  "\<exists>t. loop_turn \<lparr>ap_task_id = ''t'', ap_agent_id = ''a''\<rparr> ''r'' True fresh_vars stopped_env initial_task_state
     = (Val (Leave (fresh_vars\<lparr>lv_code := Some ''step_failed'', lv_message := Some ''Stopped by user''\<rparr>)), t)"
proof -
  have "fst (turn_work ''r'' True stopped_env initial_task_state) = Val (Inl stopped_generation)"
    by code_simp
  then obtain t where t: "turn_work ''r'' True stopped_env initial_task_state = (Val (Inl stopped_generation), t)"
    by (cases "turn_work ''r'' True stopped_env initial_task_state") simp
  have none: "list_all (\<lambda>k. specific_code k = None) (failure_chain stopped_generation)"
    "failure_message stopped_generation = ''Stopped by user''"
    by code_simp+
  have idle: "\<not> a_cancelled initial_task_state" "\<not> a_paused initial_task_state"
    by (simp_all add: initial_task_state_def)
  have specific: "specific_code l \<noteq> None" if "xl_type l = Some code" "code \<in> set SPECIFIC_FAILURE_CODES" for l code
    using that by (simp add: specific_code_def)
  from raised_step_fails [OF idle t, of "\<lparr>ap_task_id = ''t'', ap_agent_id = ''a''\<rparr>" fresh_vars] none specific show ?thesis
    by fastforce
qed

text \<open>A history in which the agent asks a colleague while the coordination activities are down.\<close>

definition coordination_down_env :: task_env where
  "coordination_down_env = two_step_env
     \<lparr>en_step := (\<lambda>_. Inr \<lparr>st_done = False, st_input_tokens = 3, st_output_tokens = 1, st_cost_micros = 0,
         st_waiting_approval_id = None, st_waiting_review_id = None, st_delegations = [],
         st_work_request_starts = [\<lparr>ws_work_request_id = ''w'', ws_task_id = ''t2'', ws_agent_id = ''b'',
                                    ws_side = ''requester''\<rparr>],
         st_corpus_sync_starts = [], st_review_decisions = [], st_person_questions = [],
         st_execution_unknown = None\<rparr>),
      en_unit := (\<lambda>_. Inl \<lparr>f_kind = ActivityFailure,
         f_head = \<lparr>xl_type = None, xl_message = None, xl_str = ''down'', xl_application = False\<rparr>, f_causes = []\<rparr>)\<rparr>"

text \<open>
  the preparation of a durable work-request answer is outside every \<open>try\<close> of the loop: when
  it fails after its retries the whole workflow raises, and the run that was admitted is never finalized.
\<close>

theorem continuation_failure_escapes:
  "case task_run \<lparr>ap_task_id = ''t'', ap_agent_id = ''a''\<rparr> coordination_down_env initial_task_state of
     (Exn _, t) \<Rightarrow> a_steps_used t = 1 \<and> \<not> list_ex (\<lambda>(c, _). is_finalize c) (a_trace t)
   | _ \<Rightarrow> False"
  by code_simp

section \<open>Where a cancelled run can be suspended\<close>

text \<open>
  \<open>parks P m\<close>: wherever \<open>m\<close> is suspended at a wait when the history ends, \<open>P\<close> holds of the state.
\<close>

definition parks :: "('s \<Rightarrow> bool) \<Rightarrow> ('env, 's, 'a, 'x) wf \<Rightarrow> bool" where
  "parks P m \<longleftrightarrow> (\<forall>env s t. m env s = (Parked AtWait, t) \<longrightarrow> P t)"

lemma parks_never: "(\<And>env s. fst (m env s) \<noteq> Parked AtWait) \<Longrightarrow> parks P m"
  unfolding parks_def by (metis fst_conv)

lemma parks_basic:
  "parks P (wret a)" "parks P (wraise x)" "parks P (wget f)" "parks P (wask g)" "parks P (wmod h)"
  by (simp_all add: parks_def w_simps)

lemma parks_bind: "parks P m \<Longrightarrow> (\<And>a. parks P (f a)) \<Longrightarrow> parks P (wbind m f)"
  unfolding parks_def by (auto elim!: wbindE)

lemma parks_seq: "parks P m \<Longrightarrow> parks P n \<Longrightarrow> parks P (wseq m n)"
  unfolding wseq_def by (rule parks_bind)

lemma parks_attempt: "parks P m \<Longrightarrow> parks P (attempt m)"
  by (auto simp: parks_def attempt_def split: prod.splits outcome.splits)

lemma parks_suppress: "parks P m \<Longrightarrow> parks P (suppress m)"
  unfolding suppress_def by (intro parks_bind parks_attempt parks_basic)

lemma parks_wif: "parks P m \<Longrightarrow> parks P (wif b m)"
  by (simp add: wif_def parks_basic)

lemma parks_for: "(\<And>i. parks P (f i)) \<Longrightarrow> parks P (wfor f is)"
  by (induction "is") (simp_all add: parks_basic parks_seq)

lemma parks_cases:
  "parks P m \<Longrightarrow> parks P n \<Longrightarrow> parks P (if b then m else n)"
  "parks P m \<Longrightarrow> (\<And>a. parks P (f a)) \<Longrightarrow> parks P (case x of None \<Rightarrow> m | Some a \<Rightarrow> f a)"
  "(\<And>a. parks P (g a)) \<Longrightarrow> (\<And>b. parks P (h b)) \<Longrightarrow> parks P (case y of Inl a \<Rightarrow> g a | Inr b \<Rightarrow> h b)"
  "(\<And>a b. parks P (k a b)) \<Longrightarrow> parks P (case z of (a, b) \<Rightarrow> k a b)"
  by (auto split: option.split sum.split prod.split)

lemmas parks_program = parks_basic parks_bind parks_seq parks_attempt parks_suppress parks_wif parks_for parks_cases

abbreviation uncancelled :: "task_state \<Rightarrow> bool" where
  "uncancelled s \<equiv> \<not> a_cancelled s"

lemma parks_command: "parks uncancelled (command c ans)"
  unfolding parks_def by (auto dest!: command_cases)

lemma parks_unit_command: "parks uncancelled (unit_command c)"
  unfolding unit_command_def by (rule parks_command)

lemma parks_wait:
  assumes "\<And>env s. a_cancelled s \<Longrightarrow> cond env s"
  shows "parks uncancelled (wait_condition cond)"
proof -
  have "wait_condition cond env s = (Parked AtWait, t) \<Longrightarrow> \<not> cond env t" for env s t
    by (induction cond env s arbitrary: t rule: wait_condition.induct)
       (subst (asm) (2) wait_condition.simps, auto split: if_splits)
  with assms show ?thesis
    unfolding parks_def by blast
qed

lemma parks_wait_timeout:
  assumes "\<And>env s. a_cancelled s \<Longrightarrow> cond env s"
  shows "parks uncancelled (wait_timeout cond)"
proof -
  have "wait_timeout cond env s = (Parked AtWait, t) \<Longrightarrow> \<not> cond env t" for env s t
    by (induction cond env s arbitrary: t rule: wait_timeout.induct)
       (subst (asm) (2) wait_timeout.simps, auto split: if_splits)
  with assms show ?thesis
    unfolding parks_def by blast
qed

lemma parks_test: "parks P (test cond)" and parks_child_result: "parks P (child_result h)"
  by (auto simp: parks_def test_def child_result_def split: sum.splits)

lemmas parks_steps = parks_program parks_command parks_unit_command parks_wait parks_wait_timeout
  parks_test parks_child_result

lemma parks_mark_paused: "parks uncancelled (mark_paused b)"
  unfolding mark_paused_def by (intro parks_steps)

lemma parks_run_delegation: "parks uncancelled (run_delegation d)"
  unfolding run_delegation_def set_status_def set_waiting_def by (intro parks_steps) (simp add: cancel_or_def)

lemma parks_run_delegations: "parks uncancelled (run_delegations ds)"
  by (induction ds) (auto intro!: parks_steps parks_run_delegation)

lemma parks_await_person: "parks uncancelled (await_person_answer q)"
  unfolding await_person_answer_def set_status_def set_waiting_def Let_def
  by (intro parks_steps) (simp_all add: cancel_or_def)

lemma parks_advance_corpus: "parks uncancelled (advance_corpus sync)"
proof -
  have "advance_corpus sync env s \<noteq> (Parked AtWait, t)" for env s t
  proof (induction sync env s arbitrary: t rule: advance_corpus.induct)
    case (1 sync env s)
    obtain q u where q: "command (CAdvanceCorpus sync) en_corpus_status env s = (q, u)"
      by fastforce
    then show ?case
      using advance_corpus.simps [of sync env s] "1.IH" [OF _ q [symmetric] _] command_cases [OF q]
      by (cases q) (auto split: if_splits)
  qed
  then show ?thesis
    by (simp add: parks_def)
qed

lemma parks_await_corpus: "parks uncancelled (await_corpus_sync sync)"
  unfolding await_corpus_sync_def by (intro parks_steps parks_advance_corpus)

lemma parks_start_work_request: "parks uncancelled (start_work_request_task params w)"
  unfolding start_work_request_task_def await_work_request_answer_def set_status_def set_waiting_def Let_def
  by (intro parks_steps) (simp add: cancel_or_def)

lemma parks_start_work_requests: "parks uncancelled (start_work_requests params ws b)"
  by (induction params ws b rule: start_work_requests.induct)
     (auto intro!: parks_steps parks_start_work_request)

lemma parks_forward_review: "parks uncancelled (forward_review params d)"
  unfolding forward_review_def by (intro parks_steps)

lemma parks_await_review: "parks uncancelled (await_review tw lv i)"
  unfolding await_review_def set_status_def set_waiting_def by (intro parks_steps) (simp add: cancel_or_def)

lemma parks_await_approval: "parks uncancelled (await_approval tw lv i)"
  unfolding await_approval_def resolve_approval_def set_status_def set_waiting_def
  by (intro parks_steps) (simp add: cancel_or_def)

lemma parks_settle_step: "parks uncancelled (settle_step params tw lv step)"
  unfolding settle_step_def
  by (intro parks_steps parks_run_delegations parks_await_person parks_await_corpus
      parks_start_work_requests parks_forward_review parks_await_review parks_await_approval)

lemma parks_execute_tools: "parks uncancelled (execute_tools run_id step os ids)"
  by (induction os arbitrary: ids) (auto intro!: parks_steps)

lemma parks_take_step: "parks uncancelled (take_step params run_id tw lv)"
  unfolding take_step_def after_reasoning_def reason_and_act_def run_agent_step_def set_status_def Let_def
  by (intro parks_steps parks_execute_tools parks_settle_step)

lemma parks_loop_turn: "parks uncancelled (loop_turn params run_id tw lv)"
  unfolding loop_turn_def pause_turn_def set_status_def set_waiting_def
  by (intro parks_steps parks_mark_paused parks_take_step) simp

lemma parks_cleanup: "parks uncancelled (cleanup_run_workspace run_id tw)"
  unfolding cleanup_run_workspace_def by (intro parks_steps)

lemma parks_finalize: "parks uncancelled (finalize run_id status code message tw skip)"
  unfolding finalize_def by (intro parks_steps parks_cleanup)

lemma parks_end_early: "parks uncancelled (end_early status code message)"
  unfolding end_early_def set_status_def by (intro parks_steps parks_finalize)

lemma parks_admission_round: "parks uncancelled admission_round"
  unfolding admission_round_def wait_for_slot_def set_status_def set_waiting_def
  by (intro parks_steps parks_end_early) (simp add: slot_or_cancel_def)

lemma parks_admit: "parks uncancelled admit"
  unfolding parks_def
proof (intro allI impI)
  fix env s t
  show "admit env s = (Parked AtWait, t) \<Longrightarrow> \<not> a_cancelled t"
  proof (induction env s arbitrary: t rule: admit.induct)
    case (1 env s)
    obtain q u where q: "admission_round env s = (q, u)"
      by fastforce
    then show ?case
      using "1.prems" "1.IH" [OF q [symmetric] _ refl refl] admit.simps [of env s] parks_admission_round
      by (auto simp: parks_def split: outcome.splits sum.splits option.splits)
  qed
qed

lemma parks_step_loop: "parks uncancelled (run_step_loop params run_id max_steps tw drain_late lv)"
  unfolding parks_def
proof (intro allI impI)
  fix env s t
  show "run_step_loop params run_id max_steps tw drain_late lv env s = (Parked AtWait, t) \<Longrightarrow> \<not> a_cancelled t"
  proof (induction params run_id max_steps tw drain_late lv env s arbitrary: t rule: run_step_loop.induct)
    case (1 params run_id max_steps tw drain_late lv env s)
    obtain q u where q: "loop_turn params run_id tw lv env s = (q, u)"
      by fastforce
    then show ?case
      using "1.prems" "1.IH" [OF _ q [symmetric] _ refl] parks_loop_turn [of params run_id tw lv]
        run_step_loop.simps [of params run_id max_steps tw drain_late lv env s]
      by (auto simp: parks_def split: outcome.splits turn.splits if_splits)
  qed
qed

lemma parks_run_pass: "parks uncancelled (run_pass params sn tw drain_late lv)"
  unfolding run_pass_def end_of_pass_def finish_run_def set_status_def
  by (intro parks_steps parks_step_loop parks_cleanup parks_finalize)

lemma parks_run_passes: "parks uncancelled (run_passes params sn tw drain_late lv)"
  unfolding parks_def
proof (intro allI impI)
  fix env s t
  show "run_passes params sn tw drain_late lv env s = (Parked AtWait, t) \<Longrightarrow> \<not> a_cancelled t"
  proof (induction params sn tw drain_late lv env s arbitrary: t rule: run_passes.induct)
    case (1 params sn tw drain_late lv env s)
    obtain q u where q: "run_pass params sn tw drain_late lv env s = (q, u)"
      by fastforce
    then show ?case
      using "1.prems" "1.IH" [OF q [symmetric] _ refl] parks_run_pass [of params sn tw drain_late lv]
        run_passes.simps [of params sn tw drain_late lv env s]
      by (auto simp: parks_def split: outcome.splits sum.splits)
  qed
qed

text \<open>
  C23 (liveness): a run that has been cancelled is never left suspended at one of its waits. When its
  history ends before it returns, it is waiting for the answer of a command it issued: no pause, queue,
  delegation, approval, review, question or work-request wait holds it.
\<close>

theorem cancelled_run_never_waits:
  "case task_run params env initial_task_state of
     (Parked AtWait, t) \<Rightarrow> \<not> a_cancelled t
   | _ \<Rightarrow> True"
proof -
  have "parks uncancelled (task_run params)"
    unfolding task_run_def run_admitted_def set_status_def set_waiting_def
    by (intro parks_steps parks_admit parks_end_early parks_run_passes)
  then show ?thesis
    by (auto simp: parks_def split: prod.splits outcome.splits park.splits)
qed

end
