(* ===== verification/GatewayState.thy ===== *)
theory GatewayState
  imports Evaluator WorkflowMonad
begin

text \<open>
  \<open>packages/tools/src/jhin_tools/gateway.py\<close>: the state one runtime invocation of a tool keeps. A session
  holds the row and the approvals as the process sees them, and the audit events it has added; the
  database holds what was committed. The process may die at any commit: it is then parked, and the next
  entry starts from what the database holds. The environment answers, entry by entry, what the live
  configuration says: registry, grants, rules, validators, review gate, connections and the executor.
\<close>

section \<open>Rows\<close>

datatype call_status =
    PENDING_APPROVAL | PENDING_REVIEW | CLAIMED | EXECUTING | EXECUTION_UNKNOWN
  | COMPLETED | FAILED | CALL_DENIED | REJECTED

definition TERMINAL_TOOL_STATUSES :: "call_status list" where
  "TERMINAL_TOOL_STATUSES = [COMPLETED, FAILED, CALL_DENIED, REJECTED]"

definition UNDISPATCHED_TOOL_STATUSES :: "call_status list" where
  "UNDISPATCHED_TOOL_STATUSES = [CLAIMED]"

definition UNPROVEN_DISPATCH_STATUSES :: "call_status list" where
  "UNPROVEN_DISPATCH_STATUSES = [EXECUTING, EXECUTION_UNKNOWN]"

definition MAX_DISPATCH_ATTEMPTS :: nat where
  "MAX_DISPATCH_ATTEMPTS = 3"

definition MAX_INVOCATION_ENTRIES :: nat where
  "MAX_INVOCATION_ENTRIES = MAX_DISPATCH_ATTEMPTS + 1"

definition REDISPATCH_EXHAUSTED_CODE :: string where
  "REDISPATCH_EXHAUSTED_CODE = ''execution_not_confirmed''"

definition APPROVAL_FORMAT_VERSION :: int where
  "APPROVAL_FORMAT_VERSION = 2"

definition TOOL_INVOCATION_FORMAT_VERSION :: int where
  "TOOL_INVOCATION_FORMAT_VERSION = 1"

definition MAX_DENIAL_REASON_CHARS :: nat where
  "MAX_DENIAL_REASON_CHARS = 400"

record exec_context =
  x_workspace :: string
  x_agent :: string
  x_run :: string
  x_task :: string

record call_row =
  cr_workspace :: string
  cr_agent :: string
  cr_run :: string
  cr_tool :: string
  cr_connection :: "string option"
  cr_input :: "pyval dict"
  cr_output :: "pyval dict"
  cr_status :: call_status
  cr_approval :: "string option"
  cr_review :: "string option"
  cr_error :: "string option"

datatype approval_status = AP_PENDING | AP_APPROVED | AP_REJECTED | AP_CANCELLED

text \<open>\<open>action_payload_sanitized\<close> of an approval\<close>

record approval_payload =
  pl_format_version :: int
  pl_context :: exec_context
  pl_tool_name :: string
  pl_capability :: string
  pl_risk :: string
  pl_input :: "pyval dict"
  pl_tool_call_id :: string
  pl_invocation_format_version :: int
  pl_invocation_id :: string
  pl_connection_digest :: "string option"
  pl_provider_call_id :: string

record approval_row =
  aw_context :: exec_context
  aw_action_type :: string
  aw_payload :: approval_payload
  aw_reason :: string
  aw_status :: approval_status

datatype review_status = RV_PENDING | RV_APPROVED | RV_CHANGES_REQUESTED | RV_SKIPPED | RV_ESCALATED

fun review_status_value :: "review_status \<Rightarrow> string" where
  "review_status_value RV_PENDING = ''pending''"
| "review_status_value RV_APPROVED = ''approved''"
| "review_status_value RV_CHANGES_REQUESTED = ''changes_requested''"
| "review_status_value RV_SKIPPED = ''skipped''"
| "review_status_value RV_ESCALATED = ''escalated''"

record work_review =
  wv_subject_agent :: string
  wv_run :: string
  wv_task :: "string option"
  wv_tool_call :: "string option"
  wv_status :: review_status
  wv_feedback :: string
  wv_reviewer_type :: string

text \<open>The audit actions about one tool call.\<close>

datatype audit_event =
    AuRequested | AuClaimed | AuReentered string | AuDispatched
  | AuDenied string | AuFailed string | AuExecuted | AuUnknown | AuRejected
  | AuApprovalRequested string | AuResolutionFailed string | AuApproved string | AuReviewRequested string | AuReviewApproved string

section \<open>Outcomes\<close>

datatype gateway_status =
    EXECUTED | OUT_FAILED | OUT_DENIED | NEEDS_APPROVAL | NEEDS_REVIEW | OUT_REJECTED | OUT_UNKNOWN

record gateway_outcome =
  go_status :: gateway_status
  go_tool_name :: string
  go_risk :: "string option"
  go_decision_code :: string
  go_decision_reason :: string
  go_sanitized_input :: "pyval dict"
  go_sanitized_output :: "pyval dict option"
  go_approval_id :: "string option"
  go_review_id :: "string option"
  go_provider_call_id :: "string option"
  go_error_code :: "string option"
  go_replayed :: bool

datatype gateway_error = GatewayStateError string | Interrupted

section \<open>Environment and state\<close>

datatype gate_status = PROCEED | WAIT_REVIEW | GATE_BLOCKED

record gate_result =
  ga_status :: gate_status
  ga_code :: string
  ga_reason :: string
  ga_review_id :: "string option"
  ga_reviewer_type :: "string option"
  ga_feedback :: string

text \<open>
  What an executor does: produce an output, raise a \<open>ToolExecutionError\<close> (code, side effect possible,
  hint, detail), raise anything else, be cancelled, or take the process with it.
\<close>

datatype executor_result =
    Produced "pyval dict"
  | ToolError string bool string string
  | Raised string
  | CancelledInside
  | DiedInside

record gateway_env =
  gv_context :: exec_context
  gv_invocation :: string
  gv_crash :: "nat \<Rightarrow> bool"
  gv_parse :: "string \<Rightarrow> pyval option"
  gv_sanitize :: "pyval dict \<Rightarrow> pyval dict"
  gv_uuid :: "string \<Rightarrow> string option"
  gv_str :: "pyval \<Rightarrow> string"
  gv_catalog :: "nat \<Rightarrow> string \<Rightarrow> tool option"
  gv_validate :: "nat \<Rightarrow> string \<Rightarrow> pyval dict \<Rightarrow> string + pyval dict"
  gv_run :: "nat \<Rightarrow> string \<Rightarrow> exec_context option"
  gv_task_metadata :: "nat \<Rightarrow> pyval dict option"
  gv_grants :: "nat \<Rightarrow> grant list"
  gv_rules :: "nat \<Rightarrow> policy_rule list"
  gv_validator :: "nat \<Rightarrow> string \<Rightarrow> pyval dict \<Rightarrow> grant list \<Rightarrow> policy_decision option"
  gv_readiness :: "nat \<Rightarrow> tool \<Rightarrow> pyval dict \<Rightarrow> policy_decision option"
  gv_gate :: "nat \<Rightarrow> tool \<Rightarrow> (string \<times> string) + gate_result"
  gv_digest :: "nat \<Rightarrow> string \<Rightarrow> string option"
  gv_locked_digest :: "nat \<Rightarrow> string \<Rightarrow> string option"
  gv_executor :: "nat \<Rightarrow> executor_result"
  gv_new_approval_id :: "nat \<Rightarrow> string"

text \<open>
  Two ghost components, which no operation reads: \<open>gw_effects\<close> records every time an executor was entered (the
  entry it happened in, the definition, the input, and the approval row the call was resolved under), and
  \<open>gw_trail\<close> the status of the row each commit leaves in the database.
\<close>

record effect =
  ef_entry :: nat
  ef_tool :: tool
  ef_input :: "pyval dict"
  ef_approval :: "approval_row option"

record gateway_state =
  gw_entry :: nat
  gw_commits :: nat
  gw_row :: "call_row option"
  gw_db :: "call_row option"
  gw_approvals :: "string \<Rightarrow> approval_row option"
  gw_db_approvals :: "string \<Rightarrow> approval_row option"
  gw_reviews :: "string \<Rightarrow> work_review option"
  gw_staged :: "audit_event list"
  gw_audits :: "audit_event list"
  gw_effects :: "effect list"
  gw_trail :: "call_status option list"

type_synonym 'a gw = "(gateway_env, gateway_state, 'a, gateway_error) wf"

definition row_status :: "call_row option \<Rightarrow> call_status option" where
  "row_status row = map_option cr_status row"

section \<open>Session operations\<close>

definition commit :: "unit gw" where
  "commit env s =
     (let t = s\<lparr>gw_db := gw_row s, gw_db_approvals := gw_approvals s, gw_audits := gw_audits s @ gw_staged s,
                gw_staged := [], gw_commits := Suc (gw_commits s),
                gw_trail := gw_trail s @ [row_status (gw_row s)]\<rparr>
      in if gv_crash env (gw_commits s) then (Parked AtCommand, t) else (Val (), t))"

definition discard :: "gateway_state \<Rightarrow> gateway_state" where
  "discard s = s\<lparr>gw_row := gw_db s, gw_approvals := gw_db_approvals s, gw_staged := []\<rparr>"

definition rollback :: "unit gw" where
  "rollback = wmod discard"

definition audit :: "audit_event \<Rightarrow> unit gw" where
  "audit a = wmod (\<lambda>s. s\<lparr>gw_staged := gw_staged s @ [a]\<rparr>)"

text \<open>Writing the columns of the row the session holds.\<close>

definition write_row :: "(call_row \<Rightarrow> call_row) \<Rightarrow> unit gw" where
  "write_row f = wmod (\<lambda>s. s\<lparr>gw_row := map_option f (gw_row s)\<rparr>)"

definition state_error :: "string \<Rightarrow> 'a gw" where
  "state_error message = wraise (GatewayStateError message)"

text \<open>A read of the environment at the current entry.\<close>

definition live :: "(gateway_env \<Rightarrow> nat \<Rightarrow> 'a) \<Rightarrow> 'a gw" where
  "live f env s = (Val (f env (gw_entry s)), s)"

text \<open>The process dies without committing anything more.\<close>

definition die :: "'a gw" where
  "die env s = (Parked AtCommand, s)"

definition next_entry :: "unit gw" where
  "next_entry = wmod (\<lambda>s. s\<lparr>gw_entry := Suc (gw_entry s)\<rparr>)"

text \<open>The row with this id, which the callers that already hold it rely on to be there.\<close>

definition the_row :: "call_row gw" where
  "the_row =
     wbind (wget gw_row) (\<lambda>r. case r of None \<Rightarrow> state_error ''tool call disappeared'' | Some row \<Rightarrow> wret row)"

definition the_approval :: "string option \<Rightarrow> approval_row option gw" where
  "the_approval i = wget (\<lambda>s. case i of None \<Rightarrow> None | Some a \<Rightarrow> gw_approvals s a)"

section \<open>Values\<close>

definition same_json :: "pyval dict \<Rightarrow> pyval dict \<Rightarrow> bool" where
  "same_json d e \<longleftrightarrow> py_eq (PDict d) (PDict e)"

definition connection_uuid :: "gateway_env \<Rightarrow> pyval dict \<Rightarrow> string option" where
  "connection_uuid env dumped =
     (case dict_get dumped ''connection_id'' of Some (PStr raw) \<Rightarrow> gv_uuid env raw | _ \<Rightarrow> None)"

definition requested_scope :: "tool \<Rightarrow> pyval dict \<Rightarrow> pyval dict" where
  "requested_scope t dumped =
     concat (map (\<lambda>key. case dict_get dumped key of
                          None \<Rightarrow> [] | Some v \<Rightarrow> if v = PNone then [] else [(key, v)]) (t_scope_keys t))"

definition denial_output :: "string \<Rightarrow> string \<Rightarrow> pyval dict" where
  "denial_output code reason =
     [(''error'', PStr code), (''reason'', PStr (take MAX_DENIAL_REASON_CHARS reason))]"

definition mode_denial :: "tool \<Rightarrow> pyval dict \<Rightarrow> (string \<times> string) option" where
  "mode_denial t metadata =
     (if (case dict_get metadata ''stop_requested_at'' of None \<Rightarrow> False | Some v \<Rightarrow> py_truthy v)
      then Some (''turn_stopping'', ''This turn is stopping; no new actions can start.'')
      else
        (let mode = (case dict_get metadata ''execution_mode'' of None \<Rightarrow> PStr ''act'' | Some v \<Rightarrow> v)
         in if (mode = PStr ''ask'' \<or> mode = PStr ''plan'') \<and> t_risk t \<noteq> READ
               \<and> t_name t \<noteq> ''organization.ask_person''
            then Some (''turn_mode_read_only'',
                       (if mode = PStr ''ask'' then ''Ask'' else ''Plan'') @
                       '' mode allows read-only tools. Start an Act turn to make changes.'')
            else None))"

end
