(* ===== verification/GatewayRecovery.thy ===== *)
theory GatewayRecovery
  imports GatewayState
begin

text \<open>
  \<open>packages/tools/src/jhin_tools/gateway.py\<close>: what the gateway makes of a row an earlier attempt left
  behind. Terminal rows are replayed; a claim whose executor was never entered is taken over; a
  dispatched call nobody can vouch for is re-opened, closed as a failure or recorded as unknown.
\<close>

section \<open>Outcomes\<close>

fun gateway_status_value :: "gateway_status \<Rightarrow> string" where
  "gateway_status_value EXECUTED = ''executed''"
| "gateway_status_value OUT_FAILED = ''failed''"
| "gateway_status_value OUT_DENIED = ''denied''"
| "gateway_status_value NEEDS_APPROVAL = ''needs_approval''"
| "gateway_status_value NEEDS_REVIEW = ''needs_review''"
| "gateway_status_value OUT_REJECTED = ''rejected''"
| "gateway_status_value OUT_UNKNOWN = ''execution_unknown''"

text \<open>The \<open>status_map\<close> of \<open>_replayed_outcome\<close>; its callers hold a terminal row.\<close>

fun replay_status :: "call_status \<Rightarrow> gateway_status" where
  "replay_status COMPLETED = EXECUTED"
| "replay_status CALL_DENIED = OUT_DENIED"
| "replay_status REJECTED = OUT_REJECTED"
| "replay_status _ = OUT_FAILED"

definition outcome_of :: "call_row \<Rightarrow> gateway_status \<Rightarrow> string option \<Rightarrow> string \<Rightarrow> string \<Rightarrow> gateway_outcome" where
  "outcome_of row status risk code reason =
     \<lparr>go_status = status, go_tool_name = cr_tool row, go_risk = risk, go_decision_code = code,
      go_decision_reason = reason, go_sanitized_input = cr_input row, go_sanitized_output = None,
      go_approval_id = None, go_review_id = None, go_provider_call_id = None, go_error_code = None,
      go_replayed = False\<rparr>"

definition approval_risk :: "approval_row option \<Rightarrow> string option \<Rightarrow> string option" where
  "approval_risk approval risk = (case approval of None \<Rightarrow> risk | Some a \<Rightarrow> Some (pl_risk (aw_payload a)))"

definition approval_provider_call :: "approval_row option \<Rightarrow> string option" where
  "approval_provider_call approval = map_option (\<lambda>a. pl_provider_call_id (aw_payload a)) approval"

definition or_text :: "string option \<Rightarrow> string \<Rightarrow> string" where
  "or_text t fallback = (case t of None \<Rightarrow> fallback | Some x \<Rightarrow> if x = [] then fallback else x)"

definition replayed_outcome :: "call_row \<Rightarrow> approval_row option \<Rightarrow> string option \<Rightarrow> gateway_outcome" where
  "replayed_outcome row approval risk =
     (let status = replay_status (cr_status row)
      in (outcome_of row status (approval_risk approval risk)
            (if status = EXECUTED then ''granted'' else or_text (cr_error row) (gateway_status_value status))
            ''replayed the persisted terminal tool-call outcome'')
           \<lparr>go_sanitized_output := (if status = EXECUTED \<or> status = OUT_FAILED then Some (cr_output row) else None),
            go_approval_id := (if approval = None then None else cr_approval row),
            go_provider_call_id := approval_provider_call approval,
            go_error_code := cr_error row, go_replayed := True\<rparr>)"

definition execution_unknown_outcome ::
  "call_row \<Rightarrow> approval_row option \<Rightarrow> string option \<Rightarrow> bool \<Rightarrow> gateway_outcome" where
  "execution_unknown_outcome row approval risk replayed =
     (outcome_of row OUT_UNKNOWN (approval_risk approval risk) ''execution_outcome_unknown''
        (''the tool may have produced an external effect, but its terminal '' @
         ''outcome could not be proven; manual reconciliation is required''))
       \<lparr>go_approval_id := cr_approval row, go_provider_call_id := approval_provider_call approval,
        go_error_code := Some ''execution_outcome_unknown'', go_replayed := replayed\<rparr>"

definition needs_review_outcome :: "call_row \<Rightarrow> string \<Rightarrow> string option \<Rightarrow> string \<Rightarrow> bool \<Rightarrow> gateway_outcome" where
  "needs_review_outcome row review_id risk reason replayed =
     (outcome_of row NEEDS_REVIEW risk ''review_required'' reason)
       \<lparr>go_review_id := Some review_id, go_replayed := replayed\<rparr>"

definition denied_outcome ::
  "gateway_env \<Rightarrow> string \<Rightarrow> string option \<Rightarrow> string \<Rightarrow> string \<Rightarrow> pyval dict \<Rightarrow> gateway_outcome" where
  "denied_outcome env tool_name risk code reason sanitized_input =
     \<lparr>go_status = OUT_DENIED, go_tool_name = tool_name, go_risk = risk, go_decision_code = code,
      go_decision_reason = reason, go_sanitized_input = sanitized_input, go_sanitized_output = None,
      go_approval_id = None, go_review_id = None, go_provider_call_id = None, go_error_code = Some code,
      go_replayed = False\<rparr>"

section \<open>Unproven dispatches\<close>

definition redispatch_is_safe :: "gateway_env \<Rightarrow> nat \<Rightarrow> string \<Rightarrow> bool" where
  "redispatch_is_safe env entry tool_name =
     (case gv_catalog env entry tool_name of None \<Rightarrow> False | Some t \<Rightarrow> t_redispatch_is_safe t)"

definition dispatch_count :: "gateway_state \<Rightarrow> nat" where
  "dispatch_count s = length (filter (\<lambda>a. a = AuDispatched) (gw_audits s @ gw_staged s))"

definition mark_unknown :: "call_row \<Rightarrow> call_row" where
  "mark_unknown row = row\<lparr>cr_status := EXECUTION_UNKNOWN, cr_error := Some ''execution_outcome_unknown''\<rparr>"

definition persist_execution_unknown :: "string option \<Rightarrow> string \<Rightarrow> gateway_outcome gw" where
  "persist_execution_unknown risk detail =
     wbind (wget gw_row) (\<lambda>found.
     case found of
       None \<Rightarrow> state_error ''tool call disappeared after executor dispatch''
     | Some row \<Rightarrow>
         wbind (the_approval (cr_approval row)) (\<lambda>approval.
         if cr_status row \<in> set TERMINAL_TOOL_STATUSES then wret (replayed_outcome row approval risk)
         else if cr_status row = EXECUTING then
           wbind (wask gv_sanitize) (\<lambda>sanitize.
           wseq (write_row mark_unknown)
           (wseq (if detail = [] then wret ()
                  else write_row (\<lambda>r. r\<lparr>cr_output := sanitize
                         [(''error'', PStr ''execution_outcome_unknown''), (''detail'', PStr detail)]\<rparr>))
           (wseq (audit AuUnknown)
           (wseq commit
           (wbind the_row (\<lambda>r. wret (execution_unknown_outcome r approval risk False)))))))
         else if cr_status row = EXECUTION_UNKNOWN then wret (execution_unknown_outcome row approval risk False)
         else state_error ''tool call has unexpected status''))"

definition reopen_unproven_dispatch :: "unit gw" where
  "reopen_unproven_dispatch =
     wseq (write_row (\<lambda>r. r\<lparr>cr_status := CLAIMED, cr_error := None, cr_output := []\<rparr>))
     (wseq (audit (AuReentered ''redispatch_after_unproven_outcome'')) commit)"

definition exhausted_reason :: "string \<Rightarrow> nat \<Rightarrow> string" where
  "exhausted_reason tool_name attempts =
     ''the '' @ tool_name @ '' tool was started '' @ show_nat attempts @ '' times and never reported an '' @
     ''outcome, most likely because the worker running it was restarted each time; '' @
     ''nothing outside the sandbox can have changed''"

definition persist_redispatch_exhausted :: "call_row \<Rightarrow> string option \<Rightarrow> string \<Rightarrow> gateway_outcome gw" where
  "persist_redispatch_exhausted row risk reason =
     wbind (wask gv_sanitize) (\<lambda>sanitize.
     let output = sanitize
       [(''error'', PStr REDISPATCH_EXHAUSTED_CODE),
        (''hint'', PStr (''This call never got to report a result, and nothing outside the '' @
                       ''sandbox changed. Call the tool again; if it keeps ending this way, '' @
                       ''say so rather than assuming the work was done.'')),
        (''detail'', PStr reason)]
     in wseq (write_row (\<lambda>r. r\<lparr>cr_status := FAILED, cr_error := Some REDISPATCH_EXHAUSTED_CODE, cr_output := output\<rparr>))
        (wseq (audit (AuFailed REDISPATCH_EXHAUSTED_CODE))
        (wseq commit
          (wret ((outcome_of row OUT_FAILED risk REDISPATCH_EXHAUSTED_CODE reason)
                   \<lparr>go_sanitized_output := Some output, go_approval_id := cr_approval row,
                    go_error_code := Some REDISPATCH_EXHAUSTED_CODE\<rparr>)))))"

text \<open>\<open>_reconcile_unproven_dispatch\<close>; \<open>None\<close> lets the caller carry on and run the call.\<close>

definition record_unknown :: "approval_row option \<Rightarrow> string option \<Rightarrow> gateway_outcome gw" where
  "record_unknown approval risk =
     wseq (write_row mark_unknown)
     (wseq (audit AuUnknown)
     (wseq commit (wbind the_row (\<lambda>row. wret (execution_unknown_outcome row approval risk False)))))"

definition reconcile_unproven_dispatch ::
  "string option \<Rightarrow> approval_row option \<Rightarrow> gateway_outcome option gw" where
  "reconcile_unproven_dispatch risk approval =
     wbind the_row (\<lambda>row.
     if cr_status row \<in> set TERMINAL_TOOL_STATUSES then wret (Some (replayed_outcome row approval risk))
     else if cr_status row \<notin> set UNPROVEN_DISPATCH_STATUSES
     then state_error ''tool call left an unproven dispatch''
     else
       wbind (live (\<lambda>env entry. redispatch_is_safe env entry (cr_tool row))) (\<lambda>safe.
       if safe then
         wbind (wget dispatch_count) (\<lambda>attempts.
         if attempts < MAX_DISPATCH_ATTEMPTS then wseq reopen_unproven_dispatch (wret None)
         else wbind (persist_redispatch_exhausted row risk (exhausted_reason (cr_tool row) attempts))
                (\<lambda>outcome. wret (Some outcome)))
       else if cr_status row = EXECUTION_UNKNOWN
       then wret (Some (execution_unknown_outcome row approval risk True))
       else wbind (record_unknown approval risk) (\<lambda>outcome. wret (Some outcome))))"

definition close_unprovable_unvalidated :: "approval_row option \<Rightarrow> gateway_outcome gw" where
  "close_unprovable_unvalidated approval =
     wbind the_row (\<lambda>row.
     wbind (live (\<lambda>env entry. redispatch_is_safe env entry (cr_tool row))) (\<lambda>safe.
     if safe then
       persist_redispatch_exhausted row None
         (''the '' @ cr_tool row @ '' call was dispatched and never reported an outcome, '' @
          ''and it can no longer be re-run because its arguments no longer match the '' @
          ''tool'' @ [CHR 0x27] @ ''s schema; nothing outside the sandbox can have changed'')
     else if cr_status row = EXECUTION_UNKNOWN then wret (execution_unknown_outcome row approval None True)
     else record_unknown approval None))"

section \<open>Claims\<close>

text \<open>
  \<open>_adopt_undispatched_claim\<close>: guarded on \<open>claimed\<close>; the value says whether the row was taken over. What
  the caller then sets on the row it got back is the \<open>edit\<close>.
\<close>

definition adopt_undispatched_claim ::
  "call_status \<Rightarrow> string option \<Rightarrow> string option \<Rightarrow> (call_row \<Rightarrow> call_row) \<Rightarrow> bool gw" where
  "adopt_undispatched_claim to_status approval_id review_id edit =
     wbind (wget gw_row) (\<lambda>found.
     case found of
       None \<Rightarrow> wret False
     | Some row \<Rightarrow>
         if cr_status row \<notin> set UNDISPATCHED_TOOL_STATUSES then wret False
         else wseq (write_row (\<lambda>r. edit (r\<lparr>cr_status := to_status, cr_error := None,
                cr_approval := (if approval_id = None then cr_approval r else approval_id),
                cr_review := (if review_id = None then cr_review r else review_id)\<rparr>)))
              (wret True))"

text \<open>
  \<open>_mark_dispatched\<close>: a compare-and-set on the committed row, on its own connection; the value says
  whether this attempt won it. The session sees the row again after \<open>refresh\<close>.
\<close>

definition mark_dispatched :: "bool gw" where
  "mark_dispatched env s =
     (case gw_db s of
        Some row \<Rightarrow>
          if cr_status row = CLAIMED
          then (let t = s\<lparr>gw_db := Some (row\<lparr>cr_status := EXECUTING\<rparr>), gw_row := Some (row\<lparr>cr_status := EXECUTING\<rparr>),
                          gw_audits := gw_audits s @ [AuDispatched], gw_commits := Suc (gw_commits s),
                          gw_trail := gw_trail s @ [Some EXECUTING]\<rparr>
                in if gv_crash env (gw_commits s) then (Parked AtCommand, t) else (Val True, t))
          else (Val False, discard s)
      | None \<Rightarrow> (Val False, discard s))"

section \<open>Existing rows\<close>

definition invocation_mismatch_outcome ::
  "string \<Rightarrow> string option \<Rightarrow> pyval dict \<Rightarrow> gateway_outcome gw" where
  "invocation_mismatch_outcome tool_name risk sanitized_input =
     wseq (audit (AuDenied ''invocation_mismatch''))
     (wseq commit
       (wbind (wask (\<lambda>env. denied_outcome env tool_name risk ''invocation_mismatch''
          (''runtime invocation key is already bound to a different tool, input, '' @ ''or execution context'')
          sanitized_input)) wret))"

definition invocation_mismatch :: "tool \<Rightarrow> pyval dict \<Rightarrow> gateway_outcome gw" where
  "invocation_mismatch t dumped =
     wbind (wask (\<lambda>env. gv_sanitize env dumped)) (\<lambda>sanitized.
       invocation_mismatch_outcome (t_name t) (Some (risk_value (t_risk t))) sanitized)"

text \<open>The row belongs to the durable context of this invocation.\<close>

definition same_execution_context :: "gateway_env \<Rightarrow> nat \<Rightarrow> call_row \<Rightarrow> bool" where
  "same_execution_context env entry row =
     (let ctx = gv_context env
      in cr_workspace row = x_workspace ctx \<and> cr_agent row = x_agent ctx \<and> cr_run row = x_run ctx
         \<and> (case gv_run env entry (cr_run row) of
              None \<Rightarrow> False
            | Some run \<Rightarrow> x_workspace run = x_workspace ctx \<and> x_agent run = x_agent ctx \<and> x_task run = x_task ctx))"

definition approval_matches_call :: "gateway_env \<Rightarrow> tool \<Rightarrow> pyval dict \<Rightarrow> approval_row \<Rightarrow> bool" where
  "approval_matches_call env t dumped approval =
     (let ctx = gv_context env; actx = aw_context approval; p = aw_payload approval
      in x_task actx = x_task ctx \<and> x_run actx = x_run ctx \<and> x_agent actx = x_agent ctx
         \<and> aw_action_type approval = t_name t
         \<and> pl_format_version p = APPROVAL_FORMAT_VERSION \<and> pl_context p = ctx
         \<and> pl_tool_name p = t_name t \<and> pl_capability p = t_required_capability t
         \<and> pl_risk p = risk_value (t_risk t) \<and> same_json (pl_input p) dumped
         \<and> pl_tool_call_id p = gv_invocation env
         \<and> pl_invocation_format_version p = TOOL_INVOCATION_FORMAT_VERSION
         \<and> pl_invocation_id p = gv_invocation env)"

definition approval_of_row :: "call_row \<Rightarrow> approval_row option gw" where
  "approval_of_row row =
     wbind (wask gv_context) (\<lambda>ctx.
     wget (\<lambda>s. case cr_approval row of
                 None \<Rightarrow> None
               | Some i \<Rightarrow> (case gw_approvals s i of
                              None \<Rightarrow> None
                            | Some a \<Rightarrow> if x_workspace (aw_context a) = x_workspace ctx then Some a else None)))"

definition audit_claim_reentered :: "unit gw" where
  "audit_claim_reentered = wseq (audit (AuReentered ''claim_not_dispatched'')) commit"

definition needs_approval_outcome ::
  "call_row \<Rightarrow> string option \<Rightarrow> string \<Rightarrow> string \<Rightarrow> string option \<Rightarrow> string option \<Rightarrow> string option \<Rightarrow> bool \<Rightarrow> gateway_outcome" where
  "needs_approval_outcome row risk code reason approval_id review_id provider_call replayed =
     (outcome_of row NEEDS_APPROVAL risk code reason)
       \<lparr>go_approval_id := approval_id, go_review_id := review_id, go_provider_call_id := provider_call,
        go_replayed := replayed\<rparr>"

text \<open>The second half of \<open>_existing_invocation_outcome\<close>: what the row's status means for a retry.\<close>

definition replay_by_status ::
  "tool \<Rightarrow> pyval dict \<Rightarrow> call_row \<Rightarrow> approval_row option \<Rightarrow> (gateway_outcome option \<times> bool) gw" where
  "replay_by_status t dumped row approval =
     (let risk = Some (risk_value (t_risk t))
      in if cr_status row = PENDING_REVIEW then
           wbind (wget (\<lambda>s. Option.bind (cr_review row) (gw_reviews s))) (\<lambda>review.
           case review of
             None \<Rightarrow> wbind (invocation_mismatch t dumped) (\<lambda>outcome. wret (Some outcome, False))
           | Some _ \<Rightarrow>
               wret (Some (needs_review_outcome row (case cr_review row of None \<Rightarrow> [] | Some i \<Rightarrow> i) risk
                       (''this call is parked on review '' @ (case cr_review row of None \<Rightarrow> [] | Some i \<Rightarrow> i)) True), False))
         else if cr_status row \<in> set TERMINAL_TOOL_STATUSES then
           wret (Some (replayed_outcome row approval risk), False)
         else if cr_status row \<in> set UNDISPATCHED_TOOL_STATUSES then
           wseq audit_claim_reentered (wret (None, True))
         else if cr_status row \<in> set UNPROVEN_DISPATCH_STATUSES then
           wbind (reconcile_unproven_dispatch risk approval) (\<lambda>unproven.
           case unproven of None \<Rightarrow> wret (None, True) | Some outcome \<Rightarrow> wret (Some outcome, False))
         else (case approval of
                 Some a \<Rightarrow>
                   wret (Some (needs_approval_outcome row risk ''approval_required'' (aw_reason a) (cr_approval row) None
                           (approval_provider_call approval) True), False)
               | None \<Rightarrow> state_error ''tool call has unexpected status''))"

definition existing_invocation_outcome ::
  "tool \<Rightarrow> pyval dict \<Rightarrow> (gateway_outcome option \<times> bool) gw" where
  "existing_invocation_outcome t dumped =
     wbind (wget gw_row) (\<lambda>found.
     case found of
       None \<Rightarrow> wret (None, False)
     | Some row \<Rightarrow>
         wbind (live (\<lambda>env entry. same_execution_context env entry row \<and> cr_tool row = t_name t
                       \<and> same_json (cr_input row) dumped \<and> cr_connection row = connection_uuid env dumped)) (\<lambda>same.
         if \<not> same then wbind (invocation_mismatch t dumped) (\<lambda>outcome. wret (Some outcome, False))
         else
           wbind (approval_of_row row) (\<lambda>approval.
           wbind (wask (\<lambda>env. cr_approval row = None
                     \<or> (case approval of None \<Rightarrow> False | Some a \<Rightarrow> approval_matches_call env t dumped a))) (\<lambda>bound.
           if \<not> bound then wbind (invocation_mismatch t dumped) (\<lambda>outcome. wret (Some outcome, False))
           else replay_by_status t dumped row approval))))"

text \<open>
  \<open>_existing_unvalidated_invocation\<close>: the row met when the tool is gone or refuses the arguments. A claim
  that was never dispatched becomes the denial this attempt records.
\<close>

definition deny_in_place :: "call_row \<Rightarrow> string \<Rightarrow> string \<Rightarrow> gateway_outcome gw" where
  "deny_in_place row code reason =
     wseq (write_row (\<lambda>r. r\<lparr>cr_status := CALL_DENIED, cr_error := Some code, cr_output := denial_output code reason\<rparr>))
     (wseq (audit (AuDenied code))
     (wseq commit
       (wbind (wask (\<lambda>env. denied_outcome env (cr_tool row) None code reason (cr_input row))) wret)))"

definition existing_unvalidated_invocation ::
  "string \<Rightarrow> pyval dict \<Rightarrow> pyval dict option \<Rightarrow> string \<Rightarrow> string \<Rightarrow> gateway_outcome option gw" where
  "existing_unvalidated_invocation tool_name sanitized_input canonical_input denial_code denial_reason =
     wbind (wget gw_row) (\<lambda>found.
     case found of
       None \<Rightarrow> wret None
     | Some row \<Rightarrow>
         wbind (live (\<lambda>env entry. same_execution_context env entry row \<and> cr_tool row = tool_name)) (\<lambda>same.
         wbind
           (if \<not> same then invocation_mismatch_outcome tool_name None sanitized_input
            else
              (let expected = (if cr_status row = CALL_DENIED then Some sanitized_input else canonical_input);
                   undispatched = (cr_status row \<in> set UNDISPATCHED_TOOL_STATUSES)
               in if \<not> undispatched
                     \<and> (case expected of None \<Rightarrow> True | Some e \<Rightarrow> \<not> same_json (cr_input row) e)
                  then invocation_mismatch_outcome tool_name None sanitized_input
                  else
                    wbind (the_approval (cr_approval row)) (\<lambda>approval.
                    if cr_status row \<in> set TERMINAL_TOOL_STATUSES then wret (replayed_outcome row approval None)
                    else if cr_status row = EXECUTION_UNKNOWN then close_unprovable_unvalidated approval
                    else if undispatched then deny_in_place row denial_code denial_reason
                    else if cr_status row = EXECUTING then close_unprovable_unvalidated approval
                    else invocation_mismatch_outcome tool_name None sanitized_input)))
           (\<lambda>outcome. wret (Some outcome))))"

section \<open>Recording a denial\<close>

definition new_row ::
  "gateway_env \<Rightarrow> string \<Rightarrow> string option \<Rightarrow> pyval dict \<Rightarrow> call_status \<Rightarrow> call_row" where
  "new_row env tool_name connection_id input status =
     \<lparr>cr_workspace = x_workspace (gv_context env), cr_agent = x_agent (gv_context env),
      cr_run = x_run (gv_context env), cr_tool = tool_name, cr_connection = connection_id, cr_input = input,
      cr_output = [], cr_status = status, cr_approval = None, cr_review = None, cr_error = None\<rparr>"

text \<open>
  Adding a row with the invocation's id to the session: the value is \<open>False\<close> when the database already
  holds one, which the code meets as an \<open>IntegrityError\<close> and answers with a rollback.
\<close>

definition insert_row :: "call_row \<Rightarrow> bool gw" where
  "insert_row row env s =
     (if gw_db s = None then (Val True, s\<lparr>gw_row := Some row\<rparr>) else (Val False, discard s))"

definition persist_denial ::
  "string \<Rightarrow> string \<Rightarrow> string \<Rightarrow> pyval dict \<Rightarrow> string option \<Rightarrow> string option \<Rightarrow> bool \<Rightarrow> gateway_outcome gw" where
  "persist_denial tool_name code reason sanitized_input risk connection_id adopt_claim =
     wbind (wask (\<lambda>env. denied_outcome env tool_name risk code reason sanitized_input)) (\<lambda>outcome.
     wbind (if adopt_claim
            then adopt_undispatched_claim CALL_DENIED None None
                   (\<lambda>r. r\<lparr>cr_error := Some code, cr_output := denial_output code reason,
                         cr_connection := connection_id\<rparr>)
            else wret False) (\<lambda>adopted.
     if adopted then wseq (audit (AuDenied code)) (wseq commit (wret outcome))
     else
       wbind (wask (\<lambda>env. (new_row env tool_name connection_id sanitized_input CALL_DENIED)
                    \<lparr>cr_output := denial_output code reason, cr_error := Some code\<rparr>)) (\<lambda>row.
       wbind (insert_row row) (\<lambda>inserted.
       if inserted then
         wseq (audit AuRequested) (wseq (audit (AuDenied code)) (wseq commit (wret outcome)))
       else
         wbind (existing_unvalidated_invocation tool_name sanitized_input None code reason) (\<lambda>replay.
         case replay of
           None \<Rightarrow> state_error ''tool call denial could not be reloaded''
         | Some replayed \<Rightarrow> wret replayed)))))"

end
