(* ===== verification/GatewayRequest.thy ===== *)
theory GatewayRequest
  imports GatewayRecovery
begin

text \<open>
  \<open>packages/tools/src/jhin_tools/gateway.py\<close>, the front door of a runtime invocation: parse and validate,
  meet whatever row exists, authorize against the live grants, rules, validators and reviews, then
  deny, park, stage an approval, or claim, dispatch and run the executor. The code's early returns are
  the branches of a pure verdict; the writes follow it.
\<close>

section \<open>Claim, dispatch, run\<close>

definition claim_adopted :: "tool \<Rightarrow> pyval dict \<Rightarrow> gateway_outcome option gw" where
  "claim_adopted t dumped =
     wbind (adopt_undispatched_claim CLAIMED None None id) (\<lambda>adopted.
     if adopted then wseq (audit AuClaimed) (wseq commit (wret None))
     else
       wbind (existing_invocation_outcome t dumped) (\<lambda>(replay, adopt).
       case replay of
         None \<Rightarrow> state_error ''tool call could not be reclaimed or reloaded''
       | Some outcome \<Rightarrow> wret (Some outcome)))"

text \<open>\<open>_claim_direct_call\<close>: \<open>None\<close> when this attempt holds the claim.\<close>

definition claim_direct_call ::
  "tool \<Rightarrow> pyval dict \<Rightarrow> pyval dict \<Rightarrow> string option \<Rightarrow> bool \<Rightarrow> gateway_outcome option gw" where
  "claim_direct_call t sanitized_input dumped connection_id adopt_claim =
     (if adopt_claim then claim_adopted t dumped
      else
        wbind (wask (\<lambda>env. new_row env (t_name t) connection_id sanitized_input CLAIMED)) (\<lambda>row.
        wbind (insert_row row) (\<lambda>inserted.
        if inserted then wseq (audit AuRequested) (wseq (audit AuClaimed) (wseq commit (wret None)))
        else
          wbind (existing_invocation_outcome t dumped) (\<lambda>(replay, adopt).
          case replay of
            Some outcome \<Rightarrow> wret (Some outcome)
          | None \<Rightarrow> if adopt then claim_adopted t dumped
                    else state_error ''tool call could not be claimed or reloaded''))))"

text \<open>The executor is entered.\<close>

definition enter_executor :: "tool \<Rightarrow> pyval dict \<Rightarrow> approval_row option \<Rightarrow> executor_result gw" where
  "enter_executor t dumped via env s =
     (Val (gv_executor env (gw_entry s)),
      s\<lparr>gw_effects := gw_effects s @
          [\<lparr>ef_entry = gw_entry s, ef_tool = t, ef_input = dumped, ef_approval = via\<rparr>]\<rparr>)"

definition finish_executor ::
  "tool \<Rightarrow> call_status \<Rightarrow> pyval dict \<Rightarrow> string option \<Rightarrow> string \<Rightarrow> string \<Rightarrow> gateway_outcome gw" where
  "finish_executor t status output error_code decision_code decision_reason =
     wseq (write_row (\<lambda>r. r\<lparr>cr_output := output, cr_status := status, cr_error := error_code\<rparr>))
     (wseq (audit (case error_code of None \<Rightarrow> AuExecuted | Some code \<Rightarrow> AuFailed code))
     (wseq commit
     (wbind the_row (\<lambda>row.
       wret ((outcome_of row (if status = COMPLETED then EXECUTED else OUT_FAILED)
                (Some (risk_value (t_risk t))) decision_code decision_reason)
               \<lparr>go_sanitized_output := Some output, go_approval_id := cr_approval row,
                go_error_code := error_code\<rparr>)))))"

definition give_up_unknown :: "tool \<Rightarrow> string \<Rightarrow> gateway_outcome gw" where
  "give_up_unknown t detail = wseq rollback (persist_execution_unknown (Some (risk_value (t_risk t))) detail)"

text \<open>\<open>_run_executor\<close> of a claimed call\<close>

definition run_executor :: "tool \<Rightarrow> pyval dict \<Rightarrow> approval_row option \<Rightarrow> gateway_outcome gw" where
  "run_executor t dumped via =
     wbind mark_dispatched (\<lambda>won.
     if \<not> won then give_up_unknown t []
     else
       wbind (enter_executor t dumped via) (\<lambda>result.
       wbind (wask gv_sanitize) (\<lambda>sanitize.
       case result of
         Produced output \<Rightarrow>
           finish_executor t COMPLETED (sanitize output) None ''granted'' ''executed through the tool gateway''
       | ToolError code side_effect_possible hint detail \<Rightarrow>
           if side_effect_possible then give_up_unknown t detail
           else finish_executor t FAILED
                  (sanitize ([(''error'', PStr code)] @ (if hint = [] then [] else [(''hint'', PStr hint)])
                             @ (if detail = [] then [] else [(''detail'', PStr detail)])))
                  (Some code) code
                  (''the tool failed before any external effect'' @ (if hint = [] then [] else '': '' @ hint))
       | Raised message \<Rightarrow> give_up_unknown t []
       | CancelledInside \<Rightarrow> wseq (give_up_unknown t []) (wraise Interrupted)
       | DiedInside \<Rightarrow> die)))"

text \<open>\<open>_execute\<close>: the committed row must still be an undispatched claim.\<close>

definition execute :: "tool \<Rightarrow> pyval dict \<Rightarrow> approval_row option \<Rightarrow> gateway_outcome gw" where
  "execute t dumped via =
     wbind (wget gw_db) (\<lambda>found.
     if (case found of None \<Rightarrow> False | Some row \<Rightarrow> cr_status row \<in> set UNDISPATCHED_TOOL_STATUSES)
     then run_executor t dumped via
     else state_error ''tool call lost its executable claim before dispatch'')"

section \<open>The live decision\<close>

text \<open>
  Grants, scope and policy, then the tool's own validator, then readiness: the denial of the first that
  refuses, or the policy decision.
\<close>

definition denies :: "policy_decision option \<Rightarrow> bool" where
  "denies d = (case d of None \<Rightarrow> False | Some x \<Rightarrow> d_decision x = DENY)"

definition live_decision :: "gateway_env \<Rightarrow> nat \<Rightarrow> tool \<Rightarrow> pyval dict \<Rightarrow> policy_decision" where
  "live_decision env entry t dumped =
     evaluate t (gv_grants env entry) (gv_rules env entry) (Some (requested_scope t dumped))"

definition authorize :: "gateway_env \<Rightarrow> nat \<Rightarrow> tool \<Rightarrow> pyval dict \<Rightarrow> (string \<times> string) + policy_decision" where
  "authorize env entry t dumped =
     (let decision = live_decision env entry t dumped;
          veto = gv_validator env entry (t_name t) dumped (gv_grants env entry);
          readiness = gv_readiness env entry t dumped
      in if d_decision decision = DENY then Inl (d_code decision, d_reason decision)
         else if denies veto then Inl (d_code (the veto), d_reason (the veto))
         else if denies readiness then Inl (d_code (the readiness), d_reason (the readiness))
         else Inr decision)"

text \<open>\<open>_review_gate\<close> and \<open>_review_denial\<close>\<close>

definition review_gate :: "gateway_env \<Rightarrow> nat \<Rightarrow> tool \<Rightarrow> gate_result option" where
  "review_gate env entry t =
     (case gv_run env entry (x_run (gv_context env)) of
        None \<Rightarrow> None
      | Some run \<Rightarrow>
          if x_workspace run \<noteq> x_workspace (gv_context env) then None
          else (case gv_gate env entry t of
                  Inl (code, message) \<Rightarrow>
                    Some \<lparr>ga_status = GATE_BLOCKED, ga_code = code, ga_reason = message, ga_review_id = None,
                          ga_reviewer_type = None, ga_feedback = []\<rparr>
                | Inr gate \<Rightarrow> if ga_status gate = PROCEED then None else Some gate))"

definition review_denial :: "gate_result \<Rightarrow> string \<times> string" where
  "review_denial gate =
     (if ga_status gate = WAIT_REVIEW
      then (''review_pending'',
            ''this call is awaiting review '' @ (case ga_review_id gate of None \<Rightarrow> ''None'' | Some i \<Rightarrow> i) @
            '' by '' @ or_text (ga_reviewer_type gate) ''a reviewer'' @ ''; '' @
            ''do not retry it and continue without it ('' @ ga_reason gate @ '')'')
      else (ga_code gate, if ga_feedback gate = [] then ga_reason gate else ga_feedback gate))"

datatype verdict =
    Refuse string string
  | WaitReview string string
  | StageApproval "string option" policy_decision
  | RunNow

text \<open>The decision chain of \<open>_request_once\<close> on a validated call no row answers.\<close>

definition not_lossless :: "gateway_env \<Rightarrow> pyval dict \<Rightarrow> bool" where
  "not_lossless env dumped \<longleftrightarrow> \<not> same_json (gv_sanitize env dumped) dumped"

definition turn_denial :: "gateway_env \<Rightarrow> nat \<Rightarrow> tool \<Rightarrow> (string \<times> string) option" where
  "turn_denial env entry t = Option.bind (gv_task_metadata env entry) (mode_denial t)"

definition approval_verdict :: "gateway_env \<Rightarrow> nat \<Rightarrow> policy_decision \<Rightarrow> pyval dict \<Rightarrow> verdict" where
  "approval_verdict env entry decision dumped =
     (if d_decision decision \<noteq> REQUIRE_APPROVAL then RunNow
      else if not_lossless env dumped
      then Refuse ''approval_input_not_lossless''
             (''tool input changed during required sanitization and cannot be '' @ ''replayed safely after approval'')
      else (case connection_uuid env dumped of
              None \<Rightarrow> StageApproval None decision
            | Some c \<Rightarrow>
                (case gv_digest env entry c of
                   None \<Rightarrow> Refuse ''approval_connection_unavailable''
                             ''connection authorization state is unavailable for approval binding''
                 | Some digest \<Rightarrow> StageApproval (Some digest) decision)))"

definition request_verdict :: "gateway_env \<Rightarrow> nat \<Rightarrow> tool \<Rightarrow> pyval dict \<Rightarrow> verdict" where
  "request_verdict env entry t dumped =
     (if not_lossless env dumped
      then Refuse ''invocation_input_not_lossless''
             (''runtime invocation input changed during sanitization and cannot be '' @ ''bound safely to an exact retry'')
      else (case turn_denial env entry t of
              Some (code, reason) \<Rightarrow> Refuse code reason
            | None \<Rightarrow>
                (case authorize env entry t dumped of
                   Inl (code, reason) \<Rightarrow> Refuse code reason
                 | Inr decision \<Rightarrow>
                     (case review_gate env entry t of
                        Some gate \<Rightarrow>
                          (case ga_review_id gate of
                             Some i \<Rightarrow> if ga_status gate = WAIT_REVIEW then WaitReview i (ga_reason gate)
                                       else (let (code, reason) = review_denial gate in Refuse code reason)
                           | None \<Rightarrow> (let (code, reason) = review_denial gate in Refuse code reason))
                      | None \<Rightarrow> approval_verdict env entry decision dumped))))"

section \<open>Parking and staging\<close>

definition build_approval ::
  "gateway_env \<Rightarrow> tool \<Rightarrow> pyval dict \<Rightarrow> string option \<Rightarrow> string \<Rightarrow> string \<Rightarrow> approval_row" where
  "build_approval env t input digest provider_call_id reason =
     \<lparr>aw_context = gv_context env, aw_action_type = t_name t,
      aw_payload = \<lparr>pl_format_version = APPROVAL_FORMAT_VERSION, pl_context = gv_context env,
        pl_tool_name = t_name t, pl_capability = t_required_capability t, pl_risk = risk_value (t_risk t),
        pl_input = input, pl_tool_call_id = gv_invocation env,
        pl_invocation_format_version = TOOL_INVOCATION_FORMAT_VERSION, pl_invocation_id = gv_invocation env,
        pl_connection_digest = digest, pl_provider_call_id = provider_call_id\<rparr>,
      aw_reason = reason, aw_status = AP_PENDING\<rparr>"

definition add_approval :: "string \<Rightarrow> approval_row \<Rightarrow> unit gw" where
  "add_approval i a = wmod (\<lambda>s. s\<lparr>gw_approvals := (gw_approvals s)(i \<mapsto> a)\<rparr>)"

text \<open>Reloading after a claim that moved on or an insert that collided.\<close>

definition reload_or_fail :: "tool \<Rightarrow> pyval dict \<Rightarrow> string \<Rightarrow> gateway_outcome gw" where
  "reload_or_fail t dumped message =
     wseq rollback
     (wbind (existing_invocation_outcome t dumped) (\<lambda>(replay, adopt).
      case replay of None \<Rightarrow> state_error message | Some outcome \<Rightarrow> wret outcome))"

definition park_for_review ::
  "tool \<Rightarrow> string \<Rightarrow> string \<Rightarrow> pyval dict \<Rightarrow> pyval dict \<Rightarrow> string option \<Rightarrow> bool \<Rightarrow> gateway_outcome gw" where
  "park_for_review t review_id reason sanitized_input dumped connection_id adopt_claim =
     (let risk = Some (risk_value (t_risk t))
      in if \<not> same_json sanitized_input dumped
         then persist_denial (t_name t) ''review_input_not_lossless''
                (''tool input changed during required sanitization and cannot be '' @ ''replayed safely after review'')
                sanitized_input risk connection_id adopt_claim
         else
           wbind (wget (\<lambda>s. gw_reviews s review_id)) (\<lambda>review.
           case review of
             None \<Rightarrow> state_error ''review disappeared before parking''
           | Some rv \<Rightarrow>
               wbind (if adopt_claim then adopt_undispatched_claim PENDING_REVIEW None (Some review_id) id
                      else wbind (wask (\<lambda>env. (new_row env (t_name t) connection_id sanitized_input PENDING_REVIEW)
                                    \<lparr>cr_review := Some review_id\<rparr>)) insert_row) (\<lambda>staged.
               if \<not> staged then reload_or_fail t dumped ''tool call review park could not be reloaded''
               else
                 wseq (if adopt_claim then wret () else audit AuRequested)
                 (wseq (audit (AuReviewRequested review_id))
                 (wseq commit
                   (wbind the_row (\<lambda>row. wret (needs_review_outcome row review_id risk reason False))))))))"

definition stage_approval ::
  "tool \<Rightarrow> string \<Rightarrow> string option \<Rightarrow> policy_decision \<Rightarrow> pyval dict \<Rightarrow> pyval dict \<Rightarrow> string option \<Rightarrow> bool \<Rightarrow> gateway_outcome gw" where
  "stage_approval t provider_call_id digest decision sanitized_input dumped connection_id adopt_claim =
     wbind (live (\<lambda>env entry. gv_new_approval_id env entry)) (\<lambda>approval_id.
     wbind (wask (\<lambda>env. build_approval env t sanitized_input digest provider_call_id (d_reason decision))) (\<lambda>approval.
     wseq (add_approval approval_id approval)
     (wbind (if adopt_claim then adopt_undispatched_claim PENDING_APPROVAL (Some approval_id) None id
             else wbind (wask (\<lambda>env. (new_row env (t_name t) connection_id sanitized_input PENDING_APPROVAL)
                           \<lparr>cr_approval := Some approval_id\<rparr>)) insert_row) (\<lambda>staged.
      if \<not> staged then reload_or_fail t dumped ''tool call approval could not be reloaded''
      else
        wseq (if adopt_claim then wret () else audit AuRequested)
        (wseq (audit (AuApprovalRequested approval_id))
        (wseq commit
        (wbind the_row (\<lambda>row.
          wret ((needs_approval_outcome row (Some (risk_value (t_risk t))) (d_code decision) (d_reason decision)
                   (Some approval_id) None (Some provider_call_id) False)
                  \<lparr>go_sanitized_input := sanitized_input\<rparr>)))))))))"

section \<open>One entry through the front door\<close>

definition require_durable_execution_context :: "unit gw" where
  "require_durable_execution_context =
     wbind (live (\<lambda>env entry. gv_run env entry (x_run (gv_context env)) = Some (gv_context env))) (\<lambda>ok.
     if ok then wret ()
     else state_error (''runtime tool invocation does not match its original invocation or '' @
                       ''a durable workspace, agent, run, and task''))"

definition safe_provider_call_id :: "gateway_env \<Rightarrow> string \<Rightarrow> string" where
  "safe_provider_call_id env provider_call_id =
     (case dict_get (gv_sanitize env [(''provider_call_id'', PStr provider_call_id)]) ''provider_call_id'' of
        Some (PStr x) \<Rightarrow> take 200 x | _ \<Rightarrow> [])"

definition canonical_unvalidated_input :: "gateway_env \<Rightarrow> string \<Rightarrow> pyval dict option" where
  "canonical_unvalidated_input env arguments =
     (case gv_parse env arguments of
        Some (PDict d) \<Rightarrow> if same_json (gv_sanitize env d) d then Some d else None
      | _ \<Rightarrow> None)"

definition raw_arguments_input :: "gateway_env \<Rightarrow> string \<Rightarrow> pyval dict" where
  "raw_arguments_input env arguments =
     (let raw = gv_sanitize env [(''_raw_arguments'', PStr arguments)]
      in case dict_get raw ''_raw_arguments'' of
           Some (PStr x) \<Rightarrow> dict_set raw ''_raw_arguments'' (PStr (take 2000 x)) | _ \<Rightarrow> raw)"

definition persisted_tool_name :: "gateway_env \<Rightarrow> string \<Rightarrow> string" where
  "persisted_tool_name env tool_name =
     (let name = (case dict_get (gv_sanitize env [(''tool_name'', PStr tool_name)]) ''tool_name'' of
                    Some (PStr x) \<Rightarrow> take 200 x | _ \<Rightarrow> [])
      in if name = [] then ''unknown'' else name)"

text \<open>A call without a definition or with arguments its schema refuses.\<close>

definition refuse_unvalidated ::
  "string \<Rightarrow> string option \<Rightarrow> string \<Rightarrow> string \<Rightarrow> pyval dict \<Rightarrow> pyval dict option \<Rightarrow> gateway_outcome gw" where
  "refuse_unvalidated tool_name risk code reason raw canonical =
     wbind (existing_unvalidated_invocation tool_name raw canonical code reason) (\<lambda>replay.
     case replay of
       Some outcome \<Rightarrow> wret outcome
     | None \<Rightarrow>
         wseq require_durable_execution_context (persist_denial tool_name code reason raw risk None False))"

text \<open>\<open>invalid_tool_arguments\<close> of \<open>packages/tools/src/jhin_tools/sanitize.py\<close>\<close>

definition INVALID_TOOL_ARGUMENTS_KEY :: string where
  "INVALID_TOOL_ARGUMENTS_KEY = ''__invalid_tool_arguments__''"

definition invalid_tool_arguments :: "(pyval \<Rightarrow> string) \<Rightarrow> pyval \<Rightarrow> string dict option" where
  "invalid_tool_arguments str_of arguments =
     (case arguments of
        PDict [(key, PDict payload)] \<Rightarrow>
          if key = INVALID_TOOL_ARGUMENTS_KEY
             \<and> (case dict_get payload ''reason'' of Some (PStr r) \<Rightarrow> True | _ \<Rightarrow> False)
          then Some (map (\<lambda>(k, v). (k, str_of v)) payload) else None
      | _ \<Rightarrow> None)"

text \<open>Strict validation of the structured arguments: the parse error or the dumped model.\<close>

definition parse_arguments :: "gateway_env \<Rightarrow> nat \<Rightarrow> tool \<Rightarrow> string \<Rightarrow> string + pyval dict" where
  "parse_arguments env entry t arguments =
     (case gv_parse env arguments of
        None \<Rightarrow> Inl ''arguments are not valid JSON''
      | Some (PDict d) \<Rightarrow>
          (case invalid_tool_arguments (gv_str env) (PDict d) of
             Some placeholder \<Rightarrow>
               Inl (''your tool call arguments were not one valid JSON object'' @
                    (let detail = or_text (dict_get placeholder ''detail'') []
                     in if detail = [] then [] else '' ('' @ detail @ '')'') @
                    ''; call the tool again with exactly one JSON object that matches its schema'')
           | None \<Rightarrow>
               (case gv_validate env entry (t_name t) d of
                  Inl summary \<Rightarrow> Inl (''arguments do not match the tool schema: '' @ summary)
                | Inr dumped \<Rightarrow> Inr dumped))
      | Some _ \<Rightarrow> Inl ''arguments must be a JSON object'')"

text \<open>The writes a verdict calls for.\<close>

definition carry_out ::
  "tool \<Rightarrow> string \<Rightarrow> pyval dict \<Rightarrow> pyval dict \<Rightarrow> string option \<Rightarrow> bool \<Rightarrow> verdict \<Rightarrow> gateway_outcome gw" where
  "carry_out t provider_call_id sanitized_input dumped connection_id adopt_claim v =
     (case v of
        Refuse code reason \<Rightarrow>
          persist_denial (t_name t) code reason sanitized_input (Some (risk_value (t_risk t))) connection_id adopt_claim
      | WaitReview review_id reason \<Rightarrow>
          park_for_review t review_id reason sanitized_input dumped connection_id adopt_claim
      | StageApproval digest decision \<Rightarrow>
          stage_approval t provider_call_id digest decision sanitized_input dumped connection_id adopt_claim
      | RunNow \<Rightarrow>
          wbind (claim_direct_call t sanitized_input dumped connection_id adopt_claim) (\<lambda>replay.
          case replay of Some outcome \<Rightarrow> wret outcome | None \<Rightarrow> execute t dumped None))"

definition request_validated :: "tool \<Rightarrow> string \<Rightarrow> pyval dict \<Rightarrow> gateway_outcome gw" where
  "request_validated t provider_call_id dumped =
     wbind (existing_invocation_outcome t dumped) (\<lambda>(replay, adopt_claim).
     case replay of
       Some outcome \<Rightarrow> wret outcome
     | None \<Rightarrow>
         wseq require_durable_execution_context
         (wbind (live (\<lambda>env entry. (gv_sanitize env dumped, connection_uuid env dumped, request_verdict env entry t dumped)))
            (\<lambda>(sanitized_input, connection_id, v).
               carry_out t provider_call_id sanitized_input dumped connection_id adopt_claim v)))"

definition request_once :: "string \<Rightarrow> string \<Rightarrow> string \<Rightarrow> gateway_outcome gw" where
  "request_once tool_name arguments provider_call_id =
     wseq next_entry
     (wbind (wask (\<lambda>env. (safe_provider_call_id env provider_call_id, canonical_unvalidated_input env arguments,
                         raw_arguments_input env arguments, persisted_tool_name env tool_name)))
        (\<lambda>(provider, canonical, raw, persisted_name).
      wbind (live (\<lambda>env entry. gv_catalog env entry tool_name)) (\<lambda>found.
      case found of
        None \<Rightarrow>
          refuse_unvalidated persisted_name None ''tool_not_found''
            (''no registered tool named '' @ quoted persisted_name) raw canonical
      | Some t \<Rightarrow>
          wbind (live (\<lambda>env entry. parse_arguments env entry t arguments)) (\<lambda>parsed.
          case parsed of
            Inl invalid_reason \<Rightarrow>
              refuse_unvalidated (t_name t) (Some (risk_value (t_risk t))) ''invalid_input'' invalid_reason raw canonical
          | Inr dumped \<Rightarrow> request_validated t provider dumped))))"

section \<open>Retrying what is safe to retry\<close>

text \<open>The loop of \<open>_retry_while_unproven\<close>, with the entries it may still make.\<close>

fun retry_loop :: "nat \<Rightarrow> gateway_outcome gw \<Rightarrow> gateway_outcome \<Rightarrow> gateway_outcome gw" where
  "retry_loop 0 once outcome = wret outcome"
| "retry_loop (Suc left) once outcome =
     (if go_status outcome \<noteq> OUT_UNKNOWN then wret outcome
      else
        wbind (live (\<lambda>env entry. redispatch_is_safe env entry (go_tool_name outcome))) (\<lambda>safe.
        if safe then wbind once (retry_loop left once) else wret outcome))"

definition retry_while_unproven :: "gateway_outcome gw \<Rightarrow> gateway_outcome gw" where
  "retry_while_unproven once = wbind once (retry_loop (MAX_INVOCATION_ENTRIES - 1) once)"

definition request :: "string \<Rightarrow> string \<Rightarrow> string \<Rightarrow> gateway_outcome gw" where
  "request tool_name arguments provider_call_id =
     retry_while_unproven (request_once tool_name arguments provider_call_id)"

end
