(* ===== verification/GatewayResolve.thy ===== *)
theory GatewayResolve
  imports GatewayRequest
begin

text \<open>
  \<open>packages/tools/src/jhin_tools/gateway.py\<close>, the second and third ways into a call: resuming one parked
  on a work review, executing one a person approved, recording a rejection. The durable review and
  approval rows are the authority, and the live decision is taken again. Then the histories of one
  invocation: entries, human decisions and process deaths in any order.
\<close>

section \<open>Ending a parked call\<close>

datatype parked_status = EndDenied | EndFailed

fun parked_call_status :: "parked_status \<Rightarrow> call_status" where
  "parked_call_status EndDenied = CALL_DENIED"
| "parked_call_status EndFailed = FAILED"

definition finish_parked_call ::
  "call_row \<Rightarrow> string option \<Rightarrow> parked_status \<Rightarrow> string \<Rightarrow> string \<Rightarrow> string option \<Rightarrow> string option \<Rightarrow> gateway_outcome gw" where
  "finish_parked_call row approval_id status code reason risk review_id =
     wseq (write_row (\<lambda>r. r\<lparr>cr_status := parked_call_status status, cr_error := Some code\<rparr>))
     (wseq (audit (if status = EndDenied then AuDenied code else AuFailed code))
       (wret ((outcome_of row (if status = EndDenied then OUT_DENIED else OUT_FAILED) risk code reason)
                \<lparr>go_approval_id := approval_id, go_review_id := review_id, go_error_code := Some code\<rparr>)))"

text \<open>
  The compare-and-set of \<open>_claim_parked_call\<close> and \<open>_claim_reviewed_call\<close>, from the parked status or from
  a claim nothing dispatched. When it loses, the row it finds is replayed, taken over or reconciled.
\<close>

definition claim_from :: "call_status \<Rightarrow> bool gw" where
  "claim_from parked =
     wbind (wget gw_row) (\<lambda>found.
     case found of
       None \<Rightarrow> wseq rollback (wret False)
     | Some row \<Rightarrow>
         if cr_status row = parked \<or> cr_status row \<in> set UNDISPATCHED_TOOL_STATUSES
         then wseq (write_row (\<lambda>r. r\<lparr>cr_status := CLAIMED\<rparr>)) (wseq (audit AuClaimed) (wseq commit (wret True)))
         else wseq rollback (wret False))"

definition claim_or_replay :: "call_status \<Rightarrow> string option \<Rightarrow> gateway_outcome option gw" where
  "claim_or_replay parked approval_id =
     wbind (claim_from parked) (\<lambda>claimed.
     if claimed then wret None
     else
       wbind (the_approval approval_id) (\<lambda>approval.
       wbind the_row (\<lambda>current.
       if approval_id \<noteq> None \<and> approval = None then state_error ''tool call disappeared while claiming approval''
       else if cr_status current \<in> set TERMINAL_TOOL_STATUSES
       then wret (Some (replayed_outcome current approval None))
       else if cr_status current \<in> set UNDISPATCHED_TOOL_STATUSES
       then wseq (if approval_id = None then wret () else audit_claim_reentered) (wret None)
       else if cr_status current \<in> set UNPROVEN_DISPATCH_STATUSES
       then reconcile_unproven_dispatch None approval
       else state_error ''tool call changed to unexpected status'')))"

section \<open>Reviews\<close>

definition load_review_pair :: "string \<Rightarrow> (work_review \<times> call_row) gw" where
  "load_review_pair review_id =
     wbind (wask (\<lambda>env. (gv_context env, gv_invocation env))) (\<lambda>(ctx, invocation).
     wbind (wget (\<lambda>s. (gw_reviews s review_id, gw_row s))) (\<lambda>(review, found).
     case review of
       None \<Rightarrow> state_error ''review not found in workspace''
     | Some rv \<Rightarrow>
         if wv_subject_agent rv \<noteq> x_agent ctx \<or> wv_run rv \<noteq> x_run ctx
            \<or> (case wv_task rv of None \<Rightarrow> False | Some task \<Rightarrow> task \<noteq> x_task ctx)
         then state_error ''review does not belong to this execution context''
         else (case found of
                 None \<Rightarrow> state_error ''expected exactly one tool_call parked on review''
               | Some row \<Rightarrow>
                   if cr_review row \<noteq> Some review_id then state_error ''expected exactly one tool_call parked on review''
                   else if cr_agent row \<noteq> x_agent ctx \<or> cr_run row \<noteq> x_run ctx
                           \<or> (case wv_tool_call rv of None \<Rightarrow> False | Some i \<Rightarrow> i \<noteq> invocation)
                   then state_error ''tool call does not match its review''
                   else wret (rv, row))))"

datatype review_step =
    ReviewEnds parked_status string string "string option"
  | ReviewParksOn string string tool
  | ReviewStages tool policy_decision "string option"
  | ReviewRuns tool "pyval dict"

text \<open>The parked input is still the exact operation the reviewer saw.\<close>

definition review_binding :: "gateway_env \<Rightarrow> nat \<Rightarrow> call_row \<Rightarrow> review_step + (tool \<times> pyval dict)" where
  "review_binding env entry row =
     (case gv_catalog env entry (cr_tool row) of
        None \<Rightarrow> Inl (ReviewEnds EndFailed ''tool_not_found'' ''tool disappeared from the registry before resolution'' None)
      | Some t \<Rightarrow>
          (let mismatch = (\<lambda>reason. Inl (ReviewEnds EndFailed ''review_binding_mismatch'' reason (Some (risk_value (t_risk t)))))
           in case gv_validate env entry (t_name t) (cr_input row) of
                Inl _ \<Rightarrow> mismatch ''parked input no longer matches the tool schema''
              | Inr dumped \<Rightarrow>
                  if \<not> same_json dumped (cr_input row) \<or> not_lossless env dumped
                  then mismatch ''parked input is not the exact operation the reviewer saw''
                  else if connection_uuid env dumped \<noteq> cr_connection row
                  then mismatch ''parked call connection binding changed''
                  else Inr (t, dumped)))"

text \<open>Whether the review passed is the flag: it is audited before approval staging or the claim.\<close>

definition review_after_gate :: "gateway_env \<Rightarrow> nat \<Rightarrow> tool \<Rightarrow> pyval dict \<Rightarrow> policy_decision \<Rightarrow> bool \<times> review_step" where
  "review_after_gate env entry t dumped decision =
     (if d_decision decision = REQUIRE_APPROVAL
      then (case connection_uuid env dumped of
              None \<Rightarrow> (True, ReviewStages t decision None)
            | Some c \<Rightarrow>
                (case gv_digest env entry c of
                   None \<Rightarrow> (True, ReviewEnds EndDenied ''approval_connection_unavailable''
                             ''connection authorization state is unavailable for approval binding''
                             (Some (risk_value (t_risk t))))
                 | Some digest \<Rightarrow> (True, ReviewStages t decision (Some digest))))
      else (True, ReviewRuns t dumped))"

definition review_verdict :: "gateway_env \<Rightarrow> nat \<Rightarrow> work_review \<Rightarrow> call_row \<Rightarrow> bool \<times> review_step" where
  "review_verdict env entry review row =
     (case review_binding env entry row of
        Inl step \<Rightarrow> (False, step)
      | Inr (t, dumped) \<Rightarrow>
          (let risk = Some (risk_value (t_risk t)); status = review_status_value (wv_status review)
           in if wv_status review \<noteq> RV_APPROVED
              then (False, ReviewEnds EndDenied (''review_'' @ status)
                     (if wv_feedback review = [] then ''review outcome: '' @ status else wv_feedback review) risk)
              else (case authorize env entry t dumped of
                      Inl (code, reason) \<Rightarrow> (False, ReviewEnds EndDenied code reason risk)
                    | Inr decision \<Rightarrow>
                        (case review_gate env entry t of
                           None \<Rightarrow> review_after_gate env entry t dumped decision
                         | Some gate \<Rightarrow>
                             (case (ga_status gate, ga_review_id gate) of
                                (WAIT_REVIEW, Some other) \<Rightarrow> (False, ReviewParksOn other (ga_reason gate) t)
                              | _ \<Rightarrow> (let (code, reason) = review_denial gate
                                     in (False, ReviewEnds EndDenied code reason risk)))))))"

definition settle_review :: "string \<Rightarrow> call_row \<Rightarrow> bool \<times> review_step \<Rightarrow> gateway_outcome gw" where
  "settle_review review_id row v =
     wseq (if fst v then audit (AuReviewApproved review_id) else wret ())
     (case snd v of
        ReviewEnds status code reason risk \<Rightarrow> finish_parked_call row None status code reason risk (Some review_id)
      | ReviewParksOn other reason t \<Rightarrow>
          wbind (wget (\<lambda>s. gw_reviews s other)) (\<lambda>found.
          case found of
            None \<Rightarrow> state_error ''review disappeared''
          | Some _ \<Rightarrow>
              wseq (write_row (\<lambda>r. r\<lparr>cr_review := Some other\<rparr>))
              (wseq (audit (AuReviewRequested other))
                (wret (needs_review_outcome row other (Some (risk_value (t_risk t))) reason False))))
      | ReviewStages t decision digest \<Rightarrow>
          wbind (live (\<lambda>env entry. gv_new_approval_id env entry)) (\<lambda>approval_id.
          wbind (wask (\<lambda>env. build_approval env t (cr_input row) digest [] (d_reason decision))) (\<lambda>approval.
          wseq (add_approval approval_id approval)
          (wseq (write_row (\<lambda>r. r\<lparr>cr_status := PENDING_APPROVAL, cr_approval := Some approval_id\<rparr>))
          (wseq (audit (AuApprovalRequested approval_id))
            (wret (needs_approval_outcome row (Some (risk_value (t_risk t))) (d_code decision) (d_reason decision)
                     (Some approval_id) (Some review_id) None False))))))
      | ReviewRuns t dumped \<Rightarrow>
          wbind (claim_or_replay PENDING_REVIEW None) (\<lambda>replay.
          case replay of Some outcome \<Rightarrow> wret outcome | None \<Rightarrow> execute t dumped None))"

text \<open>\<open>_resolve_review_once\<close> from a row that is parked, claimed or already staged.\<close>

definition resume_reviewed :: "string \<Rightarrow> work_review \<Rightarrow> gateway_outcome gw" where
  "resume_reviewed review_id review =
     wbind the_row (\<lambda>row.
     wseq (if cr_status row \<in> set UNDISPATCHED_TOOL_STATUSES then audit_claim_reentered else wret ())
     (if cr_status row = PENDING_APPROVAL then
        wbind (the_approval (cr_approval row)) (\<lambda>approval.
        case approval of
          None \<Rightarrow> state_error ''tool call lost its approval binding''
        | Some a \<Rightarrow>
            wret (needs_approval_outcome row (Some (pl_risk (aw_payload a))) ''approval_required'' (aw_reason a)
                    (cr_approval row) (Some review_id) None True))
      else if cr_status row \<noteq> PENDING_REVIEW \<and> cr_status row \<notin> set UNDISPATCHED_TOOL_STATUSES
      then state_error ''tool call is not pending review''
      else wbind (live (\<lambda>env entry. review_verdict env entry review row)) (settle_review review_id row)))"

definition resolve_review_once :: "string \<Rightarrow> gateway_outcome gw" where
  "resolve_review_once review_id =
     wseq next_entry
     (wbind (load_review_pair review_id) (\<lambda>(review, row).
      if wv_status review = RV_PENDING then state_error ''review is still pending''
      else if cr_status row \<in> set TERMINAL_TOOL_STATUSES then wret (replayed_outcome row None None)
      else if cr_status row \<in> set UNPROVEN_DISPATCH_STATUSES then
        wbind (reconcile_unproven_dispatch None None) (\<lambda>unproven.
        case unproven of Some outcome \<Rightarrow> wret outcome | None \<Rightarrow> resume_reviewed review_id review)
      else resume_reviewed review_id review))"

section \<open>Approvals\<close>

definition approval_failure :: "string \<Rightarrow> string \<Rightarrow> 'a gw" where
  "approval_failure code message =
     wseq (audit (AuResolutionFailed code)) (wseq commit (state_error message))"

definition load_approval_pair :: "string \<Rightarrow> (approval_row \<times> call_row) gw" where
  "load_approval_pair approval_id =
     wbind (wask gv_context) (\<lambda>ctx.
     wbind (wget (\<lambda>s. (gw_approvals s approval_id, gw_row s))) (\<lambda>(approval, found).
     case approval of
       None \<Rightarrow> approval_failure ''approval_not_found'' ''approval not found in workspace''
     | Some a \<Rightarrow>
         if x_workspace (aw_context a) \<noteq> x_workspace ctx
         then approval_failure ''approval_not_found'' ''approval not found in workspace''
         else if x_agent (aw_context a) \<noteq> x_agent ctx \<or> x_run (aw_context a) \<noteq> x_run ctx
                 \<or> x_task (aw_context a) \<noteq> x_task ctx
         then approval_failure ''approval_execution_context_mismatch'' ''approval does not belong to this execution context''
         else (case found of
                 None \<Rightarrow> approval_failure ''approval_tool_call_missing'' ''no tool_call row references approval''
               | Some row \<Rightarrow>
                   if cr_approval row \<noteq> Some approval_id \<or> cr_workspace row \<noteq> x_workspace ctx
                   then approval_failure ''approval_tool_call_missing'' ''no tool_call row references approval''
                   else if cr_agent row \<noteq> x_agent (aw_context a) \<or> cr_run row \<noteq> x_run (aw_context a)
                           \<or> cr_tool row \<noteq> aw_action_type a
                   then approval_failure ''approval_tool_call_mismatch'' ''tool call does not match its approval''
                   else wret (a, row))))"

record approval_binding =
  ab_tool :: tool
  ab_dumped :: "pyval dict"
  ab_connection :: "string option"
  ab_digest :: "string option"

datatype parked_end = ParkedEnd parked_status string string "string option"

text \<open>\<open>_validate_parked_approval_binding\<close>: format, identity, tool, input and connection as they were shown.\<close>

definition approval_identity_matches :: "gateway_env \<Rightarrow> approval_payload \<Rightarrow> call_row \<Rightarrow> bool" where
  "approval_identity_matches env p row \<longleftrightarrow>
     pl_context p = gv_context env \<and> pl_tool_name p = cr_tool row \<and> same_json (pl_input p) (cr_input row)
     \<and> pl_tool_call_id p = gv_invocation env"

definition validate_connection_binding ::
  "gateway_env \<Rightarrow> nat \<Rightarrow> approval_payload \<Rightarrow> tool \<Rightarrow> pyval dict \<Rightarrow> call_row \<Rightarrow> parked_end + approval_binding" where
  "validate_connection_binding env entry p t dumped row =
     (let risk = Some (risk_value (t_risk t)); connection_id = connection_uuid env dumped
      in if connection_id \<noteq> cr_connection row
         then Inl (ParkedEnd EndFailed ''approval_binding_mismatch''
                     ''stored connection target does not match the parked tool call'' risk)
         else (case connection_id of
                 None \<Rightarrow>
                   if pl_connection_digest p \<noteq> None
                   then Inl (ParkedEnd EndFailed ''approval_binding_mismatch''
                               ''approval has unexpected connection authorization state'' risk)
                   else Inr \<lparr>ab_tool = t, ab_dumped = dumped, ab_connection = None, ab_digest = None\<rparr>
               | Some c \<Rightarrow>
                   if pl_connection_digest p = None \<or> gv_digest env entry c \<noteq> pl_connection_digest p
                   then Inl (ParkedEnd EndDenied ''approval_connection_changed''
                               ''connection authorization changed; request a new approval'' risk)
                   else Inr \<lparr>ab_tool = t, ab_dumped = dumped, ab_connection = Some c,
                             ab_digest = pl_connection_digest p\<rparr>))"

definition validate_parked_approval_binding ::
  "gateway_env \<Rightarrow> nat \<Rightarrow> approval_row \<Rightarrow> call_row \<Rightarrow> parked_end + approval_binding" where
  "validate_parked_approval_binding env entry approval row =
     (let p = aw_payload approval; payload_risk = Some (pl_risk p)
      in if pl_format_version p \<noteq> APPROVAL_FORMAT_VERSION
         then Inl (ParkedEnd EndFailed ''approval_format_unsupported''
                     ''approval payload is missing the supported format version'' payload_risk)
         else if \<not> approval_identity_matches env p row
         then Inl (ParkedEnd EndFailed ''approval_binding_mismatch''
                     ''approval payload does not match its workspace, run, tool, or input'' payload_risk)
         else if \<not> (pl_invocation_id p = gv_invocation env
                     \<and> pl_invocation_format_version p = TOOL_INVOCATION_FORMAT_VERSION)
         then Inl (ParkedEnd EndFailed ''approval_binding_mismatch''
                     ''approval payload has an invalid runtime invocation binding'' payload_risk)
         else (case gv_catalog env entry (cr_tool row) of
                 None \<Rightarrow> Inl (ParkedEnd EndFailed ''tool_not_found''
                                 ''tool disappeared from the registry before resolution'' payload_risk)
               | Some t \<Rightarrow>
                   (let risk = Some (risk_value (t_risk t))
                    in if pl_capability p \<noteq> t_required_capability t \<or> pl_risk p \<noteq> risk_value (t_risk t)
                       then Inl (ParkedEnd EndFailed ''approval_definition_changed''
                                   ''tool capability or risk changed after approval was requested'' risk)
                       else (case gv_validate env entry (t_name t) (cr_input row) of
                               Inl _ \<Rightarrow> Inl (ParkedEnd EndFailed ''invalid_input''
                                              ''stored input no longer matches the tool schema'' risk)
                             | Inr dumped \<Rightarrow>
                                 if \<not> same_json dumped (cr_input row)
                                 then Inl (ParkedEnd EndFailed ''approval_input_not_lossless''
                                             ''stored input no longer round-trips through the tool schema'' risk)
                                 else validate_connection_binding env entry p t dumped row))))"

text \<open>The binding and then the live decision of \<open>_resolve_approved_once\<close>.\<close>

definition approved_verdict ::
  "gateway_env \<Rightarrow> nat \<Rightarrow> approval_row \<Rightarrow> call_row \<Rightarrow> parked_end + approval_binding" where
  "approved_verdict env entry approval row =
     (case validate_parked_approval_binding env entry approval row of
        Inl e \<Rightarrow> Inl e
      | Inr b \<Rightarrow>
          (case authorize env entry (ab_tool b) (ab_dumped b) of
             Inl (code, reason) \<Rightarrow> Inl (ParkedEnd EndDenied code reason (Some (risk_value (t_risk (ab_tool b)))))
           | Inr _ \<Rightarrow> Inr b))"

text \<open>After the claim: the connection again under its locks, then the executor.\<close>

definition run_approved :: "string \<Rightarrow> approval_row \<Rightarrow> call_row \<Rightarrow> approval_binding \<Rightarrow> gateway_outcome gw" where
  "run_approved approval_id approval row b =
     wbind (claim_or_replay PENDING_APPROVAL (Some approval_id)) (\<lambda>replay.
     case replay of
       Some outcome \<Rightarrow> wret outcome
     | None \<Rightarrow>
         wbind (live (\<lambda>env entry. case ab_connection b of
                        None \<Rightarrow> True | Some c \<Rightarrow> gv_locked_digest env entry c = ab_digest b)) (\<lambda>unchanged.
         if \<not> unchanged
         then finish_parked_call row (Some approval_id) EndDenied ''approval_connection_changed''
                ''connection authorization changed; request a new approval'' (Some (risk_value (t_risk (ab_tool b)))) None
         else wseq (audit (AuApproved approval_id)) (execute (ab_tool b) (ab_dumped b) (Some approval))))"

definition settle_approved :: "string \<Rightarrow> approval_row \<Rightarrow> call_row \<Rightarrow> parked_end + approval_binding \<Rightarrow> gateway_outcome gw" where
  "settle_approved approval_id approval row v =
     (case v of
        Inl (ParkedEnd status code reason risk) \<Rightarrow>
          finish_parked_call row (Some approval_id) status code reason risk None
      | Inr b \<Rightarrow> run_approved approval_id approval row b)"

definition resume_approved :: "string \<Rightarrow> approval_row \<Rightarrow> gateway_outcome gw" where
  "resume_approved approval_id approval =
     wbind the_row (\<lambda>row.
     wseq (if cr_status row \<in> set UNDISPATCHED_TOOL_STATUSES then audit_claim_reentered
           else if cr_status row \<noteq> PENDING_APPROVAL then state_error ''tool call is in unexpected status''
           else wret ())
     (wbind (live (\<lambda>env entry. approved_verdict env entry approval row)) (settle_approved approval_id approval row)))"

definition resolve_approved_once :: "string \<Rightarrow> gateway_outcome gw" where
  "resolve_approved_once approval_id =
     wseq next_entry
     (wbind (load_approval_pair approval_id) (\<lambda>(approval, row).
      if aw_status approval \<noteq> AP_APPROVED then state_error ''approval is not approved''
      else if cr_status row \<in> set TERMINAL_TOOL_STATUSES then wret (replayed_outcome row (Some approval) None)
      else if cr_status row \<in> set UNPROVEN_DISPATCH_STATUSES then
        wbind (reconcile_unproven_dispatch (Some (pl_risk (aw_payload approval))) (Some approval)) (\<lambda>unproven.
        case unproven of Some outcome \<Rightarrow> wret outcome | None \<Rightarrow> resume_approved approval_id approval)
      else resume_approved approval_id approval))"

definition reject_call :: "string \<Rightarrow> call_row \<Rightarrow> parked_end + approval_binding \<Rightarrow> gateway_outcome gw" where
  "reject_call approval_id row v =
     (case v of
        Inl (ParkedEnd status code reason risk) \<Rightarrow>
          finish_parked_call row (Some approval_id) status code reason risk None
      | Inr b \<Rightarrow>
          wseq (write_row (\<lambda>r. r\<lparr>cr_status := REJECTED, cr_error := Some ''approval_rejected''\<rparr>))
          (wseq (audit AuRejected)
            (wret ((outcome_of row OUT_REJECTED (Some (risk_value (t_risk (ab_tool b)))) ''approval_rejected''
                      ''a human rejected this tool call'')
                     \<lparr>go_approval_id := Some approval_id, go_error_code := Some ''approval_rejected''\<rparr>))))"

definition resolve_rejected_once :: "string \<Rightarrow> gateway_outcome gw" where
  "resolve_rejected_once approval_id =
     wseq next_entry
     (wbind (load_approval_pair approval_id) (\<lambda>(approval, row).
      if aw_status approval \<noteq> AP_REJECTED then state_error ''approval is not rejected''
      else if cr_status row \<in> set TERMINAL_TOOL_STATUSES then wret (replayed_outcome row (Some approval) None)
      else if cr_status row \<in> set UNPROVEN_DISPATCH_STATUSES
      then persist_execution_unknown (Some (pl_risk (aw_payload approval))) []
      else if cr_status row \<noteq> PENDING_APPROVAL \<and> cr_status row \<notin> set UNDISPATCHED_TOOL_STATUSES
      then state_error ''tool call is not pending approval''
      else wbind (live (\<lambda>env entry. validate_parked_approval_binding env entry approval row))
             (reject_call approval_id row)))"

section \<open>Entry points\<close>

definition committed :: "'a gw \<Rightarrow> 'a gw" where
  "committed m = wbind m (\<lambda>a. wseq commit (wret a))"

definition resolve_review :: "string \<Rightarrow> gateway_outcome gw" where
  "resolve_review review_id =
     wbind (load_review_pair review_id) (\<lambda>_. retry_while_unproven (committed (resolve_review_once review_id)))"

definition resolve_approved :: "string \<Rightarrow> gateway_outcome gw" where
  "resolve_approved approval_id =
     wbind (load_approval_pair approval_id) (\<lambda>_. retry_while_unproven (committed (resolve_approved_once approval_id)))"

definition resolve_rejected :: "string \<Rightarrow> gateway_outcome gw" where
  "resolve_rejected approval_id =
     wbind (load_approval_pair approval_id) (\<lambda>_. committed (resolve_rejected_once approval_id))"

end
