(* ===== verification/GatewayLifecycle.thy ===== *)
theory GatewayLifecycle
  imports GatewayState
begin

text \<open>
  The abstract life cycle of a tool call, the contract the gateway implements: a call waits (claimed, or
  parked on a person or a review), is dispatched, and ends. Nothing leaves a terminal status, only a
  dispatch reaches \<open>EXECUTING\<close>, only an executor completes a call, and only a re-opening goes back.
\<close>

definition terminal :: "call_status \<Rightarrow> bool" where
  "terminal c \<longleftrightarrow> c \<in> set TERMINAL_TOOL_STATUSES"

definition startable :: "call_status \<Rightarrow> bool" where
  "startable c \<longleftrightarrow> c \<in> {CLAIMED, PENDING_APPROVAL, PENDING_REVIEW}"

lemma terminal_simps [simp]:
  "terminal COMPLETED" "terminal FAILED" "terminal CALL_DENIED" "terminal REJECTED"
  "\<not> terminal CLAIMED" "\<not> terminal EXECUTING" "\<not> terminal EXECUTION_UNKNOWN"
  "\<not> terminal PENDING_APPROVAL" "\<not> terminal PENDING_REVIEW"
  by (simp_all add: terminal_def TERMINAL_TOOL_STATUSES_def)

lemma startable_simps [simp]:
  "startable CLAIMED" "startable PENDING_APPROVAL" "startable PENDING_REVIEW"
  "\<not> startable EXECUTING" "\<not> startable EXECUTION_UNKNOWN"
  "\<not> startable COMPLETED" "\<not> startable FAILED" "\<not> startable CALL_DENIED" "\<not> startable REJECTED"
  by (simp_all add: startable_def)

lemma status_lists [simp]:
  "c \<in> set TERMINAL_TOOL_STATUSES \<longleftrightarrow> terminal c"
  "c \<in> set UNDISPATCHED_TOOL_STATUSES \<longleftrightarrow> c = CLAIMED"
  "c \<in> set UNPROVEN_DISPATCH_STATUSES \<longleftrightarrow> c = EXECUTING \<or> c = EXECUTION_UNKNOWN"
  by (simp_all add: terminal_def UNDISPATCHED_TOOL_STATUSES_def UNPROVEN_DISPATCH_STATUSES_def)

text \<open>What a session may write to a row it holds.\<close>

inductive edit_step :: "call_status \<Rightarrow> call_status \<Rightarrow> bool" where
  Keep: "\<not> terminal c \<Longrightarrow> edit_step c c"
| Settle: "startable c \<Longrightarrow> d \<in> {CLAIMED, PENDING_APPROVAL, PENDING_REVIEW, CALL_DENIED, FAILED, REJECTED} \<Longrightarrow> edit_step c d"
| Finish: "d \<in> {COMPLETED, FAILED, EXECUTION_UNKNOWN} \<Longrightarrow> edit_step EXECUTING d"
| Exhaust: "edit_step EXECUTION_UNKNOWN FAILED"

inductive call_step :: "call_status \<Rightarrow> call_status \<Rightarrow> bool" where
  Edit: "edit_step c d \<Longrightarrow> call_step c d"
| Dispatch: "call_step CLAIMED EXECUTING"
| Reopen: "c \<in> {EXECUTING, EXECUTION_UNKNOWN} \<Longrightarrow> call_step c CLAIMED"

text \<open>
  The life of the row with the invocation's id, which is not there at first: it is born in a status an
  undispatched call may have.
\<close>

inductive lifecycle :: "call_status option \<Rightarrow> call_status option \<Rightarrow> bool" where
  Born: "c \<in> {CLAIMED, PENDING_APPROVAL, PENDING_REVIEW, CALL_DENIED, FAILED, REJECTED} \<Longrightarrow> lifecycle None (Some c)"
| Move: "call_step c d \<Longrightarrow> lifecycle (Some c) (Some d)"

inductive_cases lifecycle_NoneE: "lifecycle x None"
inductive_cases lifecycle_SomeE: "lifecycle (Some c) x"

inductive_simps lifecycle_born [simp]: "lifecycle None (Some c)"
inductive_simps edit_step_executing [simp]: "edit_step EXECUTING d"
inductive_simps edit_step_unknown [simp]: "edit_step EXECUTION_UNKNOWN d"
inductive_simps edit_step_claimed [simp]: "edit_step CLAIMED d"
inductive_simps edit_step_pending_approval [simp]: "edit_step PENDING_APPROVAL d"
inductive_simps edit_step_pending_review [simp]: "edit_step PENDING_REVIEW d"

lemma startable_not_terminal [simp]: "startable c \<Longrightarrow> \<not> terminal c"
  by (auto simp: startable_def)

lemma edit_step_settle [simp]:
  "startable c \<Longrightarrow> edit_step c CLAIMED" "startable c \<Longrightarrow> edit_step c PENDING_APPROVAL"
  "startable c \<Longrightarrow> edit_step c PENDING_REVIEW" "startable c \<Longrightarrow> edit_step c CALL_DENIED"
  "startable c \<Longrightarrow> edit_step c FAILED" "startable c \<Longrightarrow> edit_step c REJECTED"
  by (auto intro: Settle)

lemma edit_step_not_terminal: "edit_step c d \<Longrightarrow> \<not> terminal c"
  by (cases rule: edit_step.cases) (auto simp: startable_def)

lemma edit_step_startable: "edit_step c d \<Longrightarrow> startable d \<Longrightarrow> startable c"
  by (cases rule: edit_step.cases) auto

lemma edit_step_keep [simp]: "edit_step c c \<longleftrightarrow> \<not> terminal c"
  using edit_step_not_terminal Keep by blast

lemma edit_step_trans: "edit_step c d \<Longrightarrow> edit_step d e \<Longrightarrow> edit_step c e"
  by (auto elim!: edit_step.cases intro: edit_step.intros)

lemma lifecycle_born_edit: "lifecycle None (Some c) \<Longrightarrow> edit_step c d \<Longrightarrow> lifecycle None (Some d)"
  by (auto elim!: edit_step.cases)

lemma edit_step_unproven: "edit_step d c \<Longrightarrow> c = EXECUTING \<or> c = EXECUTION_UNKNOWN \<Longrightarrow> d = EXECUTING \<or> d = EXECUTION_UNKNOWN"
  by (auto elim!: edit_step.cases)

lemma edit_step_completes: "edit_step d COMPLETED \<Longrightarrow> d = EXECUTING"
  by (auto elim!: edit_step.cases)

text \<open>A sequence of committed statuses in which each is the one before it or one step on.\<close>

definition follows_lifecycle :: "call_status option list \<Rightarrow> bool" where
  "follows_lifecycle trail \<longleftrightarrow> successively (\<lambda>a b. a = b \<or> lifecycle a b) (None # trail)"

lemma follows_lifecycle_snoc:
  "follows_lifecycle (trail @ [b]) \<longleftrightarrow> follows_lifecycle trail \<and> (b = last (None # trail) \<or> lifecycle (last (None # trail)) b)"
  by (auto simp: follows_lifecycle_def successively_append_iff simp flip: append_Cons)

text \<open>What a session may hold over the committed row: the same status, or one it may write over it.\<close>

fun session_ahead :: "call_status option \<Rightarrow> call_status option \<Rightarrow> bool" where
  "session_ahead None None = True"
| "session_ahead None (Some c) = lifecycle None (Some c)"
| "session_ahead (Some d) None = False"
| "session_ahead (Some d) (Some c) = (d = c \<or> edit_step d c)"

lemma session_ahead_refl [simp]: "session_ahead a a"
  by (cases a) auto

lemma session_ahead_commits: "session_ahead a b \<Longrightarrow> b = a \<or> lifecycle a b"
  by (cases "(a, b)" rule: session_ahead.cases) (auto intro: Move Edit)

lemma session_ahead_edit: "session_ahead a (Some c) \<Longrightarrow> edit_step c d \<Longrightarrow> session_ahead a (Some d)"
  using lifecycle_born_edit edit_step_trans by (cases a) auto

lemma session_ahead_reopens:
  "session_ahead a (Some c) \<Longrightarrow> c = EXECUTING \<or> c = EXECUTION_UNKNOWN \<Longrightarrow> lifecycle a (Some CLAIMED)"
  using edit_step_unproven by (cases a) (auto intro!: Move Reopen)

lemma lifecycle_terminal: "lifecycle (Some c) x \<Longrightarrow> \<not> terminal c"
  by (elim lifecycle_SomeE call_step.cases) (auto dest: edit_step_not_terminal)

lemma lifecycle_completes: "lifecycle x (Some COMPLETED) \<Longrightarrow> x = Some EXECUTING \<or> x = Some COMPLETED"
  by (auto elim!: lifecycle.cases call_step.cases edit_step.cases)

lemma lifecycle_executes: "lifecycle x (Some EXECUTING) \<Longrightarrow> x = Some CLAIMED \<or> x = Some EXECUTING"
  by (auto elim!: lifecycle.cases call_step.cases edit_step.cases)

end
