(* ===== verification/GatewayLaws.thy ===== *)
theory GatewayLaws
  imports GatewayResolve GatewayLifecycle
begin

text \<open>
  What the entry points of the gateway can do to the state of an invocation, for any preorder that its
  elementary writes respect (\<open>gateway_relation\<close>): quiet session changes, commit and rollback, a status
  change of a row that is not terminal, the first insert, the re-opening of an unproven dispatch, the
  dispatch itself, and an executor entered under a live authorization.
\<close>

section \<open>Elementary writes\<close>

text \<open>The columns that name the call never change.\<close>

definition same_call :: "call_row \<Rightarrow> call_row \<Rightarrow> bool" where
  "same_call r q \<longleftrightarrow> cr_workspace q = cr_workspace r \<and> cr_agent q = cr_agent r \<and> cr_run q = cr_run r
                    \<and> cr_tool q = cr_tool r \<and> cr_input q = cr_input r"

text \<open>The entry, the rows, the audits, the trail of commits and the executor entries are untouched; nothing staged is a dispatch.\<close>

definition same_rows :: "gateway_state \<Rightarrow> gateway_state \<Rightarrow> bool" where
  "same_rows s t \<longleftrightarrow> gw_entry t = gw_entry s \<and> gw_row t = gw_row s \<and> gw_db t = gw_db s
     \<and> gw_audits t = gw_audits s \<and> gw_effects t = gw_effects s \<and> gw_trail t = gw_trail s
     \<and> (AuDispatched \<in> set (gw_staged t) \<longrightarrow> AuDispatched \<in> set (gw_staged s))"

definition committed_state :: "gateway_state \<Rightarrow> gateway_state" where
  "committed_state s = s\<lparr>gw_db := gw_row s, gw_db_approvals := gw_approvals s,
     gw_audits := gw_audits s @ gw_staged s, gw_staged := [], gw_commits := Suc (gw_commits s),
     gw_trail := gw_trail s @ [row_status (gw_row s)]\<rparr>"

definition dispatched_state :: "call_row \<Rightarrow> gateway_state \<Rightarrow> gateway_state" where
  "dispatched_state row s = s\<lparr>gw_db := Some (row\<lparr>cr_status := EXECUTING\<rparr>),
     gw_row := Some (row\<lparr>cr_status := EXECUTING\<rparr>), gw_audits := gw_audits s @ [AuDispatched],
     gw_commits := Suc (gw_commits s), gw_trail := gw_trail s @ [Some EXECUTING]\<rparr>"

definition entered_state :: "tool \<Rightarrow> pyval dict \<Rightarrow> approval_row option \<Rightarrow> gateway_state \<Rightarrow> gateway_state" where
  "entered_state t dumped via s = s\<lparr>gw_effects := gw_effects s @
     [\<lparr>ef_entry = gw_entry s, ef_tool = t, ef_input = dumped, ef_approval = via\<rparr>]\<rparr>"

definition reopened :: "call_row \<Rightarrow> call_row" where
  "reopened r = r\<lparr>cr_status := CLAIMED, cr_error := None, cr_output := []\<rparr>"

text \<open>The re-opening is one transaction: the row, its audit event and the commit.\<close>

definition reopened_state :: "call_row \<Rightarrow> gateway_state \<Rightarrow> gateway_state" where
  "reopened_state r s = committed_state (s\<lparr>gw_row := Some (reopened r),
     gw_staged := gw_staged s @ [AuReentered ''redispatch_after_unproven_outcome'']\<rparr>)"

section \<open>Live authorization\<close>

text \<open>
  The approval shows the same operation: it was approved by a person, and its payload names the tool's
  capability and risk and an input equal to one the dumped input is equal to.
\<close>

definition approves :: "gateway_env \<Rightarrow> approval_row \<Rightarrow> tool \<Rightarrow> pyval dict \<Rightarrow> bool" where
  "approves env a t dumped \<longleftrightarrow>
     aw_status a = AP_APPROVED \<and> pl_context (aw_payload a) = gv_context env
     \<and> pl_tool_call_id (aw_payload a) = gv_invocation env
     \<and> pl_capability (aw_payload a) = t_required_capability t \<and> pl_risk (aw_payload a) = risk_value (t_risk t)
     \<and> (\<exists>stored. same_json (pl_input (aw_payload a)) stored \<and> same_json dumped stored)"

text \<open>
  An executor entry is authorized when the live grants, rules, validator and readiness of its own entry
  allow it, without an approval only when the decision is to run it and no review gate stands before it.
\<close>

definition authorized :: "gateway_env \<Rightarrow> effect \<Rightarrow> bool" where
  "authorized env e \<longleftrightarrow>
     (case authorize env (ef_entry e) (ef_tool e) (ef_input e) of
        Inl _ \<Rightarrow> False
      | Inr decision \<Rightarrow>
          (case ef_approval e of
             None \<Rightarrow> d_decision decision = ALLOW \<and> review_gate env (ef_entry e) (ef_tool e) = None
           | Some a \<Rightarrow> approves env a (ef_tool e) (ef_input e)))"

definition may_run :: "tool \<Rightarrow> pyval dict \<Rightarrow> approval_row option \<Rightarrow> gateway_env \<Rightarrow> gateway_state \<Rightarrow> bool" where
  "may_run t dumped via env s \<longleftrightarrow>
     authorized env \<lparr>ef_entry = gw_entry s, ef_tool = t, ef_input = dumped, ef_approval = via\<rparr>"

section \<open>The interface\<close>

locale gateway_relation = wf_relation R
  for R :: "gateway_env \<Rightarrow> gateway_state \<Rightarrow> gateway_state \<Rightarrow> bool" +
  assumes quiet: "same_rows s t \<Longrightarrow> R env s t"
    and commits: "R env s (committed_state s)"
    and discards: "R env s (discard s)"
    and writes: "\<lbrakk>gw_row s = Some r; same_call r q; edit_step (cr_status r) (cr_status q);
                  cr_status q = COMPLETED \<longrightarrow> gw_effects s \<noteq> []\<rbrakk> \<Longrightarrow> R env s (s\<lparr>gw_row := Some q\<rparr>)"
    and inserts: "\<lbrakk>gw_db s = None; lifecycle None (Some (cr_status q))\<rbrakk> \<Longrightarrow> R env s (s\<lparr>gw_row := Some q\<rparr>)"
    and reopens: "\<lbrakk>gw_row s = Some r; cr_status r = EXECUTING \<or> cr_status r = EXECUTION_UNKNOWN;
                   redispatch_is_safe env (gw_entry s) (cr_tool r); dispatch_count s < MAX_DISPATCH_ATTEMPTS\<rbrakk>
                  \<Longrightarrow> R env s (reopened_state r s)"
    and dispatches: "\<lbrakk>gw_db s = Some r; cr_status r = CLAIMED\<rbrakk> \<Longrightarrow> R env s (dispatched_state r s)"
    and enters: "\<lbrakk>gw_db s = Some r; cr_status r = CLAIMED; may_run tool dumped via env s\<rbrakk>
                 \<Longrightarrow> R env s (entered_state tool dumped via (dispatched_state r s))"

text \<open>The status of the session's row.\<close>

definition status_in :: "call_status set \<Rightarrow> gateway_env \<Rightarrow> gateway_state \<Rightarrow> bool" where
  "status_in C env s \<longleftrightarrow> (\<exists>r. gw_row s = Some r \<and> cr_status r \<in> C)"

lemma status_inI: "gw_row s = Some r \<Longrightarrow> cr_status r \<in> C \<Longrightarrow> status_in C env s"
  by (simp add: status_in_def)

context gateway_relation
begin

section \<open>Primitive operations\<close>

lemma relates_commit: "relates R commit"
  using commits by (auto simp: relates_def commit_def committed_state_def Let_def)

lemma triple_commit: "triple R (status_in C) commit (\<lambda>_. status_in C)"
  using commits by (auto simp: triple_def commit_def committed_state_def Let_def status_in_def split: if_splits)

lemma relates_rollback: "relates R rollback"
  unfolding rollback_def by (intro relates_mod discards)

lemma relates_audit: "a \<noteq> AuDispatched \<Longrightarrow> relates R (audit a)"
  unfolding audit_def by (intro relates_mod quiet) (simp add: same_rows_def)

lemma triple_audit: "a \<noteq> AuDispatched \<Longrightarrow> triple R (status_in C) (audit a) (\<lambda>_. status_in C)"
  using relates_audit [of a] by (auto simp: triple_def relates_def audit_def wmod_def status_in_def)

lemma relates_live: "relates R (live f)"
  by (simp add: relates_def live_def related_refl)

lemma triple_live: "triple R P (live f) (\<lambda>a env s. P env s \<and> a = f env (gw_entry s))"
  by (auto simp: triple_def live_def related_refl)

lemma relates_state_error: "relates R (state_error e)"
  unfolding state_error_def by (rule relates_raise)

lemma relates_the_row: "relates R the_row"
  unfolding the_row_def by (intro relates_program relates_state_error)

lemma triple_the_row: "triple R P the_row (\<lambda>r env s. P env s \<and> gw_row s = Some r)"
  by (auto simp: triple_def the_row_def state_error_def wbind_def w_simps related_refl split: option.splits)

lemma relates_the_approval: "relates R (the_approval i)"
  unfolding the_approval_def by (rule relates_get)

lemma triple_the_approval: "triple R P (the_approval i) (\<lambda>_. P)"
  unfolding the_approval_def by (rule triple_conseq [OF triple_get]) simp_all

lemma relates_add_approval: "relates R (add_approval i a)"
  unfolding add_approval_def by (intro relates_mod quiet) (simp add: same_rows_def)

lemma triple_add_approval: "triple R (status_in C) (add_approval i a) (\<lambda>_. status_in C)"
  using relates_add_approval [of i a] by (auto simp: triple_def relates_def add_approval_def wmod_def status_in_def)

text \<open>A write that sets the status, and one that keeps it.\<close>

lemma triple_set_status:
  assumes "\<And>r. cr_status (f r) = c" "\<And>r. same_call r (f r)" "\<And>b. b \<in> C \<Longrightarrow> edit_step b c" "c \<noteq> COMPLETED"
  shows "triple R (status_in C) (write_row f) (\<lambda>_. status_in {c})"
proof (rule tripleI)
  fix env s q t
  assume "status_in C env s" and run: "write_row f env s = (q, t)"
  then obtain r where r: "gw_row s = Some r" "cr_status r \<in> C"
    by (auto simp: status_in_def)
  then have "R env s (s\<lparr>gw_row := Some (f r)\<rparr>)"
    using assms by (intro writes) auto
  with run r assms(1) show "R env s t \<and> (\<forall>a. q = Val a \<longrightarrow> status_in {c} env t)"
    by (auto simp: write_row_def wmod_def status_in_def)
qed

lemma triple_keep_status:
  assumes "\<And>r. cr_status (f r) = cr_status r" "\<And>r. same_call r (f r)" "\<And>b. b \<in> C \<Longrightarrow> \<not> terminal b"
  shows "triple R (status_in C) (write_row f) (\<lambda>_. status_in C)"
proof (rule tripleI)
  fix env s q t
  assume "status_in C env s" and run: "write_row f env s = (q, t)"
  then obtain r where r: "gw_row s = Some r" "cr_status r \<in> C"
    by (auto simp: status_in_def)
  have "\<not> terminal (cr_status r)" "cr_status r \<noteq> COMPLETED"
    using assms(3) [OF r(2)] by auto
  then have "R env s (s\<lparr>gw_row := Some (f r)\<rparr>)"
    using assms(1,2) r by (intro writes) auto
  with run r assms(1) show "R env s t \<and> (\<forall>a. q = Val a \<longrightarrow> status_in C env t)"
    by (auto simp: write_row_def wmod_def status_in_def)
qed

lemma triple_insert:
  assumes "lifecycle None (Some (cr_status row))"
  shows "triple R P (insert_row row) (\<lambda>b env s. b \<longrightarrow> gw_row s = Some row)"
  using assms inserts discards by (auto simp: triple_def insert_row_def)

lemmas relates_ops = relates_program relates_commit relates_rollback relates_audit relates_live
  relates_state_error relates_the_row relates_the_approval relates_add_approval

text \<open>A row read first, then a program whose case the row's status decides.\<close>

lemma relates_read_row:
  assumes "relates R m" and "\<And>row. triple R (\<lambda>env s. gw_row s = Some row) (f row) (\<lambda>_. anything)"
  shows "relates R (wbind (wget gw_row) (\<lambda>found. case found of None \<Rightarrow> m | Some row \<Rightarrow> f row))"
  unfolding triple_relates
proof (rule triple_bind [OF triple_get])
  fix found
  show "triple R (\<lambda>env s. True \<and> found = gw_row s) (case found of None \<Rightarrow> m | Some row \<Rightarrow> f row) (\<lambda>_. anything)"
    using assms by (cases found) (auto intro: triple_weaken triple_pre [OF assms(2)])
qed

lemma relates_read_the_row:
  assumes "\<And>row. triple R (\<lambda>env s. gw_row s = Some row) (f row) (\<lambda>_. anything)"
  shows "relates R (wbind the_row f)"
  unfolding triple_relates using assms by (intro triple_bind [OF triple_the_row]) (auto intro: triple_pre)

lemma row_status: "gw_row s = Some row \<Longrightarrow> cr_status row \<in> C \<Longrightarrow> status_in C env s"
  by (rule status_inI)

section \<open>Recovery\<close>

abbreviation unproven :: "gateway_env \<Rightarrow> gateway_state \<Rightarrow> bool" where
  "unproven \<equiv> status_in {EXECUTING, EXECUTION_UNKNOWN}"

lemma same_call_simps [simp]:
  "same_call r r" "same_call r (mark_unknown r)" "same_call r (reopened r)"
  by (simp_all add: same_call_def mark_unknown_def reopened_def)

lemma triple_mark_unknown: "triple R unproven (write_row mark_unknown) (\<lambda>_. status_in {EXECUTION_UNKNOWN})"
  by (rule triple_set_status) (auto simp: mark_unknown_def same_call_def)

lemma triple_record_unknown: "triple R unproven (record_unknown approval risk) (\<lambda>_. anything)"
  unfolding record_unknown_def
  by (rule triple_seq [OF triple_mark_unknown], rule triple_weaken, intro relates_ops) simp

lemma triple_exhausted: "triple R unproven (persist_redispatch_exhausted row risk reason) (\<lambda>_. anything)"
  unfolding persist_redispatch_exhausted_def Let_def
  by (rule triple_bind [OF triple_ask], rule triple_pre, rule triple_seq, rule triple_set_status [where C = "{EXECUTING, EXECUTION_UNKNOWN}"])
     (auto simp: same_call_def intro!: triple_weaken relates_ops)

lemma triple_any: "triple R P (wret a) (\<lambda>_. anything)" "triple R P (state_error e) Q"
  by (simp_all add: triple_def wret_def state_error_def wraise_def related_refl)

text \<open>A write to a row whose value is known.\<close>

lemma triple_row_set:
  assumes "\<And>r. cr_status (f r) = c" "\<And>r. same_call r (f r)" "edit_step (cr_status row) c" "c \<noteq> COMPLETED"
  shows "triple R (\<lambda>env s. gw_row s = Some row) (write_row f) (\<lambda>_. status_in {c})"
  by (rule triple_pre [OF triple_set_status [where C = "{cr_status row}"]]) (use assms in \<open>auto simp: status_in_def\<close>)

lemma triple_row_keep:
  assumes "\<And>r. cr_status (f r) = cr_status r" "\<And>r. same_call r (f r)" "\<not> terminal (cr_status row)"
  shows "triple R (\<lambda>env s. gw_row s = Some row) (write_row f) (\<lambda>_. status_in {cr_status row})"
  by (rule triple_pre [OF triple_keep_status [where C = "{cr_status row}"]]) (use assms in \<open>auto simp: status_in_def\<close>)

lemma relates_persist_unknown: "relates R (persist_execution_unknown risk detail)"
  unfolding persist_execution_unknown_def
proof (rule relates_read_row [OF relates_state_error], rule triple_bind [OF triple_the_approval],
    intro triple_cases(1) triple_any, goal_cases)
  case (1 row approval)
  have det: "triple R (status_in {EXECUTION_UNKNOWN}) (if detail = [] then wret () else write_row (\<lambda>r. r\<lparr>cr_output := out\<rparr>))
      (\<lambda>_. status_in {EXECUTION_UNKNOWN})" for out
    by (intro triple_cases(1) triple_ret triple_keep_status) (auto simp: same_call_def)
  from 1 show ?case
    by (intro triple_bind [OF triple_ask] triple_seq [OF _ triple_seq [OF det triple_weaken]])
       (auto simp: mark_unknown_def same_call_def intro!: relates_ops triple_pre [OF triple_row_set])
qed

lemma triple_reopen:
  "triple R (\<lambda>env s. unproven env s \<and> (\<forall>r. gw_row s = Some r \<longrightarrow> redispatch_is_safe env (gw_entry s) (cr_tool r))
             \<and> dispatch_count s < MAX_DISPATCH_ATTEMPTS)
     reopen_unproven_dispatch (\<lambda>_. status_in {CLAIMED})"
proof (rule tripleI)
  fix env s q u
  assume P: "unproven env s \<and> (\<forall>r. gw_row s = Some r \<longrightarrow> redispatch_is_safe env (gw_entry s) (cr_tool r))
      \<and> dispatch_count s < MAX_DISPATCH_ATTEMPTS"
    and run: "reopen_unproven_dispatch env s = (q, u)"
  then obtain r where r: "gw_row s = Some r" "cr_status r = EXECUTING \<or> cr_status r = EXECUTION_UNKNOWN"
      "redispatch_is_safe env (gw_entry s) (cr_tool r)"
    by (auto simp: status_in_def)
  have "u = reopened_state r s"
    using run r(1)
    by (auto simp: reopen_unproven_dispatch_def reopened_state_def committed_state_def reopened_def write_row_def
        audit_def wseq_def wbind_def wmod_def commit_def Let_def split: if_splits)
  moreover have "R env s (reopened_state r s)"
    using reopens r P by blast
  moreover have "status_in {CLAIMED} env (reopened_state r s)"
    by (simp add: status_in_def reopened_state_def committed_state_def reopened_def)
  ultimately show "R env s u \<and> (\<forall>a. q = Val a \<longrightarrow> status_in {CLAIMED} env u)"
    by simp
qed

lemma triple_reconcile:
  "triple R anything (reconcile_unproven_dispatch risk approval) (\<lambda>res env s. res = None \<longrightarrow> status_in {CLAIMED} env s)"
  unfolding reconcile_unproven_dispatch_def
proof (rule triple_bind [OF triple_the_row], intro triple_cases(1) triple_any, goal_cases)
  case (1 row)
  then show ?case
    by (intro triple_ret) simp
next
  case (2 row)
  then have row: "cr_status row = EXECUTING \<or> cr_status row = EXECUTION_UNKNOWN"
    by auto
  have some: "triple R P m (\<lambda>_. anything) \<Longrightarrow>
      triple R P (wbind m (\<lambda>o'. wret (Some o'))) (\<lambda>res env s. res = None \<longrightarrow> status_in {CLAIMED} env s)" for P m
    by (erule triple_bind) (intro triple_ret, simp)
  have unp: "gw_row s = Some row \<Longrightarrow> unproven env s" for env s
    using row by (auto simp: status_in_def)
  have reopening: "triple R (\<lambda>env s. ((gw_row s = Some row) \<and> redispatch_is_safe env (gw_entry s) (cr_tool row))
        \<and> attempts = dispatch_count s) (wseq reopen_unproven_dispatch (wret None))
      (\<lambda>res env s. res = None \<longrightarrow> status_in {CLAIMED} env s)" if "attempts < MAX_DISPATCH_ATTEMPTS" for attempts
    by (rule triple_seq [OF triple_pre [OF triple_reopen]]) (use that unp in \<open>auto intro: triple_ret\<close>)
  show ?case
  proof (rule triple_bind [OF triple_live], rule triple_cases(1), goal_cases)
    case (1 safe)
    show ?case
    proof (rule triple_bind [OF triple_get], rule triple_cases(1), goal_cases)
      case (1 attempts)
      with \<open>safe\<close> show ?case
        by (intro triple_pre [OF reopening]) auto
    next
      case (2 attempts)
      show ?case
        by (rule some, rule triple_pre [OF triple_exhausted]) (use unp in auto)
    qed
  next
    case (2 safe)
    show ?case
    proof (rule triple_cases(1), goal_cases)
      case 1
      show ?case
        by (intro triple_ret) simp
    next
      case 2
      show ?case
        by (rule some, rule triple_pre [OF triple_record_unknown]) (use unp in auto)
    qed
  qed
qed

end

end
