(* ===== verification/GatewayEntry.thy ===== *)
theory GatewayEntry
  imports GatewayLaws
begin

text \<open>
  The programs of the gateway respect every \<open>gateway_relation\<close>: replay, recovery and denial write only
  rows that are not terminal, and an executor is entered only under the authorization its entry computed.
  A \<open>gateway_run\<close> is such a relation that new entries respect too; its laws reach the entry points.
\<close>

text \<open>What a caller sets on a claim it took over leaves the call and its status alone.\<close>

definition claim_edit :: "(call_row \<Rightarrow> call_row) \<Rightarrow> bool" where
  "claim_edit f \<longleftrightarrow> (\<forall>r. same_call r (f r) \<and> cr_status (f r) = cr_status r)"

context gateway_relation
begin

section \<open>Reading a row\<close>

lemma triple_read_row:
  assumes "triple R P m Q" and "\<And>row. triple R (\<lambda>env s. gw_row s = Some row) (f row) Q"
  shows "triple R P (wbind (wget gw_row) (\<lambda>found. case found of None \<Rightarrow> m | Some row \<Rightarrow> f row)) Q"
proof (rule triple_bind [OF triple_get])
  fix found
  show "triple R (\<lambda>env s. P env s \<and> found = gw_row s) (case found of None \<Rightarrow> m | Some row \<Rightarrow> f row) Q"
    by (cases found) (auto intro: triple_pre [OF assms(1)] triple_pre [OF assms(2)])
qed

lemma relates_drop: "triple R anything m Q \<Longrightarrow> relates R m"
  unfolding triple_relates by (erule triple_conseq) simp_all

lemma relates_under: "relates R m \<Longrightarrow> triple R P m (\<lambda>_. anything)"
  by (rule triple_weaken)

lemma relates_reconcile: "relates R (reconcile_unproven_dispatch risk approval)"
  by (rule relates_drop [OF triple_reconcile])

text \<open>A write to a row that still waits may park it again, claim it or end it.\<close>

abbreviation waiting :: "gateway_env \<Rightarrow> gateway_state \<Rightarrow> bool" where
  "waiting \<equiv> status_in {CLAIMED, PENDING_APPROVAL, PENDING_REVIEW}"

lemma triple_waiting_write:
  assumes "\<And>r. same_call r (f r)" and "\<And>r. startable (cr_status r) \<Longrightarrow> edit_step (cr_status r) (cr_status (f r))"
  shows "triple R waiting (write_row f) (\<lambda>_. anything)"
proof (rule tripleI)
  fix env s q t
  assume "waiting env s" and run: "write_row f env s = (q, t)"
  then obtain r where r: "gw_row s = Some r" "startable (cr_status r)"
    by (auto simp: status_in_def)
  moreover have "cr_status (f r) \<noteq> COMPLETED"
    using assms(2) [OF r(2)] r(2) by (auto elim: edit_step.cases)
  ultimately have "R env s (s\<lparr>gw_row := Some (f r)\<rparr>)"
    using assms by (intro writes) auto
  with run r show "R env s t \<and> (\<forall>a. q = Val a \<longrightarrow> True)"
    by (auto simp: write_row_def wmod_def)
qed

section \<open>Recovery\<close>

lemma triple_close_unprovable: "triple R unproven (close_unprovable_unvalidated approval) (\<lambda>_. anything)"
  unfolding close_unprovable_unvalidated_def
proof (rule triple_bind [OF triple_the_row], rule triple_bind [OF triple_live], intro triple_cases(1), goal_cases)
  case (1 row safe)
  show ?case
    by (rule triple_pre [OF triple_exhausted]) simp
next
  case (2 row safe)
  show ?case
    by (rule triple_any)
next
  case (3 row safe)
  show ?case
    by (rule triple_pre [OF triple_record_unknown]) simp
qed

lemma triple_adopt:
  assumes "claim_edit edit" and "c \<in> {CLAIMED, PENDING_APPROVAL, PENDING_REVIEW, CALL_DENIED}"
  shows "triple R anything (adopt_undispatched_claim c approval_id review_id edit)
    (\<lambda>adopted env s. adopted \<longrightarrow> status_in {c} env s)"
  unfolding adopt_undispatched_claim_def
proof (rule triple_read_row, goal_cases)
  case 1
  show ?case
    by (rule triple_ret) simp
next
  case (2 row)
  show ?case
  proof (rule triple_cases(1), goal_cases)
    case 1
    show ?case
      by (rule triple_ret) simp
  next
    case 2
    let ?f = "\<lambda>r. edit (r\<lparr>cr_status := c, cr_error := None,
                cr_approval := (if approval_id = None then cr_approval r else approval_id),
                cr_review := (if review_id = None then cr_review r else review_id)\<rparr>)"
    have "same_call r (?f r)" "cr_status (?f r) = c" for r
      using assms(1) by (auto simp: claim_edit_def same_call_def)
    moreover have "edit_step CLAIMED c" "c \<noteq> COMPLETED"
      using assms(2) by auto
    ultimately have "triple R (\<lambda>env s. gw_row s = Some row) (write_row ?f) (\<lambda>_. status_in {c})"
      using 2 by (intro triple_row_set) auto
    then show ?case
      by (rule triple_seq) (rule triple_ret, simp)
  qed
qed

lemma relates_adopt:
  "claim_edit edit \<Longrightarrow> c \<in> {CLAIMED, PENDING_APPROVAL, PENDING_REVIEW, CALL_DENIED} \<Longrightarrow>
   relates R (adopt_undispatched_claim c approval_id review_id edit)"
  by (rule relates_drop [OF triple_adopt])

lemma claim_edit_id [simp]: "claim_edit id"
  by (simp add: claim_edit_def)

lemma relates_insert: "lifecycle None (Some (cr_status row)) \<Longrightarrow> relates R (insert_row row)"
  by (rule relates_drop [OF triple_insert])

text \<open>The row a program makes and inserts.\<close>

lemma relates_insert_made:
  assumes "\<And>env. lifecycle None (Some (cr_status (f env)))"
  shows "relates R (wbind (wask f) insert_row)"
    and "(\<And>b. relates R (g b)) \<Longrightarrow> relates R (wbind (wask f) (\<lambda>row. wbind (insert_row row) g))"
proof -
  have made: "triple R (\<lambda>env s. True \<and> row = f env) (insert_row row) (\<lambda>_. anything)" for row
  proof (rule tripleI)
    fix env s q t
    assume "True \<and> row = f env" and run: "insert_row row env s = (q, t)"
    then have "lifecycle None (Some (cr_status row))"
      using assms by blast
    then show "R env s t \<and> (\<forall>a. q = Val a \<longrightarrow> True)"
      using tripleD(1) [OF triple_insert [where P = anything] _ run] by blast
  qed
  show "relates R (wbind (wask f) insert_row)"
    unfolding triple_relates by (rule triple_bind [OF triple_ask made])
  show "relates R (wbind (wask f) (\<lambda>row. wbind (insert_row row) g))" if "\<And>b. relates R (g b)"
    unfolding triple_relates
    by (rule triple_bind [OF triple_ask], rule triple_bind [OF made], rule relates_under [OF that])
qed

lemma relates_mismatch:
  "relates R (invocation_mismatch_outcome tool_name risk sanitized_input)" "relates R (invocation_mismatch t dumped)"
  unfolding invocation_mismatch_def invocation_mismatch_outcome_def by (intro relates_ops; simp)+

lemma relates_reentered: "relates R audit_claim_reentered"
  unfolding audit_claim_reentered_def by (intro relates_ops) simp

lemma relates_replay_by_status: "relates R (replay_by_status t dumped row approval)"
  unfolding replay_by_status_def Let_def
  by (intro relates_ops relates_mismatch relates_reentered relates_reconcile)

lemma relates_existing: "relates R (existing_invocation_outcome t dumped)"
  unfolding existing_invocation_outcome_def approval_of_row_def
  by (intro relates_ops relates_mismatch relates_replay_by_status)

lemma triple_deny_in_place: "triple R (status_in {CLAIMED}) (deny_in_place row code reason) (\<lambda>_. anything)"
  unfolding deny_in_place_def
  by (rule triple_seq [OF triple_set_status [where c = CALL_DENIED]])
     (auto simp: same_call_def intro!: relates_under relates_ops)

lemma relates_existing_unvalidated:
  "relates R (existing_unvalidated_invocation tool_name sanitized_input canonical code reason)"
  unfolding existing_unvalidated_invocation_def
proof (rule relates_read_row [OF relates_ret], rule triple_bind [OF triple_live], goal_cases)
  case (1 row same)
  show ?case
  proof (rule triple_bind [where Q = "\<lambda>_. anything", OF _ relates_under [OF relates_ret]], unfold Let_def,
      intro triple_cases(1) relates_under [OF relates_mismatch(1)], rule triple_bind [OF triple_the_approval], goal_cases)
    case (1 approval)
    show ?case
    proof (intro triple_cases(1) triple_any relates_under [OF relates_mismatch(1)], goal_cases)
      case 1
      then show ?case
        by (intro triple_pre [OF triple_close_unprovable]) (auto simp: status_in_def)
    next
      case 2
      then show ?case
        by (intro triple_pre [OF triple_deny_in_place]) (auto simp: status_in_def)
    next
      case 3
      then show ?case
        by (intro triple_pre [OF triple_close_unprovable]) (auto simp: status_in_def)
    qed
  qed
qed

lemma relates_persist_denial:
  "relates R (persist_denial tool_name code reason sanitized_input risk connection_id adopt_claim)"
  unfolding persist_denial_def
  by (intro relates_insert_made relates_ops relates_adopt relates_existing_unvalidated)
     (auto simp: claim_edit_def same_call_def new_row_def)

section \<open>Claim, dispatch, run\<close>

lemma relates_claim_adopted: "relates R (claim_adopted t dumped)"
  unfolding claim_adopted_def by (intro relates_ops relates_adopt relates_existing) simp_all

lemma relates_claim_direct: "relates R (claim_direct_call t sanitized_input dumped connection_id adopt_claim)"
  unfolding claim_direct_call_def
  by (intro relates_insert_made relates_ops relates_claim_adopted relates_existing) (simp_all add: new_row_def)

lemma relates_reload: "relates R (reload_or_fail t dumped message)"
  unfolding reload_or_fail_def by (intro relates_ops relates_existing)

lemma relates_park: "relates R (park_for_review t review_id reason sanitized_input dumped connection_id adopt_claim)"
  unfolding park_for_review_def Let_def
  by (intro relates_insert_made relates_ops relates_persist_denial relates_adopt relates_reload) (simp_all add: new_row_def)

lemma relates_stage:
  "relates R (stage_approval t provider_call_id digest decision sanitized_input dumped connection_id adopt_claim)"
  unfolding stage_approval_def
  by (intro relates_insert_made relates_ops relates_adopt relates_reload) (simp_all add: new_row_def)

lemma relates_give_up: "relates R (give_up_unknown t detail)"
  unfolding give_up_unknown_def by (intro relates_ops relates_persist_unknown)

text \<open>The executor was entered and nothing recorded yet what it did.\<close>

abbreviation running :: "gateway_env \<Rightarrow> gateway_state \<Rightarrow> bool" where
  "running \<equiv> \<lambda>env s. status_in {EXECUTING} env s \<and> gw_effects s \<noteq> []"

lemma triple_record:
  assumes "\<And>r. same_call r (f r)" "\<And>r. cr_status (f r) = status" "status = COMPLETED \<or> status = FAILED"
  shows "triple R running (write_row f) (\<lambda>_. anything)"
proof (rule tripleI)
  fix env s q t
  assume "running env s" and run: "write_row f env s = (q, t)"
  then obtain r where r: "gw_row s = Some r" "cr_status r = EXECUTING" "gw_effects s \<noteq> []"
    by (auto simp: status_in_def)
  then have "R env s (s\<lparr>gw_row := Some (f r)\<rparr>)"
    using assms by (intro writes) auto
  with run r show "R env s t \<and> (\<forall>a. q = Val a \<longrightarrow> True)"
    by (auto simp: write_row_def wmod_def)
qed

lemma triple_finish_executor:
  assumes "status = COMPLETED \<or> status = FAILED"
  shows "triple R running (finish_executor t status output error_code decision_code decision_reason) (\<lambda>_. anything)"
  unfolding finish_executor_def
  by (rule triple_seq [OF triple_record [where status = status]])
     (use assms in \<open>auto simp: same_call_def split: option.splits intro!: relates_under relates_ops\<close>)

text \<open>The dispatch is won, the process dies with it or the executor is entered, or it is lost.\<close>

lemma triple_dispatch_enter:
  assumes lost: "relates R n" and won: "\<And>result. triple R running (f result) (\<lambda>_. anything)"
  shows "triple R (may_run t dumped via)
    (wbind mark_dispatched (\<lambda>won. if \<not> won then n else wbind (enter_executor t dumped via) f)) (\<lambda>_. anything)"
    (is "triple R _ ?m _")
proof (rule tripleI)
  fix env s q u
  assume may: "may_run t dumped via env s" and run: "?m env s = (q, u)"
  show "R env s u \<and> (\<forall>a. q = Val a \<longrightarrow> True)"
  proof (cases "\<exists>r. gw_db s = Some r \<and> cr_status r = CLAIMED")
    case True
    then obtain r where r: "gw_db s = Some r" "cr_status r = CLAIMED"
      by auto
    let ?d = "dispatched_state r s"
    have mark: "mark_dispatched env s = (if gv_crash env (gw_commits s) then Parked AtCommand else Val True, ?d)"
      using r by (simp add: mark_dispatched_def dispatched_state_def Let_def)
    show ?thesis
    proof (cases "gv_crash env (gw_commits s)")
      case True
      with mark run have "u = ?d"
        by (simp add: wbind_def)
      with r show ?thesis
        using dispatches by simp
    next
      case False
      let ?e = "entered_state t dumped via ?d"
      have ent: "enter_executor t dumped via env ?d = (Val (gv_executor env (gw_entry s)), ?e)"
        by (simp add: enter_executor_def entered_state_def dispatched_state_def)
      have "f (gv_executor env (gw_entry s)) env ?e = (q, u)"
        using run mark False ent by (simp add: wbind_def)
      moreover have "running env ?e"
        by (simp add: status_in_def entered_state_def dispatched_state_def)
      ultimately have "R env ?e u"
        using tripleD(1) [OF won] by blast
      with enters [OF r may] show ?thesis
        using related_trans by blast
    qed
  next
    case False
    then have "mark_dispatched env s = (Val False, discard s)"
      by (auto simp: mark_dispatched_def split: option.splits)
    with run have "n env (discard s) = (q, u)"
      by (simp add: wbind_def)
    then show ?thesis
      using relatesD [OF lost] discards related_trans by blast
  qed
qed

lemma triple_run_executor: "triple R (may_run t dumped via) (run_executor t dumped via) (\<lambda>_. anything)"
  unfolding run_executor_def
proof (rule triple_dispatch_enter [OF relates_give_up], rule triple_bind [OF triple_ask], goal_cases)
  case (1 result sanitize)
  have die: "relates R die"
    by (simp add: relates_def die_def related_refl)
  have finish: "triple R (\<lambda>env s. running env s \<and> sanitize = gv_sanitize env)
      (finish_executor t status out error_code decision_code decision_reason) (\<lambda>_. anything)"
    if "status = COMPLETED \<or> status = FAILED" for status out error_code decision_code decision_reason
    by (rule triple_pre [OF triple_finish_executor [OF that]]) simp
  show ?case
    by (cases result; simp only: executor_result.case)
       (intro triple_cases(1) finish relates_under relates_program relates_give_up die; simp)+
qed

lemma triple_execute: "triple R (may_run t dumped via) (execute t dumped via) (\<lambda>_. anything)"
  unfolding execute_def
  by (rule triple_bind [OF triple_get], intro triple_cases(1) triple_any triple_pre [OF triple_run_executor]) simp

section \<open>Parked calls\<close>

lemma triple_finish_parked:
  "triple R waiting (finish_parked_call row approval_id status code reason risk review_id) (\<lambda>_. anything)"
  unfolding finish_parked_call_def
  by (cases status; rule triple_seq [OF triple_waiting_write])
     (auto simp: same_call_def intro!: relates_under relates_ops)

lemma triple_claim_from:
  assumes "parked = PENDING_APPROVAL \<or> parked = PENDING_REVIEW"
  shows "triple R anything (claim_from parked) (\<lambda>claimed env s. claimed \<longrightarrow> status_in {CLAIMED} env s)"
  unfolding claim_from_def
proof (rule triple_read_row, goal_cases)
  case 1
  show ?case
    by (rule triple_seq [OF relates_under [OF relates_rollback] triple_ret]) simp
next
  case (2 row)
  show ?case
  proof (rule triple_cases(1), goal_cases)
    case 1
    with assms have "triple R (\<lambda>env s. gw_row s = Some row) (write_row (\<lambda>r. r\<lparr>cr_status := CLAIMED\<rparr>)) (\<lambda>_. status_in {CLAIMED})"
      by (intro triple_row_set) (auto simp: same_call_def)
    then show ?case
      by (rule triple_seq) (rule triple_seq [OF triple_audit triple_seq [OF triple_commit triple_ret]], simp_all)
  next
    case 2
    show ?case
      by (rule triple_seq [OF relates_under [OF relates_rollback] triple_ret]) simp
  qed
qed

lemma triple_claim_or_replay:
  assumes "parked = PENDING_APPROVAL \<or> parked = PENDING_REVIEW"
  shows "triple R anything (claim_or_replay parked approval_id) (\<lambda>res env s. res = None \<longrightarrow> status_in {CLAIMED} env s)"
  unfolding claim_or_replay_def
proof (rule triple_bind [OF triple_claim_from [OF assms]], rule triple_cases(1), goal_cases)
  case (1 claimed)
  then show ?case
    by (intro triple_ret) simp
next
  case (2 claimed)
  show ?case
  proof (rule triple_bind [OF triple_the_approval], rule triple_bind [OF triple_the_row], goal_cases)
    case (1 approval current)
    have taken: "triple R (status_in {CLAIMED}) (wseq (if approval_id = None then wret () else audit_claim_reentered) (wret None))
        (\<lambda>res env s. res = None \<longrightarrow> status_in {CLAIMED} env s)"
      unfolding audit_claim_reentered_def
      by (rule triple_seq [OF triple_cases(1)], rule triple_ret, assumption, rule triple_seq [OF triple_audit triple_commit])
         (auto intro: triple_ret)
    show ?case
      by (intro triple_cases(1) triple_any triple_ret triple_pre [OF taken] triple_pre [OF triple_reconcile])
         (auto simp: status_in_def)
  qed
qed

lemma relates_claim_or_replay:
  "parked = PENDING_APPROVAL \<or> parked = PENDING_REVIEW \<Longrightarrow> relates R (claim_or_replay parked approval_id)"
  by (rule relates_drop [OF triple_claim_or_replay])

lemma relates_approval_failure: "relates R (approval_failure code message)"
  unfolding approval_failure_def by (intro relates_ops) simp

lemma relates_load_approval: "relates R (load_approval_pair approval_id)"
  unfolding load_approval_pair_def by (intro relates_ops relates_approval_failure)

lemma relates_load_review: "relates R (load_review_pair review_id)"
  unfolding load_review_pair_def by (intro relates_ops)

lemma relates_require: "relates R require_durable_execution_context"
  unfolding require_durable_execution_context_def by (intro relates_ops)

lemma relates_refuse: "relates R (refuse_unvalidated tool_name risk code reason raw canonical)"
  unfolding refuse_unvalidated_def
  by (intro relates_ops relates_existing_unvalidated relates_require relates_persist_denial)

end

end
