(* ===== verification/GatewayRun.thy ===== *)
theory GatewayRun
  imports GatewayEntry
begin

text \<open>
  The entry points of the gateway under a \<open>gateway_run\<close> relation. What an entry has authorized carries over
  its claim, which stays within the entry.
\<close>

section \<open>Authorized verdicts\<close>

definition same_entry :: "gateway_env \<Rightarrow> gateway_state \<Rightarrow> gateway_state \<Rightarrow> bool" where
  "same_entry env s t \<longleftrightarrow> gw_entry t = gw_entry s"

interpretation entry: gateway_relation same_entry
  by unfold_locales
     (simp_all add: same_entry_def same_rows_def committed_state_def reopened_state_def discard_def
       dispatched_state_def entered_state_def)

lemma may_run_entry: "same_entry env s t \<Longrightarrow> may_run u dumped via env s \<Longrightarrow> may_run u dumped via env t"
  by (simp add: same_entry_def may_run_def)

lemma authorize_not_deny: "authorize env entry t dumped = Inr decision \<Longrightarrow> d_decision decision \<noteq> DENY"
  by (auto simp: authorize_def Let_def split: if_splits)

lemma allowed_cases: "authorize env entry t dumped = Inr decision \<Longrightarrow> d_decision decision \<noteq> REQUIRE_APPROVAL \<Longrightarrow> d_decision decision = ALLOW"
  using authorize_not_deny by (cases "d_decision decision") auto

lemma request_verdict_runs:
  assumes "request_verdict env entry t dumped = RunNow"
  shows "authorized env \<lparr>ef_entry = entry, ef_tool = t, ef_input = dumped, ef_approval = None\<rparr>"
  using assms
  by (auto simp: request_verdict_def approval_verdict_def authorized_def Let_def allowed_cases
      split: if_splits option.splits sum.splits prod.splits)

lemma review_verdict_runs:
  assumes "snd (review_verdict env entry review row) = ReviewRuns t dumped"
  shows "authorized env \<lparr>ef_entry = entry, ef_tool = t, ef_input = dumped, ef_approval = None\<rparr>"
proof -
  have ends: "x \<noteq> ReviewRuns t dumped" if "review_binding env entry row = Inl x" for x
    using that by (auto simp: review_binding_def Let_def split: option.splits sum.splits if_splits)
  show ?thesis
    using assms ends
    by (auto simp: review_verdict_def review_after_gate_def authorized_def Let_def allowed_cases
        split: if_splits option.splits sum.splits prod.splits gate_status.splits)
qed

lemma binding_matches:
  assumes "validate_parked_approval_binding env entry approval row = Inr b"
  shows "same_json (pl_input (aw_payload approval)) (cr_input row)" "same_json (ab_dumped b) (cr_input row)"
    and "pl_context (aw_payload approval) = gv_context env" "pl_tool_call_id (aw_payload approval) = gv_invocation env"
    and "pl_capability (aw_payload approval) = t_required_capability (ab_tool b)"
    and "pl_risk (aw_payload approval) = risk_value (t_risk (ab_tool b))"
  using assms
  by (auto simp: validate_parked_approval_binding_def validate_connection_binding_def approval_identity_matches_def Let_def
      split: if_splits option.splits sum.splits)

lemma approved_verdict_runs:
  assumes "approved_verdict env entry approval row = Inr b" and "aw_status approval = AP_APPROVED"
  shows "authorized env \<lparr>ef_entry = entry, ef_tool = ab_tool b, ef_input = ab_dumped b, ef_approval = Some approval\<rparr>"
proof -
  obtain decision where b: "validate_parked_approval_binding env entry approval row = Inr b"
    and "authorize env entry (ab_tool b) (ab_dumped b) = Inr decision"
    using assms(1) by (auto simp: approved_verdict_def split: sum.splits prod.splits)
  then show ?thesis
    using binding_matches [OF b] assms(2) by (auto simp: authorized_def approves_def)
qed

section \<open>The entries\<close>

context gateway_relation
begin

lemma triple_carry_may_run:
  assumes "relates R m" and "relates same_entry m"
  shows "triple R (may_run t dumped via) m (\<lambda>_. may_run t dumped via)"
  using triple_frame [OF relates_under [OF assms(1), of anything] assms(2) may_run_entry] by simp

lemma triple_carry_out:
  "triple R (\<lambda>env s. v = RunNow \<longrightarrow> may_run t dumped None env s)
     (carry_out t provider_call_id sanitized_input dumped connection_id adopt_claim v) (\<lambda>_. anything)"
proof (cases v)
  case RunNow
  show ?thesis
    unfolding carry_out_def RunNow verdict.case
  proof (rule triple_bind [where Q = "\<lambda>_. may_run t dumped None"], goal_cases)
    case 1
    show ?case
      by (rule triple_pre [OF triple_carry_may_run]) (simp_all add: relates_claim_direct entry.relates_claim_direct)
  next
    case (2 replay)
    show ?case
      by (intro triple_cases(2) triple_any triple_execute)
  qed
qed (simp_all add: carry_out_def relates_under relates_persist_denial relates_park relates_stage)

lemma relates_request_validated: "relates R (request_validated t provider_call_id dumped)"
proof -
  have decide: "relates R (wbind (live (\<lambda>env entry. (gv_sanitize env dumped, connection_uuid env dumped, request_verdict env entry t dumped)))
            (\<lambda>(sanitized_input, connection_id, v).
               carry_out t provider_call_id sanitized_input dumped connection_id adopt v))" for adopt
    unfolding triple_relates
    by (rule triple_bind [OF triple_live], intro triple_cases(4), rule triple_pre [OF triple_carry_out])
       (auto simp: may_run_def intro: request_verdict_runs)
  show ?thesis
    unfolding request_validated_def by (intro relates_ops relates_existing relates_require decide)
qed

lemma triple_reentered: "triple R (status_in C) audit_claim_reentered (\<lambda>_. status_in C)"
  unfolding audit_claim_reentered_def by (rule triple_seq [OF triple_audit triple_commit]) simp

lemma entry_reentered: "relates same_entry audit_claim_reentered"
  by (rule entry.relates_reentered)

text \<open>A review settled: what runs is authorized, what is written still waits.\<close>

lemma triple_settle_review:
  "triple R (\<lambda>env s. waiting env s \<and> (\<forall>t dumped. snd v = ReviewRuns t dumped \<longrightarrow> may_run t dumped None env s))
     (settle_review review_id row v) (\<lambda>_. anything)"
  unfolding settle_review_def
proof (rule triple_seq [where Q = "\<lambda>env s. waiting env s \<and> (\<forall>t dumped. snd v = ReviewRuns t dumped \<longrightarrow> may_run t dumped None env s)"],
    goal_cases)
  case 1
  let ?m = "if fst v then audit (AuReviewApproved review_id) else wret ()"
  have "triple R waiting ?m (\<lambda>_. waiting)"
    by (intro triple_cases(1) triple_audit triple_ret) simp_all
  moreover have "relates same_entry ?m"
    by (intro entry.relates_ops) simp
  ultimately show ?case
    by (rule triple_frame) (auto dest: may_run_entry)
next
  case 2
  show ?case
  proof (cases "snd v")
    case (ReviewEnds status code reason risk)
    then show ?thesis
      by (auto intro!: triple_pre [OF triple_finish_parked])
  next
    case (ReviewParksOn other reason t)
    have parks: "triple R waiting (wseq (write_row (\<lambda>r. r\<lparr>cr_review := Some other\<rparr>))
        (wseq (audit (AuReviewRequested other)) (wret x))) (\<lambda>_. anything)" for x
      by (rule triple_seq [OF triple_waiting_write]) (auto simp: same_call_def intro!: relates_under relates_ops)
    show ?thesis
      unfolding ReviewParksOn review_step.case
      by (rule triple_bind [OF triple_get], intro triple_cases(2) triple_any, rule triple_pre [OF parks]) simp
  next
    case (ReviewStages t decision digest)
    have staged: "triple R waiting (wseq (add_approval i a)
        (wseq (write_row (\<lambda>r. r\<lparr>cr_status := PENDING_APPROVAL, cr_approval := Some i\<rparr>))
        (wseq (audit (AuApprovalRequested i)) (wret x)))) (\<lambda>_. anything)" for i a x
      by (rule triple_seq [OF triple_add_approval triple_seq [OF triple_waiting_write]])
         (auto simp: same_call_def intro!: relates_under relates_ops)
    show ?thesis
      unfolding ReviewStages review_step.case
      by (rule triple_bind [OF triple_live], rule triple_bind [OF triple_ask], rule triple_pre [OF staged]) simp
  next
    case (ReviewRuns t dumped)
    show ?thesis
      unfolding ReviewRuns review_step.case
    proof (rule triple_bind [where Q = "\<lambda>_. may_run t dumped None"], goal_cases)
      case 1
      show ?case
        by (rule triple_pre [OF triple_carry_may_run])
           (simp_all add: ReviewRuns relates_claim_or_replay entry.relates_claim_or_replay)
    next
      case (2 replay)
      show ?case
        by (intro triple_cases(2) triple_any triple_execute)
    qed
  qed
qed

lemma relates_resume_reviewed: "relates R (resume_reviewed review_id review)"
  unfolding resume_reviewed_def
proof (rule relates_read_the_row, goal_cases)
  case (1 row)
  have "triple R (\<lambda>env s. gw_row s = Some row)
      (if cr_status row \<in> set UNDISPATCHED_TOOL_STATUSES then audit_claim_reentered else wret ())
      (\<lambda>_. status_in {cr_status row})"
    by (rule triple_pre [where P = "status_in {cr_status row}"], intro triple_cases(1) triple_reentered triple_ret)
       (auto simp: status_in_def)
  then show ?case
  proof (rule triple_seq, goal_cases)
  case 1
  show ?case
  proof (intro triple_cases(1), goal_cases)
    case 1
    show ?case
      by (intro relates_under relates_ops)
  next
    case 2
    show ?case
      by (rule triple_any)
  next
    case 3
    then show ?case
      by (intro triple_bind [OF triple_live] triple_pre [OF triple_settle_review])
         (auto simp: may_run_def status_in_def intro: review_verdict_runs)
  qed
  qed
qed

text \<open>An approved call claimed and run.\<close>

lemma triple_run_approved:
  "triple R (may_run (ab_tool b) (ab_dumped b) (Some approval)) (run_approved approval_id approval row b) (\<lambda>_. anything)"
  unfolding run_approved_def
proof (rule triple_bind [where Q = "\<lambda>res env s. (res = None \<longrightarrow> status_in {CLAIMED} env s)
      \<and> may_run (ab_tool b) (ab_dumped b) (Some approval) env s"], goal_cases)
  case 1
  show ?case
    by (rule triple_pre [OF triple_frame [OF triple_claim_or_replay entry.relates_claim_or_replay may_run_entry]]) simp_all
next
  case (2 replay)
  show ?case
  proof (intro triple_cases(2) triple_any, rule triple_bind [OF triple_live], rule triple_cases(1), goal_cases)
    case 1
    then show ?case
      by (intro triple_pre [OF triple_finish_parked]) (auto simp: status_in_def)
  next
    case 2
    have "triple R (may_run (ab_tool b) (ab_dumped b) (Some approval)) (audit (AuApproved approval_id))
        (\<lambda>_. may_run (ab_tool b) (ab_dumped b) (Some approval))"
      by (intro triple_carry_may_run relates_audit entry.relates_audit) simp_all
    note approved = triple_seq [OF this triple_execute]
    show ?case
      by (rule triple_pre [OF approved]) simp
  qed
qed

lemma triple_settle_approved:
  "triple R (\<lambda>env s. waiting env s \<and> (\<forall>b. v = Inr b \<longrightarrow> may_run (ab_tool b) (ab_dumped b) (Some approval) env s))
     (settle_approved approval_id approval row v) (\<lambda>_. anything)"
  unfolding settle_approved_def
  by (intro triple_cases(3); (simp split: parked_end.splits)?)
     (auto intro: triple_pre [OF triple_finish_parked] triple_pre [OF triple_run_approved] split: parked_end.splits)

lemma relates_resume_approved:
  assumes "aw_status approval = AP_APPROVED"
  shows "relates R (resume_approved approval_id approval)"
  unfolding resume_approved_def
proof (rule relates_read_the_row, rule triple_seq [where Q = waiting], goal_cases)
  case (1 row)
  show ?case
    by (intro triple_cases(1) triple_any triple_ret triple_pre [OF triple_reentered]) (auto simp: status_in_def)
next
  case (2 row)
  show ?case
    by (rule triple_bind [OF triple_live], rule triple_pre [OF triple_settle_approved])
       (auto simp: may_run_def intro: approved_verdict_runs assms)
qed

lemma triple_reject: "triple R waiting (reject_call approval_id row v) (\<lambda>_. anything)"
proof (cases v)
  case (Inl e)
  then show ?thesis
    by (cases e) (simp add: reject_call_def triple_finish_parked)
next
  case (Inr b)
  show ?thesis
    unfolding reject_call_def Inr sum.case
    by (rule triple_seq [OF triple_waiting_write]) (auto simp: same_call_def intro!: relates_under relates_ops)
qed

lemma triple_load_approval:
  "triple R anything (load_approval_pair approval_id) (\<lambda>pair env s. gw_row s = Some (snd pair))"
  unfolding load_approval_pair_def
proof (rule triple_bind [OF triple_ask], rule triple_bind [OF triple_get], goal_cases)
  case (1 ctx pair)
  have fails: "triple R P (approval_failure code message) (\<lambda>pair env s. gw_row s = Some (snd (pair :: approval_row \<times> call_row)))"
    for P code message
    by (rule tripleI)
       (auto simp: relatesD [OF relates_approval_failure] approval_failure_def state_error_def wraise_def wseq_def
          elim!: wbind_ValE)
  show ?case
    by (intro triple_cases fails triple_ret) auto
qed

lemma relates_retry_loop: "relates R once \<Longrightarrow> relates R (retry_loop n once outcome)"
  by (induction n arbitrary: outcome) (auto intro!: relates_ops)

lemma relates_retry: "relates R once \<Longrightarrow> relates R (retry_while_unproven once)"
  unfolding retry_while_unproven_def by (intro relates_ops relates_retry_loop)

lemma relates_committed: "relates R m \<Longrightarrow> relates R (committed m)"
  unfolding committed_def by (intro relates_ops)

end

section \<open>The entry points\<close>

locale gateway_run = gateway_relation +
  assumes advances: "R env s (s\<lparr>gw_entry := Suc (gw_entry s)\<rparr>)"

context gateway_run
begin

lemma relates_next_entry: "relates R next_entry"
  unfolding next_entry_def by (intro relates_mod advances)

lemma relates_request: "relates R (request tool_name arguments provider_call_id)"
  unfolding request_def request_once_def
  by (intro relates_retry relates_next_entry relates_ops relates_refuse relates_request_validated)

lemma relates_resolve_review: "relates R (resolve_review review_id)"
  unfolding resolve_review_def resolve_review_once_def
  by (intro relates_load_review relates_retry relates_committed relates_next_entry relates_ops relates_reconcile
      relates_resume_reviewed)

lemma relates_resolve_approved: "relates R (resolve_approved approval_id)"
  unfolding resolve_approved_def resolve_approved_once_def
  by (intro relates_load_approval relates_retry relates_committed relates_next_entry relates_ops relates_reconcile
      relates_resume_approved) simp_all

lemma relates_resolve_rejected: "relates R (resolve_rejected approval_id)"
proof -
  have once: "relates R (wbind (load_approval_pair approval_id) (\<lambda>(approval, row).
      if aw_status approval \<noteq> AP_REJECTED then state_error ''approval is not rejected''
      else if cr_status row \<in> set TERMINAL_TOOL_STATUSES then wret (replayed_outcome row (Some approval) None)
      else if cr_status row \<in> set UNPROVEN_DISPATCH_STATUSES
      then persist_execution_unknown (Some (pl_risk (aw_payload approval))) []
      else if cr_status row \<noteq> PENDING_APPROVAL \<and> cr_status row \<notin> set UNDISPATCHED_TOOL_STATUSES
      then state_error ''tool call is not pending approval''
      else wbind (live (\<lambda>env entry. validate_parked_approval_binding env entry approval row))
             (reject_call approval_id row)))"
    unfolding triple_relates
  proof (rule triple_bind [OF triple_load_approval], intro triple_cases(4) triple_cases(1) triple_any
      relates_under [OF relates_persist_unknown], rule triple_bind [OF triple_live], goal_cases)
    case (1 _ approval row v)
    then show ?case
      by (intro triple_pre [OF triple_reject]) (auto simp: status_in_def)
  qed
  show ?thesis
    unfolding resolve_rejected_def resolve_rejected_once_def
    by (rule relates_bind [OF relates_load_approval], rule relates_committed, rule relates_seq [OF relates_next_entry once])
qed

end

end
