(* ===== verification/GatewayHistory.thy ===== *)
theory GatewayHistory
  imports GatewayRun
begin

text \<open>
  Histories of one invocation: gateway entries in any order and number, each on a fresh session, between
  them the decisions of people (\<open>decide\<close> of \<open>apps/api/.../approvals/service.py\<close>), the end of the run
  (\<open>_cancel_pending_run_approvals\<close> of \<open>services/agent_worker/.../projections.py\<close>) and whatever the review
  module writes. The process may die at every commit and inside every executor.
\<close>

section \<open>What others write\<close>

datatype decide_result = ApprovalNotFound | AlreadyDecided approval_status | Resignalled | DecisionRecorded

definition decide :: "string \<Rightarrow> string \<Rightarrow> approval_status \<Rightarrow> decide_result gw" where
  "decide workspace approval_id decision =
     wbind (wget (\<lambda>s. gw_approvals s approval_id)) (\<lambda>found.
     case found of
       None \<Rightarrow> wret ApprovalNotFound
     | Some approval \<Rightarrow>
         if x_workspace (aw_context approval) \<noteq> workspace then wret ApprovalNotFound
         else if aw_status approval \<noteq> AP_PENDING \<and> aw_status approval \<noteq> decision
         then wret (AlreadyDecided (aw_status approval))
         else if aw_status approval = decision then wseq commit (wret Resignalled)
         else wseq (add_approval approval_id (approval\<lparr>aw_status := decision\<rparr>))
              (wseq commit (wret DecisionRecorded)))"

definition cancels :: "exec_context \<Rightarrow> approval_row \<Rightarrow> bool" where
  "cancels ctx a \<longleftrightarrow> x_run (aw_context a) = x_run ctx \<and> x_workspace (aw_context a) = x_workspace ctx
                    \<and> aw_status a = AP_PENDING"

definition cancel_pending_run_approvals :: "unit gw" where
  "cancel_pending_run_approvals =
     wbind (wask gv_context) (\<lambda>ctx.
     wbind (wget (\<lambda>s. (gw_row s, gw_approvals s))) (\<lambda>(found, approvals).
     wseq (case found of
             None \<Rightarrow> wret ()
           | Some row \<Rightarrow>
               if cr_status row = PENDING_APPROVAL \<and> cr_workspace row = x_workspace ctx
                  \<and> (case Option.bind (cr_approval row) approvals of None \<Rightarrow> False | Some a \<Rightarrow> cancels ctx a)
               then write_row (\<lambda>r. r\<lparr>cr_status := REJECTED, cr_error := Some ''run_ended''\<rparr>)
               else wret ())
     (wseq (wmod (\<lambda>s. s\<lparr>gw_approvals := (\<lambda>i. map_option
              (\<lambda>a. if cancels ctx a then a\<lparr>aw_status := AP_CANCELLED\<rparr> else a) (gw_approvals s i))\<rparr>))
      commit)))"

section \<open>Histories\<close>

datatype gateway_event =
    Requested string string string
  | ReviewResumed string
  | ApprovalResumed string
  | RejectionResumed string
  | PersonDecided string string approval_status
  | RunEnded
  | ReviewWritten string work_review

definition write_review :: "string \<Rightarrow> work_review \<Rightarrow> unit gw" where
  "write_review i review = wmod (\<lambda>s. s\<lparr>gw_reviews := (gw_reviews s)(i \<mapsto> review)\<rparr>)"

fun gateway_event_effect :: "gateway_event \<Rightarrow> unit gw" where
  "gateway_event_effect (Requested tool_name arguments provider_call_id) =
     wbind (request tool_name arguments provider_call_id) (\<lambda>_. wret ())"
| "gateway_event_effect (ReviewResumed review_id) = wbind (resolve_review review_id) (\<lambda>_. wret ())"
| "gateway_event_effect (ApprovalResumed approval_id) = wbind (resolve_approved approval_id) (\<lambda>_. wret ())"
| "gateway_event_effect (RejectionResumed approval_id) = wbind (resolve_rejected approval_id) (\<lambda>_. wret ())"
| "gateway_event_effect (PersonDecided workspace approval_id decision) =
     wbind (decide workspace approval_id decision) (\<lambda>_. wret ())"
| "gateway_event_effect RunEnded = cancel_pending_run_approvals"
| "gateway_event_effect (ReviewWritten i review) = write_review i review"

text \<open>Every event starts a session from what the database holds.\<close>

definition gateway_step :: "gateway_env \<Rightarrow> gateway_event \<Rightarrow> gateway_state \<Rightarrow> gateway_state" where
  "gateway_step env event s = snd (gateway_event_effect event env (discard s))"

definition fresh_invocation :: gateway_state where
  "fresh_invocation =
     \<lparr>gw_entry = 0, gw_commits = 0, gw_row = None, gw_db = None, gw_approvals = Map.empty,
      gw_db_approvals = Map.empty, gw_reviews = Map.empty, gw_staged = [], gw_audits = [], gw_effects = [], gw_trail = []\<rparr>"

definition history :: "gateway_env \<Rightarrow> gateway_event list \<Rightarrow> gateway_state" where
  "history env events = fold (gateway_step env) events fresh_invocation"

lemma history_append: "history env (past @ later) = fold (gateway_step env) later (history env past)"
  by (simp add: history_def)

context gateway_run
begin

lemma relates_decide: "relates R (decide workspace approval_id decision)"
  unfolding decide_def by (intro relates_ops)

lemma relates_cancel_approvals: "relates R cancel_pending_run_approvals"
  unfolding cancel_pending_run_approvals_def triple_relates
proof (rule triple_bind [OF triple_ask], rule triple_bind [OF triple_get], rule triple_cases(4), goal_cases)
  case (1 ctx pair found approvals)
  have approvals: "relates R (wmod (\<lambda>s. s\<lparr>gw_approvals := f s\<rparr>))" for f
    by (intro relates_mod quiet) (simp add: same_rows_def)
  have row: "triple R (\<lambda>env s. found = gw_row s) (case found of
             None \<Rightarrow> wret ()
           | Some row \<Rightarrow>
               if cr_status row = PENDING_APPROVAL \<and> b row
               then write_row (\<lambda>r. r\<lparr>cr_status := REJECTED, cr_error := Some ''run_ended''\<rparr>)
               else wret ()) (\<lambda>_. anything)" for b
    by (intro triple_cases triple_any triple_pre [OF triple_waiting_write]) (auto simp: same_call_def status_in_def)
  show ?case
    by (rule triple_pre [OF triple_seq [OF row relates_under]]) (auto simp: 1 intro!: relates_ops approvals)
qed

lemma relates_write_review: "relates R (write_review i review)"
  unfolding write_review_def by (intro relates_mod quiet) (simp add: same_rows_def)

lemma relates_event: "relates R (gateway_event_effect event)"
  by (cases event)
     (auto intro!: relates_bind relates_ret relates_request relates_resolve_review relates_resolve_approved
        relates_resolve_rejected relates_decide relates_cancel_approvals relates_write_review)

lemma step_related: "R env s (gateway_step env event s)"
  using relates_event [of event] discards related_trans
  unfolding gateway_step_def relates_def by blast

lemma steps_related: "R env s (fold (gateway_step env) events s)"
proof (induction events arbitrary: s)
  case (Cons event events)
  then show ?case
    using step_related related_trans by fastforce
qed (simp add: related_refl)

lemma history_related: "R env fresh_invocation (history env events)"
  unfolding history_def by (rule steps_related)

end

end
