(* ===== verification/GatewayProps.thy ===== *)
theory GatewayProps
  imports GatewayHistory
begin

text \<open>
  What the gateway promises of one invocation, over every history: executors are entered a bounded number
  of times, only under a live authorization, and a terminal row is never left nor run again. Each promise
  is an interpretation of \<open>gateway_run\<close>.
\<close>

section \<open>Bounded dispatch\<close>

definition dispatch_cap :: "gateway_env \<Rightarrow> string \<Rightarrow> nat" where
  "dispatch_cap env tool_name =
     (if \<exists>entry. redispatch_is_safe env entry tool_name then MAX_DISPATCH_ATTEMPTS else 1)"

definition within_cap :: "gateway_env \<Rightarrow> nat \<Rightarrow> call_row \<Rightarrow> bool" where
  "within_cap env n r \<longleftrightarrow> n \<le> dispatch_cap env (cr_tool r) \<and> (startable (cr_status r) \<longrightarrow> n < dispatch_cap env (cr_tool r))"

definition dispatches_of :: "gateway_state \<Rightarrow> nat" where
  "dispatches_of s = length (filter (\<lambda>a. a = AuDispatched) (gw_audits s))"

definition cap_inv :: "gateway_env \<Rightarrow> gateway_state \<Rightarrow> bool" where
  "cap_inv env s \<longleftrightarrow>
     AuDispatched \<notin> set (gw_staged s) \<and> length (gw_effects s) \<le> dispatches_of s
     \<and> (gw_db s = None \<longrightarrow> dispatches_of s = 0) \<and> (gw_db s \<noteq> None \<longrightarrow> gw_row s \<noteq> None)
     \<and> (\<forall>r. gw_row s = Some r \<or> gw_db s = Some r \<longrightarrow> within_cap env (dispatches_of s) r)"

definition keeps_cap :: "gateway_env \<Rightarrow> gateway_state \<Rightarrow> gateway_state \<Rightarrow> bool" where
  "keeps_cap env s t \<longleftrightarrow> (cap_inv env s \<longrightarrow> cap_inv env t)"

lemma dispatch_cap_pos [simp]: "0 < dispatch_cap env name" "Suc 0 \<le> dispatch_cap env name"
  by (simp_all add: dispatch_cap_def MAX_DISPATCH_ATTEMPTS_def)

lemma filter_no_dispatch: "AuDispatched \<notin> set as \<Longrightarrow> filter (\<lambda>a. a = AuDispatched) as = []"
  by (induction as) auto

lemma same_call_tool: "same_call r q \<Longrightarrow> cr_tool q = cr_tool r"
  by (simp add: same_call_def)

lemma within_cap_write:
  "within_cap env n r \<Longrightarrow> same_call r q \<Longrightarrow> edit_step (cr_status r) (cr_status q) \<Longrightarrow> within_cap env n q"
  by (auto simp: within_cap_def same_call_tool dest: edit_step_startable)

lemma cap_dispatch:
  assumes "cap_inv env s" "gw_db s = Some r" "cr_status r = CLAIMED"
  shows "cap_inv env (dispatched_state r s)" "cap_inv env (entered_state tool dumped via (dispatched_state r s))"
proof -
  have "within_cap env (Suc (dispatches_of s)) (r\<lparr>cr_status := EXECUTING\<rparr>)"
    using assms by (auto simp: cap_inv_def within_cap_def)
  then show "cap_inv env (dispatched_state r s)" "cap_inv env (entered_state tool dumped via (dispatched_state r s))"
    using assms(1) by (auto simp: cap_inv_def dispatched_state_def entered_state_def dispatches_of_def)
qed

interpretation cap: gateway_run keeps_cap
proof (unfold_locales, goal_cases)
  case (6 s r q env)
  then show ?case
    using within_cap_write by (auto simp: keeps_cap_def cap_inv_def dispatches_of_def)
next
  case (8 s r env)
  then have "dispatch_cap env (cr_tool r) = MAX_DISPATCH_ATTEMPTS"
    by (auto simp: dispatch_cap_def)
  with 8 show ?case
    by (auto simp: keeps_cap_def cap_inv_def dispatches_of_def dispatch_count_def within_cap_def reopened_state_def
        committed_state_def reopened_def filter_no_dispatch)
next
  case (9 s r env)
  then show ?case
    by (simp add: keeps_cap_def cap_dispatch)
next
  case (10 s r tool dumped via env)
  then show ?case
    by (simp add: keeps_cap_def cap_dispatch)
qed (auto simp: keeps_cap_def cap_inv_def same_rows_def committed_state_def discard_def dispatches_of_def
       within_cap_def filter_no_dispatch)

lemma fresh_cap: "cap_inv env fresh_invocation"
  by (simp add: cap_inv_def fresh_invocation_def dispatches_of_def)

text \<open>
  C1 (bounds) For one runtime invocation, in whatever order and number the entries, the decisions of
  people, the end of the run and the deaths of the process come: the executor is entered at most
  \<open>MAX_DISPATCH_ATTEMPTS\<close> times, and at most once when the row names a tool whose definition never marks a
  second dispatch as safe.
\<close>

theorem executor_entries_bounded:
  "length (gw_effects (history env events)) \<le>
     (case gw_db (history env events) of None \<Rightarrow> 0 | Some row \<Rightarrow> dispatch_cap env (cr_tool row))"
  using cap.history_related [of env events] fresh_cap
  by (auto simp: keeps_cap_def cap_inv_def within_cap_def split: option.splits)

section \<open>Live authorization\<close>

definition keeps_authorized :: "gateway_env \<Rightarrow> gateway_state \<Rightarrow> gateway_state \<Rightarrow> bool" where
  "keeps_authorized env s t \<longleftrightarrow>
     (list_all (authorized env) (gw_effects s) \<longrightarrow> list_all (authorized env) (gw_effects t))"

interpretation auth: gateway_run keeps_authorized
  by unfold_locales
     (auto simp: keeps_authorized_def same_rows_def committed_state_def reopened_state_def discard_def
       dispatched_state_def entered_state_def may_run_def)

text \<open>
  C2 (safety) Every executor entry of every history is authorized at its own entry: the live grants, rules
  and validators allow the call outright with no review in its way, or an approval row bound to this
  invocation, capability, risk and input had been approved and the live decision still permits the call.
\<close>

theorem executor_entries_authorized: "list_all (authorized env) (gw_effects (history env events))"
  using auth.history_related [of env events] by (simp add: keeps_authorized_def fresh_invocation_def)

section \<open>Terminal rows\<close>

definition settled :: "call_row \<Rightarrow> gateway_state \<Rightarrow> bool" where
  "settled r s \<longleftrightarrow> terminal (cr_status r) \<and> gw_db s = Some r \<and> gw_row s = Some r"

definition stays_settled :: "gateway_env \<Rightarrow> gateway_state \<Rightarrow> gateway_state \<Rightarrow> bool" where
  "stays_settled env s t \<longleftrightarrow> (\<forall>r. settled r s \<longrightarrow> settled r t \<and> gw_effects t = gw_effects s)"

interpretation settles: gateway_run stays_settled
  by unfold_locales
     (auto simp: stays_settled_def settled_def same_rows_def committed_state_def reopened_state_def discard_def
       dest: edit_step_not_terminal)

lemma settled_steps:
  assumes "gw_db s = Some r" "terminal (cr_status r)"
  shows "gw_db (fold (gateway_step env) events s) = Some r
     \<and> gw_effects (fold (gateway_step env) events s) = gw_effects s"
proof (cases events)
  case (Cons event events)
  have step: "gateway_step env event s = gateway_step env event (discard s)"
    by (simp add: gateway_step_def discard_def)
  have "settled r (discard s)"
    using assms by (simp add: settled_def discard_def)
  then show ?thesis
    using settles.steps_related [of env "discard s" "event # events"]
    unfolding Cons by (auto simp: stays_settled_def settled_def step discard_def)
qed (use assms in simp)

text \<open>
  C5 (invariant) Once the committed row of an invocation is completed, failed, denied or rejected, nothing
  that happens later changes it or enters the executor again.
\<close>

theorem terminal_row_permanent:
  "case gw_db (history env past) of
     None \<Rightarrow> True
   | Some row \<Rightarrow>
       if cr_status row \<in> set TERMINAL_TOOL_STATUSES
       then gw_db (history env (past @ later)) = Some row
            \<and> gw_effects (history env (past @ later)) = gw_effects (history env past)
       else True"
  using settled_steps [of "history env past" _ env later] by (auto simp: history_append split: option.splits)

section \<open>The life cycle\<close>

text \<open>
  The trail follows the life cycle up to the committed row, the session's row is ahead of it, and a
  completed row has an executor entry behind it.
\<close>

definition ahead :: "gateway_state \<Rightarrow> bool" where
  "ahead s \<longleftrightarrow> follows_lifecycle (gw_trail s) \<and> last (None # gw_trail s) = row_status (gw_db s)
     \<and> session_ahead (row_status (gw_db s)) (row_status (gw_row s))
     \<and> (gw_effects s = [] \<longrightarrow> Some COMPLETED \<notin> {row_status (gw_row s), row_status (gw_db s)} \<union> set (gw_trail s))"

definition stays_ahead :: "gateway_env \<Rightarrow> gateway_state \<Rightarrow> gateway_state \<Rightarrow> bool" where
  "stays_ahead env s t \<longleftrightarrow> (ahead s \<longrightarrow> ahead t)"

lemma row_status_simps [simp]: "row_status None = None" "row_status (Some r) = Some (cr_status r)"
  by (simp_all add: row_status_def)

lemma ahead_commits: "ahead s \<Longrightarrow> ahead (committed_state s)"
  using session_ahead_commits [of "row_status (gw_db s)" "row_status (gw_row s)"]
  by (auto simp: ahead_def committed_state_def follows_lifecycle_snoc)

lemma ahead_reopens:
  assumes "ahead s" "gw_row s = Some r" "cr_status r = EXECUTING \<or> cr_status r = EXECUTION_UNKNOWN"
  shows "ahead (reopened_state r s)"
  using assms session_ahead_reopens [of "row_status (gw_db s)" "cr_status r"]
  by (auto simp: ahead_def reopened_state_def committed_state_def reopened_def follows_lifecycle_snoc)

lemma ahead_dispatches:
  assumes "ahead s" "gw_db s = Some r" "cr_status r = CLAIMED"
  shows "ahead (dispatched_state r s)" "ahead (entered_state tool dumped via (dispatched_state r s))"
  using assms Move [OF Dispatch]
  by (auto simp: ahead_def dispatched_state_def entered_state_def follows_lifecycle_snoc)

interpretation life: gateway_run stays_ahead
proof (unfold_locales, goal_cases)
  case (4 env s)
  then show ?case
    by (simp add: stays_ahead_def ahead_commits)
next
  case (6 s r q env)
  then show ?case
    using session_ahead_edit [of _ "cr_status r" "cr_status q"] by (auto simp: stays_ahead_def ahead_def)
next
  case (7 s q env)
  then show ?case
    by (auto simp: stays_ahead_def ahead_def)
next
  case (8 s r env)
  then show ?case
    by (simp add: stays_ahead_def ahead_reopens)
next
  case (9 s r env)
  then show ?case
    by (simp add: stays_ahead_def ahead_dispatches)
next
  case (10 s r tool dumped via env)
  then show ?case
    by (simp add: stays_ahead_def ahead_dispatches)
qed (auto simp: stays_ahead_def ahead_def same_rows_def discard_def)

lemma fresh_ahead: "ahead fresh_invocation"
  by (simp add: ahead_def fresh_invocation_def follows_lifecycle_def)

text \<open>
  C4 (refinement) The gateway refines the abstract life cycle of a tool call: over every history, the
  statuses its commits leave in the database, from the first commit to the last, each repeat the one before
  or are one life-cycle step from it (so only a claimed call is dispatched, only an executing one completes,
  and a waiting call never jumps to executing); the last of them is the committed status; and when any of
  them is completed an executor was entered.
\<close>

theorem gateway_refines_lifecycle:
  "follows_lifecycle (gw_trail (history env events))
   \<and> last (None # gw_trail (history env events)) = row_status (gw_db (history env events))
   \<and> (if Some COMPLETED \<in> set (gw_trail (history env events)) then gw_effects (history env events) \<noteq> [] else True)"
  using life.history_related [of env events] fresh_ahead
  by (auto simp: stays_ahead_def ahead_def)

end
