(* ===== verification/GatewayOutcome.thy ===== *)
theory GatewayOutcome
  imports GatewayHistory
begin

text \<open>
  The outcome a request returns is the one the database holds: every path ends with the session in step
  with the database and a row whose status is the one the outcome speaks of.
\<close>

section \<open>Plain triples\<close>

abbreviation ensures ::
  "(gateway_env \<Rightarrow> gateway_state \<Rightarrow> bool) \<Rightarrow> 'a gw \<Rightarrow> ('a \<Rightarrow> gateway_env \<Rightarrow> gateway_state \<Rightarrow> bool) \<Rightarrow> bool" where
  "ensures P m Q \<equiv> triple (\<lambda>_ _ _. True) P m Q"

interpretation plain: gateway_run "\<lambda>_ _ _. True"
  by unfold_locales simp_all

lemma triple_both: "triple R P m Q \<Longrightarrow> triple R P m U \<Longrightarrow> triple R P m (\<lambda>a env s. Q a env s \<and> U a env s)"
  by (simp add: triple_def)

definition synced :: "gateway_state \<Rightarrow> bool" where
  "synced s \<longleftrightarrow> gw_db s = gw_row s"

text \<open>What a returned status says of the committed row.\<close>

fun outcome_statuses :: "gateway_status \<Rightarrow> call_status set" where
  "outcome_statuses EXECUTED = {COMPLETED}"
| "outcome_statuses OUT_FAILED = {FAILED}"
| "outcome_statuses OUT_REJECTED = {REJECTED}"
| "outcome_statuses OUT_UNKNOWN = {EXECUTION_UNKNOWN}"
| "outcome_statuses NEEDS_APPROVAL = {PENDING_APPROVAL}"
| "outcome_statuses NEEDS_REVIEW = {PENDING_REVIEW}"
| "outcome_statuses OUT_DENIED = {CALL_DENIED}"

text \<open>
  The row an outcome speaks of has the status it returns. The one exception is the refusal of a call whose
  invocation id already belongs to another call (\<open>invocation_mismatch\<close>): the row it leaves is that call's.
\<close>

definition mismatch_refusal :: "gateway_outcome \<Rightarrow> bool" where
  "mismatch_refusal outcome \<longleftrightarrow> go_status outcome = OUT_DENIED \<and> go_decision_code outcome = ''invocation_mismatch''"

definition accounts_for :: "gateway_outcome \<Rightarrow> call_status \<Rightarrow> bool" where
  "accounts_for outcome c \<longleftrightarrow> mismatch_refusal outcome \<or> c \<in> outcome_statuses (go_status outcome)"

lemma accounts_for_status [simp]: "c \<in> outcome_statuses (go_status outcome) \<Longrightarrow> accounts_for outcome c"
  by (simp add: accounts_for_def)

definition proven :: "gateway_outcome \<Rightarrow> gateway_env \<Rightarrow> gateway_state \<Rightarrow> bool" where
  "proven outcome env s \<longleftrightarrow>
     (\<exists>r. gw_db s = Some r \<and> gw_row s = Some r \<and> accounts_for outcome (cr_status r))"

definition proven_or_synced :: "gateway_outcome option \<Rightarrow> gateway_env \<Rightarrow> gateway_state \<Rightarrow> bool" where
  "proven_or_synced res env s = (case res of None \<Rightarrow> synced s | Some outcome \<Rightarrow> proven outcome env s)"

lemma mark_unknown_status: "cr_status (mark_unknown r) = EXECUTION_UNKNOWN"
  by (simp add: mark_unknown_def)

lemma outcome_simps [simp]:
  "go_status (outcome_of row status risk code reason) = status"
  "go_status (execution_unknown_outcome row approval risk replayed) = OUT_UNKNOWN"
  "go_status (needs_review_outcome row i risk reason replayed) = NEEDS_REVIEW"
  "go_status (needs_approval_outcome row risk code reason a rid p replayed) = NEEDS_APPROVAL"
  "go_status (denied_outcome env name risk code reason input) = OUT_DENIED"
  "go_status (replayed_outcome row approval risk) = replay_status (cr_status row)"
  by (simp_all add: outcome_of_def execution_unknown_outcome_def needs_review_outcome_def
      needs_approval_outcome_def denied_outcome_def replayed_outcome_def Let_def)

lemma replay_statuses: "terminal c \<Longrightarrow> c \<in> outcome_statuses (replay_status c)"
  by (cases c) auto

lemma provenI:
  "synced s \<Longrightarrow> gw_row s = Some row \<Longrightarrow> cr_status row \<in> outcome_statuses (go_status outcome) \<Longrightarrow> proven outcome env s"
  by (simp add: proven_def synced_def)

lemma proven_synced: "proven outcome env s \<Longrightarrow> synced s"
  by (auto simp: proven_def synced_def)

lemma pos_simps [simp]:
  "proven_or_synced None env s = synced s" "proven_or_synced (Some outcome) env s = proven outcome env s"
  by (simp_all add: proven_or_synced_def)

section \<open>Writes that end in a commit\<close>

text \<open>A status on the session's row, and the same in step with the database.\<close>

definition held :: "call_status \<Rightarrow> gateway_env \<Rightarrow> gateway_state \<Rightarrow> bool" where
  "held c env s \<longleftrightarrow> (\<exists>r. gw_row s = Some r \<and> cr_status r = c)"

definition stored :: "call_status \<Rightarrow> gateway_env \<Rightarrow> gateway_state \<Rightarrow> bool" where
  "stored c env s \<longleftrightarrow> (\<exists>r. gw_db s = Some r \<and> gw_row s = Some r \<and> cr_status r = c)"

lemma ensures_write:
  "(\<And>r. cr_status (f r) = c) \<Longrightarrow> ensures (\<lambda>env s. gw_row s \<noteq> None) (write_row f) (\<lambda>_. held c)"
  by (auto simp: triple_def write_row_def wmod_def held_def)

lemma ensures_write_keep:
  "(\<And>r. cr_status (f r) = cr_status r) \<Longrightarrow> ensures (held c) (write_row f) (\<lambda>_. held c)"
  by (auto simp: triple_def write_row_def wmod_def held_def)

lemma ensures_audit: "ensures (held c) (audit a) (\<lambda>_. held c)"
  by (auto simp: triple_def audit_def wmod_def held_def)

lemma ensures_commit: "ensures (held c) commit (\<lambda>_. stored c)"
  by (auto simp: triple_def commit_def held_def stored_def Let_def split: if_splits)

lemma ensures_the_row: "ensures P the_row (\<lambda>_. P)"
  by (rule triple_conseq [OF plain.triple_the_row [where P = P]]) simp_all

lemma ensures_return: "c \<in> outcome_statuses (go_status outcome) \<Longrightarrow> ensures (stored c) (wret outcome) proven"
  by (rule plain.triple_ret) (auto simp: stored_def proven_def)

lemma stored_proven: "stored c env s \<Longrightarrow> c \<in> outcome_statuses (go_status outcome) \<Longrightarrow> proven outcome env s"
  by (auto simp: stored_def proven_def)

lemma stored_synced: "stored c env s \<Longrightarrow> synced s"
  by (auto simp: stored_def synced_def)

lemma ensures_rollback: "ensures P rollback (\<lambda>_ env s. synced s)"
  by (auto simp: triple_def rollback_def wmod_def discard_def synced_def)

lemma ensures_quiet: "ensures P (the_approval i) (\<lambda>_. P)" "ensures P (live f) (\<lambda>_. P)" "ensures P (wask g) (\<lambda>_. P)"
    "ensures P (wget h) (\<lambda>_. P)"
  by (auto simp: triple_def the_approval_def live_def wask_def wget_def)

lemma ensures_error: "ensures P (state_error e) Q"
  by (rule plain.triple_any)

text \<open>Write, audit, commit, answer.\<close>

lemma ensures_settled:
  assumes "\<And>r. cr_status (f r) = c" "ensures (stored c) m Q"
  shows "ensures (\<lambda>env s. gw_row s \<noteq> None) (wseq (write_row f) (wseq (audit a) (wseq commit m))) Q"
  by (rule plain.triple_seq [OF ensures_write plain.triple_seq [OF ensures_audit plain.triple_seq [OF ensures_commit]]])
     (use assms in auto)

lemma ensures_asked: "(\<And>env. ensures P (f (g env)) Q) \<Longrightarrow> ensures P (wbind (wask g) f) Q"
  by (simp add: triple_def wbind_def wask_def)

lemma ensures_read_row:
  assumes "ensures P m Q" and "\<And>row. ensures (\<lambda>env s. P env s \<and> gw_row s = Some row) (f row) Q"
  shows "ensures P (wbind (wget gw_row) (\<lambda>found. case found of None \<Rightarrow> m | Some row \<Rightarrow> f row)) Q"
  by (rule plain.triple_bind [OF plain.triple_get], rule triple_cases(2), rule triple_pre [OF assms(1)], simp,
      rule triple_pre [OF assms(2)], simp)

section \<open>Recovery\<close>

lemma ensures_record_unknown: "ensures (\<lambda>env s. gw_row s \<noteq> None) (record_unknown approval risk) proven"
  unfolding record_unknown_def
  by (rule ensures_settled, simp add: mark_unknown_def, rule plain.triple_bind [OF ensures_the_row ensures_return]) simp

lemma ensures_exhausted: "ensures (\<lambda>env s. gw_row s \<noteq> None) (persist_redispatch_exhausted row risk reason) proven"
  unfolding persist_redispatch_exhausted_def Let_def
  by (rule ensures_asked, rule ensures_settled, simp, rule ensures_return) simp

lemma ensures_persist_unknown: "ensures (\<lambda>_. synced) (persist_execution_unknown risk detail) proven"
proof -
  have detail: "ensures (held c) (if detail = [] then wret () else write_row (\<lambda>r. r\<lparr>cr_output := out\<rparr>)) (\<lambda>_. held c)" for c out
    by (intro triple_cases(1) plain.triple_ret ensures_write_keep) simp_all
  show ?thesis
    unfolding persist_execution_unknown_def
  proof (rule ensures_read_row [OF ensures_error],
      rule plain.triple_bind [OF ensures_quiet(1)], intro triple_cases(1) ensures_error, goal_cases)
    case (1 row approval)
    then show ?case
      by (intro plain.triple_ret) (auto intro!: provenI replay_statuses)
  next
    case (2 row approval)
    show ?case
      by (rule ensures_asked, rule triple_pre, rule plain.triple_seq [OF ensures_write],
          rule mark_unknown_status, rule plain.triple_seq [OF detail],
          rule plain.triple_seq [OF ensures_audit], rule plain.triple_seq [OF ensures_commit],
          rule plain.triple_bind [OF ensures_the_row ensures_return]) (auto simp: 2)
  next
    case (3 row approval)
    then show ?case
      by (intro plain.triple_ret) (auto intro!: provenI)
  qed
qed

text \<open>An outcome found, or none: the caller carries on in step with the database.\<close>

lemma ensures_found: "ensures P m proven \<Longrightarrow> ensures P (wbind m (\<lambda>outcome. wret (Some outcome))) proven_or_synced"
  by (erule plain.triple_bind) (rule plain.triple_ret, simp)

lemma ensures_found_pair:
  "ensures P m proven \<Longrightarrow> ensures P (wbind m (\<lambda>outcome. wret (Some outcome, b))) (\<lambda>res. proven_or_synced (fst res))"
  by (erule plain.triple_bind) (rule plain.triple_ret, simp)

lemma ensures_reopen: "ensures (\<lambda>env s. gw_row s \<noteq> None) reopen_unproven_dispatch (\<lambda>_. stored CLAIMED)"
  unfolding reopen_unproven_dispatch_def
  by (rule plain.triple_seq [OF ensures_write plain.triple_seq [OF ensures_audit ensures_commit]]) simp

lemma ensures_reconcile: "ensures (\<lambda>_. synced) (reconcile_unproven_dispatch risk approval) proven_or_synced"
  unfolding reconcile_unproven_dispatch_def
proof (rule plain.triple_bind [OF plain.triple_the_row], intro triple_cases(1) ensures_error, goal_cases)
  case (1 row)
  then show ?case
    by (intro plain.triple_ret) (auto intro!: provenI replay_statuses)
next
  case (2 row)
  have reopening: "ensures (\<lambda>env s. synced s \<and> gw_row s = Some row) (wseq reopen_unproven_dispatch (wret None)) proven_or_synced"
    by (rule triple_pre [OF plain.triple_seq [OF ensures_reopen plain.triple_ret]]) (auto intro: stored_synced)
  have exhausting: "ensures (\<lambda>env s. synced s \<and> gw_row s = Some row)
      (wbind (persist_redispatch_exhausted row risk reason) (\<lambda>outcome. wret (Some outcome))) proven_or_synced" for reason
    by (rule triple_pre [OF ensures_found [OF ensures_exhausted]]) simp
  have recording: "ensures (\<lambda>env s. synced s \<and> gw_row s = Some row)
      (wbind (record_unknown approval risk) (\<lambda>outcome. wret (Some outcome))) proven_or_synced"
    by (rule triple_pre [OF ensures_found [OF ensures_record_unknown]]) simp
  show ?case
  proof (rule plain.triple_bind [OF ensures_quiet(2)], intro triple_cases(1) recording, goal_cases)
    case (1 safe)
    show ?case
      by (rule plain.triple_bind [OF ensures_quiet(4)], intro triple_cases(1) reopening exhausting)
  next
    case (2 safe)
    then show ?case
      by (intro plain.triple_ret) (auto intro: provenI)
  qed
qed

lemma ensures_close_unprovable:
  "ensures (\<lambda>_. synced) (close_unprovable_unvalidated approval) proven"
  unfolding close_unprovable_unvalidated_def
proof (rule plain.triple_bind [OF plain.triple_the_row], rule plain.triple_bind [OF ensures_quiet(2)],
    intro triple_cases(1), goal_cases)
  case (1 row safe)
  show ?case
    by (rule triple_pre [OF ensures_exhausted]) simp
next
  case (2 row safe)
  then show ?case
    by (intro plain.triple_ret) (auto intro: provenI)
next
  case (3 row safe)
  show ?case
    by (rule triple_pre [OF ensures_record_unknown]) simp
qed

lemma ensures_mismatch:
  "ensures (\<lambda>env s. gw_row s \<noteq> None) (invocation_mismatch_outcome tool_name risk input) proven"
  "ensures (\<lambda>env s. gw_row s \<noteq> None) (invocation_mismatch t dumped) proven"
proof -
  have outcome: "ensures (\<lambda>env s. gw_row s \<noteq> None) (invocation_mismatch_outcome tool_name risk input) proven"
    for tool_name risk input
    by (auto simp: invocation_mismatch_outcome_def triple_def wseq_def wbind_def audit_def wmod_def commit_def wask_def
        wret_def Let_def proven_def accounts_for_def mismatch_refusal_def denied_outcome_def split: if_splits)
  then show "ensures (\<lambda>env s. gw_row s \<noteq> None) (invocation_mismatch_outcome tool_name risk input) proven" .
  show "ensures (\<lambda>env s. gw_row s \<noteq> None) (invocation_mismatch t dumped) proven"
    unfolding invocation_mismatch_def by (rule ensures_asked [OF outcome])
qed

lemma ensures_reentered: "ensures (held c) audit_claim_reentered (\<lambda>_. stored c)"
  unfolding audit_claim_reentered_def by (rule plain.triple_seq [OF ensures_audit ensures_commit])

lemma ensures_replay_by_status:
  "ensures (\<lambda>env s. synced s \<and> gw_row s = Some row) (replay_by_status t dumped row approval)
     (\<lambda>res. proven_or_synced (fst res))"
proof -
  let ?P = "\<lambda>(env :: gateway_env) s. synced s \<and> gw_row s = Some row"
  have mismatch: "ensures ?P (wbind (invocation_mismatch t dumped) (\<lambda>outcome. wret (Some outcome, False)))
      (\<lambda>res. proven_or_synced (fst res))"
    by (rule triple_pre [OF ensures_found_pair [OF ensures_mismatch(2)]]) simp
  have reentered: "ensures ?P (wseq audit_claim_reentered (wret (None, True))) (\<lambda>res. proven_or_synced (fst res))"
    by (rule triple_pre [OF plain.triple_seq [OF ensures_reentered [where c = "cr_status row"] plain.triple_ret]])
       (auto simp: held_def intro: stored_synced)
  have reconciled: "ensures ?P (wbind (reconcile_unproven_dispatch risk approval) (\<lambda>unproven.
           case unproven of None \<Rightarrow> wret (None, True) | Some outcome \<Rightarrow> wret (Some outcome, False)))
      (\<lambda>res. proven_or_synced (fst res))" for risk
    by (rule plain.triple_bind [OF triple_pre [OF ensures_reconcile]], simp, intro triple_cases(2) plain.triple_ret) simp_all
  show ?thesis
    unfolding replay_by_status_def Let_def
  proof (intro triple_cases(1) triple_cases(2) ensures_error reentered reconciled plain.triple_bind [OF ensures_quiet(4)]
      mismatch, goal_cases)
    case (1 review)
    then show ?case
      by (intro plain.triple_ret) (auto intro: provenI)
  next
    case 2
    then show ?case
      by (intro plain.triple_ret) (auto intro!: provenI replay_statuses)
  next
    case (3 a)
    then have "cr_status row = PENDING_APPROVAL"
      by (cases "cr_status row") auto
    then show ?case
      by (intro plain.triple_ret) (auto intro: provenI)
  qed
qed

lemma ensures_existing:
  "ensures (\<lambda>_. synced) (existing_invocation_outcome t dumped) (\<lambda>res. proven_or_synced (fst res))"
  unfolding existing_invocation_outcome_def
proof (rule ensures_read_row, goal_cases)
  case 1
  show ?case
    by (rule plain.triple_ret) simp
next
  case (2 row)
  have mismatch: "ensures (\<lambda>env s. synced s \<and> gw_row s = Some row)
      (wbind (invocation_mismatch t dumped) (\<lambda>outcome. wret (Some outcome, False))) (\<lambda>res. proven_or_synced (fst res))"
    by (rule triple_pre [OF ensures_found_pair [OF ensures_mismatch(2)]]) simp
  have approval: "ensures P (approval_of_row row) (\<lambda>_. P)" for P
    unfolding approval_of_row_def by (rule ensures_asked, rule ensures_quiet(4))
  show ?case
    by (rule plain.triple_bind [OF ensures_quiet(2)], intro triple_cases(1) mismatch,
        rule plain.triple_bind [OF approval], rule plain.triple_bind [OF ensures_quiet(3)],
        intro triple_cases(1) mismatch ensures_replay_by_status)
qed

lemma ensures_deny_in_place: "ensures (\<lambda>env s. gw_row s \<noteq> None) (deny_in_place row code reason) proven"
  unfolding deny_in_place_def
  by (rule ensures_settled, simp, rule ensures_asked, rule ensures_return) simp

lemma ensures_existing_unvalidated:
  "ensures (\<lambda>_. synced) (existing_unvalidated_invocation tool_name input canonical code reason) proven_or_synced"
  unfolding existing_unvalidated_invocation_def
proof (rule ensures_read_row, goal_cases)
  case 1
  show ?case
    by (rule plain.triple_ret) simp
next
  case (2 row)
  let ?P = "\<lambda>(env :: gateway_env) s. synced s \<and> gw_row s = Some row"
  have parts: "ensures ?P (invocation_mismatch_outcome tool_name None input) proven"
    "ensures ?P (close_unprovable_unvalidated approval) proven"
    "ensures ?P (deny_in_place row code reason) proven" for approval
    by (rule triple_pre [OF ensures_mismatch(1)] triple_pre [OF ensures_close_unprovable]
          triple_pre [OF ensures_deny_in_place], simp)+
  have replays: "terminal (cr_status row) \<Longrightarrow> ensures ?P (wret (replayed_outcome row approval risk)) proven" for approval risk
    by (intro plain.triple_ret) (auto intro!: provenI replay_statuses)
  show ?case
    unfolding Let_def
    by (rule plain.triple_bind [OF ensures_quiet(2)], rule ensures_found, intro triple_cases(1) parts
        plain.triple_bind [OF ensures_quiet(1)] replays) simp
qed

section \<open>Claims and inserts\<close>

text \<open>A write that was taken, or the session back in step with the database.\<close>

abbreviation taken :: "call_status \<Rightarrow> bool \<Rightarrow> gateway_env \<Rightarrow> gateway_state \<Rightarrow> bool" where
  "taken c b env s \<equiv> (if b then held c env s else synced s)"

lemma ensures_adopt:
  assumes "claim_edit edit"
  shows "ensures (\<lambda>_. synced) (adopt_undispatched_claim c approval_id review_id edit) (taken c)"
  unfolding adopt_undispatched_claim_def
proof (rule ensures_read_row, goal_cases)
  case 1
  show ?case
    by (rule plain.triple_ret) simp
next
  case (2 row)
  show ?case
  proof (rule triple_cases(1), goal_cases)
    case 1
    show ?case
      by (rule plain.triple_ret) simp
  next
    case 2
    show ?case
      by (rule triple_pre [OF plain.triple_seq [OF ensures_write [where c = c] plain.triple_ret]])
         (use assms in \<open>auto simp: claim_edit_def\<close>)
  qed
qed

lemma ensures_insert: "ensures (\<lambda>env s. cr_status row = c) (insert_row row) (taken c)"
  by (auto simp: triple_def insert_row_def held_def synced_def discard_def)

lemma ensures_insert_made:
  assumes "\<And>env. cr_status (f env) = c"
  shows "ensures P (wbind (wask f) insert_row) (taken c)"
    and "(\<And>b. ensures (taken c b) (g b) Q) \<Longrightarrow> ensures P (wbind (wask f) (\<lambda>row. wbind (insert_row row) g)) Q"
proof -
  show made: "ensures P (wbind (wask f) insert_row) (taken c)"
    by (rule plain.triple_bind [OF plain.triple_ask], rule triple_pre [OF ensures_insert]) (use assms in auto)
  show "ensures P (wbind (wask f) (\<lambda>row. wbind (insert_row row) g)) Q" if "\<And>b. ensures (taken c b) (g b) Q"
    by (rule plain.triple_bind [OF plain.triple_ask], rule plain.triple_bind [OF triple_pre [OF ensures_insert] that])
       (use assms in auto)
qed

lemma ensures_audited_commit:
  "ensures (stored c) m Q \<Longrightarrow> ensures (held c) (wseq (audit a) (wseq commit m)) Q"
  by (rule plain.triple_seq [OF ensures_audit plain.triple_seq [OF ensures_commit]])

lemma ensures_persist_denial:
  "ensures (\<lambda>_. synced) (persist_denial tool_name code reason input risk connection_id adopt_claim) proven"
  unfolding persist_denial_def
proof (rule ensures_asked, rule plain.triple_bind [where Q = "taken CALL_DENIED"], goal_cases)
  case (1 env)
  show ?case
    by (intro triple_cases(1) ensures_adopt plain.triple_ret) (auto simp: claim_edit_def same_call_def)
next
  case (2 env adopted)
  let ?outcome = "denied_outcome env tool_name risk code reason input"
  have returns: "ensures (held CALL_DENIED) (wseq (audit a) (wseq commit (wret ?outcome))) proven" for a
    by (rule ensures_audited_commit [OF ensures_return]) simp
  have requested: "ensures (held CALL_DENIED) (wseq (audit b) (wseq (audit a) (wseq commit (wret ?outcome)))) proven" for a b
    by (rule plain.triple_seq [OF ensures_audit returns])
  have reload: "ensures (\<lambda>_. synced) (wbind (existing_unvalidated_invocation tool_name input None code reason) (\<lambda>replay.
         case replay of None \<Rightarrow> state_error e | Some replayed \<Rightarrow> wret replayed)) proven" for e
    by (rule plain.triple_bind [OF ensures_existing_unvalidated], intro triple_cases(2) ensures_error plain.triple_ret) simp
  have inserted: "ensures (taken CALL_DENIED b) (if b then m else n) proven"
    if "ensures (held CALL_DENIED) m proven" "ensures (\<lambda>_. synced) n proven" for b m n
    using that by simp
  show ?case
    using returns by (auto intro!: ensures_insert_made(2) [where c = CALL_DENIED] inserted requested reload simp: new_row_def)
qed

lemma ensures_taken: "ensures (held c) m Q \<Longrightarrow> ensures (\<lambda>_. synced) n Q \<Longrightarrow> ensures (taken c b) (if b then m else n) Q"
  by simp

lemma ensures_not_taken: "ensures (held c) m Q \<Longrightarrow> ensures (\<lambda>_. synced) n Q \<Longrightarrow> ensures (taken c b) (if \<not> b then n else m) Q"
  by simp

text \<open>The claim is held, or the outcome that answers instead is proven.\<close>

abbreviation answered :: "gateway_outcome option \<Rightarrow> gateway_env \<Rightarrow> gateway_state \<Rightarrow> bool" where
  "answered res env s \<equiv> (case res of None \<Rightarrow> True | Some outcome \<Rightarrow> proven outcome env s)"

lemma ensures_reloaded:
  assumes "\<And>adopt. ensures (\<lambda>_. synced) (m adopt) answered"
  shows "ensures (\<lambda>_. synced) (wbind (existing_invocation_outcome t dumped) (\<lambda>(replay, adopt).
      case replay of None \<Rightarrow> m adopt | Some outcome \<Rightarrow> wret (Some outcome))) answered"
  by (rule plain.triple_bind [OF ensures_existing], intro triple_cases(4) triple_cases(2))
     (auto intro: plain.triple_ret triple_pre [OF assms])

lemma ensures_claim_adopted: "ensures (\<lambda>_. synced) (claim_adopted t dumped) answered"
proof -
  have claims: "ensures (held CLAIMED) (wseq (audit a) (wseq commit (wret None))) answered" for a
    by (rule ensures_audited_commit, rule plain.triple_ret) simp
  show ?thesis
    unfolding claim_adopted_def
    by (rule plain.triple_bind [OF ensures_adopt [where c = CLAIMED]], simp, rule ensures_taken [OF claims],
        rule ensures_reloaded [OF ensures_error])
qed

lemma ensures_claim_direct:
  "ensures (\<lambda>_. synced) (claim_direct_call t input dumped connection_id adopt_claim) answered"
proof -
  have claims: "ensures (held CLAIMED) (wseq (audit b) (wseq (audit a) (wseq commit (wret None)))) answered" for a b
    by (rule plain.triple_seq [OF ensures_audit ensures_audited_commit], rule plain.triple_ret) simp
  have again: "ensures (\<lambda>_. synced) (if adopt then claim_adopted t dumped else state_error e) answered" for adopt e
    by (intro triple_cases(1) ensures_claim_adopted ensures_error)
  have reload: "ensures (\<lambda>_. synced) (wbind (existing_invocation_outcome t dumped) (\<lambda>(replay, adopt).
      case replay of Some outcome \<Rightarrow> wret (Some outcome)
                   | None \<Rightarrow> if adopt then claim_adopted t dumped else state_error e)) answered" for e
    by (rule ensures_reloaded [OF again])
  show ?thesis
    unfolding claim_direct_call_def
    by (rule triple_cases(1) [OF ensures_claim_adopted], rule ensures_insert_made(2) [where c = CLAIMED],
        simp add: new_row_def, rule ensures_taken [OF claims reload])
qed

section \<open>Running\<close>

lemma ensures_give_up: "ensures P (give_up_unknown t detail) proven"
  unfolding give_up_unknown_def by (rule plain.triple_seq [OF ensures_rollback ensures_persist_unknown])

lemma ensures_finish_executor:
  assumes "status = COMPLETED \<or> status = FAILED"
  shows "ensures (\<lambda>env s. gw_row s \<noteq> None) (finish_executor t status out error_code decision_code decision_reason) proven"
  unfolding finish_executor_def
  by (rule ensures_settled, simp, rule plain.triple_bind [OF ensures_the_row ensures_return]) (use assms in auto)

lemma ensures_run_executor: "ensures P (run_executor t dumped via) proven"
  unfolding run_executor_def
proof (rule plain.triple_bind [where Q = "\<lambda>won env s. won \<longrightarrow> gw_row s \<noteq> None"], goal_cases)
  case 1
  show ?case
    by (auto simp: triple_def mark_dispatched_def Let_def split: option.splits if_splits)
next
  case (2 won)
  have enters: "ensures (\<lambda>env s. gw_row s \<noteq> None) (enter_executor t dumped via) (\<lambda>_ env s. gw_row s \<noteq> None)"
    by (auto simp: triple_def enter_executor_def)
  have dies: "ensures Q die proven" for Q
    by (simp add: triple_def die_def)
  have gives_up: "ensures Q (wseq (give_up_unknown t []) (wraise Interrupted)) proven" for Q
    by (auto simp: triple_def wseq_def wraise_def elim!: wbind_ValE)
  have results: "ensures (\<lambda>env s. gw_row s \<noteq> None) (case result of
         Produced out \<Rightarrow>
           finish_executor t COMPLETED (sanitize out) None ''granted'' ''executed through the tool gateway''
       | ToolError code side_effect_possible hint detail \<Rightarrow>
           if side_effect_possible then give_up_unknown t detail
           else finish_executor t FAILED (f code hint detail) (Some code) code (g hint)
       | Raised message \<Rightarrow> give_up_unknown t []
       | CancelledInside \<Rightarrow> wseq (give_up_unknown t []) (wraise Interrupted)
       | DiedInside \<Rightarrow> die) proven" for result sanitize f g
    by (cases result) (auto intro: triple_pre [OF ensures_finish_executor] ensures_give_up gives_up dies)
  show ?case
    by (rule triple_cases(1) [OF ensures_give_up], rule triple_pre [OF plain.triple_bind [OF enters ensures_asked]],
        rule results) simp
qed

lemma ensures_execute: "ensures P (execute t dumped via) proven"
  unfolding execute_def
  by (rule plain.triple_bind [OF ensures_quiet(4)], intro triple_cases(1) ensures_run_executor ensures_error)

section \<open>Parking and staging\<close>

lemma ensures_reload: "ensures P (reload_or_fail t dumped message) proven"
  unfolding reload_or_fail_def
  by (rule plain.triple_seq [OF ensures_rollback plain.triple_bind [OF ensures_existing]],
      intro triple_cases(4) triple_cases(2) ensures_error plain.triple_ret) simp

lemma ensures_park:
  "ensures (\<lambda>_. synced) (park_for_review t review_id reason input dumped connection_id adopt_claim) proven"
proof -
  have parks: "ensures (held PENDING_REVIEW)
     (wseq (if adopt_claim then wret () else audit AuRequested)
        (wseq (audit (AuReviewRequested review_id)) (wseq commit
          (wbind the_row (\<lambda>row. wret (needs_review_outcome row review_id risk reason False)))))) proven" for risk
    by (rule plain.triple_seq [OF triple_cases(1) ensures_audited_commit], rule plain.triple_ret, assumption,
        rule ensures_audit, rule plain.triple_bind [OF ensures_the_row ensures_return]) simp
  have stages: "ensures (\<lambda>_. synced) (if adopt_claim then adopt_undispatched_claim PENDING_REVIEW None (Some review_id) id
       else wbind (wask (\<lambda>env. (new_row env (t_name t) connection_id input PENDING_REVIEW)
                     \<lparr>cr_review := Some review_id\<rparr>)) insert_row) (taken PENDING_REVIEW)"
    by (intro triple_cases(1) ensures_adopt ensures_insert_made(1)) (simp_all add: new_row_def)
  show ?thesis
    unfolding park_for_review_def Let_def
    by (rule triple_cases(1) [OF ensures_persist_denial], rule plain.triple_bind [OF ensures_quiet(4)],
        rule triple_cases(2) [OF ensures_error], rule plain.triple_bind [OF stages],
        rule ensures_not_taken [OF parks ensures_reload])
qed

lemma ensures_stage:
  "ensures (\<lambda>_. synced) (stage_approval t provider digest decision input dumped connection_id adopt_claim) proven"
proof -
  have stages: "ensures (held PENDING_APPROVAL)
     (wseq (if adopt_claim then wret () else audit AuRequested)
        (wseq (audit (AuApprovalRequested i)) (wseq commit
          (wbind the_row (\<lambda>row. wret ((needs_approval_outcome row risk code reason (Some i) None (Some provider) False)
                  \<lparr>go_sanitized_input := input\<rparr>)))))) proven" for i risk code reason
    by (rule plain.triple_seq [OF triple_cases(1) ensures_audited_commit], rule plain.triple_ret, assumption,
        rule ensures_audit, rule plain.triple_bind [OF ensures_the_row ensures_return])
       (simp add: needs_approval_outcome_def outcome_of_def)
  have adds: "ensures (\<lambda>_. synced) (add_approval i a) (\<lambda>_ _. synced)" for i a
    by (auto simp: triple_def add_approval_def wmod_def synced_def)
  have takes: "ensures (\<lambda>_. synced) (if adopt_claim then adopt_undispatched_claim PENDING_APPROVAL (Some i) None id
       else wbind (wask (\<lambda>env. (new_row env (t_name t) connection_id input PENDING_APPROVAL)
                     \<lparr>cr_approval := Some i\<rparr>)) insert_row) (taken PENDING_APPROVAL)" for i
    by (intro triple_cases(1) ensures_adopt ensures_insert_made(1)) (simp_all add: new_row_def)
  show ?thesis
    unfolding stage_approval_def
    by (rule plain.triple_bind [OF ensures_quiet(2)], rule ensures_asked, rule plain.triple_seq [OF adds],
        rule plain.triple_bind [OF takes], rule ensures_not_taken [OF stages ensures_reload])
qed

section \<open>The request\<close>

lemma ensures_require: "ensures P require_durable_execution_context (\<lambda>_. P)"
  unfolding require_durable_execution_context_def
  by (rule plain.triple_bind [OF ensures_quiet(2)], intro triple_cases(1) plain.triple_ret ensures_error)

lemma ensures_refuse: "ensures (\<lambda>_. synced) (refuse_unvalidated tool_name risk code reason raw canonical) proven"
  unfolding refuse_unvalidated_def
  by (rule plain.triple_bind [OF ensures_existing_unvalidated], intro triple_cases(2) plain.triple_ret,
      rule triple_pre [OF plain.triple_seq [OF ensures_require ensures_persist_denial]]) simp_all

lemma ensures_carry_out: "ensures (\<lambda>_. synced) (carry_out t provider input dumped connection_id adopt_claim v) proven"
proof (cases v)
  case RunNow
  show ?thesis
    unfolding carry_out_def RunNow verdict.case
    by (rule plain.triple_bind [OF ensures_claim_direct], intro triple_cases(2) ensures_execute plain.triple_ret) simp
qed (simp_all add: carry_out_def ensures_persist_denial ensures_park ensures_stage)

lemma ensures_request_validated: "ensures (\<lambda>_. synced) (request_validated t provider dumped) proven"
proof -
  have decides: "ensures (\<lambda>_. synced) (wseq require_durable_execution_context
      (wbind (live f) (\<lambda>(input, connection_id, v). carry_out t provider input dumped connection_id adopt v))) proven"
    for f adopt
    by (rule plain.triple_seq [OF ensures_require plain.triple_bind [OF ensures_quiet(2)]],
        intro triple_cases(4) ensures_carry_out)
  show ?thesis
    unfolding request_validated_def
    by (rule plain.triple_bind [OF ensures_existing], intro triple_cases(4) triple_cases(2) triple_pre [OF decides])
       (auto intro: plain.triple_ret)
qed

lemma ensures_next_entry: "ensures (\<lambda>_. synced) next_entry (\<lambda>_ _. synced)"
  by (auto simp: triple_def next_entry_def wmod_def synced_def)

lemma ensures_request_once: "ensures (\<lambda>_. synced) (request_once tool_name arguments provider_call_id) proven"
  unfolding request_once_def
    by (rule plain.triple_seq [OF ensures_next_entry], rule plain.triple_bind [OF ensures_quiet(3)], intro triple_cases(4),
        rule plain.triple_bind [OF ensures_quiet(2)], rule triple_cases(2) [OF ensures_refuse],
        rule plain.triple_bind [OF ensures_quiet(2)], intro triple_cases(3) ensures_refuse ensures_request_validated)

lemma ensures_retry_loop:
  assumes "ensures (\<lambda>_. synced) once proven"
  shows "ensures (proven outcome) (retry_loop n once outcome) proven"
proof (induction n arbitrary: outcome)
  case 0
  show ?case
    by (simp add: plain.triple_ret)
next
  case (Suc n)
  have "ensures (proven outcome) (wbind once (retry_loop n once)) proven"
    by (rule plain.triple_bind [OF triple_pre [OF assms] Suc.IH]) (rule proven_synced)
  then show ?case
    by (auto intro!: triple_cases(1) plain.triple_ret plain.triple_bind [OF ensures_quiet(2)])
qed

lemma ensures_request: "ensures (\<lambda>_. synced) (request tool_name arguments provider_call_id) proven"
  unfolding request_def retry_while_unproven_def
  by (rule plain.triple_bind [OF ensures_request_once ensures_retry_loop [OF ensures_request_once]])

text \<open>
  C3 (functional) What a request returns is what the database holds: a request entered after any history, on
  a fresh session, that returns an outcome leaves a committed row whose status is the one of the outcome:
  completed for executed, failed for failed, denied for denied, rejected for rejected, parked for the two
  waits, unknown for unknown. Only of a refusal coded \<open>invocation_mismatch\<close>, whose id is bound to another
  call, nothing more is said than that a row is there.
\<close>

theorem request_outcome_durable:
  "case request tool_name arguments provider_call_id env (discard (history env events)) of
     (Val outcome, s) \<Rightarrow>
       (case gw_db s of None \<Rightarrow> False | Some row \<Rightarrow> accounts_for outcome (cr_status row))
   | _ \<Rightarrow> True"
proof -
  have "synced (discard (history env events))"
    by (simp add: synced_def discard_def)
  from tripleD(2) [OF ensures_request this] show ?thesis
    by (fastforce simp: proven_def split: prod.splits outcome.splits)
qed

section \<open>The resolutions\<close>

text \<open>
  A resolution may find a claim instead of a parked row. When another review then stands in its way, the row
  is bound to that review and stays claimed: waiting for a review is then said of a claimed row.
\<close>

definition resolution_statuses :: "gateway_status \<Rightarrow> call_status set" where
  "resolution_statuses status = (if status = NEEDS_REVIEW then {PENDING_REVIEW, CLAIMED} else outcome_statuses status)"

definition resolution_accounts :: "gateway_outcome \<Rightarrow> call_status \<Rightarrow> bool" where
  "resolution_accounts outcome c \<longleftrightarrow> mismatch_refusal outcome \<or> c \<in> resolution_statuses (go_status outcome)"

lemma resolution_accounts_status [simp]:
  "c \<in> resolution_statuses (go_status outcome) \<Longrightarrow> resolution_accounts outcome c"
  by (simp add: resolution_accounts_def)

definition resolved :: "gateway_outcome \<Rightarrow> gateway_env \<Rightarrow> gateway_state \<Rightarrow> bool" where
  "resolved outcome env s \<longleftrightarrow> (\<exists>r. gw_row s = Some r \<and> resolution_accounts outcome (cr_status r))"

definition resolved_durably :: "gateway_outcome \<Rightarrow> gateway_env \<Rightarrow> gateway_state \<Rightarrow> bool" where
  "resolved_durably outcome env s \<longleftrightarrow> synced s \<and> resolved outcome env s"

lemma outcome_resolution: "outcome_statuses c \<subseteq> resolution_statuses c"
  by (cases c) (auto simp: resolution_statuses_def)

lemma proven_resolved: "proven outcome env s \<Longrightarrow> resolved outcome env s"
  using outcome_resolution by (auto simp: proven_def resolved_def resolution_accounts_def accounts_for_def)

lemma ensures_resolved: "ensures P m proven \<Longrightarrow> ensures P m resolved"
  by (erule triple_conseq) (auto intro: proven_resolved)

lemma resolvedI:
  "gw_row s = Some row \<Longrightarrow> cr_status row \<in> resolution_statuses (go_status outcome) \<Longrightarrow> resolved outcome env s"
  by (auto simp: resolved_def)

lemma resolved_replay:
  "terminal (cr_status row) \<Longrightarrow> gw_row s = Some row \<Longrightarrow> resolved (replayed_outcome row approval risk) env s"
  using replay_statuses outcome_resolution by (fastforce simp: resolved_def)

lemma ensures_held_return:
  "c \<in> resolution_statuses (go_status outcome) \<Longrightarrow> ensures (held c) (wret outcome) resolved"
  by (rule plain.triple_ret) (auto simp: held_def resolved_def)

lemma resolution_simps [simp]:
  "resolution_statuses OUT_DENIED = {CALL_DENIED}" "resolution_statuses OUT_FAILED = {FAILED}"
  "resolution_statuses NEEDS_APPROVAL = {PENDING_APPROVAL}" "resolution_statuses OUT_REJECTED = {REJECTED}"
  "resolution_statuses NEEDS_REVIEW = {PENDING_REVIEW, CLAIMED}" "resolution_statuses OUT_UNKNOWN = {EXECUTION_UNKNOWN}"
  by (simp_all add: resolution_statuses_def)

lemma ensures_committed: "ensures P m resolved \<Longrightarrow> ensures P (committed m) resolved_durably"
proof -
  assume m: "ensures P m resolved"
  have "ensures (resolved outcome) (wseq commit (wret outcome)) resolved_durably" for outcome
    by (auto simp: triple_def wseq_def wbind_def commit_def wret_def Let_def resolved_def resolved_durably_def synced_def
        split: if_splits)
  then show ?thesis
    unfolding committed_def by (rule plain.triple_bind [OF m])
qed

lemma ensures_finish_parked:
  "ensures (\<lambda>env s. gw_row s \<noteq> None) (finish_parked_call row approval_id status code reason risk review_id) resolved"
  unfolding finish_parked_call_def
  by (rule plain.triple_seq [OF ensures_write [where c = "parked_call_status status"] plain.triple_seq [OF ensures_audit]],
      simp, rule ensures_held_return) (cases status; simp add: outcome_of_def)

lemma ensures_claim_from: "ensures (\<lambda>_. synced) (claim_from parked)
    (\<lambda>claimed env s. synced s \<and> (claimed \<longrightarrow> gw_row s \<noteq> None))"
  unfolding claim_from_def
proof (rule ensures_read_row, goal_cases)
  case 1
  show ?case
    by (rule plain.triple_seq [OF ensures_rollback plain.triple_ret]) simp
next
  case (2 row)
  show ?case
  proof (rule triple_cases(1), goal_cases)
    case 1
    show ?case
      by (rule triple_pre [OF plain.triple_seq [OF ensures_write ensures_audited_commit]], simp, rule plain.triple_ret)
         (auto simp: stored_def synced_def)
  next
    case 2
    show ?case
      by (rule plain.triple_seq [OF ensures_rollback plain.triple_ret]) simp
  qed
qed

text \<open>The claim taken, with its row at hand, or the outcome that answers instead.\<close>

abbreviation claimed_or_proven :: "gateway_outcome option \<Rightarrow> gateway_env \<Rightarrow> gateway_state \<Rightarrow> bool" where
  "claimed_or_proven res env s \<equiv> (case res of None \<Rightarrow> gw_row s \<noteq> None | Some outcome \<Rightarrow> proven outcome env s)"

lemma ensures_claim_or_replay: "ensures (\<lambda>_. synced) (claim_or_replay parked approval_id) claimed_or_proven"
  unfolding claim_or_replay_def
proof (rule plain.triple_bind [OF ensures_claim_from], rule triple_cases(1), goal_cases)
  case (1 claimed)
  then show ?case
    by (intro plain.triple_ret) simp
next
  case (2 claimed)
  have reenters: "ensures (\<lambda>env s. synced s \<and> gw_row s = Some row)
      (wseq (if approval_id = None then wret () else audit_claim_reentered) (wret None)) claimed_or_proven" for row
    by (rule plain.triple_seq [where Q = "\<lambda>env s. gw_row s \<noteq> None"], rule triple_cases(1), rule plain.triple_ret, simp,
        rule triple_conseq [OF ensures_reentered [where c = "cr_status row"]])
       (auto simp: held_def stored_def intro: plain.triple_ret)
  have reconciles: "ensures (\<lambda>_. synced) (reconcile_unproven_dispatch None approval) claimed_or_proven" for approval
    by (rule triple_conseq [OF triple_both [OF ensures_reconcile triple_pre [OF plain.triple_reconcile]]])
       (auto simp: status_in_def proven_or_synced_def split: option.splits)
  show ?case
  proof (rule plain.triple_bind [OF ensures_quiet(1)], rule plain.triple_bind [OF plain.triple_the_row],
      intro triple_cases(1) ensures_error, goal_cases)
    case (1 approval row)
    then show ?case
      by (intro plain.triple_ret) (auto intro!: provenI replay_statuses)
  next
    case (2 approval row)
    show ?case
      by (rule triple_pre [OF reenters]) simp
  next
    case (3 approval row)
    show ?case
      by (rule triple_pre [OF reconciles]) simp
  qed
qed

lemma ensures_synced_reentered:
  "ensures (\<lambda>env s. synced s \<and> gw_row s = Some row) (if b then audit_claim_reentered else wret ()) (\<lambda>_ env s. synced s \<and> held (cr_status row) env s)"
proof (rule triple_cases(1))
  show "ensures (\<lambda>env s. synced s \<and> gw_row s = Some row) audit_claim_reentered (\<lambda>_ env s. synced s \<and> held (cr_status row) env s)"
    by (rule triple_conseq [OF ensures_reentered [where c = "cr_status row"]]) (auto simp: held_def stored_def synced_def)
  show "ensures (\<lambda>env s. synced s \<and> gw_row s = Some row) (wret ()) (\<lambda>_ env s. synced s \<and> held (cr_status row) env s)"
    by (rule plain.triple_ret) (auto simp: held_def)
qed

lemma held_row: "held c env s \<Longrightarrow> gw_row s \<noteq> None"
  by (auto simp: held_def)

lemma ensures_run_claimed: "ensures (\<lambda>_. synced) (wbind (claim_or_replay parked approval_id) (\<lambda>replay.
    case replay of Some outcome \<Rightarrow> wret outcome | None \<Rightarrow> execute t dumped via)) resolved"
  by (rule plain.triple_bind [OF ensures_claim_or_replay], intro triple_cases(2) ensures_resolved [OF ensures_execute] plain.triple_ret)
     (auto intro: proven_resolved)

lemma ensures_settle_review:
  "ensures (\<lambda>env s. synced s \<and> held c env s \<and> (c = PENDING_REVIEW \<or> c = CLAIMED)) (settle_review review_id row v) resolved"
proof -
  let ?P = "\<lambda>env s. synced s \<and> held c env s \<and> (c = PENDING_REVIEW \<or> c = CLAIMED)"
  have audits: "ensures ?P (if b then audit a else wret ()) (\<lambda>_. ?P)" for b a
    by (auto simp: triple_def audit_def wmod_def wret_def synced_def held_def)
  have parks: "ensures ?P (wseq (write_row (\<lambda>r. r\<lparr>cr_review := Some i\<rparr>)) (wseq (audit a)
      (wret (needs_review_outcome row i risk reason False)))) resolved" for i a risk reason
    by (auto simp: triple_def wseq_def wbind_def write_row_def audit_def wmod_def wret_def held_def resolved_def)
  have adds: "ensures ?P (add_approval i a) (\<lambda>_ env s. gw_row s \<noteq> None)" for i a
    by (auto simp: triple_def add_approval_def wmod_def held_def)
  have stages: "ensures (\<lambda>env s. gw_row s \<noteq> None)
      (wseq (write_row (\<lambda>r. r\<lparr>cr_status := PENDING_APPROVAL, cr_approval := Some i\<rparr>)) (wseq (audit a)
      (wret (needs_approval_outcome row risk code reason (Some i) (Some review_id) None False)))) resolved" for i a risk code reason
    by (rule plain.triple_seq [OF ensures_write [where c = PENDING_APPROVAL] plain.triple_seq [OF ensures_audit ensures_held_return]])
       simp_all
  have ends: "ensures ?P (finish_parked_call row None status code reason risk (Some review_id)) resolved" for status code reason risk
    by (rule triple_pre [OF ensures_finish_parked]) (auto simp: held_def)
  have runs: "ensures ?P (wbind (claim_or_replay PENDING_REVIEW None) (\<lambda>replay.
    case replay of Some outcome \<Rightarrow> wret outcome | None \<Rightarrow> execute t dumped None)) resolved" for t dumped
    by (rule triple_pre [OF ensures_run_claimed]) simp
  show ?thesis
    unfolding settle_review_def
  proof (rule plain.triple_seq [OF audits], cases "snd v"; simp only: review_step.case)
    show "ensures ?P (finish_parked_call row None status code reason risk (Some review_id)) resolved" for status code reason risk
      by (rule ends)
    show "ensures ?P (wbind (wget f) (\<lambda>found. case found of None \<Rightarrow> state_error e
        | Some (_ :: work_review) \<Rightarrow> wseq (write_row (\<lambda>r. r\<lparr>cr_review := Some i\<rparr>)) (wseq (audit a)
            (wret (needs_review_outcome row i risk reason False))))) resolved" for f e i a risk reason
      by (rule plain.triple_bind [OF ensures_quiet(4)], rule triple_cases(2) [OF ensures_error parks])
    show "ensures ?P (wbind (live f) (\<lambda>i. wbind (wask (g i)) (\<lambda>a. wseq (add_approval i a)
        (wseq (write_row (\<lambda>r. r\<lparr>cr_status := PENDING_APPROVAL, cr_approval := Some i\<rparr>)) (wseq (audit (AuApprovalRequested i))
          (wret (needs_approval_outcome row risk code reason (Some i) (Some review_id) None False))))))) resolved"
      for f g risk code reason
      by (rule plain.triple_bind [OF ensures_quiet(2)], rule ensures_asked, rule plain.triple_seq [OF adds stages])
    show "ensures ?P (wbind (claim_or_replay PENDING_REVIEW None) (\<lambda>replay.
        case replay of Some outcome \<Rightarrow> wret outcome | None \<Rightarrow> execute t dumped None)) resolved" for t dumped
      by (rule runs)
  qed
qed

lemma ensures_resume_reviewed: "ensures (\<lambda>_. synced) (resume_reviewed review_id review) resolved"
  unfolding resume_reviewed_def
proof (rule plain.triple_bind [OF plain.triple_the_row], rule plain.triple_seq [OF ensures_synced_reentered],
    intro triple_cases(1) ensures_error, goal_cases)
  case (1 row)
  then show ?case
    by (intro plain.triple_bind [OF ensures_quiet(1)] triple_cases(2) ensures_error plain.triple_ret)
       (auto simp: held_def resolved_def)
next
  case (2 row)
  then show ?case
    by (intro plain.triple_bind [OF ensures_quiet(2)] triple_pre [OF ensures_settle_review [where c = "cr_status row"]]) auto
qed

lemma ensures_settle_approved:
  "ensures (\<lambda>env s. synced s \<and> gw_row s \<noteq> None) (settle_approved approval_id approval row v) resolved"
proof (cases v)
  case (Inl e)
  then show ?thesis
    by (cases e) (auto simp: settle_approved_def intro!: triple_pre [OF ensures_finish_parked])
next
  case (Inr b)
  have audits: "ensures P (wseq (audit a) (execute t dumped via)) resolved" for P a t dumped via
    by (auto simp: triple_def wseq_def wbind_def audit_def wmod_def
        dest!: tripleD(2) [OF ensures_execute TrueI] intro: proven_resolved)
  show ?thesis
    unfolding settle_approved_def Inr sum.case run_approved_def
    by (rule plain.triple_bind [OF triple_pre [OF ensures_claim_or_replay]], simp, intro triple_cases(2),
        rule plain.triple_bind [OF ensures_quiet(2)], intro triple_cases(1) audits,
        rule triple_pre [OF ensures_finish_parked])
       (auto intro: plain.triple_ret proven_resolved)
qed

lemma ensures_resume_approved: "ensures (\<lambda>_. synced) (resume_approved approval_id approval) resolved"
  unfolding resume_approved_def
proof (rule plain.triple_bind [OF plain.triple_the_row], goal_cases)
  case (1 row)
  have "ensures (\<lambda>env s. synced s \<and> gw_row s = Some row) (if c then audit_claim_reentered else if d then state_error e else wret ())
      (\<lambda>_ env s. synced s \<and> gw_row s \<noteq> None)" for c d e
    by (intro triple_cases(1) ensures_error plain.triple_ret triple_conseq [OF ensures_reentered [where c = "cr_status row"]])
       (auto simp: held_def stored_def synced_def)
  then show ?case
    by (rule plain.triple_seq) (rule plain.triple_bind [OF ensures_quiet(2) ensures_settle_approved])
qed

text \<open>Loading the pair of a resolution reads, or ends in an error.\<close>

lemma ensures_load_approval:
  "ensures P (load_approval_pair approval_id) (\<lambda>pair env s. P env s \<and> gw_row s = Some (snd pair))"
proof -
  have fails: "ensures Q (approval_failure code message) U" for Q code message and U :: "approval_row \<times> call_row \<Rightarrow> _"
    by (auto simp: approval_failure_def triple_def wseq_def state_error_def wraise_def elim!: wbind_ValE)
  show ?thesis
    unfolding load_approval_pair_def
    by (rule plain.triple_bind [OF ensures_quiet(3)], rule plain.triple_bind [OF plain.triple_get],
        intro triple_cases fails plain.triple_ret) auto
qed

lemma ensures_load_review:
  "ensures P (load_review_pair review_id) (\<lambda>pair env s. P env s \<and> gw_row s = Some (snd pair))"
  unfolding load_review_pair_def
  by (rule plain.triple_bind [OF ensures_quiet(3)], intro triple_cases(4), rule plain.triple_bind [OF plain.triple_get],
      intro triple_cases ensures_error plain.triple_ret) auto

text \<open>A row another attempt may have left unproven: replayed, reconciled or resumed.\<close>

lemma ensures_reconciled_or:
  assumes "ensures (\<lambda>_. synced) m resolved"
  shows "ensures (\<lambda>_. synced) (wbind (reconcile_unproven_dispatch risk approval) (\<lambda>unproven.
    case unproven of Some outcome \<Rightarrow> wret outcome | None \<Rightarrow> m)) resolved"
  by (rule plain.triple_bind [OF ensures_reconcile], intro triple_cases(2) plain.triple_ret triple_pre [OF assms])
     (auto intro: proven_resolved)

lemma ensures_review_once: "ensures (\<lambda>_. synced) (resolve_review_once review_id) resolved"
  unfolding resolve_review_once_def
proof (rule plain.triple_seq [OF ensures_next_entry], rule plain.triple_bind [OF ensures_load_review],
    intro triple_cases(4) triple_cases(1) ensures_error, goal_cases)
  case (1 pair review row)
  then show ?case
    by (intro plain.triple_ret) (auto intro: resolved_replay)
qed (rule triple_pre [OF ensures_reconciled_or [OF ensures_resume_reviewed]] triple_pre [OF ensures_resume_reviewed], simp)+

lemma ensures_approved_once: "ensures (\<lambda>_. synced) (resolve_approved_once approval_id) resolved"
  unfolding resolve_approved_once_def
proof (rule plain.triple_seq [OF ensures_next_entry], rule plain.triple_bind [OF ensures_load_approval],
    intro triple_cases(4) triple_cases(1) ensures_error, goal_cases)
  case (1 pair approval row)
  then show ?case
    by (intro plain.triple_ret) (auto intro: resolved_replay)
qed (rule triple_pre [OF ensures_reconciled_or [OF ensures_resume_approved]] triple_pre [OF ensures_resume_approved], simp)+

lemma ensures_reject: "ensures (\<lambda>env s. gw_row s \<noteq> None) (reject_call approval_id row v) resolved"
proof (cases v)
  case (Inl e)
  then show ?thesis
    by (cases e) (auto simp: reject_call_def intro!: triple_pre [OF ensures_finish_parked])
next
  case (Inr b)
  show ?thesis
    unfolding reject_call_def Inr sum.case
    by (rule plain.triple_seq [OF ensures_write [where c = REJECTED] plain.triple_seq [OF ensures_audit ensures_held_return]])
       (simp_all add: outcome_of_def)
qed

lemma ensures_rejected_once: "ensures (\<lambda>_. synced) (resolve_rejected_once approval_id) resolved"
  unfolding resolve_rejected_once_def
proof (rule plain.triple_seq [OF ensures_next_entry], rule plain.triple_bind [OF ensures_load_approval],
    intro triple_cases(4) triple_cases(1) ensures_error, goal_cases)
  case (1 pair approval row)
  then show ?case
    by (intro plain.triple_ret) (auto intro: resolved_replay)
next
  case (2 pair approval row)
  show ?case
    by (rule triple_pre [OF ensures_resolved [OF ensures_persist_unknown]]) simp
next
  case (3 pair approval row)
  show ?case
    by (rule plain.triple_bind [OF ensures_quiet(2)], rule triple_pre [OF ensures_reject]) simp
qed

lemma ensures_resolution_retry:
  assumes "ensures (\<lambda>_. synced) once resolved_durably"
  shows "ensures (\<lambda>_. synced) (retry_while_unproven once) resolved_durably"
proof -
  have "ensures (resolved_durably outcome) (retry_loop n once outcome) resolved_durably" for n outcome
  proof (induction n arbitrary: outcome)
    case 0
    show ?case
      by (simp add: plain.triple_ret)
  next
    case (Suc n)
    have "ensures (resolved_durably outcome) (wbind once (retry_loop n once)) resolved_durably"
      by (rule plain.triple_bind [OF triple_pre [OF assms] Suc.IH]) (simp add: resolved_durably_def)
    then show ?case
      by (auto intro!: triple_cases(1) plain.triple_ret plain.triple_bind [OF ensures_quiet(2)])
  qed
  then show ?thesis
    unfolding retry_while_unproven_def by (rule plain.triple_bind [OF assms])
qed

lemma ensures_resolutions:
  "ensures (\<lambda>_. synced) (resolve_review review_id) resolved_durably"
  "ensures (\<lambda>_. synced) (resolve_approved approval_id) resolved_durably"
  "ensures (\<lambda>_. synced) (resolve_rejected approval_id) resolved_durably"
  unfolding resolve_review_def resolve_approved_def resolve_rejected_def
  by (rule plain.triple_bind [OF ensures_load_review triple_pre [OF ensures_resolution_retry [OF ensures_committed [OF ensures_review_once]]]]
        plain.triple_bind [OF ensures_load_approval triple_pre [OF ensures_resolution_retry [OF ensures_committed [OF ensures_approved_once]]]]
        plain.triple_bind [OF ensures_load_approval triple_pre [OF ensures_committed [OF ensures_rejected_once]]], simp)+

definition durable :: "(gateway_outcome, gateway_error) outcome \<times> gateway_state \<Rightarrow> bool" where
  "durable res =
     (case res of
        (Val outcome, s) \<Rightarrow>
          (case gw_db s of None \<Rightarrow> False | Some row \<Rightarrow> resolution_accounts outcome (cr_status row))
      | _ \<Rightarrow> True)"

lemma durableI:
  assumes "ensures (\<lambda>_. synced) m resolved_durably"
  shows "durable (m env (discard s))"
proof -
  obtain r t where run: "m env (discard s) = (r, t)"
    by fastforce
  show ?thesis
  proof (cases r)
    case (Val outcome)
    have "synced (discard s)"
      by (simp add: synced_def discard_def)
    then have "resolved_durably outcome env t"
      using run unfolding Val by (rule tripleD(2) [OF assms])
    then show ?thesis
      using run Val by (auto simp: durable_def resolved_durably_def resolved_def synced_def)
  qed (use run in \<open>simp_all add: durable_def\<close>)
qed

text \<open>
  What a resolution returns is what the database holds: resuming a reviewed call, running an
  approved one or recording a rejection, after any history, leaves a committed row of the status it returns.
\<close>

theorem resolution_outcome_durable:
  "durable (resolve_approved approval_id env (discard (history env events)))
   \<and> durable (resolve_rejected approval_id env (discard (history env events)))
   \<and> durable (resolve_review review_id env (discard (history env events)))"
  by (intro conjI durableI ensures_resolutions)

end
