(* ===== verification/SqlAst.thy ===== *)
theory SqlAst
  imports Prelude
begin

text \<open>
  \<open>packages/connectors/src/jhin_connectors/supabase/sql_policy.py\<close>: the syntax tree the third-party parser
  returns, as the code reads it (a class, an ordered dict \<open>args\<close> and an identity), and the bounded walk over
  it. A missing key of \<open>args\<close> reads as \<open>None\<close>; the children of a node are the expressions its arguments hold,
  in order.
\<close>

section \<open>Trees\<close>

text \<open>The classes the policy names; any other is \<open>KOther\<close>.\<close>

datatype sql_kind =
    KAdd | KAlias | KAnd | KBetween | KBoolean | KCase | KCast | KColumn | KCTE | KDataType | KDelete
  | KDistinct | KDiv | KEQ | KExcept | KFrom | KGroup | KGT | KGTE | KHaving | KIdentifier | KIf | KILike | KIn
  | KInsert | KIntersect | KIs | KJoin | KLike | KLimit | KLiteral | KLT | KLTE | KMod | KMul | KNeg | KNEQ
  | KNot | KNull | KOffset | KOr | KOrder | KOrdered | KParameter | KParen | KRawString | KSchema | KSelect
  | KStar | KSub | KSubquery | KTable | KTableAlias | KTruncateTable | KTuple | KUnion | KUpdate | KValues
  | KWhere | KWith | KOther string

text \<open>The column types a cast may name; any other is \<open>T_OTHER\<close>.\<close>

datatype data_type =
    T_BOOLEAN | T_SMALLINT | T_INT | T_BIGINT | T_DECIMAL | T_FLOAT | T_DOUBLE | T_TEXT | T_VARCHAR | T_DATE
  | T_TIMESTAMP | T_TIMESTAMPTZ | T_UUID | T_JSON | T_JSONB | T_OTHER string

datatype sql_node = Node nat sql_kind "(string \<times> sql_arg) list"
  and sql_arg = ANone | ABool bool | AText string | AType data_type | ANode sql_node | AList "sql_node list"

fun node_id :: "sql_node \<Rightarrow> nat" where
  "node_id (Node i k args) = i"

fun kind :: "sql_node \<Rightarrow> sql_kind" where
  "kind (Node i k args) = k"

fun node_args :: "sql_node \<Rightarrow> (string \<times> sql_arg) list" where
  "node_args (Node i k args) = args"

text \<open>\<open>node.args.get(key)\<close>, and its truth value\<close>

definition arg :: "sql_node \<Rightarrow> string \<Rightarrow> sql_arg" where
  "arg n key = (case map_of (node_args n) key of None \<Rightarrow> ANone | Some a \<Rightarrow> a)"

fun arg_truthy :: "sql_arg \<Rightarrow> bool" where
  "arg_truthy ANone = False"
| "arg_truthy (ABool b) = b"
| "arg_truthy (AText t) = (t \<noteq> [])"
| "arg_truthy (AList ns) = (ns \<noteq> [])"
| "arg_truthy _ = True"

definition has_arg :: "sql_node \<Rightarrow> string \<Rightarrow> bool" where
  "has_arg n key = arg_truthy (arg n key)"

abbreviation this_arg :: "sql_node \<Rightarrow> sql_arg" where
  "this_arg n \<equiv> arg n ''this''"

definition expressions :: "sql_node \<Rightarrow> sql_node list" where
  "expressions n = (case arg n ''expressions'' of AList ns \<Rightarrow> ns | _ \<Rightarrow> [])"

fun arg_nodes :: "sql_arg \<Rightarrow> sql_node list" where
  "arg_nodes (ANode n) = [n]"
| "arg_nodes (AList ns) = ns"
| "arg_nodes _ = []"

definition children :: "sql_node \<Rightarrow> sql_node list" where
  "children n = concat (map (\<lambda>(key, a). arg_nodes a) (node_args n))"

lemma size_nth_list: "m \<in> set ns \<Longrightarrow> size m < Suc (size_list size ns)"
  by (induction ns) auto

lemma size_arg_nodes: "m \<in> set (arg_nodes a) \<Longrightarrow> size m < size a"
proof (cases a)
  case (AList ns)
  assume "m \<in> set (arg_nodes a)"
  then have "m \<in> set ns"
    unfolding AList by simp
  from size_nth_list [OF this] show ?thesis
    unfolding AList sql_arg.size by simp
next
  case (ANode n)
  assume "m \<in> set (arg_nodes a)"
  then show ?thesis
    unfolding ANode sql_arg.size by simp
qed simp_all

lemma size_children [termination_simp]:
  assumes "m \<in> set (children n)"
  shows "size m < size n"
proof (cases n)
  case (Node i k args)
  then obtain key a where a: "(key, a) \<in> set args" "m \<in> set (arg_nodes a)"
    using assms by (auto simp: children_def)
  have "size a \<le> size_list (size_prod (\<lambda>_. 0) size) args"
    using a(1) by (rule size_list_estimation') simp
  with size_arg_nodes [OF a(2)] show ?thesis
    unfolding Node sql_node.size by linarith
qed

lemma arg_child: "arg n key = ANode m \<Longrightarrow> m \<in> set (children n)"
proof -
  assume "arg n key = ANode m"
  then have "(key, ANode m) \<in> set (node_args n)"
    by (auto simp: arg_def split: option.splits dest: map_of_SomeD)
  then show ?thesis
    by (force simp: children_def)
qed

lemma size_this [termination_simp]: "arg n key = ANode m \<Longrightarrow> size m < size n"
  by (rule size_children [OF arg_child])

section \<open>Reading a tree\<close>

text \<open>The nodes of a tree, each before its children, and how deep it is.\<close>

function preorder :: "sql_node \<Rightarrow> sql_node list" where
  "preorder n = n # concat (map preorder (children n))"
  by pat_completeness auto

termination preorder
  by (relation "measure size") (auto intro: size_children)

declare preorder.simps [simp del]

function depth :: "sql_node \<Rightarrow> nat" where
  "depth n = Suc (fold max (map depth (children n)) 0)"
  by pat_completeness auto

termination depth
  by (relation "measure size") (auto intro: size_children)

declare depth.simps [simp del]

section \<open>The bounded walk\<close>

definition MAX_SQL_AST_NODES :: nat where
  "MAX_SQL_AST_NODES = 512"

definition MAX_SQL_AST_DEPTH :: nat where
  "MAX_SQL_AST_DEPTH = 64"

text \<open>
  \<open>_walk_bounded\<close>: the stack with its top first, and the nodes taken so far. It ends because it gives up
  beyond the bound on nodes, however large the tree is.
\<close>

function walk :: "(sql_node \<times> nat) list \<Rightarrow> sql_node list \<Rightarrow> sql_node list option" where
  "walk [] nodes = Some nodes"
| "walk ((n, d) # stack) nodes =
     (let taken = nodes @ [n]
      in if length taken > MAX_SQL_AST_NODES \<or> d > MAX_SQL_AST_DEPTH then None
         else walk (map (\<lambda>c. (c, d + 1)) (children n) @ stack) taken)"
  by pat_completeness auto

termination walk
  by (relation "measures [\<lambda>(stack, nodes). MAX_SQL_AST_NODES + 1 - length nodes, \<lambda>(stack, nodes). length stack]") auto

definition walk_bounded :: "sql_node \<Rightarrow> sql_node list option" where
  "walk_bounded root = walk [(root, 1)] []"

text \<open>A stack of trees is read in order; every tree must end within the depth left to it.\<close>

definition fits :: "(sql_node \<times> nat) list \<Rightarrow> bool" where
  "fits stack \<longleftrightarrow> list_all (\<lambda>(n, d). d + depth n \<le> Suc MAX_SQL_AST_DEPTH) stack"

abbreviation reading :: "(sql_node \<times> nat) list \<Rightarrow> sql_node list" where
  "reading stack \<equiv> concat (map (\<lambda>(n, d). preorder n) stack)"

lemma fold_max_le: "fold max xs (m :: nat) \<le> k \<longleftrightarrow> m \<le> k \<and> (\<forall>x \<in> set xs. x \<le> k)"
  by (induction xs arbitrary: m) auto

lemma depth_le: "depth n \<le> Suc k \<longleftrightarrow> (\<forall>c \<in> set (children n). depth c \<le> k)"
  by (subst depth.simps) (simp add: fold_max_le)

lemma depth_pos: "0 < depth n"
  by (subst depth.simps) simp

lemma fits_children:
  assumes "d \<le> MAX_SQL_AST_DEPTH"
  shows "fits ((n, d) # stack) \<longleftrightarrow> fits (map (\<lambda>c. (c, d + 1)) (children n) @ stack)"
proof -
  obtain k where k: "MAX_SQL_AST_DEPTH = d + k"
    using assms le_Suc_ex by blast
  have "d + depth n \<le> Suc MAX_SQL_AST_DEPTH \<longleftrightarrow> depth n \<le> Suc k"
    unfolding k by linarith
  also have "\<dots> \<longleftrightarrow> (\<forall>c \<in> set (children n). d + 1 + depth c \<le> Suc MAX_SQL_AST_DEPTH)"
    unfolding depth_le k by auto
  finally show ?thesis
    unfolding fits_def by (simp add: list_all_iff ball_Un)
qed

lemma fits_deep: "MAX_SQL_AST_DEPTH < d \<Longrightarrow> \<not> fits ((n, d) # stack)"
  using depth_pos [of n] by (auto simp: fits_def)

lemma reading_children: "reading ((n, d) # stack) = n # reading (map (\<lambda>c. (c, d + 1)) (children n) @ stack)"
  by (simp add: preorder.simps [of n] o_def)

lemma walk_spec:
  "walk stack nodes =
     (if (stack = [] \<or> length nodes + length (reading stack) \<le> MAX_SQL_AST_NODES) \<and> fits stack
      then Some (nodes @ reading stack) else None)"
proof (induction stack nodes rule: walk.induct)
  case (1 nodes)
  show ?case
    by (simp add: fits_def)
next
  case (2 n d stack nodes)
  let ?next = "map (\<lambda>c. (c, d + 1)) (children n) @ stack"
  show ?case
  proof (cases "length nodes + 1 > MAX_SQL_AST_NODES \<or> d > MAX_SQL_AST_DEPTH")
    case True
    then show ?thesis
      unfolding reading_children by (auto simp: Let_def fits_deep)
  next
    case False
    then have "walk ((n, d) # stack) nodes = walk ?next (nodes @ [n])"
      by (simp add: Let_def)
    also have "\<dots> = (if (?next = [] \<or> length (nodes @ [n]) + length (reading ?next) \<le> MAX_SQL_AST_NODES) \<and> fits ?next
        then Some ((nodes @ [n]) @ reading ?next) else None)"
      using 2 False by (simp add: Let_def)
    also have "fits ?next = fits ((n, d) # stack)"
      using False fits_children [of d n stack] by simp
    finally show ?thesis
      unfolding reading_children using False by auto
  qed
qed

lemma walk_is_reading:
  "walk_bounded root =
     (if length (preorder root) \<le> MAX_SQL_AST_NODES \<and> depth root \<le> MAX_SQL_AST_DEPTH
      then Some (preorder root) else None)"
  by (auto simp: walk_bounded_def walk_spec fits_def)

text \<open>
  The iterative walk is the recursive reading of the tree: it gives every node before its
  children and from left to right when the tree has at most \<open>MAX_SQL_AST_NODES\<close> nodes and is at most
  \<open>MAX_SQL_AST_DEPTH\<close> deep, and rejects every other tree.
\<close>

theorem walk_is_preorder:
  "walk_bounded root =
     (if length (preorder root) \<le> MAX_SQL_AST_NODES \<and> depth root \<le> MAX_SQL_AST_DEPTH
      then Some (preorder root) else None)"
  by (rule walk_is_reading)

end
