(* ===== verification/SqlLexer.thy ===== *)
theory SqlLexer
  imports Prelude
begin

text \<open>
  \<open>_parser_safe_sql\<close> of \<open>packages/connectors/src/jhin_connectors/supabase/sql_policy.py\<close>: the text the
  third-party parser sees. A blank is put between a parameter and the comma or closing parenthesis after it,
  outside strings, quoted identifiers, comments and dollar strings. \<open>None\<close> is the rejection of an ambiguous
  backslash before a closing quote. The scanner runs over what is left of the text and keeps the character
  before it.
\<close>

section \<open>Characters\<close>

text \<open>The code points below 256 for which \<open>str.isalnum\<close> holds.\<close>

definition py_isalnum :: "char \<Rightarrow> bool" where
  "py_isalnum c \<longleftrightarrow> ascii_lower c \<or> ascii_upper c \<or> py_isdigit c \<or> ord c \<in> {170, 181, 186, 188, 189, 190}
     \<or> (192 \<le> ord c \<and> ord c \<noteq> 215 \<and> ord c \<noteq> 247)"

definition tag_char :: "char \<Rightarrow> bool" where
  "tag_char c \<longleftrightarrow> py_isalnum c \<or> c = CHR ''_''"

abbreviation single_quote :: char where "single_quote \<equiv> CHR 0x27"
abbreviation double_quote :: char where "double_quote \<equiv> CHR 0x22"
abbreviation backslash :: char where "backslash \<equiv> CHR 0x5C"
abbreviation dollar :: char where "dollar \<equiv> CHR 0x24"
abbreviation blank :: char where "blank \<equiv> CHR 0x20"

lemma tag_char_plain:
  "tag_char c \<Longrightarrow> c \<noteq> CHR ''-'' \<and> c \<noteq> CHR ''/'' \<and> c \<noteq> single_quote \<and> c \<noteq> double_quote \<and> c \<noteq> dollar \<and> c \<noteq> blank"
  by (auto simp: tag_char_def py_isalnum_def char_class_defs)

lemma digit_tag_char: "py_isdigit c \<Longrightarrow> tag_char c"
  by (simp add: tag_char_def py_isalnum_def)

section \<open>The scanner\<close>

text \<open>A dollar string keeps what stands between the dollars of its tag.\<close>

datatype sql_state = Plain | LineComment | BlockComment nat | SingleQuote | DoubleQuote | DollarQuote string

definition emit :: "string \<Rightarrow> string option \<Rightarrow> string option" where
  "emit w r = map_option (\<lambda>out. w @ out) r"

definition dollar_tag :: "string \<Rightarrow> string" where
  "dollar_tag body = dollar # body @ [dollar]"

text \<open>A quote closed right after a backslash, with text or another quote adjacent, is ambiguous.\<close>

definition ambiguous_close :: "char option \<Rightarrow> string \<Rightarrow> bool" where
  "ambiguous_close prev rest \<longleftrightarrow> prev = Some backslash \<and>
     (case rest of [] \<Rightarrow> False
      | c # _ \<Rightarrow> c = dollar \<or> c = double_quote \<or> c = single_quote \<or> c = CHR ''_'' \<or> py_isalnum c)"

text \<open>After a dollar in plain text: the tag it opens, the parameter it begins, or neither.\<close>

datatype dollar_case = OpensTag string | Parameter string | Lone

definition after_dollar :: "string \<Rightarrow> dollar_case" where
  "after_dollar rest =
     (let run = takeWhile tag_char rest; digits = takeWhile py_isdigit rest
      in if starts_with (drop (length run) rest) [dollar] \<and> (run = [] \<or> \<not> py_isdigit (hd run))
         then OpensTag run
         else if digits \<noteq> [] then Parameter digits else Lone)"

definition spaced_parameter :: "string \<Rightarrow> string \<Rightarrow> string" where
  "spaced_parameter digits rest =
     dollar # digits @ (if starts_with rest '','' \<or> starts_with rest '')'' then [blank] else [])"

function scan_sql :: "sql_state \<Rightarrow> char option \<Rightarrow> string \<Rightarrow> string option" where
  "scan_sql st prev [] = Some []"
| "scan_sql LineComment prev (c # cs) =
     emit [c] (scan_sql (if c = CHR 0x0D \<or> c = newline then Plain else LineComment) (Some c) cs)"
| "scan_sql (BlockComment depth) prev (c # cs) =
     (if c = CHR ''/'' \<and> starts_with cs ''*''
      then emit ''/*'' (scan_sql (BlockComment (Suc depth)) (Some CHR ''*'') (drop 1 cs))
      else if c = CHR ''*'' \<and> starts_with cs ''/''
      then emit ''*/'' (scan_sql (if depth - 1 = 0 then Plain else BlockComment (depth - 1)) (Some CHR ''/'') (drop 1 cs))
      else emit [c] (scan_sql (BlockComment depth) (Some c) cs))"
| "scan_sql SingleQuote prev (c # cs) =
     (if c = single_quote
      then (if starts_with cs [single_quote]
            then emit [single_quote, single_quote] (scan_sql SingleQuote (Some single_quote) (drop 1 cs))
            else if ambiguous_close prev cs then None
            else emit [c] (scan_sql Plain (Some c) cs))
      else emit [c] (scan_sql SingleQuote (Some c) cs))"
| "scan_sql DoubleQuote prev (c # cs) =
     (if c = double_quote
      then (if starts_with cs [double_quote]
            then emit [double_quote, double_quote] (scan_sql DoubleQuote (Some double_quote) (drop 1 cs))
            else emit [c] (scan_sql Plain (Some c) cs))
      else emit [c] (scan_sql DoubleQuote (Some c) cs))"
| "scan_sql (DollarQuote body) prev (c # cs) =
     (if starts_with (c # cs) (dollar_tag body)
      then emit (dollar_tag body) (scan_sql Plain (Some dollar) (drop (length (dollar_tag body)) (c # cs)))
      else emit [c] (scan_sql (DollarQuote body) (Some c) cs))"
| "scan_sql Plain prev (c # cs) =
     (if c = CHR ''-'' \<and> starts_with cs ''-''
      then emit ''--'' (scan_sql LineComment (Some CHR ''-'') (drop 1 cs))
      else if c = CHR ''/'' \<and> starts_with cs ''*''
      then emit ''/*'' (scan_sql (BlockComment 1) (Some CHR ''*'') (drop 1 cs))
      else if c = single_quote then emit [c] (scan_sql SingleQuote (Some c) cs)
      else if c = double_quote then emit [c] (scan_sql DoubleQuote (Some c) cs)
      else if c = dollar
      then (case after_dollar cs of
              OpensTag body \<Rightarrow>
                emit (dollar_tag body) (scan_sql (DollarQuote body) (Some dollar) (drop (Suc (length body)) cs))
            | Parameter digits \<Rightarrow>
                emit (spaced_parameter digits (drop (length digits) cs))
                  (scan_sql Plain (Some (last digits)) (drop (length digits) cs))
            | Lone \<Rightarrow> emit [c] (scan_sql Plain (Some c) cs))
      else emit [c] (scan_sql Plain (Some c) cs))"
  by pat_completeness auto

lemma parameter_nonempty: "after_dollar cs = Parameter digits \<Longrightarrow> digits \<noteq> []"
  by (auto simp: after_dollar_def Let_def split: if_splits)

termination scan_sql
  by (relation "measure (\<lambda>(_, _, s). length s)") (auto simp: dollar_tag_def)

definition parser_safe_sql :: "string \<Rightarrow> string option" where
  "parser_safe_sql sql = scan_sql Plain None sql"

section \<open>What the scanner writes\<close>

lemma emit_simps [simp]: "emit w None = None" "emit w (Some out) = Some (w @ out)"
  by (simp_all add: emit_def)

lemma emit_Some: "emit w r = Some out \<longleftrightarrow> (\<exists>rest. r = Some rest \<and> out = w @ rest)"
  by (cases r) auto

text \<open>The first character is written as it stands, and plain text does not look back.\<close>

lemma scan_first: "scan_sql st prev s = Some out \<Longrightarrow> take 1 out = take 1 s"
proof (cases s)
  case (Cons c cs)
  assume "scan_sql st prev s = Some out"
  then show ?thesis
    unfolding Cons
    by (cases st) (auto simp: emit_Some dollar_tag_def spaced_parameter_def split: if_splits dollar_case.splits)
qed simp

lemma starts_with_one: "starts_with s [c] \<longleftrightarrow> take 1 s = [c]"
  by (cases s) auto

lemma scan_starts: "scan_sql st prev s = Some out \<Longrightarrow> starts_with out [c] \<longleftrightarrow> starts_with s [c]"
  using scan_first by (simp add: starts_with_one)

lemma scan_plain_prev: "scan_sql Plain prev s = scan_sql Plain prev' s"
  by (cases s) simp_all

lemma ambiguous_first: "take 1 s = take 1 t \<Longrightarrow> ambiguous_close prev s = ambiguous_close prev t"
  by (cases s; cases t) (auto simp: ambiguous_close_def)

lemma scan_plain_ordinary:
  "tag_char c \<Longrightarrow> scan_sql Plain prev (c # cs) = emit [c] (scan_sql Plain prev cs)"
  using tag_char_plain [of c] scan_plain_prev [of "Some c" cs prev] by simp

text \<open>In a dollar string nothing is written differently before the tag comes again.\<close>

lemma scan_dollar_quote:
  "scan_sql (DollarQuote body) prev s = Some out \<Longrightarrow>
   take (length (dollar_tag body)) out = take (length (dollar_tag body)) s"
proof (induction "length s" arbitrary: s out prev rule: less_induct)
  case less
  let ?tag = "dollar_tag body"
  show ?case
  proof (cases s)
    case (Cons c cs)
    show ?thesis
    proof (cases "starts_with s ?tag")
      case True
      then show ?thesis
        using less.prems unfolding Cons by (auto simp: emit_Some elim!: prefixE)
    next
      case False
      then obtain rest where rest: "scan_sql (DollarQuote body) (Some c) cs = Some rest" "out = c # rest"
        using less.prems unfolding Cons by (auto simp: emit_Some)
      then have "take (length ?tag) rest = take (length ?tag) cs"
        using less.hyps [of cs] Cons by simp
      then have "take (length ?tag - 1) rest = take (length ?tag - 1) cs"
        by (metis diff_le_self take_take min.absorb1)
      then show ?thesis
        using rest Cons by (simp add: dollar_tag_def)
    qed
  qed (use less.prems in simp)
qed

text \<open>A run of tag characters is written as it stands.\<close>

lemma scan_plain_run:
  assumes "scan_sql Plain prev s = Some out"
  shows "takeWhile tag_char out = takeWhile tag_char s
     \<and> take 1 (dropWhile tag_char out) = take 1 (dropWhile tag_char s)"
  using assms
proof (induction s arbitrary: prev out)
  case (Cons c cs)
  show ?case
  proof (cases "tag_char c")
    case True
    then obtain rest where "scan_sql Plain prev cs = Some rest" "out = c # rest"
      using Cons.prems unfolding scan_plain_ordinary [OF True] emit_Some by auto
    with Cons.IH True show ?thesis
      by auto
  next
    case False
    then show ?thesis
      using scan_first [OF Cons.prems] by (cases out) auto
  qed
qed simp

text \<open>The case after a dollar is decided by the run of tag characters and the character after it.\<close>

lemma digits_of_run: "takeWhile py_isdigit s = takeWhile py_isdigit (takeWhile tag_char s)"
  by (induction s) (auto simp: digit_tag_char)

lemma after_dollar_cong:
  assumes "takeWhile tag_char t = takeWhile tag_char s" "take 1 (dropWhile tag_char t) = take 1 (dropWhile tag_char s)"
  shows "after_dollar t = after_dollar s"
proof -
  have by_run: "after_dollar u =
      (let run = takeWhile tag_char u; digits = takeWhile py_isdigit run
       in if take 1 (dropWhile tag_char u) = [dollar] \<and> (run = [] \<or> \<not> py_isdigit (hd run)) then OpensTag run
          else if digits \<noteq> [] then Parameter digits else Lone)" for u
    unfolding after_dollar_def starts_with_one dropWhile_eq_drop digits_of_run [of u] Let_def ..
  show ?thesis
    unfolding by_run assms ..
qed

text \<open>
  The output differs from the text by blanks between a digit and a comma or closing parenthesis.
\<close>

inductive respaced :: "string \<Rightarrow> string \<Rightarrow> bool" where
  Same: "respaced s s"
| Copy: "respaced s t \<Longrightarrow> respaced (w @ s) (w @ t)"
| Blank: "py_isdigit d \<Longrightarrow> c = CHR '','' \<or> c = CHR '')'' \<Longrightarrow> respaced (c # s) t \<Longrightarrow> respaced (d # c # s) (d # blank # t)"

lemma respaced_parameter:
  assumes "respaced rest out" "digits \<noteq> []" "list_all py_isdigit digits"
  shows "respaced (dollar # digits @ rest) (spaced_parameter digits rest @ out)"
proof (cases "starts_with rest '','' \<or> starts_with rest '')''")
  case True
  then obtain c cs where rest: "rest = c # cs" "c = CHR '','' \<or> c = CHR '')''"
    by (cases rest) auto
  obtain init d where d: "digits = init @ [d]"
    using assms(2) by (cases digits rule: rev_cases) auto
  then have "respaced (d # c # cs) (d # blank # out)"
    using assms rest by (intro Blank) auto
  then have "respaced ((dollar # init) @ d # c # cs) ((dollar # init) @ d # blank # out)"
    by (rule Copy)
  with True d rest show ?thesis
    by (simp add: spaced_parameter_def)
next
  case False
  then show ?thesis
    using Copy [OF assms(1), of "dollar # digits"] by (simp add: spaced_parameter_def)
qed

lemma after_dollar_parameter:
  "after_dollar cs = Parameter digits \<Longrightarrow> digits = takeWhile py_isdigit cs \<and> digits \<noteq> []"
  by (auto simp: after_dollar_def Let_def split: if_splits)

lemma after_dollar_tag:
  assumes "after_dollar cs = OpensTag body"
  shows "dollar # cs = dollar_tag body @ drop (Suc (length body)) cs"
proof -
  have body: "body = takeWhile tag_char cs" and "starts_with (dropWhile tag_char cs) [dollar]"
    using assms unfolding after_dollar_def dropWhile_eq_drop by (auto simp: Let_def split: if_splits)
  then obtain rest where "dropWhile tag_char cs = dollar # rest"
    by (auto elim!: prefixE)
  then have "cs = body @ dollar # rest"
    using takeWhile_dropWhile_id [of tag_char cs] by (simp add: body)
  then show ?thesis
    by (simp add: dollar_tag_def)
qed

lemma starts_with_drop: "starts_with cs [c] \<Longrightarrow> cs = c # drop 1 cs"
  by (cases cs) auto

lemma respaced_emit:
  "emit w r = Some out \<Longrightarrow> (\<And>t. r = Some t \<Longrightarrow> respaced s t) \<Longrightarrow> respaced (w @ s) out"
  by (auto simp: emit_Some intro: Copy)

lemma respaced_one:
  "emit [c] r = Some out \<Longrightarrow> (\<And>t. r = Some t \<Longrightarrow> respaced cs t) \<Longrightarrow> respaced (c # cs) out"
  using respaced_emit [of "[c]"] by simp

lemma respaced_two:
  "emit [c, d] r = Some out \<Longrightarrow> starts_with cs [d] \<Longrightarrow> (\<And>t. r = Some t \<Longrightarrow> respaced (drop 1 cs) t) \<Longrightarrow>
   respaced (c # cs) out"
  using respaced_emit [of "[c, d]" r out "drop 1 cs"] starts_with_drop [of d cs] by simp

lemma scan_plain_other:
  "\<lbrakk>\<not> (c = CHR ''-'' \<and> starts_with cs ''-''); \<not> (c = CHR ''/'' \<and> starts_with cs ''*''); c \<noteq> single_quote;
    c \<noteq> double_quote; c \<noteq> dollar\<rbrakk> \<Longrightarrow> scan_sql Plain prev (c # cs) = emit [c] (scan_sql Plain (Some c) cs)"
  by (simp only: scan_sql.simps if_False)

theorem scan_respaced: "scan_sql st prev s = Some out \<Longrightarrow> respaced s out"
proof (induction st prev s arbitrary: out rule: scan_sql.induct)
  case (6 body prev c cs)
  show ?case
  proof (cases "starts_with (c # cs) (dollar_tag body)")
    case True
    then have "c # cs = dollar_tag body @ drop (length (dollar_tag body)) (c # cs)"
      by (auto elim: prefixE)
    moreover have "respaced (dollar_tag body @ drop (length (dollar_tag body)) (c # cs)) out"
      using 6 True by (intro respaced_emit) auto
    ultimately show ?thesis
      by simp
  next
    case False
    with 6 show ?thesis
      by (intro respaced_one) auto
  qed
next
  case (7 prev c cs)
  show ?case
  proof (cases "c = dollar")
    case True
    show ?thesis
    proof (cases "after_dollar cs")
      case (OpensTag body)
      then have "respaced (dollar_tag body @ drop (Suc (length body)) cs) out"
        using 7 True by (intro respaced_emit) auto
      then show ?thesis
        using after_dollar_tag [OF OpensTag] True by simp
    next
      case (Parameter digits)
      then have digits: "digits = takeWhile py_isdigit cs" "digits \<noteq> []"
        using after_dollar_parameter by auto
      then have cs: "cs = digits @ drop (length digits) cs"
        by (metis append_take_drop_id takeWhile_eq_take)
      obtain rest where rest: "scan_sql Plain (Some (last digits)) (drop (length digits) cs) = Some rest"
        "out = spaced_parameter digits (drop (length digits) cs) @ rest"
        using "7.prems" True Parameter by (auto simp: emit_Some)
      have "respaced (drop (length digits) cs) rest"
        using 7(6) [OF _ _ _ _ True Parameter rest(1)] True by simp
      then have "respaced (dollar # digits @ drop (length digits) cs) out"
        unfolding rest(2) using digits by (intro respaced_parameter) (auto simp: list_all_iff dest: set_takeWhileD)
      then show ?thesis
        using True cs by simp
    next
      case Lone
      have "emit [c] (scan_sql Plain (Some c) cs) = Some out"
        using "7.prems" True Lone by simp
      then show ?thesis
        by (rule respaced_one) (rule 7(7) [OF _ _ _ _ True Lone], simp_all add: True)
    qed
  next
    case no_dollar: False
    consider "c = CHR ''-'' \<and> starts_with cs ''-''" | "c = CHR ''/'' \<and> starts_with cs ''*''"
      | "c = single_quote" | "c = double_quote"
      | "\<not> (c = CHR ''-'' \<and> starts_with cs ''-'')" "\<not> (c = CHR ''/'' \<and> starts_with cs ''*'')"
        "c \<noteq> single_quote" "c \<noteq> double_quote"
      by blast
    then show ?thesis
    proof cases
      case 1
      then have "emit [c, CHR ''-''] (scan_sql LineComment (Some CHR ''-'') (drop 1 cs)) = Some out"
        using "7.prems" by simp
      then show ?thesis
        by (rule respaced_two) (use 1 7(1) in auto)
    next
      case 2
      then have "emit [c, CHR ''*''] (scan_sql (BlockComment 1) (Some CHR ''*'') (drop 1 cs)) = Some out"
        using "7.prems" by simp
      then show ?thesis
        by (rule respaced_two) (use 2 7(2) in auto)
    next
      case 3
      then have "emit [c] (scan_sql SingleQuote (Some c) cs) = Some out"
        using "7.prems" by simp
      then show ?thesis
        by (rule respaced_one) (use 3 7(3) in auto)
    next
      case 4
      then have "emit [c] (scan_sql DoubleQuote (Some c) cs) = Some out"
        using "7.prems" by simp
      then show ?thesis
        by (rule respaced_one) (use 4 7(4) in auto)
    next
      case 5
      have "emit [c] (scan_sql Plain (Some c) cs) = Some out"
        using "7.prems" unfolding scan_plain_other [OF 5 no_dollar] .
      then show ?thesis
        by (rule respaced_one) (rule 7(8) [OF 5 no_dollar])
    qed
  qed
next
  case (2 prev c cs)
  then show ?case
    by (intro respaced_one) auto
next
  case (3 depth prev c cs)
  then show ?case
    by (auto intro: respaced_one respaced_two split: if_splits)
next
  case (4 prev c cs)
  then show ?case
    by (auto intro: respaced_one respaced_two split: if_splits)
next
  case (5 prev c cs)
  then show ?case
    by (auto intro: respaced_one respaced_two split: if_splits)
qed (simp add: Same)

text \<open>The scanner leaves its own output alone: the blanks never change what a character is part of.\<close>

lemma again_step:
  assumes "emit w r = Some out" and "\<And>t. r = Some t \<Longrightarrow> r' t = Some t"
    and "\<And>t. r = Some t \<Longrightarrow> f (w @ t) = emit w (r' t)"
  shows "f out = Some out"
  using assms by (auto simp: emit_Some)

lemma starts_with_take: "starts_with s p \<longleftrightarrow> take (length p) s = p"
  by (metis append_eq_conv_conj prefix_def)

lemma again_line:
  assumes "\<And>t. scan_sql st' (Some c) cs = Some t \<Longrightarrow> scan_sql st' (Some c) t = Some t"
    and "st' = (if c = CHR 0x0D \<or> c = newline then Plain else LineComment)"
    and "scan_sql LineComment prev (c # cs) = Some out"
  shows "scan_sql LineComment prev out = Some out"
  by (rule again_step [where w = "[c]" and r = "scan_sql st' (Some c) cs" and r' = "\<lambda>t. scan_sql st' (Some c) t"])
     (use assms in auto)

lemma again_block:
  assumes deeper: "\<And>t. c = CHR ''/'' \<Longrightarrow> starts_with cs ''*'' \<Longrightarrow>
      scan_sql (BlockComment (Suc depth)) (Some CHR ''*'') (drop 1 cs) = Some t \<Longrightarrow>
      scan_sql (BlockComment (Suc depth)) (Some CHR ''*'') t = Some t"
    and closes: "\<And>t. c = CHR ''*'' \<Longrightarrow> starts_with cs ''/'' \<Longrightarrow> scan_sql st' (Some CHR ''/'') (drop 1 cs) = Some t \<Longrightarrow>
      scan_sql st' (Some CHR ''/'') t = Some t"
    and st': "st' = (if depth - 1 = 0 then Plain else BlockComment (depth - 1))"
    and stays: "\<And>t. \<lbrakk>\<not> (c = CHR ''/'' \<and> starts_with cs ''*''); \<not> (c = CHR ''*'' \<and> starts_with cs ''/'');
      scan_sql (BlockComment depth) (Some c) cs = Some t\<rbrakk> \<Longrightarrow> scan_sql (BlockComment depth) (Some c) t = Some t"
    and run: "scan_sql (BlockComment depth) prev (c # cs) = Some out"
  shows "scan_sql (BlockComment depth) prev out = Some out"
proof -
  consider (deeper) "c = CHR ''/''" "starts_with cs ''*''" | (closes) "c = CHR ''*''" "starts_with cs ''/''"
    | (stays) "\<not> (c = CHR ''/'' \<and> starts_with cs ''*'')" "\<not> (c = CHR ''*'' \<and> starts_with cs ''/'')"
    by blast
  then show ?thesis
  proof cases
    case deeper
    then have "emit ''/*'' (scan_sql (BlockComment (Suc depth)) (Some CHR ''*'') (drop 1 cs)) = Some out"
      using run by simp
    then show ?thesis
      by (rule again_step) (use assms(1) [OF deeper] in auto)
  next
    case closes
    then have "emit ''*/'' (scan_sql st' (Some CHR ''/'') (drop 1 cs)) = Some out"
      using run st' by simp
    then show ?thesis
      by (rule again_step) (use assms(2) [OF closes] st' in auto)
  next
    case stays
    then have "emit [c] (scan_sql (BlockComment depth) (Some c) cs) = Some out"
      using run by (simp only: scan_sql.simps if_False)
    then show ?thesis
    proof (rule again_step)
      fix t assume t: "scan_sql (BlockComment depth) (Some c) cs = Some t"
      show "scan_sql (BlockComment depth) (Some c) t = Some t"
        using assms(4) [OF stays t] .
      show "scan_sql (BlockComment depth) prev ([c] @ t) = emit [c] (scan_sql (BlockComment depth) (Some c) t)"
        using stays scan_starts [OF t] by (simp only: append.simps scan_sql.simps if_False)
    qed
  qed
qed

lemma after_dollar_digits:
  assumes "digits \<noteq> []" "list_all py_isdigit digits" "tail = [] \<or> \<not> py_isdigit (hd tail)"
  shows "after_dollar (digits @ tail) = Parameter digits"
proof -
  have all: "\<forall>x\<in>set digits. py_isdigit x"
    using assms(2) by (simp add: list_all_iff)
  then have "takeWhile tag_char (digits @ tail) = digits @ takeWhile tag_char tail"
    using digit_tag_char by (simp add: takeWhile_append2)
  moreover have "takeWhile py_isdigit (digits @ tail) = digits @ takeWhile py_isdigit tail"
    using all by (simp add: takeWhile_append2)
  moreover have "takeWhile py_isdigit tail = []"
    using assms(3) by (cases tail) auto
  ultimately show ?thesis
    using assms(1) all by (cases digits) (auto simp: after_dollar_def Let_def)
qed

lemma after_dollar_body:
  assumes "after_dollar cs = OpensTag body"
  shows "after_dollar (body @ dollar # t) = OpensTag body"
proof -
  have body: "body = takeWhile tag_char cs" and tag: "starts_with (dropWhile tag_char cs) [dollar]"
    using assms unfolding after_dollar_def dropWhile_eq_drop by (auto simp: Let_def split: if_splits)
  then have "\<forall>x\<in>set body. tag_char x"
    by (auto dest: set_takeWhileD)
  moreover have "\<not> tag_char dollar"
    using tag_char_plain by blast
  ultimately have "takeWhile tag_char (body @ dollar # t) = body" "dropWhile tag_char (body @ dollar # t) = dollar # t"
    by (simp_all add: takeWhile_append2 dropWhile_append2)
  then have "after_dollar (body @ dollar # t) = after_dollar cs"
    using body tag by (intro after_dollar_cong) (auto simp: starts_with_one)
  with assms show ?thesis
    by simp
qed

lemma again_parameter:
  assumes digits: "after_dollar cs = Parameter digits"
    and t: "scan_sql Plain (Some (last digits)) (drop (length digits) cs) = Some t"
    and again: "scan_sql Plain (Some (last digits)) t = Some t"
  shows "scan_sql Plain prev (spaced_parameter digits (drop (length digits) cs) @ t) =
    Some (spaced_parameter digits (drop (length digits) cs) @ t)"
proof -
  let ?rest = "drop (length digits) cs"
  define tail where "tail = (if starts_with ?rest '','' \<or> starts_with ?rest '')'' then [blank] else []) @ t"
  have d: "digits = takeWhile py_isdigit cs" "digits \<noteq> []"
    using after_dollar_parameter [OF digits] by auto
  have out: "spaced_parameter digits ?rest @ t = dollar # digits @ tail"
    by (simp add: spaced_parameter_def tail_def)
  have "?rest = dropWhile py_isdigit cs"
    by (simp add: d(1) dropWhile_eq_drop)
  then have "?rest = [] \<or> \<not> py_isdigit (hd ?rest)"
    by (metis hd_dropWhile)
  then have "t = [] \<or> \<not> py_isdigit (hd t)"
    using scan_first [OF t] by (cases ?rest; cases t) auto
  then have "tail = [] \<or> \<not> py_isdigit (hd tail)"
    by (auto simp: tail_def char_class_defs)
  moreover have "list_all py_isdigit digits"
    using d(1) by (auto simp: list_all_iff dest: set_takeWhileD)
  ultimately have "after_dollar (digits @ tail) = Parameter digits"
    using d(2) by (intro after_dollar_digits)
  then have "scan_sql Plain prev (dollar # digits @ tail) =
      emit (spaced_parameter digits tail) (scan_sql Plain (Some (last digits)) tail)"
    by simp
  also have "spaced_parameter digits tail = dollar # digits"
    using scan_starts [OF t] by (auto simp: spaced_parameter_def tail_def)
  also have "scan_sql Plain (Some (last digits)) tail = Some tail"
    using again scan_plain_prev [of "Some blank" t "Some (last digits)"] by (auto simp: tail_def)
  finally show ?thesis
    unfolding out by simp
qed

theorem scan_again: "scan_sql st prev s = Some out \<Longrightarrow> scan_sql st prev out = Some out"
proof (induction st prev s arbitrary: out rule: scan_sql.induct)
  case (2 prev c cs)
  show ?case
    by (rule again_line [OF 2(1) refl 2(2)])
next
  case (3 depth prev c cs)
  show ?case
    by (rule again_block [OF _ _ refl _ "3.prems"]) (use "3.IH" in auto)
next
  case (4 prev c cs)
  consider (double) "c = single_quote" "starts_with cs [single_quote]"
    | (close) "c = single_quote" "\<not> starts_with cs [single_quote]" | (inside) "c \<noteq> single_quote"
    by blast
  then show ?case
  proof cases
    case double
    then have "emit [single_quote, single_quote] (scan_sql SingleQuote (Some single_quote) (drop 1 cs)) = Some out"
      using "4.prems" by simp
    then show ?thesis
      by (rule again_step) (use 4(1) [OF double] in auto)
  next
    case close
    then have run: "\<not> ambiguous_close prev cs" "emit [c] (scan_sql Plain (Some c) cs) = Some out"
      using "4.prems" by (auto split: if_splits)
    from run(2) show ?thesis
    proof (rule again_step)
      fix t assume t: "scan_sql Plain (Some c) cs = Some t"
      show "scan_sql Plain (Some c) t = Some t"
        by (rule 4(2) [OF close run(1) t])
      show "scan_sql SingleQuote prev ([c] @ t) = emit [c] (scan_sql Plain (Some c) t)"
        using close run(1) scan_starts [OF t] ambiguous_first [OF scan_first [OF t]] by simp
    qed
  next
    case inside
    then have "emit [c] (scan_sql SingleQuote (Some c) cs) = Some out"
      using "4.prems" by simp
    then show ?thesis
      by (rule again_step) (use 4(3) [OF inside] inside in auto)
  qed
next
  case (5 prev c cs)
  consider (double) "c = double_quote" "starts_with cs [double_quote]"
    | (close) "c = double_quote" "\<not> starts_with cs [double_quote]" | (inside) "c \<noteq> double_quote"
    by blast
  then show ?case
  proof cases
    case double
    then have "emit [double_quote, double_quote] (scan_sql DoubleQuote (Some double_quote) (drop 1 cs)) = Some out"
      using "5.prems" by simp
    then show ?thesis
      by (rule again_step) (use 5(1) [OF double] in auto)
  next
    case close
    then have "emit [c] (scan_sql Plain (Some c) cs) = Some out"
      using "5.prems" by simp
    then show ?thesis
    proof (rule again_step)
      fix t assume t: "scan_sql Plain (Some c) cs = Some t"
      show "scan_sql Plain (Some c) t = Some t"
        by (rule 5(2) [OF close t])
      show "scan_sql DoubleQuote prev ([c] @ t) = emit [c] (scan_sql Plain (Some c) t)"
        using close scan_starts [OF t] by simp
    qed
  next
    case inside
    then have "emit [c] (scan_sql DoubleQuote (Some c) cs) = Some out"
      using "5.prems" by simp
    then show ?thesis
      by (rule again_step) (use 5(3) [OF inside] inside in auto)
  qed
next
  case (6 body prev c cs)
  let ?tag = "dollar_tag body"
  show ?case
  proof (cases "starts_with (c # cs) ?tag")
    case True
    then have "emit ?tag (scan_sql Plain (Some dollar) (drop (length ?tag) (c # cs))) = Some out"
      using "6.prems" by simp
    then show ?thesis
    proof (rule again_step)
      fix t assume "scan_sql Plain (Some dollar) (drop (length ?tag) (c # cs)) = Some t"
      then show "scan_sql Plain (Some dollar) t = Some t"
        by (rule 6(1) [OF True])
      show "scan_sql (DollarQuote body) prev (?tag @ t) = emit ?tag (scan_sql Plain (Some dollar) t)"
        by (simp add: dollar_tag_def)
    qed
  next
    case False
    then have "emit [c] (scan_sql (DollarQuote body) (Some c) cs) = Some out"
      using "6.prems" by simp
    then show ?thesis
    proof (rule again_step)
      fix t assume t: "scan_sql (DollarQuote body) (Some c) cs = Some t"
      show "scan_sql (DollarQuote body) (Some c) t = Some t"
        by (rule 6(2) [OF False t])
      have "scan_sql (DollarQuote body) prev (c # cs) = Some (c # t)"
        using False t by simp
      then have "\<not> starts_with (c # t) ?tag"
        using False scan_dollar_quote by (metis starts_with_take)
      then show "scan_sql (DollarQuote body) prev ([c] @ t) = emit [c] (scan_sql (DollarQuote body) (Some c) t)"
        by simp
    qed
  qed
next
  case (7 prev c cs)
  consider (line) "c = CHR ''-'' \<and> starts_with cs ''-''" | (block) "c = CHR ''/'' \<and> starts_with cs ''*''"
    | (single) "c = single_quote" | (double) "c = double_quote" | (dollar) "c = dollar"
    | (other) "\<not> (c = CHR ''-'' \<and> starts_with cs ''-'')" "\<not> (c = CHR ''/'' \<and> starts_with cs ''*'')"
      "c \<noteq> single_quote" "c \<noteq> double_quote" "c \<noteq> dollar"
    by blast
  then show ?case
  proof cases
    case line
    then have "emit ''--'' (scan_sql LineComment (Some CHR ''-'') (drop 1 cs)) = Some out"
      using "7.prems" by simp
    then show ?thesis
      by (rule again_step) (use line 7(1) in auto)
  next
    case block
    then have "emit ''/*'' (scan_sql (BlockComment 1) (Some CHR ''*'') (drop 1 cs)) = Some out"
      using "7.prems" by simp
    then show ?thesis
      by (rule again_step) (use block 7(2) in auto)
  next
    case single
    then have "emit [c] (scan_sql SingleQuote (Some c) cs) = Some out"
      using "7.prems" by simp
    then show ?thesis
      by (rule again_step) (use single 7(3) in auto)
  next
    case double
    then have "emit [c] (scan_sql DoubleQuote (Some c) cs) = Some out"
      using "7.prems" by simp
    then show ?thesis
      by (rule again_step) (use double 7(4) in auto)
  next
    case dollar
    then have not_before: "\<not> (c = CHR ''-'' \<and> starts_with cs ''-'')" "\<not> (c = CHR ''/'' \<and> starts_with cs ''*'')"
      "c \<noteq> single_quote" "c \<noteq> double_quote"
      by simp_all
    show ?thesis
    proof (cases "after_dollar cs")
      case (OpensTag body)
      then have "emit (dollar_tag body) (scan_sql (DollarQuote body) (Some dollar) (drop (Suc (length body)) cs)) = Some out"
        using "7.prems" dollar by simp
      then show ?thesis
      proof (rule again_step)
        fix t assume "scan_sql (DollarQuote body) (Some dollar) (drop (Suc (length body)) cs) = Some t"
        then show "scan_sql (DollarQuote body) (Some dollar) t = Some t"
          by (rule 7(5) [OF not_before dollar OpensTag])
        show "scan_sql Plain prev (dollar_tag body @ t) = emit (dollar_tag body) (scan_sql (DollarQuote body) (Some dollar) t)"
          using after_dollar_body [OF OpensTag, of t] by (simp add: dollar_tag_def)
      qed
    next
      case (Parameter digits)
      then obtain t where t: "scan_sql Plain (Some (last digits)) (drop (length digits) cs) = Some t"
        "out = spaced_parameter digits (drop (length digits) cs) @ t"
        using "7.prems" dollar by (auto simp: emit_Some)
      show ?thesis
        unfolding t(2) by (rule again_parameter [OF Parameter t(1) 7(6) [OF not_before dollar Parameter t(1)]])
    next
      case Lone
      then have "emit [c] (scan_sql Plain (Some c) cs) = Some out"
        using "7.prems" dollar by simp
      then show ?thesis
      proof (rule again_step)
        fix t assume t: "scan_sql Plain (Some c) cs = Some t"
        show "scan_sql Plain (Some c) t = Some t"
          by (rule 7(7) [OF not_before dollar Lone t])
        have "after_dollar t = Lone"
          using scan_plain_run [OF t] Lone after_dollar_cong by metis
        then show "scan_sql Plain prev ([c] @ t) = emit [c] (scan_sql Plain (Some c) t)"
          using dollar by simp
      qed
    qed
  next
    case other
    then have "emit [c] (scan_sql Plain (Some c) cs) = Some out"
      using "7.prems" unfolding scan_plain_other [OF other] by simp
    then show ?thesis
    proof (rule again_step)
      fix t assume t: "scan_sql Plain (Some c) cs = Some t"
      show "scan_sql Plain (Some c) t = Some t"
        by (rule 7(8) [OF other t])
      show "scan_sql Plain prev ([c] @ t) = emit [c] (scan_sql Plain (Some c) t)"
        unfolding append.simps by (rule scan_plain_other) (use other scan_starts [OF t] in auto)
    qed
  qed
qed simp

text \<open>
  The text the parser sees is the submitted one with blanks inserted, each between a digit and
  a comma or closing parenthesis, and the scanner finds nothing more to separate in it: scanning the text it
  wrote returns that text.
\<close>

theorem parser_text_only_respaced:
  "case parser_safe_sql sql of
     None \<Rightarrow> True
   | Some out \<Rightarrow> respaced sql out \<and> parser_safe_sql out = Some out"
  unfolding parser_safe_sql_def using scan_respaced scan_again by (auto split: option.splits)

end
