(* ===== verification/SqlPolicy.thy ===== *)
theory SqlPolicy
  imports SqlAst SqlLexer "HOL-Library.Product_Lexorder" "HOL-Library.Monad_Syntax"
begin

text \<open>
  \<open>packages/connectors/src/jhin_connectors/supabase/sql_policy.py\<close>: the static policy every statement the
  database tools submit has to pass. The parser, tokenizer and scope analysis are a third-party package and
  parameters here; \<open>None\<close> is the one rejection, \<open>SqlPolicyError("unsupported SQL")\<close>.
\<close>

section \<open>The parser and the metadata\<close>

datatype sql_token = TSemicolon | TStar | TOther

text \<open>
  \<open>tokenize\<close>, \<open>parse_one\<close> (\<open>None\<close> for the errors the code catches), \<open>traverse_scope\<close> (for each scope the number
  of selected sources and whether it has unqualified columns) and \<open>Column.table\<close> (whether it is not empty).
\<close>

record sql_parser =
  sp_tokenize :: "string \<Rightarrow> sql_token list option"
  sp_parse :: "string \<Rightarrow> sql_node option"
  sp_scopes :: "sql_node \<Rightarrow> (nat \<times> bool) list option"
  sp_qualified :: "sql_node \<Rightarrow> bool"

datatype relation_access = Source | Target

record relation_ref =
  rr_schema :: string
  rr_name :: string
  rr_access :: relation_access

record mutation_value_ref =
  mv_parameter_index :: "nat option"
  mv_literal_bytes :: "nat option"

record validated_sql =
  vs_sql_class :: string
  vs_statement_type :: string
  vs_relations :: "relation_ref list"
  vs_mutation_target :: "relation_ref option"
  vs_parameter_indexes :: "nat list"
  vs_mutation_values :: "mutation_value_ref list"
  vs_insert_row_count :: "nat option"

definition MAX_SQL_TOKENS :: nat where
  "MAX_SQL_TOKENS = 1024"

definition MAX_MUTATION_VALUE_BYTES :: nat where
  "MAX_MUTATION_VALUE_BYTES = 1048576"

definition POSTGRES_SYSTEM_COLUMNS :: "string list" where
  "POSTGRES_SYSTEM_COLUMNS = [''ctid'', ''xmin'', ''xmax'', ''cmin'', ''cmax'', ''tableoid'']"

definition SESSION_NAMES :: "string list" where
  "SESSION_NAMES = [''user'', ''current_user'', ''session_user'', ''current_role'', ''system_user'']"

text \<open>\<open>_ALLOWED_CAST_TYPES\<close> and \<open>_ALLOWED_NODE_TYPES\<close>: every name the datatypes list, and no other.\<close>

definition allowed_cast_type :: "data_type \<Rightarrow> bool" where
  "allowed_cast_type t = (case t of T_OTHER _ \<Rightarrow> False | _ \<Rightarrow> True)"

definition allowed_node_type :: "sql_kind \<Rightarrow> bool" where
  "allowed_node_type k = (case k of KOther _ \<Rightarrow> False | _ \<Rightarrow> True)"

definition SET_OPERATIONS :: "sql_kind list" where
  "SET_OPERATIONS = [KUnion, KIntersect, KExcept]"

definition QUERY_TYPES :: "sql_kind list" where
  "QUERY_TYPES = [KSelect, KUnion, KIntersect, KExcept]"

definition MUTATION_TYPES :: "sql_kind list" where
  "MUTATION_TYPES = [KInsert, KUpdate, KDelete, KTruncateTable]"

definition require :: "bool \<Rightarrow> unit option" where
  "require b = (if b then Some () else None)"

section \<open>Identity\<close>

text \<open>
  The chain a node's \<open>parent\<close> attributes give, from the node with this identity up to the root; empty when
  the tree holds no such node.
\<close>

function lineage :: "sql_node \<Rightarrow> nat \<Rightarrow> sql_node list" where
  "lineage n i =
     (if node_id n = i then [n]
      else (case concat (map (\<lambda>c. lineage c i) (children n)) of [] \<Rightarrow> [] | path \<Rightarrow> path @ [n]))"
  by pat_completeness auto

termination lineage
  by (relation "measure (size \<circ> fst)") (auto intro: size_children)

declare lineage.simps [simp del]

definition parent_kind :: "sql_node \<Rightarrow> sql_node \<Rightarrow> sql_kind option" where
  "parent_kind root n = (case lineage root (node_id n) of _ # p # _ \<Rightarrow> Some (kind p) | _ \<Rightarrow> None)"

definition is_descendant :: "sql_node \<Rightarrow> sql_node \<Rightarrow> sql_node \<Rightarrow> bool" where
  "is_descendant root n ancestor \<longleftrightarrow> list_ex (\<lambda>p. node_id p = node_id ancestor) (lineage root (node_id n))"

section \<open>Literals and casts\<close>

definition is_string :: "sql_node \<Rightarrow> bool" where
  "is_string n \<longleftrightarrow> kind n = KLiteral \<and> has_arg n ''is_string''"

definition number_literal :: "sql_arg \<Rightarrow> bool" where
  "number_literal a = (case a of ANode m \<Rightarrow> kind m = KLiteral \<and> \<not> is_string m | _ \<Rightarrow> False)"

definition cast_target_ok :: "sql_node \<Rightarrow> bool" where
  "cast_target_ok n \<longleftrightarrow>
     (case arg n ''to'' of
        ANode t \<Rightarrow> kind t = KDataType
          \<and> (case this_arg t of AType ty \<Rightarrow> allowed_cast_type ty | _ \<Rightarrow> False)
          \<and> \<not> has_arg t ''nested'' \<and> \<not> has_arg t ''expressions''
          \<and> \<not> has_arg t ''kind'' \<and> \<not> has_arg t ''values''
      | _ \<Rightarrow> False)
     \<and> \<not> list_ex (\<lambda>key. arg n key \<noteq> ANone) [''format'', ''safe'', ''action'', ''default'']"

function is_literal_value :: "sql_node \<Rightarrow> bool"
  and valid_cast :: "sql_node \<Rightarrow> bool" where
  "is_literal_value n =
     (if kind n \<in> set [KLiteral, KRawString, KBoolean, KNull] then True
      else if kind n = KNeg then number_literal (this_arg n)
      else if kind n = KCast
      then valid_cast n \<and> (case this_arg n of ANode m \<Rightarrow> is_literal_value m | _ \<Rightarrow> False)
      else False)"
| "valid_cast n \<longleftrightarrow> cast_target_ok n \<and> (case this_arg n of ANode m \<Rightarrow> is_literal_value m | _ \<Rightarrow> False)"
  by pat_completeness auto

termination
  by (relation "measure (case_sum (\<lambda>n. 2 * size n + 1) (\<lambda>n. 2 * size n))") (auto dest: size_this)

declare is_literal_value.simps [simp del] valid_cast.simps [simp del]

section \<open>Identifiers\<close>

definition ascii_fold :: "string \<Rightarrow> string" where
  "ascii_fold s = map (\<lambda>c. if ascii_upper c then char_of (ord c + 32) else c) s"

definition utf8_length :: "string \<Rightarrow> nat" where
  "utf8_length s = sum_list (map (\<lambda>c. if ord c < 128 then 1 else 2) s)"

text \<open>The code points below 256 of a Unicode category C: controls, and the soft hyphen.\<close>

definition category_c :: "char \<Rightarrow> bool" where
  "category_c c \<longleftrightarrow> ord c < 32 \<or> (127 \<le> ord c \<and> ord c < 160) \<or> ord c = 173"

definition identifier_value :: "sql_arg \<Rightarrow> string option" where
  "identifier_value a =
     (case a of
        ANode n \<Rightarrow>
          if kind n \<noteq> KIdentifier then None
          else (case this_arg n of
                  AText v \<Rightarrow>
                    if v = [] \<or> 63 < utf8_length v \<or> list_ex category_c v then None
                    else Some (if has_arg n ''quoted'' then v else ascii_fold v)
                | _ \<Rightarrow> None)
      | _ \<Rightarrow> None)"

section \<open>The whole tree\<close>

definition table_args_ok :: "sql_node \<Rightarrow> bool" where
  "table_args_ok n \<longleftrightarrow>
     \<not> list_ex (\<lambda>(key, v). key \<notin> set [''this'', ''db'', ''catalog'', ''alias'', ''joins''] \<and> arg_truthy v) (node_args n)"

text \<open>A column is not qualified beyond its table, names no system column, and, unquoted, no session function.\<close>

definition column_ok :: "sql_node \<Rightarrow> bool" where
  "column_ok n \<longleftrightarrow> arg n ''db'' = ANone \<and> arg n ''catalog'' = ANone
     \<and> (case identifier_value (this_arg n) of
          None \<Rightarrow> False | Some v \<Rightarrow> ascii_fold v \<notin> set POSTGRES_SYSTEM_COLUMNS)
     \<and> (case this_arg n of
          ANode i \<Rightarrow> kind i = KIdentifier \<and> \<not> has_arg i ''quoted''
            \<longrightarrow> (case this_arg i of AText t \<Rightarrow> ascii_fold t \<notin> set SESSION_NAMES | _ \<Rightarrow> True)
        | _ \<Rightarrow> True)"

definition node_ok :: "sql_node \<Rightarrow> sql_node \<Rightarrow> bool" where
  "node_ok root n \<longleftrightarrow>
     allowed_node_type (kind n)
     \<and> (kind n = KCast \<longrightarrow> valid_cast n)
     \<and> (kind n \<in> set MUTATION_TYPES \<longrightarrow> node_id n = node_id root)
     \<and> (kind n = KDataType \<longrightarrow> parent_kind root n = Some KCast)
     \<and> (kind n = KTable \<longrightarrow> table_args_ok n)
     \<and> (kind n = KColumn \<longrightarrow> column_ok n)
     \<and> (kind n = KIdentifier \<longrightarrow> identifier_value (ANode n) \<noteq> None)
     \<and> (kind n = KIf \<longrightarrow> parent_kind root n = Some KCase)
     \<and> (kind n = KCTE \<longrightarrow> arg n ''materialized'' = ANone \<and> \<not> has_arg n ''key_expressions'')
     \<and> (kind n = KWith \<longrightarrow> arg n ''search'' = ANone \<and> \<not> has_arg n ''udfs'')"

definition validate_whole_tree :: "sql_node \<Rightarrow> sql_node list \<Rightarrow> unit option" where
  "validate_whole_tree root nodes = require (list_all (node_ok root) nodes)"

definition SELECT_FORBIDDEN :: "string list" where
  "SELECT_FORBIDDEN =
     [''into'', ''locks'', ''hint'', ''kind'', ''exclude'', ''operation_modifiers'', ''qualify'', ''windows'',
      ''connect'', ''match'', ''laterals'', ''distribute'', ''sort'', ''cluster'']"

definition shape_ok :: "sql_node \<Rightarrow> bool" where
  "shape_ok n =
     (if kind n = KSelect then expressions n \<noteq> [] \<and> \<not> list_ex (has_arg n) SELECT_FORBIDDEN
      else if kind n \<in> set SET_OPERATIONS
      then \<not> list_ex (has_arg n) [''by_name'', ''side'', ''kind'', ''on'', ''operation_modifiers'']
      else if kind n = KJoin
      then \<not> has_arg n ''method'' \<and> \<not> has_arg n ''global''
        \<and> arg n ''side'' \<in> set [ANone, AText ''LEFT'', AText ''RIGHT'', AText ''FULL'']
        \<and> arg n ''kind'' \<in> set [ANone, AText ''INNER'', AText ''CROSS'']
      else True)"

definition validate_query_shapes :: "sql_node list \<Rightarrow> unit option" where
  "validate_query_shapes nodes = require (list_all shape_ok nodes)"

section \<open>Relations\<close>

text \<open>\<open>_cte_key\<close> and \<open>_table_key\<close>: whether the name is quoted, and the name.\<close>

definition name_key :: "sql_node \<Rightarrow> (bool \<times> string) option" where
  "name_key n =
     (case this_arg n of
        ANode i \<Rightarrow> do { v \<leftarrow> identifier_value (ANode i); Some (has_arg i ''quoted'', v) }
      | _ \<Rightarrow> None)"

definition cte_alias_key :: "sql_node \<Rightarrow> (bool \<times> string) option" where
  "cte_alias_key cte =
     (case arg cte ''alias'' of ANode a \<Rightarrow> if kind a = KTableAlias then name_key a else None | _ \<Rightarrow> None)"

text \<open>Inside one of its own expressions a \<open>WITH\<close> shows those before it, and itself when it is recursive.\<close>

definition eligible_ctes :: "sql_node \<Rightarrow> sql_node \<Rightarrow> sql_node \<Rightarrow> sql_node list" where
  "eligible_ctes root table w =
     (let ctes = expressions w; before = length (takeWhile (\<lambda>cte. \<not> is_descendant root table cte) ctes)
      in if before = length ctes then ctes
         else take (if has_arg w ''recursive'' then before + 1 else before) ctes)"

definition visible_cte_keys :: "sql_node \<Rightarrow> sql_node \<Rightarrow> (bool \<times> string) list option" where
  "visible_cte_keys root table =
     those (map cte_alias_key
       (concat (map (\<lambda>current. case arg current ''with_'' of
                        ANode w \<Rightarrow> if kind w = KWith then eligible_ctes root table w else []
                      | _ \<Rightarrow> [])
         (lineage root (node_id table)))))"

text \<open>\<open>_physical_relation\<close>: \<open>Some None\<close> is a reference to a visible common table expression.\<close>

definition names_visible_cte :: "sql_node \<Rightarrow> sql_node \<Rightarrow> bool option" where
  "names_visible_cte root table =
     do { key \<leftarrow> name_key table; visible \<leftarrow> visible_cte_keys root table; Some (key \<in> set visible) }"

definition physical_relation ::
  "sql_node \<Rightarrow> string \<Rightarrow> sql_node \<Rightarrow> relation_access \<Rightarrow> relation_ref option option" where
  "physical_relation root schema table access =
     (if arg table ''catalog'' \<noteq> ANone then None
      else if arg table ''db'' = ANone
      then (if access = Source \<and> names_visible_cte root table = Some True then Some None else None)
      else do {
        s \<leftarrow> identifier_value (arg table ''db'');
        name \<leftarrow> identifier_value (this_arg table);
        if s \<noteq> schema then None
        else Some (Some \<lparr>rr_schema = s, rr_name = name, rr_access = access\<rparr>) })"

abbreviation same_relation :: "relation_ref \<Rightarrow> relation_ref \<Rightarrow> bool" where
  "same_relation r q \<equiv> rr_schema r = rr_schema q \<and> rr_name r = rr_name q"

text \<open>The dict of the strongest reference to each relation, in insertion order, and the target seen last.\<close>

type_synonym collected = "relation_ref list \<times> relation_ref option"

definition note_relation :: "collected \<Rightarrow> relation_ref \<Rightarrow> collected" where
  "note_relation acc r =
     (case acc of (strongest, target) \<Rightarrow>
        if rr_access r = Target
        then (if list_ex (same_relation r) strongest
              then map (\<lambda>q. if same_relation r q then r else q) strongest else strongest @ [r], Some r)
        else (if list_ex (same_relation r) strongest then strongest else strongest @ [r], target))"

definition table_access :: "nat option \<Rightarrow> sql_node \<Rightarrow> relation_access" where
  "table_access target n = (if target = Some (node_id n) then Target else Source)"

primrec collect_from ::
  "sql_node \<Rightarrow> string \<Rightarrow> nat option \<Rightarrow> sql_node list \<Rightarrow> collected \<Rightarrow> collected option" where
  "collect_from root schema target [] acc = Some acc"
| "collect_from root schema target (n # ns) acc =
     (if kind n \<noteq> KTable then collect_from root schema target ns acc
      else do {
        found \<leftarrow> physical_relation root schema n (table_access target n);
        collect_from root schema target ns (case found of None \<Rightarrow> acc | Some r \<Rightarrow> note_relation acc r) })"

definition access_text :: "relation_access \<Rightarrow> string" where
  "access_text a = (case a of Source \<Rightarrow> ''source'' | Target \<Rightarrow> ''target'')"

definition collect_relations ::
  "sql_node \<Rightarrow> sql_node list \<Rightarrow> nat option \<Rightarrow> string \<Rightarrow> collected option" where
  "collect_relations root nodes target schema =
     do { (strongest, mutation_target) \<leftarrow> collect_from root schema target nodes ([], None);
          Some (sort_key (\<lambda>r. (rr_schema r, rr_name r, access_text (rr_access r))) strongest, mutation_target) }"

text \<open>\<open>_validate_unqualified_columns\<close>\<close>

definition assigned_columns :: "sql_node \<Rightarrow> nat list" where
  "assigned_columns root =
     (if kind root = KUpdate
      then concat (map (\<lambda>a. case this_arg a of
                              ANode c \<Rightarrow> if kind a = KEQ \<and> kind c = KColumn then [node_id c] else []
                            | _ \<Rightarrow> []) (expressions root))
      else [])"

definition validate_unqualified_columns ::
  "sql_parser \<Rightarrow> sql_node \<Rightarrow> sql_node list \<Rightarrow> unit option" where
  "validate_unqualified_columns P root nodes =
     (if kind root \<in> set QUERY_TYPES
      then do { scopes \<leftarrow> sp_scopes P root;
                require (\<not> list_ex (\<lambda>(sources, unqualified). 1 < sources \<and> unqualified) scopes) }
      else if length (filter (\<lambda>n. kind n = KTable) nodes) \<le> 1 then Some ()
      else require (\<not> list_ex (\<lambda>n. kind n = KColumn \<and> \<not> sp_qualified P n
                                  \<and> node_id n \<notin> set (assigned_columns root)) nodes))"

section \<open>Values\<close>

definition parameter_index :: "sql_node \<Rightarrow> nat option" where
  "parameter_index p =
     (case this_arg p of
        ANode v \<Rightarrow>
          if kind v \<noteq> KLiteral \<or> is_string v then None
          else (case this_arg v of
                  AText raw \<Rightarrow>
                    if 2 < length raw \<or> raw = [] \<or> \<not> list_all ascii_digit raw then None
                    else (let index = foldl (\<lambda>n c. 10 * n + (ord c - 48)) 0 raw
                          in if 1 \<le> index \<and> index \<le> 50 then Some index else None)
                | _ \<Rightarrow> None)
      | _ \<Rightarrow> None)"

function literal_bytes :: "sql_node \<Rightarrow> nat option" where
  "literal_bytes n =
     (if kind n = KCast
      then (if valid_cast n then (case this_arg n of ANode m \<Rightarrow> literal_bytes m | _ \<Rightarrow> None) else None)
      else if kind n = KNeg
      then (case this_arg n of
              ANode m \<Rightarrow> if kind m = KLiteral \<and> \<not> is_string m
                then (case this_arg m of AText t \<Rightarrow> Some (utf8_length (CHR ''-'' # t)) | _ \<Rightarrow> None) else None
            | _ \<Rightarrow> None)
      else if kind n = KLiteral \<or> kind n = KRawString
      then (case this_arg n of AText t \<Rightarrow> Some (utf8_length t) | _ \<Rightarrow> None)
      else if kind n = KBoolean then Some (if arg_truthy (this_arg n) then 4 else 5)
      else if kind n = KNull then Some 4
      else None)"
  by pat_completeness auto

termination literal_bytes
  by (relation "measure size") (auto dest: size_this)

declare literal_bytes.simps [simp del]

definition mutation_value :: "sql_node \<Rightarrow> mutation_value_ref option" where
  "mutation_value n =
     (if kind n = KParameter
      then do { i \<leftarrow> parameter_index n; Some \<lparr>mv_parameter_index = Some i, mv_literal_bytes = None\<rparr> }
      else if \<not> is_literal_value n then None
      else do { b \<leftarrow> literal_bytes n; Some \<lparr>mv_parameter_index = None, mv_literal_bytes = Some b\<rparr> })"

definition literal_total :: "mutation_value_ref list \<Rightarrow> nat" where
  "literal_total mvs = sum_list (map (\<lambda>v. case mv_literal_bytes v of None \<Rightarrow> 0 | Some b \<Rightarrow> b) mvs)"

section \<open>Mutations\<close>

definition table_from_insert :: "sql_node \<Rightarrow> (sql_node \<times> sql_node list) option" where
  "table_from_insert root =
     (case this_arg root of
        ANode dest \<Rightarrow>
          if kind dest \<noteq> KSchema then None
          else (case this_arg dest of
                  ANode table \<Rightarrow>
                    let columns = expressions dest
                    in if kind table \<noteq> KTable \<or> arg table ''alias'' \<noteq> ANone \<or> columns = []
                          \<or> \<not> list_all (\<lambda>c. kind c = KIdentifier) columns
                       then None
                       else do { names \<leftarrow> those (map (\<lambda>c. identifier_value (ANode c)) columns);
                                 if distinct names then Some (table, columns) else None }
                | _ \<Rightarrow> None)
      | _ \<Rightarrow> None)"

definition insert_row :: "nat \<Rightarrow> sql_node \<Rightarrow> mutation_value_ref list option" where
  "insert_row width row =
     (if kind row \<noteq> KTuple \<or> length (expressions row) \<noteq> width then None
      else those (map mutation_value (expressions row)))"

definition validate_insert :: "sql_node \<Rightarrow> (sql_node \<times> mutation_value_ref list \<times> nat) option" where
  "validate_insert root =
     (if list_ex (\<lambda>(key, v). key \<notin> set [''this'', ''expression''] \<and> arg_truthy v) (node_args root) then None
      else do {
        (table, columns) \<leftarrow> table_from_insert root;
        (case arg root ''expression'' of
           ANode vals \<Rightarrow>
             if kind vals \<noteq> KValues \<or> arg vals ''alias'' \<noteq> ANone \<or> expressions vals = [] then None
             else do {
               rows \<leftarrow> those (map (insert_row (length columns)) (expressions vals));
               (if literal_total (concat rows) > MAX_MUTATION_VALUE_BYTES then None
                else Some (table, concat rows, length (expressions vals))) }
         | _ \<Rightarrow> None) })"

definition update_assignment ::
  "sql_parser \<Rightarrow> sql_node \<Rightarrow> (string \<times> mutation_value_ref) option" where
  "update_assignment P a =
     (case this_arg a of
        ANode column \<Rightarrow>
          if kind a \<noteq> KEQ \<or> kind column \<noteq> KColumn then None
          else if sp_qualified P column \<or> has_arg column ''db'' \<or> has_arg column ''catalog'' then None
          else do {
            name \<leftarrow> identifier_value (this_arg column);
            v \<leftarrow> (case arg a ''expression'' of ANode e \<Rightarrow> mutation_value e | _ \<Rightarrow> None);
            Some (name, v) }
      | _ \<Rightarrow> None)"

definition validate_update :: "sql_parser \<Rightarrow> sql_node \<Rightarrow> (sql_node \<times> mutation_value_ref list) option" where
  "validate_update P root =
     (case this_arg root of
        ANode table \<Rightarrow>
          if kind table \<noteq> KTable then None
          else if list_ex (has_arg root) [''returning'', ''order'', ''limit'', ''with_'', ''hint''] then None
          else if expressions root = [] then None
          else do {
            pairs \<leftarrow> those (map (update_assignment P) (expressions root));
            (if \<not> distinct (map fst pairs) then None
             else if literal_total (map snd pairs) > MAX_MUTATION_VALUE_BYTES then None
             else Some (table, map snd pairs)) }
      | _ \<Rightarrow> None)"

definition validate_delete :: "sql_node \<Rightarrow> sql_node option" where
  "validate_delete root =
     (case this_arg root of
        ANode table \<Rightarrow>
          if kind table \<noteq> KTable
             \<or> list_ex (has_arg root) [''tables'', ''cluster'', ''returning'', ''order'', ''limit'', ''with_''] then None
          else Some table
      | _ \<Rightarrow> None)"

definition validate_truncate :: "sql_node \<Rightarrow> sql_token list \<Rightarrow> sql_node option" where
  "validate_truncate root tokens =
     (case expressions root of
        [table] \<Rightarrow>
          if kind table \<noteq> KTable then None
          else if list_ex (\<lambda>t. t = TStar) tokens then None
          else if has_arg root ''is_database'' \<or> has_arg root ''exists'' then None
          else if arg root ''cluster'' \<noteq> ANone \<or> arg root ''partition'' \<noteq> ANone then None
          else if arg root ''identity'' \<notin> set [ANone, AText ''CONTINUE''] then None
          else if arg root ''option'' \<notin> set [ANone, AText ''RESTRICT''] then None
          else Some table
      | _ \<Rightarrow> None)"

section \<open>The policy\<close>

definition tokenize_sql :: "sql_parser \<Rightarrow> string \<Rightarrow> (string \<times> sql_token list) option" where
  "tokenize_sql P sql =
     do { text \<leftarrow> parser_safe_sql sql;
          tokens \<leftarrow> sp_tokenize P text;
          require (tokens \<noteq> [] \<and> length tokens \<le> MAX_SQL_TOKENS);
          require (\<not> list_ex (\<lambda>t. t = TSemicolon) tokens);
          Some (text, tokens) }"

definition root_class :: "sql_kind \<Rightarrow> (string \<times> string) option" where
  "root_class k =
     (if k \<in> set QUERY_TYPES then Some (''read'', ''select'')
      else if k = KInsert then Some (''write'', ''insert'')
      else if k = KUpdate then Some (''destructive'', ''update'')
      else if k = KDelete then Some (''destructive'', ''delete'')
      else if k = KTruncateTable then Some (''destructive'', ''truncate'')
      else None)"

definition classify_root :: "sql_node \<Rightarrow> string \<Rightarrow> (string \<times> string) option" where
  "classify_root root expected =
     do { (sql_class, statement) \<leftarrow> root_class (kind root);
          if sql_class \<noteq> expected then None else Some (sql_class, statement) }"

text \<open>\<open>[a-z_][a-z0-9_$]{0,62}\<close>\<close>

definition schema_name_ok :: "string \<Rightarrow> bool" where
  "schema_name_ok s =
     (case s of [] \<Rightarrow> False
      | c # cs \<Rightarrow> (ascii_lower c \<or> c = CHR ''_'') \<and> length cs \<le> 62
          \<and> list_all (\<lambda>d. ascii_lower d \<or> ascii_digit d \<or> d = CHR ''_'' \<or> d = dollar) cs)"

text \<open>The identity of the table a mutation targets, its values, and the rows an insert brings.\<close>

type_synonym mutation_parts = "nat option \<times> mutation_value_ref list \<times> nat option"

definition validate_mutation ::
  "sql_parser \<Rightarrow> sql_node \<Rightarrow> sql_token list \<Rightarrow> mutation_parts option" where
  "validate_mutation P root tokens =
     (if kind root = KInsert
      then do { (table, vs, rows) \<leftarrow> validate_insert root; Some (Some (node_id table), vs, Some rows) }
      else if kind root = KUpdate
      then do { (table, vs) \<leftarrow> validate_update P root; Some (Some (node_id table), vs, None) }
      else if kind root = KDelete then do { table \<leftarrow> validate_delete root; Some (Some (node_id table), [], None) }
      else if kind root = KTruncateTable
      then do { table \<leftarrow> validate_truncate root tokens; Some (Some (node_id table), [], None) }
      else Some (None, [], None))"

definition parameter_indexes :: "sql_node list \<Rightarrow> nat list option" where
  "parameter_indexes nodes =
     do { found \<leftarrow> those (map parameter_index (filter (\<lambda>n. kind n = KParameter) nodes));
          let indexes = sort (remdups found);
          if indexes \<noteq> [] \<and> indexes \<noteq> [1..<last indexes + 1] then None else Some indexes }"

definition classify_and_validate_sql ::
  "sql_parser \<Rightarrow> string \<Rightarrow> string \<Rightarrow> string \<Rightarrow> validated_sql option" where
  "classify_and_validate_sql P sql expected schema =
     do { require (expected \<in> set [''read'', ''write'', ''destructive'']);
          require (schema_name_ok schema);
          (text, tokens) \<leftarrow> tokenize_sql P sql;
          root \<leftarrow> sp_parse P text;
          nodes \<leftarrow> walk_bounded root;
          (sql_class, statement) \<leftarrow> classify_root root expected;
          validate_whole_tree root nodes;
          validate_query_shapes nodes;
          (target, vs, rows) \<leftarrow> validate_mutation P root tokens;
          (relations, mutation_target) \<leftarrow> collect_relations root nodes target schema;
          validate_unqualified_columns P root nodes;
          indexes \<leftarrow> parameter_indexes nodes;
          Some \<lparr>vs_sql_class = sql_class, vs_statement_type = statement, vs_relations = relations,
                vs_mutation_target = mutation_target, vs_parameter_indexes = indexes,
                vs_mutation_values = vs, vs_insert_row_count = rows\<rparr> }"

end
