(* ===== verification/SqlPolicyLaws.thy ===== *)
theory SqlPolicyLaws
  imports SqlPolicy
begin

text \<open>
  What an accepted statement is: its tree holds only the listed classes and no mutation below the root, each
  of its tables is a visible common table expression or one of the relations handed to the executor, and its
  parameters and literals are within the bounds.
\<close>

section \<open>Running the policy\<close>

lemma require_Some [simp]: "require b = Some u \<longleftrightarrow> b"
  by (cases u) (simp add: require_def)

lemma bind_Some: "Option.bind r f = Some y \<longleftrightarrow> (\<exists>x. r = Some x \<and> f x = Some y)"
  by (cases r) auto

lemma node_Some: "(case a of ANode m \<Rightarrow> f m | _ \<Rightarrow> None) = Some y \<longleftrightarrow> (\<exists>m. a = ANode m \<and> f m = Some y)"
  by (cases a) auto

lemma text_Some: "(case a of AText t \<Rightarrow> f t | _ \<Rightarrow> None) = Some y \<longleftrightarrow> (\<exists>t. a = AText t \<and> f t = Some y)"
  by (cases a) auto

lemma unless_Some: "(if b then None else r) = Some y \<longleftrightarrow> \<not> b \<and> r = Some y"
  by simp

lemma pair_Some: "(case p of (a, b) \<Rightarrow> f a b) = Some y \<longleftrightarrow> f (fst p) (snd p) = Some y"
  by (cases p) simp

lemmas accept_simps = bind_Some node_Some text_Some unless_Some pair_Some

text \<open>The tree the policy reads.\<close>

definition parsed :: "sql_parser \<Rightarrow> string \<Rightarrow> sql_node option" where
  "parsed P sql = do { text \<leftarrow> parser_safe_sql sql; sp_parse P text }"

text \<open>Two nodes of a tree are two objects.\<close>

definition distinct_nodes :: "sql_node \<Rightarrow> bool" where
  "distinct_nodes root \<longleftrightarrow> distinct (map node_id (preorder root))"

lemma accepted:
  assumes "classify_and_validate_sql P sql expected schema = Some v" and "parsed P sql = Some root"
  obtains tokens statement target vs rows where
    "walk_bounded root = Some (preorder root)"
    "length (preorder root) \<le> MAX_SQL_AST_NODES" "depth root \<le> MAX_SQL_AST_DEPTH"
    "root_class (kind root) = Some (expected, statement)"
    "list_all (node_ok root) (preorder root)" "list_all shape_ok (preorder root)"
    "validate_mutation P root tokens = Some (target, vs, rows)"
    "collect_relations root (preorder root) target schema = Some (vs_relations v, vs_mutation_target v)"
    "parameter_indexes (preorder root) = Some (vs_parameter_indexes v)"
    "vs_sql_class v = expected" "vs_mutation_values v = vs" "vs_insert_row_count v = rows"
proof -
  from assms(1) obtain source tokens tree nodes statement cls target vs rows rels mt idx where steps:
    "parser_safe_sql sql = Some source" "sp_parse P source = Some tree" "walk_bounded tree = Some nodes"
    "classify_root tree expected = Some (cls, statement)" "validate_whole_tree tree nodes = Some ()"
    "validate_query_shapes nodes = Some ()" "validate_mutation P tree tokens = Some (target, vs, rows)"
    "collect_relations tree nodes target schema = Some (rels, mt)" "parameter_indexes nodes = Some idx"
    "v = \<lparr>vs_sql_class = cls, vs_statement_type = statement, vs_relations = rels, vs_mutation_target = mt,
          vs_parameter_indexes = idx, vs_mutation_values = vs, vs_insert_row_count = rows\<rparr>"
    unfolding classify_and_validate_sql_def
    by (auto simp: bind_Some tokenize_sql_def split: prod.splits)
  then have "tree = root"
    using assms(2) by (simp add: parsed_def)
  moreover from steps(3) have "nodes = preorder tree" "length (preorder tree) \<le> MAX_SQL_AST_NODES"
    "depth tree \<le> MAX_SQL_AST_DEPTH"
    by (auto simp: walk_is_reading split: if_splits)
  moreover from steps(4) have "root_class (kind tree) = Some (expected, statement)" "cls = expected"
    by (auto simp: classify_root_def bind_Some split: if_splits prod.splits)
  ultimately show thesis
    using steps by (intro that [of statement tokens target vs rows]) (simp_all add: validate_whole_tree_def validate_query_shapes_def)
qed

lemma accepted_parsed:
  assumes "classify_and_validate_sql P sql expected schema = Some v"
  shows "\<exists>root. parsed P sql = Some root"
proof -
  from assms obtain source tree where "parser_safe_sql sql = Some source" "sp_parse P source = Some tree"
    unfolding classify_and_validate_sql_def by (auto simp: bind_Some tokenize_sql_def split: prod.splits)
  then show ?thesis
    by (simp add: parsed_def)
qed

lemma root_in_preorder [simp]: "n \<in> set (preorder n)"
  by (simp add: preorder.simps [of n])

lemma child_in_preorder: "c \<in> set (children n) \<Longrightarrow> n \<in> set (preorder root) \<Longrightarrow> c \<in> set (preorder root)"
proof (induction root rule: preorder.induct)
  case (1 root)
  show ?case
  proof (cases "n = root")
    case True
    then show ?thesis
      using 1(2) by (force simp: preorder.simps [of root])
  next
    case False
    then obtain r where "r \<in> set (children root)" "n \<in> set (preorder r)"
      using 1(3) by (auto simp: preorder.simps [of root])
    with 1 show ?thesis
      unfolding preorder.simps [of root] by auto
  qed
qed

lemma same_node:
  assumes "distinct_nodes root" "n \<in> set (preorder root)" "m \<in> set (preorder root)" "node_id n = node_id m"
  shows "n = m"
  using assms by (auto simp: distinct_nodes_def distinct_map dest: inj_onD)

section \<open>The listed classes\<close>

lemma query_no_mutation:
  "root_class k = Some (''read'', statement) \<Longrightarrow> k \<notin> set MUTATION_TYPES"
  by (auto simp: root_class_def QUERY_TYPES_def MUTATION_TYPES_def split: if_splits)

text \<open>
  C38 (safety) An accepted statement has at most \<open>MAX_SQL_AST_NODES\<close> nodes, every one of a listed class, and is
  of the class the caller asked for; a node that changes data is the statement itself, so that one accepted as
  a read changes nothing, in a common table expression or subquery neither. The parser gives every node of a
  tree an identity of its own.
\<close>

theorem accepted_sql_is_listed:
  assumes "classify_and_validate_sql P sql expected schema = Some v" and "parsed P sql = Some root"
    and "distinct_nodes root"
  shows "length (preorder root) \<le> MAX_SQL_AST_NODES
    \<and> list_all (\<lambda>n. allowed_node_type (kind n)) (preorder root)
    \<and> vs_sql_class v = expected
    \<and> filter (\<lambda>n. kind n \<in> set MUTATION_TYPES) (preorder root) = (if expected = ''read'' then [] else [root])"
proof (intro conjI)
  from accepted [OF assms(1,2)] obtain statement where
    size: "length (preorder root) \<le> MAX_SQL_AST_NODES" "vs_sql_class v = expected"
    and cls: "root_class (kind root) = Some (expected, statement)"
    and ok: "list_all (node_ok root) (preorder root)"
    by metis
  show "length (preorder root) \<le> MAX_SQL_AST_NODES" "vs_sql_class v = expected"
    by (rule size)+
  show "list_all (\<lambda>n. allowed_node_type (kind n)) (preorder root)"
    using ok by (simp add: list_all_iff node_ok_def)
  have below: "kind n \<notin> set MUTATION_TYPES" if "n \<in> set (concat (map preorder (children root)))" for n
  proof
    assume "kind n \<in> set MUTATION_TYPES"
    moreover have "n \<in> set (preorder root)"
      using that by (simp add: preorder.simps [of root])
    ultimately have "node_id n = node_id root"
      using ok by (simp add: list_all_iff node_ok_def)
    moreover have "node_id root \<notin> node_id ` set (concat (map preorder (children root)))"
      using assms(3) by (simp add: distinct_nodes_def preorder.simps [of root])
    ultimately show False
      using that by (metis image_eqI)
  qed
  have "kind root \<in> set MUTATION_TYPES \<longleftrightarrow> expected \<noteq> ''read''"
    using cls by (auto simp: root_class_def QUERY_TYPES_def MUTATION_TYPES_def split: if_splits)
  moreover have "filter (\<lambda>n. kind n \<in> set MUTATION_TYPES) (concat (map preorder (children root))) = []"
    using below unfolding filter_empty_conv by blast
  ultimately show "filter (\<lambda>n. kind n \<in> set MUTATION_TYPES) (preorder root)
      = (if expected = ''read'' then [] else [root])"
    by (simp add: preorder.simps [of root])
qed

section \<open>Relations\<close>

text \<open>
  What the collection keeps: relations of the one schema, each once, the target among them and no other one
  marked as a target.
\<close>

definition collecting :: "string \<Rightarrow> collected \<Rightarrow> bool" where
  "collecting schema acc \<longleftrightarrow>
     list_all (\<lambda>r. rr_schema r = schema) (fst acc)
     \<and> distinct (map rr_name (fst acc))
     \<and> {r \<in> set (fst acc). rr_access r = Target} = set_option (snd acc)"

text \<open>A table that reads a visible common table expression, or one of these relations by its own schema and name.\<close>

definition table_covered :: "sql_node \<Rightarrow> string \<Rightarrow> relation_ref list \<Rightarrow> sql_node \<Rightarrow> bool" where
  "table_covered root schema relations n \<longleftrightarrow>
     (if arg n ''db'' = ANone then names_visible_cte root n = Some True
      else identifier_value (arg n ''db'') = Some schema
        \<and> identifier_value (this_arg n) \<in> Some ` rr_name ` set relations)
     \<and> arg n ''catalog'' = ANone"

lemma collectingD:
  "collecting schema acc \<Longrightarrow> r \<in> set (fst acc) \<Longrightarrow> rr_schema r = schema"
  by (auto simp: collecting_def list_all_iff)

lemma replaced_names:
  "list_all (\<lambda>q. rr_schema q = s) xs \<Longrightarrow>
   map rr_name (map (\<lambda>q. if same_relation r q then r else q) xs) = map rr_name xs"
  by (auto simp: list_all_iff)

lemma note_relation_names:
  "collecting schema acc \<Longrightarrow> rr_schema r = schema \<Longrightarrow>
   rr_name ` set (fst (note_relation acc r)) = insert (rr_name r) (rr_name ` set (fst acc))"
proof -
  assume acc: "collecting schema acc" and r: "rr_schema r = schema"
  obtain strongest target where [simp]: "acc = (strongest, target)"
    by (cases acc)
  have schema: "list_all (\<lambda>q. rr_schema q = schema) strongest"
    using acc by (simp add: collecting_def)
  have "set (map rr_name (map (\<lambda>q. if same_relation r q then r else q) strongest)) = set (map rr_name strongest)"
    by (simp only: replaced_names [OF schema])
  then have "rr_name ` (\<lambda>q. if same_relation r q then r else q) ` set strongest = rr_name ` set strongest"
    by (simp only: set_map)
  moreover have "list_ex (same_relation r) strongest \<longleftrightarrow> rr_name r \<in> rr_name ` set strongest"
    using schema r by (auto simp: list_all_iff list_ex_iff)
  ultimately show ?thesis
    by (auto simp: note_relation_def simp del: if_image_distrib)
qed

lemma note_relation_collecting:
  assumes "collecting schema acc" "rr_schema r = schema" "rr_access r = Target \<Longrightarrow> snd acc = None"
  shows "collecting schema (note_relation acc r)"
proof -
  obtain strongest target where acc: "acc = (strongest, target)"
    by (cases acc)
  have schema: "list_all (\<lambda>q. rr_schema q = schema) strongest" and names: "distinct (map rr_name strongest)"
    and marked: "{q \<in> set strongest. rr_access q = Target} = set_option target"
    using assms(1) by (simp_all add: acc collecting_def)
  show ?thesis
  proof (cases "rr_access r = Target")
    case False
    then show ?thesis
      using assms(2) schema names marked
      by (auto simp: acc note_relation_def collecting_def list_all_iff list_ex_iff)
  next
    case True
    then have "target = None"
      using assms(3) by (simp add: acc)
    then have none: "\<forall>q \<in> set strongest. rr_access q \<noteq> Target"
      using marked by auto
    show ?thesis
    proof (cases "list_ex (same_relation r) strongest")
      case False
      then show ?thesis
        using True none assms(2) schema names
        by (auto simp: acc note_relation_def collecting_def list_all_iff list_ex_iff)
    next
      case present: True
      have kept: "distinct (map rr_name (map (\<lambda>q. if same_relation r q then r else q) strongest))"
        using names by (simp only: replaced_names [OF schema])
      from present have "{q \<in> set (map (\<lambda>q. if same_relation r q then r else q) strongest). rr_access q = Target} = {r}"
        using True none by (auto simp: list_ex_iff image_iff)
      then show ?thesis
        using True present assms(2) schema names
        using kept by (simp add: acc note_relation_def collecting_def del: map_map set_map)
           (auto simp: list_all_iff)
    qed
  qed
qed

lemma note_relation_target:
  "snd (note_relation acc r) = (if rr_access r = Target then Some r else snd acc)"
  by (cases acc) (simp add: note_relation_def)

lemma physical_relation_Some:
  "physical_relation root schema n access = Some found \<longleftrightarrow>
     arg n ''catalog'' = ANone
     \<and> (if arg n ''db'' = ANone then access = Source \<and> names_visible_cte root n = Some True \<and> found = None
        else identifier_value (arg n ''db'') = Some schema
          \<and> (\<exists>name. identifier_value (this_arg n) = Some name
              \<and> found = Some \<lparr>rr_schema = schema, rr_name = name, rr_access = access\<rparr>))"
  by (auto simp: physical_relation_def bind_Some)

lemma collect_from_spec:
  "collect_from root schema target ns acc = Some acc' \<Longrightarrow> collecting schema acc \<Longrightarrow> distinct (map node_id ns)
   \<Longrightarrow> (snd acc \<noteq> None \<Longrightarrow> target \<notin> (\<lambda>n. Some (node_id n)) ` set ns)
   \<Longrightarrow> collecting schema acc' \<and> rr_name ` set (fst acc) \<subseteq> rr_name ` set (fst acc')
     \<and> (\<forall>n \<in> set ns. kind n = KTable \<longrightarrow> table_covered root schema (fst acc') n)
     \<and> (snd acc' \<noteq> None \<longleftrightarrow> snd acc \<noteq> None \<or> (\<exists>n \<in> set ns. kind n = KTable \<and> target = Some (node_id n)))"
proof (induction ns arbitrary: acc)
  case (Cons n ns)
  show ?case
  proof (cases "kind n = KTable")
    case False
    then show ?thesis
      using Cons.prems Cons.IH [of acc] by auto
  next
    case True
    let ?access = "table_access target n"
    obtain found where found: "physical_relation root schema n ?access = Some found"
      and rest: "collect_from root schema target ns
        (case found of None \<Rightarrow> acc | Some r \<Rightarrow> note_relation acc r) = Some acc'"
      using Cons.prems(1) True by (auto simp: bind_Some)
    show ?thesis
    proof (cases found)
      case None
      then have "?access = Source" "table_covered root schema rels n" for rels
        using found by (auto simp: physical_relation_Some table_covered_def split: if_splits)
      then show ?thesis
        using Cons.prems Cons.IH [OF rest] None by (auto simp: table_access_def split: if_splits)
    next
      case (Some r)
      then have r: "rr_schema r = schema" "rr_access r = ?access" "identifier_value (this_arg n) = Some (rr_name r)"
        and n: "arg n ''db'' \<noteq> ANone" "identifier_value (arg n ''db'') = Some schema" "arg n ''catalog'' = ANone"
        using found by (auto simp: physical_relation_Some split: if_splits)
      have fresh: "snd acc = None" if "?access = Target"
        using that Cons.prems(4) by (rule_tac ccontr) (auto simp: table_access_def split: if_splits)
      have apart: "snd (note_relation acc r) \<noteq> None \<Longrightarrow> target \<notin> (\<lambda>n. Some (node_id n)) ` set ns"
        using Cons.prems(3,4) r(2) by (auto simp: note_relation_target table_access_def split: if_splits)
      have next_ok: "collecting schema (note_relation acc r)"
        using Cons.prems(2) r fresh by (intro note_relation_collecting) auto
      note IH = Cons.IH [OF rest [unfolded Some option.case], OF next_ok]
      have later: "collecting schema acc'" "rr_name ` set (fst (note_relation acc r)) \<subseteq> rr_name ` set (fst acc')"
        "\<forall>n \<in> set ns. kind n = KTable \<longrightarrow> table_covered root schema (fst acc') n"
        "snd acc' \<noteq> None \<longleftrightarrow> snd (note_relation acc r) \<noteq> None
          \<or> (\<exists>n \<in> set ns. kind n = KTable \<and> target = Some (node_id n))"
        using IH Cons.prems(3) apart by auto
      then have "rr_name ` set (fst acc) \<subseteq> rr_name ` set (fst acc')" "rr_name r \<in> rr_name ` set (fst acc')"
        using note_relation_names [OF Cons.prems(2) r(1)] by auto
      moreover have "table_covered root schema (fst acc') n"
        using calculation(2) r(3) n by (simp add: table_covered_def)
      ultimately show ?thesis
        using later True r(2) by (auto simp: note_relation_target table_access_def split: if_splits)
    qed
  qed
qed simp

lemma expression_child: "e \<in> set (expressions n) \<Longrightarrow> e \<in> set (children n)"
proof -
  assume "e \<in> set (expressions n)"
  then obtain ns where "arg n ''expressions'' = AList ns" "e \<in> set ns"
    by (cases "arg n ''expressions''") (auto simp: expressions_def)
  moreover from this(1) have "(''expressions'', AList ns) \<in> set (node_args n)"
    by (auto simp: arg_def split: option.splits dest: map_of_SomeD)
  ultimately show ?thesis
    by (force simp: children_def)
qed

lemmas expression_in_preorder = child_in_preorder [OF expression_child]
lemmas arg_in_preorder = child_in_preorder [OF arg_child]

lemma mutation_target_table:
  assumes "validate_mutation P root tokens = Some (target, vs, rows)"
  shows "case target of None \<Rightarrow> kind root \<notin> set MUTATION_TYPES
    | Some i \<Rightarrow> kind root \<in> set MUTATION_TYPES
        \<and> (\<exists>t \<in> set (preorder root). kind t = KTable \<and> node_id t = i)"
proof -
  consider (insert) "kind root = KInsert" | (update) "kind root = KUpdate" | (delete) "kind root = KDelete"
    | (truncate) "kind root = KTruncateTable" | (query) "kind root \<notin> set MUTATION_TYPES"
    by (auto simp: MUTATION_TYPES_def)
  then show ?thesis
  proof cases
    case insert
    then obtain table columns where target: "target = Some (node_id table)"
      and "table_from_insert root = Some (table, columns)"
      using assms by (auto simp: validate_mutation_def validate_insert_def accept_simps)
    then obtain dest where "this_arg root = ANode dest" "this_arg dest = ANode table" "kind table = KTable"
      by (auto simp: table_from_insert_def Let_def accept_simps split: if_splits)
    then show ?thesis
      using target insert arg_in_preorder [of dest _ table root] arg_in_preorder [of root _ dest root]
      by (auto simp: MUTATION_TYPES_def)
  next
    case update
    then obtain table where "target = Some (node_id table)" "this_arg root = ANode table" "kind table = KTable"
      using assms by (auto simp: validate_mutation_def validate_update_def accept_simps)
    then show ?thesis
      using update arg_in_preorder [of root _ table root] by (auto simp: MUTATION_TYPES_def)
  next
    case delete
    then obtain table where "target = Some (node_id table)" "this_arg root = ANode table" "kind table = KTable"
      using assms by (auto simp: validate_mutation_def validate_delete_def accept_simps)
    then show ?thesis
      using delete arg_in_preorder [of root _ table root] by (auto simp: MUTATION_TYPES_def)
  next
    case truncate
    then obtain table where "target = Some (node_id table)" "expressions root = [table]" "kind table = KTable"
      using assms by (auto simp: validate_mutation_def validate_truncate_def bind_Some split: if_splits list.splits)
    then show ?thesis
      using truncate expression_in_preorder [of table root root] by (auto simp: MUTATION_TYPES_def)
  next
    case query
    then show ?thesis
      using assms by (auto simp: validate_mutation_def MUTATION_TYPES_def)
  qed
qed

text \<open>
  C39 (safety) Every table of an accepted statement reads a common table expression visible where it stands, or
  is named by the requested schema and one of the relations handed to the executor. Those relations are all of
  the requested schema, each once, and the only one marked as a target is the mutation's, which exactly the
  statements other than reads have.
\<close>

theorem accepted_sql_relations:
  assumes "classify_and_validate_sql P sql expected schema = Some v" and "parsed P sql = Some root"
    and "distinct_nodes root"
  shows "list_all (table_covered root schema (vs_relations v)) (filter (\<lambda>n. kind n = KTable) (preorder root))
    \<and> list_all (\<lambda>r. rr_schema r = schema) (vs_relations v)
    \<and> distinct (map rr_name (vs_relations v))
    \<and> {r \<in> set (vs_relations v). rr_access r = Target} = set_option (vs_mutation_target v)
    \<and> (vs_mutation_target v = None \<longleftrightarrow> expected = ''read'')"
proof -
  from accepted [OF assms(1,2)] obtain tokens statement target vs rows where
    cls: "root_class (kind root) = Some (expected, statement)"
    and mutation: "validate_mutation P root tokens = Some (target, vs, rows)"
    and "collect_relations root (preorder root) target schema = Some (vs_relations v, vs_mutation_target v)"
    by metis
  then obtain strongest where run: "collect_from root schema target (preorder root) ([], None)
      = Some (strongest, vs_mutation_target v)"
    and sorted: "vs_relations v = sort_key (\<lambda>r. (rr_schema r, rr_name r, access_text (rr_access r))) strongest"
    by (auto simp: collect_relations_def bind_Some)
  have "collecting schema ([], None)"
    by (simp add: collecting_def)
  from collect_from_spec [OF run this] assms(3) have spec: "collecting schema (strongest, vs_mutation_target v)"
    "\<forall>n \<in> set (preorder root). kind n = KTable \<longrightarrow> table_covered root schema strongest n"
    "vs_mutation_target v \<noteq> None
      \<longleftrightarrow> (\<exists>n \<in> set (preorder root). kind n = KTable \<and> target = Some (node_id n))"
    by (simp_all add: distinct_nodes_def)
  have same: "set (vs_relations v) = set strongest"
    by (simp add: sorted)
  have "distinct (map rr_name (vs_relations v))"
    using spec(1) by (simp add: sorted collecting_def distinct_map)
  moreover have "vs_mutation_target v = None \<longleftrightarrow> kind root \<notin> set MUTATION_TYPES"
    using spec(3) mutation_target_table [OF mutation] by (auto split: option.splits)
  moreover have "kind root \<notin> set MUTATION_TYPES \<longleftrightarrow> expected = ''read''"
    using cls by (auto simp: root_class_def QUERY_TYPES_def MUTATION_TYPES_def split: if_splits)
  ultimately show ?thesis
    using spec(1,2) same by (simp add: collecting_def list_all_iff table_covered_def)
qed

section \<open>Parameters and values\<close>

lemma those_Some: "those xs = Some ys \<longleftrightarrow> xs = map Some ys"
  by (induction xs arbitrary: ys) (auto split: option.splits)

lemma parameter_index_bounds: "parameter_index p = Some i \<Longrightarrow> 1 \<le> i \<and> i \<le> 50"
  by (auto simp: parameter_index_def Let_def accept_simps split: if_splits)

text \<open>A value is a literal, or a parameter of the statement.\<close>

definition value_of_tree :: "sql_node \<Rightarrow> mutation_value_ref \<Rightarrow> bool" where
  "value_of_tree root m \<longleftrightarrow> (\<exists>e \<in> set (preorder root). mutation_value e = Some m)"

lemma mutation_values_in_tree:
  assumes "validate_mutation P root tokens = Some (target, vs, rows)"
  shows "list_all (value_of_tree root) vs \<and> literal_total vs \<le> MAX_MUTATION_VALUE_BYTES"
proof -
  consider (insert) "kind root = KInsert" | (update) "kind root = KUpdate" | (other) "vs = []"
    using assms by (auto simp: validate_mutation_def accept_simps split: if_splits)
  then show ?thesis
  proof cases
    case insert
    then obtain vals columns vss where vals: "arg root ''expression'' = ANode vals"
      and vss: "those (map (insert_row columns) (expressions vals)) = Some vss" and vs: "vs = concat vss"
      and small: "literal_total vs \<le> MAX_MUTATION_VALUE_BYTES"
      using assms by (auto simp: validate_mutation_def validate_insert_def accept_simps)
    have "value_of_tree root m" if m: "m \<in> set vs" for m
    proof -
      from m obtain ms where ms: "m \<in> set ms" "Some ms \<in> set (map Some vss)"
        by (auto simp: vs)
      moreover have "map (insert_row columns) (expressions vals) = map Some vss"
        using vss by (simp add: those_Some)
      ultimately have "Some ms \<in> set (map (insert_row columns) (expressions vals))"
        by simp
      then obtain row where row: "row \<in> set (expressions vals)" "insert_row columns row = Some ms"
        by auto
      then have "map mutation_value (expressions row) = map Some ms"
        by (auto simp: insert_row_def those_Some unless_Some)
      then have "Some m \<in> set (map mutation_value (expressions row))"
        using ms(1) by simp
      then obtain e where e: "e \<in> set (expressions row)" "mutation_value e = Some m"
        by auto
      have "row \<in> set (preorder root)"
        using row(1) arg_in_preorder [OF vals root_in_preorder] by (rule expression_in_preorder)
      with e show ?thesis
        unfolding value_of_tree_def using expression_in_preorder by blast
    qed
    with small show ?thesis
      by (simp add: list_all_iff)
  next
    case update
    then obtain pairs where pairs: "those (map (update_assignment P) (expressions root)) = Some pairs"
      and vs: "vs = map snd pairs" and small: "literal_total vs \<le> MAX_MUTATION_VALUE_BYTES"
      using assms by (auto simp: validate_mutation_def validate_update_def accept_simps)
    have "value_of_tree root m" if "m \<in> set vs" for m
    proof -
      from that obtain name where "(name, m) \<in> set pairs"
        by (auto simp: vs)
      then have "Some (name, m) \<in> set (map Some pairs)"
        by simp
      moreover have "map (update_assignment P) (expressions root) = map Some pairs"
        using pairs by (simp add: those_Some)
      ultimately have "Some (name, m) \<in> set (map (update_assignment P) (expressions root))"
        by simp
      then obtain a where a: "a \<in> set (expressions root)" "update_assignment P a = Some (name, m)"
        by auto
      then obtain e where "arg a ''expression'' = ANode e" "mutation_value e = Some m"
        by (auto simp: update_assignment_def accept_simps)
      then show ?thesis
        unfolding value_of_tree_def
        using arg_in_preorder expression_in_preorder [OF a(1) root_in_preorder] by blast
    qed
    with small show ?thesis
      by (simp add: list_all_iff)
  qed (simp add: literal_total_def)
qed

lemma parameter_indexes_spec:
  assumes "parameter_indexes nodes = Some indexes"
  shows "indexes = [1..<length indexes + 1] \<and> length indexes \<le> 50
    \<and> (\<forall>n \<in> set nodes. kind n = KParameter \<longrightarrow> parameter_index n \<in> Some ` set indexes)"
proof -
  from assms obtain found where found: "map parameter_index (filter (\<lambda>n. kind n = KParameter) nodes) = map Some found"
    and indexes: "indexes = sort (remdups found)" and run: "indexes = [] \<or> indexes = [1..<last indexes + 1]"
    by (auto simp: parameter_indexes_def Let_def accept_simps those_Some)
  have member: "parameter_index n \<in> Some ` set indexes" if "n \<in> set nodes" "kind n = KParameter" for n
  proof -
    have "parameter_index n \<in> set (map Some found)"
      using that by (simp flip: found)
    then show ?thesis
      by (simp add: indexes)
  qed
  have "i \<le> 50" if "i \<in> set indexes" for i
  proof -
    have "Some i \<in> set (map Some found)"
      using that by (simp add: indexes)
    then show ?thesis
      unfolding found [symmetric] using parameter_index_bounds by force
  qed
  then have "last indexes \<le> 50" if "indexes \<noteq> []"
    using that by simp
  moreover have "length indexes = last indexes" if "indexes \<noteq> []"
    using that run by (metis add_diff_cancel_right' length_upt)
  ultimately show ?thesis
    using run member by (cases "indexes = []") auto
qed

text \<open>
  C40 (bounds) The parameters of an accepted statement are numbered from 1 on without a gap, at most 50; the
  literals its mutation writes are at most \<open>MAX_MUTATION_VALUE_BYTES\<close> together, and each value it writes is
  either one of those parameters or a literal.
\<close>

theorem accepted_sql_values:
  "case classify_and_validate_sql P sql expected schema of
     None \<Rightarrow> True
   | Some v \<Rightarrow>
       vs_parameter_indexes v = [1..<length (vs_parameter_indexes v) + 1]
       \<and> length (vs_parameter_indexes v) \<le> 50
       \<and> literal_total (vs_mutation_values v) \<le> MAX_MUTATION_VALUE_BYTES
       \<and> list_all (\<lambda>m. case mv_parameter_index m of
             None \<Rightarrow> mv_literal_bytes m \<noteq> None
           | Some i \<Rightarrow> mv_literal_bytes m = None \<and> i \<in> set (vs_parameter_indexes v)) (vs_mutation_values v)"
proof (cases "classify_and_validate_sql P sql expected schema")
  case (Some v)
  then obtain root where "parsed P sql = Some root"
    using accepted_parsed by blast
  from accepted [OF Some this] obtain tokens target vs rows where mutation: "validate_mutation P root tokens = Some (target, vs, rows)"
    and indexes: "parameter_indexes (preorder root) = Some (vs_parameter_indexes v)"
    and vs: "vs_mutation_values v = vs"
    by metis
  have "case mv_parameter_index m of None \<Rightarrow> mv_literal_bytes m \<noteq> None
      | Some i \<Rightarrow> mv_literal_bytes m = None \<and> i \<in> set (vs_parameter_indexes v)" if "value_of_tree root m" for m
  proof -
    from that obtain e where "e \<in> set (preorder root)" "mutation_value e = Some m"
      by (auto simp: value_of_tree_def)
    then show ?thesis
      using parameter_indexes_spec [OF indexes]
      by (auto simp: mutation_value_def bind_Some image_iff split: if_splits)
  qed
  then show ?thesis
    using Some vs parameter_indexes_spec [OF indexes] mutation_values_in_tree [OF mutation]
    by (auto simp: list_all_iff)
qed simp

section \<open>A statement that passes\<close>

text \<open>\<open>DELETE FROM public.t WHERE id = $1\<close>, as a parser gives it.\<close>

definition name_node :: "nat \<Rightarrow> string \<Rightarrow> sql_node" where
  "name_node i name = Node i KIdentifier [(''this'', AText name)]"

definition delete_tree :: sql_node where
  "delete_tree =
     Node 0 KDelete
       [(''this'', ANode (Node 1 KTable [(''this'', ANode (name_node 2 ''t'')), (''db'', ANode (name_node 3 ''public''))])),
        (''where'', ANode (Node 4 KWhere [(''this'', ANode (Node 5 KEQ
           [(''this'', ANode (Node 6 KColumn [(''this'', ANode (name_node 7 ''id''))])),
            (''expression'', ANode (Node 8 KParameter [(''this'', ANode (Node 9 KLiteral [(''this'', AText ''1'')]))]))]))]))]"

definition delete_parser :: sql_parser where
  "delete_parser = \<lparr>sp_tokenize = (\<lambda>_. Some [TOther]), sp_parse = (\<lambda>_. Some delete_tree),
                    sp_scopes = (\<lambda>_. None), sp_qualified = (\<lambda>_. False)\<rparr>"

definition delete_metadata :: validated_sql where
  "delete_metadata =
     (let t = \<lparr>rr_schema = ''public'', rr_name = ''t'', rr_access = Target\<rparr>
      in \<lparr>vs_sql_class = ''destructive'', vs_statement_type = ''delete'', vs_relations = [t],
          vs_mutation_target = Some t, vs_parameter_indexes = [1], vs_mutation_values = [],
          vs_insert_row_count = None\<rparr>)"

text \<open>Each step of the policy, evaluated.\<close>

abbreviation delete_sql :: string where
  "delete_sql \<equiv> ''delete from public.t where id = $1''"

lemma delete_safe: "parser_safe_sql delete_sql = Some delete_sql"
  by code_simp

lemma delete_walk: "walk_bounded delete_tree = Some (preorder delete_tree)"
  by code_simp

lemma delete_tree_ok: "list_all (node_ok delete_tree) (preorder delete_tree)"
  by code_simp

lemma delete_shapes: "list_all shape_ok (preorder delete_tree)"
  by code_simp

lemma delete_root: "classify_root delete_tree ''destructive'' = Some (''destructive'', ''delete'')"
  by code_simp

lemma delete_mutation: "validate_mutation delete_parser delete_tree [TOther] = Some (Some 1, [], None)"
  by code_simp

lemma delete_relations:
  "collect_relations delete_tree (preorder delete_tree) (Some 1) ''public''
     = Some (vs_relations delete_metadata, vs_mutation_target delete_metadata)"
  by code_simp

lemma delete_columns: "validate_unqualified_columns delete_parser delete_tree (preorder delete_tree) = Some ()"
  by code_simp

lemma delete_parameters: "parameter_indexes (preorder delete_tree) = Some [1]"
  by code_simp

lemma delete_schema: "schema_name_ok ''public''"
  by code_simp

lemma delete_passes:
  "classify_and_validate_sql delete_parser delete_sql ''destructive'' ''public'' = Some delete_metadata"
proof -
  have "tokenize_sql delete_parser delete_sql = Some (delete_sql, [TOther])"
    using delete_safe by (simp add: tokenize_sql_def delete_parser_def require_def MAX_SQL_TOKENS_def)
  moreover have "sp_parse delete_parser delete_sql = Some delete_tree"
    by (simp add: delete_parser_def)
  ultimately show ?thesis
    using delete_walk delete_tree_ok delete_shapes delete_root delete_mutation delete_relations delete_columns
      delete_parameters delete_schema
    by (simp add: classify_and_validate_sql_def validate_whole_tree_def validate_query_shapes_def require_def
        delete_metadata_def Let_def)
qed

lemma delete_parsed:
  "parsed delete_parser delete_sql = Some delete_tree"
  using delete_safe by (simp add: parsed_def delete_parser_def)

lemma delete_distinct: "distinct_nodes delete_tree"
  by code_simp

theorem accepted_sql_is_listed_witness:
  "length (preorder delete_tree) \<le> MAX_SQL_AST_NODES
   \<and> filter (\<lambda>n. kind n \<in> set MUTATION_TYPES) (preorder delete_tree) = [delete_tree]"
  using accepted_sql_is_listed [OF delete_passes delete_parsed delete_distinct] by simp

theorem accepted_sql_relations_witness:
  "list_all (table_covered delete_tree ''public'' (vs_relations delete_metadata))
     (filter (\<lambda>n. kind n = KTable) (preorder delete_tree))"
  using accepted_sql_relations [OF delete_passes delete_parsed delete_distinct] by simp

end
