(* ===== verification/SandboxJobs.thy ===== *)
theory SandboxJobs
  imports Prelude Complex_Main
begin

text \<open>
  \<open>services/sandbox_runner/src/jhin_sandbox_runner/jobs.py\<close>: the runner's memory of the jobs it was given
  (\<open>JobManager.submit\<close> and what it forgets), the table of workspace holders, and the task of one job, cut
  at its \<open>await\<close>s. Docker's answers are arguments of the steps. Moments are microseconds on the runner's
  clock; \<open>env\<close>, what a container prints and the tails of the error texts are left out.
\<close>

section \<open>Requests, settings and records\<close>

text \<open>
  \<open>rq_prior_dispatch\<close> is \<open>None\<close> when \<open>prior_dispatch_at\<close> was not stated, \<open>Some None\<close> when it is empty, and
  \<open>Some (Some t)\<close> for a stamp.
\<close>

record job_request =
  rq_job_id :: string
  rq_invocation_id :: string
  rq_prior_dispatch :: "int option option"
  rq_image :: string
  rq_workspace_key :: string
  rq_secret_env :: "string dict"
  rq_cpu_limit :: "rat option"
  rq_memory_mb :: "int option"
  rq_pids_limit :: "int option"
  rq_timeout_seconds :: "int option"

record runner_settings =
  st_default_image :: string
  st_max_cpus :: rat
  st_max_memory_mb :: int
  st_max_pids :: int
  st_max_timeout_seconds :: int
  st_output_retained_jobs :: int
  st_record_retention :: int

text \<open>The states a job's own task waits in: the workspace queue, then the answers of Docker.\<close>

datatype job_phase =
    PQueue            \<comment> \<open>not begun, or asleep between two tries for the workspace\<close>
  | PPrepare          \<comment> \<open>\<open>_ensure_workspace_volume\<close>\<close>
  | PCreate           \<comment> \<open>\<open>containers.create\<close>\<close>
  | PStart            \<comment> \<open>\<open>container.start\<close>\<close>
  | PWait             \<comment> \<open>\<open>_wait\<close> and the reading of its end\<close>
  | PDelete string    \<comment> \<open>\<open>container.delete\<close>, with the status to report\<close>
  | PDone             \<comment> \<open>\<open>record.task.done()\<close>\<close>

record job_record =
  jr_request :: job_request
  jr_image :: string
  jr_timeout_seconds :: int
  jr_created_at :: int
  jr_status :: string
  jr_has_container :: bool
  jr_exit_code :: "int option"
  jr_started_at :: "int option"
  jr_container_started_at :: "int option"
  jr_finished_at :: "int option"
  jr_output_retained :: bool
  jr_error :: "string option"
  jr_cancel_requested :: bool
  jr_workspace_size :: "(int \<times> bool) option"
  jr_phase :: job_phase

text \<open>\<open>_Dispatch\<close>: an invocation's dispatch, and when it was accepted.\<close>

record dispatch =
  dp_job_id :: string
  dp_at :: int

text \<open>
  The manager's own attributes. \<open>jm_effects\<close> is added to state what ran: the job ids whose task left the
  workspace queue, oldest first.
\<close>

record job_manager =
  jm_jobs :: "job_record dict"
  jm_holders :: "string \<rightharpoonup> string"
  jm_invocations :: "dispatch dict"
  jm_serving_since :: int
  jm_forgotten_through :: "int option"
  jm_effects :: "(string \<times> string) list"

datatype submit_error =
    JobExists
  | MustStatePriorDispatch
  | OutcomeNoLongerHeld
  | ClockDisagreement
  | Unaccountable bool    \<comment> \<open>whether what it fell outside is a deliberate forgetting\<close>
  | LimitExceeded string

text \<open>\<open>_INCARNATION_SKEW\<close>: five seconds.\<close>

definition INCARNATION_SKEW :: int where
  "INCARNATION_SKEW = 5000000"

section \<open>Limits\<close>

definition bounded_limit :: "string \<Rightarrow> 'a::linorder option \<Rightarrow> 'a \<Rightarrow> submit_error + 'a" where
  "bounded_limit name requested cap =
     (let v = (case requested of Some x \<Rightarrow> x | None \<Rightarrow> cap)
      in if cap < v then Inl (LimitExceeded name) else Inr v)"

text \<open>\<open>resolve_limits\<close>: a request above a cap is an error, never clamped.\<close>

definition resolve_limits ::
  "job_request \<Rightarrow> runner_settings \<Rightarrow> submit_error + (rat \<times> int \<times> int \<times> int)" where
  "resolve_limits rq st =
     (case bounded_limit ''cpu_limit'' (rq_cpu_limit rq) (st_max_cpus st) of
        Inl e \<Rightarrow> Inl e
      | Inr cpu \<Rightarrow>
     (case bounded_limit ''memory_mb'' (rq_memory_mb rq) (st_max_memory_mb st) of
        Inl e \<Rightarrow> Inl e
      | Inr memory \<Rightarrow>
     (case bounded_limit ''pids_limit'' (rq_pids_limit rq) (st_max_pids st) of
        Inl e \<Rightarrow> Inl e
      | Inr pids \<Rightarrow>
     (case bounded_limit ''timeout_seconds'' (rq_timeout_seconds rq) (st_max_timeout_seconds st) of
        Inl e \<Rightarrow> Inl e
      | Inr secs \<Rightarrow> Inr (cpu, memory, pids, secs)))))"

section \<open>What the runner remembers\<close>

definition remembering_since :: "job_manager \<Rightarrow> int" where
  "remembering_since m =
     (case jm_forgotten_through m of
        None \<Rightarrow> jm_serving_since m
      | Some t \<Rightarrow> max (jm_serving_since m) t)"

definition task_done :: "job_record \<Rightarrow> bool" where
  "task_done r \<longleftrightarrow> jr_phase r = PDone"

text \<open>\<open>_forgettable\<close>\<close>

definition forgettable :: "runner_settings \<Rightarrow> int \<Rightarrow> job_record \<Rightarrow> bool" where
  "forgettable st now r =
     (case jr_finished_at r of
        None \<Rightarrow> False
      | Some finished \<Rightarrow>
          task_done r
          \<and> max finished (jr_created_at r + jr_timeout_seconds r * 1000000) + max (st_record_retention st) 0 \<le> now)"

text \<open>\<open>release_output\<close>: the streams, the redactor and the plaintext secrets go.\<close>

definition release_output :: "job_record \<Rightarrow> job_record" where
  "release_output r =
     r\<lparr>jr_output_retained := False, jr_request := (jr_request r)\<lparr>rq_secret_env := []\<rparr>\<rparr>"

definition surplus_output :: "runner_settings \<Rightarrow> job_record dict \<Rightarrow> string list" where
  "surplus_output st jobs =
     (let keep = nat (max (st_output_retained_jobs st) 0);
          finished = filter (\<lambda>(i, r). jr_output_retained r \<and> jr_finished_at r \<noteq> None \<and> task_done r) jobs;
          ordered = sort_key (\<lambda>(i, r). case jr_finished_at r of Some t \<Rightarrow> t | None \<Rightarrow> 0) finished
      in map fst (take (length finished - keep) ordered))"

definition release_surplus_output :: "runner_settings \<Rightarrow> job_manager \<Rightarrow> job_manager" where
  "release_surplus_output st m =
     (let surplus = surplus_output st (jm_jobs m)
      in m\<lparr>jm_jobs := map (\<lambda>(i, r). (i, if i \<in> set surplus then release_output r else r)) (jm_jobs m)\<rparr>)"

definition dict_del :: "'v dict \<Rightarrow> string \<Rightarrow> 'v dict" where
  "dict_del d k = filter (\<lambda>(k', v). k' \<noteq> k) d"

text \<open>One round of the loop of \<open>_forget_expired\<close>: the record and its ledger entry go together.\<close>

definition forget_job :: "string \<Rightarrow> job_record \<Rightarrow> job_manager \<Rightarrow> job_manager" where
  "forget_job i r m =
     (let m = m\<lparr>jm_jobs := dict_del (jm_jobs m) i\<rparr>; invocation = rq_invocation_id (jr_request r)
      in case (if invocation = [] then None else dict_get (jm_invocations m) invocation) of
           None \<Rightarrow> m
         | Some d \<Rightarrow>
             if dp_job_id d \<noteq> i then m
             else m\<lparr>jm_invocations := dict_del (jm_invocations m) invocation,
                    jm_forgotten_through := Some (case jm_forgotten_through m of
                        None \<Rightarrow> dp_at d | Some t \<Rightarrow> max t (dp_at d))\<rparr>)"

definition forget_expired :: "runner_settings \<Rightarrow> int \<Rightarrow> job_manager \<Rightarrow> job_manager" where
  "forget_expired st now m =
     (let m = release_surplus_output st m
      in fold (\<lambda>(i, r) acc. if forgettable st now r then forget_job i r acc else acc) (jm_jobs m) m)"

text \<open>\<open>_forget_dispatch\<close>: a dispatch that ran nothing is taken out, and nothing else is forgotten.\<close>

definition forget_dispatch :: "job_request \<Rightarrow> job_manager \<Rightarrow> job_manager" where
  "forget_dispatch rq m =
     (case (if rq_invocation_id rq = [] then None else dict_get (jm_invocations m) (rq_invocation_id rq)) of
        None \<Rightarrow> m
      | Some d \<Rightarrow>
          if dp_job_id d = rq_job_id rq
          then m\<lparr>jm_invocations := dict_del (jm_invocations m) (rq_invocation_id rq)\<rparr>
          else m)"

section \<open>Submitting\<close>

definition new_record :: "runner_settings \<Rightarrow> int \<Rightarrow> job_request \<Rightarrow> int \<Rightarrow> job_record" where
  "new_record st now rq secs =
     \<lparr>jr_request = rq, jr_image = (if rq_image rq = [] then st_default_image st else rq_image rq),
      jr_timeout_seconds = secs, jr_created_at = now, jr_status = ''queued'', jr_has_container = False,
      jr_exit_code = None, jr_started_at = None, jr_container_started_at = None, jr_finished_at = None,
      jr_output_retained = True, jr_error = None, jr_cancel_requested = False, jr_workspace_size = None,
      jr_phase = PQueue\<rparr>"

definition accept_job ::
  "runner_settings \<Rightarrow> int \<Rightarrow> job_request \<Rightarrow> job_manager \<Rightarrow> (submit_error + job_record) \<times> job_manager" where
  "accept_job st now rq m =
     (case resolve_limits rq st of
        Inl e \<Rightarrow> (Inl e, m)
      | Inr (cpu, memory, pids, secs) \<Rightarrow>
          let r = new_record st now rq secs
          in (Inr r,
              m\<lparr>jm_jobs := dict_set (jm_jobs m) (rq_job_id rq) r,
                jm_invocations :=
                  (if rq_invocation_id rq = [] then jm_invocations m
                   else dict_set (jm_invocations m) (rq_invocation_id rq)
                          \<lparr>dp_job_id = rq_job_id rq, dp_at = now\<rparr>)\<rparr>))"

text \<open>Whether an earlier dispatch the caller states is one this runner can answer for.\<close>

definition prior_problem :: "int \<Rightarrow> int option \<Rightarrow> job_manager \<Rightarrow> submit_error option" where
  "prior_problem now prior m =
     (case prior of
        None \<Rightarrow> None
      | Some p \<Rightarrow>
          if now + INCARNATION_SKEW < p then Some ClockDisagreement
          else if p \<le> remembering_since m + INCARNATION_SKEW
          then Some (Unaccountable (case jm_forgotten_through m of
                       None \<Rightarrow> False | Some t \<Rightarrow> jm_serving_since m < t))
          else None)"

definition submit ::
  "runner_settings \<Rightarrow> int \<Rightarrow> job_request \<Rightarrow> job_manager \<Rightarrow> (submit_error + job_record) \<times> job_manager" where
  "submit st now rq m =
     (if dict_get (jm_jobs m) (rq_job_id rq) \<noteq> None then (Inl JobExists, m)
      else let m = forget_expired st now m
        in if rq_invocation_id rq = [] then accept_job st now rq m
           else (case dict_get (jm_invocations m) (rq_invocation_id rq) of
                   Some d \<Rightarrow>
                     (case dict_get (jm_jobs m) (dp_job_id d) of
                        Some r \<Rightarrow> (Inr r, m)
                      | None \<Rightarrow> (Inl OutcomeNoLongerHeld, m))
                 | None \<Rightarrow>
                     (case rq_prior_dispatch rq of
                        None \<Rightarrow> (Inl MustStatePriorDispatch, m)
                      | Some prior \<Rightarrow>
                          (case prior_problem now prior m of
                             Some e \<Rightarrow> (Inl e, m)
                           | None \<Rightarrow> accept_job st now rq m))))"

section \<open>The workspace table\<close>

text \<open>\<open>_workspace_is_free\<close> and \<open>_release_workspace\<close>\<close>

definition workspace_is_free :: "(string \<rightharpoonup> string) \<Rightarrow> string \<Rightarrow> string \<Rightarrow> bool" where
  "workspace_is_free holders key i = (case holders key of None \<Rightarrow> True | Some h \<Rightarrow> h = i)"

definition take_workspace :: "string \<Rightarrow> string \<Rightarrow> (string \<rightharpoonup> string) \<Rightarrow> (string \<rightharpoonup> string)" where
  "take_workspace key i holders = holders(key \<mapsto> i)"

definition release_workspace :: "string \<Rightarrow> string \<Rightarrow> (string \<rightharpoonup> string) \<Rightarrow> (string \<rightharpoonup> string)" where
  "release_workspace key i holders = (if holders key = Some i then holders(key := None) else holders)"

section \<open>The task of a job\<close>

definition put_job :: "string \<Rightarrow> job_record \<Rightarrow> job_manager \<Rightarrow> job_manager" where
  "put_job i r m = m\<lparr>jm_jobs := dict_set (jm_jobs m) i r\<rparr>"

text \<open>The end of \<open>_run\<close>, once no container is left to remove.\<close>

definition finish_job :: "string \<Rightarrow> int \<Rightarrow> string \<Rightarrow> bool \<Rightarrow> job_record \<Rightarrow> job_manager \<Rightarrow> job_manager" where
  "finish_job i now status held r m =
     (let m = (if held then m\<lparr>jm_holders := release_workspace (rq_workspace_key (jr_request r)) i (jm_holders m)\<rparr> else m)
      in put_job i (r\<lparr>jr_finished_at := Some now, jr_status := status, jr_phase := PDone\<rparr>) m)"

definition give_up :: "string \<Rightarrow> int \<Rightarrow> string \<Rightarrow> job_record \<Rightarrow> job_manager \<Rightarrow> job_manager" where
  "give_up i now status r m = forget_dispatch (jr_request r) (finish_job i now status False r m)"

definition begin_work :: "string \<Rightarrow> int \<Rightarrow> job_phase \<Rightarrow> job_record \<Rightarrow> job_manager \<Rightarrow> job_manager" where
  "begin_work i now phase r m =
     (let m = put_job i (r\<lparr>jr_status := ''running'', jr_started_at := Some now, jr_phase := phase\<rparr>) m
      in m\<lparr>jm_effects := jm_effects m @ [(rq_invocation_id (jr_request r), i)]\<rparr>)"

text \<open>
  From the queue: a job with a workspace tries for it (\<open>_hold_workspace\<close>; \<open>late\<close> is whether the deadline of
  the wait has passed), and one without begins at once.
\<close>

definition queue_step :: "string \<Rightarrow> int \<Rightarrow> bool \<Rightarrow> job_record \<Rightarrow> job_manager \<Rightarrow> job_manager" where
  "queue_step i now late r m =
     (let key = rq_workspace_key (jr_request r)
      in if key = [] then begin_work i now PCreate r m
         else if jr_cancel_requested r then give_up i now ''cancelled'' r m
         else if workspace_is_free (jm_holders m) key i
         then begin_work i now PPrepare r (m\<lparr>jm_holders := take_workspace key i (jm_holders m)\<rparr>)
         else if late
         then give_up i now ''failed'' (r\<lparr>jr_error := Some (''another job is still using workspace '' @ key)\<rparr>) m
         else m)"

text \<open>What a wait ends with: Docker failed (with the sanitized text), or the exit code and whether it timed out.\<close>

datatype docker_answer =
    DockerFailed string
  | DockerRaised      \<comment> \<open>an exception other than \<open>DockerError\<close>, where only that one is suppressed\<close>
  | DockerOk
  | Measured int bool
  | Exited int bool

definition held :: "job_record \<Rightarrow> bool" where
  "held r \<longleftrightarrow> rq_workspace_key (jr_request r) \<noteq> []"

definition end_status :: "bool \<Rightarrow> job_record \<Rightarrow> string" where
  "end_status timed_out r =
     (if jr_cancel_requested r then ''cancelled'' else if timed_out then ''timeout'' else ''completed'')"

definition fail_job :: "string \<Rightarrow> string \<Rightarrow> job_record \<Rightarrow> job_manager \<Rightarrow> job_manager" where
  "fail_job i e r m = put_job i (r\<lparr>jr_error := Some e, jr_phase := PDelete ''failed''\<rparr>) m"

text \<open>
  Docker answers the call the task waits for. At \<open>container.delete\<close> a \<open>DockerError\<close> is suppressed, and any other
  exception leaves the \<open>finally\<close> block there: the task is over with nothing released and nothing recorded. An
  answer that does not fit the phase is no step.
\<close>

definition docker_step :: "string \<Rightarrow> int \<Rightarrow> docker_answer \<Rightarrow> job_record \<Rightarrow> job_manager \<Rightarrow> job_manager" where
  "docker_step i now ans r m =
     (case (jr_phase r, ans) of
        (PPrepare, Measured bytes partial) \<Rightarrow>
          put_job i (r\<lparr>jr_workspace_size := Some (bytes, partial), jr_phase := PCreate\<rparr>) m
      | (PPrepare, DockerFailed e) \<Rightarrow> finish_job i now ''failed'' (held r) (r\<lparr>jr_error := Some e\<rparr>) m
      | (PCreate, DockerOk) \<Rightarrow> put_job i (r\<lparr>jr_has_container := True, jr_phase := PStart\<rparr>) m
      | (PCreate, DockerFailed e) \<Rightarrow> finish_job i now ''failed'' (held r) (r\<lparr>jr_error := Some e\<rparr>) m
      | (PStart, DockerOk) \<Rightarrow> put_job i (r\<lparr>jr_container_started_at := Some now, jr_phase := PWait\<rparr>) m
      | (PStart, DockerFailed e) \<Rightarrow> fail_job i e r m
      | (PWait, Exited code timed_out) \<Rightarrow>
          put_job i (r\<lparr>jr_exit_code := Some code,
                      jr_error := (if end_status timed_out r = ''timeout''
                                   then Some ''job exceeded its timeout and was killed'' else jr_error r),
                      jr_phase := PDelete (end_status timed_out r)\<rparr>) m
      | (PWait, DockerFailed e) \<Rightarrow> fail_job i e r m
      | (PDelete status, DockerOk) \<Rightarrow> finish_job i now status (held r) r m
      | (PDelete status, DockerFailed e) \<Rightarrow> finish_job i now status (held r) r m
      | (PDelete status, DockerRaised) \<Rightarrow> put_job i (r\<lparr>jr_phase := PDone\<rparr>) m
      | _ \<Rightarrow> m)"

definition job_step ::
  "(job_record \<Rightarrow> job_manager \<Rightarrow> job_manager) \<Rightarrow> string \<Rightarrow> job_manager \<Rightarrow> job_manager" where
  "job_step f i m = (case dict_get (jm_jobs m) i of None \<Rightarrow> m | Some r \<Rightarrow> f r m)"

definition run_queue_step :: "string \<Rightarrow> int \<Rightarrow> bool \<Rightarrow> job_manager \<Rightarrow> job_manager" where
  "run_queue_step i now late =
     job_step (\<lambda>r m. if jr_phase r = PQueue then queue_step i now late r m else m) i"

definition run_docker_step :: "string \<Rightarrow> int \<Rightarrow> docker_answer \<Rightarrow> job_manager \<Rightarrow> job_manager" where
  "run_docker_step i now ans = job_step (docker_step i now ans) i"

text \<open>\<open>cancel\<close>; the kill of the container is Docker's.\<close>

definition cancel :: "string \<Rightarrow> job_manager \<Rightarrow> job_manager" where
  "cancel i = job_step (\<lambda>r m. put_job i (r\<lparr>jr_cancel_requested := True\<rparr>) m) i"

text \<open>A new process: \<open>__init__\<close>, and \<open>start\<close> once the containers of the one before are reaped.\<close>

definition start_runner :: "int \<Rightarrow> (string \<times> string) list \<Rightarrow> job_manager" where
  "start_runner now effects =
     \<lparr>jm_jobs = [], jm_holders = Map.empty, jm_invocations = [], jm_serving_since = now,
      jm_forgotten_through = None, jm_effects = effects\<rparr>"

end
