(* ===== verification/SandboxSessions.thy ===== *)
theory SandboxSessions
  imports SandboxJobs PyValue
begin

text \<open>
  \<open>services/sandbox_runner/src/jhin_sandbox_runner/sessions.py\<close> and \<open>workspace_operations.py\<close>: interactive
  sessions and file operations, which share the table of workspace holders with the jobs. Creating, stopping
  and reading a session are cut at their \<open>await\<close>s, so that they interleave; \<open>True\<close> is Docker's success. The
  measured sizes of a session's workspace are left out.
\<close>

section \<open>Output and input of one session\<close>

definition OUTPUT_LIMIT :: int where "OUTPUT_LIMIT = 131072"
definition SESSION_LIMIT :: nat where "SESSION_LIMIT = 16"
definition INPUT_CLIENT_LIMIT :: nat where "INPUT_CLIENT_LIMIT = 1024"
definition IDENTITY_LIMIT :: nat where "IDENTITY_LIMIT = 4096"

text \<open>\<open>RETAIN_SECONDS\<close>, in microseconds\<close>

definition RETAIN :: int where "RETAIN = 3600000000"

record session_request =
  sr_session_id :: string
  sr_workspace_key :: string
  sr_kind :: string
  sr_network :: string
  sr_command :: string
  sr_port :: int
  sr_expires_in_seconds :: int
  sr_image :: string
  sr_cols :: int
  sr_rows :: int

text \<open>
  \<open>se_object\<close> tells two records of one session id apart; \<open>se_reader\<close> is whether the reader task runs, and
  \<open>se_written\<close> is added: the inputs handed to the transport, with client and sequence number.
\<close>

record session_record =
  se_object :: nat
  se_request :: session_request
  se_status :: string
  se_output :: string
  se_pending :: string
  se_offset :: nat
  se_exit_code :: "int option"
  se_created_at :: int
  se_finished_at :: "int option"
  se_reader :: bool
  se_sequences :: "int dict"
  se_written :: "(string \<times> int \<times> string) list"

text \<open>
  \<open>append\<close>: the redactor holds back what may be the beginning of a secret; it maps the pending text and
  whether the stream is over to what may be shown and what stays pending.
\<close>

type_synonym redactor = "string \<Rightarrow> bool \<Rightarrow> string \<times> string"

definition last_chars :: "int \<Rightarrow> string \<Rightarrow> string" where
  "last_chars n s = drop (nat (int (length s) - n)) s"

definition append_output :: "redactor \<Rightarrow> string \<Rightarrow> bool \<Rightarrow> session_record \<Rightarrow> session_record" where
  "append_output redact v final r =
     (case redact (se_pending r @ v) final of
        (shown, pending) \<Rightarrow>
          r\<lparr>se_pending := pending, se_offset := se_offset r + length shown,
            se_output := last_chars OUTPUT_LIMIT (se_output r @ shown)\<rparr>)"

record session_snapshot =
  sn_output :: string
  sn_output_offset :: nat
  sn_output_start :: int
  sn_truncated :: bool

definition snapshot :: "int option \<Rightarrow> session_record \<Rightarrow> session_snapshot" where
  "snapshot after r =
     (let start = int (se_offset r) - int (length (se_output r))
      in \<lparr>sn_output = (case after of None \<Rightarrow> se_output r
                       | Some a \<Rightarrow> drop (nat (max 0 (a - start))) (se_output r)),
          sn_output_offset = se_offset r, sn_output_start = start,
          sn_truncated = (case after of None \<Rightarrow> False | Some a \<Rightarrow> a < start)\<rparr>)"

datatype input_result =
    InputError nat
  | Ack int
  | Snapshot

text \<open>\<open>InputSequence.accept\<close>, on the last sequence number taken\<close>

definition accept_sequence :: "int \<Rightarrow> int \<Rightarrow> int option" where
  "accept_sequence last_seq sequence = (if sequence \<le> last_seq then None else Some sequence)"

definition int_between :: "int \<Rightarrow> int \<Rightarrow> pyval option \<Rightarrow> bool" where
  "int_between lo hi v = (case v of Some (PInt i) \<Rightarrow> lo \<le> i \<and> i \<le> hi | _ \<Rightarrow> False)"

text \<open>The sequence number is claimed before the write: an uncertain write is never repeated.\<close>

definition take_input :: "string \<Rightarrow> string \<Rightarrow> int \<Rightarrow> session_record \<Rightarrow> input_result \<times> session_record" where
  "take_input client text sequence r =
     (if dict_get (se_sequences r) client = None \<and> INPUT_CLIENT_LIMIT \<le> length (se_sequences r)
      then (InputError 429, r)
      else
        let last_seq = (case dict_get (se_sequences r) client of None \<Rightarrow> 0 | Some n \<Rightarrow> n)
        in (Ack sequence,
            case accept_sequence last_seq sequence of
              None \<Rightarrow> r\<lparr>se_sequences := dict_set (se_sequences r) client last_seq\<rparr>
            | Some n \<Rightarrow> r\<lparr>se_sequences := dict_set (se_sequences r) client n,
                          se_written := se_written r @ [(client, sequence, text)]\<rparr>))"

definition terminal_input :: "pyval dict \<Rightarrow> session_record \<Rightarrow> input_result \<times> session_record" where
  "terminal_input message r =
     (case (dict_get message ''data'', dict_get message ''seq'') of
        (Some (PStr text), Some (PInt sequence)) \<Rightarrow>
          if 16384 < length text \<or> sequence < 1 then (InputError 422, r)
          else (case (case dict_get message ''client_id'' of None \<Rightarrow> PStr ''internal'' | Some v \<Rightarrow> v) of
                  PStr client \<Rightarrow>
                    if 1 \<le> length client \<and> length client \<le> 128 then take_input client text sequence r
                    else (InputError 422, r)
                | _ \<Rightarrow> (InputError 422, r))
      | _ \<Rightarrow> (InputError 422, r))"

text \<open>\<open>SessionManager.input\<close> on a record it found; a resize and an interrupt only reach Docker.\<close>

definition session_input :: "pyval dict \<Rightarrow> session_record \<Rightarrow> input_result \<times> session_record" where
  "session_input message r =
     (if se_status r \<noteq> ''running'' then (InputError 409, r)
      else (case dict_get message ''type'' of
              Some (PStr kind) \<Rightarrow>
                if kind = ''input'' then terminal_input message r
                else if kind = ''resize''
                then (if int_between 20 500 (dict_get message ''cols'') \<and> int_between 5 200 (dict_get message ''rows'')
                      then (Snapshot, r) else (InputError 422, r))
                else if kind = ''interrupt'' then (Snapshot, r)
                else (InputError 422, r)
            | _ \<Rightarrow> (InputError 422, r)))"

section \<open>The session manager\<close>

text \<open>Where the one creation under \<open>create_lock\<close> waits, and where a stop waits.\<close>

datatype create_phase =
    CVolume | CContainer | CStart | CExec | CWrite | CResize
  | CAbort            \<comment> \<open>removing the container of a creation that failed\<close>

record creation =
  cr_request :: session_request
  cr_object :: nat
  cr_phase :: create_phase

datatype stop_phase = StopDelete | StopMeasure

text \<open>\<open>sp_expiring\<close>: the stop runs in \<open>cleanup\<close>, which marks the record expired when it returns.\<close>

record stop_task =
  sp_object :: nat
  sp_request :: session_request
  sp_phase :: stop_phase
  sp_expiring :: bool

record runner =
  rn_jobs :: job_manager
  rn_records :: "session_record dict"
  rn_retired :: "string list"
  rn_creating :: "creation option"
  rn_stopping :: "stop_task list"
  rn_reading :: "(nat \<times> string) list"
  rn_operations :: "(string \<times> string) list"
  rn_next_object :: nat

definition holders :: "runner \<Rightarrow> (string \<rightharpoonup> string)" where
  "holders s = jm_holders (rn_jobs s)"

definition set_holders :: "(string \<rightharpoonup> string) \<Rightarrow> runner \<Rightarrow> runner" where
  "set_holders h s = s\<lparr>rn_jobs := (rn_jobs s)\<lparr>jm_holders := h\<rparr>\<rparr>"

text \<open>An update of one record object, wherever its session id now leads.\<close>

definition update_object :: "nat \<Rightarrow> (session_record \<Rightarrow> session_record) \<Rightarrow> runner \<Rightarrow> runner" where
  "update_object obj f s =
     s\<lparr>rn_records := map (\<lambda>(i, r). (i, if se_object r = obj then f r else r)) (rn_records s)\<rparr>"

definition find_object :: "nat \<Rightarrow> runner \<Rightarrow> session_record option" where
  "find_object obj s = map_option snd (find (\<lambda>(i, r). se_object r = obj) (rn_records s))"

definition live_status :: "string \<Rightarrow> bool" where
  "live_status st \<longleftrightarrow> st \<in> set [''starting'', ''running'']"

definition stoppable_status :: "string \<Rightarrow> bool" where
  "stoppable_status st \<longleftrightarrow> st \<in> set [''starting'', ''running'', ''stopping'']"

subsection \<open>Creating\<close>

datatype create_result = CreateError nat | Existing | Begun

text \<open>\<open>_create\<close> up to its first \<open>await\<close>, under \<open>create_lock\<close>.\<close>

definition create_begin :: "session_request \<Rightarrow> runner \<Rightarrow> create_result \<times> runner" where
  "create_begin rq s =
     (if sr_session_id rq \<in> set (rn_retired s) then (CreateError 410, s)
      else if IDENTITY_LIMIT \<le> length (rn_records s) + length (rn_retired s) then (CreateError 429, s)
      else case dict_get (rn_records s) (sr_session_id rq) of
             Some r \<Rightarrow> if se_request r \<noteq> rq then (CreateError 409, s) else (Existing, s)
           | None \<Rightarrow>
               if SESSION_LIMIT \<le> length (filter (\<lambda>(i, r). live_status (se_status r)) (rn_records s))
               then (CreateError 429, s)
               else if holders s (sr_workspace_key rq) \<noteq> None then (CreateError 409, s)
               else (Begun,
                     (set_holders (take_workspace (sr_workspace_key rq) (sr_session_id rq) (holders s)) s)
                       \<lparr>rn_creating := Some \<lparr>cr_request = rq, cr_object = rn_next_object s, cr_phase = CVolume\<rparr>,
                        rn_next_object := Suc (rn_next_object s)\<rparr>))"

definition new_session :: "int \<Rightarrow> creation \<Rightarrow> session_record" where
  "new_session now c =
     \<lparr>se_object = cr_object c, se_request = cr_request c, se_status = ''starting'', se_output = [],
      se_pending = [], se_offset = 0, se_exit_code = None, se_created_at = now,
      se_finished_at = None, se_reader = False, se_sequences = [], se_written = []\<rparr>"

text \<open>The \<open>except\<close> branch once its container is gone: the key is popped whoever holds it by now.\<close>

definition abort_creation :: "session_request \<Rightarrow> runner \<Rightarrow> runner" where
  "abort_creation rq s =
     (set_holders ((holders s)(sr_workspace_key rq := None)) s)
       \<lparr>rn_records := dict_del (rn_records s) (sr_session_id rq), rn_creating := None\<rparr>"

definition set_phase :: "creation \<Rightarrow> create_phase \<Rightarrow> runner \<Rightarrow> runner" where
  "set_phase c p s = s\<lparr>rn_creating := Some (c\<lparr>cr_phase := p\<rparr>)\<rparr>"

text \<open>Docker answers the call the creation waits for.\<close>

definition create_step :: "int \<Rightarrow> bool \<Rightarrow> runner \<Rightarrow> runner" where
  "create_step now ok s =
     (case rn_creating s of
        None \<Rightarrow> s
      | Some c \<Rightarrow>
          (case cr_phase c of
             CVolume \<Rightarrow> if ok then set_phase c CContainer s else abort_creation (cr_request c) s
           | CContainer \<Rightarrow>
               if ok
               then set_phase c CStart
                      (s\<lparr>rn_records := dict_set (rn_records s) (sr_session_id (cr_request c)) (new_session now c)\<rparr>)
               else abort_creation (cr_request c) s
           | CStart \<Rightarrow> set_phase c (if ok then CExec else CAbort) s
           | CExec \<Rightarrow> set_phase c (if ok then CWrite else CAbort) s
           | CWrite \<Rightarrow> set_phase c (if ok then CResize else CAbort) s
           | CResize \<Rightarrow>
               if ok
               then (update_object (cr_object c) (\<lambda>r. r\<lparr>se_status := ''running'', se_reader := True\<rparr>) s)
                      \<lparr>rn_creating := None\<rparr>
               else set_phase c CAbort s
           | CAbort \<Rightarrow> abort_creation (cr_request c) s))"

subsection \<open>Stopping\<close>

definition stop_begin :: "string \<Rightarrow> bool \<Rightarrow> runner \<Rightarrow> runner" where
  "stop_begin i expiring s =
     (case dict_get (rn_records s) i of
        None \<Rightarrow> s
      | Some r \<Rightarrow>
          if \<not> stoppable_status (se_status r) then s
          else (update_object (se_object r) (\<lambda>r. r\<lparr>se_status := ''stopping''\<rparr>) s)
                 \<lparr>rn_stopping := rn_stopping s @
                    [\<lparr>sp_object = se_object r, sp_request = se_request r, sp_phase = StopDelete,
                      sp_expiring = expiring\<rparr>]\<rparr>)"

text \<open>
  The \<open>n\<close>th stop in flight goes on. A failing delete raises and leaves the record stopping; after it the
  reader is cancelled, and after the measurement the hold is released if it is still this session's.
\<close>

definition remove_nth :: "nat \<Rightarrow> 'a list \<Rightarrow> 'a list" where
  "remove_nth n xs = take n xs @ drop (Suc n) xs"

definition stop_step :: "redactor \<Rightarrow> nat \<Rightarrow> int \<Rightarrow> bool \<Rightarrow> runner \<Rightarrow> runner" where
  "stop_step redact n now ok s =
     (if length (rn_stopping s) \<le> n then s
      else let t = rn_stopping s ! n; gone = s\<lparr>rn_stopping := remove_nth n (rn_stopping s)\<rparr>
        in case sp_phase t of
             StopDelete \<Rightarrow>
               if \<not> ok then gone
               else (update_object (sp_object t) (\<lambda>r. append_output redact [] True (r\<lparr>se_reader := False\<rparr>)) s)
                      \<lparr>rn_stopping := (rn_stopping s)[n := t\<lparr>sp_phase := StopMeasure\<rparr>],
                       rn_reading := filter (\<lambda>(obj, st). obj \<noteq> sp_object t) (rn_reading s)\<rparr>
           | StopMeasure \<Rightarrow>
               set_holders (release_workspace (sr_workspace_key (sp_request t)) (sr_session_id (sp_request t)) (holders s))
                 (update_object (sp_object t)
                    (\<lambda>r. r\<lparr>se_status := (if sp_expiring t then ''expired'' else ''stopped''), se_finished_at := Some now\<rparr>)
                    gone))"

text \<open>\<open>cleanup\<close>: an expired session is stopped, and one that ended long ago retired.\<close>

definition overdue :: "int \<Rightarrow> session_record \<Rightarrow> bool" where
  "overdue now r \<longleftrightarrow> live_status (se_status r)
     \<and> sr_expires_in_seconds (se_request r) * 1000000 \<le> now - se_created_at r"

definition retirable :: "int \<Rightarrow> session_record \<Rightarrow> bool" where
  "retirable now r \<longleftrightarrow> \<not> live_status (se_status r)
     \<and> (case se_finished_at r of None \<Rightarrow> False | Some t \<Rightarrow> RETAIN < now - t)"

definition cleanup_one :: "int \<Rightarrow> string \<Rightarrow> runner \<Rightarrow> runner" where
  "cleanup_one now i s =
     (case dict_get (rn_records s) i of
        None \<Rightarrow> s
      | Some r \<Rightarrow>
          if overdue now r then stop_begin i True s
          else if retirable now r
          then s\<lparr>rn_retired := (if i \<in> set (rn_retired s) then rn_retired s else rn_retired s @ [i]),
                 rn_records := dict_del (rn_records s) i\<rparr>
          else s)"

subsection \<open>Reading\<close>

definition read_chunk :: "redactor \<Rightarrow> nat \<Rightarrow> string \<Rightarrow> runner \<Rightarrow> runner" where
  "read_chunk redact obj text s =
     update_object obj (\<lambda>r. if se_reader r then append_output redact text False r else r) s"

text \<open>
  The stream is over, with the exit code or \<open>None\<close> when reading failed. Unless a stop is under way the
  container is removed with the status kept aside; \<open>read_end\<close> then reports it and releases the workspace.
\<close>

definition read_over :: "redactor \<Rightarrow> nat \<Rightarrow> int option \<Rightarrow> runner \<Rightarrow> runner" where
  "read_over redact obj code s =
     (case find_object obj s of
        None \<Rightarrow> s
      | Some r \<Rightarrow>
          if \<not> se_reader r then s
          else let s = update_object obj (\<lambda>r. (case code of
                           None \<Rightarrow> r | Some n \<Rightarrow> (append_output redact [] True r)\<lparr>se_exit_code := Some n\<rparr>)
                         \<lparr>se_reader := False\<rparr>) s;
                   final = (if code = Some 0 then ''completed'' else ''failed'')
            in if se_status r = ''stopping'' then s
               else (update_object obj (\<lambda>r. r\<lparr>se_status := ''stopping''\<rparr>) s)
                      \<lparr>rn_reading := rn_reading s @ [(obj, final)]\<rparr>)"

definition read_end :: "nat \<Rightarrow> int \<Rightarrow> runner \<Rightarrow> runner" where
  "read_end obj now s =
     (case (map_of (rn_reading s) obj, find_object obj s) of
        (Some final, Some r) \<Rightarrow>
          (let key = sr_workspace_key (se_request r); i = sr_session_id (se_request r);
               s = update_object obj (\<lambda>r. r\<lparr>se_status := final, se_finished_at := Some now\<rparr>) s
           in set_holders (release_workspace key i (holders s))
                (s\<lparr>rn_reading := filter (\<lambda>(o', st). o' \<noteq> obj) (rn_reading s)\<rparr>))
      | _ \<Rightarrow> s)"

section \<open>File operations\<close>

text \<open>\<open>run_operation\<close>: refused while the workspace is held, and released however it ends.\<close>

definition operation_begin :: "string \<Rightarrow> string \<Rightarrow> runner \<Rightarrow> nat option \<times> runner" where
  "operation_begin key i s =
     (if holders s key \<noteq> None then (Some 409, s)
      else (None, (set_holders (take_workspace key i (holders s)) s)
                    \<lparr>rn_operations := rn_operations s @ [(key, i)]\<rparr>))"

definition operation_end :: "string \<Rightarrow> string \<Rightarrow> runner \<Rightarrow> runner" where
  "operation_end key i s =
     (if (key, i) \<in> set (rn_operations s)
      then set_holders (release_workspace key i (holders s))
             (s\<lparr>rn_operations := filter (\<lambda>p. p \<noteq> (key, i)) (rn_operations s)\<rparr>)
      else s)"

end
