(* ===== verification/SandboxRunner.thy ===== *)
theory SandboxRunner
  imports SandboxSessions
begin

text \<open>
  The runner process of \<open>services/sandbox_runner\<close> as a history of events: requests as the routes of \<open>main.py\<close>,
  \<open>sessions.py\<close> and \<open>workspace_operations.py\<close> hand them on, the answers the tasks in between wait for, and the
  restarts of the process. On the one event loop what stands between two \<open>await\<close>s is one step.
\<close>

datatype runner_event =
    Submit int job_request
  | Cancel string
  | QueueTry string int bool
  | Docker string int docker_answer
  | Create session_request
  | CreateStep int bool
  | Stop string
  | StopStep nat int bool
  | Cleanup int string
  | Chunk nat string
  | ReadOver nat "int option"
  | ReadEnd nat int
  | Input string "pyval dict"
  | OpBegin string string
  | OpEnd string string
  | Restart int

definition fresh_runner :: "int \<Rightarrow> (string \<times> string) list \<Rightarrow> runner" where
  "fresh_runner now effects =
     \<lparr>rn_jobs = start_runner now effects, rn_records = [], rn_retired = [], rn_creating = None,
      rn_stopping = [], rn_reading = [], rn_operations = [], rn_next_object = 0\<rparr>"

definition on_jobs :: "(job_manager \<Rightarrow> job_manager) \<Rightarrow> runner \<Rightarrow> runner" where
  "on_jobs f s = s\<lparr>rn_jobs := f (rn_jobs s)\<rparr>"

definition input_step :: "string \<Rightarrow> pyval dict \<Rightarrow> runner \<Rightarrow> runner" where
  "input_step i message s =
     (case dict_get (rn_records s) i of
        None \<Rightarrow> s
      | Some r \<Rightarrow> update_object (se_object r) (\<lambda>r. snd (session_input message r)) s)"

text \<open>\<open>create_lock\<close> admits one creation at a time.\<close>

fun runner_step :: "runner_settings \<Rightarrow> redactor \<Rightarrow> runner_event \<Rightarrow> runner \<Rightarrow> runner" where
  "runner_step st redact (Submit now rq) s = on_jobs (\<lambda>m. snd (submit st now rq m)) s"
| "runner_step st redact (Cancel i) s = on_jobs (cancel i) s"
| "runner_step st redact (QueueTry i now late) s = on_jobs (run_queue_step i now late) s"
| "runner_step st redact (Docker i now ans) s = on_jobs (run_docker_step i now ans) s"
| "runner_step st redact (Create rq) s = (if rn_creating s = None then snd (create_begin rq s) else s)"
| "runner_step st redact (CreateStep now ok) s = create_step now ok s"
| "runner_step st redact (Stop i) s = stop_begin i False s"
| "runner_step st redact (StopStep n now ok) s = stop_step redact n now ok s"
| "runner_step st redact (Cleanup now i) s = cleanup_one now i s"
| "runner_step st redact (Chunk obj text) s = read_chunk redact obj text s"
| "runner_step st redact (ReadOver obj code) s = read_over redact obj code s"
| "runner_step st redact (ReadEnd obj now) s = read_end obj now s"
| "runner_step st redact (Input i message) s = input_step i message s"
| "runner_step st redact (OpBegin key i) s = snd (operation_begin key i s)"
| "runner_step st redact (OpEnd key i) s = operation_end key i s"
| "runner_step st redact (Restart now) s = fresh_runner now (jm_effects (rn_jobs s))"

definition run :: "runner_settings \<Rightarrow> redactor \<Rightarrow> runner_event list \<Rightarrow> runner \<Rightarrow> runner" where
  "run st redact es s = fold (runner_step st redact) es s"

lemma run_simps [simp]:
  "run st redact [] s = s"
  "run st redact (e # es) s = run st redact es (runner_step st redact e s)"
  by (simp_all add: run_def)

lemma run_append: "run st redact (es @ fs) s = run st redact fs (run st redact es s)"
  by (simp add: run_def)

text \<open>What ran: the invocation and the job id of every task that left the workspace queue.\<close>

definition effects :: "runner \<Rightarrow> (string \<times> string) list" where
  "effects s = jm_effects (rn_jobs s)"

section \<open>What the callers say\<close>

text \<open>
  A caller that has dispatched an invocation before says so, with a stamp that is at most the tolerated skew
  behind the runner's own acceptance of any earlier dispatch; \<open>seen\<close> holds the dispatches so far.
\<close>

definition states_truly :: "(string \<times> int) list \<Rightarrow> job_request \<Rightarrow> bool" where
  "states_truly seen rq \<longleftrightarrow>
     rq_invocation_id rq = []
     \<or> (case rq_prior_dispatch rq of
          None \<Rightarrow> True
        | Some None \<Rightarrow> rq_invocation_id rq \<notin> fst ` set seen
        | Some (Some p) \<Rightarrow>
            list_all (\<lambda>(i, t). i = rq_invocation_id rq \<longrightarrow> p \<le> t + INCARNATION_SKEW) seen)"

fun dispatched :: "runner_event \<Rightarrow> (string \<times> int) list \<Rightarrow> (string \<times> int) list" where
  "dispatched (Submit now rq) seen = (rq_invocation_id rq, now) # seen"
| "dispatched _ seen = seen"

text \<open>A restart is not stamped before a dispatch the process before it accepted.\<close>

fun honest_event :: "(string \<times> int) list \<Rightarrow> runner_event \<Rightarrow> bool" where
  "honest_event seen (Submit now rq) \<longleftrightarrow> states_truly seen rq"
| "honest_event seen (Restart now) \<longleftrightarrow> list_all (\<lambda>(i, t). t \<le> now) seen"
| "honest_event seen _ \<longleftrightarrow> True"

fun honest :: "(string \<times> int) list \<Rightarrow> runner_event list \<Rightarrow> bool" where
  "honest seen [] \<longleftrightarrow> True"
| "honest seen (e # es) \<longleftrightarrow> honest_event seen e \<and> honest (dispatched e seen) es"

section \<open>Who touches a workspace\<close>

definition working :: "job_record \<Rightarrow> bool" where
  "working r \<longleftrightarrow> jr_phase r \<noteq> PQueue \<and> jr_phase r \<noteq> PDone"

definition job_touches :: "runner \<Rightarrow> (string \<times> string) list" where
  "job_touches s =
     map (\<lambda>(i, r). (rq_workspace_key (jr_request r), i)) (filter (\<lambda>(i, r). working r \<and> held r) (jm_jobs (rn_jobs s)))"

definition session_key :: "session_request \<Rightarrow> string \<times> string" where
  "session_key rq = (sr_workspace_key rq, sr_session_id rq)"

definition session_touches :: "runner \<Rightarrow> (string \<times> string) list" where
  "session_touches s =
     map (\<lambda>(i, r). session_key (se_request r)) (filter (\<lambda>(i, r). stoppable_status (se_status r)) (rn_records s))
     @ (case rn_creating s of None \<Rightarrow> [] | Some c \<Rightarrow> [session_key (cr_request c)])"

text \<open>The workspace keys in use, each with the identity that uses it.\<close>

definition touching :: "runner \<Rightarrow> (string \<times> string) list" where
  "touching s = job_touches s @ session_touches s @ rn_operations s"

text \<open>No one stops the session that is being created.\<close>

definition calm_event :: "runner \<Rightarrow> runner_event \<Rightarrow> bool" where
  "calm_event s e \<longleftrightarrow>
     (case rn_creating s of
        None \<Rightarrow> True
      | Some c \<Rightarrow>
          (case e of
             Stop i \<Rightarrow> i \<noteq> sr_session_id (cr_request c)
           | Cleanup now i \<Rightarrow> i \<noteq> sr_session_id (cr_request c)
           | _ \<Rightarrow> True))"

fun calm :: "runner_settings \<Rightarrow> redactor \<Rightarrow> runner_event list \<Rightarrow> runner \<Rightarrow> bool" where
  "calm st redact [] s \<longleftrightarrow> True"
| "calm st redact (e # es) s \<longleftrightarrow> calm_event s e \<and> calm st redact es (runner_step st redact e s)"

text \<open>Jobs, sessions and operations draw their identities from different spaces.\<close>

datatype owner_kind = JobOwner | SessionOwner | OperationOwner

fun named_event :: "(string \<Rightarrow> owner_kind) \<Rightarrow> runner_event \<Rightarrow> bool" where
  "named_event kind_of (Submit now rq) \<longleftrightarrow> kind_of (rq_job_id rq) = JobOwner"
| "named_event kind_of (Create rq) \<longleftrightarrow> kind_of (sr_session_id rq) = SessionOwner"
| "named_event kind_of (OpBegin key i) \<longleftrightarrow> kind_of i = OperationOwner"
| "named_event kind_of _ \<longleftrightarrow> True"

section \<open>Samples\<close>

definition small_settings :: runner_settings where
  "small_settings =
     \<lparr>st_default_image = ''jhin'', st_max_cpus = 2, st_max_memory_mb = 4096, st_max_pids = 256,
      st_max_timeout_seconds = 1800, st_output_retained_jobs = 32, st_record_retention = 3600000000\<rparr>"

definition plain_redactor :: redactor where
  "plain_redactor text final = (text, [])"

definition job_on :: "string \<Rightarrow> string \<Rightarrow> string \<Rightarrow> int option option \<Rightarrow> job_request" where
  "job_on i invocation key prior =
     \<lparr>rq_job_id = i, rq_invocation_id = invocation, rq_prior_dispatch = prior, rq_image = [],
      rq_workspace_key = key, rq_secret_env = [], rq_cpu_limit = None, rq_memory_mb = None,
      rq_pids_limit = None, rq_timeout_seconds = None\<rparr>"

definition session_on :: "string \<Rightarrow> string \<Rightarrow> session_request" where
  "session_on i key =
     \<lparr>sr_session_id = i, sr_workspace_key = key, sr_kind = ''terminal'', sr_network = ''none'',
      sr_command = [], sr_port = 3000, sr_expires_in_seconds = 28800, sr_image = [], sr_cols = 100,
      sr_rows = 30\<rparr>"

end
