(* ===== verification/SandboxLedger.thy ===== *)
theory SandboxLedger
  imports SandboxRunner
begin

text \<open>
  The invocation ledger: whatever the runner forgets and however often it restarts, a call that callers
  dispatch again runs at most once.
\<close>

section \<open>Tables\<close>

lemma dict_get_del [simp]: "dict_get (dict_del d k) k' = (if k' = k then None else dict_get d k')"
  by (induction d) (auto simp: dict_get_def dict_del_def)

lemma wf_dict_del: "wf_dict d \<Longrightarrow> wf_dict (dict_del d k)"
  unfolding wf_dict_def dict_del_def by (induction d) auto

lemma dict_get_member: "wf_dict d \<Longrightarrow> (k, v) \<in> set d \<longleftrightarrow> dict_get d k = Some v"
  by (simp add: wf_dict_def dict_get_def)

lemma dict_get_mapped: "dict_get (map (\<lambda>(i, r). (i, f i r)) d) k = map_option (f k) (dict_get d k)"
  by (induction d) (auto simp: dict_get_def)

lemma wf_dict_mapped: "wf_dict (map (\<lambda>(i, r). (i, f i r)) d) = wf_dict d"
proof -
  have "map fst (map (\<lambda>(i, r). (i, f i r)) d) = map fst d"
    by (induction d) auto
  then show ?thesis
    by (simp only: wf_dict_def)
qed

text \<open>The memory's beginning depends on the two stamps alone.\<close>

lemma remembering_rest [simp]:
  "remembering_since (m\<lparr>jm_jobs := js\<rparr>) = remembering_since m"
  "remembering_since (m\<lparr>jm_holders := h\<rparr>) = remembering_since m"
  "remembering_since (m\<lparr>jm_invocations := ds\<rparr>) = remembering_since m"
  "remembering_since (m\<lparr>jm_effects := es\<rparr>) = remembering_since m"
  "remembering_since (put_job i r m) = remembering_since m"
  by (cases "jm_forgotten_through m"; simp add: remembering_since_def put_job_def)+

section \<open>The ledger's invariant\<close>

abbreviation invocation_of :: "job_record \<Rightarrow> string" where
  "invocation_of r \<equiv> rq_invocation_id (jr_request r)"

abbreviation points_to :: "job_manager \<Rightarrow> string \<Rightarrow> string \<Rightarrow> bool" where
  "points_to m v i \<equiv> \<exists>d. dict_get (jm_invocations m) v = Some d \<and> dp_job_id d = i"

text \<open>A record is kept under its own job id.\<close>

definition jobs_keyed :: "job_manager \<Rightarrow> bool" where
  "jobs_keyed m \<longleftrightarrow> wf_dict (jm_jobs m)
     \<and> (\<forall>i r. dict_get (jm_jobs m) i = Some r \<longrightarrow> rq_job_id (jr_request r) = i)"

text \<open>A ledger entry is a dispatch the callers made, and its job is still held.\<close>

definition ledger_backed :: "(string \<times> int) list \<Rightarrow> job_manager \<Rightarrow> bool" where
  "ledger_backed seen m \<longleftrightarrow>
     (\<forall>v d. dict_get (jm_invocations m) v = Some d \<longrightarrow>
        v \<noteq> [] \<and> (v, dp_at d) \<in> set seen
        \<and> (\<exists>r. dict_get (jm_jobs m) (dp_job_id d) = Some r \<and> invocation_of r = v))"

text \<open>What ran is in the ledger, or was dispatched before the runner's memory begins.\<close>

definition accounted :: "(string \<times> int) list \<Rightarrow> job_manager \<Rightarrow> string \<Rightarrow> string \<Rightarrow> bool" where
  "accounted seen m v i \<longleftrightarrow> points_to m v i \<or> (\<exists>t. (v, t) \<in> set seen \<and> t \<le> remembering_since m)"

definition effects_known :: "(string \<times> int) list \<Rightarrow> job_manager \<Rightarrow> bool" where
  "effects_known seen m \<longleftrightarrow> (\<forall>v i. (v, i) \<in> set (jm_effects m) \<and> v \<noteq> [] \<longrightarrow> accounted seen m v i)"

definition has_run :: "(string \<times> string) list \<Rightarrow> string \<Rightarrow> bool" where
  "has_run es v \<longleftrightarrow> v \<in> fst ` set es"

lemma has_run_append [simp]: "has_run (es @ [(v, i)]) w \<longleftrightarrow> has_run es w \<or> w = v"
  by (auto simp: has_run_def)

lemma ran_has_run: "(v, i) \<in> set es \<Longrightarrow> has_run es v"
  by (force simp: has_run_def)

text \<open>A job still queued is its invocation's entry, and nothing of that invocation has run.\<close>

definition queue_fresh :: "job_manager \<Rightarrow> bool" where
  "queue_fresh m \<longleftrightarrow>
     (\<forall>i r. dict_get (jm_jobs m) i = Some r \<and> jr_phase r = PQueue \<and> invocation_of r \<noteq> [] \<longrightarrow>
        points_to m (invocation_of r) i \<and> \<not> has_run (jm_effects m) (invocation_of r))"

definition ran_once :: "(string \<times> string) list \<Rightarrow> bool" where
  "ran_once es \<longleftrightarrow> distinct (filter (\<lambda>v. v \<noteq> []) (map fst es))"

definition ledger_ok :: "(string \<times> int) list \<Rightarrow> job_manager \<Rightarrow> bool" where
  "ledger_ok seen m \<longleftrightarrow>
     jobs_keyed m \<and> ledger_backed seen m \<and> effects_known seen m \<and> queue_fresh m \<and> ran_once (jm_effects m)"

lemmas ledger_defs = jobs_keyed_def ledger_backed_def effects_known_def accounted_def queue_fresh_def

lemma ledger_okD:
  assumes "ledger_ok seen m"
  shows "jobs_keyed m" "ledger_backed seen m" "effects_known seen m" "queue_fresh m" "ran_once (jm_effects m)"
  using assms by (simp_all add: ledger_ok_def)

lemma ledger_ok_holders [simp]: "ledger_ok seen (m\<lparr>jm_holders := h\<rparr>) = ledger_ok seen m"
  by (simp add: ledger_ok_def ledger_defs)

lemma ledger_ok_more:
  assumes "ledger_ok seen m" "set seen \<subseteq> set seen'"
  shows "ledger_ok seen' m"
proof -
  have "ledger_backed seen' m"
    using ledger_okD(2) [OF assms(1)] assms(2) unfolding ledger_backed_def by blast
  moreover have "effects_known seen' m"
    unfolding effects_known_def
  proof (intro allI impI)
    fix v i assume "(v, i) \<in> set (jm_effects m) \<and> v \<noteq> []"
    then have "accounted seen m v i"
      using ledger_okD(3) [OF assms(1)] by (simp add: effects_known_def)
    then show "accounted seen' m v i"
      using assms(2) by (auto simp: accounted_def)
  qed
  ultimately show ?thesis
    using ledger_okD(1,4,5) [OF assms(1)] by (simp add: ledger_ok_def)
qed

lemma put_job_get [simp]: "dict_get (jm_jobs (put_job i r m)) j = (if j = i then Some r else dict_get (jm_jobs m) j)"
  by (simp add: put_job_def)

lemma put_job_rest [simp]:
  "jm_invocations (put_job i r m) = jm_invocations m" "jm_effects (put_job i r m) = jm_effects m"
  "jm_holders (put_job i r m) = jm_holders m" "jm_serving_since (put_job i r m) = jm_serving_since m"
  "jm_forgotten_through (put_job i r m) = jm_forgotten_through m"
  by (simp_all add: put_job_def)

text \<open>A record replaced by one of the same request, not put back into the queue.\<close>

lemma ledger_put:
  assumes ok: "ledger_ok seen m" and old: "dict_get (jm_jobs m) i = Some r"
    and same: "rq_job_id (jr_request r') = rq_job_id (jr_request r)" "invocation_of r' = invocation_of r"
      "jr_phase r' = PQueue \<Longrightarrow> jr_phase r = PQueue"
  shows "ledger_ok seen (put_job i r' m)"
proof -
  have "jobs_keyed (put_job i r' m)"
    using ledger_okD(1) [OF ok] old same(1) by (auto simp: jobs_keyed_def put_job_def wf_dict_set)
  moreover have "ledger_backed seen (put_job i r' m)"
    using ledger_okD(2) [OF ok] old same(2) by (fastforce simp: ledger_backed_def put_job_def)
  moreover have "effects_known seen (put_job i r' m)"
    using ledger_okD(3) [OF ok] by (simp add: effects_known_def accounted_def)
  moreover have "queue_fresh (put_job i r' m)"
    using ledger_okD(4) [OF ok] old same(2,3) unfolding queue_fresh_def put_job_def by (auto split: if_splits)
  moreover have "ran_once (jm_effects (put_job i r' m))"
    using ledger_okD(5) [OF ok] by (simp add: put_job_def)
  ultimately show ?thesis
    by (simp add: ledger_ok_def)
qed

lemma ledger_finish:
  assumes "ledger_ok seen m" "dict_get (jm_jobs m) i = Some r0"
    and "rq_job_id (jr_request r) = rq_job_id (jr_request r0)" "invocation_of r = invocation_of r0"
  shows "ledger_ok seen (finish_job i now status h r m)"
  unfolding finish_job_def Let_def
  by (rule ledger_put [where r = r0]) (use assms in auto)

text \<open>A job leaves the queue: the first effect of its invocation.\<close>

lemma ledger_begin:
  assumes ok: "ledger_ok seen m" and old: "dict_get (jm_jobs m) i = Some r" "jr_phase r = PQueue"
    and phase: "phase \<noteq> PQueue"
  shows "ledger_ok seen (begin_work i now phase r m)"
proof -
  let ?r = "r\<lparr>jr_status := ''running'', jr_started_at := Some now, jr_phase := phase\<rparr>"
  let ?m = "put_job i ?r m" and ?v = "invocation_of r"
  have put: "ledger_ok seen ?m"
    by (rule ledger_put [OF ok old(1)]) (use phase in auto)
  have fresh: "?v \<noteq> [] \<Longrightarrow> points_to m ?v i \<and> \<not> has_run (jm_effects m) (?v)"
    using ledger_okD(4) [OF ok] old by (auto simp: queue_fresh_def)
  have result: "begin_work i now phase r m = ?m\<lparr>jm_effects := jm_effects m @ [(?v, i)]\<rparr>"
    by (simp add: begin_work_def Let_def)
  have "effects_known seen (begin_work i now phase r m)"
    using ledger_okD(3) [OF put] fresh unfolding result
    by (auto simp: effects_known_def accounted_def)
  moreover have "queue_fresh (begin_work i now phase r m)"
    unfolding queue_fresh_def
  proof (intro allI impI)
    fix j r' assume "dict_get (jm_jobs (begin_work i now phase r m)) j = Some r' \<and> jr_phase r' = PQueue \<and> invocation_of r' \<noteq> []"
    then have j: "j \<noteq> i" "dict_get (jm_jobs m) j = Some r'" "jr_phase r' = PQueue" "invocation_of r' \<noteq> []"
      using phase by (auto simp: result split: if_splits)
    then have "points_to m (invocation_of r') j" "\<not> has_run (jm_effects m) (invocation_of r')"
      using ledger_okD(4) [OF ok] by (auto simp: queue_fresh_def)
    moreover from this(1) have "invocation_of r' \<noteq> ?v"
      using fresh j(1,4) by auto
    ultimately show "points_to (begin_work i now phase r m) (invocation_of r') j
        \<and> \<not> has_run (jm_effects (begin_work i now phase r m)) (invocation_of r')"
      by (auto simp: result)
  qed
  moreover have "ran_once (jm_effects (begin_work i now phase r m))"
    using ledger_okD(5) [OF ok] fresh by (auto simp: result ran_once_def has_run_def)
  ultimately show ?thesis
    using ledger_okD(1,2) [OF put] by (simp add: ledger_ok_def result jobs_keyed_def ledger_backed_def)
qed

text \<open>A job gives up in the queue: its entry goes, and nothing of its invocation has run.\<close>

lemma ledger_give_up:
  assumes ok: "ledger_ok seen m" and old: "dict_get (jm_jobs m) i = Some r0" "jr_phase r0 = PQueue"
    and same: "jr_request r = jr_request r0"
  shows "ledger_ok seen (give_up i now status r m)"
proof -
  let ?m = "finish_job i now status False r m" and ?v = "invocation_of r0"
  have fin: "ledger_ok seen ?m"
    using ledger_finish [OF ok old(1)] same by simp
  have job: "dict_get (jm_jobs ?m) i = Some (r\<lparr>jr_finished_at := Some now, jr_status := status, jr_phase := PDone\<rparr>)"
    by (simp add: finish_job_def Let_def)
  have fresh: "?v \<noteq> [] \<Longrightarrow> \<not> has_run (jm_effects ?m) (?v)"
    using ledger_okD(4) [OF ok] old by (auto simp: queue_fresh_def finish_job_def Let_def)
  have id: "rq_job_id (jr_request r) = i"
    using ledger_okD(1) [OF ok] old(1) same by (simp add: jobs_keyed_def)
  show ?thesis
  proof (cases "?v \<noteq> [] \<and> points_to ?m ?v i")
    case False
    then have "give_up i now status r m = ?m"
      using id same by (auto simp: give_up_def forget_dispatch_def split: option.splits)
    with fin show ?thesis by simp
  next
    case True
    then have result: "give_up i now status r m = ?m\<lparr>jm_invocations := dict_del (jm_invocations ?m) ?v\<rparr>"
      using id same by (auto simp: give_up_def forget_dispatch_def)
    have "effects_known seen (give_up i now status r m)"
      unfolding effects_known_def
    proof (intro allI impI)
      fix v j assume v: "(v, j) \<in> set (jm_effects (give_up i now status r m)) \<and> v \<noteq> []"
      then have "has_run (jm_effects ?m) v"
        by (auto simp: result intro: ran_has_run)
      then have "v \<noteq> ?v"
        using fresh True by metis
      with v show "accounted seen (give_up i now status r m) v j"
        using ledger_okD(3) [OF fin] by (auto simp: result effects_known_def accounted_def)
    qed
    moreover have "queue_fresh (give_up i now status r m)"
      unfolding queue_fresh_def
    proof (intro allI impI)
      fix j q assume "dict_get (jm_jobs (give_up i now status r m)) j = Some q \<and> jr_phase q = PQueue
        \<and> invocation_of q \<noteq> []"
      then have q: "j \<noteq> i" "points_to ?m (invocation_of q) j" "\<not> has_run (jm_effects ?m) (invocation_of q)"
        using ledger_okD(4) [OF fin] job by (auto simp: result queue_fresh_def)
      moreover from this have "invocation_of q \<noteq> ?v"
        using True by auto
      ultimately show "points_to (give_up i now status r m) (invocation_of q) j
          \<and> \<not> has_run (jm_effects (give_up i now status r m)) (invocation_of q)"
        by (simp add: result)
    qed
    moreover have "ledger_backed seen (give_up i now status r m)"
      using ledger_okD(2) [OF fin] by (auto simp: result ledger_backed_def)
    ultimately show ?thesis
      using ledger_okD(1,5) [OF fin] by (simp add: ledger_ok_def result jobs_keyed_def)
  qed
qed

section \<open>The steps of a job\<close>

lemma ledger_queue_step:
  assumes "ledger_ok seen m" "dict_get (jm_jobs m) i = Some r" "jr_phase r = PQueue"
  shows "ledger_ok seen (queue_step i now late r m)"
proof -
  have "ledger_ok seen (begin_work i now PPrepare r (m\<lparr>jm_holders := h\<rparr>))" for h
    by (rule ledger_begin) (use assms in simp_all)
  moreover have "ledger_ok seen (begin_work i now PCreate r m)"
    by (rule ledger_begin) (use assms in simp_all)
  moreover have "ledger_ok seen (give_up i now status r m)"
    "ledger_ok seen (give_up i now status (r\<lparr>jr_error := e\<rparr>) m)" for status e
    by (rule ledger_give_up [where ?r0.0 = r]; use assms in simp)+
  ultimately show ?thesis
    using assms(1) by (simp add: queue_step_def Let_def)
qed

lemma ledger_docker_step:
  assumes "ledger_ok seen m" "dict_get (jm_jobs m) i = Some r"
  shows "ledger_ok seen (docker_step i now ans r m)"
proof -
  have put: "ledger_ok seen (put_job i r' m)"
    if "jr_request r' = jr_request r" "jr_phase r' \<noteq> PQueue" for r'
    by (rule ledger_put [OF assms]) (use that in simp_all)
  have fin: "ledger_ok seen (finish_job i now status h r' m)" if "jr_request r' = jr_request r" for r' status h
    by (rule ledger_finish [OF assms]) (use that in simp_all)
  show ?thesis
    using assms(1) put fin
    by (auto simp: docker_step_def fail_job_def split: job_phase.split docker_answer.split)
qed

lemma ledger_cancel: "ledger_ok seen m \<Longrightarrow> ledger_ok seen (cancel i m)"
  by (auto simp: cancel_def job_step_def split: option.split intro!: ledger_put)

lemma ledger_run_queue: "ledger_ok seen m \<Longrightarrow> ledger_ok seen (run_queue_step i now late m)"
  by (auto simp: run_queue_step_def job_step_def split: option.split intro: ledger_queue_step)

lemma ledger_run_docker: "ledger_ok seen m \<Longrightarrow> ledger_ok seen (run_docker_step i now ans m)"
  by (auto simp: run_docker_step_def job_step_def split: option.split intro: ledger_docker_step)

section \<open>Forgetting\<close>

lemma remembering_forget: "remembering_since m \<le> remembering_since (forget_job i r m)"
  by (auto simp: forget_job_def Let_def remembering_since_def split: option.split)

lemma forget_job_jobs [simp]:
  "dict_get (jm_jobs (forget_job i r m)) j = (if j = i then None else dict_get (jm_jobs m) j)"
  "jm_effects (forget_job i r m) = jm_effects m"
  by (auto simp: forget_job_def Let_def split: option.split)

lemma ledger_forget:
  assumes ok: "ledger_ok seen m" and job: "dict_get (jm_jobs m) i = Some r" "jr_phase r \<noteq> PQueue"
  shows "ledger_ok seen (forget_job i r m)"
proof (cases "points_to m (invocation_of r) i")
  case False
  have "invocation_of r \<noteq> [] \<longrightarrow> \<not> points_to m (invocation_of r) i"
    using False by simp
  then have result: "forget_job i r m = m\<lparr>jm_jobs := dict_del (jm_jobs m) i\<rparr>"
    by (auto simp: forget_job_def Let_def split: option.split)
  have "ledger_backed seen (forget_job i r m)"
    unfolding ledger_backed_def
  proof (intro allI impI)
    fix v d assume "dict_get (jm_invocations (forget_job i r m)) v = Some d"
    then have d: "dict_get (jm_invocations m) v = Some d"
      by (simp add: result)
    then obtain q where q: "v \<noteq> []" "(v, dp_at d) \<in> set seen" "dict_get (jm_jobs m) (dp_job_id d) = Some q"
      "invocation_of q = v"
      using ledger_okD(2) [OF ok] unfolding ledger_backed_def by blast
    then have "dp_job_id d \<noteq> i"
      using d False job(1) by auto
    with q show "v \<noteq> [] \<and> (v, dp_at d) \<in> set seen
        \<and> (\<exists>r'. dict_get (jm_jobs (forget_job i r m)) (dp_job_id d) = Some r' \<and> invocation_of r' = v)"
      by simp
  qed
  moreover have "jobs_keyed (forget_job i r m)" "queue_fresh (forget_job i r m)" "effects_known seen (forget_job i r m)"
    using ledger_okD(1,3,4) [OF ok]
    by (auto simp: result jobs_keyed_def queue_fresh_def effects_known_def accounted_def wf_dict_del)
  ultimately show ?thesis
    using ledger_okD(5) [OF ok] by (simp add: ledger_ok_def)
next
  case True
  let ?v = "invocation_of r"
  from True obtain d where d: "dict_get (jm_invocations m) ?v = Some d" "dp_job_id d = i"
    by blast
  then have v: "?v \<noteq> []" "(?v, dp_at d) \<in> set seen"
    using ledger_okD(2) [OF ok] unfolding ledger_backed_def by blast+
  let ?t = "case jm_forgotten_through m of None \<Rightarrow> dp_at d | Some t \<Rightarrow> max t (dp_at d)"
  have result: "forget_job i r m = m\<lparr>jm_jobs := dict_del (jm_jobs m) i,
      jm_invocations := dict_del (jm_invocations m) ?v, jm_forgotten_through := Some ?t\<rparr>"
    using d v(1) by (simp add: forget_job_def Let_def)
  have past: "dp_at d \<le> remembering_since (forget_job i r m)"
    by (auto simp: result remembering_since_def split: option.split)
  have "ledger_backed seen (forget_job i r m)"
    unfolding ledger_backed_def
  proof (intro allI impI)
    fix w e assume "dict_get (jm_invocations (forget_job i r m)) w = Some e"
    then have e: "dict_get (jm_invocations m) w = Some e" "w \<noteq> ?v"
      by (auto simp: result split: if_splits)
    then obtain q where q: "w \<noteq> []" "(w, dp_at e) \<in> set seen" "dict_get (jm_jobs m) (dp_job_id e) = Some q"
      "invocation_of q = w"
      using ledger_okD(2) [OF ok] unfolding ledger_backed_def by blast
    then have "dp_job_id e \<noteq> i"
      using e(2) job(1) by auto
    with q show "w \<noteq> [] \<and> (w, dp_at e) \<in> set seen
        \<and> (\<exists>r'. dict_get (jm_jobs (forget_job i r m)) (dp_job_id e) = Some r' \<and> invocation_of r' = w)"
      by simp
  qed
  moreover have "effects_known seen (forget_job i r m)"
    unfolding effects_known_def
  proof (intro allI impI)
    fix w j assume "(w, j) \<in> set (jm_effects (forget_job i r m)) \<and> w \<noteq> []"
    then have "accounted seen m w j"
      using ledger_okD(3) [OF ok] by (simp add: effects_known_def)
    then consider (entry) "points_to m w j" | (old) t where "(w, t) \<in> set seen" "t \<le> remembering_since m"
      unfolding accounted_def by blast
    then show "accounted seen (forget_job i r m) w j"
    proof cases
      case entry
      then show ?thesis
        using v(2) past by (cases "w = ?v") (auto simp: accounted_def result)
    next
      case old
      then show ?thesis
        using remembering_forget [of m i r] unfolding accounted_def by fastforce
    qed
  qed
  moreover have "queue_fresh (forget_job i r m)"
    unfolding queue_fresh_def
  proof (intro allI impI)
    fix j q assume "dict_get (jm_jobs (forget_job i r m)) j = Some q \<and> jr_phase q = PQueue \<and> invocation_of q \<noteq> []"
    then have q: "j \<noteq> i" "points_to m (invocation_of q) j" "\<not> has_run (jm_effects m) (invocation_of q)"
      using ledger_okD(4) [OF ok] by (auto simp: queue_fresh_def split: if_splits)
    moreover from q have "invocation_of q \<noteq> ?v"
      using d by auto
    ultimately show "points_to (forget_job i r m) (invocation_of q) j
        \<and> \<not> has_run (jm_effects (forget_job i r m)) (invocation_of q)"
      by (simp add: result)
  qed
  moreover have "jobs_keyed (forget_job i r m)"
    using ledger_okD(1) [OF ok] by (simp add: result jobs_keyed_def wf_dict_del)
  ultimately show ?thesis
    using ledger_okD(5) [OF ok] by (simp add: ledger_ok_def)
qed

lemma ledger_mapped:
  assumes ok: "ledger_ok seen m"
    and same: "\<And>i r. rq_job_id (jr_request (f i r)) = rq_job_id (jr_request r)"
      "\<And>i r. invocation_of (f i r) = invocation_of r" "\<And>i r. jr_phase (f i r) = jr_phase r"
  shows "ledger_ok seen (m\<lparr>jm_jobs := map (\<lambda>(i, r). (i, f i r)) (jm_jobs m)\<rparr>)"
proof -
  let ?m = "m\<lparr>jm_jobs := map (\<lambda>(i, r). (i, f i r)) (jm_jobs m)\<rparr>"
  have "jobs_keyed ?m"
    using ledger_okD(1) [OF ok] same(1) by (auto simp: jobs_keyed_def wf_dict_mapped dict_get_mapped)
  moreover have "ledger_backed seen ?m"
    using ledger_okD(2) [OF ok] same(2) by (fastforce simp: ledger_backed_def dict_get_mapped)
  moreover have "queue_fresh ?m"
    using ledger_okD(4) [OF ok] same(2,3) by (auto simp: queue_fresh_def dict_get_mapped)
  moreover have "effects_known seen ?m"
    using ledger_okD(3) [OF ok] by (simp add: effects_known_def accounted_def)
  ultimately show ?thesis
    using ledger_okD(5) [OF ok] by (simp add: ledger_ok_def)
qed

lemma ledger_surplus: "ledger_ok seen m \<Longrightarrow> ledger_ok seen (release_surplus_output st m)"
  unfolding release_surplus_output_def Let_def by (rule ledger_mapped) (simp_all add: release_output_def)

abbreviation forget_all :: "runner_settings \<Rightarrow> int \<Rightarrow> job_record dict \<Rightarrow> job_manager \<Rightarrow> job_manager" where
  "forget_all st now js m \<equiv> fold (\<lambda>(i, r) acc. if forgettable st now r then forget_job i r acc else acc) js m"

lemma forget_all_jobs: "dict_get (jm_jobs m) i = None \<Longrightarrow> dict_get (jm_jobs (forget_all st now js m)) i = None"
  by (induction js arbitrary: m) (auto split: prod.split)

lemma forget_all_effects [simp]: "jm_effects (forget_all st now js m) = jm_effects m"
  by (induction js arbitrary: m) (auto split: prod.split)

lemma ledger_forget_all:
  "ledger_ok seen m \<Longrightarrow> wf_dict js \<Longrightarrow> \<forall>i r. (i, r) \<in> set js \<longrightarrow> dict_get (jm_jobs m) i = Some r
   \<Longrightarrow> ledger_ok seen (forget_all st now js m)"
proof (induction js arbitrary: m)
  case (Cons p js)
  obtain i r where p: "p = (i, r)"
    by (cases p)
  have next_ok: "ledger_ok seen (if forgettable st now r then forget_job i r m else m)"
    using Cons.prems p by (auto simp: forgettable_def task_done_def split: option.splits intro!: ledger_forget)
  have rest: "\<forall>j q. (j, q) \<in> set js \<longrightarrow>
      dict_get (jm_jobs (if forgettable st now r then forget_job i r m else m)) j = Some q"
    using Cons.prems(2,3) p by (force simp: wf_dict_def)
  show ?case
    using Cons.IH [OF next_ok _ rest] Cons.prems(2) p by (simp add: wf_dict_def)
qed simp

lemma ledger_forget_expired:
  assumes "ledger_ok seen m"
  shows "ledger_ok seen (forget_expired st now m)"
  unfolding forget_expired_def Let_def
proof (rule ledger_forget_all)
  show ok: "ledger_ok seen (release_surplus_output st m)"
    using assms by (rule ledger_surplus)
  then show "wf_dict (jm_jobs (release_surplus_output st m))"
    by (simp add: ledger_ok_def jobs_keyed_def)
  then show "\<forall>i r. (i, r) \<in> set (jm_jobs (release_surplus_output st m))
      \<longrightarrow> dict_get (jm_jobs (release_surplus_output st m)) i = Some r"
    by (simp add: dict_get_member)
qed

lemma forget_expired_jobs:
  "dict_get (jm_jobs m) i = None \<Longrightarrow> dict_get (jm_jobs (forget_expired st now m)) i = None"
  unfolding forget_expired_def Let_def
  by (rule forget_all_jobs) (simp add: release_surplus_output_def Let_def dict_get_mapped)

lemma forget_expired_effects [simp]: "jm_effects (forget_expired st now m) = jm_effects m"
  by (simp add: forget_expired_def Let_def release_surplus_output_def)

section \<open>Submitting and restarting\<close>

lemma ledger_accept:
  assumes ok: "ledger_ok seen m" and new: "dict_get (jm_jobs m) (rq_job_id rq) = None"
    and free: "rq_invocation_id rq \<noteq> [] \<Longrightarrow>
      dict_get (jm_invocations m) (rq_invocation_id rq) = None \<and> \<not> has_run (jm_effects m) (rq_invocation_id rq)"
  shows "ledger_ok ((rq_invocation_id rq, now) # seen) (snd (accept_job st now rq m))"
proof (cases "resolve_limits rq st")
  case (Inl e)
  then show ?thesis
    using ok by (auto simp: accept_job_def intro: ledger_ok_more)
next
  case (Inr limits)
  let ?v = "rq_invocation_id rq" and ?i = "rq_job_id rq"
  let ?seen = "(?v, now) # seen" and ?m = "snd (accept_job st now rq m)"
  obtain cpu memory pids secs where limits: "limits = (cpu, memory, pids, secs)"
    by (cases limits)
  have result: "jm_jobs ?m = dict_set (jm_jobs m) ?i (new_record st now rq secs)"
    "jm_invocations ?m = (if ?v = [] then jm_invocations m
       else dict_set (jm_invocations m) ?v \<lparr>dp_job_id = ?i, dp_at = now\<rparr>)"
    "jm_effects ?m = jm_effects m" "remembering_since ?m = remembering_since m"
    using Inr limits by (simp_all add: accept_job_def Let_def)
  have rec: "jr_request (new_record st now rq secs) = rq" "jr_phase (new_record st now rq secs) = PQueue"
    by (simp_all add: new_record_def)
  have "jobs_keyed ?m"
    using ledger_okD(1) [OF ok] rec by (auto simp: result jobs_keyed_def wf_dict_set)
  moreover have "ledger_backed ?seen ?m"
    unfolding ledger_backed_def
  proof (intro allI impI)
    fix v d assume d: "dict_get (jm_invocations ?m) v = Some d"
    show "v \<noteq> [] \<and> (v, dp_at d) \<in> set ?seen
        \<and> (\<exists>r. dict_get (jm_jobs ?m) (dp_job_id d) = Some r \<and> invocation_of r = v)"
    proof (cases "?v \<noteq> [] \<and> v = ?v")
      case True
      with d rec show ?thesis
        by (auto simp: result)
    next
      case False
      with d have "dict_get (jm_invocations m) v = Some d"
        by (auto simp: result split: if_splits)
      then obtain r where "v \<noteq> []" "(v, dp_at d) \<in> set seen" "dict_get (jm_jobs m) (dp_job_id d) = Some r"
        "invocation_of r = v"
        using ledger_okD(2) [OF ok] unfolding ledger_backed_def by blast
      with new show ?thesis
        by (auto simp: result)
    qed
  qed
  moreover have "effects_known ?seen ?m"
    unfolding effects_known_def
  proof (intro allI impI)
    fix v i assume v: "(v, i) \<in> set (jm_effects ?m) \<and> v \<noteq> []"
    then have "has_run (jm_effects m) v" "accounted seen m v i"
      using ledger_okD(3) [OF ok] by (auto simp: result effects_known_def intro: ran_has_run)
    with v free show "accounted ?seen ?m v i"
      by (auto simp: accounted_def result)
  qed
  moreover have "queue_fresh ?m"
    unfolding queue_fresh_def
  proof (intro allI impI)
    fix i r assume r: "dict_get (jm_jobs ?m) i = Some r \<and> jr_phase r = PQueue \<and> invocation_of r \<noteq> []"
    show "points_to ?m (invocation_of r) i \<and> \<not> has_run (jm_effects ?m) (invocation_of r)"
    proof (cases "i = ?i")
      case True
      with r rec free show ?thesis
        by (auto simp: result)
    next
      case False
      with r have old: "points_to m (invocation_of r) i" "\<not> has_run (jm_effects m) (invocation_of r)"
        using ledger_okD(4) [OF ok] by (auto simp: result queue_fresh_def)
      with r free have "invocation_of r \<noteq> ?v"
        by auto
      with old show ?thesis
        by (simp add: result)
    qed
  qed
  ultimately show ?thesis
    using ledger_okD(5) [OF ok] by (simp add: ledger_ok_def result)
qed

text \<open>What the callers say truly is what the runner needs: an invocation that ran is never accepted again.\<close>

lemma ran_is_refused:
  assumes ok: "ledger_ok seen m" and ran: "has_run (jm_effects m) v" "v \<noteq> []" and v: "rq_invocation_id rq = v"
    and absent: "dict_get (jm_invocations m) v = None"
    and truly: "states_truly seen rq" "rq_prior_dispatch rq = Some prior"
  shows "prior_problem now prior m \<noteq> None"
proof -
  obtain i where "(v, i) \<in> set (jm_effects m)"
    using ran(1) by (auto simp: has_run_def)
  then have "accounted seen m v i"
    using ledger_okD(3) [OF ok] ran(2) by (simp add: effects_known_def)
  then obtain t where t: "(v, t) \<in> set seen" "t \<le> remembering_since m"
    using absent by (auto simp: accounted_def)
  then obtain p where "prior = Some p" "p \<le> t + INCARNATION_SKEW"
    using truly v ran(2) by (cases prior) (force simp: states_truly_def list_all_iff)+
  then show ?thesis
    using t(2) by (simp add: prior_problem_def)
qed

lemma ledger_submit:
  assumes ok: "ledger_ok seen m" and truly: "states_truly seen rq"
  shows "ledger_ok ((rq_invocation_id rq, now) # seen) (snd (submit st now rq m))"
proof (cases "dict_get (jm_jobs m) (rq_job_id rq) = None")
  case False
  then show ?thesis
    using ok by (auto simp: submit_def intro: ledger_ok_more)
next
  case True
  let ?m = "forget_expired st now m" and ?v = "rq_invocation_id rq"
  have ok': "ledger_ok seen ?m"
    by (rule ledger_forget_expired [OF ok])
  then have unchanged: "ledger_ok ((?v, now) # seen) ?m"
    by (rule ledger_ok_more) auto
  have new: "dict_get (jm_jobs ?m) (rq_job_id rq) = None"
    using True by (rule forget_expired_jobs)
  have accept: "ledger_ok ((?v, now) # seen) (snd (accept_job st now rq ?m))"
    if "?v \<noteq> [] \<Longrightarrow> dict_get (jm_invocations ?m) ?v = None
        \<and> (\<exists>prior. rq_prior_dispatch rq = Some prior \<and> prior_problem now prior ?m = None)"
    by (rule ledger_accept [OF ok' new]) (use that ran_is_refused [OF ok' _ _ refl _ truly] in blast)
  show ?thesis
    using True unchanged accept
    by (auto simp: submit_def Let_def split: option.split)
qed

lemma ledger_restart:
  assumes ok: "ledger_ok seen m" and late: "list_all (\<lambda>(i, t). t \<le> now) seen"
  shows "ledger_ok seen (start_runner now (jm_effects m))"
proof -
  let ?m = "start_runner now (jm_effects m)"
  have "effects_known seen ?m"
    unfolding effects_known_def
  proof (intro allI impI)
    fix v i assume "(v, i) \<in> set (jm_effects ?m) \<and> v \<noteq> []"
    then have "accounted seen m v i"
      using ledger_okD(3) [OF ok] by (simp add: start_runner_def effects_known_def)
    then obtain t where "(v, t) \<in> set seen"
      using ledger_okD(2) [OF ok] unfolding accounted_def ledger_backed_def by blast
    with late show "accounted seen ?m v i"
      by (fastforce simp: accounted_def start_runner_def remembering_since_def list_all_iff)
  qed
  then show ?thesis
    using ledger_okD(5) [OF ok]
    by (simp add: ledger_ok_def ledger_defs start_runner_def dict_get_def wf_dict_def)
qed

section \<open>The runner\<close>

lemma rn_jobs_parts [simp]:
  "rn_jobs (set_holders h s) = (rn_jobs s)\<lparr>jm_holders := h\<rparr>"
  "rn_jobs (update_object obj f s) = rn_jobs s"
  "rn_jobs (set_phase c p s) = rn_jobs s"
  "rn_jobs (on_jobs g s) = g (rn_jobs s)"
  by (simp_all add: set_holders_def update_object_def set_phase_def on_jobs_def)

lemma ledger_session_steps [simp]:
  "ledger_ok seen (rn_jobs (snd (create_begin rq s))) = ledger_ok seen (rn_jobs s)"
  "ledger_ok seen (rn_jobs (create_step now ok s)) = ledger_ok seen (rn_jobs s)"
  "ledger_ok seen (rn_jobs (stop_begin i expiring s)) = ledger_ok seen (rn_jobs s)"
  "ledger_ok seen (rn_jobs (stop_step redact n now ok s)) = ledger_ok seen (rn_jobs s)"
  "ledger_ok seen (rn_jobs (cleanup_one now i s)) = ledger_ok seen (rn_jobs s)"
  "ledger_ok seen (rn_jobs (read_over redact obj code s)) = ledger_ok seen (rn_jobs s)"
  "ledger_ok seen (rn_jobs (read_end obj now s)) = ledger_ok seen (rn_jobs s)"
  "ledger_ok seen (rn_jobs (operation_end key i s)) = ledger_ok seen (rn_jobs s)"
  "ledger_ok seen (rn_jobs (snd (operation_begin key i s))) = ledger_ok seen (rn_jobs s)"
  by (simp_all add: create_begin_def create_step_def abort_creation_def stop_begin_def stop_step_def Let_def
      cleanup_one_def read_over_def read_end_def operation_end_def operation_begin_def
      split: option.split create_phase.split stop_phase.split)

lemma ledger_step:
  "ledger_ok seen (rn_jobs s) \<Longrightarrow> honest_event seen e \<Longrightarrow>
   ledger_ok (dispatched e seen) (rn_jobs (runner_step st redact e s))"
  by (cases e) (simp_all add: ledger_submit ledger_cancel ledger_run_queue ledger_run_docker ledger_restart
      read_chunk_def input_step_def fresh_runner_def split: option.split)

lemma ledger_run:
  "ledger_ok seen (rn_jobs s) \<Longrightarrow> honest seen es \<Longrightarrow> ran_once (effects (run st redact es s))"
proof (induction es arbitrary: seen s)
  case Nil
  then show ?case
    by (simp add: effects_def ledger_ok_def)
next
  case (Cons e es)
  show ?case
    using Cons.IH [OF ledger_step] Cons.prems by simp
qed

text \<open>
  A tool call runs at most once. However requests, cancellations, Docker's answers, sessions, file
  operations and restarts of the runner interleave, no two jobs of one invocation ever leave the workspace
  queue, although the runner drops finished jobs and forgets everything at a restart. This rests on what
  callers say: one that dispatched the invocation before states the moment of the earliest dispatch.
\<close>

theorem calls_run_once:
  assumes "honest [] es"
  shows "ran_once (effects (run st redact es (fresh_runner now [])))"
  using assms
  by (rule ledger_run [rotated])
     (simp add: fresh_runner_def start_runner_def ledger_ok_def ledger_defs dict_get_def wf_dict_def ran_once_def)

text \<open>A call dispatched again after a restart, and again: it ran once.\<close>

definition repeated_call :: "runner_event list" where
  "repeated_call =
     [Submit 10 (job_on ''j1'' ''a'' ''w'' (Some None)), QueueTry ''j1'' 10 False, Restart 30000000,
      Submit 40000000 (job_on ''j2'' ''a'' ''w'' (Some (Some 9))), QueueTry ''j2'' 40000000 False]"

theorem calls_run_once_witness:
  "ran_once (effects (run small_settings plain_redactor repeated_call (fresh_runner 0 [])))
   \<and> effects (run small_settings plain_redactor repeated_call (fresh_runner 0 [])) = [(''a'', ''j1'')]"
proof
  have "honest [] repeated_call"
    by code_simp
  then show "ran_once (effects (run small_settings plain_redactor repeated_call (fresh_runner 0 [])))"
    by (rule calls_run_once)
  show "effects (run small_settings plain_redactor repeated_call (fresh_runner 0 [])) = [(''a'', ''j1'')]"
    by code_simp
qed

end
