(* ===== verification/SandboxFence.thy ===== *)
theory SandboxFence
  imports SandboxLedger
begin

text \<open>
  The workspace table as a fence: who may touch a disk, stated once for any system whose steps are quiet, take
  a free workspace or release their own, and established for the jobs, sessions and operations of the runner.
\<close>

section \<open>Fences\<close>

type_synonym touches = "(string \<times> string) set"

text \<open>Whoever touches a workspace is its holder in the table.\<close>

definition fenced :: "touches \<Rightarrow> (string \<rightharpoonup> string) \<Rightarrow> bool" where
  "fenced t h \<longleftrightarrow> (\<forall>k i. (k, i) \<in> t \<longrightarrow> h k = Some i)"

definition fence_quiet :: "touches \<Rightarrow> (string \<rightharpoonup> string) \<Rightarrow> touches \<Rightarrow> (string \<rightharpoonup> string) \<Rightarrow> bool" where
  "fence_quiet t h t' h' \<longleftrightarrow> t' \<subseteq> t \<and> h' = h"

definition fence_take :: "touches \<Rightarrow> (string \<rightharpoonup> string) \<Rightarrow> touches \<Rightarrow> (string \<rightharpoonup> string) \<Rightarrow> bool" where
  "fence_take t h t' h' \<longleftrightarrow>
     (\<exists>k i. workspace_is_free h k i \<and> t' \<subseteq> insert (k, i) t \<and> h' = take_workspace k i h)"

definition fence_release ::
  "(string \<Rightarrow> bool) \<Rightarrow> touches \<Rightarrow> (string \<rightharpoonup> string) \<Rightarrow> touches \<Rightarrow> (string \<rightharpoonup> string) \<Rightarrow> bool" where
  "fence_release mine t h t' h' \<longleftrightarrow>
     (\<exists>k i. mine i \<and> t' \<subseteq> t - {(k, i)} \<and> h' = release_workspace k i h)"

definition fence_step ::
  "(string \<Rightarrow> bool) \<Rightarrow> touches \<Rightarrow> (string \<rightharpoonup> string) \<Rightarrow> touches \<Rightarrow> (string \<rightharpoonup> string) \<Rightarrow> bool" where
  "fence_step mine t h t' h' \<longleftrightarrow> fence_quiet t h t' h' \<or> fence_take t h t' h' \<or> fence_release mine t h t' h'"

lemma fence_step_quiet: "t' \<subseteq> t \<Longrightarrow> h' = h \<Longrightarrow> fence_step mine t h t' h'"
  by (simp add: fence_step_def fence_quiet_def)

lemma fence_step_take:
  "workspace_is_free h k i \<Longrightarrow> t' \<subseteq> insert (k, i) t \<Longrightarrow> h' = take_workspace k i h \<Longrightarrow> fence_step mine t h t' h'"
  by (auto simp: fence_step_def fence_take_def)

lemma fence_step_release:
  "mine i \<Longrightarrow> t' \<subseteq> t - {(k, i)} \<Longrightarrow> h' = release_workspace k i h \<Longrightarrow> fence_step mine t h t' h'"
  by (auto simp: fence_step_def fence_release_def)

lemma fenced_step: "fenced t h \<Longrightarrow> fence_step mine t h t' h' \<Longrightarrow> fenced t' h'"
  unfolding fence_step_def fence_quiet_def fence_take_def fence_release_def fenced_def
  by (auto simp: workspace_is_free_def take_workspace_def release_workspace_def split: option.splits)
    (fastforce split: if_splits)+

text \<open>A step of one kind of owner is a step beside what other kinds touch.\<close>

lemma fence_step_beside:
  assumes "fence_step mine t h t' h'" "\<And>k i. (k, i) \<in> u \<Longrightarrow> \<not> mine i"
  shows "fence_step (\<lambda>_. True) (t \<union> u) h (t' \<union> u) h'"
proof -
  consider (quiet) "fence_quiet t h t' h'" | (taken) "fence_take t h t' h'" | (released) "fence_release mine t h t' h'"
    using assms(1) by (auto simp: fence_step_def)
  then show ?thesis
  proof cases
    case quiet
    then show ?thesis
      by (intro fence_step_quiet) (auto simp: fence_quiet_def)
  next
    case taken
    then show ?thesis
      unfolding fence_take_def by (elim exE conjE) (rule fence_step_take; blast)
  next
    case released
    then show ?thesis
      unfolding fence_release_def using assms(2) by (elim exE conjE) (rule fence_step_release; blast)
  qed
qed

text \<open>
  The interface: a system, what it touches and its table, and an invariant under which each allowed step is a
  step of the fence or ends everything.
\<close>

locale workspace_fence =
  fixes touches_of :: "'s \<Rightarrow> touches"
    and table_of :: "'s \<Rightarrow> (string \<rightharpoonup> string)"
    and sound :: "'s \<Rightarrow> bool"
    and step :: "'e \<Rightarrow> 's \<Rightarrow> 's"
    and allowed :: "'s \<Rightarrow> 'e \<Rightarrow> bool"
  assumes sound_step: "\<lbrakk>sound s; allowed s e; fenced (touches_of s) (table_of s)\<rbrakk> \<Longrightarrow> sound (step e s)"
    and fence_law: "\<lbrakk>sound s; allowed s e; fenced (touches_of s) (table_of s)\<rbrakk> \<Longrightarrow>
      touches_of (step e s) = {}
      \<or> fence_step (\<lambda>_. True) (touches_of s) (table_of s) (touches_of (step e s)) (table_of (step e s))"
begin

primrec allowed_run :: "'e list \<Rightarrow> 's \<Rightarrow> bool" where
  "allowed_run [] s \<longleftrightarrow> True"
| "allowed_run (e # es) s \<longleftrightarrow> allowed s e \<and> allowed_run es (step e s)"

lemma sound_fenced_after:
  "sound s \<Longrightarrow> fenced (touches_of s) (table_of s) \<Longrightarrow> allowed_run es s \<Longrightarrow>
    sound (fold step es s) \<and> fenced (touches_of (fold step es s)) (table_of (fold step es s))"
proof (induction es arbitrary: s)
  case (Cons e es)
  have "fenced (touches_of (step e s)) (table_of (step e s))"
    using fence_law [of s e] Cons.prems fenced_step [OF Cons.prems(2)]
    by (cases "touches_of (step e s) = {}") (simp_all add: fenced_def)
  with Cons show ?case
    using sound_step by simp
qed simp

lemmas sound_after = sound_fenced_after [THEN conjunct1]
lemmas fenced_after = sound_fenced_after [THEN conjunct2]

lemma one_holder:
  assumes "sound s" "fenced (touches_of s) (table_of s)" "allowed_run es s"
    and "(k, i) \<in> touches_of (fold step es s)" "(k, j) \<in> touches_of (fold step es s)"
  shows "i = j"
proof -
  have "table_of (fold step es s) k = Some i" "table_of (fold step es s) k = Some j"
    using fenced_after [OF assms(1-3)] assms(4,5) unfolding fenced_def by blast+
  then show ?thesis
    by simp
qed

end

section \<open>Jobs\<close>

definition job_touch :: "job_manager \<Rightarrow> touches" where
  "job_touch m = {(rq_workspace_key (jr_request r), i) | i r. dict_get (jm_jobs m) i = Some r \<and> working r \<and> held r}"

definition jobs_named :: "(string \<Rightarrow> owner_kind) \<Rightarrow> job_manager \<Rightarrow> bool" where
  "jobs_named kind_of m \<longleftrightarrow>
     wf_dict (jm_jobs m) \<and> (\<forall>i r. dict_get (jm_jobs m) i = Some r \<longrightarrow> kind_of i = JobOwner)"

lemma job_touch_holders [simp]: "job_touch (m\<lparr>jm_holders := h\<rparr>) = job_touch m"
  by (simp add: job_touch_def)

lemma job_touch_named: "jobs_named kind_of m \<Longrightarrow> (k, i) \<in> job_touch m \<Longrightarrow> kind_of i = JobOwner"
  by (auto simp: job_touch_def jobs_named_def)

lemma jobs_named_holders [simp]: "jobs_named kind_of (m\<lparr>jm_holders := h\<rparr>) = jobs_named kind_of m"
  by (simp add: jobs_named_def)

abbreviation job_fence :: "(string \<Rightarrow> owner_kind) \<Rightarrow> job_manager \<Rightarrow> job_manager \<Rightarrow> bool" where
  "job_fence kind_of m m' \<equiv>
     fence_step (\<lambda>i. kind_of i = JobOwner) (job_touch m) (jm_holders m) (job_touch m') (jm_holders m')"

lemma jobs_named_put:
  "jobs_named kind_of m \<Longrightarrow> dict_get (jm_jobs m) i = Some r \<Longrightarrow> jobs_named kind_of (put_job i r' m)"
  by (auto simp: jobs_named_def put_job_def wf_dict_set)

lemma job_touch_put:
  "job_touch (put_job i r m) =
     {(k, j) \<in> job_touch m. j \<noteq> i} \<union> (if working r \<and> held r then {(rq_workspace_key (jr_request r), i)} else {})"
  by (auto simp: job_touch_def split: if_splits)

text \<open>A record replaced by one that touches no more is quiet; one that ends releases its own.\<close>

lemma job_fence_put:
  assumes "dict_get (jm_jobs m) i = Some r" "jr_request r' = jr_request r" "working r' \<Longrightarrow> working r"
  shows "job_fence kind_of m (put_job i r' m)"
  by (rule fence_step_quiet) (use assms in \<open>auto simp: job_touch_put job_touch_def held_def\<close>)

lemma job_fence_finish:
  assumes "jobs_named kind_of m" "dict_get (jm_jobs m) i = Some r0" "jr_request r = jr_request r0" "h = held r0"
  shows "job_fence kind_of m (finish_job i now status h r m)"
proof (cases h)
  case True
  have "kind_of i = JobOwner"
    using assms(1,2) by (simp add: jobs_named_def)
  then show ?thesis
    by (rule fence_step_release [where k = "rq_workspace_key (jr_request r)"])
       (use True in \<open>auto simp: finish_job_def Let_def job_touch_put working_def\<close>)
next
  case False
  then show ?thesis
    by (intro fence_step_quiet) (auto simp: finish_job_def Let_def job_touch_put working_def)
qed

lemma job_fence_queue:
  assumes named: "jobs_named kind_of m" and r: "dict_get (jm_jobs m) i = Some r" "jr_phase r = PQueue"
  shows "job_fence kind_of m (queue_step i now late r m)"
proof -
  let ?key = "rq_workspace_key (jr_request r)"
  have quiet: "job_fence kind_of m (give_up i now status r' m)" if "jr_request r' = jr_request r" for status r'
    by (rule fence_step_quiet)
       (auto simp: give_up_def forget_dispatch_def finish_job_def Let_def job_touch_def working_def split: option.splits if_splits)
  have begin_work: "job_fence kind_of m (begin_work i now PPrepare r (m\<lparr>jm_holders := take_workspace ?key i (jm_holders m)\<rparr>))"
    if "workspace_is_free (jm_holders m) ?key i"
    using that by (rule fence_step_take) (auto simp: begin_work_def Let_def job_touch_def split: if_splits)
  have keyless: "job_fence kind_of m (begin_work i now PCreate r m)" if "?key = []"
    by (rule fence_step_quiet) (use that in \<open>auto simp: begin_work_def Let_def job_touch_def held_def split: if_splits\<close>)
  show ?thesis
    using quiet begin_work keyless by (simp add: queue_step_def Let_def fence_step_quiet)
qed

lemma job_fence_docker:
  assumes named: "jobs_named kind_of m" and r: "dict_get (jm_jobs m) i = Some r"
  shows "job_fence kind_of m (docker_step i now ans r m)"
proof -
  have put: "job_fence kind_of m (put_job i r' m)"
    if "jr_request r' = jr_request r" "working r' \<Longrightarrow> working r" for r'
    using r that by (rule job_fence_put)
  have fin: "job_fence kind_of m (finish_job i now status (held r) r' m)" if "jr_request r' = jr_request r" for r' status
    using named r that by (rule job_fence_finish) simp
  have same: "job_fence kind_of m m"
    by (rule fence_step_quiet) simp_all
  show ?thesis
    using put fin same
    by (auto simp: docker_step_def fail_job_def working_def split: job_phase.split docker_answer.split)
qed

lemma jobs_named_queue:
  assumes "jobs_named kind_of m" "dict_get (jm_jobs m) i = Some r"
  shows "jobs_named kind_of (queue_step i now late r m)"
proof -
  have "jobs_named kind_of (forget_dispatch rq m') = jobs_named kind_of m'" for rq m'
    by (simp add: forget_dispatch_def jobs_named_def split: option.split)
  then show ?thesis
    using assms jobs_named_put [OF assms]
    by (simp add: queue_step_def begin_work_def give_up_def finish_job_def Let_def jobs_named_def put_job_def)
qed

lemma jobs_named_docker:
  assumes "jobs_named kind_of m" "dict_get (jm_jobs m) i = Some r"
  shows "jobs_named kind_of (docker_step i now ans r m)"
proof -
  have put: "jobs_named kind_of (put_job i r' m)" for r'
    using assms by (rule jobs_named_put)
  then have "jobs_named kind_of (finish_job i now status h r' m)" for status h r'
    using assms by (simp add: finish_job_def Let_def jobs_named_def put_job_def)
  with put assms(1) show ?thesis
    by (auto simp: docker_step_def fail_job_def split: job_phase.split docker_answer.split)
qed

text \<open>Submitting starts nothing yet, and what is forgotten had ended.\<close>

lemma forget_all_kept: "dict_get (jm_jobs (forget_all st now js m)) i = Some r \<Longrightarrow> dict_get (jm_jobs m) i = Some r"
proof (induction js arbitrary: m)
  case (Cons p js)
  obtain j q where p: "p = (j, q)"
    by (cases p)
  let ?m = "if forgettable st now q then forget_job j q m else m"
  have "dict_get (jm_jobs (forget_all st now js ?m)) i = Some r"
    using Cons.prems unfolding p by simp
  then have "dict_get (jm_jobs ?m) i = Some r"
    by (rule Cons.IH)
  then show ?case
    by (cases "forgettable st now q"; cases "i = j") simp_all
qed simp

lemma forget_job_wf [simp]: "wf_dict (jm_jobs m) \<Longrightarrow> wf_dict (jm_jobs (forget_job i r m))"
  by (auto simp: forget_job_def Let_def wf_dict_del split: option.split)

lemma forget_job_holders [simp]: "jm_holders (forget_job i r m) = jm_holders m"
  by (auto simp: forget_job_def Let_def split: option.split)

lemma forget_all_rest:
  "wf_dict (jm_jobs m) \<Longrightarrow> wf_dict (jm_jobs (forget_all st now js m))"
  "jm_holders (forget_all st now js m) = jm_holders m"
  by (induction js arbitrary: m) (auto split: prod.split)

lemma forget_expired_kept:
  assumes "dict_get (jm_jobs (forget_expired st now m)) i = Some r"
  shows "\<exists>r0. dict_get (jm_jobs m) i = Some r0 \<and> jr_phase r = jr_phase r0
    \<and> rq_workspace_key (jr_request r) = rq_workspace_key (jr_request r0)"
proof -
  have "dict_get (jm_jobs (release_surplus_output st m)) i = Some r"
    using assms unfolding forget_expired_def Let_def by (rule forget_all_kept)
  then show ?thesis
    by (auto simp: release_surplus_output_def Let_def dict_get_mapped release_output_def)
qed

lemma forget_expired_rest:
  "wf_dict (jm_jobs m) \<Longrightarrow> wf_dict (jm_jobs (forget_expired st now m))"
  "jm_holders (forget_expired st now m) = jm_holders m"
  unfolding forget_expired_def Let_def
  by (auto intro!: forget_all_rest(1) simp: forget_all_rest(2) release_surplus_output_def Let_def wf_dict_mapped)

lemma accept_job_cases:
  "snd (accept_job st now rq m) = m
   \<or> (\<exists>secs ds. snd (accept_job st now rq m) =
        m\<lparr>jm_jobs := dict_set (jm_jobs m) (rq_job_id rq) (new_record st now rq secs), jm_invocations := ds\<rparr>)"
proof (cases "resolve_limits rq st")
  case (Inr limits)
  let ?ds = "if rq_invocation_id rq = [] then jm_invocations m
    else dict_set (jm_invocations m) (rq_invocation_id rq) \<lparr>dp_job_id = rq_job_id rq, dp_at = now\<rparr>"
  have "snd (accept_job st now rq m) = m\<lparr>jm_jobs := dict_set (jm_jobs m) (rq_job_id rq)
      (new_record st now rq (snd (snd (snd limits)))), jm_invocations := ?ds\<rparr>"
    using Inr by (cases limits) (simp add: accept_job_def Let_def)
  then show ?thesis
    by blast
qed (simp add: accept_job_def)

lemma submit_cases:
  "snd (submit st now rq m) = m \<or> snd (submit st now rq m) = forget_expired st now m
   \<or> (dict_get (jm_jobs m) (rq_job_id rq) = None
      \<and> snd (submit st now rq m) = snd (accept_job st now rq (forget_expired st now m)))"
  by (auto simp: submit_def Let_def split: option.split)

lemma submit_touch:
  assumes "jobs_named kind_of m" "kind_of (rq_job_id rq) = JobOwner"
  shows "jobs_named kind_of (snd (submit st now rq m))" and "job_fence kind_of m (snd (submit st now rq m))"
proof -
  let ?m = "forget_expired st now m"
  have kept: "job_touch ?m \<subseteq> job_touch m" "jobs_named kind_of ?m" "jm_holders ?m = jm_holders m"
    using assms(1) forget_expired_rest forget_expired_kept
    by (fastforce simp: job_touch_def jobs_named_def working_def held_def)+
  have "jobs_named kind_of (snd (accept_job st now rq ?m))
      \<and> job_touch (snd (accept_job st now rq ?m)) \<subseteq> job_touch m
      \<and> jm_holders (snd (accept_job st now rq ?m)) = jm_holders m"
  proof (cases "snd (accept_job st now rq ?m) = ?m")
    case True
    with kept show ?thesis by simp
  next
    case False
    then obtain secs ds where new: "snd (accept_job st now rq ?m) =
        ?m\<lparr>jm_jobs := dict_set (jm_jobs ?m) (rq_job_id rq) (new_record st now rq secs), jm_invocations := ds\<rparr>"
      using accept_job_cases [of st now rq ?m] by blast
    have "jr_phase (new_record st now rq secs) = PQueue"
      by (simp add: new_record_def)
    then have "job_touch (snd (accept_job st now rq ?m)) \<subseteq> job_touch ?m"
      unfolding new job_touch_def by (auto simp: working_def split: if_splits)
    moreover have "jobs_named kind_of (snd (accept_job st now rq ?m))"
      using kept(2) assms(2) unfolding new by (auto simp: jobs_named_def wf_dict_set)
    ultimately show ?thesis
      using kept unfolding new by auto
  qed
  then have "jobs_named kind_of (snd (submit st now rq m)) \<and> job_touch (snd (submit st now rq m)) \<subseteq> job_touch m
      \<and> jm_holders (snd (submit st now rq m)) = jm_holders m"
    using submit_cases [of st now rq m] kept assms(1) by auto
  then show "jobs_named kind_of (snd (submit st now rq m))" "job_fence kind_of m (snd (submit st now rq m))"
    by (auto intro: fence_step_quiet)
qed

lemma cancel_touch:
  assumes "jobs_named kind_of m"
  shows "jobs_named kind_of (cancel i m)" and "job_fence kind_of m (cancel i m)"
proof -
  have "job_fence kind_of m (put_job i (r\<lparr>jr_cancel_requested := True\<rparr>) m)" if "dict_get (jm_jobs m) i = Some r" for r
    using that by (rule job_fence_put) (simp_all add: working_def)
  then show "jobs_named kind_of (cancel i m)" "job_fence kind_of m (cancel i m)"
    using assms
    by (auto simp: cancel_def job_step_def split: option.split intro: fence_step_quiet jobs_named_put)
qed

lemma run_queue_touch:
  assumes "jobs_named kind_of m"
  shows "jobs_named kind_of (run_queue_step i now late m)" and "job_fence kind_of m (run_queue_step i now late m)"
  using assms
  by (auto simp: run_queue_step_def job_step_def split: option.split
      intro: fence_step_quiet job_fence_queue jobs_named_queue)

lemma run_docker_touch:
  assumes "jobs_named kind_of m"
  shows "jobs_named kind_of (run_docker_step i now ans m)" and "job_fence kind_of m (run_docker_step i now ans m)"
  using assms
  by (auto simp: run_docker_step_def job_step_def split: option.split
      intro: fence_step_quiet job_fence_docker jobs_named_docker)

end
