(* ===== verification/SandboxExclusion.thy ===== *)
theory SandboxExclusion
  imports SandboxFence
begin

text \<open>
  Interactive sessions keep the fence as long as no one stops a session that is still being created, and break
  it when someone does.
\<close>

section \<open>The session manager's invariant\<close>

abbreviation session_at :: "runner \<Rightarrow> string \<Rightarrow> session_record \<Rightarrow> bool" where
  "session_at s i r \<equiv> dict_get (rn_records s) i = Some r"

abbreviation creation_id :: "creation \<Rightarrow> string" where
  "creation_id c \<equiv> sr_session_id (cr_request c)"

abbreviation stop_id :: "stop_task \<Rightarrow> string" where
  "stop_id t \<equiv> sr_session_id (sp_request t)"

text \<open>A record is kept under its session's id, is an object of its own, and is read only while it is alive.\<close>

definition record_ok :: "(string \<Rightarrow> owner_kind) \<Rightarrow> runner \<Rightarrow> string \<Rightarrow> session_record \<Rightarrow> bool" where
  "record_ok kind_of s i r \<longleftrightarrow>
     sr_session_id (se_request r) = i \<and> kind_of i = SessionOwner \<and> se_object r < rn_next_object s
     \<and> i \<notin> set (rn_retired s) \<and> (se_reader r \<longrightarrow> stoppable_status (se_status r))"

definition records_ok :: "(string \<Rightarrow> owner_kind) \<Rightarrow> runner \<Rightarrow> bool" where
  "records_ok kind_of s \<longleftrightarrow>
     wf_dict (rn_records s) \<and> (\<forall>i r. session_at s i r \<longrightarrow> record_ok kind_of s i r)
     \<and> (\<forall>i j r q. session_at s i r \<and> session_at s j q \<and> se_object r = se_object q \<longrightarrow> i = j)"

text \<open>A stop works on the record its session id leads to, unless that one is retired by now.\<close>

definition stop_ok :: "(string \<Rightarrow> owner_kind) \<Rightarrow> runner \<Rightarrow> stop_task \<Rightarrow> bool" where
  "stop_ok kind_of s t \<longleftrightarrow>
     sp_object t < rn_next_object s \<and> kind_of (stop_id t) = SessionOwner
     \<and> (stop_id t \<in> set (rn_retired s)
        \<or> (\<exists>r. session_at s (stop_id t) r \<and> se_object r = sp_object t \<and> se_request r = sp_request t))
     \<and> (\<forall>i r. session_at s i r \<and> se_object r = sp_object t \<longrightarrow>
          i = stop_id t \<and> (sp_phase t = StopMeasure \<longrightarrow> \<not> se_reader r))"

definition reading_ok :: "runner \<Rightarrow> nat \<times> string \<Rightarrow> bool" where
  "reading_ok s p \<longleftrightarrow>
     fst p < rn_next_object s \<and> \<not> stoppable_status (snd p)
     \<and> (\<forall>i r. session_at s i r \<and> se_object r = fst p \<longrightarrow> \<not> se_reader r)"

definition early_phase :: "create_phase \<Rightarrow> bool" where
  "early_phase p \<longleftrightarrow> p = CVolume \<or> p = CContainer"

text \<open>The session being created has its record from \<open>container.start\<close> on, and no one stops or reads it.\<close>

definition creation_ok :: "(string \<Rightarrow> owner_kind) \<Rightarrow> runner \<Rightarrow> creation \<Rightarrow> bool" where
  "creation_ok kind_of s c \<longleftrightarrow>
     cr_object c < rn_next_object s \<and> kind_of (creation_id c) = SessionOwner
     \<and> creation_id c \<notin> set (rn_retired s)
     \<and> (\<forall>t \<in> set (rn_stopping s). stop_id t \<noteq> creation_id c \<and> sp_object t \<noteq> cr_object c)
     \<and> (\<forall>p \<in> set (rn_reading s). fst p \<noteq> cr_object c)
     \<and> (if early_phase (cr_phase c)
        then dict_get (rn_records s) (creation_id c) = None \<and> (\<forall>i r. session_at s i r \<longrightarrow> se_object r \<noteq> cr_object c)
        else \<exists>r. session_at s (creation_id c) r \<and> se_object r = cr_object c \<and> se_request r = cr_request c
               \<and> \<not> se_reader r)"

definition sessions_ok :: "(string \<Rightarrow> owner_kind) \<Rightarrow> runner \<Rightarrow> bool" where
  "sessions_ok kind_of s \<longleftrightarrow>
     records_ok kind_of s \<and> (\<forall>t \<in> set (rn_stopping s). stop_ok kind_of s t)
     \<and> (\<forall>p \<in> set (rn_reading s). reading_ok s p)
     \<and> (case rn_creating s of None \<Rightarrow> True | Some c \<Rightarrow> creation_ok kind_of s c)"

lemma sessions_okD:
  assumes "sessions_ok kind_of s"
  shows "records_ok kind_of s" "t \<in> set (rn_stopping s) \<Longrightarrow> stop_ok kind_of s t"
    "p \<in> set (rn_reading s) \<Longrightarrow> reading_ok s p" "rn_creating s = Some c \<Longrightarrow> creation_ok kind_of s c"
  using assms by (auto simp: sessions_ok_def)

text \<open>Stops and readings stay in order when records only go.\<close>

lemma stop_ok_mono:
  assumes "stop_ok kind_of s t" "rn_next_object s \<le> rn_next_object s'" "set (rn_retired s) \<subseteq> set (rn_retired s')"
    and "\<And>i r. session_at s' i r \<Longrightarrow> session_at s i r"
    and "\<And>r. session_at s (stop_id t) r \<Longrightarrow> stop_id t \<notin> set (rn_retired s') \<Longrightarrow> session_at s' (stop_id t) r"
  shows "stop_ok kind_of s' t"
proof -
  have "sp_object t < rn_next_object s'"
    using assms(1,2) by (simp add: stop_ok_def)
  then show ?thesis
    using assms(1,3-5) unfolding stop_ok_def by blast
qed

lemma reading_ok_mono:
  assumes "reading_ok s p" "rn_next_object s \<le> rn_next_object s'" "\<And>i r. session_at s' i r \<Longrightarrow> session_at s i r"
  shows "reading_ok s' p"
proof -
  have "fst p < rn_next_object s'"
    using assms(1,2) by (simp add: reading_ok_def)
  then show ?thesis
    using assms(1,3) unfolding reading_ok_def by blast
qed

lemma creation_ok_same:
  assumes "creation_ok kind_of s c" "dict_get (rn_records s') = dict_get (rn_records s)"
    and "rn_retired s' = rn_retired s" "rn_next_object s' = rn_next_object s"
    and "\<And>t. t \<in> set (rn_stopping s') \<Longrightarrow> stop_id t \<noteq> creation_id c \<and> sp_object t \<noteq> cr_object c"
    and "\<And>p. p \<in> set (rn_reading s') \<Longrightarrow> fst p \<noteq> cr_object c"
  shows "creation_ok kind_of s' c"
  using assms by (simp add: creation_ok_def)

text \<open>None of this depends on the jobs, the table or the file operations.\<close>

lemma session_parts_jobs [simp]:
  "sessions_ok kind_of (s\<lparr>rn_jobs := m\<rparr>) = sessions_ok kind_of s"
  "sessions_ok kind_of (set_holders h s) = sessions_ok kind_of s"
  "sessions_ok kind_of (s\<lparr>rn_operations := ops\<rparr>) = sessions_ok kind_of s"
  by (simp_all add: sessions_ok_def records_ok_def record_ok_def stop_ok_def reading_ok_def creation_ok_def
      set_holders_def cong: option.case_cong if_cong)

definition session_touch :: "runner \<Rightarrow> touches" where
  "session_touch s =
     {session_key (se_request r) | i r. session_at s i r \<and> stoppable_status (se_status r)}
     \<union> (case rn_creating s of None \<Rightarrow> {} | Some c \<Rightarrow> {session_key (cr_request c)})"

lemma session_touch_jobs [simp]:
  "session_touch (s\<lparr>rn_jobs := m\<rparr>) = session_touch s"
  "session_touch (set_holders h s) = session_touch s"
  "session_touch (s\<lparr>rn_operations := ops\<rparr>) = session_touch s"
  by (simp_all add: session_touch_def set_holders_def)

lemma session_touch_named:
  "sessions_ok kind_of s \<Longrightarrow> (k, i) \<in> session_touch s \<Longrightarrow> kind_of i = SessionOwner"
  by (auto simp: session_touch_def session_key_def sessions_ok_def records_ok_def record_ok_def creation_ok_def
      split: option.splits)

lemma unique_object:
  "sessions_ok kind_of s \<Longrightarrow> session_at s i r \<Longrightarrow> session_at s j q \<Longrightarrow> se_object r = se_object q \<Longrightarrow> i = j"
  unfolding sessions_ok_def records_ok_def by blast

section \<open>Updating a record\<close>

lemma update_object_get [simp]:
  "dict_get (rn_records (update_object obj f s)) i
     = map_option (\<lambda>r. if se_object r = obj then f r else r) (dict_get (rn_records s) i)"
  by (simp add: update_object_def dict_get_mapped)

lemma update_object_rest [simp]:
  "rn_retired (update_object obj f s) = rn_retired s" "rn_creating (update_object obj f s) = rn_creating s"
  "rn_stopping (update_object obj f s) = rn_stopping s" "rn_reading (update_object obj f s) = rn_reading s"
  "rn_operations (update_object obj f s) = rn_operations s"
  "rn_next_object (update_object obj f s) = rn_next_object s"
  "wf_dict (rn_records (update_object obj f s)) = wf_dict (rn_records s)"
  by (simp_all add: update_object_def wf_dict_mapped)

lemma updated_record:
  "session_at (update_object obj f s) i r' \<Longrightarrow> \<exists>r. session_at s i r \<and> r' = (if se_object r = obj then f r else r)"
  unfolding update_object_get map_option_eq_Some by blast

text \<open>
  An update that leaves the identity and the request of a record alone, starts no reader, and lets a reader go
  on only over a live record.
\<close>

definition keeps_record :: "(session_record \<Rightarrow> session_record) \<Rightarrow> bool" where
  "keeps_record f \<longleftrightarrow>
     (\<forall>r. se_object (f r) = se_object r \<and> se_request (f r) = se_request r \<and> (se_reader (f r) \<longrightarrow> se_reader r))"

lemma keeps_recordD:
  assumes "keeps_record f"
  shows "se_object (f r) = se_object r" "se_request (f r) = se_request r" "se_reader (f r) \<Longrightarrow> se_reader r"
  using assms by (auto simp: keeps_record_def)

lemma sessions_update:
  assumes ok: "sessions_ok kind_of s" and f: "keeps_record f"
    and live: "\<And>i r. session_at s i r \<Longrightarrow> se_object r = obj \<Longrightarrow> se_reader (f r) \<Longrightarrow> stoppable_status (se_status (f r))"
  shows "sessions_ok kind_of (update_object obj f s)"
proof -
  let ?s = "update_object obj f s"
  have new: "\<exists>r. session_at s i r \<and> r' = (if se_object r = obj then f r else r)" if "session_at ?s i r'" for i r'
    using that by auto
  have same: "se_object r' = se_object r \<and> se_request r' = se_request r \<and> (se_reader r' \<longrightarrow> se_reader r)"
    if "r' = (if se_object r = obj then f r else r)" for r r'
    using that keeps_recordD [OF f] by auto
  have "records_ok kind_of ?s"
    unfolding records_ok_def
  proof (intro conjI allI impI)
    show "wf_dict (rn_records ?s)"
      using sessions_okD(1) [OF ok] by (simp add: records_ok_def)
  next
    fix i r' assume "session_at ?s i r'"
    then obtain r where r: "session_at s i r" "r' = (if se_object r = obj then f r else r)"
      using new by blast
    then have "record_ok kind_of s i r"
      using sessions_okD(1) [OF ok] by (simp add: records_ok_def)
    with r same [OF r(2)] live show "record_ok kind_of ?s i r'"
      by (auto simp: record_ok_def)
  next
    fix i j r' q' assume "session_at ?s i r' \<and> session_at ?s j q' \<and> se_object r' = se_object q'"
    then obtain r q where "session_at s i r" "session_at s j q" "se_object r = se_object q"
      using new same by metis
    then show "i = j"
      using sessions_okD(1) [OF ok] unfolding records_ok_def by blast
  qed
  moreover have "stop_ok kind_of ?s t" if "t \<in> set (rn_stopping s)" for t
  proof -
    have t: "stop_ok kind_of s t"
      using ok that by (rule sessions_okD(2))
    have "stop_id t \<in> set (rn_retired s)
        \<or> (\<exists>r'. session_at ?s (stop_id t) r' \<and> se_object r' = sp_object t \<and> se_request r' = sp_request t)"
    proof (cases "stop_id t \<in> set (rn_retired s)")
      case False
      then obtain r where r: "session_at s (stop_id t) r" "se_object r = sp_object t" "se_request r = sp_request t"
        using t False unfolding stop_ok_def by blast
      let ?g = "if se_object r = obj then f r else r"
      have "session_at ?s (stop_id t) ?g"
        using r(1) by simp
      moreover have "se_object ?g = sp_object t \<and> se_request ?g = sp_request t"
        using same [OF refl, of r] r(2,3) by simp
      ultimately show ?thesis
        by blast
    qed simp
    moreover have "i = stop_id t \<and> (sp_phase t = StopMeasure \<longrightarrow> \<not> se_reader r')"
      if r': "session_at ?s i r'" "se_object r' = sp_object t" for i r'
    proof -
      obtain r where "session_at s i r" "r' = (if se_object r = obj then f r else r)"
        using new [OF r'(1)] by blast
      with t r'(2) same show ?thesis
        unfolding stop_ok_def by metis
    qed
    ultimately show ?thesis
      using t unfolding stop_ok_def update_object_rest by blast
  qed
  moreover have "reading_ok ?s p" if "p \<in> set (rn_reading s)" for p
  proof -
    have p: "reading_ok s p"
      using ok that by (rule sessions_okD(3))
    have "\<not> se_reader r'" if r': "session_at ?s i r'" "se_object r' = fst p" for i r'
    proof -
      obtain r where "session_at s i r" "r' = (if se_object r = obj then f r else r)"
        using new [OF r'(1)] by blast
      with p r'(2) same show ?thesis
        unfolding reading_ok_def by metis
    qed
    with p show ?thesis
      unfolding reading_ok_def update_object_rest by blast
  qed
  moreover have "creation_ok kind_of ?s c" if "rn_creating s = Some c" for c
  proof -
    have c: "creation_ok kind_of s c"
      using ok that by (rule sessions_okD(4))
    show ?thesis
    proof (cases "early_phase (cr_phase c)")
      case True
      then have "se_object r' \<noteq> cr_object c" if "session_at ?s i r'" for i r'
        using new [OF that] c same unfolding creation_ok_def by metis
      with True c show ?thesis
        by (simp add: creation_ok_def)
    next
      case False
      then obtain r where r: "session_at s (creation_id c) r" "se_object r = cr_object c"
        "se_request r = cr_request c" "\<not> se_reader r"
        using c by (auto simp: creation_ok_def)
      let ?g = "if se_object r = obj then f r else r"
      have "session_at ?s (creation_id c) ?g"
        using r(1) by simp
      moreover have "se_object ?g = cr_object c \<and> se_request ?g = cr_request c \<and> \<not> se_reader ?g"
        using same [OF refl, of r] r(2-4) by metis
      ultimately have "\<exists>r'. session_at ?s (creation_id c) r' \<and> se_object r' = cr_object c
          \<and> se_request r' = cr_request c \<and> \<not> se_reader r'"
        by blast
      with False c show ?thesis
        by (simp add: creation_ok_def)
    qed
  qed
  ultimately show ?thesis
    by (auto simp: sessions_ok_def split: option.split)
qed

lemma touch_update:
  assumes "keeps_record f"
    and "\<And>i r. session_at s i r \<Longrightarrow> se_object r = obj \<Longrightarrow> stoppable_status (se_status (f r)) \<Longrightarrow> stoppable_status (se_status r)"
  shows "session_touch (update_object obj f s) \<subseteq> session_touch s"
  using assms keeps_recordD [OF assms(1)]
  by (fastforce simp: session_touch_def split: if_splits option.splits)

section \<open>The steps of a session\<close>

text \<open>Less in flight is no harm.\<close>

lemma sessions_fewer:
  assumes ok: "sessions_ok kind_of s"
    and "set ts \<subseteq> set (rn_stopping s)" "set ps \<subseteq> set (rn_reading s)"
  shows "sessions_ok kind_of (s\<lparr>rn_stopping := ts, rn_reading := ps\<rparr>)"
proof -
  let ?s = "s\<lparr>rn_stopping := ts, rn_reading := ps\<rparr>"
  have "records_ok kind_of ?s"
    using sessions_okD(1) [OF ok] by (simp add: records_ok_def record_ok_def)
  moreover have "stop_ok kind_of ?s t" if "t \<in> set ts" for t
    using sessions_okD(2) [OF ok, of t] that assms(2) by (auto simp: stop_ok_def)
  moreover have "reading_ok ?s p" if "p \<in> set ps" for p
    using sessions_okD(3) [OF ok, of p] that assms(3) by (auto simp: reading_ok_def)
  moreover have "creation_ok kind_of ?s c" if "rn_creating s = Some c" for c
    using sessions_okD(4) [OF ok that] assms(2,3) by (auto simp: creation_ok_def split: if_splits)
  ultimately show ?thesis
    by (simp add: sessions_ok_def split: option.split)
qed

lemma fewer_stops: "sessions_ok kind_of s \<Longrightarrow> set ts \<subseteq> set (rn_stopping s) \<Longrightarrow> sessions_ok kind_of (s\<lparr>rn_stopping := ts\<rparr>)"
  using sessions_fewer [of kind_of s ts "rn_reading s"] by simp

lemma fewer_readings: "sessions_ok kind_of s \<Longrightarrow> set ps \<subseteq> set (rn_reading s) \<Longrightarrow> sessions_ok kind_of (s\<lparr>rn_reading := ps\<rparr>)"
  using sessions_fewer [of kind_of s "rn_stopping s" ps] by simp

text \<open>A stop or a reading added on a record that is there.\<close>

lemma sessions_add_stop:
  assumes ok: "sessions_ok kind_of s" and r: "session_at s i r"
    and t: "sp_object t = se_object r" "sp_request t = se_request r" "sp_phase t = StopMeasure \<Longrightarrow> \<not> se_reader r"
    and c: "\<And>c. rn_creating s = Some c \<Longrightarrow> creation_id c \<noteq> i"
  shows "sessions_ok kind_of (s\<lparr>rn_stopping := rn_stopping s @ [t]\<rparr>)"
proof -
  let ?s = "s\<lparr>rn_stopping := rn_stopping s @ [t]\<rparr>"
  have rec: "record_ok kind_of s i r" and unique: "\<And>j q. session_at s j q \<Longrightarrow> se_object q = se_object r \<Longrightarrow> j = i"
    using sessions_okD(1) [OF ok] r unfolding records_ok_def by blast+
  have id: "stop_id t = i"
    using rec t(2) by (simp add: record_ok_def)
  have "stop_ok kind_of s t"
  proof -
    have "j = stop_id t \<and> (sp_phase t = StopMeasure \<longrightarrow> \<not> se_reader q)"
      if q: "session_at s j q" "se_object q = sp_object t" for j q
    proof -
      have "j = i"
        using unique [OF q(1)] q(2) t(1) by simp
      then show ?thesis
        using q(1) r id t(3) by simp
    qed
    moreover have "sp_object t < rn_next_object s" "kind_of (stop_id t) = SessionOwner"
      using rec id t(1) by (simp_all add: record_ok_def)
    moreover have "session_at s (stop_id t) r" "se_object r = sp_object t" "se_request r = sp_request t"
      using r id t(1,2) by simp_all
    ultimately show ?thesis
      unfolding stop_ok_def by blast
  qed
  moreover have "creation_ok kind_of ?s c" if "rn_creating s = Some c" for c
  proof -
    have old: "creation_ok kind_of s c"
      using ok that by (rule sessions_okD(4))
    have "se_object r \<noteq> cr_object c"
    proof (cases "early_phase (cr_phase c)")
      case True
      with old r show ?thesis
        unfolding creation_ok_def by auto
    next
      case False
      then obtain q where "session_at s (creation_id c) q" "se_object q = cr_object c"
        using old by (auto simp: creation_ok_def)
      with unique c [OF that] show ?thesis
        by metis
    qed
    with old c [OF that] id t(1) show ?thesis
      by (auto simp: creation_ok_def)
  qed
  moreover have "stop_ok kind_of ?s u = stop_ok kind_of s u" "reading_ok ?s p = reading_ok s p"
    "records_ok kind_of ?s = records_ok kind_of s" for u p
    by (simp_all add: stop_ok_def reading_ok_def records_ok_def record_ok_def)
  ultimately show ?thesis
    using ok by (auto simp: sessions_ok_def split: option.splits)
qed

lemma sessions_add_reading:
  assumes ok: "sessions_ok kind_of s" and r: "session_at s i r" "\<not> se_reader r" "\<not> stoppable_status final"
    and c: "\<And>c. rn_creating s = Some c \<Longrightarrow> cr_object c \<noteq> se_object r"
  shows "sessions_ok kind_of (s\<lparr>rn_reading := rn_reading s @ [(se_object r, final)]\<rparr>)"
proof -
  let ?s = "s\<lparr>rn_reading := rn_reading s @ [(se_object r, final)]\<rparr>"
  have rec: "record_ok kind_of s i r" and unique: "\<And>j q. session_at s j q \<Longrightarrow> se_object q = se_object r \<Longrightarrow> j = i"
    using sessions_okD(1) [OF ok] r unfolding records_ok_def by blast+
  have "reading_ok ?s (se_object r, final)"
  proof -
    have "\<not> se_reader q" if "session_at s j q" "se_object q = se_object r" for j q
      using unique [OF that] that r by simp
    then show ?thesis
      using rec r(3) by (auto simp: reading_ok_def record_ok_def)
  qed
  moreover have "creation_ok kind_of ?s c" if "rn_creating s = Some c" for c
    using sessions_okD(4) [OF ok that] c [OF that] by (auto simp: creation_ok_def)
  moreover have "stop_ok kind_of ?s u = stop_ok kind_of s u" "reading_ok ?s p = reading_ok s p"
    "records_ok kind_of ?s = records_ok kind_of s" for u p
    by (simp_all add: stop_ok_def reading_ok_def records_ok_def record_ok_def)
  ultimately show ?thesis
    using ok by (auto simp: sessions_ok_def split: option.splits)
qed

text \<open>No creation waits on an object that a stop or a reading works on, or whose reader runs.\<close>

lemma not_creating:
  assumes ok: "sessions_ok kind_of s" and c: "rn_creating s = Some c"
  shows "(obj, final) \<in> set (rn_reading s) \<Longrightarrow> cr_object c \<noteq> obj"
    and "session_at s i r \<Longrightarrow> se_reader r \<Longrightarrow> cr_object c \<noteq> se_object r"
proof -
  have old: "creation_ok kind_of s c"
    using ok c by (rule sessions_okD(4))
  then show "(obj, final) \<in> set (rn_reading s) \<Longrightarrow> cr_object c \<noteq> obj"
    by (auto simp: creation_ok_def)
  assume r: "session_at s i r" "se_reader r"
  show "cr_object c \<noteq> se_object r"
  proof (cases "early_phase (cr_phase c)")
    case True
    with old r show ?thesis
      unfolding creation_ok_def by metis
  next
    case False
    then obtain q where q: "session_at s (creation_id c) q" "se_object q = cr_object c" "\<not> se_reader q"
      using old by (auto simp: creation_ok_def)
    show ?thesis
    proof
      assume "cr_object c = se_object r"
      then have "creation_id c = i"
        using unique_object [OF ok q(1) r(1)] q(2) by simp
      with q r show False
        by simp
    qed
  qed
qed

abbreviation session_fence :: "(string \<Rightarrow> owner_kind) \<Rightarrow> runner \<Rightarrow> runner \<Rightarrow> bool" where
  "session_fence kind_of s s' \<equiv>
     fence_step (\<lambda>i. kind_of i = SessionOwner) (session_touch s) (holders s) (session_touch s') (holders s')"

lemma holders_parts [simp]:
  "holders (set_holders h s) = h" "holders (update_object obj f s) = holders s"
  "holders (s\<lparr>rn_stopping := ts\<rparr>) = holders s" "holders (s\<lparr>rn_reading := ps\<rparr>) = holders s"
  "holders (s\<lparr>rn_records := rs\<rparr>) = holders s" "holders (s\<lparr>rn_retired := is\<rparr>) = holders s"
  "holders (s\<lparr>rn_creating := c\<rparr>) = holders s" "holders (s\<lparr>rn_next_object := n\<rparr>) = holders s"
  by (simp_all add: holders_def set_holders_def)

lemma touch_parts [simp]:
  "session_touch (s\<lparr>rn_stopping := ts\<rparr>) = session_touch s" "session_touch (s\<lparr>rn_reading := ps\<rparr>) = session_touch s"
  "session_touch (s\<lparr>rn_retired := is\<rparr>) = session_touch s" "session_touch (s\<lparr>rn_next_object := n\<rparr>) = session_touch s"
  by (simp_all add: session_touch_def)

lemma record_live: "sessions_ok kind_of s \<Longrightarrow> session_at s i r \<Longrightarrow> se_reader r \<Longrightarrow> stoppable_status (se_status r)"
  by (auto simp: sessions_ok_def records_ok_def record_ok_def)

lemma append_output_rest [simp]:
  "se_object (append_output redact v final r) = se_object r" "se_request (append_output redact v final r) = se_request r"
  "se_reader (append_output redact v final r) = se_reader r" "se_status (append_output redact v final r) = se_status r"
  by (simp_all add: append_output_def split: prod.split)

text \<open>Updates that leave the status and the reader alone.\<close>

lemma harmless_update:
  assumes ok: "sessions_ok kind_of s"
    and f: "\<And>r. se_object (f r) = se_object r \<and> se_request (f r) = se_request r \<and> se_reader (f r) = se_reader r
      \<and> se_status (f r) = se_status r"
  shows "sessions_ok kind_of (update_object obj f s)" and "session_fence kind_of s (update_object obj f s)"
proof -
  have keeps: "keeps_record f"
    using f by (simp add: keeps_record_def)
  then show "sessions_ok kind_of (update_object obj f s)"
    by (rule sessions_update [OF ok]) (use f record_live [OF ok] in auto)
  have "session_touch (update_object obj f s) \<subseteq> session_touch s"
    using keeps by (rule touch_update) (use f in auto)
  then show "session_fence kind_of s (update_object obj f s)"
    by (rule fence_step_quiet) simp
qed

lemma take_input_rest:
  "se_object (snd (take_input client text n r)) = se_object r \<and> se_request (snd (take_input client text n r)) = se_request r
   \<and> se_reader (snd (take_input client text n r)) = se_reader r \<and> se_status (snd (take_input client text n r)) = se_status r"
  by (simp add: take_input_def Let_def split: option.split)

lemma session_input_rest:
  "se_object (snd (session_input message r)) = se_object r \<and> se_request (snd (session_input message r)) = se_request r
   \<and> se_reader (snd (session_input message r)) = se_reader r \<and> se_status (snd (session_input message r)) = se_status r"
  by (simp add: session_input_def terminal_input_def take_input_rest split: option.split pyval.split)

lemma input_steps:
  assumes "sessions_ok kind_of s"
  shows "sessions_ok kind_of (input_step i message s)" and "session_fence kind_of s (input_step i message s)"
  using assms harmless_update [OF assms session_input_rest]
  by (auto simp: input_step_def fence_step_quiet split: option.split)

lemma chunk_steps:
  assumes "sessions_ok kind_of s"
  shows "sessions_ok kind_of (read_chunk redact obj text s)" and "session_fence kind_of s (read_chunk redact obj text s)"
  unfolding read_chunk_def by (rule harmless_update [OF assms]; simp)+

text \<open>Creating.\<close>

lemma create_begin_steps:
  assumes ok: "sessions_ok kind_of s" and idle: "rn_creating s = None" and named: "kind_of (sr_session_id rq) = SessionOwner"
  shows "sessions_ok kind_of (snd (create_begin rq s))" and "session_fence kind_of s (snd (create_begin rq s))"
proof -
  have "sessions_ok kind_of (snd (create_begin rq s)) \<and> session_fence kind_of s (snd (create_begin rq s))"
  proof (cases "fst (create_begin rq s) = Begun")
    case False
    then have "snd (create_begin rq s) = s"
      by (auto simp: create_begin_def split: option.splits if_splits)
    with ok show ?thesis
      by (simp add: fence_step_quiet)
  next
    case True
    let ?c = "\<lparr>cr_request = rq, cr_object = rn_next_object s, cr_phase = CVolume\<rparr>"
    let ?s = "s\<lparr>rn_creating := Some ?c, rn_next_object := Suc (rn_next_object s)\<rparr>"
    let ?h = "take_workspace (sr_workspace_key rq) (sr_session_id rq) (holders s)"
    have fresh: "sr_session_id rq \<notin> set (rn_retired s)" "dict_get (rn_records s) (sr_session_id rq) = None"
      "holders s (sr_workspace_key rq) = None"
      and result: "snd (create_begin rq s) = set_holders ?h ?s"
      using True by (auto simp: create_begin_def set_holders_def split: option.splits if_splits)
    have stops: "stop_id t \<noteq> sr_session_id rq \<and> sp_object t < rn_next_object s" if "t \<in> set (rn_stopping s)" for t
      using sessions_okD(2) [OF ok that] fresh(1,2) by (auto simp: stop_ok_def)
    have records: "se_object r < rn_next_object s" if "session_at s i r" for i r
      using sessions_okD(1) [OF ok] that by (auto simp: records_ok_def record_ok_def)
    have reads: "fst p < rn_next_object s" if "p \<in> set (rn_reading s)" for p
      using sessions_okD(3) [OF ok that] by (simp add: reading_ok_def)
    have "creation_ok kind_of ?s ?c"
      using fresh named stops records reads by (fastforce simp: creation_ok_def early_phase_def)
    moreover have "records_ok kind_of ?s"
      using sessions_okD(1) [OF ok] by (auto simp: records_ok_def record_ok_def less_SucI)
    moreover have "stop_ok kind_of ?s t" if "t \<in> set (rn_stopping s)" for t
      by (rule stop_ok_mono [OF sessions_okD(2) [OF ok that]]) simp_all
    moreover have "reading_ok ?s p" if "p \<in> set (rn_reading s)" for p
      by (rule reading_ok_mono [OF sessions_okD(3) [OF ok that]]) simp_all
    ultimately have "sessions_ok kind_of ?s"
      by (simp add: sessions_ok_def)
    moreover have "session_touch ?s \<subseteq> insert (sr_workspace_key rq, sr_session_id rq) (session_touch s)"
      using idle by (auto simp: session_touch_def session_key_def)
    then have "session_fence kind_of s (set_holders ?h ?s)"
      by (intro fence_step_take [where k = "sr_workspace_key rq" and i = "sr_session_id rq"])
         (simp_all add: workspace_is_free_def fresh(3))
    ultimately show ?thesis
      by (simp add: result)
  qed
  then show "sessions_ok kind_of (snd (create_begin rq s))" "session_fence kind_of s (snd (create_begin rq s))"
    by simp_all
qed

lemma sessions_phase:
  assumes ok: "sessions_ok kind_of s" and c: "rn_creating s = Some c" and p: "early_phase p = early_phase (cr_phase c)"
  shows "sessions_ok kind_of (set_phase c p s)" and "session_fence kind_of s (set_phase c p s)"
proof -
  have "creation_ok kind_of (set_phase c p s) (c\<lparr>cr_phase := p\<rparr>)"
    using sessions_okD(4) [OF ok c] p by (simp add: creation_ok_def set_phase_def)
  moreover have "stop_ok kind_of (set_phase c p s) t" if "t \<in> set (rn_stopping s)" for t
    by (rule stop_ok_mono [OF sessions_okD(2) [OF ok that]]) (simp_all add: set_phase_def)
  moreover have "reading_ok (set_phase c p s) q" if "q \<in> set (rn_reading s)" for q
    by (rule reading_ok_mono [OF sessions_okD(3) [OF ok that]]) (simp_all add: set_phase_def)
  moreover have "records_ok kind_of (set_phase c p s)"
    using sessions_okD(1) [OF ok] by (simp add: records_ok_def record_ok_def set_phase_def)
  ultimately show "sessions_ok kind_of (set_phase c p s)"
    by (simp add: sessions_ok_def set_phase_def)
  show "session_fence kind_of s (set_phase c p s)"
    by (rule fence_step_quiet) (auto simp: session_touch_def set_phase_def c)
qed

text \<open>The creation is given up: with the fence up, what it pops is its own hold.\<close>

lemma abort_steps:
  assumes ok: "sessions_ok kind_of s" and c: "rn_creating s = Some c"
    and fence: "fenced (session_touch s) (holders s)"
  shows "sessions_ok kind_of (abort_creation (cr_request c) s)"
    and "session_fence kind_of s (abort_creation (cr_request c) s)"
proof -
  let ?s = "s\<lparr>rn_records := dict_del (rn_records s) (creation_id c), rn_creating := None\<rparr>"
  let ?k = "sr_workspace_key (cr_request c)"
  have result: "abort_creation (cr_request c) s = set_holders ((holders s)(?k := None)) ?s"
    by (simp add: abort_creation_def set_holders_def)
  have own: "holders s ?k = Some (creation_id c)"
    using fence c by (auto simp: fenced_def session_touch_def session_key_def)
  have old: "creation_ok kind_of s c"
    using ok c by (rule sessions_okD(4))
  have at: "session_at ?s i r \<longleftrightarrow> i \<noteq> creation_id c \<and> session_at s i r" for i r
    by simp
  have "records_ok kind_of ?s"
    using sessions_okD(1) [OF ok] unfolding records_ok_def at by (auto simp: record_ok_def wf_dict_del)
  moreover have "stop_ok kind_of ?s t" if "t \<in> set (rn_stopping s)" for t
  proof -
    have "stop_id t \<noteq> creation_id c"
      using old that by (simp add: creation_ok_def)
    then show ?thesis
      by (intro stop_ok_mono [OF sessions_okD(2) [OF ok that]]) (auto split: if_splits)
  qed
  moreover have "reading_ok ?s p" if "p \<in> set (rn_reading s)" for p
    by (rule reading_ok_mono [OF sessions_okD(3) [OF ok that]]) (auto split: if_splits)
  ultimately have "sessions_ok kind_of ?s"
    by (simp add: sessions_ok_def)
  then show "sessions_ok kind_of (abort_creation (cr_request c) s)"
    by (simp add: result)
  have "sr_session_id (se_request r) = i" if "session_at s i r" for i r
    using sessions_okD(1) [OF ok] that by (simp add: records_ok_def record_ok_def)
  then have "session_touch ?s \<subseteq> session_touch s - {(?k, creation_id c)}"
    by (auto simp: session_touch_def session_key_def)
  then show "session_fence kind_of s (abort_creation (cr_request c) s)"
    using own old by (intro fence_step_release [where k = ?k and i = "creation_id c"])
      (simp_all add: result creation_ok_def release_workspace_def)
qed

text \<open>The container exists: the record is entered, starting.\<close>

lemma enter_steps:
  fixes now :: int
  assumes ok: "sessions_ok kind_of s" and c: "rn_creating s = Some c" and p: "cr_phase c = CContainer"
  defines "s' \<equiv> set_phase c CStart (s\<lparr>rn_records := dict_set (rn_records s) (creation_id c) (new_session now c)\<rparr>)"
  shows "sessions_ok kind_of s'" and "session_fence kind_of s s'"
proof -
  have old: "creation_ok kind_of s c"
    using ok c by (rule sessions_okD(4))
  then have free: "dict_get (rn_records s) (creation_id c) = None" "\<And>i r. session_at s i r \<Longrightarrow> se_object r \<noteq> cr_object c"
    using p by (auto simp: creation_ok_def early_phase_def)
  have at: "session_at s' i r \<longleftrightarrow> (if i = creation_id c then r = new_session now c else session_at s i r)" for i r
    by (auto simp: s'_def set_phase_def)
  have new: "se_object (new_session now c) = cr_object c" "se_request (new_session now c) = cr_request c"
    "\<not> se_reader (new_session now c)"
    by (simp_all add: new_session_def)
  have rest: "rn_stopping s' = rn_stopping s" "rn_reading s' = rn_reading s" "rn_retired s' = rn_retired s"
    "rn_next_object s' = rn_next_object s" "rn_creating s' = Some (c\<lparr>cr_phase := CStart\<rparr>)"
    "wf_dict (rn_records s) \<Longrightarrow> wf_dict (rn_records s')"
    by (simp_all add: s'_def set_phase_def wf_dict_set)
  have wf: "wf_dict (rn_records s)" and records: "\<And>i r. session_at s i r \<Longrightarrow> record_ok kind_of s i r"
    using sessions_okD(1) [OF ok] by (simp_all add: records_ok_def)
  have "records_ok kind_of s'"
    unfolding records_ok_def
  proof (intro conjI allI impI)
    show "wf_dict (rn_records s')"
      using wf by (rule rest(6))
  next
    fix i r assume "session_at s' i r"
    then show "record_ok kind_of s' i r"
      using records [of i r] old new by (auto simp: at record_ok_def creation_ok_def rest split: if_splits)
  next
    fix i j r q assume same: "session_at s' i r \<and> session_at s' j q \<and> se_object r = se_object q"
    show "i = j"
    proof (cases "i = creation_id c \<or> j = creation_id c")
      case True
      then show ?thesis
        using same free(2) new(1) by (auto simp: at split: if_splits)
    next
      case False
      then show ?thesis
        using same unique_object [OF ok] by (auto simp: at)
    qed
  qed
  moreover have "stop_ok kind_of s' t" if t: "t \<in> set (rn_stopping s)" for t
  proof -
    have apart: "stop_id t \<noteq> creation_id c" "sp_object t \<noteq> cr_object c"
      using old t by (simp_all add: creation_ok_def)
    have here: "stop_ok kind_of s t"
      using ok t by (rule sessions_okD(2))
    have "i = stop_id t \<and> (sp_phase t = StopMeasure \<longrightarrow> \<not> se_reader r)"
      if "session_at s' i r" "se_object r = sp_object t" for i r
    proof -
      have "session_at s i r"
        using that apart(2) new(1) by (auto simp: at split: if_splits)
      with here that(2) show ?thesis
        unfolding stop_ok_def by blast
    qed
    moreover have "stop_id t \<in> set (rn_retired s')
        \<or> (\<exists>r. session_at s' (stop_id t) r \<and> se_object r = sp_object t \<and> se_request r = sp_request t)"
      using here apart(1) unfolding stop_ok_def at rest by auto
    moreover have "sp_object t < rn_next_object s'" "kind_of (stop_id t) = SessionOwner"
      using here by (simp_all add: stop_ok_def rest)
    ultimately show ?thesis
      unfolding stop_ok_def by blast
  qed
  moreover have "reading_ok s' p" if q: "p \<in> set (rn_reading s)" for p
  proof -
    have "\<not> se_reader r" if "session_at s' i r" "se_object r = fst p" for i r
      using that sessions_okD(3) [OF ok q] new(3) by (auto simp: at reading_ok_def split: if_splits)
    with sessions_okD(3) [OF ok q] show ?thesis
      unfolding reading_ok_def rest by blast
  qed
  moreover have "creation_ok kind_of s' (c\<lparr>cr_phase := CStart\<rparr>)"
  proof -
    have "session_at s' (creation_id c) (new_session now c)"
      by (simp add: at)
    with new old show ?thesis
      unfolding creation_ok_def rest by (auto simp: early_phase_def)
  qed
  ultimately show "sessions_ok kind_of s'"
    by (simp add: sessions_ok_def rest)
  have "session_touch s' \<subseteq> session_touch s"
    using new(2) by (auto simp: session_touch_def at rest c split: if_splits)
  then show "session_fence kind_of s s'"
    by (rule fence_step_quiet) (simp add: s'_def set_phase_def)
qed

text \<open>The session runs: only the record of the creation starts being read.\<close>

lemma running_steps:
  assumes ok: "sessions_ok kind_of s" and c: "rn_creating s = Some c" and p: "\<not> early_phase (cr_phase c)"
  defines "s' \<equiv> (update_object (cr_object c) (\<lambda>r. r\<lparr>se_status := ''running'', se_reader := True\<rparr>) s)\<lparr>rn_creating := None\<rparr>"
  shows "sessions_ok kind_of s'" and "session_fence kind_of s s'"
proof -
  have old: "creation_ok kind_of s c"
    using ok c by (rule sessions_okD(4))
  then obtain rec where rec: "session_at s (creation_id c) rec" "se_object rec = cr_object c" "se_request rec = cr_request c"
    using p by (auto simp: creation_ok_def)
  have only: "i = creation_id c" if "session_at s i r" "se_object r = cr_object c" for i r
    using unique_object [OF ok that(1) rec(1)] that(2) rec(2) by simp
  let ?f = "\<lambda>r. if se_object r = cr_object c then r\<lparr>se_status := ''running'', se_reader := True\<rparr> else r"
  have get: "dict_get (rn_records s') i = map_option ?f (dict_get (rn_records s) i)" for i
    by (simp add: s'_def)
  have at: "session_at s' i r' \<longleftrightarrow> (\<exists>r. session_at s i r \<and> r' = ?f r)" for i r'
    unfolding get map_option_eq_Some by blast
  have rest: "rn_stopping s' = rn_stopping s" "rn_reading s' = rn_reading s" "rn_retired s' = rn_retired s"
    "rn_next_object s' = rn_next_object s" "rn_creating s' = None" "wf_dict (rn_records s') = wf_dict (rn_records s)"
    by (simp_all add: s'_def update_object_def wf_dict_mapped)
  have keep: "se_object (?f r) = se_object r" "se_request (?f r) = se_request r" for r
    by simp_all
  have "records_ok kind_of s'"
    unfolding records_ok_def
  proof (intro conjI allI impI)
    show "wf_dict (rn_records s')"
      using sessions_okD(1) [OF ok] by (simp add: rest records_ok_def)
  next
    fix i r' assume "session_at s' i r'"
    then obtain r where "session_at s i r" "r' = ?f r"
      unfolding at by blast
    moreover from this(1) have "record_ok kind_of s i r"
      using sessions_okD(1) [OF ok] by (simp add: records_ok_def)
    ultimately show "record_ok kind_of s' i r'"
      by (simp add: record_ok_def rest stoppable_status_def)
  next
    fix i j r' q' assume same: "session_at s' i r' \<and> session_at s' j q' \<and> se_object r' = se_object q'"
    then obtain r q where "session_at s i r" "r' = ?f r" "session_at s j q" "q' = ?f q"
      unfolding at by blast
    moreover from this same have "se_object r = se_object q"
      by (simp split: if_splits)
    ultimately show "i = j"
      using unique_object [OF ok] by blast
  qed
  moreover have "stop_ok kind_of s' t" if t: "t \<in> set (rn_stopping s)" for t
  proof -
    have apart: "stop_id t \<noteq> creation_id c" "sp_object t \<noteq> cr_object c"
      using old t by (simp_all add: creation_ok_def)
    have here: "stop_ok kind_of s t"
      using ok t by (rule sessions_okD(2))
    have "session_at s' (stop_id t) r" if r: "session_at s (stop_id t) r" for r
    proof -
      have "se_object r \<noteq> cr_object c"
        using only [OF r] apart(1) by blast
      with r show ?thesis
        unfolding at by auto
    qed
    moreover have "session_at s i r" if "session_at s' i r" "se_object r = sp_object t" for i r
      using that apart(2) unfolding at by auto
    ultimately show ?thesis
      using here unfolding stop_ok_def rest by blast
  qed
  moreover have "reading_ok s' p" if q: "p \<in> set (rn_reading s)" for p
  proof -
    have apart: "fst p \<noteq> cr_object c"
      using old q by (simp add: creation_ok_def)
    have "session_at s i r" if "session_at s' i r" "se_object r = fst p" for i r
      using that apart unfolding at by auto
    with sessions_okD(3) [OF ok q] show ?thesis
      unfolding reading_ok_def rest by blast
  qed
  ultimately show "sessions_ok kind_of s'"
    by (simp add: sessions_ok_def rest)
  have "session_key (se_request r) \<in> session_touch s" if "session_at s i r" "stoppable_status (se_status (?f r))" for i r
  proof (cases "se_object r = cr_object c")
    case True
    then have "i = creation_id c"
      using that(1) only by blast
    then have "r = rec"
      using that(1) rec(1) by simp
    then show ?thesis
      using rec(3) c by (simp add: session_touch_def)
  next
    case False
    with that show ?thesis
      by (auto simp: session_touch_def)
  qed
  then have "session_touch s' \<subseteq> session_touch s"
    unfolding session_touch_def [of s'] at rest using keep(2) by auto
  then show "session_fence kind_of s s'"
    by (rule fence_step_quiet) (simp add: s'_def)
qed

lemma create_steps:
  assumes ok: "sessions_ok kind_of s" and fence: "fenced (session_touch s) (holders s)"
  shows "sessions_ok kind_of (create_step now good s) \<and> session_fence kind_of s (create_step now good s)"
proof (cases "rn_creating s")
  case None
  with ok show ?thesis
    by (simp add: create_step_def fence_step_quiet)
next
  case (Some c)
  note phase = sessions_phase [OF ok Some]
  note parts = abort_steps [OF ok Some fence] enter_steps [OF ok Some] running_steps [OF ok Some]
  show ?thesis
    using phase [of CContainer] phase [of CExec] phase [of CWrite] phase [of CResize] phase [of CAbort] parts
    by (cases "cr_phase c") (simp_all add: create_step_def Some early_phase_def)
qed

text \<open>Stopping.\<close>

lemma same_record:
  "sessions_ok kind_of s \<Longrightarrow> session_at s i r \<Longrightarrow> session_at s j q \<Longrightarrow> se_object q = se_object r \<Longrightarrow> q = r"
  using unique_object [of kind_of s i r j q] by simp

lemma stop_begin_steps:
  assumes ok: "sessions_ok kind_of s" and calm: "\<And>c. rn_creating s = Some c \<Longrightarrow> i \<noteq> creation_id c"
  shows "sessions_ok kind_of (stop_begin i expiring s) \<and> session_fence kind_of s (stop_begin i expiring s)"
proof (cases "\<exists>r. session_at s i r \<and> stoppable_status (se_status r)")
  case False
  then have "stop_begin i expiring s = s"
    by (auto simp: stop_begin_def split: option.split)
  with ok show ?thesis
    by (simp add: fence_step_quiet)
next
  case True
  then obtain r where r: "session_at s i r" "stoppable_status (se_status r)"
    by blast
  let ?f = "\<lambda>r. r\<lparr>se_status := ''stopping''\<rparr>" and ?s = "update_object (se_object r) (\<lambda>r. r\<lparr>se_status := ''stopping''\<rparr>) s"
  let ?t = "\<lparr>sp_object = se_object r, sp_request = se_request r, sp_phase = StopDelete, sp_expiring = expiring\<rparr>"
  have result: "stop_begin i expiring s = ?s\<lparr>rn_stopping := rn_stopping ?s @ [?t]\<rparr>"
    using r by (simp add: stop_begin_def)
  have keeps: "keeps_record ?f"
    by (simp add: keeps_record_def)
  have "sessions_ok kind_of ?s"
    by (rule sessions_update [OF ok keeps]) (simp add: stoppable_status_def)
  moreover have "session_at ?s i (?f r)"
    using r(1) by simp
  ultimately have "sessions_ok kind_of (stop_begin i expiring s)"
    unfolding result by (rule sessions_add_stop) (use calm in auto)
  moreover have "session_touch ?s \<subseteq> session_touch s"
    using keeps by (rule touch_update) (use same_record [OF ok r(1)] r(2) in metis)
  then have "session_fence kind_of s (stop_begin i expiring s)"
    unfolding result by (intro fence_step_quiet) simp_all
  ultimately show ?thesis
    by blast
qed

lemma set_remove_nth: "set (remove_nth n xs) \<subseteq> set xs"
  by (auto simp: remove_nth_def dest: in_set_takeD in_set_dropD)

text \<open>The container is gone and the reader cancelled.\<close>

lemma stop_deleted_steps:
  fixes redact :: redactor
  assumes ok: "sessions_ok kind_of s" and n: "n < length (rn_stopping s)"
  defines "t \<equiv> rn_stopping s ! n"
  defines "s' \<equiv> (update_object (sp_object t) (\<lambda>r. append_output redact [] True (r\<lparr>se_reader := False\<rparr>)) s)
      \<lparr>rn_stopping := (rn_stopping s)[n := t\<lparr>sp_phase := StopMeasure\<rparr>],
       rn_reading := filter (\<lambda>(obj, st). obj \<noteq> sp_object t) (rn_reading s)\<rparr>"
  shows "sessions_ok kind_of s' \<and> session_fence kind_of s s'"
proof -
  let ?f = "\<lambda>r. append_output redact [] True (r\<lparr>se_reader := False\<rparr>)"
  let ?u = "update_object (sp_object t) ?f s"
  have t: "t \<in> set (rn_stopping s)"
    using n by (simp add: t_def)
  have keeps: "keeps_record ?f"
    by (simp add: keeps_record_def)
  have u: "sessions_ok kind_of ?u"
    by (rule sessions_update [OF ok keeps]) simp
  then have here: "stop_ok kind_of ?u t"
    using t by (intro sessions_okD(2)) simp_all
  have off: "\<not> se_reader r" if r: "session_at ?u i r" "se_object r = sp_object t" for i r
  proof -
    obtain r0 where "r = (if se_object r0 = sp_object t then ?f r0 else r0)"
      using updated_record [OF r(1)] by blast
    with r(2) show ?thesis
      by (simp split: if_splits)
  qed
  have measured: "stop_ok kind_of ?u (t\<lparr>sp_phase := StopMeasure\<rparr>)"
  proof -
    have sel: "sp_object (t\<lparr>sp_phase := StopMeasure\<rparr>) = sp_object t" "sp_request (t\<lparr>sp_phase := StopMeasure\<rparr>) = sp_request t"
      by simp_all
    show ?thesis
      using here off unfolding stop_ok_def sel by blast
  qed
  have stops: "set ((rn_stopping s)[n := t\<lparr>sp_phase := StopMeasure\<rparr>]) \<subseteq> insert (t\<lparr>sp_phase := StopMeasure\<rparr>) (set (rn_stopping s))"
    by (rule set_update_subset_insert)
  have "records_ok kind_of s'"
    using sessions_okD(1) [OF u] by (simp add: s'_def records_ok_def record_ok_def)
  moreover have "stop_ok kind_of s' x" if "x \<in> set (rn_stopping s')" for x
  proof -
    have "stop_ok kind_of ?u x"
      using that stops measured sessions_okD(2) [OF u, of x] by (auto simp: s'_def)
    then show ?thesis
      by (rule stop_ok_mono) (simp_all add: s'_def)
  qed
  moreover have "reading_ok s' p" if "p \<in> set (rn_reading s')" for p
  proof -
    have "reading_ok ?u p"
      using that sessions_okD(3) [OF u, of p] by (simp add: s'_def)
    then show ?thesis
      by (rule reading_ok_mono) (simp_all add: s'_def)
  qed
  moreover have "creation_ok kind_of s' c" if "rn_creating s = Some c" for c
  proof -
    have c: "creation_ok kind_of ?u c"
      using that by (intro sessions_okD(4) [OF u]) simp
    show ?thesis
    proof (rule creation_ok_same [OF c])
      show "stop_id x \<noteq> creation_id c \<and> sp_object x \<noteq> cr_object c" if "x \<in> set (rn_stopping s')" for x
        using that c stops t by (auto simp: s'_def creation_ok_def)
      show "fst p \<noteq> cr_object c" if "p \<in> set (rn_reading s')" for p
        using that c by (auto simp: s'_def creation_ok_def)
    qed (simp_all add: s'_def del: update_object_get)
  qed
  moreover have "rn_creating s' = rn_creating s"
    by (simp add: s'_def)
  ultimately have "sessions_ok kind_of s'"
    by (auto simp: sessions_ok_def split: option.split)
  moreover have "session_touch ?u \<subseteq> session_touch s"
    using keeps by (rule touch_update) simp
  then have "session_fence kind_of s s'"
    by (intro fence_step_quiet) (simp_all add: s'_def)
  ultimately show ?thesis
    by blast
qed

text \<open>The stop is over: it releases the hold only if it is still its own.\<close>

lemma stop_measured_steps:
  fixes now :: int and status :: string
  assumes ok: "sessions_ok kind_of s" and n: "n < length (rn_stopping s)"
    and measure: "sp_phase (rn_stopping s ! n) = StopMeasure" and final: "\<not> stoppable_status status"
  defines "t \<equiv> rn_stopping s ! n"
  defines "s' \<equiv> set_holders (release_workspace (sr_workspace_key (sp_request t)) (stop_id t) (holders s))
      (update_object (sp_object t) (\<lambda>r. r\<lparr>se_status := status, se_finished_at := Some now\<rparr>)
         (s\<lparr>rn_stopping := remove_nth n (rn_stopping s)\<rparr>))"
  shows "sessions_ok kind_of s' \<and> session_fence kind_of s s'"
proof -
  let ?f = "\<lambda>r. r\<lparr>se_status := status, se_finished_at := Some now\<rparr>" and ?g = "s\<lparr>rn_stopping := remove_nth n (rn_stopping s)\<rparr>"
  have t: "stop_ok kind_of s t"
    using n by (intro sessions_okD(2) [OF ok]) (simp add: t_def)
  have gone: "sessions_ok kind_of ?g"
    using ok set_remove_nth by (rule fewer_stops)
  have keeps: "keeps_record ?f"
    by (simp add: keeps_record_def)
  have "\<not> se_reader r" if "session_at s i r" "se_object r = sp_object t" for i r
    using t that measure unfolding stop_ok_def t_def by blast
  then have "sessions_ok kind_of s'"
    unfolding s'_def session_parts_jobs by (intro sessions_update [OF gone keeps]) auto
  moreover have "session_touch s' \<subseteq> session_touch s - {session_key (sp_request t)}"
  proof
    fix p assume p: "p \<in> session_touch s'"
    have "session_touch s' \<subseteq> session_touch ?g"
      unfolding s'_def session_touch_jobs using keeps by (rule touch_update) (use final in simp)
    then have "p \<in> session_touch s"
      using p by auto
    moreover have "p \<noteq> session_key (sp_request t)"
    proof
      assume q: "p = session_key (sp_request t)"
      have id: "snd p = stop_id t"
        by (simp add: q session_key_def)
      consider (rec) i r where "session_at s' i r" "stoppable_status (se_status r)" "p = session_key (se_request r)"
        | (creation) c where "rn_creating s = Some c" "p = session_key (cr_request c)"
        using p by (auto simp: session_touch_def s'_def set_holders_def split: option.splits)
      then show False
      proof cases
        case rec
        then obtain r0 where r0: "session_at s i r0" "r = (if se_object r0 = sp_object t then ?f r0 else r0)"
          by (auto simp: s'_def set_holders_def)
        then have "se_object r0 \<noteq> sp_object t"
          using rec(2) final by auto
        moreover have "i = stop_id t"
        proof -
          have "sr_session_id (se_request r0) = i"
            using sessions_okD(1) [OF ok] r0(1) by (simp add: records_ok_def record_ok_def)
          moreover have "se_request r = se_request r0"
            using r0(2) by simp
          ultimately show ?thesis
            using id rec(3) by (simp add: session_key_def)
        qed
        moreover have "i \<notin> set (rn_retired s)"
          using sessions_okD(1) [OF ok] r0(1) by (simp add: records_ok_def record_ok_def)
        ultimately show False
          using t r0(1) unfolding stop_ok_def by auto
      next
        case creation
        have "stop_id t \<noteq> creation_id c"
          using sessions_okD(4) [OF ok creation(1)] n by (simp add: creation_ok_def t_def)
        then show False
          using id creation(2) by (simp add: session_key_def)
      qed
    qed
    ultimately show "p \<in> session_touch s - {session_key (sp_request t)}"
      by simp
  qed
  then have "session_fence kind_of s s'"
    using t by (intro fence_step_release [where k = "sr_workspace_key (sp_request t)" and i = "stop_id t"])
      (simp_all add: stop_ok_def session_key_def s'_def)
  ultimately show ?thesis
    by blast
qed

lemma stop_steps:
  assumes ok: "sessions_ok kind_of s"
  shows "sessions_ok kind_of (stop_step redact n now good s) \<and> session_fence kind_of s (stop_step redact n now good s)"
proof (cases "n < length (rn_stopping s)")
  case False
  with ok show ?thesis
    by (simp add: stop_step_def fence_step_quiet)
next
  case True
  let ?gone = "s\<lparr>rn_stopping := remove_nth n (rn_stopping s)\<rparr>"
  show ?thesis
  proof (cases "sp_phase (rn_stopping s ! n)")
    case StopDelete
    have "sessions_ok kind_of ?gone"
      using ok set_remove_nth by (rule fewer_stops)
    moreover have "session_fence kind_of s ?gone"
      by (rule fence_step_quiet) simp_all
    ultimately show ?thesis
      using True StopDelete stop_deleted_steps [OF ok True, of redact] by (simp add: stop_step_def Let_def)
  next
    case StopMeasure
    have "\<not> stoppable_status (if b then ''expired'' else ''stopped'')" for b
      by (simp add: stoppable_status_def)
    from stop_measured_steps [OF ok True StopMeasure this] StopMeasure True show ?thesis
      by (simp add: stop_step_def Let_def)
  qed
qed

lemma cleanup_steps:
  assumes ok: "sessions_ok kind_of s" and calm: "\<And>c. rn_creating s = Some c \<Longrightarrow> i \<noteq> creation_id c"
  shows "sessions_ok kind_of (cleanup_one now i s) \<and> session_fence kind_of s (cleanup_one now i s)"
proof (cases "\<exists>r. session_at s i r \<and> \<not> overdue now r \<and> retirable now r")
  case False
  then have "cleanup_one now i s = s \<or> cleanup_one now i s = stop_begin i True s"
    by (auto simp: cleanup_one_def split: option.split)
  then show ?thesis
    using ok stop_begin_steps [OF assms] by (auto simp: fence_step_quiet)
next
  case True
  let ?retired = "if i \<in> set (rn_retired s) then rn_retired s else rn_retired s @ [i]"
  let ?s = "s\<lparr>rn_retired := ?retired, rn_records := dict_del (rn_records s) i\<rparr>"
  have result: "cleanup_one now i s = ?s"
    using True by (auto simp: cleanup_one_def)
  have retired: "set ?retired = insert i (set (rn_retired s))"
    by auto
  have at: "session_at ?s j r \<longleftrightarrow> j \<noteq> i \<and> session_at s j r" for j r
    by simp
  have "records_ok kind_of ?s"
    using sessions_okD(1) [OF ok] unfolding records_ok_def at by (auto simp: record_ok_def wf_dict_del)
  moreover have "stop_ok kind_of ?s t" if "t \<in> set (rn_stopping s)" for t
    by (rule stop_ok_mono [OF sessions_okD(2) [OF ok that]]) (auto split: if_splits)
  moreover have "reading_ok ?s p" if "p \<in> set (rn_reading s)" for p
    by (rule reading_ok_mono [OF sessions_okD(3) [OF ok that]]) (auto split: if_splits)
  moreover have "creation_ok kind_of ?s c" if "rn_creating s = Some c" for c
  proof -
    have "creation_id c \<notin> set ?retired"
      using sessions_okD(4) [OF ok that] calm [OF that] by (simp add: creation_ok_def)
    then show ?thesis
      using sessions_okD(4) [OF ok that] calm [OF that] unfolding creation_ok_def by auto
  qed
  ultimately have "sessions_ok kind_of ?s"
    by (auto simp: sessions_ok_def split: option.split)
  moreover have "session_touch ?s \<subseteq> session_touch s"
    unfolding session_touch_def at by auto
  then have "session_fence kind_of s ?s"
    by (intro fence_step_quiet) simp_all
  ultimately show ?thesis
    by (simp add: result)
qed

text \<open>Reading.\<close>

lemma find_object_Some: "wf_dict (rn_records s) \<Longrightarrow> find_object obj s = Some r \<Longrightarrow> \<exists>i. session_at s i r \<and> se_object r = obj"
  by (auto simp: find_object_def find_Some_iff dict_get_member [symmetric] in_set_conv_nth)
     (metis (no_types, lifting) fst_conv prod.collapse snd_conv)

lemma found_record:
  assumes "sessions_ok kind_of s" "find_object obj s = Some r"
  obtains "session_at s (sr_session_id (se_request r)) r" "se_object r = obj"
proof -
  have wf: "wf_dict (rn_records s)"
    using sessions_okD(1) [OF assms(1)] by (simp add: records_ok_def)
  then obtain i where i: "session_at s i r" "se_object r = obj"
    using find_object_Some assms(2) by blast
  then have "sr_session_id (se_request r) = i"
    using sessions_okD(1) [OF assms(1)] by (simp add: records_ok_def record_ok_def)
  with i show thesis
    by (intro that) simp_all
qed

lemma read_over_steps:
  assumes ok: "sessions_ok kind_of s"
  shows "sessions_ok kind_of (read_over redact obj code s) \<and> session_fence kind_of s (read_over redact obj code s)"
proof (cases "\<exists>r. find_object obj s = Some r \<and> se_reader r")
  case False
  then have "read_over redact obj code s = s"
    by (auto simp: read_over_def split: option.split)
  with ok show ?thesis
    by (simp add: fence_step_quiet)
next
  case True
  then obtain r where found: "find_object obj s = Some r" and reader: "se_reader r"
    by blast
  from found_record [OF ok found] have r: "session_at s (sr_session_id (se_request r)) r" "se_object r = obj"
    by blast+
  let ?i = "sr_session_id (se_request r)"
  let ?f = "\<lambda>r. (case code of None \<Rightarrow> r | Some n \<Rightarrow> (append_output redact [] True r)\<lparr>se_exit_code := Some n\<rparr>)\<lparr>se_reader := False\<rparr>"
  let ?g = "\<lambda>r. r\<lparr>se_status := ''stopping''\<rparr>"
  let ?u = "update_object obj ?f s" and ?final = "if code = Some 0 then ''completed'' else ''failed''"
  have f: "keeps_record ?f" "\<And>q. se_status (?f q) = se_status q" "\<And>q. \<not> se_reader (?f q)"
    by (auto simp: keeps_record_def split: option.split)
  have g: "keeps_record ?g"
    by (simp add: keeps_record_def)
  have u: "sessions_ok kind_of ?u"
    by (rule sessions_update [OF ok f(1)]) (use f(3) in simp)
  have ut: "session_touch ?u \<subseteq> session_touch s"
    using f(1) by (rule touch_update) (use f(2) in simp)
  show ?thesis
  proof (cases "se_status r = ''stopping''")
    case True
    then have "read_over redact obj code s = ?u"
      using found reader by (simp add: read_over_def Let_def)
    with u ut show ?thesis
      by (simp add: fence_step_quiet)
  next
    case False
    let ?w = "update_object obj ?g ?u" and ?r = "?g (?f r)"
    have result: "read_over redact obj code s = ?w\<lparr>rn_reading := rn_reading ?w @ [(se_object ?r, ?final)]\<rparr>"
      using found reader False r(2) f(1) by (simp add: read_over_def Let_def keeps_record_def)
    have w: "sessions_ok kind_of ?w"
      by (rule sessions_update [OF u g]) (simp add: stoppable_status_def)
    have fr: "session_at ?u ?i (?f r)" "se_object (?f r) = obj"
      using r keeps_recordD(1) [OF f(1)] by simp_all
    then have "session_at ?w ?i ?r"
      by (simp only: update_object_get option.map simp_thms if_True)
    moreover have "\<not> se_reader ?r"
      using f(3) by simp
    moreover have "\<not> stoppable_status ?final"
      by (simp add: stoppable_status_def)
    moreover have "cr_object c \<noteq> se_object ?r" if "rn_creating ?w = Some c" for c
      using that not_creating(2) [OF ok _ r(1) reader] f(1) by (simp add: keeps_record_def)
    ultimately have "sessions_ok kind_of (read_over redact obj code s)"
      unfolding result by (rule sessions_add_reading [OF w])
    moreover have "session_touch ?w \<subseteq> session_touch ?u"
    proof (rule touch_update [OF g])
      fix j q assume q: "session_at ?u j q" "se_object q = obj"
      have "q = ?f r"
        by (rule same_record [OF u fr(1) q(1)]) (simp only: fr(2) q(2))
      then show "stoppable_status (se_status q)"
        using f(2) record_live [OF ok r(1) reader] by simp
    qed
    then have "session_fence kind_of s (read_over redact obj code s)"
      unfolding result using ut by (intro fence_step_quiet) simp_all
    ultimately show ?thesis
      by blast
  qed
qed

lemma read_end_steps:
  assumes ok: "sessions_ok kind_of s"
  shows "sessions_ok kind_of (read_end obj now s) \<and> session_fence kind_of s (read_end obj now s)"
proof (cases "\<exists>final r. map_of (rn_reading s) obj = Some final \<and> find_object obj s = Some r")
  case False
  then have "read_end obj now s = s"
    by (auto simp: read_end_def split: option.split)
  with ok show ?thesis
    by (simp add: fence_step_quiet)
next
  case True
  then obtain final r where final: "map_of (rn_reading s) obj = Some final" and found: "find_object obj s = Some r"
    by blast
  from found_record [OF ok found] have r: "session_at s (sr_session_id (se_request r)) r" "se_object r = obj"
    by blast+
  let ?i = "sr_session_id (se_request r)" and ?k = "sr_workspace_key (se_request r)"
  let ?f = "\<lambda>r. r\<lparr>se_status := final, se_finished_at := Some now\<rparr>"
  let ?u = "update_object obj ?f s"
  let ?p = "filter (\<lambda>(o', st). o' \<noteq> obj) (rn_reading s)"
  have result: "read_end obj now s = set_holders (release_workspace ?k ?i (holders s)) (?u\<lparr>rn_reading := ?p\<rparr>)"
    using final found by (simp add: read_end_def Let_def)
  have mem: "(obj, final) \<in> set (rn_reading s)"
    using final by (rule map_of_SomeD)
  then have reading: "reading_ok s (obj, final)"
    by (rule sessions_okD(3) [OF ok])
  have keeps: "keeps_record ?f"
    by (simp add: keeps_record_def)
  have "sessions_ok kind_of ?u"
    by (rule sessions_update [OF ok keeps]) (use reading in \<open>auto simp: reading_ok_def\<close>)
  then have "sessions_ok kind_of (?u\<lparr>rn_reading := ?p\<rparr>)"
    by (rule fewer_readings) auto
  then have "sessions_ok kind_of (read_end obj now s)"
    by (simp add: result)
  moreover have "session_touch ?u \<subseteq> session_touch s - {(?k, ?i)}"
  proof
    fix p assume p: "p \<in> session_touch ?u"
    have "session_touch ?u \<subseteq> session_touch s"
      using keeps by (rule touch_update) (use reading in \<open>simp add: reading_ok_def\<close>)
    moreover have "p \<noteq> (?k, ?i)"
    proof
      assume q: "p = (?k, ?i)"
      consider (rec) j x where "session_at ?u j x" "stoppable_status (se_status x)" "p = session_key (se_request x)"
        | (creation) c where "rn_creating s = Some c" "p = session_key (cr_request c)"
        using p unfolding session_touch_def by (auto split: option.splits)
      then show False
      proof cases
        case rec
        then obtain x0 where x0: "session_at s j x0" "x = (if se_object x0 = obj then ?f x0 else x0)"
          using updated_record by blast
        have "sr_session_id (se_request x0) = j"
          using sessions_okD(1) [OF ok] x0(1) by (simp add: records_ok_def record_ok_def)
        moreover have "se_request x = se_request x0"
          using x0(2) by simp
        ultimately have "j = ?i"
          using rec(3) q by (simp add: session_key_def)
        then have "x0 = r"
          using x0(1) r(1) by simp
        then show False
          using x0(2) r(2) rec(2) reading by (simp add: reading_ok_def)
      next
        case creation
        have c: "creation_ok kind_of s c"
          using ok creation(1) by (rule sessions_okD(4))
        have "creation_id c = ?i"
          using creation(2) q by (simp add: session_key_def)
        then have "session_at s (creation_id c) r"
          using r(1) by simp
        then have "cr_object c = obj"
          using c r(2) by (cases "early_phase (cr_phase c)") (simp_all add: creation_ok_def)
        then show False
          using not_creating(1) [OF ok creation(1) mem] by blast
      qed
    qed
    ultimately show "p \<in> session_touch s - {(?k, ?i)}"
      using p by auto
  qed
  moreover have "record_ok kind_of s ?i r"
    using sessions_okD(1) [OF ok] r(1) unfolding records_ok_def by blast
  then have "kind_of ?i = SessionOwner"
    unfolding record_ok_def by blast
  ultimately have "session_fence kind_of s (read_end obj now s)"
    unfolding result session_touch_jobs touch_parts holders_parts by (intro fence_step_release [where k = ?k and i = ?i]) simp_all
  with \<open>sessions_ok kind_of (read_end obj now s)\<close> show ?thesis
    by blast
qed

end
