(* ===== verification/SandboxProps.thy ===== *)
theory SandboxProps
  imports SandboxExclusion
begin

text \<open>
  The runner as a fenced system, and what follows for its histories: one holder per workspace, and how the
  failing creation of a session loses a hold.
\<close>

section \<open>The runner keeps the fence\<close>

definition touch_set :: "runner \<Rightarrow> touches" where
  "touch_set s = job_touch (rn_jobs s) \<union> (session_touch s \<union> set (rn_operations s))"

definition operations_named :: "(string \<Rightarrow> owner_kind) \<Rightarrow> runner \<Rightarrow> bool" where
  "operations_named kind_of s \<longleftrightarrow> (\<forall>k i. (k, i) \<in> set (rn_operations s) \<longrightarrow> kind_of i = OperationOwner)"

definition runner_sound :: "(string \<Rightarrow> owner_kind) \<Rightarrow> runner \<Rightarrow> bool" where
  "runner_sound kind_of s \<longleftrightarrow> jobs_named kind_of (rn_jobs s) \<and> sessions_ok kind_of s \<and> operations_named kind_of s"

lemma touching_set: "runner_sound kind_of s \<Longrightarrow> set (touching s) = touch_set s"
proof -
  assume "runner_sound kind_of s"
  then have "wf_dict (jm_jobs (rn_jobs s))" "wf_dict (rn_records s)"
    by (simp_all add: runner_sound_def jobs_named_def sessions_ok_def records_ok_def)
  then show ?thesis
    unfolding touching_def touch_set_def job_touches_def job_touch_def session_touches_def session_touch_def
    by (auto simp: dict_get_member image_iff split: option.splits) (metis dict_get_member)+
qed

text \<open>Who is not a job, not a session, not an operation.\<close>

lemma kinds_apart:
  assumes "runner_sound kind_of s"
  shows "(k, i) \<in> session_touch s \<union> set (rn_operations s) \<Longrightarrow> kind_of i \<noteq> JobOwner"
    and "(k, i) \<in> job_touch (rn_jobs s) \<union> set (rn_operations s) \<Longrightarrow> kind_of i \<noteq> SessionOwner"
    and "(k, i) \<in> job_touch (rn_jobs s) \<union> session_touch s \<Longrightarrow> kind_of i \<noteq> OperationOwner"
  using assms job_touch_named [of kind_of "rn_jobs s" k i] session_touch_named [of kind_of s k i]
  by (auto simp: runner_sound_def operations_named_def)

definition keeps_fence :: "(string \<Rightarrow> owner_kind) \<Rightarrow> runner \<Rightarrow> runner \<Rightarrow> bool" where
  "keeps_fence kind_of s s' \<longleftrightarrow>
     runner_sound kind_of s' \<and> fence_step (\<lambda>_. True) (touch_set s) (holders s) (touch_set s') (holders s')"

text \<open>Managers that differ in the table at most.\<close>

definition same_jobs :: "job_manager \<Rightarrow> job_manager \<Rightarrow> bool" where
  "same_jobs m' m \<longleftrightarrow> m'\<lparr>jm_holders := jm_holders m\<rparr> = m"

lemma same_jobsD:
  assumes "same_jobs m' m"
  shows "job_touch m' = job_touch m" "jobs_named kind_of m' = jobs_named kind_of m"
  using assms job_touch_holders [where m = m' and h = "jm_holders m"]
    jobs_named_holders [where kind_of = kind_of and m = m' and h = "jm_holders m"]
  by (simp_all add: same_jobs_def)

text \<open>A step of the jobs alone, of the sessions alone, and of the operations alone.\<close>

lemma fence_jobs:
  assumes sound: "runner_sound kind_of s" and m: "jobs_named kind_of m" "job_fence kind_of (rn_jobs s) m"
  shows "keeps_fence kind_of s (s\<lparr>rn_jobs := m\<rparr>)"
proof -
  let ?u = "session_touch s \<union> set (rn_operations s)"
  have "fence_step (\<lambda>_. True) (job_touch (rn_jobs s) \<union> ?u) (jm_holders (rn_jobs s)) (job_touch m \<union> ?u) (jm_holders m)"
    using m(2) by (rule fence_step_beside) (use kinds_apart(1) [OF sound] in blast)
  then show ?thesis
    using sound m(1) by (simp add: keeps_fence_def runner_sound_def operations_named_def touch_set_def holders_def)
qed

lemma fence_sessions:
  assumes sound: "runner_sound kind_of s" and s': "sessions_ok kind_of s'" "session_fence kind_of s s'"
    and rest: "rn_operations s' = rn_operations s" "same_jobs (rn_jobs s') (rn_jobs s)"
  shows "keeps_fence kind_of s s'"
proof -
  have "job_touch (rn_jobs s') = job_touch (rn_jobs s)" "jobs_named kind_of (rn_jobs s')"
    using same_jobsD [OF rest(2)] sound by (simp_all add: runner_sound_def)
  moreover have "touch_set x = session_touch x \<union> (job_touch (rn_jobs x) \<union> set (rn_operations x))" for x
    by (auto simp: touch_set_def)
  moreover have "fence_step (\<lambda>_. True) (session_touch s \<union> (job_touch (rn_jobs s) \<union> set (rn_operations s))) (holders s)
      (session_touch s' \<union> (job_touch (rn_jobs s) \<union> set (rn_operations s))) (holders s')"
    using s'(2) by (rule fence_step_beside) (use kinds_apart(2) [OF sound] in blast)
  ultimately show ?thesis
    using sound s'(1) rest(1) by (simp add: keeps_fence_def runner_sound_def operations_named_def)
qed

lemma fence_begin_operation:
  assumes sound: "runner_sound kind_of s" and i: "kind_of i = OperationOwner"
  shows "keeps_fence kind_of s (snd (operation_begin key i s))"
proof (cases "holders s key = None")
  case True
  then have "fence_step (\<lambda>_. True) (touch_set s) (holders s) (touch_set (snd (operation_begin key i s)))
      (holders (snd (operation_begin key i s)))"
    by (intro fence_step_take [where k = key and i = i])
       (auto simp: operation_begin_def touch_set_def set_holders_def holders_def workspace_is_free_def session_touch_def)
  then show ?thesis
    using sound i by (auto simp: keeps_fence_def runner_sound_def operations_named_def operation_begin_def set_holders_def)
next
  case False
  with sound show ?thesis
    by (simp add: operation_begin_def keeps_fence_def fence_step_quiet)
qed

lemma fence_end_operation:
  assumes sound: "runner_sound kind_of s"
  shows "keeps_fence kind_of s (operation_end key i s)"
proof (cases "(key, i) \<in> set (rn_operations s)")
  case True
  let ?ops = "filter (\<lambda>p. p \<noteq> (key, i)) (rn_operations s)"
  let ?s = "set_holders (release_workspace key i (holders s)) (s\<lparr>rn_operations := ?ops\<rparr>)"
  have "kind_of i = OperationOwner"
    using sound True by (auto simp: runner_sound_def operations_named_def)
  then have "(key, i) \<notin> job_touch (rn_jobs s) \<union> session_touch s"
    using kinds_apart(3) [OF sound, of key i] by blast
  then have "touch_set ?s \<subseteq> touch_set s - {(key, i)}"
    by (auto simp: touch_set_def set_holders_def session_touch_def)
  then have "fence_step (\<lambda>_. True) (touch_set s) (holders s) (touch_set ?s) (holders ?s)"
    by (intro fence_step_release [where k = key and i = i]) simp_all
  moreover have "runner_sound kind_of ?s"
    using sound by (auto simp: runner_sound_def operations_named_def set_holders_def)
  ultimately show ?thesis
    using True by (simp add: operation_end_def keeps_fence_def)
next
  case False
  with sound show ?thesis
    by (simp add: operation_end_def keeps_fence_def fence_step_quiet)
qed

lemma session_steps_rest [simp]:
  "rn_operations (snd (create_begin rq s)) = rn_operations s" "rn_operations (create_step now ok s) = rn_operations s"
  "rn_operations (stop_begin i expiring s) = rn_operations s" "rn_operations (stop_step redact n now ok s) = rn_operations s"
  "rn_operations (cleanup_one now i s) = rn_operations s" "rn_operations (read_chunk redact obj text s) = rn_operations s"
  "rn_operations (read_over redact obj code s) = rn_operations s" "rn_operations (read_end obj now s) = rn_operations s"
  "rn_operations (input_step i message s) = rn_operations s"
  by (simp_all add: create_begin_def create_step_def abort_creation_def set_phase_def stop_begin_def stop_step_def Let_def
      cleanup_one_def read_chunk_def read_over_def read_end_def input_step_def set_holders_def update_object_def
      split: option.split create_phase.split stop_phase.split)

lemma session_steps_jobs:
  "same_jobs (rn_jobs (snd (create_begin rq s))) (rn_jobs s)"
  "same_jobs (rn_jobs (create_step now ok s)) (rn_jobs s)"
  "same_jobs (rn_jobs (stop_begin i expiring s)) (rn_jobs s)"
  "same_jobs (rn_jobs (stop_step redact n now ok s)) (rn_jobs s)"
  "same_jobs (rn_jobs (cleanup_one now i s)) (rn_jobs s)"
  "same_jobs (rn_jobs (read_chunk redact obj text s)) (rn_jobs s)"
  "same_jobs (rn_jobs (read_over redact obj code s)) (rn_jobs s)"
  "same_jobs (rn_jobs (read_end obj now s)) (rn_jobs s)"
  "same_jobs (rn_jobs (input_step i message s)) (rn_jobs s)"
  by (auto simp: same_jobs_def create_begin_def create_step_def abort_creation_def stop_begin_def stop_step_def Let_def
      cleanup_one_def read_chunk_def read_over_def read_end_def input_step_def
      split: option.split create_phase.split stop_phase.split)


text \<open>Every event keeps the fence; a restart leaves no one at work.\<close>

lemma runner_fence:
  assumes sound: "runner_sound kind_of s" and calm: "calm_event s e" and named: "named_event kind_of e"
    and fence: "fenced (touch_set s) (holders s)" and e: "\<not> (\<exists>now. e = Restart now)"
  shows "keeps_fence kind_of s (runner_step st redact e s)"
proof -
  have jobs: "jobs_named kind_of (rn_jobs s)" and sessions: "sessions_ok kind_of s"
    using sound by (simp_all add: runner_sound_def)
  note job = fence_jobs [OF sound] and session = fence_sessions [OF sound _ _ session_steps_rest(1) session_steps_jobs(1)]
    fence_sessions [OF sound _ _ session_steps_rest(2) session_steps_jobs(2)]
    fence_sessions [OF sound _ _ session_steps_rest(3) session_steps_jobs(3)]
    fence_sessions [OF sound _ _ session_steps_rest(4) session_steps_jobs(4)]
    fence_sessions [OF sound _ _ session_steps_rest(5) session_steps_jobs(5)]
    fence_sessions [OF sound _ _ session_steps_rest(6) session_steps_jobs(6)]
    fence_sessions [OF sound _ _ session_steps_rest(7) session_steps_jobs(7)]
    fence_sessions [OF sound _ _ session_steps_rest(8) session_steps_jobs(8)]
    fence_sessions [OF sound _ _ session_steps_rest(9) session_steps_jobs(9)]
  have mine: "fenced (session_touch s) (holders s)"
    using fence by (simp add: fenced_def touch_set_def)
  show ?thesis
  proof (cases e)
    case (Submit now rq)
    with job [OF submit_touch [OF jobs]] named show ?thesis by (simp add: on_jobs_def)
  next
    case (Cancel i)
    with job [OF cancel_touch [OF jobs]] show ?thesis by (simp add: on_jobs_def)
  next
    case (QueueTry i now late)
    with job [OF run_queue_touch [OF jobs]] show ?thesis by (simp add: on_jobs_def)
  next
    case (Docker i now ans)
    with job [OF run_docker_touch [OF jobs]] show ?thesis by (simp add: on_jobs_def)
  next
    case (Create rq)
    show ?thesis
    proof (cases "rn_creating s = None")
      case True
      with session(1) [OF create_begin_steps [OF sessions True]] Create named show ?thesis by simp
    next
      case False
      with Create have "runner_step st redact e s = s" by auto
      with sound show ?thesis by (simp add: keeps_fence_def fence_step_quiet)
    qed
  next
    case (CreateStep now ok)
    with session(2) create_steps [OF sessions mine] show ?thesis by simp
  next
    case (Stop i)
    with calm have "\<And>c. rn_creating s = Some c \<Longrightarrow> i \<noteq> creation_id c"
      by (simp add: calm_event_def)
    with session(3) stop_begin_steps [OF sessions] Stop show ?thesis by simp
  next
    case (StopStep n now ok)
    with session(4) stop_steps [OF sessions] show ?thesis by simp
  next
    case (Cleanup now i)
    with calm have "\<And>c. rn_creating s = Some c \<Longrightarrow> i \<noteq> creation_id c"
      by (simp add: calm_event_def)
    with session(5) cleanup_steps [OF sessions] Cleanup show ?thesis by simp
  next
    case (Chunk obj chars)
    with session(6) chunk_steps [OF sessions] show ?thesis by simp
  next
    case (ReadOver obj code)
    with session(7) read_over_steps [OF sessions] show ?thesis by simp
  next
    case (ReadEnd obj now)
    with session(8) read_end_steps [OF sessions] show ?thesis by simp
  next
    case (Input i message)
    with session(9) input_steps [OF sessions] show ?thesis by simp
  next
    case (OpBegin key i)
    with fence_begin_operation [OF sound] named show ?thesis by simp
  next
    case (OpEnd key i)
    with fence_end_operation [OF sound] show ?thesis by simp
  next
    case (Restart now)
    with e show ?thesis by blast
  qed
qed

lemma fresh_sound: "runner_sound kind_of (fresh_runner now es)"
  by (simp add: runner_sound_def fresh_runner_def start_runner_def jobs_named_def sessions_ok_def records_ok_def
      operations_named_def wf_dict_def dict_get_def)

lemma fresh_touch: "touch_set (fresh_runner now es) = {}"
  by (simp add: touch_set_def fresh_runner_def start_runner_def job_touch_def session_touch_def dict_get_def)

lemma fresh_fenced: "fenced (touch_set (fresh_runner now es)) (holders (fresh_runner now es))"
  by (simp add: fresh_touch fenced_def)

interpretation fence: workspace_fence touch_set holders "runner_sound kind_of" "runner_step st redact"
    "\<lambda>s e. calm_event s e \<and> named_event kind_of e"
  for kind_of st redact
proof (unfold_locales, goal_cases)
  case (1 s e)
  then show ?case
    using runner_fence [of kind_of s e st redact] fresh_sound by (cases "\<exists>now. e = Restart now") (auto simp: keeps_fence_def)
next
  case (2 s e)
  then show ?case
    using runner_fence [of kind_of s e st redact] fresh_touch by (cases "\<exists>now. e = Restart now") (auto simp: keeps_fence_def)
qed

section \<open>One holder per workspace\<close>

lemma calm_allowed:
  "fence.allowed_run st redact kind_of es s \<longleftrightarrow> calm st redact es s \<and> list_all (named_event kind_of) es"
  by (induction es arbitrary: s) auto

text \<open>
  C28 (safety) Whatever jobs, interactive sessions and file operations do on the runner, in whatever order
  Docker answers and across restarts, two of them never touch one workspace at once: a workspace is touched by
  the identity the table of holders names. This holds of histories in which no one stops or cleans up a session
  that is still being created, and whose callers draw the ids of jobs, sessions and operations from different
  spaces. A job touches its workspace until its task is over: as in the code, also one whose container Docker
  then failed to delete is over, and counts as no longer touching.
\<close>

theorem one_holder_per_workspace:
  assumes "calm st redact es (fresh_runner now [])" and "list_all (named_event kind_of) es"
    and "(k, i) \<in> set (touching (run st redact es (fresh_runner now [])))"
    and "(k, j) \<in> set (touching (run st redact es (fresh_runner now [])))"
  shows "i = j \<and> holders (run st redact es (fresh_runner now [])) k = Some i"
proof -
  let ?s = "run st redact es (fresh_runner now [])"
  have allowed: "fence.allowed_run st redact kind_of es (fresh_runner now [])"
    using assms(1,2) by (simp add: calm_allowed)
  have sound: "runner_sound kind_of ?s"
    using fence.sound_after [OF fresh_sound fresh_fenced allowed] by (simp add: run_def)
  have "fenced (touch_set ?s) (holders ?s)"
    using fence.fenced_after [OF fresh_sound fresh_fenced allowed] by (simp add: run_def)
  then have "holders ?s k = Some i" "holders ?s k = Some j"
    using assms(3,4) unfolding touching_set [OF sound] fenced_def by blast+
  then show ?thesis
    by simp
qed

text \<open>A job at work beside a running session, each on its own disk.\<close>

definition two_disks :: "runner_event list" where
  "two_disks =
     [Create (session_on ''s'' ''v''), CreateStep 1 True, CreateStep 2 True, CreateStep 3 True, CreateStep 4 True,
      CreateStep 5 True, CreateStep 6 True, Submit 7 (job_on ''j'' ''a'' ''w'' (Some None)), QueueTry ''j'' 7 False]"

definition two_kinds :: "string \<Rightarrow> owner_kind" where
  "two_kinds i = (if i = ''j'' then JobOwner else SessionOwner)"

theorem one_holder_per_workspace_witness:
  "holders (run small_settings plain_redactor two_disks (fresh_runner 0 [])) ''w'' = Some ''j''"
proof -
  have "calm small_settings plain_redactor two_disks (fresh_runner 0 [])"
    by code_simp
  moreover have "list_all (named_event two_kinds) two_disks"
    by code_simp
  moreover have "(''w'', ''j'') \<in> set (touching (run small_settings plain_redactor two_disks (fresh_runner 0 [])))"
    by code_simp
  ultimately show ?thesis
    using one_holder_per_workspace by blast
qed

section \<open>A workspace lost\<close>

text \<open>
  C29 (error) Without that condition the fence falls: a creation that fails pops the hold of its workspace whoever
  has it by now (a stop of the session lets another job take it). On any runner, a job that is at work there is
  then joined by the next job in the queue, on the same disk. A stop, by contrast, leaves the hold of another alone.
\<close>

theorem stopped_creation_loses_workspace:
  assumes "rn_creating s = Some c" "cr_phase c = CAbort" "sr_workspace_key (cr_request c) = key" "key \<noteq> []"
    and "dict_get (jm_jobs (rn_jobs s)) i = Some r" "working r" "rq_workspace_key (jr_request r) = key"
    and "dict_get (jm_jobs (rn_jobs s)) j = Some q" "jr_phase q = PQueue" "rq_workspace_key (jr_request q) = key"
      "\<not> jr_cancel_requested q"
    and "holders s key = Some i" "n < length (rn_stopping s) \<longrightarrow> sr_session_id (sp_request (rn_stopping s ! n)) \<noteq> i"
  shows "{(key, i), (key, j)} \<subseteq> set (touching (run st redact [CreateStep now ok, QueueTry j later False] s))
    \<and> holders (run st redact [StopStep n now ok] s) key = Some i"
proof
  let ?t = "create_step now ok s"
  have t: "rn_jobs ?t = (rn_jobs s)\<lparr>jm_holders := (holders s)(key := None)\<rparr>"
    using assms(1-3) by (simp add: create_step_def abort_creation_def set_holders_def)
  let ?q = "q\<lparr>jr_status := ''running'', jr_started_at := Some later, jr_phase := PPrepare\<rparr>"
  have jobs: "jm_jobs (rn_jobs (run st redact [CreateStep now ok, QueueTry j later False] s)) = dict_set (jm_jobs (rn_jobs s)) j ?q"
    using assms(4,8-11)
    by (simp add: t on_jobs_def run_queue_step_def job_step_def queue_step_def begin_work_def put_job_def Let_def
        workspace_is_free_def)
  have "i \<noteq> j"
    using assms(5,6,8,9) by (auto simp: working_def)
  then have "dict_get (dict_set (jm_jobs (rn_jobs s)) j ?q) i = Some r" "dict_get (dict_set (jm_jobs (rn_jobs s)) j ?q) j = Some ?q"
    using assms(5) by simp_all
  then have "(i, r) \<in> set (dict_set (jm_jobs (rn_jobs s)) j ?q)" "(j, ?q) \<in> set (dict_set (jm_jobs (rn_jobs s)) j ?q)"
    by (auto simp: dict_get_def dest: map_of_SomeD)
  then show "{(key, i), (key, j)} \<subseteq> set (touching (run st redact [CreateStep now ok, QueueTry j later False] s))"
    using assms(4,6,7,10) unfolding touching_def job_touches_def jobs by (force simp: working_def held_def)
  show "holders (run st redact [StopStep n now ok] s) key = Some i"
    using assms(12,13)
    by (auto simp: stop_step_def Let_def holders_def set_holders_def release_workspace_def update_object_def
        split: stop_phase.split)
qed

text \<open>A session stopped while it is being created; a job takes its workspace, and a second one queues for it.\<close>

definition lost_hold :: "runner_event list" where
  "lost_hold =
     [Create (session_on ''s'' ''w''), CreateStep 1 True, CreateStep 2 True,
      Stop ''s'', StopStep 0 3 True, StopStep 0 4 True,
      Submit 5 (job_on ''j1'' ''a'' ''w'' (Some None)), QueueTry ''j1'' 5 False,
      Submit 6 (job_on ''j2'' ''b'' ''w'' (Some None)), CreateStep 7 False]"

theorem stopped_creation_loses_workspace_witness:
  "{(''w'', ''j1''), (''w'', ''j2'')} \<subseteq> set (touching (run small_settings plain_redactor
      [CreateStep 8 True, QueueTry ''j2'' 9 False] (run small_settings plain_redactor lost_hold (fresh_runner 0 []))))"
proof -
  let ?s = "run small_settings plain_redactor lost_hold (fresh_runner 0 [])"
  let ?r = "the (dict_get (jm_jobs (rn_jobs ?s)) ''j1'')" and ?q = "the (dict_get (jm_jobs (rn_jobs ?s)) ''j2'')"
  have "rn_creating ?s = Some \<lparr>cr_request = session_on ''s'' ''w'', cr_object = 0, cr_phase = CAbort\<rparr>"
    "dict_get (jm_jobs (rn_jobs ?s)) ''j1'' \<noteq> None" "working ?r" "rq_workspace_key (jr_request ?r) = ''w''"
    "dict_get (jm_jobs (rn_jobs ?s)) ''j2'' \<noteq> None" "jr_phase ?q = PQueue" "rq_workspace_key (jr_request ?q) = ''w''"
    "\<not> jr_cancel_requested ?q" "holders ?s ''w'' = Some ''j1''" "rn_stopping ?s = []"
    "sr_workspace_key (session_on ''s'' ''w'') = ''w''"
    by code_simp+
  then show ?thesis
    using stopped_creation_loses_workspace [of ?s _ "''w''" "''j1''" ?r "''j2''" ?q 0 small_settings plain_redactor 8 True 9]
    by auto
qed

end
