(* ===== verification/SandboxStreams.thy ===== *)
theory SandboxStreams
  imports SandboxRunner
begin

text \<open>
  The two streams of an interactive session over every history of the runner: what it showed, of which the
  retained window is the end, and what clients typed, which reaches the transport once and in order.
\<close>

section \<open>Laws of every record\<close>

lemma dict_set_members: "p \<in> set (dict_set d k v) \<Longrightarrow> p = (k, v) \<or> p \<in> set d"
  by (induction d k v rule: dict_set.induct) (auto split: if_splits)

text \<open>A property of session records that each thing the manager does to a record keeps.\<close>

locale record_law =
  fixes law :: "session_record \<Rightarrow> bool"
    and redact :: redactor
  assumes law_new: "law (new_session now c)"
    and law_status: "law r \<Longrightarrow> law (r\<lparr>se_status := status\<rparr>)"
    and law_reader: "law r \<Longrightarrow> law (r\<lparr>se_reader := reader\<rparr>)"
    and law_finished: "law r \<Longrightarrow> law (r\<lparr>se_finished_at := stamp\<rparr>)"
    and law_exit: "law r \<Longrightarrow> law (r\<lparr>se_exit_code := code\<rparr>)"
    and law_append: "law r \<Longrightarrow> law (append_output redact chars final r)"
    and law_input: "law r \<Longrightarrow> law (snd (session_input message r))"
begin

definition lawful :: "runner \<Rightarrow> bool" where
  "lawful s \<longleftrightarrow> (\<forall>p \<in> set (rn_records s). law (snd p))"

lemma lawful_same: "lawful s \<Longrightarrow> set (rn_records s') \<subseteq> set (rn_records s) \<Longrightarrow> lawful s'"
  by (auto simp: lawful_def)

lemma lawful_records [simp]:
  "lawful (s\<lparr>rn_jobs := m\<rparr>) = lawful s" "lawful (set_holders h s) = lawful s"
  "lawful (s\<lparr>rn_creating := c\<rparr>) = lawful s" "lawful (s\<lparr>rn_stopping := ts\<rparr>) = lawful s"
  "lawful (s\<lparr>rn_reading := ps\<rparr>) = lawful s" "lawful (s\<lparr>rn_operations := ops\<rparr>) = lawful s"
  "lawful (s\<lparr>rn_next_object := n\<rparr>) = lawful s" "lawful (s\<lparr>rn_retired := ids\<rparr>) = lawful s"
  by (simp_all add: lawful_def set_holders_def)

lemma lawful_update: "lawful s \<Longrightarrow> (\<And>r. law r \<Longrightarrow> law (f r)) \<Longrightarrow> lawful (update_object obj f s)"
  by (auto simp: lawful_def update_object_def)

lemma lawful_set: "lawful s \<Longrightarrow> law r \<Longrightarrow> lawful (s\<lparr>rn_records := dict_set (rn_records s) i r\<rparr>)"
  using dict_set_members by (fastforce simp: lawful_def)

lemma lawful_del: "lawful s \<Longrightarrow> lawful (s\<lparr>rn_records := dict_del (rn_records s) i\<rparr>)"
  by (auto simp: lawful_def dict_del_def)

lemmas record_laws = law_new law_status law_reader law_finished law_exit law_append law_input

lemma law_output_over: "law r \<Longrightarrow> law ((case code of None \<Rightarrow> r
    | Some n \<Rightarrow> (append_output redact [] True r)\<lparr>se_exit_code := Some n\<rparr>)\<lparr>se_reader := False\<rparr>)"
  by (cases code) (simp_all add: record_laws)

lemma law_two:
  "law r \<Longrightarrow> law (r\<lparr>se_status := status, se_reader := reader\<rparr>)"
  "law r \<Longrightarrow> law (r\<lparr>se_status := status, se_finished_at := stamp\<rparr>)"
  "law r \<Longrightarrow> law ((append_output redact [] True r)\<lparr>se_exit_code := code, se_reader := False\<rparr>)"
  using law_reader [OF law_status] law_finished [OF law_status] law_reader [OF law_exit [OF law_append]] by simp_all

lemma lawful_create: "lawful s \<Longrightarrow> lawful (snd (create_begin rq s))"
  by (simp add: create_begin_def split: option.split)

lemma lawful_abort: "lawful s \<Longrightarrow> lawful (abort_creation rq s)"
  using lawful_del by (simp add: abort_creation_def set_holders_def lawful_def)

lemma lawful_create_step: "lawful s \<Longrightarrow> lawful (create_step now ok s)"
  by (auto simp: create_step_def set_phase_def lawful_abort lawful_set law_new law_two lawful_update
      split: option.split create_phase.split)

lemma lawful_stop: "lawful s \<Longrightarrow> lawful (stop_begin i expiring s)"
  by (auto simp: stop_begin_def law_status lawful_update split: option.split)

lemma lawful_stop_step: "lawful s \<Longrightarrow> lawful (stop_step redact n now ok s)"
  by (auto simp: stop_step_def Let_def law_append law_reader law_two lawful_update split: stop_phase.split)

lemma lawful_cleanup: "lawful s \<Longrightarrow> lawful (cleanup_one now i s)"
  using lawful_del [of s] lawful_del [of "s\<lparr>rn_retired := _\<rparr>"]
  by (auto simp: cleanup_one_def lawful_stop split: option.split)

lemma lawful_read:
  "lawful s \<Longrightarrow> lawful (read_chunk redact obj chars s)"
  "lawful s \<Longrightarrow> lawful (read_over redact obj code s)"
  "lawful s \<Longrightarrow> lawful (read_end obj now s)"
  by (auto simp: read_chunk_def read_over_def read_end_def Let_def law_append law_output_over law_status law_two
      lawful_update split: option.split)

lemma lawful_input: "lawful s \<Longrightarrow> lawful (input_step i message s)"
  by (auto simp: input_step_def law_input lawful_update split: option.split)

lemma lawful_fresh: "lawful (fresh_runner now effs)"
  by (simp add: lawful_def fresh_runner_def)

lemma lawful_step: "lawful s \<Longrightarrow> lawful (runner_step st redact e s)"
  by (cases e) (simp_all add: on_jobs_def lawful_create lawful_create_step lawful_stop lawful_stop_step lawful_cleanup
      lawful_read lawful_input operation_begin_def operation_end_def lawful_fresh)

lemma lawful_run: "lawful s \<Longrightarrow> lawful (run st redact es s)"
  by (induction es arbitrary: s) (simp_all add: lawful_step)

lemma law_after: "dict_get (rn_records (run st redact es (fresh_runner now effs))) i = Some r \<Longrightarrow> law r"
proof -
  assume "dict_get (rn_records (run st redact es (fresh_runner now effs))) i = Some r"
  moreover have "lawful (run st redact es (fresh_runner now effs))"
    by (rule lawful_run [OF lawful_fresh])
  ultimately show "law r"
    by (auto simp: lawful_def dict_get_def dest!: map_of_SomeD)
qed

end

section \<open>What a session showed\<close>

lemma last_chars_append: "last_chars n (last_chars n xs @ ys) = last_chars n (xs @ ys)"
proof (cases "int (length xs) \<le> n")
  case False
  then show ?thesis
    by (cases "0 \<le> n")
      (auto simp: last_chars_def nat_diff_distrib' algebra_simps simp flip: of_nat_add intro!: arg_cong2 [where f = "drop"])
qed (simp add: last_chars_def)

lemma last_chars_length: "0 \<le> n \<Longrightarrow> int (length (last_chars n xs)) = min n (int (length xs))"
  by (auto simp: last_chars_def)

lemma appended_keeps [simp]:
  "se_sequences (append_output redact chars final r) = se_sequences r"
  "se_written (append_output redact chars final r) = se_written r"
  "se_status (append_output redact chars final r) = se_status r"
  by (simp_all add: append_output_def split: prod.split)

text \<open>What a chunk lets through.\<close>

definition let_through :: "redactor \<Rightarrow> string \<Rightarrow> session_record \<Rightarrow> string" where
  "let_through redact chars r = fst (redact (se_pending r @ chars) False)"

fun shown_text :: "redactor \<Rightarrow> string list \<Rightarrow> session_record \<Rightarrow> string" where
  "shown_text redact [] r = []"
| "shown_text redact (v # vs) r = let_through redact v r @ shown_text redact vs (append_output redact v False r)"

definition read_chunks :: "redactor \<Rightarrow> string list \<Rightarrow> session_record \<Rightarrow> session_record" where
  "read_chunks redact vs r = fold (\<lambda>v. append_output redact v False) vs r"

definition window_ok :: "session_record \<Rightarrow> bool" where
  "window_ok r \<longleftrightarrow> int (length (se_output r)) = min OUTPUT_LIMIT (int (se_offset r))"

lemma append_output_fields:
  "se_offset (append_output redact v False r) = se_offset r + length (let_through redact v r)"
  "se_output (append_output redact v False r) = last_chars OUTPUT_LIMIT (se_output r @ let_through redact v r)"
  by (simp_all add: append_output_def let_through_def split: prod.split)

lemma window_append: "window_ok r \<Longrightarrow> window_ok (append_output redact chars final r)"
  by (auto simp: window_ok_def append_output_def last_chars_length OUTPUT_LIMIT_def split: prod.split)

lemma read_chunks_offset: "se_offset (read_chunks redact vs r) = se_offset r + length (shown_text redact vs r)"
  unfolding read_chunks_def by (induction vs arbitrary: r) (simp_all add: append_output_fields)

lemma read_chunks_output:
  "window_ok r \<Longrightarrow>
    se_output (read_chunks redact vs r) = last_chars OUTPUT_LIMIT (se_output r @ shown_text redact vs r)"
  unfolding read_chunks_def
proof (induction vs arbitrary: r)
  case Nil
  then show ?case
    by (simp add: window_ok_def last_chars_def)
next
  case (Cons v vs)
  then show ?case
    using last_chars_append [of OUTPUT_LIMIT "se_output r @ let_through redact v r"]
    by (simp add: window_append append_output_fields)
qed

text \<open>The part of the window after what was read up to.\<close>

lemma window_tail:
  assumes "window_ok r"
  shows "drop (nat (max 0 (int (se_offset r) - max 0 (int (se_offset r + length w) - OUTPUT_LIMIT))))
      (last_chars OUTPUT_LIMIT (se_output r @ w)) = last_chars OUTPUT_LIMIT w"
proof (cases "int (length w) \<le> OUTPUT_LIMIT")
  case True
  have "nat (max 0 (int (se_offset r) - max 0 (int (se_offset r + length w) - OUTPUT_LIMIT)))
      + nat (int (length (se_output r @ w)) - OUTPUT_LIMIT) = length (se_output r)"
    using assms True by (auto simp: window_ok_def OUTPUT_LIMIT_def)
  then show ?thesis
    using True by (simp add: last_chars_def del: drop_append) (simp add: drop_append)
next
  case False
  then have "nat (max 0 (int (se_offset r) - max 0 (int (se_offset r + length w) - OUTPUT_LIMIT))) = 0"
    by (simp add: OUTPUT_LIMIT_def)
  moreover have "nat (int (length (se_output r @ w)) - OUTPUT_LIMIT)
      = length (se_output r) + nat (int (length w) - OUTPUT_LIMIT)"
    using False by (simp add: nat_add_distrib algebra_simps)
  ultimately show ?thesis
    by (simp add: last_chars_def)
qed

lemma input_window:
  "se_output (snd (session_input message r)) = se_output r" "se_offset (snd (session_input message r)) = se_offset r"
  by (auto simp: session_input_def terminal_input_def take_input_def Let_def
      split: option.split pyval.split)

interpretation window: record_law window_ok redact for redact
proof (unfold_locales, goal_cases)
  case (6 r chars final)
  then show ?case by (rule window_append)
qed (simp_all add: input_window new_session_def window_ok_def OUTPUT_LIMIT_def)

section \<open>What clients typed\<close>

text \<open>The sequence numbers of the inputs a client had written, in order.\<close>

definition written_by :: "string \<Rightarrow> session_record \<Rightarrow> int list" where
  "written_by client r = map (\<lambda>(c, n, t). n) (filter (\<lambda>(c, n, t). c = client) (se_written r))"

definition last_taken :: "string \<Rightarrow> session_record \<Rightarrow> int" where
  "last_taken client r = (case dict_get (se_sequences r) client of None \<Rightarrow> 0 | Some n \<Rightarrow> n)"

definition inputs_ok :: "session_record \<Rightarrow> bool" where
  "inputs_ok r \<longleftrightarrow>
     (\<forall>client. sorted_wrt (<) (written_by client r) \<and> (\<forall>n \<in> set (written_by client r). n \<le> last_taken client r))"

lemma take_input_cases:
  "snd (take_input client chars sequence r) = r
   \<or> snd (take_input client chars sequence r) = r\<lparr>se_sequences := dict_set (se_sequences r) client (last_taken client r)\<rparr>
   \<or> last_taken client r < sequence
     \<and> snd (take_input client chars sequence r) =
         r\<lparr>se_sequences := dict_set (se_sequences r) client sequence,
           se_written := se_written r @ [(client, sequence, chars)]\<rparr>"
  by (auto simp: take_input_def accept_sequence_def last_taken_def Let_def split: option.split)

lemma take_input_ok:
  assumes "inputs_ok r"
  shows "inputs_ok (snd (take_input client chars sequence r))"
  using take_input_cases [of client chars sequence r]
proof (elim disjE conjE)
  assume "last_taken client r < sequence"
  then have "\<forall>n \<in> set (written_by client r). n < sequence"
    using assms by (fastforce simp: inputs_ok_def)
  moreover assume taken: "snd (take_input client chars sequence r) =
      r\<lparr>se_sequences := dict_set (se_sequences r) client sequence, se_written := se_written r @ [(client, sequence, chars)]\<rparr>"
  have "written_by c (snd (take_input client chars sequence r)) = written_by c r @ (if c = client then [sequence] else [])"
    "last_taken c (snd (take_input client chars sequence r)) = (if c = client then sequence else last_taken c r)" for c
    unfolding taken by (simp_all add: written_by_def last_taken_def)
  ultimately show ?thesis
    using assms unfolding inputs_ok_def by (auto simp: sorted_wrt_append less_imp_le)
next
  assume taken: "snd (take_input client chars sequence r) =
      r\<lparr>se_sequences := dict_set (se_sequences r) client (last_taken client r)\<rparr>"
  have "written_by c (snd (take_input client chars sequence r)) = written_by c r"
    "last_taken c (snd (take_input client chars sequence r)) = last_taken c r" for c
    unfolding taken by (simp_all add: written_by_def last_taken_def)
  with assms show ?thesis
    unfolding inputs_ok_def by simp
qed (simp add: assms)

lemma session_input_ok: "inputs_ok r \<Longrightarrow> inputs_ok (snd (session_input message r))"
  by (auto simp: session_input_def terminal_input_def take_input_ok split: option.split pyval.split)

interpretation inputs: record_law inputs_ok redact for redact
proof (unfold_locales, goal_cases)
  case (7 r message)
  then show ?case by (rule session_input_ok)
qed (simp_all add: inputs_ok_def written_by_def last_taken_def new_session_def)

section \<open>Properties\<close>

text \<open>
  C30 (functional) A client that polls a session with the offset it has read up to is given exactly what the
  session showed since, unless that is more than the retained window; then it is told so and given the window.
  This holds after any history of the runner, for any redactor and however the output was cut into chunks.
\<close>

theorem poll_resumes:
  assumes "dict_get (rn_records (run st redact es (fresh_runner now effs))) i = Some r"
  shows "snapshot (Some (int (se_offset r))) (read_chunks redact vs r) =
     \<lparr>sn_output = last_chars OUTPUT_LIMIT (shown_text redact vs r),
      sn_output_offset = se_offset r + length (shown_text redact vs r),
      sn_output_start = max 0 (int (se_offset r + length (shown_text redact vs r)) - OUTPUT_LIMIT),
      sn_truncated = (OUTPUT_LIMIT < int (length (shown_text redact vs r)))\<rparr>"
proof -
  let ?r = "read_chunks redact vs r"
  define w where "w = shown_text redact vs r"
  have ok: "window_ok r"
    using assms by (rule window.law_after)
  note fields = read_chunks_offset [of redact vs r, folded w_def] read_chunks_output [OF ok, of redact vs, folded w_def]
  have "int (length (se_output ?r)) = min OUTPUT_LIMIT (int (se_offset r + length w))"
    using ok by (simp add: fields last_chars_length window_ok_def OUTPUT_LIMIT_def)
  then have start: "int (se_offset ?r) - int (length (se_output ?r)) = max 0 (int (se_offset r + length w) - OUTPUT_LIMIT)"
    by (simp add: fields)
  show ?thesis
    unfolding snapshot_def Let_def start w_def [symmetric]
    unfolding fields using window_tail [OF ok, of w] by (auto simp: OUTPUT_LIMIT_def)
qed

text \<open>A terminal that is typed into, on which a resend comes after its acknowledgement was lost.\<close>

definition typed :: "string \<Rightarrow> int \<Rightarrow> pyval dict" where
  "typed chars sequence = [(''type'', PStr ''input''), (''data'', PStr chars), (''seq'', PInt sequence)]"

definition terminal_story :: "runner_event list" where
  "terminal_story =
     [Create (session_on ''s'' ''w''), CreateStep 1 True, CreateStep 2 True, CreateStep 3 True, CreateStep 4 True,
      CreateStep 5 True, CreateStep 6 True, Chunk 0 ''$'', Input ''s'' (typed ''w'' 1),
      Input ''s'' (typed ''w'' 1)]"

definition terminal_record :: session_record where
  "terminal_record =
     \<lparr>se_object = 0, se_request = session_on ''s'' ''w'', se_status = ''running'', se_output = ''$'',
      se_pending = [], se_offset = 1, se_exit_code = None, se_created_at = 2, se_finished_at = None,
      se_reader = True, se_sequences = [(''internal'', 1)],
      se_written = [(''internal'', 1, ''w'')]\<rparr>"

lemma terminal_record_after:
  "dict_get (rn_records (run small_settings plain_redactor terminal_story (fresh_runner 0 []))) ''s''
     = Some terminal_record"
  by code_simp

theorem poll_resumes_witness:
  "sn_output (snapshot (Some 1) (read_chunks plain_redactor [''/home'', ''/me''] terminal_record)) = ''/home/me''"
proof -
  have "se_offset terminal_record = 1" "shown_text plain_redactor [''/home'', ''/me''] terminal_record = ''/home/me''"
    by code_simp+
  then show ?thesis
    using poll_resumes [OF terminal_record_after, of "[''/home'', ''/me'']"]
    by (simp add: last_chars_def OUTPUT_LIMIT_def)
qed

text \<open>
  What a client types into a terminal is handed to the transport at most once and in the order
  of its sequence numbers, over every history of the runner, resends and reconnects included.
\<close>

theorem inputs_ordered:
  assumes "dict_get (rn_records (run st redact es (fresh_runner now effs))) i = Some r"
  shows "sorted_wrt (<) (written_by client r)"
  using inputs.law_after [OF assms] by (simp add: inputs_ok_def)

theorem inputs_ordered_witness: "sorted_wrt (<) (written_by ''internal'' terminal_record)"
  by (rule inputs_ordered [OF terminal_record_after])

end
