(* ===== verification/SecretRedaction.thy ===== *)
theory SecretRedaction
  imports PyValue
begin

text \<open>
  Secret redaction, \<open>packages/secrets/src/jhin_secrets/redaction.py\<close>: the registry of known secrets, the
  scrubbing of a text, of an append-only stream and of a live snapshot, and of the values of a record. The
  registry is a Python \<open>set\<close>: a list without repetition here, in whatever order the set yields.
\<close>

type_synonym registry = "string list"

definition REDACTED :: string where
  "REDACTED = ''[REDACTED]''"

definition MIN_SECRET_LENGTH :: nat where
  "MIN_SECRET_LENGTH = 6"

definition register_secret :: "string \<Rightarrow> registry \<Rightarrow> registry" where
  "register_secret plaintext vs =
     (if length plaintext < MIN_SECRET_LENGTH then vs
      else if plaintext \<in> set vs then vs else vs @ [plaintext])"

text \<open>\<open>sorted(values, key=len, reverse=True)\<close>, which keeps the order of equal lengths\<close>

definition longest_first :: "registry \<Rightarrow> string list" where
  "longest_first vs = sort_key (\<lambda>v. - int (length v)) vs"

section \<open>A text\<close>

text \<open>\<open>text.replace(v, r)\<close> for a nonempty \<open>v\<close>: the occurrences from the left that do not overlap\<close>

function replace_all :: "string \<Rightarrow> string \<Rightarrow> string \<Rightarrow> string" where
  "replace_all v r [] = []"
| "replace_all v r (c # cs) =
     (if prefix v (c # cs) then r @ replace_all v r (drop (length v - 1) cs) else c # replace_all v r cs)"
  by pat_completeness auto
termination
  by (relation "measure (\<lambda>(v, r, cs). length cs)") auto

definition redact_text :: "registry \<Rightarrow> string \<Rightarrow> string" where
  "redact_text vs chars =
     fold (\<lambda>v chars. if is_infix v chars then replace_all v REDACTED chars else chars) (longest_first vs) chars"

section \<open>A stream\<close>

text \<open>The longest secret the text starts with, and whether the text may be the beginning of one.\<close>

definition complete_secret :: "registry \<Rightarrow> string \<Rightarrow> string option" where
  "complete_secret vs rest = find (\<lambda>v. starts_with rest v) (longest_first vs)"

definition partial_secret :: "registry \<Rightarrow> string \<Rightarrow> bool" where
  "partial_secret vs rest = list_ex (\<lambda>v. starts_with v rest \<and> length rest < length v) vs"

function stream_chunk :: "registry \<Rightarrow> string \<Rightarrow> bool \<Rightarrow> string \<times> string" where
  "stream_chunk vs [] final = ([], [])"
| "stream_chunk vs (c # cs) final =
     (if partial_secret vs (c # cs) \<and> \<not> final then ([], c # cs)
      else case complete_secret vs (c # cs) of
             Some v \<Rightarrow> (case stream_chunk vs (drop (length v - 1) cs) final of
                         (out, pending) \<Rightarrow> (REDACTED @ out, pending))
           | None \<Rightarrow>
               if partial_secret vs (c # cs) then (REDACTED, [])
               else (case stream_chunk vs cs final of (out, pending) \<Rightarrow> (c # out, pending)))"
  by pat_completeness auto
termination
  by (relation "measure (\<lambda>(vs, cs, final). length cs)") auto

definition max_secret_length :: "registry \<Rightarrow> nat" where
  "max_secret_length vs = foldr (\<lambda>v. max (length v)) vs 0"

section \<open>A snapshot\<close>

type_synonym span = "nat \<times> nat"

text \<open>Every occurrence of a secret, also where two overlap.\<close>

definition occurrence_spans :: "string \<Rightarrow> string \<Rightarrow> span list" where
  "occurrence_spans chars v =
     map (\<lambda>i. (i, i + length v)) (filter (\<lambda>i. prefix v (drop i chars)) [0..<length chars])"

text \<open>\<open>range(min(len(text), len(value) - 1), 0, -1)\<close>\<close>

definition partial_sizes :: "string \<Rightarrow> string \<Rightarrow> nat list" where
  "partial_sizes chars v = rev [1..<Suc (min (length chars) (length v - 1))]"

definition unfinished_span :: "string \<Rightarrow> string \<Rightarrow> span list" where
  "unfinished_span chars v =
     (case find (\<lambda>n. ends_with chars (take n v)) (partial_sizes chars v) of
        None \<Rightarrow> [] | Some n \<Rightarrow> [(length chars - n, length chars)])"

definition clipped_span :: "string \<Rightarrow> string \<Rightarrow> span list" where
  "clipped_span chars v =
     (case find (\<lambda>n. starts_with chars (drop (length v - n) v)) (partial_sizes chars v) of
        None \<Rightarrow> [] | Some n \<Rightarrow> [(0, n)])"

definition secret_spans :: "registry \<Rightarrow> bool \<Rightarrow> string \<Rightarrow> span list" where
  "secret_spans vs clipped_start chars =
     concat (map (\<lambda>v. occurrence_spans chars v @ unfinished_span chars v
                       @ (if clipped_start then clipped_span chars v else [])) vs)"

text \<open>\<open>sorted(spans)\<close>: by start, then by end\<close>

definition sorted_spans :: "span list \<Rightarrow> span list" where
  "sorted_spans spans = sort_key fst (sort_key snd spans)"

definition merge_span :: "span list \<Rightarrow> span \<Rightarrow> span list" where
  "merge_span merged p =
     (case p of (start, stop) \<Rightarrow>
        if merged \<noteq> [] \<and> start < snd (last merged)
        then butlast merged @ [(fst (last merged), max stop (snd (last merged)))]
        else merged @ [(start, stop)])"

text \<open>What \<open>parts\<close> is joined from: text that is kept, and the marker.\<close>

datatype piece = Kept string | Marker

definition piece_text :: "piece \<Rightarrow> string" where
  "piece_text p = (case p of Kept s \<Rightarrow> s | Marker \<Rightarrow> REDACTED)"

fun snapshot_parts :: "string \<Rightarrow> nat \<Rightarrow> span list \<Rightarrow> piece list" where
  "snapshot_parts chars offset [] = [Kept (drop offset chars)]"
| "snapshot_parts chars offset ((start, stop) # spans) =
     Kept (drop offset (take start chars)) # Marker # snapshot_parts chars stop spans"

definition redacted_parts :: "registry \<Rightarrow> bool \<Rightarrow> string \<Rightarrow> piece list" where
  "redacted_parts vs clipped_start chars =
     snapshot_parts chars 0 (foldl merge_span [] (sorted_spans (secret_spans vs clipped_start chars)))"

definition redact_partial_text :: "registry \<Rightarrow> bool \<Rightarrow> string \<Rightarrow> string" where
  "redact_partial_text vs clipped_start chars = concat (map piece_text (redacted_parts vs clipped_start chars))"

section \<open>A value\<close>

text \<open>The first collision suffix that is free; there is one among the first \<open>length keys + 1\<close>.\<close>

definition free_key :: "string list \<Rightarrow> string \<Rightarrow> string" where
  "free_key keys key =
     (if key \<notin> set keys then key
      else case find (\<lambda>k. k \<notin> set keys) (map (\<lambda>n. key @ ''#'' @ show_nat n) [2..<length keys + 3]) of
             Some k \<Rightarrow> k | None \<Rightarrow> key)"

fun redact_value :: "registry \<Rightarrow> pyval \<Rightarrow> pyval"
  and redact_items :: "registry \<Rightarrow> (string \<times> pyval) list \<Rightarrow> pyval dict \<Rightarrow> pyval dict" where
  "redact_value vs (PStr s) = PStr (redact_text vs s)"
| "redact_value vs (PDict d) = PDict (redact_items vs d [])"
| "redact_value vs (PList xs) = PList (map (redact_value vs) xs)"
| "redact_value vs v = v"
| "redact_items vs [] acc = acc"
| "redact_items vs ((k, v) # d) acc =
     redact_items vs d (acc @ [(free_key (map fst acc) (redact_text vs k), redact_value vs v)])"

end
