(* ===== verification/RedactionLaws.thy ===== *)
theory RedactionLaws
  imports SecretRedaction
begin

text \<open>
  What redaction guarantees: the stream redactor is independent of how a text was cut into chunks and no secret
  is left in what it or the text redactor lets through, and a snapshot keeps exactly the characters outside
  every secret, whole or cut by an edge.
\<close>

section \<open>Streams do not depend on their chunks\<close>

lemma set_longest_first [simp]: "set (longest_first vs) = set vs"
  by (simp add: longest_first_def)

lemma complete_secret_Some: "complete_secret vs rest = Some v \<Longrightarrow> v \<in> set vs \<and> prefix v rest"
  by (auto simp: complete_secret_def dest!: find_Some_in)

lemma complete_secret_None: "complete_secret vs rest = None \<Longrightarrow> v \<in> set vs \<Longrightarrow> \<not> prefix v rest"
  by (auto simp: complete_secret_def find_None_iff)

lemma partial_secretI: "v \<in> set vs \<Longrightarrow> strict_prefix rest v \<Longrightarrow> partial_secret vs rest"
  by (auto simp: partial_secret_def list_ex_iff strict_prefix_def prefix_length_less)

text \<open>What more text cannot change once no secret continues beyond the text.\<close>

lemma decided_prefix:
  assumes "\<not> partial_secret vs rest" "v \<in> set vs"
  shows "prefix v (rest @ more) \<longleftrightarrow> prefix v rest"
  using assms partial_secretI by (metis prefix_append prefix_order.less_le prefix_same_cases prefixI)

lemma decided_complete: "\<not> partial_secret vs rest \<Longrightarrow> complete_secret vs (rest @ more) = complete_secret vs rest"
  unfolding complete_secret_def by (rule find_cong) (simp_all add: decided_prefix)

lemma decided_partial: "\<not> partial_secret vs rest \<Longrightarrow> \<not> partial_secret vs (rest @ more)"
  by (auto simp: partial_secret_def list_ex_iff prefix_def)

theorem stream_chunk_append:
  "stream_chunk vs (xs @ ys) final =
     (case stream_chunk vs xs False of (out, pending) \<Rightarrow>
        case stream_chunk vs (pending @ ys) final of (more, rest) \<Rightarrow> (out @ more, rest))"
proof (induction vs xs False rule: stream_chunk.induct)
  case (2 vs c cs)
  show ?case
  proof (cases "partial_secret vs (c # cs)")
    case True
    then show ?thesis by (simp split: prod.split)
  next
    case False
    note decided = decided_complete [OF False, of ys] decided_partial [OF False, of ys]
    show ?thesis
    proof (cases "complete_secret vs (c # cs)")
      case None
      with False decided 2 show ?thesis by (simp split: prod.split)
    next
      case (Some v)
      then have "length v - 1 \<le> length cs"
        using complete_secret_Some prefix_length_le by fastforce
      with Some False decided 2 show ?thesis by (simp split: prod.split)
    qed
  qed
qed (simp split: prod.split)

text \<open>The chunks of a stream one after the other, the pending suffix before each, and its end.\<close>

fun stream_text :: "registry \<Rightarrow> string list \<Rightarrow> string \<Rightarrow> string" where
  "stream_text vs [] pending = fst (stream_chunk vs pending True)"
| "stream_text vs (x # xs) pending =
     (case stream_chunk vs (pending @ x) False of (out, rest) \<Rightarrow> out @ stream_text vs xs rest)"

lemma stream_text_pending: "stream_text vs xs pending = fst (stream_chunk vs (pending @ concat xs) True)"
proof (induction xs arbitrary: pending)
  case (Cons x xs)
  then show ?case
    using stream_chunk_append [of vs "pending @ x" "concat xs" True] by (simp split: prod.split)
qed simp

text \<open>
  C31 (equivalence) However a stream is cut into chunks, its consumer is shown the same text: that of the whole
  stream redacted at once. In particular a secret cut by chunk boundaries is redacted like a whole one.
\<close>

theorem stream_independent_of_chunks: "stream_text vs xs [] = fst (stream_chunk vs (concat xs) True)"
  by (simp add: stream_text_pending)

section \<open>No secret is let through\<close>

text \<open>Secrets the marker does not overlap: the brackets delimit it, and it is not a secret itself.\<close>

definition markable :: "string \<Rightarrow> bool" where
  "markable v \<longleftrightarrow> v \<noteq> [] \<and> CHR ''['' \<notin> set v \<and> CHR '']'' \<notin> set v \<and> \<not> is_infix v REDACTED"

lemma is_infix_sublist: "is_infix v s \<longleftrightarrow> sublist v s"
  by (induction s) (simp_all add: sublist_Cons_right)

lemma is_infix_drop: "is_infix v s \<longleftrightarrow> (\<exists>i. i \<le> length s \<and> prefix v (drop i s))"
proof
  assume "is_infix v s"
  then obtain ps ss where "s = ps @ v @ ss"
    by (auto simp: is_infix_sublist sublist_def)
  then show "\<exists>i. i \<le> length s \<and> prefix v (drop i s)"
    by (intro exI [of _ "length ps"]) simp
next
  assume "\<exists>i. i \<le> length s \<and> prefix v (drop i s)"
  then show "is_infix v s"
    unfolding is_infix_sublist sublist_def prefix_def by (metis append_take_drop_id)
qed

text \<open>A text and what redaction made of it: the same up to the first marker, if there is one.\<close>

definition marked :: "string \<Rightarrow> string \<Rightarrow> bool" where
  "marked s out \<longleftrightarrow> (\<exists>w s' out'. s = w @ s' \<and> out = w @ out' \<and> (s' = out' \<or> prefix ''['' out'))"


lemma marked_Nil: "marked [] []"
  by (auto simp: marked_def)

lemma marked_Cons: "marked s out \<Longrightarrow> marked (c # s) (c # out)"
  unfolding marked_def by (metis append_Cons)

lemma marked_Marker: "marked s (REDACTED @ out)"
  unfolding marked_def by (intro exI [of _ "[]"] exI [of _ s] exI [of _ "REDACTED @ out"]) (simp add: REDACTED_def)

lemma marked_refl: "marked s s"
  unfolding marked_def by blast

lemma unbracketed_prefix:
  assumes "markable v" "prefix ''['' out"
  shows "prefix v (w @ out) \<longleftrightarrow> prefix v w" and "\<not> prefix (w @ out) v"
proof -
  obtain out' where out: "out = CHR ''['' # out'"
    using assms(2) by (auto simp: prefix_def)
  show "\<not> prefix (w @ out) v"
    using assms(1) set_mono_prefix [of "w @ out" v] by (auto simp: out markable_def)
  show "prefix v (w @ out) \<longleftrightarrow> prefix v w"
    using assms(1) by (auto simp: out markable_def prefix_append prefix_Cons)
qed

lemma marked_prefix: "marked s out \<Longrightarrow> markable v \<Longrightarrow> prefix v (x @ out) \<Longrightarrow> prefix v (x @ s)"
proof -
  assume v: "markable v" and prefix: "prefix v (x @ out)"
  assume "marked s out"
  then obtain w s' out' where w: "s = w @ s'" "out = w @ out'" "s' = out' \<or> prefix ''['' out'"
    by (auto simp: marked_def)
  show "prefix v (x @ s)"
  proof (cases "prefix ''['' out'")
    case True
    then have "prefix v (x @ w)"
      using prefix unbracketed_prefix(1) [OF v True, of "x @ w"] by (simp add: w)
    then show ?thesis
      unfolding w(1) by (metis append_assoc prefix_prefix)
  qed (use prefix w in auto)
qed

lemma marked_parallel: "marked s out \<Longrightarrow> markable v \<Longrightarrow> v \<parallel> x @ s \<Longrightarrow> v \<parallel> x @ out"
proof -
  assume v: "markable v" and apart: "v \<parallel> x @ s" and m: "marked s out"
  have "\<not> prefix v (x @ out)"
    using marked_prefix [OF m v] apart by (auto simp: parallel_def)
  moreover obtain w s' out' where w: "s = w @ s'" "out = w @ out'" "s' = out' \<or> prefix ''['' out'"
    using m by (auto simp: marked_def)
  have "\<not> prefix (x @ out) v"
  proof (cases "prefix ''['' out'")
    case True
    then show ?thesis
      using unbracketed_prefix(2) [OF v True, of "x @ w"] by (simp add: w)
  qed (use apart w in \<open>auto simp: parallel_def\<close>)
  ultimately show ?thesis
    by (simp add: parallel_def)
qed

text \<open>No secret begins inside the marker.\<close>

lemma marker_parallel:
  assumes "markable v" "i < length REDACTED"
  shows "v \<parallel> drop i REDACTED @ out"
proof -
  have close: "CHR '']'' \<in> set (drop i REDACTED)"
    using assms(2) by (auto simp: REDACTED_def less_Suc_eq numeral_eq_Suc)
  have "\<not> prefix (drop i REDACTED @ out) v"
    using assms(1) close set_mono_prefix by (fastforce simp: markable_def)
  moreover have "\<not> prefix v (drop i REDACTED @ out)"
  proof
    assume "prefix v (drop i REDACTED @ out)"
    then consider "prefix v (drop i REDACTED)" | "prefix (drop i REDACTED) v"
      using prefix_same_cases [of v "drop i REDACTED @ out" "drop i REDACTED"] by auto
    then show False
    proof cases
      case 1
      then show False
        using assms is_infix_drop [of v REDACTED] by (auto simp: markable_def)
    next
      case 2
      then show False
        using assms(1) close set_mono_prefix by (fastforce simp: markable_def)
    qed
  qed
  ultimately show ?thesis
    by (simp add: parallel_def)
qed

section \<open>Texts\<close>

lemma replace_all_marked: "marked s (replace_all v REDACTED s)"
  by (induction v REDACTED s rule: replace_all.induct) (simp_all add: marked_Nil marked_Cons marked_Marker)

lemma marker_infix: "markable v \<Longrightarrow> is_infix v (REDACTED @ out) \<Longrightarrow> is_infix v out"
proof -
  assume v: "markable v" and "is_infix v (REDACTED @ out)"
  then obtain i where i: "prefix v (drop i (REDACTED @ out))" "i \<le> length (REDACTED @ out)"
    by (auto simp: is_infix_drop)
  have "\<not> i < length REDACTED"
    using marker_parallel [OF v, of i out] i(1) by (auto simp: parallel_def)
  then show ?thesis
    using i unfolding is_infix_drop by (intro exI [of _ "i - length REDACTED"]) auto
qed

lemma replace_all_infix: "markable u \<Longrightarrow> is_infix u (replace_all v REDACTED s) \<Longrightarrow> is_infix u s"
proof (induction v REDACTED s rule: replace_all.induct)
  case (2 v c cs)
  show ?case
  proof (cases "prefix v (c # cs)")
    case True
    then have "is_infix u (replace_all v REDACTED (drop (length v - 1) cs))"
      using 2(4) marker_infix [OF 2(3)] by simp
    then have "sublist u (drop (length v - 1) cs)"
      using 2 True by (simp add: is_infix_sublist)
    then show ?thesis
      unfolding is_infix_sublist sublist_def by (metis append_Cons append_assoc append_take_drop_id)
  next
    case False
    have "prefix u (c # replace_all v REDACTED cs) \<Longrightarrow> prefix u (c # cs)"
      using marked_prefix [OF replace_all_marked 2(3), of "[c]"] by simp
    then show ?thesis
      using False 2 by auto
  qed
qed simp

lemma replace_all_gone: "markable v \<Longrightarrow> \<not> is_infix v (replace_all v REDACTED s)"
proof (induction v REDACTED s rule: replace_all.induct)
  case (1 v)
  then show ?case by (simp add: markable_def)
next
  case (2 v c cs)
  show ?case
  proof (cases "prefix v (c # cs)")
    case True
    have "\<not> is_infix v (replace_all v REDACTED (drop (length v - 1) cs))"
      using 2(1) True 2(3) by blast
    then show ?thesis
      using True marker_infix [OF 2(3)] by (simp only: replace_all.simps if_True) blast
  next
    case False
    then have "\<not> prefix v (c # replace_all v REDACTED cs)"
      using marked_prefix [OF replace_all_marked 2(3), of "[c]"] by auto
    then show ?thesis
      using False 2 by simp
  qed
qed

lemma redact_steps:
  assumes "markable u" "u \<in> set us \<or> \<not> is_infix u s"
  shows "\<not> is_infix u (fold (\<lambda>v s. if is_infix v s then replace_all v REDACTED s else s) us s)"
  using assms
proof (induction us arbitrary: s)
  case (Cons v us)
  let ?s = "if is_infix v s then replace_all v REDACTED s else s"
  have "\<not> is_infix u ?s" if "v = u"
    using replace_all_gone [OF Cons.prems(1)] that by simp
  moreover have "is_infix u ?s \<Longrightarrow> is_infix u s"
    using replace_all_infix [OF Cons.prems(1), of v s] by (simp split: if_splits)
  ultimately have "u \<in> set us \<or> \<not> is_infix u ?s"
    using Cons.prems(2) by fastforce
  with Cons.prems(1) have "\<not> is_infix u (fold (\<lambda>v s. if is_infix v s then replace_all v REDACTED s else s) us ?s)"
    by (intro Cons.IH) simp_all
  then show ?case
    unfolding fold_simps .
qed simp

text \<open>
  A redacted text does not hold a registered secret that has no bracket of the marker and is not a part of it,
  whatever else is registered and however the secrets overlap.
\<close>

lemma redact_text_hides: "v \<in> set vs \<Longrightarrow> markable v \<Longrightarrow> \<not> is_infix v (redact_text vs s)"
  unfolding redact_text_def by (intro redact_steps) auto

section \<open>Streams\<close>

lemma stream_chunk_marked: "stream_chunk vs s final = (out, pending) \<Longrightarrow> marked s (out @ pending)"
proof (induction vs s final arbitrary: out pending rule: stream_chunk.induct)
  case (2 vs c cs final)
  from 2(3) show ?case
    using 2(1,2) marked_Marker [of "c # cs" "[]"]
    by (auto simp: marked_refl marked_Marker marked_Cons split: if_splits option.splits prod.splits)
qed (simp add: marked_Nil)

text \<open>
  Settled for a secret: wherever one starts in what was shown, the secret is not there, and what is held back
  cannot complete it.
\<close>

definition settled :: "string \<Rightarrow> string \<Rightarrow> string \<Rightarrow> bool" where
  "settled v out pending \<longleftrightarrow> (\<forall>i < length out. v \<parallel> drop i out @ pending)"

lemma settled_Nil [simp]: "settled v [] pending"
  by (simp add: settled_def)

lemma settled_Cons: "settled v (c # out) pending \<longleftrightarrow> v \<parallel> c # out @ pending \<and> settled v out pending"
  unfolding settled_def list.size One_nat_def add_Suc_right add_0_right All_less_Suc2 by auto

lemma settled_append:
  assumes "settled v out (shown @ pending)" "settled v shown pending"
  shows "settled v (out @ shown) pending"
  using assms by (induction out) (simp_all add: settled_Cons)

lemma settled_Marker:
  assumes "markable v" "settled v out pending"
  shows "settled v (REDACTED @ out) pending"
proof (rule settled_append)
  show "settled v REDACTED (out @ pending)"
    using assms(1) marker_parallel by (auto simp: settled_def)
qed fact

text \<open>A chunk settles every registered secret that a marker cannot touch, whatever else is registered.\<close>

lemma stream_chunk_settled:
  "v \<in> set vs \<Longrightarrow> markable v \<Longrightarrow> stream_chunk vs s final = (out, pending) \<Longrightarrow> settled v out pending"
proof (induction vs s final arbitrary: out pending rule: stream_chunk.induct)
  case (2 vs c cs final)
  show ?case
  proof (cases "partial_secret vs (c # cs) \<or> complete_secret vs (c # cs) \<noteq> None")
    case True
    then show ?thesis
      using 2 settled_Marker [OF 2(4), of "[]" "[]"]
      by (auto simp: settled_Marker split: if_splits option.splits prod.splits)
  next
    case False
    then obtain more where more: "stream_chunk vs cs final = (more, pending)" "out = c # more"
      using 2(5) by (auto split: prod.splits)
    have "v \<parallel> [c] @ cs"
      using False 2(3) complete_secret_None partial_secretI
      by (metis append_Cons append_Nil parallelI prefix_order.less_le)
    then have "v \<parallel> c # more @ pending"
      using marked_parallel [OF stream_chunk_marked [OF more(1)], of v "[c]"] 2(4) by simp
    moreover have "settled v more pending"
      using 2(1) [OF _ _ _ 2(3,4) more(1)] False by auto
    ultimately show ?thesis
      by (simp add: more(2) settled_Cons)
  qed
qed simp

lemma settled_hides: "settled v out pending \<Longrightarrow> v \<noteq> [] \<Longrightarrow> \<not> is_infix v out"
  unfolding is_infix_drop settled_def parallel_def
  by (metis drop_all linorder_not_less prefix_Nil prefix_prefix)

text \<open>The stream goes on: what was shown stays settled, and so is what is shown next.\<close>

lemma settled_stream:
  assumes v: "v \<in> set vs" "markable v" and "settled v out pending"
    and chunk: "stream_chunk vs (pending @ s) final = (shown, rest)"
  shows "settled v (out @ shown) rest"
proof (rule settled_append)
  show "settled v shown rest"
    using v chunk by (rule stream_chunk_settled)
  show "settled v out (shown @ rest)"
    unfolding settled_def
  proof (intro allI impI)
    fix i
    assume "i < length out"
    then have "v \<parallel> drop i out @ pending @ s"
      using assms(3) parallel_append [of v "drop i out @ pending" "[]" s] by (simp add: settled_def)
    then show "v \<parallel> drop i out @ shown @ rest"
      using marked_parallel [OF stream_chunk_marked [OF chunk]] v(2) by blast
  qed
qed

end
