(* ===== verification/SandboxSecrets.thy ===== *)
theory SandboxSecrets
  imports SandboxStreams RedactionLaws
begin

text \<open>
  The sessions of the runner with the redactor they use: what a terminal shows never holds a registered secret,
  however the container cuts its output into chunks and whatever else happens to the session.
\<close>

text \<open>What a session has shown so far, of which its window is the end, is settled given what it holds back.\<close>

definition shows_settled :: "string \<Rightarrow> session_record \<Rightarrow> bool" where
  "shows_settled v r \<longleftrightarrow>
     (markable v \<longrightarrow>
      (\<exists>out. settled v out (se_pending r) \<and> se_output r = last_chars OUTPUT_LIMIT out \<and> se_offset r = length out))"

lemma shows_settled_same:
  "se_pending q = se_pending r \<Longrightarrow> se_output q = se_output r \<Longrightarrow> se_offset q = se_offset r \<Longrightarrow>
    shows_settled v r \<Longrightarrow> shows_settled v q"
  by (simp add: shows_settled_def)

lemma session_input_pending: "se_pending (snd (session_input message r)) = se_pending r"
  by (auto simp: session_input_def terminal_input_def take_input_def Let_def split: option.split pyval.split)

lemma shows_settled_append:
  assumes "shows_settled v r" "v \<in> set vs"
  shows "shows_settled v (append_output (stream_chunk vs) chars final r)"
  unfolding shows_settled_def
proof
  assume v: "markable v"
  then obtain out where out: "settled v out (se_pending r)" "se_output r = last_chars OUTPUT_LIMIT out"
      "se_offset r = length out"
    using assms(1) by (auto simp: shows_settled_def)
  obtain shown rest where chunk: "stream_chunk vs (se_pending r @ chars) final = (shown, rest)"
    by (cases "stream_chunk vs (se_pending r @ chars) final")
  then show "\<exists>out. settled v out (se_pending (append_output (stream_chunk vs) chars final r))
      \<and> se_output (append_output (stream_chunk vs) chars final r) = last_chars OUTPUT_LIMIT out
      \<and> se_offset (append_output (stream_chunk vs) chars final r) = length out"
    using settled_stream [OF assms(2) v out(1) chunk] out(2,3)
    by (intro exI [of _ "out @ shown"]) (simp add: append_output_def last_chars_append)
qed

text \<open>Whatever else is in the registry at a step, the secret is.\<close>

interpretation shown: record_law "shows_settled v" "stream_chunk (List.insert v vs)" for v vs
proof (unfold_locales, goal_cases)
  case (6 r chars final)
  then show ?case by (rule shows_settled_append) simp
next
  case (7 r message)
  then show ?case by (auto simp: input_window session_input_pending intro: shows_settled_same)
next
  case (1 now c)
  show ?case by (auto simp: shows_settled_def new_session_def last_chars_def intro: exI [of _ "[]"])
qed (auto intro: shows_settled_same)

section \<open>A registry that changes\<close>

text \<open>
  The redactor is one object of the process, read anew at every chunk (\<open>get_redactor\<close>): secrets are registered
  and cleared between the events of the runner. Each event comes with what is registered when it happens.
\<close>

definition run_registered :: "runner_settings \<Rightarrow> (registry \<times> runner_event) list \<Rightarrow> runner \<Rightarrow> runner" where
  "run_registered st es s = fold (\<lambda>(vs, e). runner_step st (stream_chunk vs) e) es s"

lemma shown_registered:
  assumes "shown.lawful v s" "list_all (\<lambda>(vs, e). v \<in> set vs) es"
  shows "shown.lawful v (run_registered st es s)"
  using assms
proof (induction es arbitrary: s)
  case (Cons p es)
  obtain vs e where p: "p = (vs, e)"
    by fastforce
  then have "List.insert v vs = vs"
    using Cons.prems(2) by simp
  then have "shown.lawful v (runner_step st (stream_chunk vs) e s)"
    using shown.lawful_step [OF Cons.prems(1), of st vs e] by simp
  with Cons.IH [of "runner_step st (stream_chunk vs) e s"] Cons.prems(2) p show ?case
    by (simp add: run_registered_def)
qed (simp add: run_registered_def)

text \<open>
  C32 (safety) What an interactive session shows never holds a secret that was registered before its first output
  and stayed registered, after any history of the runner in which other secrets come and go: not within a chunk,
  not across chunks, not across a stop, and not in the retained window. The secret itself must be \<open>markable\<close>:
  not empty, without a bracket and not a part of the marker that replaces secrets. On the others there is no
  condition.
\<close>

theorem session_shows_no_secret:
  assumes "markable v" "rn_records s = []" "list_all (\<lambda>(vs, e). v \<in> set vs) es"
    and "dict_get (rn_records (run_registered st es s)) i = Some r"
  shows "\<not> is_infix v (se_output r)"
proof -
  have "shown.lawful v (run_registered st es s)"
    using assms(2) by (intro shown_registered assms(3)) (simp add: shown.lawful_def)
  then have "shows_settled v r"
    using assms(4) by (auto simp: shown.lawful_def dict_get_def dest!: map_of_SomeD)
  then obtain out where out: "settled v out (se_pending r)" "se_output r = last_chars OUTPUT_LIMIT out"
    using assms(1) by (auto simp: shows_settled_def)
  have "\<not> is_infix v out"
    using settled_hides [OF out(1)] assms(1) by (simp add: markable_def)
  then show ?thesis
    unfolding out(2) last_chars_def is_infix_sublist sublist_def by (metis append.assoc append_take_drop_id)
qed

text \<open>A terminal that prints a credential in two chunks, while a second secret, with a bracket, comes and goes.\<close>

definition leaking_story :: "(registry \<times> runner_event) list" where
  "leaking_story =
     map (Pair [''hunter'']) [Create (session_on ''s'' ''w''), CreateStep 1 True, CreateStep 2 True, CreateStep 3 True,
       CreateStep 4 True, CreateStep 5 True, CreateStep 6 True]
     @ [([''hunter'', ''[x]''], Chunk 0 ''k=hunt''), ([''hunter''], Chunk 0 ''er;'')]"

definition leaking_record :: session_record where
  "leaking_record =
     \<lparr>se_object = 0, se_request = session_on ''s'' ''w'', se_status = ''running'', se_output = ''k=[REDACTED];'',
      se_pending = [], se_offset = 13, se_exit_code = None, se_created_at = 2, se_finished_at = None,
      se_reader = True, se_sequences = [], se_written = []\<rparr>"

theorem session_shows_no_secret_witness: "\<not> is_infix ''hunter'' (se_output leaking_record)"
proof -
  have "dict_get (rn_records (run_registered small_settings leaking_story (fresh_runner 0 []))) ''s'' = Some leaking_record"
    by code_simp
  moreover have "markable ''hunter''" "list_all (\<lambda>(vs, e). ''hunter'' \<in> set vs) leaking_story"
    "rn_records (fresh_runner 0 []) = []"
    by code_simp+
  ultimately show ?thesis
    using session_shows_no_secret [of "''hunter''" "fresh_runner 0 []" leaking_story small_settings "''s''" leaking_record]
    by blast
qed

end
