(* ===== verification/SandboxDispatch.thy ===== *)
theory SandboxDispatch
  imports SandboxLedger
begin

text \<open>
  The worker's side of a sandbox job, \<open>_run_job\<close>, \<open>_dispatch_history\<close> and \<open>_open_job_record\<close> of
  \<open>packages/connectors/src/jhin_connectors/cli/tools.py\<close>, over the runner: what a dispatch reads and writes
  before it submits, and that this is what the runner's ledger relies on.
\<close>

section \<open>A dispatch\<close>

datatype dispatch_history = FirstDispatch | EarlierDispatch int | UnknownDispatchHistory

text \<open>
  A row of \<open>sandbox_job\<close> is its tool call and its \<open>started_at\<close>; \<open>ok\<close> is whether the read succeeded. The empty
  call is a dispatch that carries no invocation identity.
\<close>

definition started_of :: "(string \<times> int) list \<Rightarrow> string \<Rightarrow> int list" where
  "started_of rows call = map snd (filter (\<lambda>(c, t). c = call) rows)"

definition dispatch_history_of :: "(string \<times> int) list \<Rightarrow> string \<Rightarrow> bool \<Rightarrow> dispatch_history" where
  "dispatch_history_of rows call ok =
     (if call = [] then FirstDispatch
      else if \<not> ok then UnknownDispatchHistory
      else case started_of rows call of
             [] \<Rightarrow> FirstDispatch
           | t # ts \<Rightarrow> EarlierDispatch (fold min ts t))"

text \<open>\<open>prior_dispatch_at\<close>, which an unknown history does not have\<close>

fun stated_prior :: "dispatch_history \<Rightarrow> int option option" where
  "stated_prior FirstDispatch = Some None"
| "stated_prior (EarlierDispatch t) = Some (Some t)"
| "stated_prior UnknownDispatchHistory = None"

text \<open>A dispatch under way: its tool call, its history, and the row once it is committed.\<close>

record flight =
  fl_call :: string
  fl_history :: dispatch_history
  fl_started :: "int option"

text \<open>\<open>ds_seen\<close> is added: the submissions that reached the runner, with its clock.\<close>

record dispatch_system =
  ds_runner :: runner
  ds_rows :: "(string \<times> int) list"
  ds_flights :: "flight dict"
  ds_seen :: "(string \<times> int) list"

text \<open>
  The steps of dispatches, each under the id its job has: the history read, the row committed on the worker's
  clock, the request arriving at the runner's, and the end of a worker; and whatever else the runner does.
\<close>

datatype dispatch_event =
    ReadHistory string string bool
  | OpenRecord string int bool
  | SubmitJob string int job_request
  | Abandon string
  | RunnerDoes runner_event

fun is_submit :: "runner_event \<Rightarrow> bool" where
  "is_submit (Submit now rq) \<longleftrightarrow> True"
| "is_submit _ \<longleftrightarrow> False"

definition drop_flight :: "string \<Rightarrow> dispatch_system \<Rightarrow> dispatch_system" where
  "drop_flight job s = s\<lparr>ds_flights := dict_del (ds_flights s) job\<rparr>"

text \<open>The payload: what the dispatch knows of itself, over what the tool asked for.\<close>

definition job_payload :: "string \<Rightarrow> flight \<Rightarrow> job_request \<Rightarrow> job_request" where
  "job_payload job f rq =
     rq\<lparr>rq_job_id := job, rq_invocation_id := fl_call f, rq_prior_dispatch := stated_prior (fl_history f)\<rparr>"

fun dispatch_step ::
  "runner_settings \<Rightarrow> redactor \<Rightarrow> dispatch_event \<Rightarrow> dispatch_system \<Rightarrow> dispatch_system" where
  "dispatch_step st redact (ReadHistory job call ok) s =
     (case dispatch_history_of (ds_rows s) call ok of
        UnknownDispatchHistory \<Rightarrow> s
      | h \<Rightarrow> s\<lparr>ds_flights := dict_set (ds_flights s) job \<lparr>fl_call = call, fl_history = h, fl_started = None\<rparr>\<rparr>)"
| "dispatch_step st redact (OpenRecord job now ok) s =
     (case dict_get (ds_flights s) job of
        None \<Rightarrow> s
      | Some f \<Rightarrow>
          if fl_started f \<noteq> None then s
          else if \<not> ok then drop_flight job s
          else s\<lparr>ds_rows := ds_rows s @ [(fl_call f, now)],
                 ds_flights := dict_set (ds_flights s) job (f\<lparr>fl_started := Some now\<rparr>)\<rparr>)"
| "dispatch_step st redact (SubmitJob job now rq) s =
     (case dict_get (ds_flights s) job of
        None \<Rightarrow> s
      | Some f \<Rightarrow>
          if fl_started f = None then s
          else (drop_flight job s)
                 \<lparr>ds_runner := runner_step st redact (Submit now (job_payload job f rq)) (ds_runner s),
                  ds_seen := (fl_call f, now) # ds_seen s\<rparr>)"
| "dispatch_step st redact (Abandon job) s = drop_flight job s"
| "dispatch_step st redact (RunnerDoes e) s =
     (if is_submit e then s else s\<lparr>ds_runner := runner_step st redact e (ds_runner s)\<rparr>)"

definition dispatch_run ::
  "runner_settings \<Rightarrow> redactor \<Rightarrow> dispatch_event list \<Rightarrow> dispatch_system \<Rightarrow> dispatch_system" where
  "dispatch_run st redact es s = fold (dispatch_step st redact) es s"

definition fresh_system :: "int \<Rightarrow> dispatch_system" where
  "fresh_system now = \<lparr>ds_runner = fresh_runner now [], ds_rows = [], ds_flights = [], ds_seen = []\<rparr>"

section \<open>Orderly dispatches\<close>

text \<open>
  Dispatches of one call do not overlap; a worker's clock is at most the tolerated skew ahead of the runner's;
  and the runner's clock does not go back at a restart.
\<close>

fun orderly_event :: "dispatch_system \<Rightarrow> dispatch_event \<Rightarrow> bool" where
  "orderly_event s (ReadHistory job call ok) \<longleftrightarrow>
     list_all (\<lambda>(j, f). j \<noteq> job \<and> (call = [] \<or> fl_call f \<noteq> call)) (ds_flights s)"
| "orderly_event s (SubmitJob job now rq) \<longleftrightarrow>
     (case dict_get (ds_flights s) job of
        Some f \<Rightarrow> (case fl_started f of Some t \<Rightarrow> t \<le> now + INCARNATION_SKEW | None \<Rightarrow> True)
      | None \<Rightarrow> True)"
| "orderly_event s (RunnerDoes (Restart now)) \<longleftrightarrow> list_all (\<lambda>(i, t). t \<le> now) (ds_seen s)"
| "orderly_event s _ \<longleftrightarrow> True"

fun orderly :: "runner_settings \<Rightarrow> redactor \<Rightarrow> dispatch_event list \<Rightarrow> dispatch_system \<Rightarrow> bool" where
  "orderly st redact [] s \<longleftrightarrow> True"
| "orderly st redact (e # es) s \<longleftrightarrow> orderly_event s e \<and> orderly st redact es (dispatch_step st redact e s)"

section \<open>What a dispatch states is true\<close>

lemma fold_min_le: "t \<in> set (u # us) \<Longrightarrow> fold min us u \<le> (t::int)"
  by (metis List.finite_set Min_le Min.set_eq_fold)

text \<open>The runner's clock of a submission is at most the skew behind the row committed for it.\<close>

definition rows_back_seen :: "dispatch_system \<Rightarrow> bool" where
  "rows_back_seen s \<longleftrightarrow>
     (\<forall>c t. (c, t) \<in> set (ds_seen s) \<longrightarrow> (\<exists>u. (c, u) \<in> set (ds_rows s) \<and> u \<le> t + INCARNATION_SKEW))"

definition flight_true :: "(string \<times> int) list \<Rightarrow> flight \<Rightarrow> bool" where
  "flight_true seen f \<longleftrightarrow>
     fl_call f = []
     \<or> (case fl_history f of
          FirstDispatch \<Rightarrow> fl_call f \<notin> fst ` set seen
        | EarlierDispatch p \<Rightarrow> (\<forall>t. (fl_call f, t) \<in> set seen \<longrightarrow> p \<le> t + INCARNATION_SKEW)
        | UnknownDispatchHistory \<Rightarrow> False)"

definition flight_ok :: "(string \<times> int) list \<Rightarrow> (string \<times> int) list \<Rightarrow> flight \<Rightarrow> bool" where
  "flight_ok rows seen f \<longleftrightarrow>
     flight_true seen f \<and> (\<forall>t. fl_started f = Some t \<longrightarrow> (fl_call f, t) \<in> set rows)"

definition one_flight_each :: "(string \<Rightarrow> flight option) \<Rightarrow> bool" where
  "one_flight_each fs \<longleftrightarrow>
     (\<forall>j k f g. fs j = Some f \<longrightarrow> fs k = Some g \<longrightarrow> fl_call f = fl_call g \<longrightarrow> fl_call f \<noteq> [] \<longrightarrow> j = k)"

definition flights_ok :: "dispatch_system \<Rightarrow> bool" where
  "flights_ok s \<longleftrightarrow>
     wf_dict (ds_flights s) \<and> one_flight_each (dict_get (ds_flights s))
     \<and> (\<forall>j f. dict_get (ds_flights s) j = Some f \<longrightarrow> flight_ok (ds_rows s) (ds_seen s) f)"

definition dispatches_ok :: "dispatch_system \<Rightarrow> bool" where
  "dispatches_ok s \<longleftrightarrow> rows_back_seen s \<and> flights_ok s \<and> ledger_ok (ds_seen s) (rn_jobs (ds_runner s))"

lemma read_history_true:
  assumes "rows_back_seen s" "dispatch_history_of (ds_rows s) call ok = h" "h \<noteq> UnknownDispatchHistory"
  shows "flight_true (ds_seen s) \<lparr>fl_call = call, fl_history = h, fl_started = None\<rparr>"
proof (cases "call = []")
  case False
  then have ok
    using assms(2,3) by (auto simp: dispatch_history_of_def split: if_splits)
  have started: "t \<in> set (started_of (ds_rows s) call) \<longleftrightarrow> (call, t) \<in> set (ds_rows s)" for t
    by (force simp: started_of_def)
  show ?thesis
  proof (cases "started_of (ds_rows s) call")
    case Nil
    then have "(call, t) \<notin> set (ds_seen s)" for t
      using assms(1) started unfolding rows_back_seen_def by fastforce
    with Nil False \<open>ok\<close> assms(2) show ?thesis
      by (force simp: dispatch_history_of_def flight_true_def)
  next
    case (Cons u us)
    have "fold min us u \<le> t + INCARNATION_SKEW" if "(call, t) \<in> set (ds_seen s)" for t
      using that assms(1) started fold_min_le [of _ u us] Cons unfolding rows_back_seen_def
      by (metis order_trans)
    with Cons False \<open>ok\<close> assms(2) show ?thesis
      by (force simp: dispatch_history_of_def flight_true_def)
  qed
qed (simp add: flight_true_def)

lemma payload_states_truly:
  "flight_true seen f \<Longrightarrow> states_truly seen (job_payload job f rq)"
  by (auto simp: flight_true_def states_truly_def job_payload_def list_all_iff split: dispatch_history.splits)

lemma flights_okD:
  assumes "flights_ok s" "dict_get (ds_flights s) j = Some f"
  shows "flight_true (ds_seen s) f" "fl_started f = Some t \<Longrightarrow> (fl_call f, t) \<in> set (ds_rows s)"
    "dict_get (ds_flights s) k = Some g \<Longrightarrow> fl_call f = fl_call g \<Longrightarrow> fl_call f \<noteq> [] \<Longrightarrow> j = k"
  using assms unfolding flights_ok_def flight_ok_def one_flight_each_def by blast+

lemma flights_okI:
  assumes "flights_ok s" "wf_dict fs" "one_flight_each (dict_get fs)"
    and "\<And>j f. dict_get fs j = Some f \<Longrightarrow> flight_ok (ds_rows s') (ds_seen s') f" "ds_flights s' = fs"
  shows "flights_ok s'"
  using assms by (simp add: flights_ok_def)

lemma flight_ok_more_rows: "flight_ok rows seen f \<Longrightarrow> flight_ok (rows @ others) seen f"
  by (simp add: flight_ok_def)

lemma flights_ok_drop:
  assumes "flights_ok s"
  shows "flights_ok (drop_flight job s)"
proof (rule flights_okI [OF assms])
  show "one_flight_each (dict_get (dict_del (ds_flights s) job))"
    using assms unfolding flights_ok_def one_flight_each_def dict_get_del by (metis option.distinct(1))
  show "flight_ok (ds_rows (drop_flight job s)) (ds_seen (drop_flight job s)) f"
    if "dict_get (dict_del (ds_flights s) job) j = Some f" for j f
    using that assms by (auto simp: flights_ok_def drop_flight_def split: if_splits)
qed (use assms in \<open>simp_all add: flights_ok_def wf_dict_del drop_flight_def\<close>)

lemma flights_ok_more_rows: "flights_ok s \<Longrightarrow> flights_ok (s\<lparr>ds_rows := ds_rows s @ rows\<rparr>)"
  by (simp add: flights_ok_def flight_ok_more_rows)

lemma flights_ok_open:
  assumes "flights_ok s" "flight_ok (ds_rows s) (ds_seen s) f"
    and alone: "\<And>k g. dict_get (ds_flights s) k = Some g \<Longrightarrow> fl_call g = fl_call f \<Longrightarrow> fl_call f \<noteq> [] \<Longrightarrow> k = job"
  shows "flights_ok (s\<lparr>ds_flights := dict_set (ds_flights s) job f\<rparr>)"
proof (rule flights_okI [OF assms(1)])
  show "one_flight_each (dict_get (dict_set (ds_flights s) job f))"
    unfolding one_flight_each_def dict_get_set
  proof (intro allI impI)
    fix j k f' g'
    assume "(if j = job then Some f else dict_get (ds_flights s) j) = Some f'"
      "(if k = job then Some f else dict_get (ds_flights s) k) = Some g'" "fl_call f' = fl_call g'" "fl_call f' \<noteq> []"
    then show "j = k"
      using alone [of j f'] alone [of k g'] flights_okD(3) [OF assms(1), of j f' k g'] by (auto split: if_splits)
  qed
qed (use assms(1,2) in \<open>auto simp: flights_ok_def wf_dict_set split: if_splits\<close>)

lemma read_history_step:
  assumes "dispatches_ok s" "orderly_event s (ReadHistory job call ok)"
  shows "dispatches_ok (dispatch_step st redact (ReadHistory job call ok) s)"
proof -
  define h where "h = dispatch_history_of (ds_rows s) call ok"
  have ok: "rows_back_seen s" "flights_ok s" "ledger_ok (ds_seen s) (rn_jobs (ds_runner s))"
    using assms(1) by (simp_all add: dispatches_ok_def)
  have alone: "call = [] \<or> fl_call g \<noteq> call" if "dict_get (ds_flights s) k = Some g" for k g
    using assms(2) that by (auto simp: list_all_iff dict_get_def dest!: map_of_SomeD)
  show ?thesis
  proof (cases "h = UnknownDispatchHistory")
    case True
    with assms(1) show ?thesis by (simp add: h_def)
  next
    case False
    let ?f = "\<lparr>fl_call = call, fl_history = h, fl_started = None\<rparr>"
    have "flights_ok (s\<lparr>ds_flights := dict_set (ds_flights s) job ?f\<rparr>)"
      using read_history_true [OF ok(1) h_def [symmetric] False] alone
      by (intro flights_ok_open ok(2)) (auto simp: flight_ok_def)
    moreover have "dispatch_step st redact (ReadHistory job call ok) s = s\<lparr>ds_flights := dict_set (ds_flights s) job ?f\<rparr>"
      using False by (simp add: h_def [symmetric] split: dispatch_history.split)
    ultimately show ?thesis
      using ok(1,3) by (simp add: dispatches_ok_def rows_back_seen_def)
  qed
qed

lemma open_record_step:
  assumes "dispatches_ok s"
  shows "dispatches_ok (dispatch_step st redact (OpenRecord job now ok) s)"
proof (cases "dict_get (ds_flights s) job")
  case None
  with assms show ?thesis by simp
next
  case (Some f)
  have inv: "rows_back_seen s" "flights_ok s" "ledger_ok (ds_seen s) (rn_jobs (ds_runner s))"
    using assms by (simp_all add: dispatches_ok_def)
  let ?s = "s\<lparr>ds_rows := ds_rows s @ [(fl_call f, now)]\<rparr>"
  have "flights_ok (?s\<lparr>ds_flights := dict_set (ds_flights ?s) job (f\<lparr>fl_started := Some now\<rparr>)\<rparr>)"
  proof (rule flights_ok_open [OF flights_ok_more_rows [OF inv(2)]])
    show "flight_ok (ds_rows ?s) (ds_seen ?s) (f\<lparr>fl_started := Some now\<rparr>)"
      using flights_okD(1) [OF inv(2) Some] by (simp add: flight_ok_def flight_true_def cong: dispatch_history.case_cong)
    show "k = job" if "dict_get (ds_flights ?s) k = Some g" "fl_call g = fl_call (f\<lparr>fl_started := Some now\<rparr>)"
      "fl_call (f\<lparr>fl_started := Some now\<rparr>) \<noteq> []" for k g
      using flights_okD(3) [OF inv(2) Some, of k g] that by simp
  qed
  moreover have "rows_back_seen ?s"
    using inv(1) unfolding rows_back_seen_def by fastforce
  ultimately show ?thesis
    using inv Some flights_ok_drop [OF inv(2), of job] by (auto simp: dispatches_ok_def rows_back_seen_def drop_flight_def)
qed

lemma submit_job_step:
  assumes "dispatches_ok s" "orderly_event s (SubmitJob job now rq)"
  shows "dispatches_ok (dispatch_step st redact (SubmitJob job now rq) s)"
proof -
  have inv: "rows_back_seen s" "flights_ok s" "ledger_ok (ds_seen s) (rn_jobs (ds_runner s))"
    using assms(1) by (simp_all add: dispatches_ok_def)
  show ?thesis
  proof (cases "\<exists>f t. dict_get (ds_flights s) job = Some f \<and> fl_started f = Some t")
    case False
    with assms(1) show ?thesis by (auto split: option.split)
  next
    case True
    then obtain f t where f: "dict_get (ds_flights s) job = Some f" "fl_started f = Some t"
      by blast
    let ?e = "Submit now (job_payload job f rq)"
    let ?s = "(drop_flight job s)\<lparr>ds_runner := runner_step st redact ?e (ds_runner s), ds_seen := (fl_call f, now) # ds_seen s\<rparr>"
    have row: "(fl_call f, t) \<in> set (ds_rows s)" "t \<le> now + INCARNATION_SKEW"
      using flights_okD(2) [OF inv(2) f] assms(2) f by simp_all
    have "rows_back_seen ?s"
      unfolding rows_back_seen_def
    proof (intro allI impI)
      fix c u
      assume "(c, u) \<in> set (ds_seen ?s)"
      then have "c = fl_call f \<and> u = now \<or> (c, u) \<in> set (ds_seen s)"
        by simp
      then show "\<exists>v. (c, v) \<in> set (ds_rows ?s) \<and> v \<le> u + INCARNATION_SKEW"
        using inv(1) row unfolding rows_back_seen_def drop_flight_def by simp blast
    qed
    moreover have "ledger_ok (dispatched ?e (ds_seen s)) (rn_jobs (runner_step st redact ?e (ds_runner s)))"
      using payload_states_truly [OF flights_okD(1) [OF inv(2) f(1)]] by (intro ledger_step inv(3)) simp
    moreover have "flights_ok ?s"
    proof (rule flights_okI [OF inv(2)])
      show "wf_dict (ds_flights (drop_flight job s))" "one_flight_each (dict_get (ds_flights (drop_flight job s)))"
        using flights_ok_drop [OF inv(2), of job] by (simp_all add: flights_ok_def)
      show "flight_ok (ds_rows ?s) (ds_seen ?s) g" if g: "dict_get (ds_flights (drop_flight job s)) k = Some g" for k g
      proof -
        have k: "k \<noteq> job" "dict_get (ds_flights s) k = Some g"
          using g by (simp_all add: drop_flight_def split: if_splits)
        then have "fl_call g = [] \<or> fl_call g \<noteq> fl_call f"
          using flights_okD(3) [OF inv(2) f(1)] by metis
        then have "flight_true ((fl_call f, now) # ds_seen s) g"
          using flights_okD(1) [OF inv(2) k(2)] by (auto simp: flight_true_def split: dispatch_history.splits)
        then show ?thesis
          using flights_okD(2) [OF inv(2) k(2)] by (simp add: flight_ok_def drop_flight_def)
      qed
    qed simp
    ultimately show ?thesis
      using f by (simp add: dispatches_ok_def job_payload_def)
  qed
qed

lemma runner_does_step:
  assumes "dispatches_ok s" "orderly_event s (RunnerDoes e)"
  shows "dispatches_ok (dispatch_step st redact (RunnerDoes e) s)"
proof (cases "is_submit e")
  case False
  then have "honest_event (ds_seen s) e" "dispatched e (ds_seen s) = ds_seen s"
    using assms(2) by (cases e; simp)+
  then have "ledger_ok (ds_seen s) (rn_jobs (runner_step st redact e (ds_runner s)))"
    using ledger_step [of "ds_seen s" "ds_runner s" e] assms(1) by (simp add: dispatches_ok_def)
  with False assms(1) show ?thesis
    by (simp add: dispatches_ok_def rows_back_seen_def flights_ok_def)
qed (use assms in simp)

lemma dispatches_step:
  assumes "dispatches_ok s" "orderly_event s e"
  shows "dispatches_ok (dispatch_step st redact e s)"
proof (cases e)
  case (Abandon job)
  with assms(1) flights_ok_drop [of s job] show ?thesis
    by (simp add: dispatches_ok_def rows_back_seen_def drop_flight_def)
next
  case (ReadHistory job call ok)
  with assms read_history_step show ?thesis by metis
next
  case (OpenRecord job now ok)
  with assms open_record_step show ?thesis by metis
next
  case (SubmitJob job now rq)
  with assms submit_job_step show ?thesis by metis
next
  case (RunnerDoes e)
  with assms runner_does_step show ?thesis by metis
qed

lemma dispatches_run: "dispatches_ok s \<Longrightarrow> orderly st redact es s \<Longrightarrow> dispatches_ok (dispatch_run st redact es s)"
  unfolding dispatch_run_def by (induction es arbitrary: s) (simp_all add: dispatches_step)

text \<open>
  C26 (safety) A tool call that runs in the sandbox runs at most once, however often workers die and dispatch it
  again: whether the history was readable, the row committed, the request delivered or the runner restarted in
  between. This holds when dispatches of one call do not overlap and the clocks agree up to the skew.
\<close>

theorem dispatches_run_once:
  assumes "orderly st redact es (fresh_system now)"
  shows "ran_once (effects (ds_runner (dispatch_run st redact es (fresh_system now))))"
proof -
  have "dispatches_ok (fresh_system now)"
    by (simp add: dispatches_ok_def rows_back_seen_def flights_ok_def one_flight_each_def fresh_system_def fresh_runner_def start_runner_def
        ledger_ok_def ledger_defs dict_get_def wf_dict_def ran_once_def)
  from dispatches_run [OF this assms] show ?thesis
    by (simp add: dispatches_ok_def ledger_ok_def effects_def)
qed

text \<open>A worker dies after its job ran; the runner restarts; the next dispatch finds the row and is refused.\<close>

definition tool_job :: job_request where
  "tool_job = job_on [] [] ''w'' None"

definition redispatched :: "dispatch_event list" where
  "redispatched =
     [ReadHistory ''j1'' ''call'' True, OpenRecord ''j1'' 9 True, SubmitJob ''j1'' 10 tool_job,
      RunnerDoes (QueueTry ''j1'' 11 False), RunnerDoes (Restart 20),
      ReadHistory ''j2'' ''call'' True, OpenRecord ''j2'' 30 True, SubmitJob ''j2'' 31 tool_job,
      RunnerDoes (QueueTry ''j2'' 32 False)]"

theorem dispatches_run_once_witness:
  "ran_once (effects (ds_runner (dispatch_run small_settings plain_redactor redispatched (fresh_system 0))))"
proof -
  have "orderly small_settings plain_redactor redispatched (fresh_system 0)"
    by code_simp
  then show ?thesis
    by (rule dispatches_run_once)
qed

lemma fresh_runner_accepts:
  assumes "resolve_limits rq st = Inr limits" "rq_prior_dispatch rq = Some None" "rq_job_id rq = job"
    "rq_invocation_id rq = call"
  shows "effects (runner_step st redact (QueueTry job later False)
      (runner_step st redact (Submit now rq) (fresh_runner restarted es))) = es @ [(call, job)]"
proof -
  obtain cpu memory pids secs where "limits = (cpu, memory, pids, secs)"
    by (cases limits) auto
  with assms show ?thesis
    by (auto simp: effects_def on_jobs_def fresh_runner_def start_runner_def submit_def forget_expired_def
        release_surplus_output_def surplus_output_def Let_def prior_problem_def accept_job_def new_record_def
        run_queue_step_def job_step_def queue_step_def begin_work_def put_job_def workspace_is_free_def dict_get_def)
qed

text \<open>
  C27 (error) Without the order a call may run twice. Whatever happened before, a worker that found no earlier
  dispatch of its call and has recorded its own, but not submitted it yet, has its job started if the runner
  restarts first and the request is within the limits; so a call that another dispatch has already run, on the
  runner before the restart, is run again.
\<close>

theorem overlapping_dispatches_run_twice:
  assumes "dict_get (ds_flights s) job = Some f" "fl_started f = Some t" "fl_history f = FirstDispatch"
    and "fl_call f \<noteq> []" "(fl_call f, other) \<in> set (effects (ds_runner s))"
    and "resolve_limits (job_payload job f rq) st = Inr limits"
  shows "effects (ds_runner (dispatch_run st redact
       [RunnerDoes (Restart restarted), SubmitJob job now rq, RunnerDoes (QueueTry job later False)] s))
      = effects (ds_runner s) @ [(fl_call f, job)]
    \<and> \<not> ran_once (effects (ds_runner (dispatch_run st redact
       [RunnerDoes (Restart restarted), SubmitJob job now rq, RunnerDoes (QueueTry job later False)] s)))"
    (is "?effects = ?twice \<and> \<not> ran_once ?effects")
proof -
  have "?effects = ?twice"
    using assms(1-3) fresh_runner_accepts [OF assms(6), of job "fl_call f" redact later now restarted "effects (ds_runner s)"]
    by (simp add: dispatch_run_def job_payload_def effects_def drop_flight_def)
  moreover have "\<not> ran_once ?twice"
    using assms(4,5) by (force simp: ran_once_def)
  ultimately show ?thesis
    by simp
qed

text \<open>A worker that stalls between its record and its submission while another one dispatches the call.\<close>

definition overlapping :: "dispatch_event list" where
  "overlapping =
     [ReadHistory ''j1'' ''call'' True, OpenRecord ''j1'' 10000000 True,
      ReadHistory ''j2'' ''call'' True, OpenRecord ''j2'' 20000000 True, SubmitJob ''j2'' 20000001 tool_job,
      RunnerDoes (QueueTry ''j2'' 20000002 False)]"

theorem overlapping_dispatches_run_twice_witness:
  "effects (ds_runner (dispatch_run small_settings plain_redactor
       [RunnerDoes (Restart 30000000), SubmitJob ''j1'' 30000001 tool_job, RunnerDoes (QueueTry ''j1'' 30000002 False)]
       (dispatch_run small_settings plain_redactor overlapping (fresh_system 0))))
     = [(''call'', ''j2''), (''call'', ''j1'')]"
proof -
  let ?s = "dispatch_run small_settings plain_redactor overlapping (fresh_system 0)"
  let ?f = "\<lparr>fl_call = ''call'', fl_history = FirstDispatch, fl_started = Some 10000000\<rparr>"
  have "dict_get (ds_flights ?s) ''j1'' = Some ?f" "effects (ds_runner ?s) = [(''call'', ''j2'')]"
    "resolve_limits (job_payload ''j1'' ?f tool_job) small_settings = Inr (2, 4096, 256, 1800)"
    by code_simp+
  then show ?thesis
    using overlapping_dispatches_run_twice [of ?s "''j1''" ?f 10000000 "''j2''" tool_job small_settings _ plain_redactor
        30000000 30000001 30000002] by simp
qed

end
