(* ===== verification/RedactionSnapshot.thy ===== *)
theory RedactionSnapshot
  imports RedactionLaws
begin

text \<open>A live snapshot against its reference: a character is kept exactly when no secret covers it.\<close>

section \<open>The reference\<close>

text \<open>
  A secret covers a character when it stands around it, when its unfinished beginning at the end of the text
  does, and, in a text whose start was cut off, when its remaining end at the start does.
\<close>

definition secret_covers :: "bool \<Rightarrow> string \<Rightarrow> nat \<Rightarrow> string \<Rightarrow> bool" where
  "secret_covers clipped_start s i v \<longleftrightarrow>
     list_ex (\<lambda>k. prefix v (drop k s) \<and> i < k + length v) [0..<Suc i]
     \<or> list_ex (\<lambda>n. ends_with s (take n v) \<and> length s - n \<le> i) [1..<length v]
     \<or> clipped_start \<and> list_ex (\<lambda>n. starts_with s (drop (length v - n) v) \<and> i < n) [1..<length v]"

lemma secret_covers_iff:
  "secret_covers clipped_start s i v \<longleftrightarrow>
     (\<exists>k < Suc i. prefix v (drop k s) \<and> i < k + length v)
     \<or> (\<exists>n < length v. 0 < n \<and> ends_with s (take n v) \<and> length s - n \<le> i)
     \<or> clipped_start \<and> (\<exists>n < length v. 0 < n \<and> starts_with s (drop (length v - n) v) \<and> i < n)"
  unfolding secret_covers_def list_ex_iff by (fastforce simp: Suc_le_eq)

definition uncovered :: "registry \<Rightarrow> bool \<Rightarrow> string \<Rightarrow> string" where
  "uncovered vs clipped_start s =
     map (\<lambda>i. s ! i) (filter (\<lambda>i. \<not> list_ex (secret_covers clipped_start s i) vs) [0..<length s])"

definition kept_text :: "piece list \<Rightarrow> string" where
  "kept_text ps = concat (map (\<lambda>p. case p of Kept s \<Rightarrow> s | Marker \<Rightarrow> []) ps)"

section \<open>Spans\<close>

definition in_span :: "nat \<Rightarrow> span \<Rightarrow> bool" where
  "in_span i p \<longleftrightarrow> fst p \<le> i \<and> i < snd p"

abbreviation in_spans :: "span list \<Rightarrow> nat \<Rightarrow> bool" where
  "in_spans ps i \<equiv> \<exists>p \<in> set ps. in_span i p"

text \<open>Spans one after the other, from \<open>lo\<close> on and up to \<open>n\<close>.\<close>

fun apart :: "nat \<Rightarrow> nat \<Rightarrow> span list \<Rightarrow> bool" where
  "apart lo n [] \<longleftrightarrow> lo \<le> n"
| "apart lo n ((start, stop) # ps) \<longleftrightarrow> lo \<le> start \<and> start < stop \<and> apart stop n ps"

lemma apart_bound: "apart lo n ps \<Longrightarrow> lo \<le> n"
  by (induction lo n ps rule: apart.induct) auto

lemma apart_snoc:
  "apart lo n (ps @ [(start, stop)])
     \<longleftrightarrow> apart lo (if ps = [] then start else snd (last ps)) ps \<and> (if ps = [] then lo else snd (last ps)) \<le> start
         \<and> start < stop \<and> stop \<le> n"
  by (induction lo n ps rule: apart.induct) (auto split: if_splits)

lemma apart_more: "apart lo m ps \<Longrightarrow> m \<le> n \<Longrightarrow> apart lo n ps"
  by (induction lo m ps rule: apart.induct) auto

lemma apart_last: "apart lo n ps \<Longrightarrow> apart lo (if ps = [] then n else snd (last ps)) ps"
  by (induction lo n ps rule: apart.induct) auto

lemma apart_beyond: "apart lo n ps \<Longrightarrow> i < lo \<Longrightarrow> \<not> in_spans ps i"
  by (induction lo n ps rule: apart.induct) (auto simp: in_span_def)

section \<open>Merging\<close>

lemma merge_span_ok:
  assumes "apart 0 n merged" "start < stop" "stop \<le> n" "merged \<noteq> [] \<Longrightarrow> fst (last merged) \<le> start"
  shows "apart 0 n (merge_span merged (start, stop))"
    and "in_spans (merge_span merged (start, stop)) i \<longleftrightarrow> in_spans merged i \<or> in_span i (start, stop)"
    and "merge_span merged (start, stop) \<noteq> [] \<and> fst (last (merge_span merged (start, stop))) \<le> start"
proof -
  consider (join) ps a b where "merged = ps @ [(a, b)]" "start < b" | (add) "merged = [] \<or> snd (last merged) \<le> start"
    by (cases merged rule: rev_cases) fastforce+
  then have "apart 0 n (merge_span merged (start, stop))
      \<and> (in_spans (merge_span merged (start, stop)) i \<longleftrightarrow> in_spans merged i \<or> in_span i (start, stop))
      \<and> merge_span merged (start, stop) \<noteq> [] \<and> fst (last (merge_span merged (start, stop))) \<le> start"
  proof cases
    case join
    then have "merge_span merged (start, stop) = ps @ [(a, max stop b)]" "a \<le> start"
      using assms(4) by (simp_all add: merge_span_def)
    moreover have "apart 0 n (ps @ [(a, max stop b)])"
      using assms(1-3) join by (auto simp: apart_snoc)
    ultimately show ?thesis
      using join by (auto simp: in_span_def)
  next
    case add
    then have "merge_span merged (start, stop) = merged @ [(start, stop)]"
      by (auto simp: merge_span_def)
    moreover have "apart 0 n (merged @ [(start, stop)])"
      using add assms(1-3) apart_last [OF assms(1)] by (auto simp: apart_snoc)
    ultimately show ?thesis
      by auto
  qed
  then show "apart 0 n (merge_span merged (start, stop))"
    "in_spans (merge_span merged (start, stop)) i \<longleftrightarrow> in_spans merged i \<or> in_span i (start, stop)"
    "merge_span merged (start, stop) \<noteq> [] \<and> fst (last (merge_span merged (start, stop))) \<le> start"
    by blast+
qed

lemma merged_spans:
  assumes "apart 0 n merged" "\<And>p. p \<in> set ps \<Longrightarrow> fst p < snd p \<and> snd p \<le> n" "sorted (map fst ps)"
    and "\<And>p. p \<in> set ps \<Longrightarrow> merged \<noteq> [] \<Longrightarrow> fst (last merged) \<le> fst p"
  shows "apart 0 n (foldl merge_span merged ps)
    \<and> (in_spans (foldl merge_span merged ps) i \<longleftrightarrow> in_spans merged i \<or> in_spans ps i)"
  using assms
proof (induction ps arbitrary: merged)
  case (Cons p ps)
  obtain a b where p: "p = (a, b)"
    by (cases p)
  note ok = merge_span_ok [OF Cons.prems(1), of a b]
  have step: "a < b" "b \<le> n" "merged \<noteq> [] \<Longrightarrow> fst (last merged) \<le> a"
    using Cons.prems(2,4) [of p] p by auto
  have "fst (last (merge_span merged (a, b))) \<le> fst q" if "q \<in> set ps" for q
    using ok(3) step Cons.prems(3) that p by fastforce
  then have "apart 0 n (foldl merge_span (merge_span merged (a, b)) ps)
      \<and> (in_spans (foldl merge_span (merge_span merged (a, b)) ps) i
         \<longleftrightarrow> in_spans (merge_span merged (a, b)) i \<or> in_spans ps i)"
    using Cons.prems(2,3) ok(1) step by (intro Cons.IH) auto
  then show ?case
    using ok(2) step p by auto
qed simp

lemma sorted_spans_rest: "set (sorted_spans ps) = set ps" "sorted (map fst (sorted_spans ps))"
  by (simp_all add: sorted_spans_def)

section \<open>What the parts keep\<close>

lemma snapshot_parts_kept:
  "apart offset (length s) ps \<Longrightarrow>
    kept_text (snapshot_parts s offset ps) = map (\<lambda>i. s ! i) (filter (\<lambda>i. \<not> in_spans ps i) [offset..<length s])"
proof (induction s offset ps rule: snapshot_parts.induct)
  case (1 s offset)
  then show ?case
    by (simp add: kept_text_def map_nth drop_map [symmetric] del: drop_map) (metis drop_map drop_upt map_nth add_0)
next
  case (2 s offset start stop ps)
  then have ok: "offset \<le> start" "start < stop" "apart stop (length s) ps"
    by auto
  then have le: "stop \<le> length s"
    using apart_bound by blast
  have "[offset..<length s] = [offset..<start] @ [start..<stop] @ [stop..<length s]"
    using ok le by (metis le_trans less_imp_le upt_add_eq_append le_add_diff_inverse)
  moreover have "filter (\<lambda>i. \<not> in_spans ((start, stop) # ps) i) [offset..<start] = [offset..<start]"
    using apart_beyond [OF ok(3)] ok by (intro filter_True) (auto simp: in_span_def)
  moreover have "filter (\<lambda>i. \<not> in_spans ((start, stop) # ps) i) [start..<stop] = []"
    by (intro filter_False) (auto simp: in_span_def)
  moreover have "filter (\<lambda>i. \<not> in_spans ((start, stop) # ps) i) [stop..<length s]
      = filter (\<lambda>i. \<not> in_spans ps i) [stop..<length s]"
    by (intro filter_cong) (auto simp: in_span_def)
  moreover have "drop offset (take start s) = map (\<lambda>i. s ! i) [offset..<start]"
    using ok le by (intro nth_equalityI) auto
  ultimately show ?case
    using 2(1) [OF ok(3)] by (simp add: kept_text_def)
qed

section \<open>Which spans there are\<close>

lemma find_largest:
  "case find P (rev [1..<Suc m]) of
     Some n \<Rightarrow> 0 < n \<and> n \<le> m \<and> P n \<and> (\<forall>k. 0 < k \<and> k \<le> m \<and> P k \<longrightarrow> k \<le> n)
   | None \<Rightarrow> \<forall>k. 0 < k \<and> k \<le> m \<longrightarrow> \<not> P k"
  by (induction m) (auto split: option.splits simp: le_Suc_eq)

lemma find_largest_from:
  assumes "\<And>n. n < k \<Longrightarrow> P n \<Longrightarrow> n \<le> m"
  shows "(case find P (rev [1..<Suc (min m (k - 1))]) of None \<Rightarrow> False | Some n \<Rightarrow> t \<le> n)
    \<longleftrightarrow> (\<exists>n < k. 0 < n \<and> P n \<and> t \<le> n)"
proof (cases "find P (rev [1..<Suc (min m (k - 1))])")
  case None
  then have "\<not> P n" if "0 < n" "n < k" "n \<le> m" for n
    using that find_largest [where P = P and m = "min m (k - 1)"] by simp
  then show ?thesis
    unfolding None option.case using assms by blast
next
  case (Some l)
  then have l: "0 < l" "l < k" "P l" "\<And>n. 0 < n \<Longrightarrow> n < k \<Longrightarrow> n \<le> m \<Longrightarrow> P n \<Longrightarrow> n \<le> l"
    using find_largest [where P = P and m = "min m (k - 1)"] by auto
  then show ?thesis
    unfolding Some option.case using assms by (meson le_trans)
qed

lemma unfinished_span_covers:
  assumes "i < length s"
  shows "in_spans (unfinished_span s v) i
    \<longleftrightarrow> (\<exists>n < length v. 0 < n \<and> ends_with s (take n v) \<and> length s - n \<le> i)"
proof -
  have bound: "n \<le> length s" if "n < length v" "ends_with s (take n v)" for n
    using suffix_length_le [OF that(2)] that(1) by simp
  have "in_spans (unfinished_span s v) i
      \<longleftrightarrow> (case find (\<lambda>n. ends_with s (take n v)) (partial_sizes s v) of None \<Rightarrow> False | Some n \<Rightarrow> length s - i \<le> n)"
    using assms by (auto simp: unfinished_span_def in_span_def split: option.splits)
  also have "\<dots> \<longleftrightarrow> (\<exists>n < length v. 0 < n \<and> ends_with s (take n v) \<and> length s - i \<le> n)"
    unfolding partial_sizes_def using bound by (rule find_largest_from)
  finally show ?thesis
    by (simp add: le_diff_conv add.commute)
qed

lemma clipped_span_covers:
  "in_spans (clipped_span s v) i \<longleftrightarrow> (\<exists>n < length v. 0 < n \<and> starts_with s (drop (length v - n) v) \<and> i < n)"
proof -
  have bound: "n \<le> length s" if "n < length v" "starts_with s (drop (length v - n) v)" for n
    using prefix_length_le [OF that(2)] that(1) by simp
  have "in_spans (clipped_span s v) i
      \<longleftrightarrow> (case find (\<lambda>n. starts_with s (drop (length v - n) v)) (partial_sizes s v) of
            None \<Rightarrow> False | Some n \<Rightarrow> Suc i \<le> n)"
    by (auto simp: clipped_span_def in_span_def split: option.splits)
  also have "\<dots> \<longleftrightarrow> (\<exists>n < length v. 0 < n \<and> starts_with s (drop (length v - n) v) \<and> Suc i \<le> n)"
    unfolding partial_sizes_def using bound by (rule find_largest_from)
  finally show ?thesis
    by (simp add: Suc_le_eq)
qed

lemma occurrence_spans_cover:
  "i < length s \<Longrightarrow> in_spans (occurrence_spans s v) i \<longleftrightarrow> (\<exists>k < Suc i. prefix v (drop k s) \<and> i < k + length v)"
  unfolding occurrence_spans_def in_span_def less_Suc_eq_le by (auto intro: exI conjI le_less_trans)

lemma secret_spans_cover:
  assumes "i < length s"
  shows "in_spans (secret_spans vs clipped_start s) i \<longleftrightarrow> list_ex (secret_covers clipped_start s i) vs"
proof -
  have "in_spans (occurrence_spans s v @ unfinished_span s v @ (if clipped_start then clipped_span s v else [])) i
      \<longleftrightarrow> secret_covers clipped_start s i v" for v
    unfolding secret_covers_iff set_append bex_Un occurrence_spans_cover [OF assms] unfinished_span_covers [OF assms]
    using clipped_span_covers [of s v i] by (cases clipped_start) simp_all
  then show ?thesis
    unfolding secret_spans_def list_ex_iff set_concat set_map by blast
qed

lemma secret_spans_ok:
  assumes "p \<in> set (secret_spans vs clipped_start s)" "[] \<notin> set vs"
  shows "fst p < snd p \<and> snd p \<le> length s"
proof -
  obtain v where v: "v \<in> set vs"
    "p \<in> set (occurrence_spans s v) \<or> p \<in> set (unfinished_span s v) \<or> p \<in> set (clipped_span s v)"
    using assms(1) by (auto simp: secret_spans_def split: if_splits)
  moreover have "fst p < snd p \<and> snd p \<le> length s" if "p \<in> set (occurrence_spans s v)"
    using that v(1) assms(2) prefix_length_le by (fastforce simp: occurrence_spans_def)
  moreover have "fst p < snd p \<and> snd p \<le> length s" if "p \<in> set (unfinished_span s v) \<or> p \<in> set (clipped_span s v)"
    using that find_largest [where P = "\<lambda>n. ends_with s (take n v)" and m = "min (length s) (length v - 1)"]
      find_largest [where P = "\<lambda>n. starts_with s (drop (length v - n) v)" and m = "min (length s) (length v - 1)"]
    by (auto simp: unfinished_span_def clipped_span_def partial_sizes_def split: option.splits)
  ultimately show ?thesis
    by blast
qed

text \<open>
  C33 (equivalence) A snapshot keeps exactly the characters that no secret covers, whole or cut by an edge of the
  text, in their order, with markers between them; overlapping secrets do not uncover each other.
\<close>

theorem snapshot_keeps_uncovered:
  assumes "[] \<notin> set vs"
  shows "redact_partial_text vs clipped_start s = concat (map piece_text (redacted_parts vs clipped_start s))
    \<and> kept_text (redacted_parts vs clipped_start s) = uncovered vs clipped_start s"
proof -
  let ?ps = "secret_spans vs clipped_start s"
  have "apart 0 (length s) (foldl merge_span [] (sorted_spans ?ps))
      \<and> (in_spans (foldl merge_span [] (sorted_spans ?ps)) i \<longleftrightarrow> in_spans [] i \<or> in_spans (sorted_spans ?ps) i)" for i
    using secret_spans_ok [OF _ assms] by (intro merged_spans) (auto simp: sorted_spans_rest)
  then have "kept_text (redacted_parts vs clipped_start s)
      = map (\<lambda>i. s ! i) (filter (\<lambda>i. \<not> in_spans ?ps i) [0..<length s])"
    unfolding redacted_parts_def by (subst snapshot_parts_kept) (auto simp: sorted_spans_rest)
  also have "\<dots> = uncovered vs clipped_start s"
    unfolding uncovered_def using secret_spans_cover by (intro arg_cong [where f = "map _"] filter_cong) auto
  finally show ?thesis
    by (simp add: redact_partial_text_def)
qed

theorem snapshot_keeps_uncovered_witness:
  "kept_text (redacted_parts [''abc'', ''cde''] True ''bcabcde:a'') = '':''"
proof -
  have "uncovered [''abc'', ''cde''] True ''bcabcde:a'' = '':''"
    by (simp add: uncovered_def secret_covers_def upt_rec suffix_def)
  then show ?thesis
    using snapshot_keeps_uncovered [of "[''abc'', ''cde'']" True "''bcabcde:a''"] by simp
qed

end
