(* ===== verification/Sanitize.thy ===== *)
theory Sanitize
  imports RedactionLaws
begin

text \<open>
  The sanitization of tool inputs and outputs, \<open>packages/tools/src/jhin_tools/sanitize.py\<close>: every string is
  scrubbed and capped, keys that collide are kept apart, and an oversized document is replaced by a preview.

  The ellipsis and the replacement character are not code points below 256; they are written \<open>CHR 0x85\<close> and
  \<open>CHR 0x1A\<close>. There is no surrogate among the code points below 256.
\<close>

definition MAX_STRING_CHARS :: int where
  "MAX_STRING_CHARS = 8192"

definition TRUNCATION_MARKER :: string where
  "TRUNCATION_MARKER = CHR 0x85 # ''[truncated]''"

definition MIN_KEY_CAP_CHARS :: int where
  "MIN_KEY_CAP_CHARS = int (length TRUNCATION_MARKER) + 8"

text \<open>\<open>s[:n]\<close>, where a negative \<open>n\<close> counts from the end\<close>

definition slice_to :: "int \<Rightarrow> string \<Rightarrow> string" where
  "slice_to n s = take (nat (if n < 0 then int (length s) + n else n)) s"

definition truncate_string :: "int \<Rightarrow> string \<Rightarrow> string" where
  "truncate_string cap s =
     (if int (length s) \<le> cap then s else slice_to (cap - int (length TRUNCATION_MARKER)) s @ TRUNCATION_MARKER)"

definition postgres_safe :: "string \<Rightarrow> string" where
  "postgres_safe s = map (\<lambda>c. if c = CHR 0x00 then CHR 0x1A else c) s"

definition safe_text :: "registry \<Rightarrow> string \<Rightarrow> string" where
  "safe_text vs s = redact_text vs (postgres_safe (redact_text vs s))"

section \<open>Keys\<close>

definition numbered_key :: "string \<Rightarrow> int \<Rightarrow> nat \<Rightarrow> string" where
  "numbered_key key cap n =
     (let suffix = ''#'' @ show_nat n in slice_to (cap - int (length suffix)) key @ suffix)"

lemma show_nat_no_hash: "CHR ''#'' \<notin> set (show_nat n)"
  using show_nat_digits [of "CHR ''#''"] by auto

lemma numbered_key_inject: "numbered_key key cap m = numbered_key key cap n \<Longrightarrow> m = n"
proof -
  assume "numbered_key key cap m = numbered_key key cap n"
  then obtain x y where "x @ ''#'' @ show_nat m = y @ ''#'' @ show_nat n"
    by (auto simp: numbered_key_def Let_def)
  then have "rev (show_nat m) @ ''#'' @ rev x = rev (show_nat n) @ ''#'' @ rev y"
    by (metis append.assoc rev_append rev_singleton_conv)
  then have "takeWhile (\<lambda>c. c \<noteq> CHR ''#'') (rev (show_nat m) @ ''#'' @ rev x)
      = takeWhile (\<lambda>c. c \<noteq> CHR ''#'') (rev (show_nat n) @ ''#'' @ rev y)"
    by simp
  moreover have "takeWhile (\<lambda>c. c \<noteq> CHR ''#'') (rev (show_nat k) @ ''#'' @ z) = rev (show_nat k)" for k z
    using show_nat_no_hash [of k] by (subst takeWhile_append2) auto
  ultimately have "rev (show_nat m) = rev (show_nat n)"
    by metis
  then show "m = n"
    using show_nat_inject by simp
qed

text \<open>The loop over collision numbers. It ends: the numbered keys are distinct, and finitely many are taken.\<close>

function first_free :: "string list \<Rightarrow> string \<Rightarrow> int \<Rightarrow> nat \<Rightarrow> string" where
  "first_free existing key cap n =
     (if numbered_key key cap n \<notin> set existing then numbered_key key cap n else first_free existing key cap (Suc n))"
  by pat_completeness auto

definition taken_from :: "string list \<Rightarrow> string \<Rightarrow> int \<Rightarrow> nat \<Rightarrow> nat set" where
  "taken_from existing key cap n = {m. n \<le> m \<and> numbered_key key cap m \<in> set existing}"

lemma finite_taken: "finite (taken_from existing key cap n)"
proof (rule finite_imageD)
  show "finite (numbered_key key cap ` taken_from existing key cap n)"
    by (rule finite_subset [of _ "set existing"]) (auto simp: taken_from_def)
qed (auto simp: inj_on_def dest: numbered_key_inject)

lemma card_taken: "card (taken_from existing key cap n) \<le> length existing"
proof -
  have "card (taken_from existing key cap n) = card (numbered_key key cap ` taken_from existing key cap n)"
    by (rule card_image [symmetric]) (auto simp: inj_on_def dest: numbered_key_inject)
  also have "\<dots> \<le> card (set existing)"
    by (rule card_mono) (auto simp: taken_from_def)
  finally show ?thesis
    using card_length le_trans by blast
qed

termination first_free
proof (relation "measure (\<lambda>(existing, key, cap, n). card (taken_from existing key cap n))")
  fix existing key cap n
  assume "\<not> numbered_key key cap n \<notin> set existing"
  then have "n \<in> taken_from existing key cap n" "n \<notin> taken_from existing key cap (Suc n)"
    by (simp_all add: taken_from_def)
  moreover have "taken_from existing key cap (Suc n) \<subseteq> taken_from existing key cap n"
    by (auto simp: taken_from_def)
  ultimately have "taken_from existing key cap (Suc n) \<subset> taken_from existing key cap n"
    by blast
  then show "((existing, key, cap, Suc n), existing, key, cap, n)
      \<in> measure (\<lambda>(existing, key, cap, n). card (taken_from existing key cap n))"
    using finite_taken psubset_card_mono by simp blast
qed simp

declare first_free.simps [simp del]

definition unique_bounded_key :: "string list \<Rightarrow> string \<Rightarrow> int \<Rightarrow> string" where
  "unique_bounded_key existing key cap = (if key \<notin> set existing then key else first_free existing key cap 2)"

section \<open>Values\<close>

fun sanitize_value :: "registry \<Rightarrow> int \<Rightarrow> pyval \<Rightarrow> pyval"
  and sanitize_items :: "registry \<Rightarrow> int \<Rightarrow> (string \<times> pyval) list \<Rightarrow> pyval dict \<Rightarrow> pyval dict" where
  "sanitize_value vs cap (PStr s) = PStr (truncate_string cap (safe_text vs s))"
| "sanitize_value vs cap (PDict d) = PDict (sanitize_items vs cap d [])"
| "sanitize_value vs cap (PList xs) = PList (map (sanitize_value vs cap) xs)"
| "sanitize_value vs cap v = v"
| "sanitize_items vs cap [] acc = acc"
| "sanitize_items vs cap ((k, v) # d) acc =
     sanitize_items vs cap d
       (acc @ [(unique_bounded_key (map fst acc) (truncate_string cap (safe_text vs k)) cap, sanitize_value vs cap v)])"

text \<open>
  \<open>dumps\<close> is \<open>json.dumps\<close> without ASCII escapes and \<open>bytes\<close> the length of its UTF-8 encoding. \<open>None\<close> is the
  \<open>ValueError\<close> for a cap too small for a key.
\<close>

definition sanitize_payload ::
  "(pyval \<Rightarrow> string) \<Rightarrow> (string \<Rightarrow> int) \<Rightarrow> registry \<Rightarrow> int \<Rightarrow> int \<Rightarrow> pyval dict \<Rightarrow> pyval dict option" where
  "sanitize_payload dumps bytes vs cap max_bytes payload =
     (if cap < MIN_KEY_CAP_CHARS then None
      else let sanitized = sanitize_items vs cap payload []; serialized = dumps (PDict sanitized)
        in if bytes serialized \<le> max_bytes then Some sanitized
           else Some [(''truncated'', PBool True), (''original_size_bytes'', PInt (bytes serialized)),
                      (''preview'', PStr (slice_to (max 256 (max_bytes div 16)) serialized @ TRUNCATION_MARKER))])"

section \<open>Every entry is kept\<close>

lemma first_free_form:
  "\<exists>m. first_free existing key cap n = numbered_key key cap m \<and> n \<le> m \<and> m \<le> n + card (taken_from existing key cap n)
     \<and> numbered_key key cap m \<notin> set existing \<and> (\<forall>k \<in> {n..<m}. numbered_key key cap k \<in> set existing)"
proof (induction existing key cap n rule: first_free.induct)
  case (1 existing key cap n)
  show ?case
  proof (cases "numbered_key key cap n \<in> set existing")
    case False
    then show ?thesis
      by (subst first_free.simps) auto
  next
    case True
    then obtain m where m: "first_free existing key cap (Suc n) = numbered_key key cap m" "Suc n \<le> m"
        "m \<le> Suc n + card (taken_from existing key cap (Suc n))" "numbered_key key cap m \<notin> set existing"
        "\<forall>k \<in> {Suc n..<m}. numbered_key key cap k \<in> set existing"
      using 1 by blast
    have "taken_from existing key cap n = insert n (taken_from existing key cap (Suc n))"
      using True by (auto simp: taken_from_def Suc_le_eq le_less)
    moreover have "n \<notin> taken_from existing key cap (Suc n)"
      by (simp add: taken_from_def)
    ultimately have "card (taken_from existing key cap n) = Suc (card (taken_from existing key cap (Suc n)))"
      using finite_taken by simp
    moreover have "{n..<m} = insert n {Suc n..<m}"
      using m(2) by auto
    ultimately show ?thesis
      using m True by (subst first_free.simps) (auto intro!: exI [of _ m])
  qed
qed

lemma unique_key_first:
  "\<exists>m. 2 \<le> m \<and> m \<le> 2 + length existing \<and> numbered_key key cap m \<notin> set existing
     \<and> (\<forall>k \<in> {2..<m}. numbered_key key cap k \<in> set existing)
     \<and> unique_bounded_key existing key cap = (if key \<notin> set existing then key else numbered_key key cap m)"
proof -
  obtain m where m: "first_free existing key cap 2 = numbered_key key cap m" "2 \<le> m"
      "m \<le> 2 + card (taken_from existing key cap 2)" "numbered_key key cap m \<notin> set existing"
      "\<forall>k \<in> {2..<m}. numbered_key key cap k \<in> set existing"
    using first_free_form [of existing key cap 2] by blast
  then have "m \<le> 2 + length existing"
    using card_taken [of existing key cap 2] by linarith
  with m show ?thesis
    by (auto simp: unique_bounded_key_def)
qed

text \<open>
  C37 (termination) The search for a free key ends: of a mapping with \<open>n\<close> keys it tries no more than \<open>n + 1\<close>
  numbers, and the key it returns is new: the given one, or else the one with the first number that is free.
\<close>

theorem unique_key_search_ends:
  "\<exists>m. 2 \<le> m \<and> m \<le> 2 + length existing \<and> numbered_key key cap m \<notin> set existing
     \<and> list_all (\<lambda>k. numbered_key key cap k \<in> set existing) [2..<m]
     \<and> unique_bounded_key existing key cap = (if key \<notin> set existing then key else numbered_key key cap m)"
  using unique_key_first [of existing key cap] by (simp add: list_all_iff)

lemma unique_key_fresh: "unique_bounded_key existing key cap \<notin> set existing"
  using unique_key_first [of existing key cap] by (auto split: if_splits)

text \<open>An upper bound for the length of a decimal number.\<close>

lemma show_nat_length: "n < 10 ^ d \<Longrightarrow> 0 < d \<Longrightarrow> length (show_nat n) \<le> d"
proof (induction d arbitrary: n)
  case (Suc d)
  show ?case
  proof (cases "n < 10")
    case False
    then have "n div 10 < 10 ^ d" "0 < d"
      using Suc.prems by (auto simp: less_mult_imp_div_less mult.commute intro: gr0I)
    then show ?thesis
      using Suc.IH False by (subst show_nat.simps) simp
  qed (subst show_nat.simps, simp)
qed simp

lemma slice_to_length: "0 \<le> n \<Longrightarrow> int (length (slice_to n s)) \<le> n"
  by (simp add: slice_to_def)

lemma truncate_string_length: "int (length TRUNCATION_MARKER) \<le> cap \<Longrightarrow> int (length (truncate_string cap s)) \<le> cap"
  using slice_to_length [of "cap - int (length TRUNCATION_MARKER)" s] by (simp add: truncate_string_def)

lemma numbered_key_length:
  assumes "MIN_KEY_CAP_CHARS \<le> cap" "m < 10 ^ 19"
  shows "int (length (numbered_key key cap m)) \<le> cap"
proof -
  have "length (show_nat m) \<le> 19"
    using show_nat_length [OF assms(2)] by simp
  then have "int (length (''#'' @ show_nat m)) \<le> cap"
    using assms(1) by (simp add: MIN_KEY_CAP_CHARS_def TRUNCATION_MARKER_def)
  then show ?thesis
    using slice_to_length [of "cap - int (length (''#'' @ show_nat m))" key] by (simp add: numbered_key_def Let_def)
qed

text \<open>Two values with the same structure: only strings and keys may differ.\<close>

fun same_shape :: "pyval \<Rightarrow> pyval \<Rightarrow> bool"
  and same_shapes :: "pyval list \<Rightarrow> pyval list \<Rightarrow> bool"
  and same_items :: "pyval dict \<Rightarrow> pyval dict \<Rightarrow> bool" where
  "same_shape (PStr s) w = (case w of PStr t \<Rightarrow> True | _ \<Rightarrow> False)"
| "same_shape (PList xs) w = (case w of PList ys \<Rightarrow> same_shapes xs ys | _ \<Rightarrow> False)"
| "same_shape (PDict d) w = (case w of PDict e \<Rightarrow> same_items d e | _ \<Rightarrow> False)"
| "same_shape v w = (w = v)"
| "same_shapes [] ys = (ys = [])"
| "same_shapes (x # xs) ys = (case ys of [] \<Rightarrow> False | y # zs \<Rightarrow> same_shape x y \<and> same_shapes xs zs)"
| "same_items [] e = (e = [])"
| "same_items ((k, v) # d) e = (case e of [] \<Rightarrow> False | (l, w) # f \<Rightarrow> same_shape v w \<and> same_items d f)"

lemma same_shapes_map: "(\<And>x. x \<in> set xs \<Longrightarrow> same_shape x (f x)) \<Longrightarrow> same_shapes xs (map f xs)"
  by (induction xs) auto

lemma sanitize_keeps:
  "same_shape v (sanitize_value vs cap v) \<and> wf_py (sanitize_value vs cap v)"
  "distinct (map fst acc) \<and> list_all (\<lambda>(k, v). wf_py v) acc \<Longrightarrow>
    \<exists>more. sanitize_items vs cap d acc = acc @ more \<and> same_items d more
      \<and> distinct (map fst (acc @ more)) \<and> list_all (\<lambda>(k, v). wf_py v) more"
proof (induction vs cap v and vs cap d acc rule: sanitize_value_sanitize_items.induct)
  case (2 vs cap d)
  then show ?case by (auto simp: list_all_iff)
next
  case (3 vs cap xs)
  then show ?case by (auto simp: list_all_iff intro: same_shapes_map)
next
  case (6 vs cap k v d acc)
  let ?entry = "(unique_bounded_key (map fst acc) (truncate_string cap (safe_text vs k)) cap, sanitize_value vs cap v)"
  have entry: "same_shape v (snd ?entry)" "wf_py (snd ?entry)" "fst ?entry \<notin> set (map fst acc)"
    using 6(1) unique_key_fresh [of "map fst acc" "truncate_string cap (safe_text vs k)" cap] by simp_all
  then have "distinct (map fst (acc @ [?entry])) \<and> list_all (\<lambda>(k, v). wf_py v) (acc @ [?entry])"
    using 6(3) by (simp add: list_all_append)
  then obtain more where more: "sanitize_items vs cap d (acc @ [?entry]) = (acc @ [?entry]) @ more"
      "same_items d more" "distinct (map fst ((acc @ [?entry]) @ more))" "list_all (\<lambda>(k, v). wf_py v) more"
    using 6(2) by blast
  then show ?case
    using entry by (intro exI [of _ "?entry # more"]) simp
qed simp_all

text \<open>
  C36 (type) Sanitizing loses no entry: the value keeps its structure, each mapping as many entries in the
  same order, under distinct keys, however redaction and truncation make keys collide.
\<close>

theorem sanitize_keeps_structure: "same_shape v (sanitize_value vs cap v) \<and> wf_py (sanitize_value vs cap v)"
  by (rule sanitize_keeps(1))

section \<open>What is stored is bounded and holds no secret\<close>

definition plain_secret :: "string \<Rightarrow> bool" where
  "plain_secret v \<longleftrightarrow> markable v \<and> CHR 0x85 \<notin> set v \<and> CHR ''#'' \<notin> set v \<and> \<not> is_infix v TRUNCATION_MARKER
     \<and> \<not> list_all ascii_digit v"

fun all_strings :: "(string \<Rightarrow> bool) \<Rightarrow> pyval \<Rightarrow> bool" where
  "all_strings P (PStr s) = P s"
| "all_strings P (PList xs) = list_all (all_strings P) xs"
| "all_strings P (PDict d) = list_all (\<lambda>(k, v). P k \<and> all_strings P v) d"
| "all_strings P v = True"

text \<open>No mapping with more entries than a number of nineteen digits can count.\<close>

fun countable_keys :: "pyval \<Rightarrow> bool" where
  "countable_keys (PList xs) = list_all countable_keys xs"
| "countable_keys (PDict d) = (int (length d) < 10 ^ 18 \<and> list_all (\<lambda>(k, v). countable_keys v) d)"
| "countable_keys v = True"

lemma infix_separated:
  assumes "is_infix u (xs @ c # ys)" "c \<notin> set u"
  shows "is_infix u xs \<or> is_infix u ys"
proof -
  have "is_infix u xs" if "u = us @ ws" "suffix us xs" "prefix ws (c # ys)" for us ws
    using that assms(2) by (cases ws) (auto simp: is_infix_sublist suffix_imp_sublist)
  moreover have "is_infix u xs \<or> is_infix u ys" if "sublist u (c # ys)"
    using that assms(2) by (auto simp: is_infix_sublist sublist_Cons_right prefix_Cons)
  ultimately show ?thesis
    using assms(1) by (auto simp: is_infix_sublist sublist_append)
qed

lemma infix_slice: "is_infix u (slice_to n s) \<Longrightarrow> is_infix u s"
  unfolding is_infix_sublist slice_to_def sublist_def by (metis append.assoc append_take_drop_id)

lemma safe_text_hides: "u \<in> set vs \<Longrightarrow> plain_secret u \<Longrightarrow> \<not> is_infix u (safe_text vs s)"
  by (simp add: safe_text_def redact_text_hides plain_secret_def)

lemma truncate_hides:
  assumes "plain_secret u" "\<not> is_infix u s"
  shows "\<not> is_infix u (truncate_string cap s)"
proof -
  have "\<not> is_infix u (slice_to n s @ TRUNCATION_MARKER)" for n
  proof
    assume "is_infix u (slice_to n s @ TRUNCATION_MARKER)"
    then have "is_infix u (slice_to n s) \<or> is_infix u ''[truncated]''"
      using infix_separated [of u "slice_to n s" "CHR 0x85" "''[truncated]''"] assms(1)
      by (auto simp: TRUNCATION_MARKER_def plain_secret_def)
    then show False
      using infix_slice assms by (auto simp: plain_secret_def TRUNCATION_MARKER_def)
  qed
  then show ?thesis
    using assms(2) by (simp add: truncate_string_def)
qed

lemma numbered_hides:
  assumes "plain_secret u" "\<not> is_infix u key"
  shows "\<not> is_infix u (numbered_key key cap n)"
proof
  assume "is_infix u (numbered_key key cap n)"
  then have "is_infix u key \<or> is_infix u (show_nat n)"
    using infix_separated [of u _ "CHR ''#''" "show_nat n"] infix_slice assms(1)
    by (auto simp: numbered_key_def Let_def plain_secret_def)
  moreover have "list_all ascii_digit u" if "is_infix u (show_nat n)"
    using that show_nat_digits set_mono_sublist by (fastforce simp: is_infix_sublist list_all_iff ascii_digit_def)
  ultimately show False
    using assms by (auto simp: plain_secret_def)
qed

text \<open>A stored string: within the cap, and without the secret.\<close>

definition stored_ok :: "string \<Rightarrow> int \<Rightarrow> string \<Rightarrow> bool" where
  "stored_ok u cap s \<longleftrightarrow> int (length s) \<le> cap \<and> \<not> is_infix u s"

lemma stored_text:
  assumes "u \<in> set vs" "plain_secret u" "MIN_KEY_CAP_CHARS \<le> cap"
  shows "stored_ok u cap (truncate_string cap (safe_text vs s))"
  using assms truncate_hides [OF assms(2) safe_text_hides [OF assms(1,2)]]
  by (simp add: stored_ok_def truncate_string_length MIN_KEY_CAP_CHARS_def)

lemma stored_key:
  assumes "plain_secret u" "MIN_KEY_CAP_CHARS \<le> cap" "stored_ok u cap key"
    and "int (length existing) < 10 ^ 18"
  shows "stored_ok u cap (unique_bounded_key existing key cap)"
proof -
  obtain m where m: "m \<le> 2 + length existing"
      "unique_bounded_key existing key cap = (if key \<notin> set existing then key else numbered_key key cap m)"
    using unique_key_first by blast
  then have "m < 10 ^ 19"
    using assms(4) by simp
  then show ?thesis
    using assms m(2) numbered_key_length numbered_hides by (simp add: stored_ok_def)
qed

lemma sanitize_stored:
  assumes "u \<in> set vs" "plain_secret u" "MIN_KEY_CAP_CHARS \<le> cap"
  shows "countable_keys v \<Longrightarrow> all_strings (stored_ok u cap) (sanitize_value vs cap v)"
    and "int (length acc + length d) < 10 ^ 18 \<Longrightarrow> list_all (\<lambda>(k, v). countable_keys v) d \<Longrightarrow>
      list_all (\<lambda>(k, v). stored_ok u cap k \<and> all_strings (stored_ok u cap) v) acc \<Longrightarrow>
      list_all (\<lambda>(k, v). stored_ok u cap k \<and> all_strings (stored_ok u cap) v) (sanitize_items vs cap d acc)"
  using assms
proof (induction vs cap v and vs cap d acc rule: sanitize_value_sanitize_items.induct)
  case (1 vs cap s)
  then show ?case by (simp add: stored_text)
next
  case (3 vs cap xs)
  then show ?case by (simp add: list_all_iff)
next
  case (6 vs cap k v d acc)
  have "stored_ok u cap (unique_bounded_key (map fst acc) (truncate_string cap (safe_text vs k)) cap)"
    using 6(3) by (intro stored_key stored_text 6(6,7,8)) simp_all
  with 6 show ?case
    by (simp add: list_all_append)
qed simp_all

text \<open>
  C35 (safety) What is stored of a payload. It is refused only for a cap too small for a key. If the sanitized
  document fits, it is stored, and every string and key of it is within the cap and free of a registered
  secret: neither the marker, nor truncation, nor a collision number brings it back. If it does not fit, what is
  stored instead is a notice with a preview: the beginning of the serialization of such a document, of a
  bounded length. (A serialization escapes characters, so of the preview itself the theorem only says
  this.) The secret has no bracket, ellipsis or number sign, is not a part of a marker and not a number; on the
  other secrets there is no condition. No mapping of the payload has \<open>10 ^ 18\<close> entries.
\<close>

theorem sanitized_is_bounded_and_clean:
  assumes "u \<in> set vs" "plain_secret u" "countable_keys (PDict payload)"
  shows "case sanitize_payload dumps bytes vs cap max_bytes payload of
      None \<Rightarrow> cap < MIN_KEY_CAP_CHARS
    | Some stored \<Rightarrow> MIN_KEY_CAP_CHARS \<le> cap \<and>
        (\<exists>sanitized. sanitize_value vs cap (PDict payload) = PDict sanitized
           \<and> all_strings (stored_ok u cap) (PDict sanitized)
           \<and> (if bytes (dumps (PDict sanitized)) \<le> max_bytes then stored = sanitized
              else \<exists>preview. prefix preview (dumps (PDict sanitized)) \<and> int (length preview) \<le> max 256 (max_bytes div 16)
                     \<and> stored = [(''truncated'', PBool True),
                                 (''original_size_bytes'', PInt (bytes (dumps (PDict sanitized)))),
                                 (''preview'', PStr (preview @ TRUNCATION_MARKER))]))"
proof (cases "cap < MIN_KEY_CAP_CHARS")
  case True
  then show ?thesis
    by (simp add: sanitize_payload_def)
next
  case False
  have "prefix (slice_to (max 256 n) s) s \<and> int (length (slice_to (max 256 n) s)) \<le> max 256 n" for n s
    using slice_to_length [of "max 256 n" s] by (simp add: slice_to_def take_is_prefix)
  moreover have "all_strings (stored_ok u cap) (PDict (sanitize_items vs cap payload []))"
    using sanitize_stored(1) [OF assms(1,2) _ assms(3), of cap] False by simp
  ultimately show ?thesis
    using False by (auto simp: sanitize_payload_def Let_def)
qed

text \<open>A password as a key and in a text, beside a secret with brackets; the serialization is taken to fit.\<close>

definition login_form :: "pyval dict" where
  "login_form = [(''hunter'', PStr ''the password is hunter''), (''[REDACTED]'', PInt 1)]"

theorem sanitized_is_bounded_and_clean_witness:
  "all_strings (stored_ok ''hunter'' 20) (PDict (sanitize_items [''hunter'', ''[x]''] 20 login_form []))"
proof -
  have "plain_secret ''hunter''" "countable_keys (PDict login_form)"
    by code_simp+
  then show ?thesis
    using sanitized_is_bounded_and_clean [of "''hunter''" "[''hunter'', ''[x]'']" login_form 20,
        where dumps = "\<lambda>v. []" and bytes = "\<lambda>s. 0" and max_bytes = 9]
    by (simp add: sanitize_payload_def MIN_KEY_CAP_CHARS_def TRUNCATION_MARKER_def)
qed

end
