(* ===== verification/SandboxOutput.thy ===== *)
theory SandboxOutput
  imports RedactionSnapshot
begin

text \<open>
  The output of a job, \<open>_capture_stream\<close> and \<open>_sanitize\<close> of \<open>services/sandbox_runner/src/jhin_sandbox_runner/jobs.py\<close>,
  and the tail the connectors keep of it, \<open>packages/connectors/src/jhin_connectors/cli/output.py\<close>: one bounded raw
  tail per stream, published only redacted.
\<close>

section \<open>Bounded tails\<close>

text \<open>\<open>s[-n:]\<close>, which is all of \<open>s\<close> for \<open>n = 0\<close>\<close>

definition tail_slice :: "nat \<Rightarrow> 'a list \<Rightarrow> 'a list" where
  "tail_slice n s = (if n = 0 then s else drop (length s - n) s)"

definition utf8_length :: "string \<Rightarrow> nat" where
  "utf8_length s = sum_list (map (\<lambda>c. if ord c < 128 then 1 else 2) s)"

text \<open>
  \<open>s.encode()[-n:].decode(errors="ignore")\<close>: the longest end of \<open>s\<close> that fits, as the half of a character the
  cut may leave at the start is ignored
\<close>

fun utf8_tail :: "nat \<Rightarrow> string \<Rightarrow> string" where
  "utf8_tail n [] = []"
| "utf8_tail n (c # cs) = (if utf8_length (c # cs) \<le> n then c # cs else utf8_tail n cs)"

definition RUNNER_TRUNCATION :: string where
  "RUNNER_TRUNCATION = newline # CHR 0x85 # ''[truncated by sandbox runner]''"

definition sanitize_output :: "registry \<Rightarrow> nat \<Rightarrow> string \<Rightarrow> string \<times> bool" where
  "sanitize_output vs max_bytes s =
     (let redacted = redact_text vs s
      in if utf8_length redacted \<le> max_bytes then (redacted, False)
         else ((if max_bytes = 0 then redacted else utf8_tail max_bytes redacted) @ RUNNER_TRUNCATION, True))"

section \<open>Capture\<close>

record capture =
  cp_raw :: string
  cp_clipped :: bool
  cp_text :: string
  cp_truncated :: bool

definition max_chars :: "registry \<Rightarrow> nat \<Rightarrow> nat" where
  "max_chars vs max_bytes = max_bytes + max_secret_length vs"

definition publish :: "registry \<Rightarrow> nat \<Rightarrow> capture \<Rightarrow> capture" where
  "publish vs max_bytes c =
     (case sanitize_output vs max_bytes (redact_partial_text vs (cp_clipped c) (cp_raw c)) of
        (s, truncated) \<Rightarrow> c\<lparr>cp_text := s, cp_truncated := cp_clipped c \<or> truncated\<rparr>)"

definition take_chunk :: "registry \<Rightarrow> nat \<Rightarrow> string \<Rightarrow> capture \<Rightarrow> capture" where
  "take_chunk vs max_bytes chunk c =
     (let raw = cp_raw c @ chunk; n = max_chars vs max_bytes
      in publish vs max_bytes
           (if n < length raw then c\<lparr>cp_raw := tail_slice n raw, cp_clipped := True\<rparr> else c\<lparr>cp_raw := raw\<rparr>))"

text \<open>How reading a stream ends: at its end, by cancellation or by an error of the log connection.\<close>

datatype stream_end = EndOfFile | CaptureCancelled | CaptureFailed

definition capture_stream :: "registry \<Rightarrow> nat \<Rightarrow> string list \<Rightarrow> stream_end \<Rightarrow> capture" where
  "capture_stream vs max_bytes chunks ending =
     (let c = fold (take_chunk vs max_bytes) chunks
                \<lparr>cp_raw = [], cp_clipped = False, cp_text = [], cp_truncated = False\<rparr>
      in case ending of
           EndOfFile \<Rightarrow> publish vs max_bytes c
         | _ \<Rightarrow> c\<lparr>cp_truncated := True\<rparr>)"

definition sanitized_output_tail :: "registry \<Rightarrow> nat \<Rightarrow> string \<Rightarrow> string" where
  "sanitized_output_tail vs cap s =
     (let marker = (if ends_with s RUNNER_TRUNCATION then RUNNER_TRUNCATION else []);
          body = take (length s - length marker) s;
          safe = map (\<lambda>c. if c = CHR 0x00 then CHR ''?'' else c) (redact_partial_text vs True body);
          room = cap - length marker
      in (if room = 0 then [] else tail_slice room safe) @ marker)"

section \<open>Capture does not depend on the chunks\<close>

lemma publish_raw [simp]: "cp_raw (publish vs n c) = cp_raw c" "cp_clipped (publish vs n c) = cp_clipped c"
  by (simp_all add: publish_def split: prod.split)

lemma tail_slice_length: "0 < n \<Longrightarrow> length (tail_slice n s) = min n (length s)"
  by (auto simp: tail_slice_def)

lemma tail_slice_append: "0 < n \<Longrightarrow> tail_slice n (tail_slice n s @ t) = tail_slice n (s @ t)"
  by (cases "length s \<le> n") (auto simp: tail_slice_def add.commute)

lemma tail_slice_short: "length s \<le> n \<Longrightarrow> tail_slice n s = s"
  by (simp add: tail_slice_def)

text \<open>The raw tail and its flag describe what was read so far.\<close>

definition describes :: "registry \<Rightarrow> nat \<Rightarrow> string \<Rightarrow> capture \<Rightarrow> bool" where
  "describes vs n s c \<longleftrightarrow>
     cp_raw c = tail_slice (max_chars vs n) s \<and> cp_clipped c = (max_chars vs n < length s)"

lemma describes_chunk:
  assumes "0 < max_chars vs n" "describes vs n s c"
  shows "describes vs n (s @ chunk) (take_chunk vs n chunk c)"
proof (cases "max_chars vs n < length (cp_raw c @ chunk)")
  case True
  then have "max_chars vs n < length (s @ chunk)"
    using assms by (auto simp: describes_def tail_slice_length split: if_splits)
  with True assms show ?thesis
    by (simp add: describes_def take_chunk_def Let_def tail_slice_append)
next
  case False
  then have "length s \<le> max_chars vs n" if "chunk \<noteq> [] \<or> \<not> max_chars vs n < length s"
    using that assms by (auto simp: describes_def tail_slice_length)
  then show ?thesis
    using False assms
    by (cases "chunk = []") (auto simp: describes_def take_chunk_def Let_def tail_slice_short)
qed

lemma describes_chunks:
  assumes "0 < max_chars vs n" "describes vs n s c"
  shows "describes vs n (s @ concat chunks) (fold (take_chunk vs n) chunks c)"
  using assms(2)
proof (induction chunks arbitrary: s c)
  case (Cons chunk chunks)
  then show ?case
    using Cons.IH [of "s @ chunk"] describes_chunk [OF assms(1)] by simp
qed simp

text \<open>
  C34 (equivalence) The published output of a stream that ended is what redacting and bounding the last characters
  of the whole stream gives, and it is marked truncated exactly when something was cut: how the log was delivered
  in chunks does not show, although only one bounded tail is ever held.
\<close>

theorem capture_is_redacted_tail:
  assumes "0 < max_chars vs max_bytes"
  shows "(let s = concat chunks; c = capture_stream vs max_bytes chunks EndOfFile;
              out = sanitize_output vs max_bytes
                      (redact_partial_text vs (max_chars vs max_bytes < length s) (tail_slice (max_chars vs max_bytes) s))
          in cp_text c = fst out \<and> cp_truncated c = (max_chars vs max_bytes < length s \<or> snd out)
             \<and> length (cp_raw c) \<le> max_chars vs max_bytes)"
proof -
  let ?c = "\<lparr>cp_raw = [], cp_clipped = False, cp_text = [], cp_truncated = False\<rparr>"
  have "describes vs max_bytes [] ?c"
    by (simp add: describes_def tail_slice_def)
  then have "describes vs max_bytes (concat chunks) (fold (take_chunk vs max_bytes) chunks ?c)"
    using describes_chunks [OF assms(1)] by fastforce
  then show ?thesis
    using assms(1) tail_slice_length [of "max_chars vs max_bytes" "concat chunks"]
    by (simp add: capture_stream_def publish_def describes_def Let_def split: prod.split)
qed

theorem capture_is_redacted_tail_witness:
  "length (cp_raw (capture_stream [''hunter''] 12 [''hello hun'', ''ter world''] EndOfFile)) \<le> 18"
  using capture_is_redacted_tail [of "[''hunter'']" 12 "[''hello hun'', ''ter world'']"]
  by (simp add: max_chars_def max_secret_length_def Let_def)

end
