(* ===== verification/WorkingTime.thy ===== *)
theory WorkingTime
  imports Prelude Complex_Main
begin

text \<open>
  The thinking time of a run, \<open>packages/domain/src/jhin_domain/timing.py\<close>: the life of a run less the waits for
  a person. An instant is a number of microseconds, the resolution of a \<open>datetime\<close>. The source adds the
  stretches as floating-point seconds: a float is the rational it stands for, and every operation rounds to the
  nearest double. The exact walk over microseconds beside it is the reference the properties compare it with.
\<close>

record wait =
  wt_started :: int
  wt_ended :: "int option"

record thinking_time =
  tt_since :: "int option"
  tt_seconds :: int

type_synonym wait_interval = "int \<times> int option"

section \<open>Doubles\<close>

definition round_half_even :: "rat \<Rightarrow> int" where
  "round_half_even r =
     (let f = \<lfloor>r\<rfloor>; d = r - of_int f
      in if d < 1 / 2 then f else if 1 / 2 < d then f + 1 else if even f then f else f + 1)"

text \<open>
  The double nearest to a number of seconds that is zero or at least a microsecond (so more than
  \<open>2 ^ - 20\<close>), and less than \<open>2 ^ 53\<close>: so many bits after the point that 53 are significant.
\<close>

function bit_count :: "int \<Rightarrow> nat" where
  "bit_count k = (if k \<le> 0 then 0 else Suc (bit_count (k div 2)))"
  by auto

termination
  by (relation "measure nat") auto

declare bit_count.simps [simp del]

definition fraction_bits :: "rat \<Rightarrow> nat" where
  "fraction_bits q = 73 - bit_count \<lfloor>q * 1048576\<rfloor>"

definition double :: "rat \<Rightarrow> rat" where
  "double q = of_int (round_half_even (q * 2 ^ fraction_bits q)) / 2 ^ fraction_bits q"

text \<open>\<open>timedelta.total_seconds\<close>, and \<open>int\<close> of a float\<close>

definition total_seconds :: "int \<Rightarrow> rat" where
  "total_seconds delta = double (of_int delta / 1000000)"

definition truncated :: "rat \<Rightarrow> int" where
  "truncated x = (if x < 0 then \<lceil>x\<rceil> else \<lfloor>x\<rfloor>)"

section \<open>The walk\<close>

definition whole_seconds :: "rat \<Rightarrow> int" where
  "whole_seconds banked = max 0 (truncated (double (banked + 1 / 2)))"

text \<open>The span of one wait within the life of the run, if it has one.\<close>

definition wait_span :: "int \<Rightarrow> int option \<Rightarrow> wait \<Rightarrow> wait_interval option" where
  "wait_span started ended w =
     (if (case wt_ended w of Some e \<Rightarrow> e \<le> started | None \<Rightarrow> False) then None
      else let start = max (wt_started w) started
        in if (case ended of Some f \<Rightarrow> f \<le> start | None \<Rightarrow> False) then None
           else Some (start, case wt_ended w of
                               None \<Rightarrow> None
                             | Some e \<Rightarrow> Some (case ended of Some f \<Rightarrow> if f < e then f else e | None \<Rightarrow> e)))"

text \<open>The walk over the spans: the cursor it ends at, or \<open>None\<close> at a wait that is still open.\<close>

fun walk_waits :: "wait_interval list \<Rightarrow> int \<Rightarrow> rat \<Rightarrow> int option \<times> rat" where
  "walk_waits [] cursor banked = (Some cursor, banked)"
| "walk_waits ((start, stop) # spans) cursor banked =
     (if (case stop of Some e \<Rightarrow> e \<le> cursor | None \<Rightarrow> False) then walk_waits spans cursor banked
      else let banked = (if cursor < start then double (banked + total_seconds (start - cursor)) else banked)
        in case stop of
             None \<Rightarrow> (None, banked)
           | Some e \<Rightarrow> walk_waits spans (max cursor e) banked)"

definition working_time :: "int option \<Rightarrow> wait list \<Rightarrow> int option \<Rightarrow> thinking_time" where
  "working_time started_at waits ended =
     (case started_at of
        None \<Rightarrow> \<lparr>tt_since = None, tt_seconds = 0\<rparr>
      | Some started \<Rightarrow>
          if (case ended of Some f \<Rightarrow> f \<le> started | None \<Rightarrow> False) then \<lparr>tt_since = None, tt_seconds = 0\<rparr>
          else case walk_waits (sort_key fst (List.map_filter (wait_span started ended) waits)) started 0 of
                 (None, banked) \<Rightarrow> \<lparr>tt_since = None, tt_seconds = whole_seconds banked\<rparr>
               | (Some cursor, banked) \<Rightarrow>
                   (case ended of
                      Some f \<Rightarrow> \<lparr>tt_since = None,
                                  tt_seconds = whole_seconds (if cursor < f then double (banked + total_seconds (f - cursor)) else banked)\<rparr>
                    | None \<Rightarrow> \<lparr>tt_since = Some cursor, tt_seconds = whole_seconds banked\<rparr>))"

section \<open>The exact walk\<close>

text \<open>The same walk, adding microseconds.\<close>

fun walk_micros :: "wait_interval list \<Rightarrow> int \<Rightarrow> int \<Rightarrow> int option \<times> int" where
  "walk_micros [] cursor banked = (Some cursor, banked)"
| "walk_micros ((start, stop) # spans) cursor banked =
     (if (case stop of Some e \<Rightarrow> e \<le> cursor | None \<Rightarrow> False) then walk_micros spans cursor banked
      else let banked = (if cursor < start then banked + (start - cursor) else banked)
        in case stop of
             None \<Rightarrow> (None, banked)
           | Some e \<Rightarrow> walk_micros spans (max cursor e) banked)"

section \<open>The instants of a run that are not spent waiting\<close>

definition inside :: "int \<Rightarrow> wait_interval \<Rightarrow> bool" where
  "inside t p \<longleftrightarrow> fst p \<le> t \<and> (case snd p of Some e \<Rightarrow> t < e | None \<Rightarrow> True)"

definition parked :: "wait list \<Rightarrow> int \<Rightarrow> bool" where
  "parked waits t \<longleftrightarrow> (\<exists>w \<in> set waits. inside t (wt_started w, wt_ended w))"

definition thinking :: "int \<Rightarrow> int option \<Rightarrow> wait list \<Rightarrow> int set" where
  "thinking started ended waits =
     {t. started \<le> t \<and> (case ended of Some f \<Rightarrow> t < f | None \<Rightarrow> True) \<and> \<not> parked waits t}"

definition forward :: "wait_interval \<Rightarrow> bool" where
  "forward p \<longleftrightarrow> (case snd p of Some e \<Rightarrow> fst p \<le> e | None \<Rightarrow> True)"

definition free_from :: "wait_interval list \<Rightarrow> int \<Rightarrow> int set" where
  "free_from spans cursor = {t. cursor \<le> t \<and> (\<forall>p \<in> set spans. \<not> inside t p)}"

lemma free_from_past:
  "e \<le> cursor \<Longrightarrow> free_from ((start, Some e) # spans) cursor = free_from spans cursor"
  by (auto simp: free_from_def inside_def)

lemma free_from_open:
  assumes "\<forall>p \<in> set spans. start \<le> fst p"
  shows "free_from ((start, None) # spans) cursor = {cursor..<start}"
  using assms by (auto simp: free_from_def inside_def)

lemma free_from_closed:
  assumes "\<forall>p \<in> set spans. start \<le> fst p" "start \<le> e" "cursor < e"
  shows "free_from ((start, Some e) # spans) cursor = {cursor..<start} \<union> free_from spans e"
  using assms by (auto simp: free_from_def inside_def)

text \<open>What the exact walk banks are the free instants it passes.\<close>

lemma walk_micros_spec:
  assumes "sorted (map fst spans)" "\<forall>p \<in> set spans. forward p"
    and "walk_micros spans cursor banked = (r, b)"
  shows "case r of
       None \<Rightarrow> finite (free_from spans cursor) \<and> b = banked + int (card (free_from spans cursor))
         \<and> (\<exists>start. (start, None) \<in> set spans)
     | Some c \<Rightarrow> cursor \<le> c \<and> b = banked + int (card (free_from spans cursor \<inter> {..<c}))
         \<and> {c..} \<subseteq> free_from spans cursor \<and> (\<forall>p \<in> set spans. snd p \<noteq> None)
         \<and> (c = cursor \<or> (\<exists>start. (start, Some c) \<in> set spans))"
  using assms
proof (induction spans cursor banked arbitrary: r b rule: walk_micros.induct)
  case (1 cursor banked)
  moreover have "free_from [] cursor \<inter> {..<cursor} = {}"
    by (auto simp: free_from_def)
  ultimately show ?case by (auto simp: free_from_def)
next
  case (2 start stop spans cursor banked)
  have later: "\<forall>p \<in> set spans. start \<le> fst p" "sorted (map fst spans)" "\<forall>p \<in> set spans. forward p"
    using 2(3,4) by auto
  show ?case
  proof (cases stop)
    case None
    with 2(5) show ?thesis
      by (auto simp: free_from_open [OF later(1)])
  next
    case (Some e)
    show ?thesis
    proof (cases "e \<le> cursor")
      case True
      then have "walk_micros spans cursor banked = (r, b)"
        using 2(5) Some by simp
      from 2(1) [OF _ later(2,3) this] True Some show ?thesis
        by (auto simp: free_from_past split: option.splits)
    next
      case False
      let ?banked = "if cursor < start then banked + (start - cursor) else banked"
      have walk: "walk_micros spans (max cursor e) ?banked = (r, b)"
        using 2(5) Some False by (simp add: Let_def)
      have "start \<le> e"
        using 2(4) Some by (simp add: forward_def)
      then have free: "free_from ((start, Some e) # spans) cursor = {cursor..<start} \<union> free_from spans e"
        using False later(1) by (simp add: free_from_closed)
      have apart: "{cursor..<start} \<inter> free_from spans e = {}"
        using \<open>start \<le> e\<close> by (auto simp: free_from_def)
      have gap: "?banked = banked + int (card {cursor..<start})"
        by simp
      have e: "max cursor e = e"
        using False by simp
      have IH: "case r of
         None \<Rightarrow> finite (free_from spans e) \<and> b = ?banked + int (card (free_from spans e))
           \<and> (\<exists>start. (start, None) \<in> set spans)
       | Some c \<Rightarrow> e \<le> c \<and> b = ?banked + int (card (free_from spans e \<inter> {..<c}))
           \<and> {c..} \<subseteq> free_from spans e \<and> (\<forall>p \<in> set spans. snd p \<noteq> None)
           \<and> (c = e \<or> (\<exists>start. (start, Some c) \<in> set spans))"
        using 2(2) [OF _ refl Some later(2,3) walk] False Some unfolding e by fastforce
      show ?thesis
      proof (cases r)
        case None
        with IH show ?thesis
          unfolding Some free gap using apart by (auto simp: card_Un_disjoint)
      next
        case (Some c)
        then have c: "e \<le> c" "b = ?banked + int (card (free_from spans e \<inter> {..<c}))"
          using IH by auto
        have "({cursor..<start} \<union> free_from spans e) \<inter> {..<c} = {cursor..<start} \<union> (free_from spans e \<inter> {..<c})"
          using c(1) \<open>start \<le> e\<close> by auto
        moreover have "finite (free_from spans e \<inter> {..<c})"
          by (rule finite_subset [of _ "{e..<c}"]) (auto simp: free_from_def)
        moreover have "{cursor..<start} \<inter> (free_from spans e \<inter> {..<c}) = {}"
          using apart by auto
        ultimately have "int (card (({cursor..<start} \<union> free_from spans e) \<inter> {..<c}))
            = int (card {cursor..<start}) + int (card (free_from spans e \<inter> {..<c}))"
          by (simp add: card_Un_disjoint)
        with IH Some c False show ?thesis
          unfolding \<open>stop = Some e\<close> free gap by auto
      qed
    qed
  qed
qed

text \<open>The spans of the walk are the waits within the life of the run.\<close>

lemma wait_span_inside:
  assumes "started \<le> t" "case ended of Some f \<Rightarrow> t < f | None \<Rightarrow> True"
  shows "(\<exists>p. wait_span started ended w = Some p \<and> inside t p) \<longleftrightarrow> inside t (wt_started w, wt_ended w)"
  using assms by (auto simp: wait_span_def inside_def Let_def split: option.splits if_splits)

lemma wait_span_within:
  assumes "wait_span started ended w = Some p" "forward (wt_started w, wt_ended w)"
  shows "forward p \<and> started \<le> fst p \<and> (snd p = None \<longleftrightarrow> wt_ended w = None)
    \<and> (case ended of Some f \<Rightarrow> fst p < f \<and> (case snd p of Some e \<Rightarrow> e \<le> f | None \<Rightarrow> True) | None \<Rightarrow> True)"
proof -
  obtain m where m: "max (wt_started w) started = m" "started \<le> m" "m = started \<or> m = wt_started w"
    by (cases "wt_started w \<le> started") auto
  show ?thesis
  proof (cases "wt_ended w")
    case None
    then show ?thesis
      using assms m(2) by (cases ended) (auto simp: wait_span_def Let_def m(1) forward_def split: if_splits)
  next
    case (Some e)
    then have e: "started < e" "m \<le> e"
      using assms m(3) by (auto simp: wait_span_def forward_def split: if_splits)
    show ?thesis
    proof (cases ended)
      case None
      with assms(1) Some e m(1,2) show ?thesis
        by (auto simp: wait_span_def forward_def)
    next
      case (Some f)
      have "p = (m, Some (if f < e then f else e))" "m < f"
        using assms(1) Some \<open>wt_ended w = Some e\<close> e(1) unfolding wait_span_def Let_def m(1)
        by (auto split: if_splits)
      with Some \<open>wt_ended w = Some e\<close> m(2) e(2) show ?thesis
        by (simp add: forward_def)
    qed
  qed
qed

definition spans_of :: "int \<Rightarrow> int option \<Rightarrow> wait list \<Rightarrow> wait_interval list" where
  "spans_of started ended waits = sort_key fst (List.map_filter (wait_span started ended) waits)"

lemma set_spans_of:
  "p \<in> set (spans_of started ended waits) \<longleftrightarrow> (\<exists>w \<in> set waits. wait_span started ended w = Some p)"
  by (force simp: spans_of_def List.map_filter_def)

lemma free_fromD: "t \<in> free_from spans cursor \<Longrightarrow> cursor \<le> t"
  by (simp add: free_from_def)

lemma free_spans_of:
  assumes "started \<le> t" "case ended of Some f \<Rightarrow> t < f | None \<Rightarrow> True"
  shows "t \<in> free_from (spans_of started ended waits) started \<longleftrightarrow> \<not> parked waits t"
proof -
  have "(\<exists>p \<in> set (spans_of started ended waits). inside t p) \<longleftrightarrow> parked waits t"
    unfolding parked_def Bex_def set_spans_of using wait_span_inside [OF assms] by metis
  then show ?thesis
    using assms(1) by (auto simp: free_from_def)
qed

section \<open>Thinking time\<close>

lemma spans_of_within:
  assumes "p \<in> set (spans_of started ended waits)" "\<forall>w \<in> set waits. forward (wt_started w, wt_ended w)"
  shows "forward p \<and> started \<le> fst p \<and> (snd p = None \<longrightarrow> (\<exists>w \<in> set waits. wt_ended w = None))
    \<and> (case ended of Some f \<Rightarrow> fst p < f \<and> (case snd p of Some e \<Rightarrow> e \<le> f | None \<Rightarrow> True) | None \<Rightarrow> True)"
proof -
  from assms(1) obtain w where w: "w \<in> set waits" "wait_span started ended w = Some p"
    unfolding set_spans_of by blast
  with assms(2) wait_span_within [OF w(2)] show ?thesis
    by auto
qed

lemma walk_spans_of:
  assumes "\<forall>w \<in> set waits. forward (wt_started w, wt_ended w)"
    and "walk_micros (spans_of started ended waits) started 0 = (r, b)"
  shows "case r of
       None \<Rightarrow> finite (free_from (spans_of started ended waits) started)
         \<and> b = int (card (free_from (spans_of started ended waits) started))
         \<and> (\<exists>start. (start, None) \<in> set (spans_of started ended waits))
     | Some c \<Rightarrow> started \<le> c \<and> b = int (card (free_from (spans_of started ended waits) started \<inter> {..<c}))
         \<and> {c..} \<subseteq> free_from (spans_of started ended waits) started
         \<and> (\<forall>p \<in> set (spans_of started ended waits). snd p \<noteq> None)
         \<and> (c = started \<or> (\<exists>start. (start, Some c) \<in> set (spans_of started ended waits)))"
proof -
  have "\<forall>p \<in> set (spans_of started ended waits). forward p"
    using spans_of_within [OF _ assms(1)] by blast
  moreover have "sorted (map fst (spans_of started ended waits))"
    by (simp add: spans_of_def)
  ultimately show ?thesis
    using walk_micros_spec [OF _ _ assms(2)] by (cases r) simp_all
qed

text \<open>The instant since which the clock ticks, and the microseconds of thinking before it, exactly.\<close>

definition working_micros :: "int \<Rightarrow> wait list \<Rightarrow> int option \<Rightarrow> int option \<times> int" where
  "working_micros started waits ended =
     (case walk_micros (spans_of started ended waits) started 0 of
        (None, banked) \<Rightarrow> (None, banked)
      | (Some cursor, banked) \<Rightarrow>
          (case ended of
             Some f \<Rightarrow> (None, if cursor < f then banked + (f - cursor) else banked)
           | None \<Rightarrow> (Some cursor, banked)))"

definition thinking_spec :: "int \<Rightarrow> wait list \<Rightarrow> int option \<Rightarrow> int option \<times> int \<Rightarrow> bool" where
  "thinking_spec started waits ended t \<longleftrightarrow>
     (let counted = thinking started (case fst t of Some c \<Rightarrow> Some c | None \<Rightarrow> ended) waits
      in finite counted \<and> snd t = int (card counted)
         \<and> (fst t = None \<longleftrightarrow> ended \<noteq> None \<or> (\<exists>w \<in> set waits. wt_ended w = None))
         \<and> (case fst t of Some c \<Rightarrow> started \<le> c \<and> {c..} \<inter> Collect (parked waits) = {} | None \<Rightarrow> True))"

lemma working_micros_running:
  assumes "\<forall>w \<in> set waits. forward (wt_started w, wt_ended w)"
  shows "thinking_spec started waits None (working_micros started waits None)"
proof -
  let ?spans = "spans_of started None waits"
  obtain r b where walk: "walk_micros ?spans started 0 = (r, b)"
    by (cases "walk_micros ?spans started 0")
  note spec = walk_spans_of [OF assms walk]
  have free: "free_from ?spans started = thinking started None waits"
    using free_spans_of [of started _ None waits] by (auto simp: thinking_def free_from_def)
  have open_span: "\<exists>start. (start, None) \<in> set ?spans" if "w \<in> set waits" "wt_ended w = None" for w
    using that unfolding set_spans_of by (force simp: wait_span_def)
  show ?thesis
  proof (cases r)
    case None
    then obtain s where "(s, None) \<in> set ?spans"
      using spec by auto
    then have "\<exists>w \<in> set waits. wt_ended w = None"
      using spans_of_within [OF _ assms] by auto
    then show ?thesis
      using None walk spec free by (auto simp: thinking_spec_def working_micros_def Let_def)
  next
    case (Some c)
    then have "thinking started None waits \<inter> {..<c} = thinking started (Some c) waits"
      by (auto simp: thinking_def)
    moreover have "finite (thinking started (Some c) waits)"
      by (rule finite_subset [of _ "{started..<c}"]) (auto simp: thinking_def)
    moreover have "{c..} \<inter> Collect (parked waits) = {}"
      using spec Some free by (auto simp: thinking_def)
    moreover have "\<not> (\<exists>w \<in> set waits. wt_ended w = None)"
    proof
      assume "\<exists>w \<in> set waits. wt_ended w = None"
      then obtain s where "(s, None) \<in> set ?spans"
        using open_span by blast
      then show False
        using spec Some by fastforce
    qed
    ultimately show ?thesis
      using walk spec free Some by (simp add: thinking_spec_def working_micros_def)
  qed
qed

lemma working_micros_over:
  assumes "\<forall>w \<in> set waits. forward (wt_started w, wt_ended w)" "started < f"
  shows "thinking_spec started waits (Some f) (working_micros started waits (Some f))"
proof -
  let ?spans = "spans_of started (Some f) waits"
  obtain r b where walk: "walk_micros ?spans started 0 = (r, b)"
    by (cases "walk_micros ?spans started 0")
  note spec = walk_spans_of [OF assms(1) walk]
  have form: "working_micros started waits (Some f) = (None, case r of Some c \<Rightarrow> if c < f then b + (f - c) else b | None \<Rightarrow> b)"
    using walk by (simp add: working_micros_def split: option.splits)
  have free: "free_from ?spans started \<inter> {..<f} = thinking started (Some f) waits"
  proof (rule set_eqI)
    fix t
    show "t \<in> free_from ?spans started \<inter> {..<f} \<longleftrightarrow> t \<in> thinking started (Some f) waits"
      using free_spans_of [of started t "Some f" waits] free_fromD [of t ?spans started]
      by (cases "started \<le> t"; cases "t < f") (auto simp: thinking_def)
  qed
  have fin: "finite (thinking started (Some f) waits)"
    by (rule finite_subset [of _ "{started..<f}"]) (auto simp: thinking_def)
  have "int (card (thinking started (Some f) waits)) = (case r of Some c \<Rightarrow> if c < f then b + (f - c) else b | None \<Rightarrow> b)"
  proof (cases r)
    case None
    then obtain s where s: "(s, None) \<in> set ?spans"
      using spec by auto
    then have "free_from ?spans started \<subseteq> {..<f}"
      using spans_of_within [OF s assms(1)] by (force simp: free_from_def inside_def)
    then show ?thesis
      using None spec free by (auto simp: Int_absorb2)
  next
    case (Some c)
    then have c: "c \<le> f" "{c..} \<subseteq> free_from ?spans started"
      using spec assms(2) spans_of_within [OF _ assms(1)] by fastforce+
    have "free_from ?spans started \<inter> {..<f} = (free_from ?spans started \<inter> {..<c}) \<union> {c..<f}"
      using c by auto
    moreover have "finite (free_from ?spans started \<inter> {..<c})"
      by (rule finite_subset [of _ "{started..<c}"]) (auto simp: free_from_def)
    moreover have "(free_from ?spans started \<inter> {..<c}) \<inter> {c..<f} = {}"
      by auto
    ultimately have "card (thinking started (Some f) waits) = card (free_from ?spans started \<inter> {..<c}) + card {c..<f}"
      unfolding free [symmetric] by (metis card_Un_disjoint finite_atLeastLessThan_int)
    moreover have "b = int (card (free_from ?spans started \<inter> {..<c}))"
      using spec Some by simp
    ultimately show ?thesis
      using Some c(1) by simp
  qed
  then show ?thesis
    using form fin by (simp add: thinking_spec_def)
qed

section \<open>Rounding\<close>

lemma round_half_even_error: "\<bar>of_int (round_half_even r) - r\<bar> \<le> 1 / 2"
proof -
  have "of_int \<lfloor>r\<rfloor> \<le> r" "r < of_int \<lfloor>r\<rfloor> + 1"
    by linarith+
  then show ?thesis
    by (auto simp: round_half_even_def Let_def abs_le_iff)
qed

lemma round_half_even_nonneg: "0 \<le> r \<Longrightarrow> 0 \<le> round_half_even r"
  by (auto simp: round_half_even_def Let_def)

lemma bit_count_le: "k < 2 ^ n \<Longrightarrow> bit_count k \<le> n"
proof (induction n arbitrary: k)
  case (Suc n)
  then show ?case
    using Suc.IH [of "k div 2"] by (subst bit_count.simps) auto
qed (subst bit_count.simps, simp)

lemma fraction_bits_ge:
  assumes "q < 4294967296"
  shows "21 \<le> fraction_bits q"
proof -
  have "\<lfloor>q * 1048576\<rfloor> < 2 ^ 52"
    using assms by (simp add: floor_less_iff)
  then have "bit_count \<lfloor>q * 1048576\<rfloor> \<le> 52"
    by (rule bit_count_le)
  then show ?thesis
    by (simp add: fraction_bits_def)
qed

text \<open>Below \<open>2 ^ 32\<close> seconds, over a hundred years, one rounding is less than a quarter of a microsecond off.\<close>

lemma double_error:
  assumes "0 \<le> q" "q < 4294967296"
  shows "\<bar>double q - q\<bar> \<le> 1 / 4194304" "0 \<le> double q"
proof -
  define n where "n = fraction_bits q"
  have "double q - q = (of_int (round_half_even (q * 2 ^ n)) - q * 2 ^ n) / 2 ^ n"
    by (simp add: double_def n_def field_simps)
  then have "\<bar>double q - q\<bar> = \<bar>of_int (round_half_even (q * 2 ^ n)) - q * 2 ^ n\<bar> / 2 ^ n"
    by (simp add: abs_divide)
  also have "\<dots> \<le> (1 / 2) / 2 ^ n"
    by (intro divide_right_mono round_half_even_error) simp
  also have "\<dots> \<le> (1 / 2) / (2097152 :: rat)"
  proof -
    have "(2 :: rat) ^ 21 \<le> 2 ^ n"
      using fraction_bits_ge [OF assms(2)] by (intro power_increasing) (simp_all add: n_def)
    then show ?thesis
      by (intro divide_left_mono) simp_all
  qed
  finally show "\<bar>double q - q\<bar> \<le> 1 / 4194304"
    by simp
  show "0 \<le> double q"
    using assms(1) round_half_even_nonneg [of "q * 2 ^ n"] by (simp add: double_def n_def)
qed

text \<open>The bound of a life: \<open>2 ^ 31\<close> seconds; and of what was banked after \<open>n\<close> stretches.\<close>

definition LIFE :: int where
  "LIFE = 2 ^ 31 * 1000000"

definition close :: "nat \<Rightarrow> rat \<Rightarrow> int \<Rightarrow> bool" where
  "close n x m \<longleftrightarrow> 0 \<le> x \<and> \<bar>x - of_int m / 1000000\<bar> \<le> of_nat n / 2097152"

lemma close_mono: "close n x m \<Longrightarrow> n \<le> k \<Longrightarrow> close k x m"
proof -
  assume "close n x m" "n \<le> k"
  moreover have "of_nat n / (2097152 :: rat) \<le> of_nat k / 2097152"
    using \<open>n \<le> k\<close> by (intro divide_right_mono) simp_all
  ultimately show ?thesis
    by (auto simp: close_def)
qed

lemma micros_bound: "m \<le> LIFE \<Longrightarrow> of_int m / 1000000 \<le> (2147483648 :: rat)"
proof -
  assume "m \<le> LIFE"
  then have "(of_int m :: rat) \<le> of_int LIFE"
    by (simp only: of_int_le_iff)
  then show ?thesis
    by (simp add: LIFE_def)
qed

lemma nats_bound: "n \<le> 2 ^ 30 \<Longrightarrow> of_nat n / 2097152 \<le> (512 :: rat)"
proof -
  assume "n \<le> 2 ^ 30"
  then have "(of_nat n :: rat) \<le> of_nat (2 ^ 30)"
    by (simp only: of_nat_le_iff)
  then show ?thesis
    by simp
qed

lemma close_add:
  assumes "close n x m" "0 \<le> m" "0 \<le> d" "m + d \<le> LIFE" "Suc n \<le> 2 ^ 30"
  shows "close (Suc n) (double (x + total_seconds d)) (m + d)"
proof -
  define D M where "D = (of_int d / 1000000 :: rat)" and "M = (of_int m / 1000000 :: rat)"
  define e where "e = (of_nat n / 2097152 :: rat)"
  have D: "0 \<le> D" "0 \<le> M" "M + D \<le> 2147483648"
    using assms(2-4) micros_bound [of "m + d"] by (simp_all add: D_def M_def add_divide_distrib)
  then have "\<bar>total_seconds d - D\<bar> \<le> 1 / 4194304" "0 \<le> total_seconds d"
    using double_error [of D] by (simp_all add: total_seconds_def D_def)
  moreover have x: "0 \<le> x" "\<bar>x - M\<bar> \<le> e" "e \<le> 512"
    using assms(1,5) nats_bound [of n] by (simp_all only: close_def e_def M_def)
  ultimately have s: "0 \<le> x + total_seconds d" "\<bar>x + total_seconds d - (M + D)\<bar> \<le> e + 1 / 4194304"
      "x + total_seconds d < 4294967296"
    using D by linarith+
  have "\<bar>double (x + total_seconds d) - (M + D)\<bar> \<le> e + 1 / 2097152"
    using double_error(1) [OF s(1,3)] s(2) by linarith
  then show ?thesis
    using double_error(2) [OF s(1,3)]
    by (simp only: close_def M_def D_def e_def of_nat_Suc of_int_add add_divide_distrib) (simp add: algebra_simps)
qed

definition within_life :: "int \<Rightarrow> wait_interval \<Rightarrow> bool" where
  "within_life started p \<longleftrightarrow> forward p \<and> fst p \<le> started + LIFE \<and> (case snd p of Some e \<Rightarrow> e \<le> started + LIFE | None \<Rightarrow> True)"

text \<open>The walk of the program goes the way of the exact one, within a rounding or two for every stretch.\<close>

lemma walk_waits_close:
  assumes "close n x m" "0 \<le> m" "m \<le> cursor - started" "cursor \<le> started + LIFE" "n + length spans \<le> 2 ^ 30"
    and "\<forall>p \<in> set spans. within_life started p"
  shows "\<exists>r y b. walk_waits spans cursor x = (r, y) \<and> walk_micros spans cursor m = (r, b)
    \<and> close (n + length spans) y b \<and> 0 \<le> b \<and> b \<le> (case r of Some c \<Rightarrow> c - started | None \<Rightarrow> LIFE)
    \<and> (case r of Some c \<Rightarrow> c \<le> started + LIFE | None \<Rightarrow> True)"
  using assms
proof (induction spans arbitrary: n x m cursor)
  case Nil
  then show ?case by simp
next
  case (Cons p spans)
  obtain start stop where p: "p = (start, stop)"
    by fastforce
  have later: "\<forall>p \<in> set spans. within_life started p" "start \<le> started + LIFE"
    using Cons.prems(6) p by (auto simp: within_life_def)
  show ?case
  proof (cases "case stop of Some e \<Rightarrow> e \<le> cursor | None \<Rightarrow> False")
    case True
    then have "walk_waits (p # spans) cursor x = walk_waits spans cursor x"
      "walk_micros (p # spans) cursor m = walk_micros spans cursor m"
      by (simp_all add: p)
    then show ?thesis
      using Cons.IH [OF Cons.prems(1-4) _ later(1)] Cons.prems(5)
      by (fastforce intro: close_mono [of "n + length spans" _ _ "Suc (n + length spans)"])
  next
    case False
    define x' where "x' = (if cursor < start then double (x + total_seconds (start - cursor)) else x)"
    define m' where "m' = (if cursor < start then m + (start - cursor) else m)"
    have c: "close (Suc n) x' m'"
      using close_add [OF Cons.prems(1,2), of "start - cursor"] close_mono [OF Cons.prems(1), of "Suc n"]
        Cons.prems(3,5) later(2) by (auto simp: x'_def m'_def)
    have m': "0 \<le> m'" "m' \<le> max cursor start - started"
      using Cons.prems(2,3) by (auto simp: m'_def)
    show ?thesis
    proof (cases stop)
      case None
      moreover have "m' \<le> LIFE"
        using m'(2) Cons.prems(4) later(2) by linarith
      moreover have "close (n + length (p # spans)) x' m'"
        by (rule close_mono [OF c]) simp
      ultimately show ?thesis
        using False p m'(1) by (auto simp: Let_def x'_def m'_def)
    next
      case (Some e)
      then have e: "start \<le> e" "e \<le> started + LIFE"
        using Cons.prems(6) p by (auto simp: within_life_def forward_def)
      then have "m' \<le> max cursor e - started" "max cursor e \<le> started + LIFE"
        using m'(2) Cons.prems(4) by linarith+
      from Cons.IH [OF c m'(1) this _ later(1)] Cons.prems(5)
      show ?thesis
        using Some False p by (auto simp: Let_def x'_def m'_def)
    qed
  qed
qed

section \<open>Seconds\<close>

lemma truncated_nonneg: "0 \<le> x \<Longrightarrow> 0 \<le> truncated x \<and> of_int (truncated x) \<le> x \<and> x < of_int (truncated x) + 1"
  using floor_correct [of x] by (simp add: truncated_def)

lemma whole_seconds_error:
  assumes "close n x m" "m \<le> LIFE" "n \<le> 2 ^ 30"
  shows "\<bar>of_int (whole_seconds x) - of_int m / 1000000\<bar> \<le> 1 / 2 + of_nat (Suc n) / (2097152 :: rat)"
proof -
  define M where "M = (of_int m / 1000000 :: rat)"
  define e where "e = (of_nat n / 2097152 :: rat)"
  have x: "0 \<le> x" "\<bar>x - M\<bar> \<le> e" "e \<le> 512" "M \<le> 2147483648"
    using assms micros_bound [of m] nats_bound [of n] by (simp_all only: close_def e_def M_def)
  then have x': "0 \<le> x + 1 / 2" "x + 1 / 2 < 4294967296"
    by linarith+
  define y where "y = double (x + 1 / 2)"
  have y: "\<bar>y - (x + 1 / 2)\<bar> \<le> 1 / 4194304" "0 \<le> y"
    using double_error [OF x'] by (simp_all only: y_def)
  have "whole_seconds x = truncated y"
    using truncated_nonneg [OF y(2)] by (simp add: whole_seconds_def y_def)
  then have "\<bar>of_int (whole_seconds x) - M\<bar> \<le> 1 / 2 + (e + 1 / 2097152)"
    using truncated_nonneg [OF y(2)] x(2) y(1) by linarith
  then show ?thesis
    by (simp add: M_def e_def add_divide_distrib algebra_simps)
qed

lemma spans_within_life:
  assumes "\<forall>w \<in> set waits. within_life started (wt_started w, wt_ended w)" "p \<in> set (spans_of started ended waits)"
  shows "within_life started p"
proof -
  obtain w where w: "w \<in> set waits" "wait_span started ended w = Some p"
    using assms(2) unfolding set_spans_of by blast
  have "forward p"
    using wait_span_within [OF w(2)] assms(1) w(1) by (simp add: within_life_def)
  moreover have "0 \<le> LIFE"
    by (simp add: LIFE_def)
  ultimately show ?thesis
    using w assms(1) by (auto simp: within_life_def wait_span_def Let_def split: if_splits option.splits)
qed

lemma length_spans_of: "length (spans_of started ended waits) \<le> length waits"
  by (simp add: spans_of_def List.map_filter_def)

text \<open>The program's answer: the exact instant, and the seconds within half a second and the roundings.\<close>

lemma working_time_tracks:
  assumes "\<forall>w \<in> set waits. within_life started (wt_started w, wt_ended w)" "length waits < 2 ^ 30"
    and "case ended of Some f \<Rightarrow> started < f \<and> f \<le> started + LIFE | None \<Rightarrow> True"
  shows "tt_since (working_time (Some started) waits ended) = fst (working_micros started waits ended)
    \<and> \<bar>of_int (tt_seconds (working_time (Some started) waits ended)) - of_int (snd (working_micros started waits ended)) / 1000000\<bar>
        \<le> 1 / 2 + of_nat (length waits + 2) / (2097152 :: rat)"
proof -
  let ?spans = "spans_of started ended waits" and ?n = "length (spans_of started ended waits)"
  have "close 0 0 0" "\<forall>p \<in> set ?spans. within_life started p" "?n \<le> 2 ^ 30" "0 \<le> LIFE"
    using spans_within_life [OF assms(1)] length_spans_of [of started ended waits] assms(2)
    by (simp_all add: close_def LIFE_def)
  then obtain r y b where walk: "walk_waits ?spans started 0 = (r, y)" "walk_micros ?spans started 0 = (r, b)"
      "close ?n y b" "0 \<le> b" "b \<le> (case r of Some c \<Rightarrow> c - started | None \<Rightarrow> LIFE)"
      "case r of Some c \<Rightarrow> c \<le> started + LIFE | None \<Rightarrow> True"
    using walk_waits_close [of 0 0 0 started started ?spans] by auto
  have n: "Suc ?n \<le> Suc (length waits)" "Suc (length waits) \<le> 2 ^ 30"
    using length_spans_of assms(2) by auto
  have "\<exists>z m. tt_seconds (working_time (Some started) waits ended) = whole_seconds z
      \<and> working_micros started waits ended = (tt_since (working_time (Some started) waits ended), m)
      \<and> close (Suc ?n) z m \<and> m \<le> LIFE"
  proof (cases r)
    case None
    then show ?thesis
      using walk assms(3) close_mono [OF walk(3), of "Suc ?n"]
      by (auto simp: working_time_def working_micros_def spans_of_def [symmetric] split: option.splits)
  next
    case (Some c)
    show ?thesis
    proof (cases ended)
      case None
      with Some walk close_mono [OF walk(3), of "Suc ?n"] show ?thesis
        by (auto simp: working_time_def working_micros_def spans_of_def [symmetric])
    next
      case (Some f)
      have "close (Suc ?n) (double (y + total_seconds (f - c))) (b + (f - c))" if "c < f"
        using close_add [OF walk(3,4), of "f - c"] that \<open>r = Some c\<close> walk(5) assms(3) Some n by auto
      with Some \<open>r = Some c\<close> walk close_mono [OF walk(3), of "Suc ?n"] assms(3) show ?thesis
        by (auto simp: working_time_def working_micros_def spans_of_def [symmetric])
    qed
  qed
  then obtain z m where zm: "tt_seconds (working_time (Some started) waits ended) = whole_seconds z"
      "working_micros started waits ended = (tt_since (working_time (Some started) waits ended), m)"
      "close (Suc (length waits)) z m" "m \<le> LIFE"
    using close_mono n(1) by metis
  from whole_seconds_error [OF zm(3,4) n(2)] zm(1,2) show ?thesis
    by simp
qed

text \<open>
  C19 (equivalence) The seconds a run has been thinking are the microseconds of its life at which no wait was open,
  to the nearest second up to floating-point error: waits that overlap count once, waits before or after the run
  not at all, and the roundings of the sum add less than half a microsecond for every wait (and two more). A clock
  is left ticking exactly when the run has not ended and no wait is open, from an instant since which there was no
  wait; what came before is counted. No wait ends before it begins, and all stamps are within \<open>2 ^ 31\<close> seconds
  of the start.
\<close>

theorem working_time_is_unparked:
  assumes "\<forall>w \<in> set waits. within_life started (wt_started w, wt_ended w)" "length waits < 2 ^ 30"
    and "case ended of Some f \<Rightarrow> started < f \<and> f \<le> started + LIFE | None \<Rightarrow> True"
  shows "(let t = working_time (Some started) waits ended;
              counted = thinking started (case tt_since t of Some c \<Rightarrow> Some c | None \<Rightarrow> ended) waits
          in finite counted
             \<and> \<bar>of_int (tt_seconds t) - of_nat (card counted) / 1000000\<bar> \<le> 1 / 2 + of_nat (length waits + 2) / (2097152 :: rat)
             \<and> (tt_since t = None \<longleftrightarrow> ended \<noteq> None \<or> (\<exists>w \<in> set waits. wt_ended w = None))
             \<and> (case tt_since t of Some c \<Rightarrow> started \<le> c \<and> {c..} \<inter> Collect (parked waits) = {} | None \<Rightarrow> True))"
proof -
  have forward: "\<forall>w \<in> set waits. forward (wt_started w, wt_ended w)"
    using assms(1) by (auto simp: within_life_def)
  have "thinking_spec started waits ended (working_micros started waits ended)"
    using working_micros_running [OF forward] working_micros_over [OF forward] assms(3) by (cases ended) simp_all
  with working_time_tracks [OF assms] show ?thesis
    by (simp add: thinking_spec_def Let_def)
qed

text \<open>Stretches of 1.541, 2.678 and 0.281 seconds are 4.5 in all; the sum of the doubles is less, and the answer 4.\<close>

definition short_waits :: "wait list" where
  "short_waits = [\<lparr>wt_started = 1541000, wt_ended = Some 2000000\<rparr>, \<lparr>wt_started = 4678000, wt_ended = Some 5000000\<rparr>]"

theorem working_time_is_unparked_witness:
  "working_time (Some 0) short_waits (Some 5281000) = \<lparr>tt_since = None, tt_seconds = 4\<rparr>
   \<and> \<bar>4 - of_nat (card (thinking 0 (Some 5281000) short_waits)) / 1000000\<bar> \<le> 1 / 2 + 4 / (2097152 :: rat)"
proof -
  define banked where "banked = snd (walk_waits [(1541000, Some 2000000), (4678000, Some 5000000)] 0 0)"
  have "sort_key fst (List.map_filter (wait_span 0 (Some 5281000)) short_waits)
      = [(1541000, Some 2000000), (4678000, Some 5000000)]"
    by code_simp
  moreover have "fst (walk_waits [(1541000, Some 2000000), (4678000, Some 5000000)] 0 0) = Some 5000000"
    by code_simp
  then have "walk_waits [(1541000, Some 2000000), (4678000, Some 5000000)] 0 0 = (Some 5000000, banked)"
    by (simp only: banked_def prod_eq_iff fst_conv snd_conv simp_thms)
  moreover have "whole_seconds (double (banked + total_seconds (5281000 - 5000000))) = 4"
    unfolding banked_def by code_simp
  ultimately have answer: "working_time (Some 0) short_waits (Some 5281000) = \<lparr>tt_since = None, tt_seconds = 4\<rparr>"
    by (simp add: working_time_def)
  have "\<forall>w \<in> set short_waits. within_life 0 (wt_started w, wt_ended w)" "length short_waits < 2 ^ 30"
    "case Some 5281000 of Some f \<Rightarrow> 0 < f \<and> f \<le> 0 + LIFE | None \<Rightarrow> True" "length short_waits = 2"
    by (simp_all add: short_waits_def within_life_def forward_def LIFE_def)
  then show ?thesis
    using working_time_is_unparked [of short_waits 0 "Some 5281000"] answer by (simp add: Let_def)
qed

end
