(* ===== verification/ApiScopes.thy ===== *)
theory ApiScopes
  imports PyValue
begin

text \<open>
  The scopes of API keys and the ceiling rule, \<open>packages/domain/src/jhin_domain/scopes.py\<close>, over the workspace
  roles of \<open>packages/domain/src/jhin_domain/enums.py\<close>. Labels and descriptions, which are only shown, are left
  out. A \<open>frozenset\<close> of scopes is a list here, read by membership.
\<close>

datatype workspace_role = VIEWER | MEMBER | ADMIN | OWNER

fun role_order :: "workspace_role \<Rightarrow> nat" where
  "role_order VIEWER = 0"
| "role_order MEMBER = 1"
| "role_order ADMIN = 2"
| "role_order OWNER = 3"

fun role_value :: "workspace_role \<Rightarrow> string" where
  "role_value VIEWER = ''viewer''"
| "role_value MEMBER = ''member''"
| "role_value ADMIN = ''admin''"
| "role_value OWNER = ''owner''"

definition role_satisfies :: "workspace_role \<Rightarrow> workspace_role \<Rightarrow> bool" where
  "role_satisfies actual required \<longleftrightarrow> role_order required \<le> role_order actual"

record scope_definition =
  sd_key :: string
  sd_category :: string
  sd_action :: string
  sd_min_role :: workspace_role

definition WILDCARD_ACTION :: string where
  "WILDCARD_ACTION = ''*''"

definition CATEGORIES :: "string list" where
  "CATEGORIES =
     [
      ''workspace'', ''members'', ''agents'', ''teams'', ''chats'', ''tasks'', ''runs'', ''apps'',
      ''variables'', ''automations'', ''skills'', ''personas'', ''memories'', ''approvals'', ''reviews'',
      ''models'', ''spend'', ''audit'', ''api_keys'']"

definition SCOPE_ROWS :: "(string \<times> string \<times> workspace_role) list" where
  "SCOPE_ROWS =
     [
      (''variables'', ''read'', ADMIN), (''variables'', ''write'', ADMIN), (''workspace'', ''read'', VIEWER),
      (''workspace'', ''settings'', ADMIN), (''members'', ''read'', VIEWER), (''members'', ''write'', ADMIN),
      (''agents'', ''read'', VIEWER), (''agents'', ''write'', ADMIN), (''agents'', ''admin'', ADMIN),
      (''teams'', ''read'', VIEWER), (''teams'', ''write'', ADMIN), (''chats'', ''read'', VIEWER),
      (''chats'', ''write'', MEMBER), (''tasks'', ''read'', VIEWER), (''tasks'', ''write'', MEMBER),
      (''runs'', ''read'', VIEWER), (''apps'', ''read'', ADMIN), (''apps'', ''write'', ADMIN),
      (''automations'', ''read'', VIEWER), (''automations'', ''write'', ADMIN), (''skills'', ''read'', VIEWER),
      (''skills'', ''write'', ADMIN), (''personas'', ''read'', VIEWER), (''personas'', ''write'', ADMIN),
      (''memories'', ''read'', VIEWER), (''memories'', ''write'', MEMBER), (''memories'', ''admin'', ADMIN),
      (''approvals'', ''read'', VIEWER), (''approvals'', ''decide'', MEMBER), (''reviews'', ''read'', VIEWER),
      (''reviews'', ''decide'', MEMBER), (''reviews'', ''write'', ADMIN), (''models'', ''read'', ADMIN),
      (''models'', ''write'', ADMIN), (''spend'', ''read'', VIEWER), (''audit'', ''read'', ADMIN),
      (''api_keys'', ''read'', VIEWER), (''api_keys'', ''write'', VIEWER)]"

definition SCOPES :: "scope_definition list" where
  "SCOPES =
     map (\<lambda>(category, action, min_role).
            \<lparr>sd_key = category @ '':'' @ action, sd_category = category, sd_action = action, sd_min_role = min_role\<rparr>)
       SCOPE_ROWS"

definition ALL_SCOPE_KEYS :: "string list" where
  "ALL_SCOPE_KEYS = map sd_key SCOPES"

definition category_scopes :: "string \<Rightarrow> scope_definition list option" where
  "category_scopes category =
     (if category \<in> set CATEGORIES then Some (filter (\<lambda>s. sd_category s = category) SCOPES) else None)"

definition GRANTABLE_SCOPE_KEYS :: "string list" where
  "GRANTABLE_SCOPE_KEYS = ALL_SCOPE_KEYS @ map (\<lambda>category. category @ '':'' @ WILDCARD_ACTION) CATEGORIES"

definition is_known_scope :: "string \<Rightarrow> bool" where
  "is_known_scope s \<longleftrightarrow> s \<in> set GRANTABLE_SCOPE_KEYS"

definition expand_entry :: "pyval \<Rightarrow> string list" where
  "expand_entry entry =
     (case entry of
        PStr s \<Rightarrow>
          (let candidate = strip s in
           if candidate \<in> set ALL_SCOPE_KEYS then [candidate]
           else (case partition_on CHR '':'' candidate of
                   (category, separator, action) \<Rightarrow>
                     if separator \<and> action = WILDCARD_ACTION
                     then (case category_scopes category of Some scopes \<Rightarrow> map sd_key scopes | None \<Rightarrow> [])
                     else []))
      | _ \<Rightarrow> [])"

definition expand_scopes :: "pyval \<Rightarrow> string list" where
  "expand_scopes scopes = (case scopes of PList entries \<Rightarrow> remdups (concat (map expand_entry entries)) | _ \<Rightarrow> [])"

definition scopes_for_role :: "workspace_role \<Rightarrow> string list" where
  "scopes_for_role role = map sd_key (filter (\<lambda>s. role_satisfies role (sd_min_role s)) SCOPES)"

definition effective_scopes :: "pyval \<Rightarrow> workspace_role \<Rightarrow> string list" where
  "effective_scopes granted role_ceiling =
     filter (\<lambda>s. s \<in> set (scopes_for_role role_ceiling)) (expand_scopes granted)"

definition scopes_above_role :: "pyval \<Rightarrow> workspace_role \<Rightarrow> string list" where
  "scopes_above_role granted role =
     (let allowed = scopes_for_role role;
          explicit = (case granted of
                        PList entries \<Rightarrow>
                          filter (\<lambda>s. s \<in> set ALL_SCOPE_KEYS)
                            (concat (map (\<lambda>e. case e of PStr s \<Rightarrow> [strip s] | _ \<Rightarrow> []) entries))
                      | _ \<Rightarrow> [])
      in sort (remdups (filter (\<lambda>s. s \<notin> set allowed) explicit)))"

section \<open>The ceiling\<close>

lemma role_satisfies_refl [simp]: "role_satisfies r r"
  by (simp add: role_satisfies_def)

lemma role_satisfies_trans: "role_satisfies a b \<Longrightarrow> role_satisfies b c \<Longrightarrow> role_satisfies a c"
  by (simp add: role_satisfies_def)

lemma role_satisfies_linear: "\<not> role_satisfies a b \<Longrightarrow> role_satisfies b a"
  by (simp add: role_satisfies_def)

lemma role_satisfies_antisym: "role_satisfies a b \<Longrightarrow> role_satisfies b a \<Longrightarrow> a = b"
  by (cases a; cases b) (simp_all add: role_satisfies_def)

lemma satisfies_owner [simp]: "role_satisfies r OWNER \<longleftrightarrow> r = OWNER"
  by (cases r) (simp_all add: role_satisfies_def)

lemma scopes_for_role_mono: "role_satisfies a b \<Longrightarrow> set (scopes_for_role b) \<subseteq> set (scopes_for_role a)"
  by (auto simp: scopes_for_role_def intro: role_satisfies_trans)

lemma scopes_for_role_known: "set (scopes_for_role r) \<subseteq> set ALL_SCOPE_KEYS"
  by (auto simp: scopes_for_role_def ALL_SCOPE_KEYS_def)

lemma effective_within: "set (effective_scopes g r) \<subseteq> set (scopes_for_role r)"
  by (auto simp: effective_scopes_def)

lemma scope_keys_stripped: "list_all (\<lambda>k. strip k = k) ALL_SCOPE_KEYS"
  by (simp add: ALL_SCOPE_KEYS_def SCOPES_def SCOPE_ROWS_def strip_def strip_by_def py_isspace_def)

lemma expand_known_entry: "k \<in> set ALL_SCOPE_KEYS \<Longrightarrow> expand_entry (PStr k) = [k]"
  using scope_keys_stripped unfolding list_all_iff by (simp add: expand_entry_def Let_def)

lemma expand_known:
  assumes "set ks \<subseteq> set ALL_SCOPE_KEYS"
  shows "set (expand_scopes (PList (map PStr ks))) = set ks"
proof -
  have "map expand_entry (map PStr ks) = map (\<lambda>k. [k]) ks"
    using assms expand_known_entry by (induction ks) auto
  then show ?thesis
    by (simp add: expand_scopes_def)
qed

text \<open>The capped scopes of a key, once stored, mean themselves.\<close>

lemma effective_stored:
  "set (effective_scopes (PList (map PStr (sort (effective_scopes g r)))) q)
     = set (effective_scopes g r) \<inter> set (scopes_for_role q)"
proof -
  have "set (expand_scopes (PList (map PStr (sort (effective_scopes g r))))) = set (sort (effective_scopes g r))"
    using effective_within [of g r] scopes_for_role_known [of r] by (intro expand_known) (simp add: subset_trans)
  then show ?thesis
    by (auto simp: effective_scopes_def)
qed

end
