(* ===== verification/Workspaces.thy ===== *)
theory Workspaces
  imports ApiScopes
begin

text \<open>
  Accounts, workspaces, memberships and invitations: \<open>apps/api/src/jhin_api/workspaces/service.py\<close>,
  \<open>apps/api/src/jhin_api/access/invitations.py\<close>, the bootstrap of \<open>auth/service.py\<close> and the password policy of
  \<open>security/passwords.py\<close>, over the tables of \<open>packages/db/src/jhin_db/models\<close>. An operation is one transaction:
  it returns the database it commits, or the error it raises and then commits nothing. Names, slugs, settings,
  audit rows and the starter content of a workspace are left out. Instants are microseconds.
\<close>

section \<open>The tables\<close>

record account =
  ac_id :: string
  ac_email :: string
  ac_active :: bool

record membership =
  mb_id :: string
  mb_workspace :: string
  mb_user :: string
  mb_role :: workspace_role

record invitation =
  iv_id :: string
  iv_workspace :: string
  iv_email :: string
  iv_role :: workspace_role
  iv_token_hash :: string
  iv_invited_by :: "string option"
  iv_expires_at :: int
  iv_accepted_at :: "int option"
  iv_accepted_user :: "string option"
  iv_revoked_at :: "int option"

record api_key =
  ky_id :: string
  ky_workspace :: string
  ky_name :: string
  ky_prefix :: string
  ky_hash :: string
  ky_created_by :: "string option"
  ky_ceiling :: workspace_role
  ky_scopes :: "string list"
  ky_expires_at :: "int option"
  ky_last_used :: "int option"
  ky_revoked_at :: "int option"

record access_db =
  db_users :: "account list"
  db_workspaces :: "string list"
  db_members :: "membership list"
  db_invitations :: "invitation list"
  db_keys :: "api_key list"

text \<open>An \<open>HTTPException\<close> with its status and detail, a body the schema refuses, or a constraint of a table.\<close>

datatype access_error = Http nat string | InvalidPayload | IntegrityError

text \<open>Primary keys and unique columns refuse a second row.\<close>

definition insert_user :: "account \<Rightarrow> access_db \<Rightarrow> access_error + access_db" where
  "insert_user row db =
     (if list_ex (\<lambda>u. ac_id u = ac_id row \<or> ac_email u = ac_email row) (db_users db) then Inl IntegrityError
      else Inr (db\<lparr>db_users := db_users db @ [row]\<rparr>))"

definition insert_workspace :: "string \<Rightarrow> access_db \<Rightarrow> access_error + access_db" where
  "insert_workspace w db =
     (if w \<in> set (db_workspaces db) then Inl IntegrityError
      else Inr (db\<lparr>db_workspaces := db_workspaces db @ [w]\<rparr>))"

definition insert_member :: "membership \<Rightarrow> access_db \<Rightarrow> access_error + access_db" where
  "insert_member row db =
     (if list_ex (\<lambda>m. mb_id m = mb_id row \<or> (mb_workspace m = mb_workspace row \<and> mb_user m = mb_user row)) (db_members db)
      then Inl IntegrityError
      else Inr (db\<lparr>db_members := db_members db @ [row]\<rparr>))"

definition insert_invitation :: "invitation \<Rightarrow> access_db \<Rightarrow> access_error + access_db" where
  "insert_invitation row db =
     (if list_ex (\<lambda>i. iv_id i = iv_id row \<or> iv_token_hash i = iv_token_hash row) (db_invitations db)
      then Inl IntegrityError
      else Inr (db\<lparr>db_invitations := db_invitations db @ [row]\<rparr>))"

definition insert_key :: "api_key \<Rightarrow> access_db \<Rightarrow> access_error + access_db" where
  "insert_key row db =
     (if list_ex (\<lambda>k. ky_id k = ky_id row \<or> ky_prefix k = ky_prefix row) (db_keys db) then Inl IntegrityError
      else Inr (db\<lparr>db_keys := db_keys db @ [row]\<rparr>))"

definition user_by_id :: "access_db \<Rightarrow> string \<Rightarrow> account option" where
  "user_by_id db uid = find (\<lambda>u. ac_id u = uid) (db_users db)"

definition user_by_email :: "access_db \<Rightarrow> string \<Rightarrow> account option" where
  "user_by_email db email = find (\<lambda>u. ac_email u = email) (db_users db)"

definition member_of :: "access_db \<Rightarrow> string \<Rightarrow> string \<Rightarrow> membership option" where
  "member_of db w uid = find (\<lambda>m. mb_workspace m = w \<and> mb_user m = uid) (db_members db)"

section \<open>Who is asking\<close>

text \<open>\<open>ApiKeyPrincipal\<close> and \<open>WorkspaceContext\<close>\<close>

record key_principal =
  kp_id :: string
  kp_workspace :: string
  kp_ceiling :: workspace_role
  kp_scopes :: "string list"

record workspace_context =
  wc_user :: string
  wc_workspace :: string
  wc_role :: workspace_role
  wc_key :: "key_principal option"

definition require_authority_over :: "workspace_context \<Rightarrow> workspace_role list \<Rightarrow> access_error option" where
  "require_authority_over ctx roles =
     (if OWNER \<in> set roles \<and> wc_role ctx \<noteq> OWNER
      then Some (Http 403 ''Only an owner can grant or modify the owner role'') else None)"

definition require_authority_to_modify :: "workspace_context \<Rightarrow> membership \<Rightarrow> access_error option" where
  "require_authority_to_modify ctx m =
     (if mb_user m = wc_user ctx then None
      else if mb_role m \<in> {ADMIN, OWNER} \<and> wc_role ctx \<noteq> OWNER
      then Some (Http 403 (''Only an owner can change or remove an '' @ role_value (mb_role m))) else None)"

section \<open>Members\<close>

text \<open>\<open>str.lower\<close> on the code points below 256\<close>

definition py_lower :: "string \<Rightarrow> string" where
  "py_lower s =
     map (\<lambda>c. if ascii_upper c \<or> (192 \<le> ord c \<and> ord c \<le> 222 \<and> ord c \<noteq> 215) then char_of (ord c + 32) else c) s"

definition normalize_email :: "string \<Rightarrow> string" where
  "normalize_email email = py_lower (strip email)"

definition get_membership :: "access_db \<Rightarrow> string \<Rightarrow> string \<Rightarrow> access_error + membership" where
  "get_membership db w mid =
     (case find (\<lambda>m. mb_id m = mid \<and> mb_workspace m = w) (db_members db) of
        None \<Rightarrow> Inl (Http 404 ''Member not found'') | Some m \<Rightarrow> Inr m)"

definition owner_count :: "access_db \<Rightarrow> string \<Rightarrow> nat" where
  "owner_count db w = length (filter (\<lambda>m. mb_workspace m = w \<and> mb_role m = OWNER) (db_members db))"

definition add_member ::
  "workspace_context \<Rightarrow> string \<Rightarrow> workspace_role \<Rightarrow> string \<Rightarrow> access_db \<Rightarrow> access_error + access_db" where
  "add_member ctx email role mid db =
     (case require_authority_over ctx [role] of
        Some e \<Rightarrow> Inl e
      | None \<Rightarrow>
          (case user_by_email db (normalize_email email) of
             None \<Rightarrow> Inl (Http 404 ''No user account exists with that email'')
           | Some u \<Rightarrow>
               if member_of db (wc_workspace ctx) (ac_id u) \<noteq> None then Inl (Http 409 ''User is already a member'')
               else insert_member
                      \<lparr>mb_id = mid, mb_workspace = wc_workspace ctx, mb_user = ac_id u, mb_role = role\<rparr> db))"

text \<open>The checks of a change, which read the database, and the change they allow, which is written.\<close>

definition keeps_an_owner :: "access_db \<Rightarrow> membership \<Rightarrow> access_error option" where
  "keeps_an_owner db m =
     (if owner_count db (mb_workspace m) \<le> 1 then Some (Http 409 ''A workspace must keep at least one owner'') else None)"

definition check_update ::
  "workspace_context \<Rightarrow> string \<Rightarrow> workspace_role \<Rightarrow> access_db \<Rightarrow> access_error + membership" where
  "check_update ctx mid role db =
     (case get_membership db (wc_workspace ctx) mid of
        Inl e \<Rightarrow> Inl e
      | Inr m \<Rightarrow>
          (case require_authority_over ctx [role, mb_role m] of
             Some e \<Rightarrow> Inl e
           | None \<Rightarrow>
               (case require_authority_to_modify ctx m of
                  Some e \<Rightarrow> Inl e
                | None \<Rightarrow>
                    (case (if mb_role m = OWNER \<and> role \<noteq> OWNER then keeps_an_owner db m else None) of
                       Some e \<Rightarrow> Inl e
                     | None \<Rightarrow> Inr m))))"

definition write_role :: "string \<Rightarrow> workspace_role \<Rightarrow> access_db \<Rightarrow> access_db" where
  "write_role mid role db =
     db\<lparr>db_members := map (\<lambda>m. if mb_id m = mid then m\<lparr>mb_role := role\<rparr> else m) (db_members db)\<rparr>"

definition update_member_role ::
  "workspace_context \<Rightarrow> string \<Rightarrow> workspace_role \<Rightarrow> access_db \<Rightarrow> access_error + access_db" where
  "update_member_role ctx mid role db =
     (case check_update ctx mid role db of Inl e \<Rightarrow> Inl e | Inr m \<Rightarrow> Inr (write_role (mb_id m) role db))"

definition check_remove :: "workspace_context \<Rightarrow> string \<Rightarrow> access_db \<Rightarrow> access_error + membership" where
  "check_remove ctx mid db =
     (case get_membership db (wc_workspace ctx) mid of
        Inl e \<Rightarrow> Inl e
      | Inr m \<Rightarrow>
          (case require_authority_over ctx [mb_role m] of
             Some e \<Rightarrow> Inl e
           | None \<Rightarrow>
               (case require_authority_to_modify ctx m of
                  Some e \<Rightarrow> Inl e
                | None \<Rightarrow>
                    (case (if mb_role m = OWNER then keeps_an_owner db m else None) of
                       Some e \<Rightarrow> Inl e
                     | None \<Rightarrow> Inr m))))"

definition delete_member :: "string \<Rightarrow> access_db \<Rightarrow> access_db" where
  "delete_member mid db = db\<lparr>db_members := filter (\<lambda>m. mb_id m \<noteq> mid) (db_members db)\<rparr>"

definition remove_member :: "workspace_context \<Rightarrow> string \<Rightarrow> access_db \<Rightarrow> access_error + access_db" where
  "remove_member ctx mid db =
     (case check_remove ctx mid db of Inl e \<Rightarrow> Inl e | Inr m \<Rightarrow> Inr (delete_member (mb_id m) db))"

section \<open>Workspaces\<close>

definition create_workspace :: "string \<Rightarrow> string \<Rightarrow> string \<Rightarrow> access_db \<Rightarrow> access_error + access_db" where
  "create_workspace creator w mid db =
     (case insert_workspace w db of
        Inl e \<Rightarrow> Inl e
      | Inr db \<Rightarrow> insert_member \<lparr>mb_id = mid, mb_workspace = w, mb_user = creator, mb_role = OWNER\<rparr> db)"

text \<open>Deleting the row cascades to everything that refers to it.\<close>

definition delete_workspace :: "workspace_context \<Rightarrow> access_db \<Rightarrow> access_error + access_db" where
  "delete_workspace ctx db =
     (let w = wc_workspace ctx
      in if w \<notin> set (db_workspaces db) then Inl (Http 404 ''Workspace not found'')
         else Inr (db\<lparr>db_workspaces := removeAll w (db_workspaces db),
                      db_members := filter (\<lambda>m. mb_workspace m \<noteq> w) (db_members db),
                      db_invitations := filter (\<lambda>i. iv_workspace i \<noteq> w) (db_invitations db),
                      db_keys := filter (\<lambda>k. ky_workspace k \<noteq> w) (db_keys db)\<rparr>))"

section \<open>The password policy\<close>

definition MIN_PASSWORD_LENGTH :: nat where
  "MIN_PASSWORD_LENGTH = 12"

definition MAX_PASSWORD_LENGTH :: nat where
  "MAX_PASSWORD_LENGTH = 200"

text \<open>\<open>common\<close> is the embedded list of the most guessed passwords; the result is the message of the error.\<close>

definition validate_password_strength :: "(string \<Rightarrow> bool) \<Rightarrow> string \<Rightarrow> string \<Rightarrow> string option" where
  "validate_password_strength common password email =
     (if length password < MIN_PASSWORD_LENGTH
      then Some (''Password must be at least '' @ show_nat MIN_PASSWORD_LENGTH @ '' characters long'')
      else if MAX_PASSWORD_LENGTH < length password
      then Some (''Password must be at most '' @ show_nat MAX_PASSWORD_LENGTH @ '' characters long'')
      else if strip password = [] then Some ''Password must not be entirely whitespace''
      else if common password then Some ''Password is one of the most commonly guessed passwords; choose another''
      else if email \<noteq> []
           \<and> (let normalized = py_lower (strip password); address = normalize_email email;
                  local_part = takeWhile (\<lambda>c. c \<noteq> CHR ''@'') address
              in normalized \<in> {address, local_part} \<or> (4 \<le> length local_part \<and> is_infix local_part normalized))
      then Some ''Password must not contain your email address''
      else None)"

definition bootstrap_owner ::
  "(string \<Rightarrow> bool) \<Rightarrow> string \<Rightarrow> string \<Rightarrow> string \<Rightarrow> string \<Rightarrow> string \<Rightarrow> access_db \<Rightarrow> access_error + access_db" where
  "bootstrap_owner common email password uid w mid db =
     (if db_users db \<noteq> [] then Inl (Http 403 ''Bootstrap is disabled: an owner account already exists'')
      else case validate_password_strength common password email of
             Some problem \<Rightarrow> Inl (Http 422 problem)
           | None \<Rightarrow>
               (case insert_user \<lparr>ac_id = uid, ac_email = normalize_email email, ac_active = True\<rparr> db of
                  Inl e \<Rightarrow> Inl e
                | Inr db \<Rightarrow> create_workspace uid w mid db))"

section \<open>Invitations\<close>

datatype invitation_state = IvAccepted | IvRevoked | IvExpired | IvPending

definition invitation_status :: "invitation \<Rightarrow> int \<Rightarrow> invitation_state" where
  "invitation_status i now =
     (if iv_accepted_at i \<noteq> None then IvAccepted
      else if iv_revoked_at i \<noteq> None then IvRevoked
      else if iv_expires_at i \<le> now then IvExpired
      else IvPending)"

definition DAY :: int where
  "DAY = 86400000000"

text \<open>\<open>hash\<close> is \<open>hash_token\<close>, SHA-256; \<open>token\<close> is the random token drawn for the link.\<close>

definition create_invitation ::
  "(string \<Rightarrow> string) \<Rightarrow> workspace_context \<Rightarrow> string \<Rightarrow> workspace_role \<Rightarrow> int \<Rightarrow> string \<Rightarrow> string \<Rightarrow> int
     \<Rightarrow> access_db \<Rightarrow> access_error + access_db" where
  "create_invitation hash ctx email role ttl_days token iid now db =
     (case require_authority_over ctx [role] of
        Some e \<Rightarrow> Inl e
      | None \<Rightarrow>
          (let normalized = normalize_email email;
               stale = (\<lambda>i. iv_workspace i = wc_workspace ctx \<and> iv_email i = normalized
                            \<and> iv_accepted_at i = None \<and> iv_revoked_at i = None)
           in if (case user_by_email db normalized of
                    Some u \<Rightarrow> member_of db (wc_workspace ctx) (ac_id u) \<noteq> None | None \<Rightarrow> False)
              then Inl (Http 409 ''That person is already a member of this workspace'')
              else insert_invitation
                     \<lparr>iv_id = iid, iv_workspace = wc_workspace ctx, iv_email = normalized, iv_role = role,
                      iv_token_hash = hash token, iv_invited_by = Some (wc_user ctx),
                      iv_expires_at = now + ttl_days * DAY, iv_accepted_at = None, iv_accepted_user = None,
                      iv_revoked_at = None\<rparr>
                     (db\<lparr>db_invitations :=
                           map (\<lambda>i. if stale i then i\<lparr>iv_revoked_at := Some now\<rparr> else i) (db_invitations db)\<rparr>)))"

definition revoke_invitation ::
  "workspace_context \<Rightarrow> string \<Rightarrow> int \<Rightarrow> access_db \<Rightarrow> access_error + access_db" where
  "revoke_invitation ctx iid now db =
     (case find (\<lambda>i. iv_id i = iid \<and> iv_workspace i = wc_workspace ctx) (db_invitations db) of
        None \<Rightarrow> Inl (Http 404 ''Invitation not found'')
      | Some i \<Rightarrow>
          (case require_authority_over ctx [iv_role i] of
             Some e \<Rightarrow> Inl e
           | None \<Rightarrow>
               if iv_accepted_at i \<noteq> None then Inl (Http 409 ''That invitation has already been accepted'')
               else Inr (db\<lparr>db_invitations :=
                              map (\<lambda>j. if iv_id j = iid then j\<lparr>iv_revoked_at := Some now\<rparr> else j)
                                (db_invitations db)\<rparr>)))"

definition INVALID_LINK :: string where
  "INVALID_LINK = ''This invitation link is not valid any more''"

definition usable_invitation :: "(string \<Rightarrow> string) \<Rightarrow> string \<Rightarrow> int \<Rightarrow> access_db \<Rightarrow> access_error + invitation" where
  "usable_invitation hash token now db =
     (case find (\<lambda>i. iv_token_hash i = hash token) (db_invitations db) of
        Some i \<Rightarrow> if invitation_status i now = IvPending then Inr i else Inl (Http 404 INVALID_LINK)
      | None \<Rightarrow> Inl (Http 404 INVALID_LINK))"

definition require_account_owner :: "account \<Rightarrow> string option \<Rightarrow> access_error option" where
  "require_account_owner existing acting =
     (if acting = Some (ac_id existing) then None
      else Some (Http 401 (ac_email existing @ '' already has a Jhin account. ''
                           @ ''Sign in with it first, then open this invitation link again to join.'')))"

text \<open>The account that accepts: a new one, or the existing one, whose owner has to be the one signed in.\<close>

definition accepting_user ::
  "(string \<Rightarrow> bool) \<Rightarrow> invitation \<Rightarrow> string \<Rightarrow> string option \<Rightarrow> string \<Rightarrow> access_db \<Rightarrow> access_error + string \<times> access_db" where
  "accepting_user common i password acting new_uid db =
     (case user_by_email db (iv_email i) of
        None \<Rightarrow>
          (case validate_password_strength common password (iv_email i) of
             Some problem \<Rightarrow> Inl (Http 422 problem)
           | None \<Rightarrow>
               (case insert_user \<lparr>ac_id = new_uid, ac_email = iv_email i, ac_active = True\<rparr> db of
                  Inl e \<Rightarrow> Inl e
                | Inr db \<Rightarrow> Inr (new_uid, db)))
      | Some u \<Rightarrow> (case require_account_owner u acting of Some e \<Rightarrow> Inl e | None \<Rightarrow> Inr (ac_id u, db)))"

definition join_workspace :: "invitation \<Rightarrow> string \<Rightarrow> string \<Rightarrow> access_db \<Rightarrow> access_error + access_db" where
  "join_workspace i uid mid db =
     (if member_of db (iv_workspace i) uid \<noteq> None then Inr db
      else insert_member \<lparr>mb_id = mid, mb_workspace = iv_workspace i, mb_user = uid, mb_role = iv_role i\<rparr> db)"

definition accept_invitation ::
  "(string \<Rightarrow> string) \<Rightarrow> (string \<Rightarrow> bool) \<Rightarrow> string \<Rightarrow> string \<Rightarrow> string option \<Rightarrow> string \<Rightarrow> string \<Rightarrow> int
     \<Rightarrow> access_db \<Rightarrow> access_error + string \<times> access_db" where
  "accept_invitation hash common token password acting new_uid mid now db =
     (case usable_invitation hash token now db of
        Inl e \<Rightarrow> Inl e
      | Inr i \<Rightarrow>
          if iv_workspace i \<notin> set (db_workspaces db) then Inl (Http 404 INVALID_LINK)
          else (case accepting_user common i password acting new_uid db of
                  Inl e \<Rightarrow> Inl e
                | Inr (uid, db) \<Rightarrow>
                    (case join_workspace i uid mid db of
                       Inl e \<Rightarrow> Inl e
                     | Inr db \<Rightarrow>
                         Inr (uid, db\<lparr>db_invitations :=
                                        map (\<lambda>j. if iv_id j = iv_id i
                                                 then j\<lparr>iv_accepted_at := Some now, iv_accepted_user := Some uid\<rparr> else j)
                                          (db_invitations db)\<rparr>))))"

end
