(* ===== verification/RouteScopes.thy ===== *)
theory RouteScopes
  imports ApiScopes
begin

text \<open>
  The scope each route of a workspace requires of an API key, \<open>apps/api/src/jhin_api/access/route_scopes.py\<close>.
  HTTP methods are ASCII, so \<open>str.upper\<close> is read on ASCII letters.
\<close>

datatype delete_side = InheritWrite | Delete "string option"

datatype route_rule = Rule (rule_read: "string option") (rule_write: "string option") (rule_delete: delete_side)

definition rule :: "string option \<Rightarrow> string option \<Rightarrow> route_rule" where
  "rule r w = Rule r w InheritWrite"

definition SEALED :: route_rule where
  "SEALED = rule None None"

definition WORKSPACE_PREFIX :: string where
  "WORKSPACE_PREFIX = ''/api/v1/workspaces/{workspace_id}''"

definition READ_METHODS :: "string list" where
  "READ_METHODS = [''GET'', ''HEAD'', ''OPTIONS'']"

definition upper_method :: "string \<Rightarrow> string" where
  "upper_method s = map (\<lambda>c. if ascii_lower c then char_of (ord c - 32) else c) s"

definition scope_for :: "route_rule \<Rightarrow> string \<Rightarrow> string option" where
  "scope_for r verb =
     (let upper = upper_method verb
      in if upper \<in> set READ_METHODS then rule_read r
         else case rule_delete r of
                Delete scope \<Rightarrow> (if upper = ''DELETE'' then scope else rule_write r)
              | InheritWrite \<Rightarrow> rule_write r)"

definition ROUTE_SCOPES :: "(string list \<times> route_rule) list" where
  "ROUTE_SCOPES =
     [
      ([''memories'', ''summary''], rule (Some ''memories:read'') None),
      ([''memories'', ''summary'', ''rebuild''], rule None (Some ''memories:write'')),
      ([''variables''], rule (Some ''variables:read'') (Some ''variables:write'')),
      ([''variables'', ''copy''], rule None (Some ''variables:write'')),
      ([''variables'', ''secrets''], SEALED), ([''variables'', ''secret''], SEALED),
      ([''schedules''], rule (Some ''automations:read'') (Some ''automations:write'')),
      ([''schedules'', ''occurrences''], rule (Some ''automations:read'') None),
      ([''projects''], rule (Some ''chats:read'') (Some ''chats:write'')),
      ([''projects'', ''source''], rule None (Some ''chats:write'')),
      ([''files''], rule (Some ''chats:read'') (Some ''chats:write'')),
      ([''files'', ''versions''], rule (Some ''chats:read'') None),
      ([''files'', ''content''], rule (Some ''chats:read'') (Some ''chats:write'')),
      ([''files'', ''download''], rule (Some ''chats:read'') None),
      ([''files'', ''preview''], rule (Some ''chats:read'') None),
      ([''files'', ''annotations''], rule (Some ''chats:read'') (Some ''chats:write'')),
      ([''conversations'', ''files''], rule (Some ''chats:read'') (Some ''chats:write'')),
      ([''conversations'', ''files'', ''publish''], rule None (Some ''chats:write'')),
      ([''conversations'', ''items''], rule (Some ''chats:read'') None),
      ([''conversations'', ''events''], rule (Some ''chats:read'') None),
      ([''conversations'', ''logs''], rule (Some ''chats:read'') None),
      ([''conversations'', ''tool-calls'', ''logs''], rule (Some ''chats:read'') None),
      ([''conversations'', ''control''], rule None (Some ''chats:write'')),
      ([''conversations'', ''queued''], rule (Some ''chats:read'') (Some ''chats:write'')),
      ([''conversations'', ''branches''], rule None (Some ''chats:write'')),
      ([''conversations'', ''changes''], rule (Some ''chats:read'') None),
      ([''conversations'', ''checkpoints''], rule (Some ''chats:read'') (Some ''chats:write'')),
      ([''conversations'', ''checkpoints'', ''restore''], rule None (Some ''chats:write'')),
      ([''conversations'', ''runtime''], rule (Some ''chats:read'') None),
      ([''conversations'', ''runtime'', ''files''], rule (Some ''chats:read'') None),
      ([''conversations'', ''runtime'', ''control''], rule None (Some ''chats:write'')),
      ([''conversations'', ''runtime'', ''import-legacy''], rule None (Some ''chats:write'')),
      ([''conversations'', ''terminals''], rule (Some ''chats:read'') (Some ''chats:write'')),
      ([''conversations'', ''terminals'', ''ticket''], SEALED),
      ([''conversations'', ''terminals'', ''close''], rule None (Some ''chats:write'')),
      ([''conversations'', ''terminals'', ''interrupt''], rule None (Some ''chats:write'')),
      ([''conversations'', ''previews''], rule (Some ''chats:read'') (Some ''chats:write'')),
      ([''conversations'', ''previews'', ''ticket''], SEALED),
      ([''conversations'', ''previews'', ''stop''], rule None (Some ''chats:write'')),
      ([''conversations'', ''previews'', ''restart''], rule None (Some ''chats:write'')),
      ([''conversations'', ''previews'', ''refresh''], rule None (Some ''chats:write'')),
      ([], Rule (Some ''workspace:read'') (Some ''workspace:settings'') (Delete None)),
      ([''deletion-summary''], rule (Some ''workspace:read'') None),
      ([''onboarding''], rule (Some ''workspace:read'') (Some ''workspace:settings'')),
      ([''directory''], rule (Some ''workspace:read'') None),
      ([''org-graph''], rule (Some ''workspace:read'') None),
      ([''members''], rule (Some ''members:read'') (Some ''members:write'')),
      ([''invitations''], rule (Some ''members:read'') (Some ''members:write'')),
      ([''agents''], rule (Some ''agents:read'') (Some ''agents:write'')),
      ([''agents'', ''pause''], rule None (Some ''agents:write'')),
      ([''agents'', ''resume''], rule None (Some ''agents:write'')),
      ([''agents'', ''grants''], rule (Some ''agents:read'') (Some ''agents:admin'')),
      ([''agents'', ''terminal-internet''], rule (Some ''agents:admin'') (Some ''agents:admin'')),
      ([''agents'', ''policy''], rule (Some ''agents:read'') (Some ''agents:admin'')),
      ([''agents'', ''bundles''], rule (Some ''agents:read'') (Some ''agents:admin'')),
      ([''agents'', ''relationships''], rule (Some ''agents:read'') (Some ''agents:write'')),
      ([''agents'', ''memberships''], rule (Some ''teams:read'') (Some ''teams:write'')),
      ([''agents'', ''skills''], rule (Some ''skills:read'') (Some ''skills:write'')),
      ([''agents'', ''avatar''], rule (Some ''agents:read'') (Some ''agents:write'')),
      ([''agents'', ''avatar'', ''shape''], rule None (Some ''agents:write'')),
      ([''agents'', ''avatar'', ''generate''], rule None (Some ''agents:write'')),
      ([''agents'', ''avatar'', ''generation''], rule (Some ''agents:read'') None),
      ([''agents'', ''rollup''], rule (Some ''agents:read'') None),
      ([''agents'', ''assign-task''], rule None (Some ''tasks:write'')),
      ([''agents'', ''message''], rule None (Some ''tasks:write'')),
      ([''teams''], rule (Some ''teams:read'') (Some ''teams:write'')),
      ([''tasks''], rule (Some ''tasks:read'') (Some ''tasks:write'')),
      ([''tasks'', ''tree''], rule (Some ''tasks:read'') None),
      ([''tasks'', ''messages''], rule (Some ''tasks:read'') None),
      ([''tasks'', ''timeline''], rule (Some ''runs:read'') None),
      ([''tasks'', ''acknowledge''], rule None (Some ''tasks:write'')),
      ([''tasks'', ''cancel''], rule None (Some ''tasks:write'')),
      ([''tasks'', ''instruction''], rule None (Some ''tasks:write'')),
      ([''tasks'', ''pause''], rule None (Some ''tasks:write'')),
      ([''tasks'', ''resume''], rule None (Some ''tasks:write'')),
      ([''runs''], rule (Some ''runs:read'') None), ([''runs'', ''timeline''], rule (Some ''runs:read'') None),
      ([''runs'', ''tool-calls''], rule (Some ''runs:read'') None),
      ([''conversations''], rule (Some ''chats:read'') (Some ''chats:write'')),
      ([''conversations'', ''messages''], rule (Some ''chats:read'') None),
      ([''conversations'', ''tool-calls''], rule (Some ''chats:read'') None),
      ([''conversations'', ''turns''], rule None (Some ''chats:write'')),
      ([''conversations'', ''resume''], rule None (Some ''chats:write'')),
      ([''conversations'', ''activity''], rule (Some ''chats:read'') None),
      ([''activity''], rule (Some ''chats:read'') None), ([''attention''], rule (Some ''tasks:read'') None),
      ([''attention'', ''acknowledge-failures''], rule None (Some ''tasks:write'')),
      ([''approvals''], rule (Some ''approvals:read'') None),
      ([''approvals'', ''approve''], rule None (Some ''approvals:decide'')),
      ([''approvals'', ''reject''], rule None (Some ''approvals:decide'')),
      ([''questions''], rule (Some ''chats:read'') None),
      ([''questions'', ''answer''], rule None (Some ''chats:write'')),
      ([''reviews''], rule (Some ''reviews:read'') None),
      ([''reviews'', ''decide''], rule None (Some ''reviews:decide'')),
      ([''review-policies''], rule (Some ''reviews:read'') (Some ''reviews:write'')),
      ([''work-requests''], rule (Some ''reviews:read'') (Some ''reviews:decide'')),
      ([''work-requests'', ''accept''], rule None (Some ''reviews:decide'')),
      ([''work-requests'', ''clarify''], rule None (Some ''reviews:decide'')),
      ([''work-requests'', ''decline''], rule None (Some ''reviews:decide'')),
      ([''memories''], rule (Some ''memories:read'') (Some ''memories:write'')),
      ([''memories'', ''pin''], rule None (Some ''memories:write'')),
      ([''memories'', ''contest''], rule None (Some ''memories:write'')),
      ([''memories'', ''approve''], rule None (Some ''memories:admin'')),
      ([''memories'', ''reject''], rule None (Some ''memories:admin'')),
      ([''memories'', ''forget''], rule None (Some ''memories:admin'')),
      ([''memories'', ''deduplicate''], rule None (Some ''memories:admin'')),
      ([''memories'', ''embed-missing''], rule None (Some ''memories:admin'')),
      ([''memory-capture-policies''], rule (Some ''memories:read'') (Some ''memories:admin'')),
      ([''memory-capture-policies'', ''revoke''], rule None (Some ''memories:admin'')),
      ([''skills''], rule (Some ''skills:read'') (Some ''skills:write'')),
      ([''skills'', ''browse''], rule (Some ''skills:read'') None),
      ([''skills'', ''browse'', ''install''], rule None (Some ''skills:write'')),
      ([''skills'', ''import''], rule None (Some ''skills:write'')),
      ([''skills'', ''import-zip''], rule None (Some ''skills:write'')),
      ([''skills'', ''install-builtins''], rule None (Some ''skills:write'')),
      ([''skill-sources''], rule (Some ''skills:read'') (Some ''skills:write'')),
      ([''personas''], rule (Some ''personas:read'') (Some ''personas:write'')),
      ([''personas'', ''install-builtins''], rule None (Some ''personas:write'')),
      ([''personas'', ''enable''], rule None (Some ''personas:write'')),
      ([''personas'', ''disable''], rule None (Some ''personas:write'')),
      ([''personas'', ''duplicate''], rule None (Some ''personas:write'')),
      ([''triggers''], rule (Some ''automations:read'') (Some ''automations:write'')),
      ([''triggers'', ''invocations''], rule (Some ''automations:read'') None),
      ([''triggers'', ''test''], rule None (Some ''automations:write'')),
      ([''triggers'', ''enable''], rule None (Some ''automations:write'')),
      ([''triggers'', ''disable''], rule None (Some ''automations:write'')),
      ([''connections''], rule (Some ''apps:read'') (Some ''apps:write'')),
      ([''connections'', ''tools''], rule (Some ''apps:read'') (Some ''apps:write'')),
      ([''connections'', ''access-summary''], rule (Some ''apps:read'') None),
      ([''connections'', ''metadata''], rule (Some ''apps:read'') None),
      ([''connections'', ''tool-calls''], rule (Some ''runs:read'') None),
      ([''connections'', ''editorial-reviews''], rule (Some ''runs:read'') None),
      ([''connections'', ''editorial-reviews'', ''assignments''], rule (Some ''runs:read'') None),
      ([''connections'', ''editorial-reviews'', ''assignments'', ''release-intent''], rule None (Some ''apps:write'')),
      ([''connections'', ''verify''], rule None (Some ''apps:write'')),
      ([''connections'', ''enable''], rule None (Some ''apps:write'')),
      ([''connections'', ''disable''], rule None (Some ''apps:write'')),
      ([''connections'', ''config''], rule None (Some ''apps:write'')),
      ([''connections'', ''rotate''], SEALED), ([''connections'', ''reauthorize''], SEALED),
      ([''connections'', ''webhook-secret''], SEALED),
      ([''catalog'', ''apply-risk-floor''], rule None (Some ''apps:write'')), ([''oauth'', ''start''], SEALED),
      ([''oauth'', ''device'', ''start''], SEALED), ([''oauth'', ''device'', ''poll''], SEALED),
      ([''oauth'', ''clients''], SEALED), ([''oauth'', ''github-app'', ''manifest''], SEALED),
      ([''oauth'', ''probe''], rule None (Some ''apps:write'')), ([''secrets''], SEALED),
      ([''secrets'', ''rotate''], SEALED), ([''tools''], rule (Some ''agents:read'') None),
      ([''tools'', ''bundles''], rule (Some ''agents:read'') None),
      ([''model-providers''], rule (Some ''models:read'') (Some ''models:write'')),
      ([''model-providers'', ''models''], rule (Some ''models:read'') None),
      ([''model-providers'', ''balance''], rule (Some ''models:read'') None),
      ([''model-providers'', ''ollama'', ''models''], rule (Some ''models:read'') None),
      ([''model-providers'', ''ollama'', ''loaded''], rule (Some ''models:read'') None),
      ([''model-providers'', ''ollama'', ''load''], rule None (Some ''models:write'')),
      ([''model-providers'', ''ollama'', ''unload''], rule None (Some ''models:write'')),
      ([''model-providers'', ''verify''], rule None (Some ''models:write'')),
      ([''model-providers'', ''verify-draft''], SEALED),
      ([''model-profiles''], rule (Some ''models:read'') (Some ''models:write'')),
      ([''model-profiles'', ''refresh-pricing''], rule None (Some ''models:write'')),
      ([''model-profiles'', ''pricing-status''], rule (Some ''models:read'') None),
      ([''model-profiles'', ''reconcile-pricing''], rule None (Some ''models:write'')),
      ([''model-profiles'', ''refresh-catalog''], rule None (Some ''models:write'')),
      ([''spend''], rule (Some ''spend:read'') None), ([''audit-events''], rule (Some ''audit:read'') None),
      ([''media''], rule (Some ''agents:read'') None),
      ([''api-keys''], rule (Some ''api_keys:read'') (Some ''api_keys:write'')),
      ([''api-keys'', ''usage''], rule (Some ''api_keys:read'') None),
      ([''api-keys'', ''scopes''], rule (Some ''api_keys:read'') None)]"

definition route_signature :: "string \<Rightarrow> string list option" where
  "route_signature path =
     (if \<not> starts_with path WORKSPACE_PREFIX then None
      else Some (filter (\<lambda>segment. segment \<noteq> [] \<and> \<not> starts_with segment ''{'')
                   (split_on CHR ''/'' (strip_by (\<lambda>c. c = CHR ''/'') (drop (length WORKSPACE_PREFIX) path)))))"

definition required_scope :: "string \<Rightarrow> string \<Rightarrow> string option" where
  "required_scope verb path =
     (case route_signature path of
        None \<Rightarrow> None
      | Some signature \<Rightarrow>
          (case map_of ROUTE_SCOPES signature of None \<Rightarrow> None | Some r \<Rightarrow> scope_for r verb))"

end
