(* ===== verification/ApiKeys.thy ===== *)
theory ApiKeys
  imports Workspaces RouteScopes
begin

text \<open>
  API keys: their format and authentication, \<open>apps/api/src/jhin_api/access/keys.py\<close>, minting and revoking,
  \<open>access/api_keys.py\<close>, and the dependency every route of a workspace goes through, \<open>require_workspace_role\<close> of
  \<open>apps/api/src/jhin_api/deps.py\<close>. What the random generator draws, SHA-256 and the state of the rate limiter are
  parameters; a browser is known by the user of its session.
\<close>

section \<open>The format\<close>

definition KEY_LABEL :: string where
  "KEY_LABEL = ''jhin''"

definition PREFIX_BYTES :: nat where
  "PREFIX_BYTES = 4"

text \<open>\<open>s.split(c, 2)\<close>\<close>

definition split_two :: "char \<Rightarrow> string \<Rightarrow> string list" where
  "split_two c s =
     (case partition_on c s of
        (first, found, rest) \<Rightarrow>
          if \<not> found then [s]
          else (case partition_on c rest of
                  (second, again, third) \<Rightarrow> if again then [first, second, third] else [first, rest]))"

definition hex_digit :: "char \<Rightarrow> bool" where
  "hex_digit c \<longleftrightarrow> c \<in> set ''0123456789abcdef''"

definition parse_key :: "string \<Rightarrow> (string \<times> string) option" where
  "parse_key raw =
     (case split_two CHR ''_'' (strip raw) of
        [label, key_prefix, secret] \<Rightarrow>
          if label \<noteq> KEY_LABEL \<or> key_prefix = [] \<or> secret = [] then None
          else if length key_prefix \<noteq> PREFIX_BYTES * 2 \<or> \<not> list_all hex_digit key_prefix then None
          else Some (key_prefix, secret)
      | _ \<Rightarrow> None)"

definition bearer_token :: "string option \<Rightarrow> string option" where
  "bearer_token authorization =
     (case authorization of
        None \<Rightarrow> None
      | Some header \<Rightarrow>
          if header = [] then None
          else case partition_on CHR '' '' header of
                 (scheme, separator, v) \<Rightarrow>
                   if \<not> separator \<or> py_lower scheme \<noteq> ''bearer'' then None
                   else if starts_with (strip v) (KEY_LABEL @ ''_'') then Some (strip v) else None)"

text \<open>What \<open>generate_key\<close> builds from the two values it draws.\<close>

record generated_key =
  gk_plaintext :: string
  gk_prefix :: string
  gk_hash :: string

definition generate_key :: "(string \<Rightarrow> string) \<Rightarrow> string \<Rightarrow> string \<Rightarrow> generated_key" where
  "generate_key hash key_prefix secret =
     \<lparr>gk_plaintext = KEY_LABEL @ ''_'' @ key_prefix @ ''_'' @ secret, gk_prefix = key_prefix, gk_hash = hash secret\<rparr>"

section \<open>Minting and revoking\<close>

definition MAX_KEYS_PER_WORKSPACE :: nat where
  "MAX_KEYS_PER_WORKSPACE = 100"

text \<open>An amount of a unit from now on; \<open>Inr None\<close> is no expiry.\<close>

definition unit_delta :: "string \<Rightarrow> int option" where
  "unit_delta unit =
     map_of [(''minutes'', 60000000), (''hours'', 3600000000), (''days'', 86400000000)] unit"

definition resolve_expiry :: "int option \<Rightarrow> string \<Rightarrow> int \<Rightarrow> access_error + int option" where
  "resolve_expiry amount unit now =
     (if unit = ''never'' then Inr None
      else case amount of
             None \<Rightarrow> Inl (Http 422 (''Choose how long the key should last, or select '' @ [CHR 0x27] @ ''never expires'' @ [CHR 0x27]))
           | Some n \<Rightarrow>
               if n < 1
               then Inl (Http 422 (''Choose how long the key should last, or select '' @ [CHR 0x27] @ ''never expires'' @ [CHR 0x27]))
               else (case unit_delta unit of
                       None \<Rightarrow> Inl (Http 422 ''Expiry unit must be minutes, hours, days, or never'')
                     | Some delta \<Rightarrow> Inr (Some (now + delta * n))))"

text \<open>The constraints of the request body, \<open>ApiKeyCreate\<close> in \<open>access/schemas.py\<close>.\<close>

definition MAX_EXPIRY_AMOUNT :: int where
  "MAX_EXPIRY_AMOUNT = 100000"

definition key_payload_ok :: "string \<Rightarrow> string list \<Rightarrow> int option \<Rightarrow> string \<Rightarrow> bool" where
  "key_payload_ok name scopes expires_in expires_unit \<longleftrightarrow>
     1 \<le> length name \<and> length name \<le> 120 \<and> 1 \<le> length scopes \<and> length scopes \<le> 200
     \<and> (case expires_in of Some n \<Rightarrow> 1 \<le> n \<and> n \<le> MAX_EXPIRY_AMOUNT | None \<Rightarrow> True)
     \<and> expires_unit \<in> {''minutes'', ''hours'', ''days'', ''never''} \<and> list_all is_known_scope scopes"

definition create_key ::
  "(string \<Rightarrow> string) \<Rightarrow> workspace_context \<Rightarrow> string \<Rightarrow> string list \<Rightarrow> int option \<Rightarrow> string \<Rightarrow> string \<Rightarrow> string \<Rightarrow> string
     \<Rightarrow> int \<Rightarrow> access_db \<Rightarrow> access_error + access_db" where
  "create_key hash ctx name scopes expires_in expires_unit kid key_prefix secret now db =
     (if wc_key ctx \<noteq> None
      then Inl (Http 403 ''API keys cannot create other API keys; sign in to create one'')
      else
        let above = scopes_above_role (PList (map PStr scopes)) (wc_role ctx);
            granted = sort (effective_scopes (PList (map PStr scopes)) (wc_role ctx))
        in if above \<noteq> []
           then Inl (Http 422 (''Your role ('' @ role_value (wc_role ctx) @ '') cannot grant: '' @ join '', '' above @ ''. ''
                               @ ''A key can never do more than the person who made it.''))
           else if granted = [] then Inl (Http 422 ''Choose at least one thing this key may do'')
           else if MAX_KEYS_PER_WORKSPACE
                     \<le> length (filter (\<lambda>k. ky_workspace k = wc_workspace ctx \<and> ky_revoked_at k = None) (db_keys db))
           then Inl (Http 409 (''This workspace already has '' @ show_nat MAX_KEYS_PER_WORKSPACE @ '' active API keys''))
           else (case resolve_expiry expires_in expires_unit now of
                   Inl e \<Rightarrow> Inl e
                 | Inr expires_at \<Rightarrow>
                     (let g = generate_key hash key_prefix secret
                      in insert_key
                           \<lparr>ky_id = kid, ky_workspace = wc_workspace ctx, ky_name = strip name, ky_prefix = gk_prefix g,
                            ky_hash = gk_hash g, ky_created_by = Some (wc_user ctx), ky_ceiling = wc_role ctx,
                            ky_scopes = granted, ky_expires_at = expires_at, ky_last_used = None, ky_revoked_at = None\<rparr>
                           db)))"

definition revoke_key :: "workspace_context \<Rightarrow> string \<Rightarrow> int \<Rightarrow> access_db \<Rightarrow> access_error + access_db" where
  "revoke_key ctx kid now db =
     (case find (\<lambda>k. ky_id k = kid \<and> ky_workspace k = wc_workspace ctx) (db_keys db) of
        None \<Rightarrow> Inl (Http 404 ''API key not found'')
      | Some k \<Rightarrow>
          if ky_created_by k \<noteq> Some (wc_user ctx) \<and> wc_role ctx \<notin> {ADMIN, OWNER}
          then Inl (Http 403 (''Only an admin can revoke someone else'' @ [CHR 0x27] @ ''s API key''))
          else if ky_revoked_at k = None
          then Inr (db\<lparr>db_keys := map (\<lambda>j. if ky_id j = kid then j\<lparr>ky_revoked_at := Some now\<rparr> else j) (db_keys db)\<rparr>)
          else Inr db)"

section \<open>Authentication\<close>

datatype key_error = KeyError (rate_limited: bool)

definition INVALID_KEY :: string where
  "INVALID_KEY = ''Invalid or expired API key''"

text \<open>The principal, the user it acts for, and the database with the use of the key recorded.\<close>

definition authenticate ::
  "(string \<Rightarrow> string) \<Rightarrow> string \<Rightarrow> int \<Rightarrow> access_db \<Rightarrow> key_error + key_principal \<times> string \<times> access_db" where
  "authenticate hash raw now db =
     (case parse_key raw of
        None \<Rightarrow> Inl (KeyError True)
      | Some (key_prefix, secret) \<Rightarrow>
          (case find (\<lambda>k. ky_prefix k = key_prefix) (db_keys db) of
             None \<Rightarrow> Inl (KeyError True)
           | Some k \<Rightarrow>
               if ky_hash k \<noteq> hash secret then Inl (KeyError True)
               else if ky_revoked_at k \<noteq> None then Inl (KeyError False)
               else if (case ky_expires_at k of Some t \<Rightarrow> t \<le> now | None \<Rightarrow> False) then Inl (KeyError False)
               else (case ky_created_by k of
                       None \<Rightarrow> Inl (KeyError False)
                     | Some uid \<Rightarrow>
                         (case user_by_id db uid of
                            None \<Rightarrow> Inl (KeyError False)
                          | Some u \<Rightarrow>
                              if \<not> ac_active u then Inl (KeyError False)
                              else Inr (\<lparr>kp_id = ky_id k, kp_workspace = ky_workspace k, kp_ceiling = ky_ceiling k,
                                         kp_scopes = effective_scopes (PList (map PStr (ky_scopes k))) (ky_ceiling k)\<rparr>,
                                        uid,
                                        db\<lparr>db_keys := map (\<lambda>j. if ky_id j = ky_id k then j\<lparr>ky_last_used := Some now\<rparr> else j)
                                                       (db_keys db)\<rparr>)))))"

text \<open>
  \<open>get_current_principal\<close>: a key that is presented is terminal; \<open>session\<close> is the user of a valid browser
  session, and \<open>blocked\<close> whether the limiter blocks the key or the address.
\<close>

definition current_principal ::
  "(string \<Rightarrow> string) \<Rightarrow> bool \<Rightarrow> string option \<Rightarrow> string option \<Rightarrow> int \<Rightarrow> access_db
     \<Rightarrow> access_error + string \<times> key_principal option \<times> access_db" where
  "current_principal hash blocked header session now db =
     (case bearer_token header of
        None \<Rightarrow>
          (case session of
             None \<Rightarrow> Inl (Http 401 ''Not authenticated'')
           | Some uid \<Rightarrow>
               (case user_by_id db uid of
                  None \<Rightarrow> Inl (Http 401 ''Not authenticated'')
                | Some u \<Rightarrow> if ac_active u then Inr (uid, None, db) else Inl (Http 401 ''Not authenticated'')))
      | Some raw \<Rightarrow>
          if blocked then Inl (Http 429 ''Too many API key attempts; try again later'')
          else (case authenticate hash raw now db of
                  Inl e \<Rightarrow> Inl (Http 401 INVALID_KEY)
                | Inr (k, uid, db) \<Rightarrow> Inr (uid, Some k, db)))"

section \<open>The gate of a workspace\<close>

definition enforce_api_key :: "string \<Rightarrow> string \<Rightarrow> key_principal \<Rightarrow> string \<Rightarrow> access_error option" where
  "enforce_api_key verb path k w =
     (if kp_workspace k \<noteq> w then Some (Http 404 ''Workspace not found'')
      else case required_scope verb path of
             None \<Rightarrow> Some (Http 403 ''This endpoint is not available to API keys'')
           | Some needed \<Rightarrow>
               if needed \<notin> set (kp_scopes k)
               then Some (Http 403 (''API key is missing the '' @ [CHR 0x27] @ needed @ [CHR 0x27] @ '' scope''))
               else None)"

text \<open>A key of somebody who has been demoted is cut down to the role of today.\<close>

definition capped_key :: "workspace_role \<Rightarrow> key_principal \<Rightarrow> key_principal" where
  "capped_key role k =
     (if role_satisfies role (kp_ceiling k) then k
      else k\<lparr>kp_ceiling := role, kp_scopes := filter (\<lambda>s. s \<in> set (scopes_for_role role)) (kp_scopes k)\<rparr>)"

definition require_workspace_role ::
  "workspace_role \<Rightarrow> string \<Rightarrow> string \<Rightarrow> string \<Rightarrow> string \<Rightarrow> key_principal option \<Rightarrow> access_db
     \<Rightarrow> access_error + workspace_context" where
  "require_workspace_role required verb path w uid key db =
     (case member_of db w uid of
        None \<Rightarrow> Inl (Http 404 ''Workspace not found'')
      | Some m \<Rightarrow>
          (let key = (case key of None \<Rightarrow> None | Some k \<Rightarrow> Some (capped_key (mb_role m) k));
               role = (case key of None \<Rightarrow> mb_role m | Some k \<Rightarrow> kp_ceiling k)
           in case (case key of None \<Rightarrow> None | Some k \<Rightarrow> enforce_api_key verb path k w) of
                Some e \<Rightarrow> Inl e
              | None \<Rightarrow>
                  if \<not> role_satisfies role required
                  then Inl (Http 403 (''Requires workspace role '' @ [CHR 0x27] @ role_value required @ [CHR 0x27]
                                      @ '' or higher''))
                  else Inr \<lparr>wc_user = uid, wc_workspace = w, wc_role = role, wc_key = key\<rparr>))"

text \<open>A request that reaches its handler: its context, and the database its authentication committed.\<close>

definition admit ::
  "(string \<Rightarrow> string) \<Rightarrow> bool \<Rightarrow> string option \<Rightarrow> string option \<Rightarrow> workspace_role \<Rightarrow> string \<Rightarrow> string \<Rightarrow> string \<Rightarrow> int
     \<Rightarrow> access_db \<Rightarrow> access_error + workspace_context \<times> access_db" where
  "admit hash blocked header session required verb path w now db =
     (case current_principal hash blocked header session now db of
        Inl e \<Rightarrow> Inl e
      | Inr (uid, key, db) \<Rightarrow>
          (case require_workspace_role required verb path w uid key db of
             Inl e \<Rightarrow> Inl e
           | Inr ctx \<Rightarrow> Inr (ctx, db)))"

end
