(* ===== verification/AccessHistory.thy ===== *)
theory AccessHistory
  imports ApiKeys
begin

text \<open>
  The requests that change who may do what, as a history of events over the tables: each request is authenticated,
  passes the gate of its route (the routers of \<open>apps/api/src/jhin_api/workspaces\<close> and \<open>apps/api/src/jhin_api/access\<close>)
  and runs its operation as one transaction. A request that fails keeps what its authentication committed.
\<close>

record access_settings =
  as_hash :: "string \<Rightarrow> string"
  as_common :: "string \<Rightarrow> bool"
  as_ttl_days :: int

text \<open>The values a request draws at random (ids, tokens, the parts of a key) are part of the action.\<close>

datatype access_action =
    AddMember string workspace_role string
  | UpdateMember string workspace_role
  | RemoveMember string
  | Invite string workspace_role string string
  | RevokeInvitation string
  | CreateKey string "string list" "int option" string string string string
  | RevokeKey string
  | DeleteWorkspace
  | OtherRoute string string workspace_role

definition members_path :: string where
  "members_path = WORKSPACE_PREFIX @ ''/members''"

definition invitations_path :: string where
  "invitations_path = WORKSPACE_PREFIX @ ''/invitations''"

definition api_keys_path :: string where
  "api_keys_path = WORKSPACE_PREFIX @ ''/api-keys''"

fun action_route :: "access_action \<Rightarrow> string \<times> string \<times> workspace_role" where
  "action_route (AddMember email role mid) = (''POST'', members_path, ADMIN)"
| "action_route (UpdateMember mid role) = (''PATCH'', members_path @ ''/{membership_id}'', ADMIN)"
| "action_route (RemoveMember mid) = (''DELETE'', members_path @ ''/{membership_id}'', ADMIN)"
| "action_route (Invite email role token iid) = (''POST'', invitations_path, ADMIN)"
| "action_route (RevokeInvitation iid) = (''DELETE'', invitations_path @ ''/{invitation_id}'', ADMIN)"
| "action_route (CreateKey name scopes expires_in unit kid key_prefix secret) = (''POST'', api_keys_path, VIEWER)"
| "action_route (RevokeKey kid) = (''DELETE'', api_keys_path @ ''/{key_id}'', VIEWER)"
| "action_route DeleteWorkspace = (''DELETE'', WORKSPACE_PREFIX, OWNER)"
| "action_route (OtherRoute verb path required) = (verb, path, required)"

fun perform ::
  "access_settings \<Rightarrow> workspace_context \<Rightarrow> int \<Rightarrow> access_action \<Rightarrow> access_db \<Rightarrow> access_error + access_db" where
  "perform st ctx now (AddMember email role mid) db = add_member ctx email role mid db"
| "perform st ctx now (UpdateMember mid role) db = update_member_role ctx mid role db"
| "perform st ctx now (RemoveMember mid) db = remove_member ctx mid db"
| "perform st ctx now (Invite email role token iid) db =
     create_invitation (as_hash st) ctx email role (as_ttl_days st) token iid now db"
| "perform st ctx now (RevokeInvitation iid) db = revoke_invitation ctx iid now db"
| "perform st ctx now (CreateKey name scopes expires_in unit kid key_prefix secret) db =
     (if key_payload_ok name scopes expires_in unit
      then create_key (as_hash st) ctx name scopes expires_in unit kid key_prefix secret now db
      else Inl InvalidPayload)"
| "perform st ctx now (RevokeKey kid) db = revoke_key ctx kid now db"
| "perform st ctx now DeleteWorkspace db = delete_workspace ctx db"
| "perform st ctx now (OtherRoute verb path required) db = Inr db"

text \<open>
  The header and the session of a request, whether the limiter blocks it, its workspace, action and instant; and
  the requests outside a workspace. \<open>SetActive\<close> is an account disabled or enabled in the database.
\<close>

datatype access_event =
    Request "string option" "string option" bool string access_action int
  | NewWorkspace "string option" string string int
  | Accept string string "string option" string string int
  | Bootstrap string string string string string
  | SetActive string bool

definition admitted ::
  "access_settings \<Rightarrow> string option \<Rightarrow> string option \<Rightarrow> bool \<Rightarrow> string \<Rightarrow> access_action \<Rightarrow> int \<Rightarrow> access_db
     \<Rightarrow> access_error + workspace_context \<times> access_db" where
  "admitted st header session blocked w action now db =
     (case action_route action of
        (verb, path, required) \<Rightarrow> admit (as_hash st) blocked header session required verb path w now db)"

text \<open>Whoever the browser is signed in as, if anybody.\<close>

definition signed_in :: "string option \<Rightarrow> access_db \<Rightarrow> string option" where
  "signed_in session db =
     (case session of
        None \<Rightarrow> None
      | Some uid \<Rightarrow> (case user_by_id db uid of Some u \<Rightarrow> if ac_active u then Some uid else None | None \<Rightarrow> None))"

definition committed :: "access_db \<Rightarrow> access_error + access_db \<Rightarrow> access_db" where
  "committed db r = (case r of Inl e \<Rightarrow> db | Inr db' \<Rightarrow> db')"

fun access_step :: "access_settings \<Rightarrow> access_event \<Rightarrow> access_db \<Rightarrow> access_db" where
  "access_step st (Request header session blocked w action now) db =
     (case admitted st header session blocked w action now db of
        Inl e \<Rightarrow>
          (case current_principal (as_hash st) blocked header session now db of
             Inl e \<Rightarrow> db | Inr (uid, key, db') \<Rightarrow> db')
      | Inr (ctx, db') \<Rightarrow> committed db' (perform st ctx now action db'))"
| "access_step st (NewWorkspace session w mid now) db =
     (case signed_in session db of
        None \<Rightarrow> db | Some uid \<Rightarrow> committed db (create_workspace uid w mid db))"
| "access_step st (Accept token password session new_uid mid now) db =
     (case accept_invitation (as_hash st) (as_common st) token password (signed_in session db) new_uid mid now db of
        Inl e \<Rightarrow> db | Inr (uid, db') \<Rightarrow> db')"
| "access_step st (Bootstrap email password uid w mid) db =
     committed db (bootstrap_owner (as_common st) email password uid w mid db)"
| "access_step st (SetActive uid active) db =
     db\<lparr>db_users := map (\<lambda>u. if ac_id u = uid then u\<lparr>ac_active := active\<rparr> else u) (db_users db)\<rparr>"

definition access_run :: "access_settings \<Rightarrow> access_event list \<Rightarrow> access_db \<Rightarrow> access_db" where
  "access_run st es db = fold (access_step st) es db"

definition empty_db :: access_db where
  "empty_db = \<lparr>db_users = [], db_workspaces = [], db_members = [], db_invitations = [], db_keys = []\<rparr>"

section \<open>What an operation does to the tables\<close>

lemma insert_member_Inr:
  "insert_member row db = Inr db' \<longleftrightarrow>
     (\<forall>m \<in> set (db_members db). mb_id m \<noteq> mb_id row \<and> (mb_workspace m \<noteq> mb_workspace row \<or> mb_user m \<noteq> mb_user row))
     \<and> db' = db\<lparr>db_members := db_members db @ [row]\<rparr>"
  by (auto simp: insert_member_def list_ex_iff)

lemma insert_key_Inr:
  "insert_key row db = Inr db' \<Longrightarrow> db' = db\<lparr>db_keys := db_keys db @ [row]\<rparr>"
  by (simp add: insert_key_def split: if_splits)

lemma create_key_Inr:
  assumes "create_key hash ctx name scopes expires_in unit kid key_prefix secret now db = Inr db'"
  shows "\<exists>k. db' = db\<lparr>db_keys := db_keys db @ [k]\<rparr> \<and> ky_hash k = hash secret \<and> ky_revoked_at k = None"
  using assms
  by (auto simp: create_key_def Let_def generate_key_def split: if_splits sum.splits dest: insert_key_Inr)

lemma revoke_key_Inr:
  assumes "revoke_key ctx kid now db = Inr db'"
  shows "db' = db \<or> db' = db\<lparr>db_keys := map (\<lambda>j. if ky_id j = kid then j\<lparr>ky_revoked_at := Some now\<rparr> else j) (db_keys db)\<rparr>"
  using assms by (auto simp: revoke_key_def split: option.splits if_splits)

lemma authenticate_Inr:
  assumes "authenticate hash raw now db = Inr (k, uid, db')"
  shows "\<exists>p secret row. parse_key raw = Some (p, secret) \<and> row \<in> set (db_keys db) \<and> ky_prefix row = p
      \<and> ky_hash row = hash secret \<and> ky_revoked_at row = None
      \<and> (case ky_expires_at row of Some t \<Rightarrow> now < t | None \<Rightarrow> True) \<and> ky_created_by row = Some uid
      \<and> (\<exists>u. user_by_id db uid = Some u \<and> ac_active u)
      \<and> k = \<lparr>kp_id = ky_id row, kp_workspace = ky_workspace row, kp_ceiling = ky_ceiling row,
             kp_scopes = effective_scopes (PList (map PStr (ky_scopes row))) (ky_ceiling row)\<rparr>
      \<and> db' = db\<lparr>db_keys := map (\<lambda>j. if ky_id j = ky_id row then j\<lparr>ky_last_used := Some now\<rparr> else j) (db_keys db)\<rparr>"
  using assms
  by (auto simp: authenticate_def find_Some_iff in_set_conv_nth split: option.splits prod.splits if_splits)

text \<open>Authentication only stamps a key.\<close>

lemma principal_rest:
  assumes "current_principal hash blocked header session now db = Inr (uid, key, db')"
  shows "db_users db' = db_users db \<and> db_workspaces db' = db_workspaces db \<and> db_members db' = db_members db
      \<and> db_invitations db' = db_invitations db"
  using assms by (auto simp: current_principal_def split: option.splits if_splits sum.splits dest!: authenticate_Inr)

lemma admit_Inr:
  assumes "admit hash blocked header session required verb path w now db = Inr (ctx, db')"
  shows "\<exists>uid key. current_principal hash blocked header session now db = Inr (uid, key, db')
      \<and> require_workspace_role required verb path w uid key db' = Inr ctx"
  using assms by (auto simp: admit_def split: sum.splits prod.splits)

lemma authority_over_None:
  "require_authority_over ctx roles = None \<longleftrightarrow> (OWNER \<in> set roles \<longrightarrow> wc_role ctx = OWNER)"
  by (simp add: require_authority_over_def)

lemma create_invitation_Inr:
  assumes "create_invitation hash ctx email role ttl_days token iid now db = Inr db'"
  shows "\<exists>stale row. db' = db\<lparr>db_invitations :=
        map (\<lambda>i. if stale i then i\<lparr>iv_revoked_at := Some now\<rparr> else i) (db_invitations db) @ [row]\<rparr>
      \<and> iv_role row = role \<and> iv_workspace row = wc_workspace ctx \<and> iv_token_hash row = hash token
      \<and> (role = OWNER \<longrightarrow> wc_role ctx = OWNER)"
proof -
  have "require_authority_over ctx [role] = None"
    using assms by (auto simp: create_invitation_def split: option.splits)
  moreover obtain stale row where "insert_invitation row
      (db\<lparr>db_invitations := map (\<lambda>i. if stale i then i\<lparr>iv_revoked_at := Some now\<rparr> else i) (db_invitations db)\<rparr>) = Inr db'"
      "iv_role row = role" "iv_workspace row = wc_workspace ctx" "iv_token_hash row = hash token"
    using assms by (force simp: create_invitation_def Let_def split: option.splits if_splits)
  ultimately show ?thesis
    by (intro exI [of _ stale] exI [of _ row]) (auto simp: insert_invitation_def authority_over_None split: if_splits)
qed

end
