(* ===== verification/AccessProps.thy ===== *)
theory AccessProps
  imports AccessHistory
begin

text \<open>
  What holds of every history of requests: the key of a member never does more than the member, only owners make
  and unmake owners, and a workspace keeps an owner as long as its requests do not interleave.
\<close>

section \<open>A request with a key\<close>

lemma capped_key_within:
  "role_satisfies role (kp_ceiling (capped_key role k)) \<and> role_satisfies (kp_ceiling k) (kp_ceiling (capped_key role k))
     \<and> set (kp_scopes (capped_key role k)) \<subseteq> set (kp_scopes k)
     \<and> (set (kp_scopes k) \<subseteq> set (scopes_for_role (kp_ceiling k))
        \<longrightarrow> set (kp_scopes (capped_key role k)) \<subseteq> set (scopes_for_role (kp_ceiling (capped_key role k))))
     \<and> kp_id (capped_key role k) = kp_id k \<and> kp_workspace (capped_key role k) = kp_workspace k"
  using role_satisfies_linear by (auto simp: capped_key_def)

lemma gate_with_key:
  assumes "require_workspace_role required verb path w uid (Some k) db = Inr ctx"
  shows "\<exists>m scope. member_of db w uid = Some m \<and> wc_role ctx = kp_ceiling (capped_key (mb_role m) k)
      \<and> wc_user ctx = uid \<and> wc_workspace ctx = w \<and> wc_key ctx = Some (capped_key (mb_role m) k)
      \<and> kp_workspace k = w \<and> required_scope verb path = Some scope
      \<and> scope \<in> set (kp_scopes (capped_key (mb_role m) k)) \<and> role_satisfies (wc_role ctx) required"
proof -
  obtain m where m: "member_of db w uid = Some m"
    using assms by (auto simp: require_workspace_role_def split: option.splits)
  then have "enforce_api_key verb path (capped_key (mb_role m) k) w = None"
      "role_satisfies (kp_ceiling (capped_key (mb_role m) k)) required"
      "ctx = \<lparr>wc_user = uid, wc_workspace = w, wc_role = kp_ceiling (capped_key (mb_role m) k),
              wc_key = Some (capped_key (mb_role m) k)\<rparr>"
    using assms by (auto simp: require_workspace_role_def Let_def split: option.splits if_splits)
  with m show ?thesis
    using capped_key_within [of "mb_role m" k]
    by (auto simp: enforce_api_key_def split: option.splits if_splits)
qed

lemma current_principal_key:
  assumes "current_principal hash blocked header session now db = Inr (uid, Some k, db')"
  shows "\<exists>raw. bearer_token header = Some raw \<and> authenticate hash raw now db = Inr (k, uid, db')"
  using assms by (auto simp: current_principal_def split: option.splits if_splits sum.splits)

text \<open>
  C10 (safety) A request made with an API key is admitted only while the key is neither revoked nor expired and its
  creator has an active account and a membership; it acts in the key's own workspace, with a role that neither the
  creator's role of today nor the one at its creation falls short of, for a route whose scope is written on the
  key and allowed to that role. This holds of any tables, whatever is stored in them.
\<close>

theorem key_within_its_creator:
  assumes "admit hash blocked header session required verb path w now db = Inr (ctx, db')" and "wc_key ctx = Some k"
  shows "\<exists>row m scope. row \<in> set (db_keys db) \<and> ky_id row = kp_id k \<and> ky_workspace row = w
    \<and> (case (ky_revoked_at row, ky_expires_at row) of (None, None) \<Rightarrow> True | (None, Some t) \<Rightarrow> now < t | _ \<Rightarrow> False)
    \<and> ky_created_by row = Some (wc_user ctx) \<and> (\<exists>u. user_by_id db (wc_user ctx) = Some u \<and> ac_active u)
    \<and> member_of db w (wc_user ctx) = Some m
    \<and> role_satisfies (mb_role m) (wc_role ctx) \<and> role_satisfies (ky_ceiling row) (wc_role ctx)
    \<and> role_satisfies (wc_role ctx) required
    \<and> required_scope verb path = Some scope \<and> scope \<in> set (expand_scopes (PList (map PStr (ky_scopes row))))
    \<and> scope \<in> set (scopes_for_role (wc_role ctx))"
proof -
  obtain uid key where entry: "current_principal hash blocked header session now db = Inr (uid, key, db')"
      "require_workspace_role required verb path w uid key db' = Inr ctx"
    using admit_Inr [OF assms(1)] by blast
  obtain k0 where k0: "key = Some k0"
    using entry(2) assms(2) by (cases key) (auto simp: require_workspace_role_def Let_def split: option.splits if_splits)
  have same: "member_of db' w uid = member_of db w uid"
    using principal_rest [OF entry(1)] by (simp add: member_of_def)
  obtain raw where auth: "authenticate hash raw now db = Inr (k0, uid, db')"
    using current_principal_key entry(1) k0 by blast
  obtain row where row: "row \<in> set (db_keys db)" "ky_revoked_at row = None"
      "case ky_expires_at row of Some t \<Rightarrow> now < t | None \<Rightarrow> True" "ky_created_by row = Some uid"
      "\<exists>u. user_by_id db uid = Some u \<and> ac_active u"
      "k0 = \<lparr>kp_id = ky_id row, kp_workspace = ky_workspace row, kp_ceiling = ky_ceiling row,
             kp_scopes = effective_scopes (PList (map PStr (ky_scopes row))) (ky_ceiling row)\<rparr>"
    using authenticate_Inr [OF auth] by auto
  obtain m scope where gate: "member_of db w uid = Some m" "wc_role ctx = kp_ceiling (capped_key (mb_role m) k0)"
      "wc_user ctx = uid" "wc_key ctx = Some (capped_key (mb_role m) k0)" "kp_workspace k0 = w"
      "required_scope verb path = Some scope" "scope \<in> set (kp_scopes (capped_key (mb_role m) k0))"
      "role_satisfies (wc_role ctx) required"
    using gate_with_key [OF entry(2) [unfolded k0]] same by auto
  note capped = capped_key_within [of "mb_role m" k0]
  have "kp_id k = ky_id row" "set (kp_scopes k0) \<subseteq> set (scopes_for_role (kp_ceiling k0))"
      "set (kp_scopes k0) \<subseteq> set (expand_scopes (PList (map PStr (ky_scopes row))))"
    using capped gate(4) assms(2) row(6) effective_within by (auto simp: effective_scopes_def)
  then have "scope \<in> set (scopes_for_role (wc_role ctx))" "scope \<in> set (expand_scopes (PList (map PStr (ky_scopes row))))"
      "role_satisfies (mb_role m) (wc_role ctx)" "role_satisfies (ky_ceiling row) (wc_role ctx)"
    using capped gate(2,7) row(6) by auto
  with row gate \<open>kp_id k = ky_id row\<close> show ?thesis
    by (intro exI [of _ row] exI [of _ m] exI [of _ scope]) (auto split: option.splits)
qed

text \<open>A member with a key for reading chats and keeping memories.\<close>

definition mia_db :: access_db where
  "mia_db = \<lparr>db_users = [\<lparr>ac_id = ''mia'', ac_email = ''mia@x.org'', ac_active = True\<rparr>], db_workspaces = [''w''],
    db_members = [\<lparr>mb_id = ''m'', mb_workspace = ''w'', mb_user = ''mia'', mb_role = MEMBER\<rparr>],
    db_invitations = [], db_keys = []\<rparr>"

definition mia_key :: api_key where
  "mia_key = \<lparr>ky_id = ''k'', ky_workspace = ''w'', ky_name = ''ci'', ky_prefix = ''0123abcd'', ky_hash = ''hs_1'',
    ky_created_by = Some ''mia'', ky_ceiling = MEMBER,
    ky_scopes = [''chats:read'', ''memories:read'', ''memories:write''], ky_expires_at = Some 7200000005,
    ky_last_used = None, ky_revoked_at = None\<rparr>"

theorem key_within_its_creator_witness:
  "\<exists>m. member_of mia_db ''w'' ''mia'' = Some m \<and> role_satisfies (mb_role m) MEMBER
     \<and> ''memories:write'' \<in> set (scopes_for_role MEMBER)"
proof -
  let ?h = "\<lambda>x. CHR ''h'' # x" and ?db = "mia_db\<lparr>db_keys := [mia_key]\<rparr>"
  let ?k = "\<lparr>kp_id = ''k'', kp_workspace = ''w'', kp_ceiling = MEMBER,
    kp_scopes = effective_scopes (PList (map PStr (ky_scopes mia_key))) MEMBER\<rparr>"
  let ?path = "WORKSPACE_PREFIX @ ''/memories''"
  have route: "required_scope ''POST'' ?path = Some ''memories:write''"
    by code_simp
  have principal: "current_principal ?h False (Some ''Bearer jhin_0123abcd_s_1'') None 6 ?db
      = Inr (''mia'', Some ?k, mia_db\<lparr>db_keys := [mia_key\<lparr>ky_last_used := Some 6\<rparr>]\<rparr>)"
    by code_simp
  have "''memories:write'' \<in> set (kp_scopes ?k)"
    by code_simp
  then have "require_workspace_role MEMBER ''POST'' ?path ''w'' ''mia'' (Some ?k) (mia_db\<lparr>db_keys := [mia_key\<lparr>ky_last_used := Some 6\<rparr>]\<rparr>)
      = Inr \<lparr>wc_user = ''mia'', wc_workspace = ''w'', wc_role = MEMBER, wc_key = Some ?k\<rparr>"
    using route
    by (simp add: require_workspace_role_def member_of_def mia_db_def capped_key_def enforce_api_key_def Let_def)
  then have "admit ?h False (Some ''Bearer jhin_0123abcd_s_1'') None MEMBER ''POST'' ?path ''w'' 6 ?db
      = Inr (\<lparr>wc_user = ''mia'', wc_workspace = ''w'', wc_role = MEMBER, wc_key = Some ?k\<rparr>,
          mia_db\<lparr>db_keys := [mia_key\<lparr>ky_last_used := Some 6\<rparr>]\<rparr>)"
    by (simp add: admit_def principal)
  from key_within_its_creator [OF this] route show ?thesis
    by (auto simp: member_of_def)
qed

section \<open>Changes of membership\<close>

text \<open>
  The rules of \<open>docs/architecture/rbac.md\<close> as a relation: what one transaction of somebody may do to the
  memberships.
\<close>

definition may_edit :: "workspace_context \<Rightarrow> membership \<Rightarrow> bool" where
  "may_edit ctx m \<longleftrightarrow> (mb_role m = OWNER \<longrightarrow> wc_role ctx = OWNER)
     \<and> (mb_role m = ADMIN \<longrightarrow> mb_user m = wc_user ctx \<or> wc_role ctx = OWNER)"

definition another_owner :: "membership list \<Rightarrow> membership \<Rightarrow> bool" where
  "another_owner ms m \<longleftrightarrow>
     (\<exists>n \<in> set ms. mb_id n \<noteq> mb_id m \<and> mb_workspace n = mb_workspace m \<and> mb_role n = OWNER)"

inductive membership_change :: "workspace_context \<Rightarrow> membership list \<Rightarrow> membership list \<Rightarrow> bool"
  for ctx ms where
  stays: "membership_change ctx ms ms"
| joins: "\<lbrakk>mb_workspace row = wc_workspace ctx; mb_role row = OWNER \<longrightarrow> wc_role ctx = OWNER;
           \<forall>m \<in> set ms. mb_id m \<noteq> mb_id row \<and> (mb_workspace m \<noteq> mb_workspace row \<or> mb_user m \<noteq> mb_user row)\<rbrakk>
          \<Longrightarrow> membership_change ctx ms (ms @ [row])"
| changes: "\<lbrakk>m \<in> set ms; mb_workspace m = wc_workspace ctx; may_edit ctx m; role = OWNER \<longrightarrow> wc_role ctx = OWNER;
             mb_role m = OWNER \<and> role \<noteq> OWNER \<longrightarrow> another_owner ms m\<rbrakk>
            \<Longrightarrow> membership_change ctx ms (map (\<lambda>n. if mb_id n = mb_id m then n\<lparr>mb_role := role\<rparr> else n) ms)"
| leaves: "\<lbrakk>m \<in> set ms; mb_workspace m = wc_workspace ctx; may_edit ctx m;
            mb_role m = OWNER \<longrightarrow> another_owner ms m\<rbrakk>
           \<Longrightarrow> membership_change ctx ms (filter (\<lambda>n. mb_id n \<noteq> mb_id m) ms)"

lemma authority_to_modify_None:
  "require_authority_to_modify ctx m = None
     \<longleftrightarrow> (mb_role m \<in> {ADMIN, OWNER} \<longrightarrow> mb_user m = wc_user ctx \<or> wc_role ctx = OWNER)"
  by (auto simp: require_authority_to_modify_def)

lemma get_membership_Inr:
  "get_membership db w mid = Inr m \<Longrightarrow> m \<in> set (db_members db) \<and> mb_id m = mid \<and> mb_workspace m = w"
  unfolding get_membership_def using find_Some_in by (fastforce split: option.splits)

lemma keeps_an_owner_None:
  assumes "keeps_an_owner db m = None" "m \<in> set (db_members db)" "distinct (map mb_id (db_members db))"
  shows "another_owner (db_members db) m"
proof -
  let ?owners = "filter (\<lambda>n. mb_workspace n = mb_workspace m \<and> mb_role n = OWNER) (db_members db)"
  have two: "1 < length ?owners"
    using assms(1) by (simp add: keeps_an_owner_def owner_count_def split: if_splits)
  have "distinct (map mb_id ?owners)"
    using assms(3) by (rule distinct_map_filter)
  then have "card (mb_id ` set ?owners) = length ?owners"
    using distinct_card [of "map mb_id ?owners"] by simp
  then have "\<not> mb_id ` set ?owners \<subseteq> {mb_id m}"
    using two card_mono [of "{mb_id m}" "mb_id ` set ?owners"] by auto
  then show ?thesis
    by (auto simp: another_owner_def)
qed

lemma check_update_Inr:
  assumes "check_update ctx mid role db = Inr m"
  shows "m \<in> set (db_members db) \<and> mb_id m = mid \<and> mb_workspace m = wc_workspace ctx \<and> may_edit ctx m
      \<and> (role = OWNER \<longrightarrow> wc_role ctx = OWNER) \<and> (mb_role m = OWNER \<and> role \<noteq> OWNER \<longrightarrow> keeps_an_owner db m = None)"
proof -
  have "get_membership db (wc_workspace ctx) mid = Inr m" "require_authority_over ctx [role, mb_role m] = None"
      "require_authority_to_modify ctx m = None" "mb_role m = OWNER \<and> role \<noteq> OWNER \<longrightarrow> keeps_an_owner db m = None"
    using assms unfolding check_update_def by (auto split: sum.splits option.splits if_splits)
  then show ?thesis
    using get_membership_Inr [of db "wc_workspace ctx" mid m]
    by (simp add: may_edit_def authority_over_None authority_to_modify_None)
qed

lemma check_remove_Inr:
  assumes "check_remove ctx mid db = Inr m"
  shows "m \<in> set (db_members db) \<and> mb_id m = mid \<and> mb_workspace m = wc_workspace ctx \<and> may_edit ctx m
      \<and> (mb_role m = OWNER \<longrightarrow> keeps_an_owner db m = None)"
proof -
  have "get_membership db (wc_workspace ctx) mid = Inr m" "require_authority_over ctx [mb_role m] = None"
      "require_authority_to_modify ctx m = None" "mb_role m = OWNER \<longrightarrow> keeps_an_owner db m = None"
    using assms unfolding check_remove_def by (auto split: sum.splits option.splits if_splits)
  then show ?thesis
    using get_membership_Inr [of db "wc_workspace ctx" mid m]
    by (simp add: may_edit_def authority_over_None authority_to_modify_None)
qed

text \<open>Every action but the deletion of the workspace refines the relation.\<close>

lemma perform_refines:
  assumes "perform st ctx now action db = Inr db'" "distinct (map mb_id (db_members db))" "action \<noteq> DeleteWorkspace"
  shows "membership_change ctx (db_members db) (db_members db') \<and> db_workspaces db' = db_workspaces db"
proof (cases action)
  case (AddMember email role mid)
  then obtain row where row: "insert_member row db = Inr db'" "mb_workspace row = wc_workspace ctx"
      "mb_role row = OWNER \<longrightarrow> wc_role ctx = OWNER"
    using assms(1) by (auto simp: add_member_def authority_over_None split: option.splits if_splits)
  then show ?thesis
    using membership_change.joins [of row ctx "db_members db"] by (auto simp: insert_member_Inr)
next
  case (UpdateMember mid role)
  then obtain m where m: "check_update ctx mid role db = Inr m" "db' = write_role (mb_id m) role db"
    using assms(1) by (auto simp: update_member_role_def split: sum.splits)
  note check = check_update_Inr [OF m(1)]
  then have "mb_role m = OWNER \<and> role \<noteq> OWNER \<longrightarrow> another_owner (db_members db) m"
    using keeps_an_owner_None assms(2) by blast
  with check show ?thesis
    using membership_change.changes [of m "db_members db" ctx role] by (simp add: m(2) write_role_def)
next
  case (RemoveMember mid)
  then obtain m where m: "check_remove ctx mid db = Inr m" "db' = delete_member (mb_id m) db"
    using assms(1) by (auto simp: remove_member_def split: sum.splits)
  note check = check_remove_Inr [OF m(1)]
  then have "mb_role m = OWNER \<longrightarrow> another_owner (db_members db) m"
    using keeps_an_owner_None assms(2) by blast
  with check show ?thesis
    using membership_change.leaves [of m "db_members db" ctx] by (simp add: m(2) delete_member_def)
next
  case (Invite email role token iid)
  then have "db_members db' = db_members db \<and> db_workspaces db' = db_workspaces db"
    using assms(1)
    by (auto simp: create_invitation_def Let_def insert_invitation_def split: option.splits if_splits)
  then show ?thesis by (simp add: membership_change.stays)
next
  case (RevokeInvitation iid)
  then have "db_members db' = db_members db \<and> db_workspaces db' = db_workspaces db"
    using assms(1) by (auto simp: revoke_invitation_def split: option.splits if_splits)
  then show ?thesis by (simp add: membership_change.stays)
next
  case (CreateKey name scopes expires_in unit kid key_prefix secret)
  then have "db_members db' = db_members db \<and> db_workspaces db' = db_workspaces db"
    using assms(1) by (auto dest!: create_key_Inr split: if_splits)
  then show ?thesis by (simp add: membership_change.stays)
next
  case (RevokeKey kid)
  then have "db_members db' = db_members db \<and> db_workspaces db' = db_workspaces db"
    using assms(1) by (auto dest!: revoke_key_Inr)
  then show ?thesis by (simp add: membership_change.stays)
next
  case (OtherRoute verb path required)
  then show ?thesis
    using assms(1) by (simp add: membership_change.stays)
qed (use assms in simp)

section \<open>A workspace keeps an owner\<close>

definition members_ok :: "string list \<Rightarrow> membership list \<Rightarrow> bool" where
  "members_ok ws ms \<longleftrightarrow>
     distinct (map mb_id ms) \<and> distinct (map (\<lambda>m. (mb_workspace m, mb_user m)) ms)
     \<and> (\<forall>m \<in> set ms. mb_workspace m \<in> set ws)
     \<and> (\<forall>w \<in> set ws. \<exists>m \<in> set ms. mb_workspace m = w \<and> mb_role m = OWNER)"

lemma members_ok_join:
  assumes "members_ok ws ms" "mb_workspace row \<in> set ws"
    and "\<forall>m \<in> set ms. mb_id m \<noteq> mb_id row \<and> (mb_workspace m \<noteq> mb_workspace row \<or> mb_user m \<noteq> mb_user row)"
  shows "members_ok ws (ms @ [row])"
  using assms by (auto simp: members_ok_def)

lemma map_role_same: "map (\<lambda>m. (mb_workspace m, mb_user m)) (map (\<lambda>n. if mb_id n = i then n\<lparr>mb_role := role\<rparr> else n) ms)
    = map (\<lambda>m. (mb_workspace m, mb_user m)) ms"
  "map mb_id (map (\<lambda>n. if mb_id n = i then n\<lparr>mb_role := role\<rparr> else n) ms) = map mb_id ms"
  by simp_all

lemma same_membership: "distinct (map mb_id ms) \<Longrightarrow> m \<in> set ms \<Longrightarrow> n \<in> set ms \<Longrightarrow> mb_id n = mb_id m \<Longrightarrow> n = m"
  by (metis distinct_map inj_onD)

lemma members_ok_change:
  assumes "membership_change ctx ms ms'" "members_ok ws ms" "wc_workspace ctx \<in> set ws"
  shows "members_ok ws ms'"
  using assms(1)
proof cases
  case stays
  with assms(2) show ?thesis by simp
next
  case (joins row)
  with assms(2,3) show ?thesis by (simp add: members_ok_join)
next
  case (changes m role)
  let ?f = "\<lambda>n. if mb_id n = mb_id m then n\<lparr>mb_role := role\<rparr> else n"
  have owner: "\<exists>n \<in> set ms. mb_workspace (?f n) = w \<and> mb_role (?f n) = OWNER" if w: "w \<in> set ws" for w
  proof -
    obtain n where n: "n \<in> set ms" "mb_workspace n = w" "mb_role n = OWNER"
      using assms(2) w by (auto simp: members_ok_def)
    show ?thesis
    proof (cases "n = m \<and> role \<noteq> OWNER")
      case True
      then obtain k where "k \<in> set ms" "mb_id k \<noteq> mb_id m" "mb_workspace k = w" "mb_role k = OWNER"
        using changes(6) n by (auto simp: another_owner_def)
      then show ?thesis by (intro bexI [of _ k]) simp_all
    next
      case False
      then show ?thesis
        using n same_membership assms(2) changes(2) by (intro bexI [of _ n]) (auto simp: members_ok_def)
    qed
  qed
  have "\<forall>w \<in> set ws. \<exists>n \<in> set (map ?f ms). mb_workspace n = w \<and> mb_role n = OWNER"
    unfolding set_map using owner by blast
  moreover have "\<forall>n \<in> set (map ?f ms). mb_workspace n \<in> set ws"
    using assms(2) by (auto simp: members_ok_def)
  ultimately show ?thesis
    using assms(2) unfolding members_ok_def changes(1) map_role_same by blast
next
  case (leaves m)
  have "\<exists>n \<in> set ms. mb_id n \<noteq> mb_id m \<and> mb_workspace n = w \<and> mb_role n = OWNER" if w: "w \<in> set ws" for w
  proof -
    obtain n where n: "n \<in> set ms" "mb_workspace n = w" "mb_role n = OWNER"
      using assms(2) w by (auto simp: members_ok_def)
    then show ?thesis
      using leaves(5) same_membership [of ms m n] assms(2) leaves(2)
      by (cases "mb_id n = mb_id m") (auto simp: members_ok_def another_owner_def)
  qed
  then show ?thesis
    using assms(2) unfolding members_ok_def leaves(1) by (auto intro: distinct_map_filter)
qed

definition access_ok :: "access_db \<Rightarrow> bool" where
  "access_ok db \<longleftrightarrow> members_ok (db_workspaces db) (db_members db)"

lemma access_ok_same:
  "db_workspaces db' = db_workspaces db \<Longrightarrow> db_members db' = db_members db \<Longrightarrow> access_ok db' \<longleftrightarrow> access_ok db"
  by (simp add: access_ok_def)

lemma member_of_Some: "member_of db w uid = Some m \<Longrightarrow> m \<in> set (db_members db) \<and> mb_workspace m = w \<and> mb_user m = uid"
  unfolding member_of_def using find_Some_in by fastforce

lemma member_of_None:
  "member_of db w uid = None \<longleftrightarrow> (\<forall>m \<in> set (db_members db). mb_workspace m = w \<longrightarrow> mb_user m \<noteq> uid)"
  by (auto simp: member_of_def find_None)

lemma gate_Inr:
  assumes "require_workspace_role required verb path w uid key db = Inr ctx"
  shows "(\<exists>m. member_of db w uid = Some m) \<and> wc_workspace ctx = w \<and> wc_user ctx = uid \<and> role_satisfies (wc_role ctx) required"
  using assms by (auto simp: require_workspace_role_def Let_def split: option.splits if_splits)

lemma admitted_Inr:
  assumes "admitted st header session blocked w action now db = Inr (ctx, db')"
  shows "db_users db' = db_users db \<and> db_workspaces db' = db_workspaces db \<and> db_members db' = db_members db
      \<and> db_invitations db' = db_invitations db \<and> wc_workspace ctx = w \<and> role_satisfies (wc_role ctx) (snd (snd (action_route action)))
      \<and> (\<exists>m \<in> set (db_members db). mb_workspace m = w)"
proof -
  obtain verb path required where route: "action_route action = (verb, path, required)"
    by (cases "action_route action")
  then have "admit (as_hash st) blocked header session required verb path w now db = Inr (ctx, db')"
    using assms by (simp add: admitted_def)
  then obtain uid key where "current_principal (as_hash st) blocked header session now db = Inr (uid, key, db')"
      "require_workspace_role required verb path w uid key db' = Inr ctx"
    using admit_Inr by blast
  then show ?thesis
    using principal_rest gate_Inr member_of_Some route by fastforce
qed

lemma delete_workspace_Inr:
  assumes "delete_workspace ctx db = Inr db'"
  shows "db_workspaces db' = removeAll (wc_workspace ctx) (db_workspaces db)
      \<and> db_members db' = filter (\<lambda>m. mb_workspace m \<noteq> wc_workspace ctx) (db_members db)
      \<and> db_invitations db' = filter (\<lambda>i. iv_workspace i \<noteq> wc_workspace ctx) (db_invitations db)
      \<and> db_keys db' = filter (\<lambda>k. ky_workspace k \<noteq> wc_workspace ctx) (db_keys db) \<and> db_users db' = db_users db"
  using assms by (auto simp: delete_workspace_def Let_def split: if_splits)

lemma members_ok_delete: "members_ok ws ms \<Longrightarrow> members_ok (removeAll w ws) (filter (\<lambda>m. mb_workspace m \<noteq> w) ms)"
  by (fastforce simp: members_ok_def intro: distinct_map_filter)

lemma create_workspace_Inr:
  assumes "create_workspace uid w mid db = Inr db'"
  shows "w \<notin> set (db_workspaces db) \<and> (\<forall>m \<in> set (db_members db). mb_id m \<noteq> mid)
      \<and> db' = db\<lparr>db_workspaces := db_workspaces db @ [w],
                  db_members := db_members db @ [\<lparr>mb_id = mid, mb_workspace = w, mb_user = uid, mb_role = OWNER\<rparr>]\<rparr>"
  using assms by (auto simp: create_workspace_def insert_workspace_def insert_member_Inr split: if_splits)

lemma access_ok_create: "access_ok db \<Longrightarrow> create_workspace uid w mid db = Inr db' \<Longrightarrow> access_ok db'"
  by (fastforce simp: access_ok_def members_ok_def dest!: create_workspace_Inr)

lemma accepting_user_Inr:
  assumes "accepting_user common i password acting new_uid db = Inr (uid, db')"
  shows "db_workspaces db' = db_workspaces db \<and> db_members db' = db_members db \<and> db_invitations db' = db_invitations db
      \<and> db_keys db' = db_keys db"
  using assms by (auto simp: accepting_user_def insert_user_def split: option.splits if_splits)

lemma join_workspace_Inr:
  assumes "join_workspace i uid mid db = Inr db'"
  shows "db' = db \<or> (\<exists>row. mb_workspace row = iv_workspace i \<and> mb_role row = iv_role i
      \<and> (\<forall>m \<in> set (db_members db). mb_id m \<noteq> mb_id row \<and> (mb_workspace m \<noteq> mb_workspace row \<or> mb_user m \<noteq> mb_user row))
      \<and> db' = db\<lparr>db_members := db_members db @ [row]\<rparr>)"
proof (cases "member_of db (iv_workspace i) uid")
  case None
  then have "insert_member \<lparr>mb_id = mid, mb_workspace = iv_workspace i, mb_user = uid, mb_role = iv_role i\<rparr> db = Inr db'"
    using assms by (simp add: join_workspace_def)
  then show ?thesis
    unfolding insert_member_Inr by (intro disjI2 exI) auto
qed (use assms in \<open>simp add: join_workspace_def\<close>)

text \<open>An acceptance: the pending invitation, the membership it gave, and the invitation stamped.\<close>

lemma accept_invitation_Inr:
  assumes "accept_invitation hash common token password acting new_uid mid now db = Inr (uid, db')"
  shows "\<exists>i. i \<in> set (db_invitations db) \<and> iv_token_hash i = hash token \<and> invitation_status i now = IvPending
      \<and> iv_workspace i \<in> set (db_workspaces db) \<and> db_workspaces db' = db_workspaces db \<and> db_keys db' = db_keys db
      \<and> (db_members db' = db_members db \<or> (\<exists>row. mb_workspace row = iv_workspace i \<and> mb_role row = iv_role i
          \<and> (\<forall>m \<in> set (db_members db). mb_id m \<noteq> mb_id row \<and> (mb_workspace m \<noteq> mb_workspace row \<or> mb_user m \<noteq> mb_user row))
          \<and> db_members db' = db_members db @ [row]))
      \<and> db_invitations db' = map (\<lambda>j. if iv_id j = iv_id i
                                      then j\<lparr>iv_accepted_at := Some now, iv_accepted_user := Some uid\<rparr> else j)
                               (db_invitations db)"
proof -
  obtain i where i: "usable_invitation hash token now db = Inr i" "iv_workspace i \<in> set (db_workspaces db)"
    using assms by (auto simp: accept_invitation_def split: sum.splits if_splits)
  then obtain db1 where one: "accepting_user common i password acting new_uid db = Inr (uid, db1)"
    using assms by (auto simp: accept_invitation_def split: sum.splits prod.splits)
  then obtain db2 where two: "join_workspace i uid mid db1 = Inr db2"
    using assms i by (auto simp: accept_invitation_def split: sum.splits)
  have db': "db' = db2\<lparr>db_invitations := map (\<lambda>j. if iv_id j = iv_id i
      then j\<lparr>iv_accepted_at := Some now, iv_accepted_user := Some uid\<rparr> else j) (db_invitations db2)\<rparr>"
    using assms i one two by (simp add: accept_invitation_def)
  have "i \<in> set (db_invitations db) \<and> iv_token_hash i = hash token \<and> invitation_status i now = IvPending"
    using i(1) find_Some_in unfolding usable_invitation_def by (fastforce split: option.splits if_splits)
  then show ?thesis
    using i(2) accepting_user_Inr [OF one] join_workspace_Inr [OF two] by (intro exI [of _ i]) (auto simp: db')
qed

lemma access_ok_step:
  assumes "access_ok db"
  shows "access_ok (access_step st e db)"
proof (cases e)
  case (Request header session blocked w action now)
  show ?thesis
  proof (cases "admitted st header session blocked w action now db")
    case (Inl err)
    show ?thesis
    proof (cases "current_principal (as_hash st) blocked header session now db")
      case (Inr p)
      then obtain uid key db1 where "current_principal (as_hash st) blocked header session now db = Inr (uid, key, db1)"
        by (cases p) auto
      with assms Request Inl principal_rest [OF this] show ?thesis
        by (simp add: access_ok_def)
    qed (use assms Request Inl in simp)
  next
    case (Inr p)
    then obtain ctx db1 where one: "admitted st header session blocked w action now db = Inr (ctx, db1)"
      by (cases p) auto
    note admission = admitted_Inr [OF one]
    have ok: "access_ok db1"
      using assms admission access_ok_same by metis
    show ?thesis
    proof (cases "perform st ctx now action db1")
      case (Inl err)
      then show ?thesis
        using ok one Request by (simp add: committed_def)
    next
      case (Inr db2)
      have "access_ok db2"
      proof (cases "action = DeleteWorkspace")
        case True
        then show ?thesis
          using ok Inr delete_workspace_Inr members_ok_delete by (simp add: access_ok_def)
      next
        case False
        have "wc_workspace ctx \<in> set (db_workspaces db1)"
          using assms admission by (auto simp: access_ok_def members_ok_def)
        then show ?thesis
          using perform_refines [OF Inr] False ok members_ok_change by (auto simp: access_ok_def members_ok_def)
      qed
      then show ?thesis
        using one Request Inr by (simp add: committed_def)
    qed
  qed
next
  case (NewWorkspace session w mid now)
  then show ?thesis
    using assms access_ok_create by (auto simp: committed_def split: option.splits sum.splits)
next
  case (Accept token password session new_uid mid now)
  show ?thesis
  proof (cases "accept_invitation (as_hash st) (as_common st) token password (signed_in session db) new_uid mid now db")
    case (Inl err)
    then show ?thesis using assms Accept by simp
  next
    case (Inr p)
    then obtain uid db1 where "accept_invitation (as_hash st) (as_common st) token password (signed_in session db) new_uid mid now db
        = Inr (uid, db1)"
      by (cases p) auto
    moreover from accept_invitation_Inr [OF this] have "access_ok db1"
      using assms members_ok_join by (auto simp: access_ok_def)
    ultimately show ?thesis
      using Accept by simp
  qed
next
  case (Bootstrap email password uid w mid)
  have "access_ok db'" if boot: "bootstrap_owner (as_common st) email password uid w mid db = Inr db'" for db'
  proof -
    obtain db1 where "insert_user \<lparr>ac_id = uid, ac_email = normalize_email email, ac_active = True\<rparr> db = Inr db1"
        "create_workspace uid w mid db1 = Inr db'"
      using boot by (auto simp: bootstrap_owner_def split: option.splits if_splits sum.splits)
    then show ?thesis
      using assms access_ok_create [of db1] by (auto simp: insert_user_def access_ok_def split: if_splits)
  qed
  then show ?thesis
    using assms Bootstrap by (auto simp: committed_def split: sum.splits)
next
  case (SetActive uid active)
  then show ?thesis
    using assms by (simp add: access_ok_def)
qed

lemma access_run_simps [simp]:
  "access_run st [] db = db" "access_run st (e # es) db = access_run st es (access_step st e db)"
  by (simp_all add: access_run_def)

lemma access_ok_run: "access_ok db \<Longrightarrow> access_ok (access_run st es db)"
  by (induction es arbitrary: db) (simp_all add: access_ok_step)

text \<open>
  C11 (invariant) After any history of requests every workspace that exists has an owner: neither removal nor
  demotion, by anybody and of anybody, takes the last one.
\<close>

theorem workspace_keeps_owner:
  "list_all (\<lambda>w. owner_count (access_run st es empty_db) w \<noteq> 0) (db_workspaces (access_run st es empty_db))"
proof -
  have "access_ok empty_db"
    by (simp add: access_ok_def members_ok_def empty_db_def)
  then have "access_ok (access_run st es empty_db)"
    by (rule access_ok_run)
  then show ?thesis
    by (force simp: access_ok_def members_ok_def owner_count_def list_all_iff filter_empty_conv)
qed

end
