(* ===== verification/AccessOwners.thy ===== *)
theory AccessOwners
  imports AccessProps
begin

text \<open>
  Ownership cannot be taken: without an owner acting, the owners of a workspace stay who they are, and without an
  owner or the admin in question acting, an admin stays an admin. Two owners who act at once, though, can leave
  a workspace without one.
\<close>

definition has_role :: "membership list \<Rightarrow> string \<Rightarrow> string \<Rightarrow> workspace_role \<Rightarrow> bool" where
  "has_role ms w uid role \<longleftrightarrow> (\<exists>m \<in> set ms. mb_workspace m = w \<and> mb_user m = uid \<and> mb_role m = role)"

definition owner_link :: "access_db \<Rightarrow> string \<Rightarrow> bool" where
  "owner_link db w \<longleftrightarrow>
     list_ex (\<lambda>i. iv_workspace i = w \<and> iv_role i = OWNER \<and> iv_accepted_at i = None \<and> iv_revoked_at i = None)
       (db_invitations db)"

text \<open>Who acts in which workspace in an event, and with what role.\<close>

definition acting :: "access_settings \<Rightarrow> access_event \<Rightarrow> access_db \<Rightarrow> (string \<times> string \<times> workspace_role) option" where
  "acting st e db =
     (case e of
        Request header session blocked w action now \<Rightarrow>
          (case admitted st header session blocked w action now db of
             Inr (ctx, db') \<Rightarrow> Some (w, wc_user ctx, wc_role ctx) | Inl err \<Rightarrow> None)
      | _ \<Rightarrow> None)"

fun no_owner_acts :: "access_settings \<Rightarrow> string \<Rightarrow> access_event list \<Rightarrow> access_db \<Rightarrow> bool" where
  "no_owner_acts st w [] db \<longleftrightarrow> True"
| "no_owner_acts st w (e # es) db \<longleftrightarrow>
     (case acting st e db of Some (v, uid, role) \<Rightarrow> v \<noteq> w \<or> role \<noteq> OWNER | None \<Rightarrow> True)
     \<and> no_owner_acts st w es (access_step st e db)"

fun never_acts :: "access_settings \<Rightarrow> string \<Rightarrow> string \<Rightarrow> access_event list \<Rightarrow> access_db \<Rightarrow> bool" where
  "never_acts st w uid [] db \<longleftrightarrow> True"
| "never_acts st w uid (e # es) db \<longleftrightarrow>
     (case acting st e db of Some (v, u, role) \<Rightarrow> v \<noteq> w \<or> u \<noteq> uid | None \<Rightarrow> True)
     \<and> never_acts st w uid es (access_step st e db)"

section \<open>One change\<close>

lemma has_role_append: "has_role (ms @ [row]) w uid r
    \<longleftrightarrow> has_role ms w uid r \<or> (mb_workspace row = w \<and> mb_user row = uid \<and> mb_role row = r)"
  by (auto simp: has_role_def)

lemma has_role_filter:
  assumes "distinct (map mb_id ms)" "m \<in> set ms"
  shows "has_role (filter (\<lambda>n. mb_id n \<noteq> mb_id m) ms) w uid r
    \<longleftrightarrow> (\<exists>n \<in> set ms. n \<noteq> m \<and> mb_workspace n = w \<and> mb_user n = uid \<and> mb_role n = r)"
proof -
  have "filter (\<lambda>n. mb_id n \<noteq> mb_id m) ms = filter (\<lambda>n. n \<noteq> m) ms"
    using same_membership [OF assms] by (intro filter_cong) auto
  then show ?thesis
    by (auto simp: has_role_def)
qed

lemma has_role_map:
  assumes "distinct (map mb_id ms)" "m \<in> set ms"
  shows "has_role (map (\<lambda>n. if mb_id n = mb_id m then n\<lparr>mb_role := role\<rparr> else n) ms) w uid r
    \<longleftrightarrow> (\<exists>n \<in> set ms. n \<noteq> m \<and> mb_workspace n = w \<and> mb_user n = uid \<and> mb_role n = r)
      \<or> (mb_workspace m = w \<and> mb_user m = uid \<and> role = r)"
proof -
  have "map (\<lambda>n. if mb_id n = mb_id m then n\<lparr>mb_role := role\<rparr> else n) ms
      = map (\<lambda>n. if n = m then m\<lparr>mb_role := role\<rparr> else n) ms"
    using same_membership [OF assms] by (intro map_cong) auto
  then show ?thesis
    using assms(2) by (auto simp: has_role_def)
qed

text \<open>A change made by somebody who is not an owner of \<open>w\<close> leaves its owners, and the other admins, alone.\<close>

lemma change_keeps_owners:
  assumes "membership_change ctx ms ms'" "members_ok ws ms"
    and "wc_workspace ctx \<noteq> w \<or> wc_role ctx \<noteq> OWNER"
  shows "has_role ms' w uid OWNER \<longleftrightarrow> has_role ms w uid OWNER"
proof -
  have ids: "distinct (map mb_id ms)"
    using assms(2) by (simp add: members_ok_def)
  show ?thesis
    using assms(1)
  proof cases
    case (joins row)
    with assms(3) show ?thesis
      by (auto simp: has_role_append)
  next
    case (changes m role)
    then have "(mb_role m = OWNER \<or> role = OWNER) \<longrightarrow> mb_workspace m \<noteq> w"
      using assms(3) by (auto simp: may_edit_def)
    then show ?thesis
      unfolding changes(1) has_role_map [OF ids changes(2)] using changes(2) by (auto simp: has_role_def)
  next
    case (leaves m)
    then have "mb_role m = OWNER \<longrightarrow> mb_workspace m \<noteq> w"
      using assms(3) by (auto simp: may_edit_def)
    then show ?thesis
      unfolding leaves(1) has_role_filter [OF ids leaves(2)] by (auto simp: has_role_def)
  qed simp
qed

lemma change_keeps_admins:
  assumes "membership_change ctx ms ms'" "members_ok ws ms" "has_role ms w uid ADMIN"
    and "wc_workspace ctx \<noteq> w \<or> (wc_role ctx \<noteq> OWNER \<and> wc_user ctx \<noteq> uid)"
  shows "has_role ms' w uid ADMIN"
proof -
  have ids: "distinct (map mb_id ms)"
    using assms(2) by (simp add: members_ok_def)
  show ?thesis
    using assms(1)
  proof cases
    case (joins row)
    with assms(3) show ?thesis
      by (simp add: has_role_append)
  next
    case (changes m role)
    then have "mb_role m = ADMIN \<longrightarrow> mb_workspace m \<noteq> w \<or> mb_user m \<noteq> uid"
      using assms(4) by (auto simp: may_edit_def)
    then show ?thesis
      unfolding changes(1) has_role_map [OF ids changes(2)] using assms(3) by (auto simp: has_role_def)
  next
    case (leaves m)
    then have "mb_role m = ADMIN \<longrightarrow> mb_workspace m \<noteq> w \<or> mb_user m \<noteq> uid"
      using assms(4) by (auto simp: may_edit_def)
    then show ?thesis
      unfolding leaves(1) has_role_filter [OF ids leaves(2)] using assms(3) by (auto simp: has_role_def)
  qed (use assms in simp)
qed

section \<open>One event\<close>

lemma list_ex_map_mono: "(\<And>i. P (f i) \<Longrightarrow> P i) \<Longrightarrow> list_ex P (map f xs) \<Longrightarrow> list_ex P xs"
  by (auto simp: list_ex_iff)

lemma perform_links:
  assumes "perform st ctx now action db = Inr db'" "\<not> owner_link db w" "wc_workspace ctx \<noteq> w \<or> wc_role ctx \<noteq> OWNER"
  shows "\<not> owner_link db' w"
proof (cases action)
  case (AddMember email role mid)
  with assms show ?thesis
    by (auto simp: add_member_def insert_member_Inr owner_link_def split: option.splits if_splits)
next
  case (UpdateMember mid role)
  with assms show ?thesis
    by (auto simp: update_member_role_def write_role_def owner_link_def split: sum.splits)
next
  case (RemoveMember mid)
  with assms show ?thesis
    by (auto simp: remove_member_def delete_member_def owner_link_def split: sum.splits)
next
  case (Invite email role token iid)
  then obtain stale row where row: "db' = db\<lparr>db_invitations :=
        map (\<lambda>i. if stale i then i\<lparr>iv_revoked_at := Some now\<rparr> else i) (db_invitations db) @ [row]\<rparr>"
      "iv_role row = role" "iv_workspace row = wc_workspace ctx" "role = OWNER \<longrightarrow> wc_role ctx = OWNER"
    using assms(1) create_invitation_Inr [of "as_hash st" ctx email role "as_ttl_days st" token iid now db db'] by auto
  show ?thesis
  proof
    assume "owner_link db' w"
    then have "owner_link db w"
      using row assms(3) unfolding owner_link_def by (auto elim!: list_ex_map_mono [rotated] split: if_splits)
    then show False
      using assms(2) by simp
  qed
next
  case (RevokeInvitation iid)
  then have "db' = db\<lparr>db_invitations :=
      map (\<lambda>j. if iv_id j = iid then j\<lparr>iv_revoked_at := Some now\<rparr> else j) (db_invitations db)\<rparr>"
    using assms(1) by (auto simp: revoke_invitation_def split: option.splits if_splits)
  then show ?thesis
    using assms(2) unfolding owner_link_def by (auto dest!: list_ex_map_mono [rotated] split: if_splits)
next
  case (CreateKey name scopes expires_in unit kid key_prefix secret)
  with assms show ?thesis
    by (auto simp: owner_link_def dest!: create_key_Inr split: if_splits)
next
  case (RevokeKey kid)
  with assms show ?thesis
    by (auto simp: owner_link_def dest!: revoke_key_Inr)
next
  case DeleteWorkspace
  with assms(1,2) show ?thesis
    using delete_workspace_Inr [of ctx db db'] by (auto simp: owner_link_def list_ex_iff)
qed (use assms in simp)

text \<open>What an event leaves alone, given that nobody who might change it acts.\<close>

definition owners_alone :: "(string \<Rightarrow> bool) \<Rightarrow> string \<Rightarrow> access_db \<Rightarrow> access_db \<Rightarrow> bool" where
  "owners_alone idle w db db' \<longleftrightarrow>
     w \<in> set (db_workspaces db') \<and> \<not> owner_link db' w
     \<and> (\<forall>uid. has_role (db_members db') w uid OWNER \<longleftrightarrow> has_role (db_members db) w uid OWNER)
     \<and> (\<forall>uid. idle uid \<longrightarrow> has_role (db_members db) w uid ADMIN \<longrightarrow> has_role (db_members db') w uid ADMIN)"

lemma owners_alone_same:
  "w \<in> set (db_workspaces db) \<Longrightarrow> \<not> owner_link db w \<Longrightarrow> db_workspaces db' = db_workspaces db \<Longrightarrow>
    db_members db' = db_members db \<Longrightarrow> db_invitations db' = db_invitations db \<Longrightarrow> owners_alone idle w db db'"
  by (simp add: owners_alone_def owner_link_def)

lemma request_alone:
  assumes "access_ok db" "w \<in> set (db_workspaces db)" "\<not> owner_link db w"
    and "admitted st header session blocked v action now db = Inr (ctx, db1)" "perform st ctx now action db1 = Inr db2"
    and "v \<noteq> w \<or> wc_role ctx \<noteq> OWNER"
  shows "owners_alone (\<lambda>uid. v \<noteq> w \<or> uid \<noteq> wc_user ctx) w db db2"
proof -
  note admission = admitted_Inr [OF assms(4)]
  have link: "\<not> owner_link db2 w"
    using perform_links [OF assms(5)] assms(3,6) admission by (simp add: owner_link_def)
  show ?thesis
  proof (cases "action = DeleteWorkspace")
    case True
    then have "v \<noteq> w"
      using admission assms(6) by auto
    with True assms(2,5) link admission show ?thesis
      using delete_workspace_Inr [of ctx db1 db2] by (auto simp: owners_alone_def has_role_def)
  next
    case False
    have ids: "distinct (map mb_id (db_members db1))"
      using assms(1) admission by (simp add: access_ok_def members_ok_def)
    have "membership_change ctx (db_members db1) (db_members db2)" "db_workspaces db2 = db_workspaces db1"
      using perform_refines [OF assms(5) ids False] by simp_all
    then show ?thesis
      using change_keeps_owners [of ctx _ _ "db_workspaces db" w] change_keeps_admins [of ctx _ _ "db_workspaces db" w]
        assms(1,2,6) link admission
      by (auto simp: owners_alone_def access_ok_def)
  qed
qed

lemma accept_alone:
  assumes "w \<in> set (db_workspaces db)" "\<not> owner_link db w"
    and "accept_invitation hash common token password asking new_uid mid now db = Inr (uid, db')"
  shows "owners_alone idle w db db'"
proof -
  obtain i where i: "i \<in> set (db_invitations db)" "invitation_status i now = IvPending"
      "db_workspaces db' = db_workspaces db"
      "db_members db' = db_members db \<or> (\<exists>row. mb_workspace row = iv_workspace i \<and> mb_role row = iv_role i
          \<and> db_members db' = db_members db @ [row])"
      "db_invitations db' = map (\<lambda>j. if iv_id j = iv_id i
                                    then j\<lparr>iv_accepted_at := Some now, iv_accepted_user := Some uid\<rparr> else j)
                             (db_invitations db)"
    using accept_invitation_Inr [OF assms(3)] by blast
  then have "iv_workspace i = w \<longrightarrow> iv_role i \<noteq> OWNER"
    using assms(2) by (auto simp: owner_link_def list_ex_iff invitation_status_def split: if_splits)
  moreover have "\<not> owner_link db' w"
    using assms(2) unfolding owner_link_def list_ex_iff i(5) by auto
  ultimately show ?thesis
    using assms(1) i(3,4) by (auto simp: owners_alone_def has_role_append)
qed

lemma create_alone:
  assumes "w \<in> set (db_workspaces db)" "\<not> owner_link db w" "create_workspace uid v mid db = Inr db'"
  shows "owners_alone idle w db db'"
  using create_workspace_Inr [OF assms(3)] assms(1,2) by (auto simp: owners_alone_def has_role_append owner_link_def)

lemma step_alone:
  assumes "access_ok db" "w \<in> set (db_workspaces db)" "\<not> owner_link db w"
    and "case acting st e db of Some (v, uid, role) \<Rightarrow> v \<noteq> w \<or> role \<noteq> OWNER | None \<Rightarrow> True"
  shows "owners_alone (\<lambda>uid. case acting st e db of Some (v, u, role) \<Rightarrow> v \<noteq> w \<or> uid \<noteq> u | None \<Rightarrow> True) w db
    (access_step st e db)"
proof (cases e)
  case (Request header session blocked v action now)
  show ?thesis
  proof (cases "admitted st header session blocked v action now db")
    case (Inl err)
    show ?thesis
    proof (cases "current_principal (as_hash st) blocked header session now db")
      case (Inr p)
      then obtain uid key db1 where "current_principal (as_hash st) blocked header session now db = Inr (uid, key, db1)"
        by (cases p) auto
      with assms(2,3) Request Inl principal_rest [OF this] show ?thesis
        by (simp add: owners_alone_same)
    qed (use assms Request Inl in \<open>simp add: owners_alone_same\<close>)
  next
    case (Inr p)
    then obtain ctx db1 where one: "admitted st header session blocked v action now db = Inr (ctx, db1)"
      by (cases p) auto
    then have other: "v \<noteq> w \<or> wc_role ctx \<noteq> OWNER"
      using assms(4) Request by (simp add: acting_def)
    show ?thesis
    proof (cases "perform st ctx now action db1")
      case (Inl err)
      then show ?thesis
        using one Request assms(2,3) admitted_Inr [OF one] by (simp add: committed_def owners_alone_same)
    next
      case (Inr db2)
      from request_alone [OF assms(1-3) one Inr other] show ?thesis
        using one Request Inr by (simp add: committed_def acting_def)
    qed
  qed
next
  case (NewWorkspace session v mid now)
  then show ?thesis
    using assms(2,3) create_alone by (auto simp: committed_def owners_alone_same split: option.splits sum.splits)
next
  case (Accept token password session new_uid mid now)
  then show ?thesis
    using assms(2,3) accept_alone by (auto simp: owners_alone_same split: sum.splits)
next
  case (Bootstrap email password uid v mid)
  have "owners_alone idle w db db'" if boot: "bootstrap_owner (as_common st) email password uid v mid db = Inr db'" for idle db'
  proof -
    obtain db1 where "insert_user \<lparr>ac_id = uid, ac_email = normalize_email email, ac_active = True\<rparr> db = Inr db1"
        and create: "create_workspace uid v mid db1 = Inr db'"
      using boot by (auto simp: bootstrap_owner_def split: option.splits if_splits sum.splits)
    then have "db_workspaces db1 = db_workspaces db" "db_members db1 = db_members db" "db_invitations db1 = db_invitations db"
      by (auto simp: insert_user_def split: if_splits)
    then show ?thesis
      using create_alone [OF _ _ create, of w] assms(2,3) by (simp add: owners_alone_def owner_link_def)
  qed
  then show ?thesis
    using assms(2,3) Bootstrap by (auto simp: committed_def owners_alone_same split: sum.splits)
next
  case (SetActive uid active)
  then show ?thesis
    using assms(2,3) by (simp add: owners_alone_same)
qed

text \<open>
  C12 (safety) Ownership cannot be taken: as long as no request is made with the role of an owner of the workspace,
  by a person or with a key, and no invitation to become one is open, its owners stay exactly who they are,
  whatever admins, members, their keys, invited people and other workspaces do; and an admin who makes no request
  stays an admin.
\<close>

theorem only_owners_make_owners:
  assumes "access_ok db" "w \<in> set (db_workspaces db)" "\<not> owner_link db w" "no_owner_acts st w es db"
  shows "(has_role (db_members (access_run st es db)) w uid OWNER \<longleftrightarrow> has_role (db_members db) w uid OWNER)
    \<and> (has_role (db_members db) w uid ADMIN \<longrightarrow> never_acts st w uid es db
        \<longrightarrow> has_role (db_members (access_run st es db)) w uid ADMIN)"
  using assms
proof (induction es arbitrary: db)
  case (Cons e es)
  have "owners_alone (\<lambda>uid. case acting st e db of Some (v, u, role) \<Rightarrow> v \<noteq> w \<or> uid \<noteq> u | None \<Rightarrow> True) w db
      (access_step st e db)"
    using Cons.prems by (intro step_alone) simp_all
  then show ?case
    using Cons.IH [of "access_step st e db"] Cons.prems access_ok_step [of db st e]
    by (auto simp: owners_alone_def split: option.splits)
qed simp

text \<open>An owner, an admin who joined by an invitation, and the admin's attempts on the owner.\<close>

definition sample_settings :: access_settings where
  "sample_settings = \<lparr>as_hash = (\<lambda>s. CHR ''h'' # s), as_common = (\<lambda>s. False), as_ttl_days = 7\<rparr>"

definition founding :: "access_event list" where
  "founding =
     [Bootstrap ''ada@x.org'' ''correct horse'' ''ada'' ''w'' ''m1'',
      Request None (Some ''ada'') False ''w'' (Invite ''Bob@x.org'' ADMIN ''token'' ''i1'') 1,
      Accept ''token'' ''battery staple'' None ''bob'' ''m2'' 2]"

definition founded :: access_db where
  "founded = access_run sample_settings founding empty_db"

definition attempts :: "access_event list" where
  "attempts =
     [Request None (Some ''bob'') False ''w'' (UpdateMember ''m2'' OWNER) 3,
      Request None (Some ''bob'') False ''w'' (UpdateMember ''m1'' MEMBER) 4,
      Request None (Some ''bob'') False ''w'' (RemoveMember ''m1'') 5,
      Request None (Some ''bob'') False ''w'' (Invite ''eve@x.org'' OWNER ''more'' ''i2'') 6,
      Request None (Some ''bob'') False ''w'' DeleteWorkspace 7]"

theorem only_owners_make_owners_witness:
  "has_role (db_members (access_run sample_settings attempts founded)) ''w'' ''ada'' OWNER
   \<and> \<not> has_role (db_members (access_run sample_settings attempts founded)) ''w'' ''bob'' OWNER"
proof -
  have "access_ok founded" "''w'' \<in> set (db_workspaces founded)" "\<not> owner_link founded ''w''"
      "no_owner_acts sample_settings ''w'' attempts founded"
      "has_role (db_members founded) ''w'' ''ada'' OWNER" "\<not> has_role (db_members founded) ''w'' ''bob'' OWNER"
    by code_simp+
  then show ?thesis
    using only_owners_make_owners [of founded "''w''" sample_settings attempts] by blast
qed

section \<open>Two owners at once\<close>

text \<open>
  The checks of a change of role take no lock, and two changes write different rows. Two requests that run at the
  same time may therefore both have checked the rows as they were before either wrote.
\<close>

lemma check_update_member:
  assumes "check_update ctx i r db = Inr m"
  shows "m \<in> set (db_members db)" "mb_id m = i" "mb_workspace m = wc_workspace ctx"
  using assms by (auto simp: check_update_def get_membership_def find_Some_iff split: sum.splits option.splits if_splits)

lemma check_update_again:
  assumes "check_update ctx i r db = Inr m" "i \<noteq> j" "mb_role m = OWNER" "r \<noteq> OWNER"
    and "owner_count (write_role j s db) (wc_workspace ctx) \<le> 1"
  shows "check_update ctx i r (write_role j s db) = Inl (Http 409 ''A workspace must keep at least one owner'')"
proof -
  have find: "find (\<lambda>m. mb_id m = i \<and> mb_workspace m = w) (map (\<lambda>m. if mb_id m = j then m\<lparr>mb_role := s\<rparr> else m) ms)
      = find (\<lambda>m. mb_id m = i \<and> mb_workspace m = w) ms" for w ms
    using assms(2) by (induction ms) auto
  have "get_membership (write_role j s db) (wc_workspace ctx) i = get_membership db (wc_workspace ctx) i"
    by (simp add: get_membership_def write_role_def find)
  then show ?thesis
    using assms check_update_member [OF assms(1)]
    by (auto simp: check_update_def keeps_an_owner_def split: sum.splits option.splits if_splits)
qed

text \<open>Two members who are the only owners.\<close>

lemma filter_two:
  assumes "length (filter P xs) = 2" "a \<in> set xs" "P a" "b \<in> set xs" "P b" "a \<noteq> b" "x \<in> set xs" "P x"
  shows "x = a \<or> x = b"
proof -
  have "card (set (filter P xs)) \<le> 2"
    using card_length [of "filter P xs"] assms(1) by simp
  moreover have "{a, b} \<subseteq> set (filter P xs)" "card {a, b} = 2"
    using assms by auto
  ultimately have "set (filter P xs) = {a, b}"
    using card_seteq [of "set (filter P xs)" "{a, b}"] by fastforce
  then show ?thesis
    using assms(7,8) by auto
qed

lemma owner_count_write:
  assumes "m \<in> set (db_members db)" "mb_workspace m = w" "mb_role m = OWNER" "r \<noteq> OWNER"
  shows "owner_count (write_role (mb_id m) r db) w < owner_count db w"
proof -
  let ?P = "\<lambda>m. mb_workspace m = w \<and> mb_role m = OWNER"
  let ?Q = "\<lambda>x. mb_id x \<noteq> mb_id m"
  have written: "length (filter ?P (map (\<lambda>x. if mb_id x = mb_id m then x\<lparr>mb_role := r\<rparr> else x) xs))
      = length (filter ?Q (filter ?P xs))" for xs
    using assms(4) by (induction xs) auto
  have "length (filter ?Q (filter ?P (db_members db))) < length (filter ?P (db_members db))"
    using assms by (intro length_filter_less [of m]) auto
  moreover have "db_members (write_role (mb_id m) r db)
      = map (\<lambda>x. if mb_id x = mb_id m then x\<lparr>mb_role := r\<rparr> else x) (db_members db)"
    by (simp add: write_role_def)
  ultimately show ?thesis
    by (simp only: owner_count_def written)
qed

text \<open>
  C13 (error) The guard of the last owner does not hold against a second request. When the checks of two requests
  that each take the owner role from another of the two owners of a workspace have both passed on the same rows,
  writing both leaves it without an owner; run after the first has been written, the second is refused.
\<close>

theorem racing_owners_leave_none:
  assumes "check_update ctx i r db = Inr m" "check_update ctx' j s db = Inr m'"
    and "wc_workspace ctx = w" "wc_workspace ctx' = w" "i \<noteq> j"
    and "mb_role m = OWNER" "mb_role m' = OWNER" "r \<noteq> OWNER" "s \<noteq> OWNER" "owner_count db w = 2"
  shows "owner_count (write_role (mb_id m') s (write_role (mb_id m) r db)) w = 0
    \<and> update_member_role ctx' j s (write_role (mb_id m) r db)
        = Inl (Http 409 ''A workspace must keep at least one owner'')"
proof
  note first = check_update_member [OF assms(1)] and second = check_update_member [OF assms(2)]
  have "x = m \<or> x = m'" if "x \<in> set (db_members db)" "mb_workspace x = w" "mb_role x = OWNER" for x
    using that assms first second filter_two [of "\<lambda>m. mb_workspace m = w \<and> mb_role m = OWNER" "db_members db" m m' x]
    by (auto simp: owner_count_def)
  then show "owner_count (write_role (mb_id m') s (write_role (mb_id m) r db)) w = 0"
    using assms(8,9) by (auto simp: owner_count_def write_role_def filter_empty_conv split: if_splits)
  have "owner_count (write_role (mb_id m) r db) w < 2"
    using owner_count_write [of m db w r] first assms by simp
  then show "update_member_role ctx' j s (write_role (mb_id m) r db)
      = Inl (Http 409 ''A workspace must keep at least one owner'')"
    using check_update_again [OF assms(2), of i r] assms first by (simp add: update_member_role_def)
qed

definition owner_ctx :: "string \<Rightarrow> workspace_context" where
  "owner_ctx uid = \<lparr>wc_user = uid, wc_workspace = ''w'', wc_role = OWNER, wc_key = None\<rparr>"

definition two_owners :: access_db where
  "two_owners = access_run sample_settings
     (founding @ [Request None (Some ''ada'') False ''w'' (UpdateMember ''m2'' OWNER) 3]) empty_db"

theorem racing_owners_leave_none_witness:
  "owner_count two_owners ''w'' = 2
   \<and> owner_count (write_role ''m2'' MEMBER (write_role ''m1'' ADMIN two_owners)) ''w'' = 0"
proof -
  let ?ada = "\<lparr>mb_id = ''m1'', mb_workspace = ''w'', mb_user = ''ada'', mb_role = OWNER\<rparr>"
  let ?bob = "\<lparr>mb_id = ''m2'', mb_workspace = ''w'', mb_user = ''bob'', mb_role = OWNER\<rparr>"
  have checks: "check_update (owner_ctx ''ada'') ''m1'' ADMIN two_owners = Inr ?ada"
    "check_update (owner_ctx ''bob'') ''m2'' MEMBER two_owners = Inr ?bob" "owner_count two_owners ''w'' = 2"
    by code_simp+
  have "wc_workspace (owner_ctx u) = ''w''" for u
    by (simp add: owner_ctx_def)
  from racing_owners_leave_none [OF checks(1,2) this this] checks(3) show ?thesis
    by simp
qed

end
