(* ===== verification/AccessKeys.thy ===== *)
theory AccessKeys
  imports AccessProps
begin

text \<open>
  Credentials over time: a minted key works as it was minted, a withdrawn secret never works again, and an
  invitation link is accepted at most once.
\<close>

section \<open>The format\<close>

text \<open>What the generator draws: eight hexadecimal digits, and base64 with the URL-safe alphabet.\<close>

definition drawn_prefix :: "string \<Rightarrow> bool" where
  "drawn_prefix s \<longleftrightarrow> length s = PREFIX_BYTES * 2 \<and> list_all hex_digit s"

definition url_safe :: "char \<Rightarrow> bool" where
  "url_safe c \<longleftrightarrow> ascii_digit c \<or> ascii_upper c \<or> ascii_lower c \<or> c = CHR ''-'' \<or> c = CHR ''_''"

definition drawn_secret :: "string \<Rightarrow> bool" where
  "drawn_secret s \<longleftrightarrow> s \<noteq> [] \<and> list_all url_safe s"

lemma url_safe_no_space: "url_safe c \<Longrightarrow> \<not> py_isspace c"
  by (auto simp: url_safe_def py_isspace_def ascii_digit_def ascii_upper_def ascii_lower_def)

lemma hex_url_safe: "hex_digit c \<Longrightarrow> url_safe c \<and> c \<noteq> CHR ''_''"
proof -
  have "list_all (\<lambda>c. url_safe c \<and> c \<noteq> CHR ''_'') ''0123456789abcdef''"
    by code_simp
  then show "hex_digit c \<Longrightarrow> url_safe c \<and> c \<noteq> CHR ''_''"
    unfolding hex_digit_def list_all_iff by blast
qed

lemma strip_no_space: "list_all (\<lambda>c. \<not> py_isspace c) s \<Longrightarrow> strip s = s"
proof -
  assume "list_all (\<lambda>c. \<not> py_isspace c) s"
  then have "dropWhile py_isspace s = s" "dropWhile py_isspace (rev s) = rev s"
    by (auto simp: list_all_iff dropWhile_eq_self_iff rev_eq_Cons_iff hd_rev split: list.splits)
  then show ?thesis
    by (simp add: strip_def strip_by_def)
qed

definition plaintext_of :: "string \<Rightarrow> string \<Rightarrow> string" where
  "plaintext_of p s = gk_plaintext (generate_key (\<lambda>x. x) p s)"

lemma plaintext_of_form: "plaintext_of p s = ''jhin_'' @ p @ ''_'' @ s"
  by (simp add: plaintext_of_def generate_key_def KEY_LABEL_def)

lemma plaintext_no_space:
  assumes "drawn_prefix p" "drawn_secret s"
  shows "list_all (\<lambda>c. \<not> py_isspace c) (plaintext_of p s)"
proof -
  have "list_all url_safe (plaintext_of p s)"
    using assms hex_url_safe
    by (auto simp: plaintext_of_form drawn_prefix_def drawn_secret_def list_all_iff url_safe_def ascii_lower_def)
  then show ?thesis
    using url_safe_no_space by (auto simp: list_all_iff)
qed

lemma partition_on_append: "c \<notin> set a \<Longrightarrow> partition_on c (a @ c # b) = (a, True, b)"
  by (simp add: partition_on_def takeWhile_append2 dropWhile_append2 takeWhile_append dropWhile_append)

lemma parse_plaintext:
  assumes "drawn_prefix p" "drawn_secret s"
  shows "parse_key (plaintext_of p s) = Some (p, s)"
proof -
  have "CHR ''_'' \<notin> set p"
    using assms(1) hex_url_safe by (auto simp: drawn_prefix_def list_all_iff)
  then have "split_two CHR ''_'' (plaintext_of p s) = [''jhin'', p, s]"
    using partition_on_append [of "CHR ''_''" "''jhin''" "p @ CHR ''_'' # s"] partition_on_append [of "CHR ''_''" p s]
    by (simp add: split_two_def plaintext_of_form)
  then show ?thesis
    using assms strip_no_space [OF plaintext_no_space [OF assms]]
    by (auto simp: parse_key_def KEY_LABEL_def drawn_prefix_def drawn_secret_def PREFIX_BYTES_def)
qed

lemma bearer_plaintext:
  assumes "drawn_prefix p" "drawn_secret s"
  shows "bearer_token (Some (''Bearer '' @ plaintext_of p s)) = Some (plaintext_of p s)"
proof -
  have "partition_on CHR '' '' (''Bearer '' @ plaintext_of p s) = (''Bearer'', True, plaintext_of p s)"
    using partition_on_append [of "CHR '' ''" "''Bearer''" "plaintext_of p s"] by simp
  moreover have "starts_with (plaintext_of p s) (KEY_LABEL @ ''_'')"
    by (simp add: plaintext_of_form KEY_LABEL_def)
  moreover have "py_lower ''Bearer'' = ''bearer''"
    by code_simp
  ultimately show ?thesis
    using strip_no_space [OF plaintext_no_space [OF assms]] by (simp add: bearer_token_def)
qed

section \<open>A minted key works as it was minted\<close>

lemma minted_row:
  assumes "create_key hash ctx name scopes expires_in unit kid p s now db = Inr db'"
  shows "\<exists>row. db' = db\<lparr>db_keys := db_keys db @ [row]\<rparr> \<and> (\<forall>k \<in> set (db_keys db). ky_prefix k \<noteq> p) \<and> ky_prefix row = p
      \<and> ky_hash row = hash s \<and> ky_revoked_at row = None \<and> ky_created_by row = Some (wc_user ctx)
      \<and> ky_ceiling row = wc_role ctx \<and> ky_workspace row = wc_workspace ctx \<and> resolve_expiry expires_in unit now = Inr (ky_expires_at row)
      \<and> ky_scopes row = sort (effective_scopes (PList (map PStr scopes)) (wc_role ctx))"
proof -
  obtain t where t: "resolve_expiry expires_in unit now = Inr t"
    using assms by (auto simp: create_key_def Let_def split: if_splits sum.splits)
  let ?row = "\<lparr>ky_id = kid, ky_workspace = wc_workspace ctx, ky_name = strip name, ky_prefix = p, ky_hash = hash s,
    ky_created_by = Some (wc_user ctx), ky_ceiling = wc_role ctx,
    ky_scopes = sort (effective_scopes (PList (map PStr scopes)) (wc_role ctx)), ky_expires_at = t, ky_last_used = None,
    ky_revoked_at = None\<rparr>"
  have "insert_key ?row db = Inr db'"
    using assms t by (simp add: create_key_def Let_def generate_key_def split: if_splits)
  then show ?thesis
    using t by (intro exI [of _ ?row]) (auto simp: insert_key_def list_ex_iff split: if_splits)
qed

lemma find_append_skip: "(\<forall>x \<in> set xs. \<not> P x) \<Longrightarrow> P y \<Longrightarrow> find P (xs @ [y]) = Some y"
  by (induction xs) auto

text \<open>
  C14 (roundtrip) The plaintext handed out once, presented as a bearer token while the key has not expired, is
  recognised as the key that was minted: its creator, its workspace, the creator's role as its ceiling and exactly
  the scopes granted. The separator may occur in the secret.
\<close>

theorem minted_key_authenticates:
  assumes "create_key hash ctx name scopes expires_in unit kid p s now db = Inr db'"
    and "drawn_prefix p" "drawn_secret s"
    and "user_by_id db (wc_user ctx) = Some u" "ac_active u"
    and "case resolve_expiry expires_in unit now of Inr (Some t) \<Rightarrow> later < t | _ \<Rightarrow> True"
  shows "\<exists>k db''. current_principal hash False (Some (''Bearer '' @ gk_plaintext (generate_key hash p s))) session later db'
      = Inr (wc_user ctx, Some k, db'')
    \<and> kp_workspace k = wc_workspace ctx \<and> kp_ceiling k = wc_role ctx
    \<and> set (kp_scopes k) = set (effective_scopes (PList (map PStr scopes)) (wc_role ctx))"
proof -
  obtain row where row: "db' = db\<lparr>db_keys := db_keys db @ [row]\<rparr>" "\<forall>k \<in> set (db_keys db). ky_prefix k \<noteq> p" "ky_prefix row = p"
      "ky_hash row = hash s" "ky_revoked_at row = None" "ky_created_by row = Some (wc_user ctx)"
      "ky_ceiling row = wc_role ctx" "ky_workspace row = wc_workspace ctx"
      "resolve_expiry expires_in unit now = Inr (ky_expires_at row)"
      "ky_scopes row = sort (effective_scopes (PList (map PStr scopes)) (wc_role ctx))"
    using minted_row [OF assms(1)] by blast
  have plaintext: "gk_plaintext (generate_key hash p s) = plaintext_of p s"
    by (simp add: plaintext_of_def generate_key_def)
  have found: "find (\<lambda>k. ky_prefix k = p) (db_keys db') = Some row"
    using row(1-3) by (simp add: find_append_skip)
  have live: "\<not> (case ky_expires_at row of Some t \<Rightarrow> t \<le> later | None \<Rightarrow> False)"
    using assms(6) row(9) by (auto split: option.splits)
  have "user_by_id db' (wc_user ctx) = Some u"
    using assms(4) row(1) by (simp add: user_by_id_def)
  then obtain db'' where "authenticate hash (plaintext_of p s) later db'
      = Inr (\<lparr>kp_id = ky_id row, kp_workspace = wc_workspace ctx, kp_ceiling = wc_role ctx,
              kp_scopes = effective_scopes (PList (map PStr (ky_scopes row))) (wc_role ctx)\<rparr>, wc_user ctx, db'')"
    using found live assms(5) row(4-8) parse_plaintext [OF assms(2,3)] by (simp add: authenticate_def)
  moreover have "set (effective_scopes (PList (map PStr (ky_scopes row))) (wc_role ctx))
      = set (effective_scopes (PList (map PStr scopes)) (wc_role ctx))"
    unfolding row(10) effective_stored using effective_within by blast
  ultimately show ?thesis
    using bearer_plaintext [OF assms(2,3)] unfolding plaintext by (simp add: current_principal_def)
qed

text \<open>A member mints a key for the chats, and everything in the memories that a member may have.\<close>

definition minting_member :: workspace_context where
  "minting_member = \<lparr>wc_user = ''mia'', wc_workspace = ''w'', wc_role = MEMBER, wc_key = None\<rparr>"

lemma mia_mints:
  "create_key (\<lambda>x. CHR ''h'' # x) minting_member '' ci'' [''chats:read'', ''memories:*''] (Some 2) ''hours'' ''k''
     ''0123abcd'' ''s_1'' 5 mia_db = Inr (mia_db\<lparr>db_keys := [mia_key]\<rparr>)"
  by code_simp

theorem minted_key_authenticates_witness:
  "\<exists>k db''. current_principal (\<lambda>x. CHR ''h'' # x) False (Some ''Bearer jhin_0123abcd_s_1'') None 6 (mia_db\<lparr>db_keys := [mia_key]\<rparr>)
     = Inr (''mia'', Some k, db'') \<and> kp_ceiling k = MEMBER"
proof -
  have "drawn_prefix ''0123abcd''" "drawn_secret ''s_1''"
    by code_simp+
  moreover have "case resolve_expiry (Some 2) ''hours'' 5 of Inr (Some t) \<Rightarrow> 6 < t | _ \<Rightarrow> True"
    by code_simp
  moreover have "user_by_id mia_db (wc_user minting_member) = Some \<lparr>ac_id = ''mia'', ac_email = ''mia@x.org'', ac_active = True\<rparr>"
    by code_simp
  ultimately have "\<exists>k db''. current_principal (\<lambda>x. CHR ''h'' # x) False
      (Some (''Bearer '' @ gk_plaintext (generate_key (\<lambda>x. CHR ''h'' # x) ''0123abcd'' ''s_1''))) None 6 (mia_db\<lparr>db_keys := [mia_key]\<rparr>)
      = Inr (wc_user minting_member, Some k, db'') \<and> kp_ceiling k = wc_role minting_member"
    using minted_key_authenticates [OF mia_mints, where later = 6 and session = None] by auto
  then show ?thesis
    by (simp add: generate_key_def KEY_LABEL_def minting_member_def)
qed

section \<open>A withdrawn secret\<close>

definition dead_secret :: "string \<Rightarrow> access_db \<Rightarrow> bool" where
  "dead_secret h db \<longleftrightarrow> list_all (\<lambda>k. ky_hash k = h \<longrightarrow> ky_revoked_at k \<noteq> None) (db_keys db)"

fun draws_secret :: "access_settings \<Rightarrow> string \<Rightarrow> access_event \<Rightarrow> bool" where
  "draws_secret st h (Request header session blocked w (CreateKey name scopes expires_in unit kid p s) now) \<longleftrightarrow> as_hash st s = h"
| "draws_secret st h _ \<longleftrightarrow> False"

lemma dead_secret_same: "db_keys db' = db_keys db \<Longrightarrow> dead_secret h db \<Longrightarrow> dead_secret h db'"
  by (simp add: dead_secret_def)

lemma principal_keys:
  assumes "current_principal hash blocked header session now db = Inr (uid, key, db')"
  shows "db' = db \<or> (\<exists>i. db_keys db' = map (\<lambda>j. if ky_id j = i then j\<lparr>ky_last_used := Some now\<rparr> else j) (db_keys db))"
  using assms by (auto simp: current_principal_def split: option.splits if_splits sum.splits dest!: authenticate_Inr)

lemma dead_secret_principal:
  assumes "current_principal hash blocked header session now db = Inr (uid, key, db')" "dead_secret h db"
  shows "dead_secret h db'"
  using principal_keys [OF assms(1)] assms(2) by (auto simp: dead_secret_def list_all_iff)

lemma perform_keys:
  assumes "perform st ctx now action db = Inr db'"
  shows "(case action of
      CreateKey name scopes expires_in unit kid p s \<Rightarrow>
        (\<exists>k. db_keys db' = db_keys db @ [k] \<and> ky_hash k = as_hash st s)
    | RevokeKey kid \<Rightarrow> db' = db \<or>
        db_keys db' = map (\<lambda>j. if ky_id j = kid then j\<lparr>ky_revoked_at := Some now\<rparr> else j) (db_keys db)
    | DeleteWorkspace \<Rightarrow> db_keys db' = filter (\<lambda>k. ky_workspace k \<noteq> wc_workspace ctx) (db_keys db)
    | _ \<Rightarrow> db_keys db' = db_keys db)"
proof (cases action)
  case (CreateKey name scopes expires_in unit kid p s)
  then show ?thesis
    using assms by (auto dest!: create_key_Inr split: if_splits)
next
  case (RevokeKey kid)
  then show ?thesis
    using assms by (auto dest!: revoke_key_Inr)
next
  case DeleteWorkspace
  then show ?thesis
    using assms delete_workspace_Inr by simp
next
  case (Invite email role token iid)
  then show ?thesis
    using assms by (auto simp: create_invitation_def Let_def insert_invitation_def split: option.splits if_splits)
qed (use assms in \<open>auto simp: add_member_def insert_member_Inr update_member_role_def write_role_def remove_member_def
      delete_member_def revoke_invitation_def split: option.splits if_splits sum.splits\<close>)

lemma dead_secret_perform:
  assumes "perform st ctx now action db = Inr db'" "dead_secret h db"
    and "\<not> draws_secret st h (Request header session blocked w action now)"
  shows "dead_secret h db'"
  using perform_keys [OF assms(1)] assms(2,3)
  by (cases action) (auto simp: dead_secret_def list_all_iff)

lemma request_step_cases:
  obtains (refused) "access_step st (Request header session blocked w action now) db = db"
  | (authenticated) uid key where
      "current_principal (as_hash st) blocked header session now db
         = Inr (uid, key, access_step st (Request header session blocked w action now) db)"
  | (performed) ctx db1 where "admitted st header session blocked w action now db = Inr (ctx, db1)"
      "perform st ctx now action db1 = Inr (access_step st (Request header session blocked w action now) db)"
proof (cases "admitted st header session blocked w action now db")
  case (Inl err)
  show ?thesis
  proof (cases "current_principal (as_hash st) blocked header session now db")
    case Inl': (Inl e)
    with Inl refused show ?thesis by simp
  next
    case (Inr p)
    with Inl authenticated show ?thesis by (cases p) auto
  qed
next
  case (Inr p)
  obtain ctx db1 where one: "admitted st header session blocked w action now db = Inr (ctx, db1)"
    using Inr by (cases p) auto
  show ?thesis
  proof (cases "perform st ctx now action db1")
    case (Inl e)
    obtain verb path required where "admit (as_hash st) blocked header session required verb path w now db = Inr (ctx, db1)"
      using one by (auto simp: admitted_def split: prod.splits)
    then obtain uid key where "current_principal (as_hash st) blocked header session now db = Inr (uid, key, db1)"
      using admit_Inr by blast
    with Inl one authenticated show ?thesis by (simp add: committed_def)
  next
    case (Inr db2)
    with one performed show ?thesis by (simp add: committed_def)
  qed
qed

lemma admitted_principal:
  assumes "admitted st header session blocked w action now db = Inr (ctx, db1)"
  shows "\<exists>uid key. current_principal (as_hash st) blocked header session now db = Inr (uid, key, db1)"
proof -
  obtain verb path required where "admit (as_hash st) blocked header session required verb path w now db = Inr (ctx, db1)"
    using assms by (auto simp: admitted_def split: prod.splits)
  then show ?thesis
    using admit_Inr by blast
qed

lemma dead_secret_step:
  assumes "dead_secret h db" "\<not> draws_secret st h e"
  shows "dead_secret h (access_step st e db)"
proof (cases e)
  case (Request header session blocked w action now)
  show ?thesis
  proof (rule request_step_cases [of st header session blocked w action now db])
    assume "access_step st (Request header session blocked w action now) db = db"
    with assms(1) Request show ?thesis by simp
  next
    fix uid key
    assume "current_principal (as_hash st) blocked header session now db
      = Inr (uid, key, access_step st (Request header session blocked w action now) db)"
    with assms(1) Request dead_secret_principal show ?thesis by blast
  next
    fix ctx db1
    assume one: "admitted st header session blocked w action now db = Inr (ctx, db1)"
      and two: "perform st ctx now action db1 = Inr (access_step st (Request header session blocked w action now) db)"
    have "dead_secret h db1"
      using admitted_principal [OF one] dead_secret_principal assms(1) by blast
    with dead_secret_perform [OF two] assms(2) Request show ?thesis by blast
  qed
next
  case (NewWorkspace session w mid now)
  with assms(1) show ?thesis
    by (auto simp: committed_def dead_secret_def dest!: create_workspace_Inr split: option.splits sum.splits)
next
  case (Accept token password session new_uid mid now)
  show ?thesis
  proof (cases "accept_invitation (as_hash st) (as_common st) token password (signed_in session db) new_uid mid now db")
    case (Inr p)
    obtain uid db1 where one: "p = (uid, db1)"
      by (cases p)
    with Inr accept_invitation_Inr have "db_keys db1 = db_keys db"
      by blast
    with assms(1) Accept Inr one show ?thesis
      by (simp add: dead_secret_def)
  qed (use assms Accept in simp)
next
  case (Bootstrap email password uid w mid)
  have "db_keys db' = db_keys db" if "bootstrap_owner (as_common st) email password uid w mid db = Inr db'" for db'
    using that create_workspace_Inr
    by (auto simp: bootstrap_owner_def insert_user_def dest!: create_workspace_Inr split: option.splits if_splits)
  with assms(1) Bootstrap show ?thesis
    by (auto simp: committed_def dead_secret_def split: sum.splits)
next
  case (SetActive uid active)
  with assms(1) show ?thesis
    by (simp add: dead_secret_def)
qed

text \<open>
  C15 (safety) Revocation is final: once every key with a secret's hash is revoked, no request that presents the
  secret is authenticated again, whatever happens in between, unless the generator draws a secret with that hash.
\<close>

theorem revoked_secret_stays_dead:
  assumes "dead_secret h db" "list_all (\<lambda>e. \<not> draws_secret st h e) es"
    and "parse_key raw = Some (p, s)" "as_hash st s = h"
  shows "\<exists>e. authenticate (as_hash st) raw now (access_run st es db) = Inl e"
proof -
  have dead: "dead_secret h (access_run st es db)"
    using assms(1,2)
  proof (induction es arbitrary: db)
    case (Cons e es)
    then show ?case using dead_secret_step [of h db st e] by simp
  qed simp
  show ?thesis
  proof (cases "authenticate (as_hash st) raw now (access_run st es db)")
    case (Inr r)
    then show ?thesis
      using authenticate_Inr [of "as_hash st" raw now "access_run st es db"] assms(3,4) dead
      by (cases r) (auto simp: dead_secret_def list_all_iff)
  qed blast
qed

theorem revoked_secret_stays_dead_witness:
  "\<exists>e. authenticate (\<lambda>x. CHR ''h'' # x) ''jhin_0123abcd_s_1'' 9
     (access_run \<lparr>as_hash = (\<lambda>x. CHR ''h'' # x), as_common = (\<lambda>s. False), as_ttl_days = 7\<rparr>
        [Request None (Some ''mia'') False ''w'' (CreateKey ''new'' [''chats:read''] None ''never'' ''k2'' ''0123abce'' ''s_2'') 8]
        (mia_db\<lparr>db_keys := [mia_key\<lparr>ky_revoked_at := Some 7\<rparr>]\<rparr>)) = Inl e"
proof -
  let ?st = "\<lparr>as_hash = (\<lambda>x. CHR ''h'' # x), as_common = (\<lambda>s. False), as_ttl_days = 7\<rparr>"
  have "dead_secret ''hs_1'' (mia_db\<lparr>db_keys := [mia_key\<lparr>ky_revoked_at := Some 7\<rparr>]\<rparr>)"
    by code_simp
  moreover have "parse_key ''jhin_0123abcd_s_1'' = Some (''0123abcd'', ''s_1'')"
    by code_simp
  ultimately show ?thesis
    using revoked_secret_stays_dead [of "''hs_1''" "mia_db\<lparr>db_keys := [mia_key\<lparr>ky_revoked_at := Some 7\<rparr>]\<rparr>" ?st
        "[Request None (Some ''mia'') False ''w'' (CreateKey ''new'' [''chats:read''] None ''never'' ''k2'' ''0123abce'' ''s_2'') 8]"
        "''jhin_0123abcd_s_1''" "''0123abcd''" "''s_1''" 9] by simp
qed

section \<open>An invitation link\<close>

definition open_link :: "string \<Rightarrow> invitation \<Rightarrow> bool" where
  "open_link h i \<longleftrightarrow> iv_token_hash i = h \<and> iv_accepted_at i = None \<and> iv_revoked_at i = None"

definition open_links :: "string \<Rightarrow> access_db \<Rightarrow> nat" where
  "open_links h db = length (filter (open_link h) (db_invitations db))"

definition accepted_now :: "access_settings \<Rightarrow> string \<Rightarrow> access_event \<Rightarrow> access_db \<Rightarrow> nat" where
  "accepted_now st h e db =
     (case e of
        Accept token password session new_uid mid now \<Rightarrow>
          (case accept_invitation (as_hash st) (as_common st) token password (signed_in session db) new_uid mid now db of
             Inr r \<Rightarrow> if as_hash st token = h then 1 else 0 | Inl err \<Rightarrow> 0)
      | _ \<Rightarrow> 0)"

fun acceptances :: "access_settings \<Rightarrow> string \<Rightarrow> access_event list \<Rightarrow> access_db \<Rightarrow> nat" where
  "acceptances st h [] db = 0"
| "acceptances st h (e # es) db = accepted_now st h e db + acceptances st h es (access_step st e db)"

fun draws_link :: "access_settings \<Rightarrow> string \<Rightarrow> access_event \<Rightarrow> bool" where
  "draws_link st h (Request header session blocked w (Invite email role token iid) now) \<longleftrightarrow> as_hash st token = h"
| "draws_link st h _ \<longleftrightarrow> False"

lemma length_filter_map_le:
  "(\<And>x. x \<in> set xs \<Longrightarrow> P (f x) \<Longrightarrow> P x) \<Longrightarrow> length (filter P (map f xs)) \<le> length (filter P xs)"
  by (induction xs) (auto intro: le_SucI)

lemma length_filter_map_less:
  "(\<And>x. x \<in> set xs \<Longrightarrow> P (f x) \<Longrightarrow> P x) \<Longrightarrow> y \<in> set xs \<Longrightarrow> P y \<Longrightarrow> \<not> P (f y)
    \<Longrightarrow> length (filter P (map f xs)) < length (filter P xs)"
proof (induction xs)
  case (Cons x xs)
  show ?case
  proof (cases "y = x")
    case True
    then show ?thesis
      using Cons.prems length_filter_map_le [of xs P f] by (simp add: le_imp_less_Suc)
  next
    case False
    then show ?thesis
      using Cons by auto
  qed
qed simp

lemma length_filter_filter_le: "length (filter P (filter Q xs)) \<le> length (filter P xs)"
  by (induction xs) auto

lemma perform_invitations:
  assumes "perform st ctx now action db = Inr db'"
  shows "open_links h db' \<le> open_links h db
    + (if draws_link st h (Request header session blocked w action now) then 1 else 0)"
proof (cases action)
  case (Invite email role token iid)
  then obtain stale row where row: "db' = db\<lparr>db_invitations :=
        map (\<lambda>i. if stale i then i\<lparr>iv_revoked_at := Some now\<rparr> else i) (db_invitations db) @ [row]\<rparr>"
      "iv_token_hash row = as_hash st token"
    using assms create_invitation_Inr [of "as_hash st" ctx email role "as_ttl_days st" token iid now db db'] by auto
  have "length (filter (open_link h) (map (\<lambda>i. if stale i then i\<lparr>iv_revoked_at := Some now\<rparr> else i) (db_invitations db)))
      \<le> length (filter (open_link h) (db_invitations db))"
    by (rule length_filter_map_le) (simp add: open_link_def split: if_splits)
  with row Invite show ?thesis
    by (simp add: open_links_def) (simp add: open_link_def)
next
  case (RevokeInvitation iid)
  then have "db_invitations db' = map (\<lambda>j. if iv_id j = iid then j\<lparr>iv_revoked_at := Some now\<rparr> else j) (db_invitations db)"
    using assms by (auto simp: revoke_invitation_def split: option.splits if_splits)
  moreover have "length (filter (open_link h)
      (map (\<lambda>j. if iv_id j = iid then j\<lparr>iv_revoked_at := Some now\<rparr> else j) (db_invitations db)))
      \<le> length (filter (open_link h) (db_invitations db))"
    by (rule length_filter_map_le) (simp add: open_link_def split: if_splits)
  ultimately show ?thesis
    by (simp add: open_links_def)
next
  case DeleteWorkspace
  then have "db_invitations db' = filter (\<lambda>i. iv_workspace i \<noteq> wc_workspace ctx) (db_invitations db)"
    using assms delete_workspace_Inr by simp
  then have "open_links h db' \<le> open_links h db"
    using length_filter_filter_le by (simp only: open_links_def)
  then show ?thesis
    by simp
next
  case (CreateKey name scopes expires_in unit kid p s)
  then show ?thesis
    using assms by (auto simp: open_links_def dest!: create_key_Inr split: if_splits)
next
  case (RevokeKey kid)
  then show ?thesis
    using assms by (auto simp: open_links_def dest!: revoke_key_Inr)
qed (use assms in \<open>auto simp: open_links_def add_member_def insert_member_Inr update_member_role_def write_role_def
      remove_member_def delete_member_def split: option.splits if_splits sum.splits\<close>)

lemma open_links_same: "db_invitations db' = db_invitations db \<Longrightarrow> open_links h db' = open_links h db"
  by (simp add: open_links_def)

lemma accept_closes:
  assumes "accept_invitation hash common token password asking new_uid mid now db = Inr (uid, db')"
  shows "open_links h db' + (if hash token = h then 1 else 0) \<le> open_links h db"
proof -
  let ?f = "\<lambda>i j. if iv_id j = iv_id i then j\<lparr>iv_accepted_at := Some now, iv_accepted_user := Some uid\<rparr> else j"
  obtain i where i: "i \<in> set (db_invitations db)" "iv_token_hash i = hash token" "invitation_status i now = IvPending"
      "db_invitations db' = map (?f i) (db_invitations db)"
    using accept_invitation_Inr [OF assms] by blast
  have keep: "open_link h (?f i j) \<Longrightarrow> open_link h j" for j
    by (simp add: open_link_def split: if_splits)
  show ?thesis
  proof (cases "hash token = h")
    case True
    have "open_link h i" "\<not> open_link h (?f i i)"
      using i True by (auto simp: open_link_def invitation_status_def split: if_splits)
    then have "length (filter (open_link h) (map (?f i) (db_invitations db)))
        < length (filter (open_link h) (db_invitations db))"
      by (intro length_filter_map_less [OF keep i(1)])
    then show ?thesis
      using True by (simp only: open_links_def i(4) Suc_le_eq refl if_True One_nat_def add_Suc_right add_0_right)
  next
    case False
    have "length (filter (open_link h) (map (?f i) (db_invitations db)))
        \<le> length (filter (open_link h) (db_invitations db))"
      by (rule length_filter_map_le [OF keep])
    then show ?thesis
      using False by (simp only: open_links_def i(4) if_False add_0_right)
  qed
qed

lemma link_step:
  "accepted_now st h e db + open_links h (access_step st e db) \<le> open_links h db + (if draws_link st h e then 1 else 0)"
proof (cases e)
  case (Request header session blocked w action now)
  have "open_links h (access_step st e db) \<le> open_links h db + (if draws_link st h e then 1 else 0)"
    unfolding Request
  proof (rule request_step_cases [of st header session blocked w action now db])
    fix ctx db1
    assume one: "admitted st header session blocked w action now db = Inr (ctx, db1)"
      and two: "perform st ctx now action db1 = Inr (access_step st (Request header session blocked w action now) db)"
    have "db_invitations db1 = db_invitations db"
      using admitted_Inr [OF one] by blast
    then have "open_links h db1 = open_links h db"
      by (rule open_links_same)
    with perform_invitations [OF two, of h header session blocked w]
    show "open_links h (access_step st (Request header session blocked w action now) db)
        \<le> open_links h db + (if draws_link st h (Request header session blocked w action now) then 1 else 0)"
      by simp
  next
    fix uid key
    assume "current_principal (as_hash st) blocked header session now db
      = Inr (uid, key, access_step st (Request header session blocked w action now) db)"
    then have "db_invitations (access_step st (Request header session blocked w action now) db) = db_invitations db"
      using principal_rest by blast
    from open_links_same [OF this, of h]
    show "open_links h (access_step st (Request header session blocked w action now) db)
        \<le> open_links h db + (if draws_link st h (Request header session blocked w action now) then 1 else 0)"
      by simp
  qed simp
  then show ?thesis
    by (simp add: accepted_now_def Request)
next
  case (NewWorkspace session w mid now)
  then show ?thesis
    by (auto simp: accepted_now_def committed_def open_links_def dest!: create_workspace_Inr split: option.splits sum.splits)
next
  case (Accept token password session new_uid mid now)
  show ?thesis
  proof (cases "accept_invitation (as_hash st) (as_common st) token password (signed_in session db) new_uid mid now db")
    case (Inl err)
    with Accept show ?thesis
      by (simp add: accepted_now_def)
  next
    case (Inr p)
    obtain uid db1 where p: "p = (uid, db1)"
      by (cases p)
    have "open_links h db1 + (if as_hash st token = h then 1 else 0) \<le> open_links h db"
      using Inr unfolding p by (rule accept_closes)
    with Accept Inr p show ?thesis
      by (simp add: accepted_now_def)
  qed
next
  case (Bootstrap email password uid w mid)
  have "open_links h db' = open_links h db" if "bootstrap_owner (as_common st) email password uid w mid db = Inr db'" for db'
    using that
    by (auto simp: bootstrap_owner_def insert_user_def open_links_def dest!: create_workspace_Inr
        split: option.splits if_splits)
  with Bootstrap show ?thesis
    by (auto simp: accepted_now_def committed_def split: sum.splits)
next
  case (SetActive uid active)
  then show ?thesis
    by (simp add: accepted_now_def open_links_def)
qed

text \<open>
  C16 (bounds) An invitation link is good for one account: in any history from the empty tables, a link is accepted
  at most as often as an invitation was created with its token, whoever presents it and in whatever order
  invitations are renewed, revoked, and workspaces deleted.
\<close>

theorem links_are_single_use:
  "acceptances st h es empty_db \<le> length (filter (draws_link st h) es)"
proof -
  have "acceptances st h es db + open_links h (access_run st es db)
      \<le> open_links h db + length (filter (draws_link st h) es)" for db
  proof (induction es arbitrary: db)
    case (Cons e es)
    show ?case
      using Cons.IH [of "access_step st e db"] link_step [of st h e db] by (cases "draws_link st h e") simp_all
  qed simp
  from this [of empty_db] show ?thesis
    by (simp add: open_links_def empty_db_def)
qed

end
