(* ===== verification/Bundles.thy ===== *)
theory Bundles
  imports Evaluator "HOL-Library.Product_Lexorder"
begin

text \<open>
  Capability bundles, \<open>packages/policy/src/jhin_policy/bundles.py\<close>: the named sets of grants an admin turns on with
  one action, the planner that makes complete grant rows of a bundle, the problems of a row, and whether a bundle is
  on. Summaries, descriptions and the lists of what is not included are left out. \<open>difflib.get_close_matches\<close>, which
  only words a hint, is the parameter \<open>closest\<close>.
\<close>

section \<open>The bundles\<close>

record capability_bundle =
  bu_id :: string
  bu_label :: string
  bu_tools :: "(string \<times> string dict) list"
  bu_rules :: "policy_rule list"

definition BUILTIN_TOOL_PREFIXES :: "string list" where
  "BUILTIN_TOOL_PREFIXES = [''organization'', ''skills'', ''memory'']"

definition AGENT_BRANCH_PATTERN :: string where
  "AGENT_BRANCH_PATTERN = ''agent/*''"

definition MAX_REPOSITORIES :: nat where
  "MAX_REPOSITORIES = 50"

definition MAX_REPOSITORIES_SENTENCE :: string where
  "MAX_REPOSITORIES_SENTENCE = ''At most '' @ show_nat MAX_REPOSITORIES @ '' repositories can be granted at once.''"

definition NO_REPOSITORIES_SENTENCE :: string where
  "NO_REPOSITORIES_SENTENCE = ''List at least one repository, or * for every repository.''"

definition MAX_BASE_CHARS :: nat where
  "MAX_BASE_CHARS = 200"

definition PROTECTED_BRANCHES :: "string list" where
  "PROTECTED_BRANCHES = [''main'', ''master'', ''HEAD'']"

definition connector_type_of :: "string \<Rightarrow> string" where
  "connector_type_of tool_name = takeWhile (\<lambda>c. c \<noteq> CHR ''.'') tool_name"

text \<open>The types a bundle needs a connection of, in the order of its tools.\<close>

definition connector_types :: "capability_bundle \<Rightarrow> string list" where
  "connector_types b =
     foldl (\<lambda>types (name, fixed).
              if connector_type_of name \<in> set BUILTIN_TOOL_PREFIXES \<or> connector_type_of name \<in> set types then types
              else types @ [connector_type_of name]) [] (bu_tools b)"

definition any_repository_scope :: "string dict" where
  "any_repository_scope = [(''repository'', ''*'')]"

definition BUNDLES :: "capability_bundle list" where
  "BUNDLES =
     [\<lparr>bu_id = ''collaboration'', bu_label = ''Collaboration'',
       bu_tools = [(''organization.directory.search'', []), (''organization.colleague_status'', []),
                   (''organization.request_work'', [(''targets'', ''any'')]), (''organization.respond_work_request'', [])],
       bu_rules = []\<rparr>,
      \<lparr>bu_id = ''github-read'', bu_label = ''GitHub (read)'',
       bu_tools = [(''github.repository.list'', any_repository_scope), (''github.repository.read'', any_repository_scope),
                   (''github.branch.list'', any_repository_scope), (''github.file.read'', any_repository_scope),
                   (''github.pull_request.read'', any_repository_scope), (''github.issue.read'', any_repository_scope),
                   (''github.check.read'', any_repository_scope), (''github.workflow_run.read'', any_repository_scope)],
       bu_rules = []\<rparr>,
      \<lparr>bu_id = ''code-editing'', bu_label = ''Code editing'',
       bu_tools = [(''cli.repository.checkout'', [(''repository'', ''*'')]), (''cli.file.list'', [(''path'', ''*'')]),
                   (''cli.file.search'', [(''path'', ''*'')]), (''cli.file.read'', [(''path'', ''*'')]),
                   (''cli.file.edit'', [(''path'', ''*'')]), (''cli.file.write'', [(''path'', ''*'')]),
                   (''cli.test.run'', [(''command'', ''*'')]),
                   (''cli.repository.push'', [(''repository'', ''*''), (''branch'', AGENT_BRANCH_PATTERN)]),
                   (''github.repository.list'', [(''repository'', ''*'')]), (''github.repository.read'', [(''repository'', ''*'')]),
                   (''github.pull_request.read'', [(''repository'', ''*'')]),
                   (''github.pull_request.create'', [(''repository'', ''*''), (''base'', ''*'')])],
       bu_rules = [\<lparr>r_capability = ''cli.repository.push'', r_risk = None, r_action = APPROVAL\<rparr>]\<rparr>,
      \<lparr>bu_id = ''team-building'', bu_label = ''Team building'',
       bu_tools = [(''organization.create_agent'', []), (''organization.update_agent_profile'', []),
                   (''organization.create_team'', []), (''organization.directory.search'', [])],
       bu_rules = []\<rparr>,
      \<lparr>bu_id = ''web-access'', bu_label = ''Web search & browsing'',
       bu_tools = [(''web.search'', []), (''web.fetch'', [(''domain'', ''*'')])], bu_rules = []\<rparr>,
      \<lparr>bu_id = ''skills'', bu_label = ''Skills'', bu_tools = [(''skills.read'', [(''name'', ''*'')])], bu_rules = []\<rparr>,
      \<lparr>bu_id = ''skill-authoring'', bu_label = ''Skill authoring'',
       bu_tools = [(''skills.create'', []), (''skills.update'', [])], bu_rules = []\<rparr>]"

definition bundle_by_id :: "string \<Rightarrow> capability_bundle option" where
  "bundle_by_id i = find (\<lambda>b. bu_id b = i) BUNDLES"

section \<open>Inputs and outputs of the planner\<close>

record connection =
  cn_id :: string
  cn_type :: string
  cn_name :: string
  cn_status :: string
  cn_git :: string
  cn_allowed :: "string list option"

datatype need_kind = NeedConnect | NeedChoose | NeedCreateSandbox | NeedCatalog

record need =
  nd_kind :: need_kind
  nd_type :: string
  nd_choices :: "connection list"
  nd_detail :: string

record grant_spec =
  gs_capability :: string
  gs_scope :: "string dict"
  gs_effect :: string

record bundle_plan =
  pl_bundle :: string
  pl_grants :: "grant_spec list"
  pl_rules :: "policy_rule list"
  pl_needs :: "need list"
  pl_refusals :: "string list"

definition describe_status_refusal :: "connection \<Rightarrow> string \<Rightarrow> string option" where
  "describe_status_refusal c expected =
     (if cn_type c \<noteq> expected
      then Some (quoted (cn_name c) @ '' is a '' @ cn_type c @ '' connection, not '' @ expected @ ''.'')
      else if cn_status c = ''disabled''
      then Some (quoted (cn_name c) @ '' is disabled; enable it or pick another connection.'')
      else if cn_status c \<noteq> ''active''
      then Some (quoted (cn_name c) @ '' needs to be reconnected before agents can use it.'')
      else None)"

definition sandbox_refusal :: "connection \<Rightarrow> connection \<Rightarrow> (string \<Rightarrow> string option) \<Rightarrow> string option" where
  "sandbox_refusal sandbox github names =
     (if cn_git sandbox = []
      then Some (quoted (cn_name sandbox) @ '' names no GitHub connection for repository jobs. Set one under '' @ ''Apps first.'')
      else if cn_git sandbox \<noteq> cn_id github
      then (let other = (case names (cn_git sandbox) of Some n \<Rightarrow> n | None \<Rightarrow> cn_git sandbox)
            in Some (quoted (cn_name sandbox) @ '' uses '' @ quoted other @ '' for repository jobs, not '' @
                     quoted (cn_name github) @ ''. Pick a sandbox that uses this connection, or change its '' @
                     ''GitHub connection under Apps first.''))
      else None)"

text \<open>The loop over the requested repositories: the entries kept, and the refusals.\<close>

fun scan_repositories :: "string list \<Rightarrow> string list \<Rightarrow> string list \<Rightarrow> string list \<times> string list" where
  "scan_repositories [] entries refusals = (entries, refusals)"
| "scan_repositories (raw # rest) entries refusals =
     (if strip raw \<in> set entries then scan_repositories rest entries refusals
      else if \<not> is_repository_pattern (strip raw)
      then scan_repositories rest entries
             (refusals @ [quoted (strip raw) @ '' is not a repository: use owner/name, owner/*, or * for every '' @
                          ''repository.''])
      else scan_repositories rest (entries @ [strip raw]) refusals)"

definition validate_repositories :: "string list \<Rightarrow> string list \<times> string list" where
  "validate_repositories repositories =
     (case scan_repositories repositories [] [] of
        (entries, refusals) \<Rightarrow>
          (let refusals1 = (if MAX_REPOSITORIES < length entries then refusals @ [MAX_REPOSITORIES_SENTENCE] else refusals);
               kept = (if MAX_REPOSITORIES < length entries then take MAX_REPOSITORIES entries else entries)
           in (kept, if kept = [] \<and> refusals1 = [] then [NO_REPOSITORIES_SENTENCE] else refusals1)))"

definition sandbox_allow_list_problems :: "connection \<Rightarrow> string list \<Rightarrow> string list" where
  "sandbox_allow_list_problems sandbox entries =
     (let permitted = (case cn_allowed sandbox of Some a \<Rightarrow> a | None \<Rightarrow> [])
      in if permitted = []
         then [quoted (cn_name sandbox) @ '' allows no repositories; list them on the connection under '' @ ''Apps first.'']
         else map (\<lambda>entry. quoted (cn_name sandbox) @ '' allows only: '' @ join '', '' (sort permitted) @ '' '' @ em_dash @ '' '' @
                           quoted entry @ '' is outside '' @
                           ''it. Add it to the sandbox'' @ [CHR 0x27] @ ''s allowed repositories under Apps, or grant only what the '' @
                           ''sandbox allows.'')
                (filter (\<lambda>entry. \<not> repository_covered_by_allow_list entry permitted) entries))"

definition validate_base :: "string option \<Rightarrow> string \<times> string option" where
  "validate_base base =
     (case base of
        None \<Rightarrow> (''*'', None)
      | Some raw \<Rightarrow>
          (let v = strip raw
           in if v = [] \<or> list_ex py_isspace v \<or> MAX_BASE_CHARS < length v
              then (v, Some ''base must be a branch name or pattern such as main or release/*.'')
              else (v, None)))"

section \<open>The problems of a row\<close>

datatype problem_kind =
    NoMatch
  | WildcardRequiredScope
  | RequiredScopeMissing
  | UnknownScopeKey
  | ConnectionMissing
  | ConnectionWrongType
  | ConnectionDisabled
  | ConnectionNeedsReconnect
  | RepositoryInvalid
  | RepositoryOutsideAllowList
  | BranchRefused
  | ScopeValueBlank

record grant_problem =
  gp_kind :: problem_kind
  gp_text :: string

definition REFUSED_PROBLEM_KINDS :: "problem_kind list" where
  "REFUSED_PROBLEM_KINDS =
     [WildcardRequiredScope, RequiredScopeMissing, UnknownScopeKey, ConnectionMissing, ConnectionWrongType,
      RepositoryInvalid, RepositoryOutsideAllowList, BranchRefused, ScopeValueBlank]"

definition NEEDS_RECONNECT :: "string list" where
  "NEEDS_RECONNECT = [''needs_reauth'', ''error'']"

definition is_wildcard :: "string \<Rightarrow> bool" where
  "is_wildcard capability \<longleftrightarrow> capability = ''*'' \<or> ends_with capability ''.*''"

text \<open>
  What an f-string shows of a list of names: a capability name has no character \<open>repr\<close> escapes but, possibly, a
  final newline.
\<close>

definition repr_names :: "string list \<Rightarrow> string" where
  "repr_names names =
     ''['' @ join '', '' (map (\<lambda>n. quoted (concat (map (\<lambda>c. if c = newline then [CHR 0x5C, CHR ''n''] else [c]) n))) names) @ '']''"

definition no_match_problem ::
  "(string \<Rightarrow> string list \<Rightarrow> string option) \<Rightarrow> string \<Rightarrow> tool list \<Rightarrow> grant_problem" where
  "no_match_problem closest capability catalog =
     \<lparr>gp_kind = NoMatch,
      gp_text = ''Matches no tool in this workspace'' @ [CHR 0x27] @ ''s catalog.'' @
        (case closest capability (sort (remdups (map t_required_capability catalog))) of
           None \<Rightarrow> [] | Some c \<Rightarrow> '' Did you mean '' @ c @ ''?'')\<rparr>"

definition wildcard_problems :: "string \<Rightarrow> tool list \<Rightarrow> grant_problem list" where
  "wildcard_problems capability matched =
     (if is_wildcard capability
      then (let requiring = sort (map t_name (filter (\<lambda>t. t_required_grant_scope_keys t \<noteq> []) matched))
            in if requiring = [] then []
               else [\<lparr>gp_kind = WildcardRequiredScope,
                      gp_text = ''A wildcard grant cannot carry the scope '' @ repr_names requiring @ '' require. Grant '' @
                        ''those capabilities by name, or turn on the Code editing capability.''\<rparr>])
      else [])"

definition missing_problems :: "tool list \<Rightarrow> pyval dict \<Rightarrow> grant_problem list" where
  "missing_problems matched scope =
     concat (map (\<lambda>t. let missing = filter (\<lambda>k. k \<notin> set (dict_keys scope)) (t_required_grant_scope_keys t)
                      in if missing = [] then []
                         else [\<lparr>gp_kind = RequiredScopeMissing,
                                gp_text = t_name t @ '' needs '' @ join '', '' missing @ '' in its grant scope; a '' @
                                  ''grant without it is refused on every call.''\<rparr>]) matched)"

definition unknown_key_problems :: "tool list \<Rightarrow> pyval dict \<Rightarrow> grant_problem list" where
  "unknown_key_problems matched scope =
     (if list_all t_defers_scope matched then []
      else let known = sort (remdups (concat (map t_scope_keys matched)))
           in map (\<lambda>key. \<lparr>gp_kind = UnknownScopeKey,
                          gp_text = quoted key @ '' is not a scope key of '' @ t_name (hd matched) @ '' '' @
                            ''(known keys: '' @ repr_names known @ '').''\<rparr>)
                (sort (remdups (filter (\<lambda>k. k \<notin> set known) (dict_keys scope)))))"

definition blank_value :: "pyval \<Rightarrow> bool" where
  "blank_value v =
     (case v of
        PStr s \<Rightarrow> strip s = []
      | PList items \<Rightarrow> items = [] \<or> list_ex (\<lambda>item. case item of PStr s \<Rightarrow> strip s = [] | _ \<Rightarrow> False) items
      | _ \<Rightarrow> False)"

definition blank_problems :: "pyval dict \<Rightarrow> grant_problem list" where
  "blank_problems scope =
     map (\<lambda>key. \<lparr>gp_kind = ScopeValueBlank,
                 gp_text = quoted key @ '' is blank; a scope value must be a name or a pattern such as *.''\<rparr>)
       (filter (\<lambda>key. case dict_get scope key of Some v \<Rightarrow> blank_value v | None \<Rightarrow> False)
          (sort (remdups (dict_keys scope))))"

text \<open>
  \<open>UUID(raw)\<close> of the standard library: prefixes and hyphens are dropped, and 32 characters have to remain that
  \<open>int(hex, 16)\<close> reads.
\<close>

fun without :: "string \<Rightarrow> nat \<Rightarrow> string \<Rightarrow> string" where
  "without p n [] = []"
| "without p (Suc n) (c # cs) = without p n cs"
| "without p 0 (c # cs) = (if starts_with (c # cs) p then without p (length p - 1) cs else c # without p 0 cs)"

definition hex_char :: "char \<Rightarrow> bool" where
  "hex_char c \<longleftrightarrow> c \<in> set ''0123456789abcdefABCDEF''"

definition int16_text :: "string \<Rightarrow> bool" where
  "int16_text s =
     (let t = strip s;
          unsigned = (if t \<noteq> [] \<and> (hd t = CHR ''+'' \<or> hd t = CHR ''-'') then tl t else t);
          digits = (if starts_with unsigned ''0x'' \<or> starts_with unsigned ''0X''
                    then removeprefix (drop 2 unsigned) ''_'' else unsigned)
      in list_all (\<lambda>g. g \<noteq> [] \<and> list_all hex_char g) (split_on CHR ''_'' digits))"

definition uuid_text :: "string \<Rightarrow> bool" where
  "uuid_text raw =
     (let hex = without ''-'' 0 (strip_by (\<lambda>c. c = CHR ''{'' \<or> c = CHR ''}'') (without ''uuid:'' 0 (without ''urn:'' 0 raw)))
      in length hex = 32 \<and> int16_text hex)"

text \<open>The connection a row pins, when it exists and is of the kind the tools call through.\<close>

definition pinned_connection ::
  "tool list \<Rightarrow> pyval dict \<Rightarrow> connection list \<Rightarrow> grant_problem list \<times> connection option" where
  "pinned_connection matched scope connections =
     (case dict_get scope ''connection_id'' of
        None \<Rightarrow> ([], None)
      | Some raw \<Rightarrow>
          (let expected = connector_type_of (t_name (hd matched))
           in case (case raw of PStr s \<Rightarrow> if uuid_text s then find (\<lambda>c. cn_id c = s) connections else None | _ \<Rightarrow> None) of
                None \<Rightarrow> ([\<lparr>gp_kind = ConnectionMissing, gp_text = ''Connection no longer exists.''\<rparr>], None)
              | Some c \<Rightarrow>
                  if cn_type c \<noteq> expected
                  then ([\<lparr>gp_kind = ConnectionWrongType,
                          gp_text = ''Connection '' @ quoted (cn_name c) @ '' is a '' @ cn_type c @ '' '' @
                            ''connection, not '' @ expected @ ''.''\<rparr>], None)
                  else (if cn_status c = ''disabled''
                        then [\<lparr>gp_kind = ConnectionDisabled,
                               gp_text = ''Connection '' @ quoted (cn_name c) @ '' is disabled.''\<rparr>]
                        else if cn_status c \<in> set NEEDS_RECONNECT
                        then [\<lparr>gp_kind = ConnectionNeedsReconnect,
                               gp_text = ''Connection '' @ quoted (cn_name c) @ '' needs to be reconnected.''\<rparr>]
                        else [],
                        Some c)))"

definition repository_problems :: "connection option \<Rightarrow> pyval dict \<Rightarrow> grant_problem list" where
  "repository_problems pinned scope =
     (case dict_get scope ''repository'' of
        None \<Rightarrow> []
      | Some v \<Rightarrow>
          (let vs = (case v of PList items \<Rightarrow> items | _ \<Rightarrow> [v])
           in if vs = [] \<or> \<not> list_all (\<lambda>i. case i of PStr s \<Rightarrow> is_repository_pattern s | _ \<Rightarrow> False) vs
              then [\<lparr>gp_kind = RepositoryInvalid, gp_text = ''repository must be owner/name, owner/*, or *.''\<rparr>]
              else (case pinned of
                      Some c \<Rightarrow>
                        if cn_type c = ''cli''
                        then map (\<lambda>s. \<lparr>gp_kind = RepositoryOutsideAllowList, gp_text = s\<rparr>)
                               (sandbox_allow_list_problems c (concat (map (\<lambda>i. case i of PStr s \<Rightarrow> [s] | _ \<Rightarrow> []) vs)))
                        else []
                    | None \<Rightarrow> [])))"

definition branch_problems :: "tool list \<Rightarrow> pyval dict \<Rightarrow> grant_problem list" where
  "branch_problems matched scope =
     (case dict_get scope ''branch'' of
        Some (PStr branch) \<Rightarrow>
          if list_ex (\<lambda>t. ''branch'' \<in> set (t_scope_keys t)) matched \<and> branch \<in> set PROTECTED_BRANCHES
          then [\<lparr>gp_kind = BranchRefused,
                 gp_text = ''branch '' @ quoted branch @ '' is refused on every push: the sandbox never pushes '' @
                   ''to main, master or HEAD. Use a pattern such as '' @ AGENT_BRANCH_PATTERN @ ''.''\<rparr>]
          else []
      | _ \<Rightarrow> [])"

definition grant_problem_details ::
  "(string \<Rightarrow> string list \<Rightarrow> string option) \<Rightarrow> string \<Rightarrow> pyval dict \<Rightarrow> string \<Rightarrow> tool list \<Rightarrow> connection list
     \<Rightarrow> grant_problem list" where
  "grant_problem_details closest capability scope effect catalog connections =
     (if effect \<noteq> ''allow'' then []
      else let matched = filter (\<lambda>t. capability_matches capability (t_required_capability t)) catalog
        in if matched = [] then [no_match_problem closest capability catalog]
           else case pinned_connection matched scope connections of
                  (connection_problems, pinned) \<Rightarrow>
                    wildcard_problems capability matched @ missing_problems matched scope
                    @ unknown_key_problems matched scope @ blank_problems scope @ connection_problems
                    @ repository_problems pinned scope @ branch_problems matched scope)"

definition grant_problems ::
  "(string \<Rightarrow> string list \<Rightarrow> string option) \<Rightarrow> string \<Rightarrow> pyval dict \<Rightarrow> string \<Rightarrow> tool list \<Rightarrow> connection list
     \<Rightarrow> string list" where
  "grant_problems closest capability scope effect catalog connections =
     map gp_text (grant_problem_details closest capability scope effect catalog connections)"

definition neutral_problem_text :: "grant_problem \<Rightarrow> string" where
  "neutral_problem_text p =
     (case gp_kind p of
        ConnectionWrongType \<Rightarrow> ''The pinned connection is not the kind this tool calls through.''
      | ConnectionDisabled \<Rightarrow> ''The pinned connection is disabled.''
      | ConnectionNeedsReconnect \<Rightarrow> ''The pinned connection needs to be reconnected.''
      | RepositoryOutsideAllowList \<Rightarrow> ''Outside the sandbox'' @ [CHR 0x27] @ ''s allowed repositories.''
      | _ \<Rightarrow> gp_text p)"

section \<open>The planner\<close>

text \<open>A \<open>dict\<close> built from a sequence: the last of two entries with one key stands.\<close>

definition by_key :: "('a \<Rightarrow> string) \<Rightarrow> 'a list \<Rightarrow> string \<Rightarrow> 'a option" where
  "by_key f xs k = find (\<lambda>x. f x = k) (rev xs)"

definition present_tools :: "capability_bundle \<Rightarrow> tool list \<Rightarrow> (string \<times> tool) list" where
  "present_tools b catalog =
     List.map_filter (\<lambda>(name, fixed). map_option (\<lambda>t. (name, t)) (by_key t_name catalog name)) (bu_tools b)"

definition catalog_needs :: "capability_bundle \<Rightarrow> tool list \<Rightarrow> need list" where
  "catalog_needs b catalog =
     map (\<lambda>(name, fixed). \<lparr>nd_kind = NeedCatalog, nd_type = connector_type_of name, nd_choices = [], nd_detail = name\<rparr>)
       (filter (\<lambda>(name, fixed). by_key t_name catalog name = None) (bu_tools b))"

text \<open>GitHub first, a sandbox last.\<close>

definition needed_types :: "(string \<times> tool) list \<Rightarrow> string list" where
  "needed_types present =
     sort_key (\<lambda>kind. (kind \<noteq> ''github'', kind = ''cli''))
       (foldl (\<lambda>types (name, t).
                 if ''connection_id'' \<in> set (t_scope_keys t) \<and> connector_type_of name \<notin> set types
                 then types @ [connector_type_of name] else types) [] present)"

record resolution =
  rs_resolved :: "connection dict"
  rs_needs :: "need list"
  rs_refusals :: "string list"

definition add_need :: "need \<Rightarrow> resolution \<Rightarrow> resolution" where
  "add_need n r = r\<lparr>rs_needs := rs_needs r @ [n]\<rparr>"

definition add_refusal :: "string \<Rightarrow> resolution \<Rightarrow> resolution" where
  "add_refusal s r = r\<lparr>rs_refusals := rs_refusals r @ [s]\<rparr>"

definition resolve_to :: "string \<Rightarrow> connection \<Rightarrow> resolution \<Rightarrow> resolution" where
  "resolve_to kind c r = r\<lparr>rs_resolved := dict_set (rs_resolved r) kind c\<rparr>"

text \<open>The connection the operator chose for a type.\<close>

definition resolve_chosen ::
  "connection list \<Rightarrow> connection option \<Rightarrow> string \<Rightarrow> string \<Rightarrow> resolution \<Rightarrow> resolution" where
  "resolve_chosen connections github kind chosen_id r =
     (case by_key cn_id connections chosen_id of
        None \<Rightarrow> add_refusal (quoted chosen_id @ '' is not a connection in this workspace.'') r
      | Some c \<Rightarrow>
          (case (case describe_status_refusal c kind of
                   Some s \<Rightarrow> Some s
                 | None \<Rightarrow>
                     (case github of
                        Some g \<Rightarrow> if kind = ''cli''
                                   then sandbox_refusal c g (\<lambda>i. map_option cn_name (by_key cn_id connections i)) else None
                      | None \<Rightarrow> None)) of
             Some s \<Rightarrow> add_refusal s r
           | None \<Rightarrow> resolve_to kind c r))"

text \<open>Without a choice: the only active connection that qualifies, or a question.\<close>

definition candidates_of :: "connection list \<Rightarrow> connection option \<Rightarrow> string \<Rightarrow> connection list" where
  "candidates_of connections github kind =
     (let active = filter (\<lambda>c. cn_type c = kind \<and> cn_status c = ''active'') connections
      in case github of
           Some g \<Rightarrow> if kind = ''cli'' then filter (\<lambda>c. cn_git c = cn_id g) active else active
         | None \<Rightarrow> active)"

definition missing_need :: "connection list \<Rightarrow> connection option \<Rightarrow> string \<Rightarrow> need" where
  "missing_need connections github kind =
     (if kind = ''cli''
      then \<lparr>nd_kind = NeedCreateSandbox, nd_type = ''cli'',
            nd_choices = (case github of
                            Some g \<Rightarrow> [g]
                          | None \<Rightarrow> filter (\<lambda>c. cn_type c = ''github'' \<and> cn_status c = ''active'') connections),
            nd_detail = []\<rparr>
      else \<lparr>nd_kind = NeedConnect, nd_type = kind, nd_choices = [], nd_detail = []\<rparr>)"

definition resolve_type ::
  "connection list \<Rightarrow> string dict \<Rightarrow> string list \<Rightarrow> string \<Rightarrow> resolution \<Rightarrow> resolution" where
  "resolve_type connections chosen needed kind r =
     (let github = dict_get (rs_resolved r) ''github''
      in if kind = ''cli'' \<and> ''github'' \<in> set needed \<and> github = None then r
         else case dict_get chosen kind of
                Some chosen_id \<Rightarrow> resolve_chosen connections github kind chosen_id r
              | None \<Rightarrow>
                  (case candidates_of connections github kind of
                     [] \<Rightarrow> add_need (missing_need connections github kind) r
                   | [c] \<Rightarrow> resolve_to kind c r
                   | cs \<Rightarrow> add_need \<lparr>nd_kind = NeedChoose, nd_type = kind, nd_choices = cs, nd_detail = []\<rparr> r))"

definition resolve_types ::
  "connection list \<Rightarrow> string dict \<Rightarrow> string list \<Rightarrow> resolution \<Rightarrow> resolution" where
  "resolve_types connections chosen needed r =
     foldl (\<lambda>s kind. resolve_type connections chosen needed kind s) r needed"

text \<open>The scope of the rows of one tool, but for the repository.\<close>

definition base_scope :: "string dict \<Rightarrow> string \<Rightarrow> string \<Rightarrow> string list \<Rightarrow> string dict" where
  "base_scope fixed connection_id base_value keys =
     foldl (\<lambda>scope key.
              if key = ''connection_id'' then dict_set scope key connection_id
              else if key = ''branch'' then dict_set scope key AGENT_BRANCH_PATTERN
              else if key = ''base'' then dict_set scope key (if base_value = [] then ''*'' else base_value)
              else if key = ''repository'' then scope
              else case dict_get fixed key of Some v \<Rightarrow> dict_set scope key v | None \<Rightarrow> scope) [] keys"

definition tool_rows ::
  "capability_bundle \<Rightarrow> connection dict \<Rightarrow> string list \<Rightarrow> string \<Rightarrow> string \<times> tool \<Rightarrow> grant_spec list" where
  "tool_rows b resolved entries base_value = (\<lambda>(name, t).
     (let fixed = (case map_of (bu_tools b) name of Some f \<Rightarrow> f | None \<Rightarrow> [])
      in if ''connection_id'' \<in> set (t_scope_keys t) \<and> dict_get resolved (connector_type_of name) = None then []
         else
           let connection_id = (case dict_get resolved (connector_type_of name) of Some c \<Rightarrow> cn_id c | None \<Rightarrow> []);
               scope = base_scope fixed connection_id base_value (t_scope_keys t);
               variants = (if ''repository'' \<in> set (t_scope_keys t)
                           then map (\<lambda>entry. dict_set scope ''repository'' entry) entries else [scope])
           in map (\<lambda>s. \<lparr>gs_capability = t_required_capability t, gs_scope = s, gs_effect = ''allow''\<rparr>) variants))"

definition signature :: "grant_spec \<Rightarrow> string \<times> (string \<times> string) list" where
  "signature g = (gs_capability g, sort (gs_scope g))"

fun dedupe_rows :: "(string \<times> (string \<times> string) list) list \<Rightarrow> grant_spec list \<Rightarrow> grant_spec list" where
  "dedupe_rows seen [] = []"
| "dedupe_rows seen (g # gs) =
     (if signature g \<in> set seen then dedupe_rows seen gs else g # dedupe_rows (signature g # seen) gs)"

definition json_scope :: "string dict \<Rightarrow> pyval dict" where
  "json_scope d = map (\<lambda>(k, v). (k, PStr v)) d"

definition row_problems ::
  "(string \<Rightarrow> string list \<Rightarrow> string option) \<Rightarrow> tool list \<Rightarrow> connection list \<Rightarrow> grant_spec \<Rightarrow> string list" where
  "row_problems closest catalog connections g =
     grant_problems closest (gs_capability g) (json_scope (gs_scope g)) (gs_effect g) catalog connections"

definition add_new :: "string list \<Rightarrow> string list \<Rightarrow> string list" where
  "add_new refusals problems = foldl (\<lambda>rs p. if p \<in> set rs then rs else rs @ [p]) refusals problems"

definition plan_bundle ::
  "(string \<Rightarrow> string list \<Rightarrow> string option) \<Rightarrow> capability_bundle \<Rightarrow> tool list \<Rightarrow> connection list \<Rightarrow> policy_rule list
     \<Rightarrow> string dict \<Rightarrow> string list \<Rightarrow> string option \<Rightarrow> bundle_plan" where
  "plan_bundle closest b catalog connections existing_rules chosen repositories base =
     (let present = present_tools b catalog;
          r = resolve_types connections chosen (needed_types present)
                \<lparr>rs_resolved = [], rs_needs = catalog_needs b catalog, rs_refusals = []\<rparr>;
          entries = fst (validate_repositories repositories);
          refusals1 = rs_refusals r
            @ (if list_ex (\<lambda>(name, t). ''repository'' \<in> set (t_scope_keys t)) present
               then snd (validate_repositories repositories) else [])
            @ (case snd (validate_base base) of
                 Some s \<Rightarrow> if list_ex (\<lambda>(name, t). ''base'' \<in> set (t_scope_keys t)) present then [s] else []
               | None \<Rightarrow> []);
          rows = dedupe_rows [] (concat (map (tool_rows b (rs_resolved r) entries (fst (validate_base base))) present));
          refusals = add_new refusals1 (concat (map (row_problems closest catalog connections) rows))
      in \<lparr>pl_bundle = bu_id b,
          pl_grants = (if rs_needs r \<noteq> [] \<or> refusals \<noteq> [] then [] else rows),
          pl_rules = filter (\<lambda>x. r_capability x \<notin> set (map r_capability existing_rules)) (bu_rules b),
          pl_needs = rs_needs r, pl_refusals = refusals\<rparr>)"

section \<open>Is a bundle on?\<close>

record annotated_grant =
  an_capability :: string
  an_scope :: "pyval dict"
  an_effect :: string
  an_problems :: "string list"

datatype bundle_state = BundleOn | BundlePartial | BundleOff

definition bundle_capabilities :: "capability_bundle \<Rightarrow> tool list \<Rightarrow> string list" where
  "bundle_capabilities b catalog =
     foldl (\<lambda>caps (name, fixed).
              case by_key t_name catalog name of
                None \<Rightarrow> caps
              | Some t \<Rightarrow> if t_required_capability t \<in> set caps then caps else caps @ [t_required_capability t])
       [] (bu_tools b)"

definition covered_capabilities :: "string list \<Rightarrow> annotated_grant list \<Rightarrow> string list" where
  "covered_capabilities capabilities grants =
     filter (\<lambda>c. list_ex (\<lambda>g. an_effect g = ''allow'' \<and> an_problems g = [] \<and> capability_matches (an_capability g) c) grants)
       capabilities"

definition state_of_bundle :: "capability_bundle \<Rightarrow> annotated_grant list \<Rightarrow> tool list \<Rightarrow> bundle_state" where
  "state_of_bundle b grants catalog =
     (let capabilities = bundle_capabilities b catalog
      in if capabilities = [] then BundleOff
         else let covered = covered_capabilities capabilities grants
              in if length covered = length capabilities then BundleOn
                 else if covered \<noteq> [] then BundlePartial else BundleOff)"

end
