(* ===== verification/BundlePlans.thy ===== *)
theory BundlePlans
  imports Bundles
begin

text \<open>
  What a plan gives: its rows turn the bundle on, and an agent that holds them can do no more than the tools of the
  bundle on the connections and repositories the plan was asked for.
\<close>

definition grant_of :: "grant_spec \<Rightarrow> grant" where
  "grant_of g = \<lparr>g_capability = gs_capability g, g_scope = json_scope (gs_scope g),
    g_effect = (if gs_effect g = ''allow'' then GALLOW else GDENY)\<rparr>"

section \<open>Dictionaries and lists\<close>

lemma by_key_Some: "by_key f xs k = Some x \<Longrightarrow> x \<in> set xs \<and> f x = k"
  unfolding by_key_def using find_Some_in [of "\<lambda>x. f x = k" "rev xs" x] by simp

lemma json_scope_get: "dict_get (json_scope d) k = map_option PStr (dict_get d k)"
  by (induction d) (auto simp: json_scope_def dict_get_def)

lemma dims_get: "dict_get g k = Some v \<Longrightarrow> k \<notin> set (t_result_scope_keys t) \<Longrightarrow> dict_get (request_dimensions t g) k = Some v"
  by (induction g) (auto simp: request_dimensions_def dict_get_def split: if_splits)

lemma scope_matches_get:
  "scope_matches g s \<Longrightarrow> dict_get g k = Some v \<Longrightarrow> \<exists>w. dict_get s k = Some w \<and> scope_value_matches v w"
  by (fastforce simp: scope_matches_def list_all_iff dict_get_def dest: map_of_SomeD split: option.splits)

lemma scope_value_str: "scope_value_matches (PStr p) w \<Longrightarrow> \<exists>s. w = PStr s \<and> fnmatchcase s p"
  by (cases w) auto

lemma scope_entry:
  assumes "scope_matches (request_dimensions t (json_scope d)) s" "dict_get d k = Some p" "k \<notin> set (t_result_scope_keys t)"
  shows "\<exists>v. dict_get s k = Some (PStr v) \<and> fnmatchcase v p"
proof -
  have "dict_get (request_dimensions t (json_scope d)) k = Some (PStr p)"
    using assms(2,3) by (simp add: dims_get json_scope_get)
  from scope_matches_get [OF assms(1) this] show ?thesis
    using scope_value_str by blast
qed

lemma add_new_Nil: "add_new rs ps = [] \<longleftrightarrow> rs = [] \<and> ps = []"
proof -
  have "foldl (\<lambda>rs p. if p \<in> set rs then rs else rs @ [p]) rs ps = [] \<Longrightarrow> rs = [] \<and> ps = []" for rs
  proof (induction ps arbitrary: rs)
    case (Cons p ps)
    show ?case
      using Cons.prems Cons.IH [of rs] Cons.IH [of "rs @ [p]"] by (cases "p \<in> set rs") simp_all
  qed simp
  then show ?thesis
    by (auto simp: add_new_def)
qed

lemma set_dedupe: "set (dedupe_rows seen gs) \<subseteq> set gs"
  by (induction seen gs rule: dedupe_rows.induct) auto

lemma dedupe_keeps: "g \<in> set gs \<Longrightarrow> signature g \<notin> set seen \<Longrightarrow> \<exists>h \<in> set (dedupe_rows seen gs). signature h = signature g"
proof (induction gs arbitrary: seen)
  case (Cons h gs)
  show ?case
    using Cons.prems Cons.IH [of seen] Cons.IH [of "signature h # seen"] by (cases "signature g = signature h") auto
qed simp

section \<open>The rows of a tool\<close>

definition scope_entry_of :: "string dict \<Rightarrow> string \<Rightarrow> string \<Rightarrow> string \<Rightarrow> string option" where
  "scope_entry_of fixed i v key =
     (if key = ''connection_id'' then Some i
      else if key = ''branch'' then Some AGENT_BRANCH_PATTERN
      else if key = ''base'' then Some (if v = [] then ''*'' else v)
      else if key = ''repository'' then None
      else dict_get fixed key)"

lemma base_scope_snoc:
  "base_scope fixed i v (keys @ [key]) =
     (case scope_entry_of fixed i v key of
        Some x \<Rightarrow> dict_set (base_scope fixed i v keys) key x | None \<Rightarrow> base_scope fixed i v keys)"
  unfolding base_scope_def scope_entry_of_def by (simp only: foldl_append foldl_Cons foldl_Nil) (simp split: option.split)

lemma base_scope_get:
  "dict_get (base_scope fixed i v keys) k = (if k \<in> set keys then scope_entry_of fixed i v k else None)"
proof (induction keys rule: rev_induct)
  case Nil
  then show ?case by (simp add: base_scope_def dict_get_def)
next
  case (snoc key keys)
  then show ?case
    by (cases "scope_entry_of fixed i v key") (auto simp: base_scope_snoc)
qed

lemma tool_rows_in:
  assumes "g \<in> set (tool_rows b resolved entries v (name, t))"
  shows "gs_capability g = t_required_capability t \<and> gs_effect g = ''allow''
    \<and> (''connection_id'' \<in> set (t_scope_keys t) \<longrightarrow>
         (\<exists>c. dict_get resolved (connector_type_of name) = Some c \<and> dict_get (gs_scope g) ''connection_id'' = Some (cn_id c)))
    \<and> (''repository'' \<in> set (t_scope_keys t) \<longrightarrow> (\<exists>e \<in> set entries. dict_get (gs_scope g) ''repository'' = Some e))
    \<and> (''branch'' \<in> set (t_scope_keys t) \<longrightarrow> dict_get (gs_scope g) ''branch'' = Some AGENT_BRANCH_PATTERN)"
  using assms by (auto simp: tool_rows_def Let_def base_scope_get scope_entry_of_def split: if_splits)

lemma tool_rows_exist:
  assumes "''repository'' \<in> set (t_scope_keys t) \<longrightarrow> entries \<noteq> []"
    and "''connection_id'' \<in> set (t_scope_keys t) \<longrightarrow> dict_get resolved (connector_type_of name) \<noteq> None"
  shows "tool_rows b resolved entries v (name, t) \<noteq> []"
  using assms by (auto simp: tool_rows_def Let_def)

section \<open>The connections\<close>

definition resolved_ok :: "connection list \<Rightarrow> resolution \<Rightarrow> bool" where
  "resolved_ok connections r \<longleftrightarrow>
     (\<forall>kind c. dict_get (rs_resolved r) kind = Some c
        \<longrightarrow> c \<in> set connections \<and> cn_type c = kind \<and> cn_status c = ''active'')"

definition open_questions :: "resolution \<Rightarrow> bool" where
  "open_questions r \<longleftrightarrow> rs_needs r \<noteq> [] \<or> rs_refusals r \<noteq> []"

lemma candidates_of_in: "c \<in> set (candidates_of connections github kind)
    \<Longrightarrow> c \<in> set connections \<and> cn_type c = kind \<and> cn_status c = ''active''"
  by (auto simp: candidates_of_def Let_def split: option.splits if_splits)

lemma resolve_to_ok:
  assumes "resolved_ok connections r" "c \<in> set connections" "cn_type c = kind" "cn_status c = ''active''"
  shows "resolved_ok connections (resolve_to kind c r)"
  using assms by (simp add: resolved_ok_def resolve_to_def)

lemma asking_ok [simp]:
  "resolved_ok connections (add_need n r) = resolved_ok connections r"
  "resolved_ok connections (add_refusal s r) = resolved_ok connections r"
  by (simp_all add: resolved_ok_def add_need_def add_refusal_def)

lemma asking_open [simp]: "open_questions (add_need n r)" "open_questions (add_refusal s r)"
  by (simp_all add: open_questions_def add_need_def add_refusal_def)

lemma resolve_chosen_ok:
  assumes "resolved_ok connections r"
  shows "resolved_ok connections (resolve_chosen connections github kind i r)"
    and "dict_get (rs_resolved (resolve_chosen connections github kind i r)) kind \<noteq> None
      \<or> open_questions (resolve_chosen connections github kind i r)"
proof -
  show "resolved_ok connections (resolve_chosen connections github kind i r)"
    using assms by_key_Some [of cn_id connections i]
    by (auto simp: resolve_chosen_def describe_status_refusal_def intro!: resolve_to_ok split: option.splits if_splits)
  show "dict_get (rs_resolved (resolve_chosen connections github kind i r)) kind \<noteq> None
      \<or> open_questions (resolve_chosen connections github kind i r)"
    by (auto simp: resolve_chosen_def resolve_to_def split: option.splits)
qed

text \<open>One round of the loop: the type is resolved, or a question is left, unless it waits for GitHub.\<close>

lemma resolve_type_ok:
  assumes "resolved_ok connections r"
  shows "resolved_ok connections (resolve_type connections chosen needed kind r)"
  using assms resolve_chosen_ok(1) [OF assms]
    candidates_of_in [of _ connections "dict_get (rs_resolved r) ''github''" kind]
  by (auto simp: resolve_type_def Let_def intro!: resolve_to_ok split: option.splits list.splits)

lemma resolve_type_settles:
  assumes "resolved_ok connections r"
    and "kind = ''cli'' \<and> ''github'' \<in> set needed \<longrightarrow> dict_get (rs_resolved r) ''github'' \<noteq> None"
  shows "dict_get (rs_resolved (resolve_type connections chosen needed kind r)) kind \<noteq> None
    \<or> open_questions (resolve_type connections chosen needed kind r)"
proof (cases "dict_get chosen kind")
  case (Some i)
  then have "resolve_type connections chosen needed kind r
      = resolve_chosen connections (dict_get (rs_resolved r) ''github'') kind i r"
    using assms(2) by (auto simp: resolve_type_def Let_def)
  then show ?thesis
    using resolve_chosen_ok(2) [OF assms(1)] by simp
next
  case None
  then show ?thesis
    using assms(2) by (auto simp: resolve_type_def Let_def resolve_to_def split: list.split)
qed

text \<open>Later rounds keep what is resolved and what is open.\<close>

definition grows :: "resolution \<Rightarrow> resolution \<Rightarrow> bool" where
  "grows r s \<longleftrightarrow> (\<forall>kind. dict_get (rs_resolved r) kind \<noteq> None \<longrightarrow> dict_get (rs_resolved s) kind \<noteq> None)
     \<and> (open_questions r \<longrightarrow> open_questions s)"

lemma grows_refl: "grows r r"
  by (simp add: grows_def)

lemma grows_trans: "grows r s \<Longrightarrow> grows s u \<Longrightarrow> grows r u"
  by (simp add: grows_def)

lemma asking_grows: "grows r (add_need n r)" "grows r (add_refusal s r)" "grows r (resolve_to kind c r)"
  by (auto simp: grows_def open_questions_def add_need_def add_refusal_def resolve_to_def)

lemma resolve_type_grows: "grows r (resolve_type connections chosen needed kind r)"
  by (simp add: resolve_type_def resolve_chosen_def Let_def grows_refl asking_grows split: option.splits list.splits)

definition resolve_loop :: "connection list \<Rightarrow> string dict \<Rightarrow> string list \<Rightarrow> resolution \<Rightarrow> string list \<Rightarrow> resolution" where
  "resolve_loop connections chosen needed r kinds = foldl (\<lambda>s kind. resolve_type connections chosen needed kind s) r kinds"

lemma resolve_loop_simps [simp]:
  "resolve_loop connections chosen needed r [] = r"
  "resolve_loop connections chosen needed r (kind # kinds)
     = resolve_loop connections chosen needed (resolve_type connections chosen needed kind r) kinds"
  by (simp_all add: resolve_loop_def)

lemma resolve_loop_ok:
  assumes "resolved_ok connections r"
  shows "resolved_ok connections (resolve_loop connections chosen needed r kinds)
    \<and> grows r (resolve_loop connections chosen needed r kinds)"
  using assms
proof (induction kinds arbitrary: r)
  case (Cons kind kinds)
  have "resolved_ok connections (resolve_type connections chosen needed kind r)"
    using Cons.prems by (rule resolve_type_ok)
  from Cons.IH [OF this] show ?case
    using resolve_type_grows grows_trans by (metis resolve_loop_simps(2))
qed (simp add: grows_refl)

lemma resolve_loop_settles:
  assumes "resolved_ok connections r" "kind \<in> set kinds"
    and "kind = ''cli'' \<and> ''github'' \<in> set needed \<longrightarrow> dict_get (rs_resolved r) ''github'' \<noteq> None"
  shows "dict_get (rs_resolved (resolve_loop connections chosen needed r kinds)) kind \<noteq> None
    \<or> open_questions (resolve_loop connections chosen needed r kinds)"
  using assms
proof (induction kinds arbitrary: r)
  case (Cons k kinds)
  let ?r = "resolve_type connections chosen needed k r"
  have ok: "resolved_ok connections ?r"
    using Cons.prems(1) by (rule resolve_type_ok)
  show ?case
  proof (cases "kind = k")
    case True
    then have "dict_get (rs_resolved ?r) kind \<noteq> None \<or> open_questions ?r"
      using resolve_type_settles [OF Cons.prems(1), of k needed chosen] Cons.prems(3) by simp
    then show ?thesis
      using resolve_loop_ok [OF ok, of chosen needed kinds] by (auto simp: grows_def)
  next
    case False
    have "kind = ''cli'' \<and> ''github'' \<in> set needed \<longrightarrow> dict_get (rs_resolved ?r) ''github'' \<noteq> None"
      using Cons.prems(3) resolve_type_grows [of r connections chosen needed k] by (simp add: grows_def)
    then show ?thesis
      using Cons.IH [OF ok] Cons.prems(2) False by simp
  qed
qed simp

lemma needed_github_first:
  assumes "''github'' \<in> set (needed_types present)"
  shows "\<exists>rest. needed_types present = ''github'' # rest"
proof -
  define f :: "string \<Rightarrow> bool \<times> bool" where "f = (\<lambda>kind. (kind \<noteq> ''github'', kind = ''cli''))"
  obtain xs where xs: "needed_types present = sort_key f xs"
    by (simp add: needed_types_def f_def)
  then have "f (hd (sort_key f xs)) \<le> f ''github''"
    using assms by (intro sort_key_hd_minimal) auto
  then have "hd (needed_types present) = ''github''"
    using xs by (simp add: f_def)
  then show ?thesis
    using assms by (cases "needed_types present") auto
qed

text \<open>Every type the tools call through ends up with an active connection, unless a question stays open.\<close>

lemma resolve_types_settle:
  assumes "resolved_ok connections r" "kind \<in> set (needed_types present)"
  shows "dict_get (rs_resolved (resolve_types connections chosen (needed_types present) r)) kind \<noteq> None
    \<or> open_questions (resolve_types connections chosen (needed_types present) r)"
proof -
  let ?needed = "needed_types present"
  have loop: "resolve_types connections chosen ?needed r = resolve_loop connections chosen ?needed r ?needed"
    by (simp add: resolve_types_def resolve_loop_def)
  show ?thesis
  proof (cases "''github'' \<in> set ?needed")
    case False
    then show ?thesis
      unfolding loop using assms by (intro resolve_loop_settles) auto
  next
    case True
    then obtain rest where rest: "?needed = ''github'' # rest"
      using needed_github_first by blast
    let ?r = "resolve_type connections chosen ?needed ''github'' r"
    have ok: "resolved_ok connections ?r"
      using assms(1) by (rule resolve_type_ok)
    have split: "resolve_loop connections chosen ?needed r ?needed = resolve_loop connections chosen ?needed ?r rest"
      using rest by (metis resolve_loop_simps(2))
    have first: "dict_get (rs_resolved ?r) ''github'' \<noteq> None \<or> open_questions ?r"
      using resolve_type_settles [OF assms(1), of "''github''"] by simp
    note keep = resolve_loop_ok [OF ok, of chosen ?needed rest]
    show ?thesis
    proof (cases "open_questions ?r \<or> kind = ''github''")
      case True
      then show ?thesis
        unfolding loop split using first keep by (auto simp: grows_def)
    next
      case False
      then have "kind \<in> set rest"
        using assms(2) rest by auto
      then show ?thesis
        unfolding loop split using first False by (intro resolve_loop_settles [OF ok]) auto
    qed
  qed
qed

lemma needed_types_iff:
  "kind \<in> set (needed_types present)
     \<longleftrightarrow> (\<exists>(name, t) \<in> set present. ''connection_id'' \<in> set (t_scope_keys t) \<and> connector_type_of name = kind)"
proof -
  have "kind \<in> set (foldl (\<lambda>types (name, t).
                 if ''connection_id'' \<in> set (t_scope_keys t) \<and> connector_type_of name \<notin> set types
                 then types @ [connector_type_of name] else types) acc present)
    \<longleftrightarrow> kind \<in> set acc \<or> (\<exists>(name, t) \<in> set present. ''connection_id'' \<in> set (t_scope_keys t) \<and> connector_type_of name = kind)" for acc
    by (induction present arbitrary: acc) auto
  then show ?thesis
    by (simp add: needed_types_def)
qed

section \<open>A row without a problem\<close>

lemma clean_row:
  assumes "grant_problem_details closest capability scope ''allow'' catalog connections = []"
  obtains matched where "matched = filter (\<lambda>t. capability_matches capability (t_required_capability t)) catalog" "matched \<noteq> []"
    "fst (pinned_connection matched scope connections) = []"
    "repository_problems (snd (pinned_connection matched scope connections)) scope = []"
proof -
  let ?matched = "filter (\<lambda>t. capability_matches capability (t_required_capability t)) catalog"
  have ne: "?matched \<noteq> []"
    using assms by (auto simp: grant_problem_details_def)
  obtain ps pin where pin: "pinned_connection ?matched scope connections = (ps, pin)"
    by (cases "pinned_connection ?matched scope connections")
  have "ps = [] \<and> repository_problems pin scope = []"
    using assms ne unfolding grant_problem_details_def by (simp add: Let_def pin split: if_splits)
  then show thesis
    using that [OF refl ne] pin by simp
qed

lemma clean_pin:
  assumes "fst (pinned_connection matched scope connections) = []" "dict_get scope ''connection_id'' = Some (PStr i)"
  shows "uuid_text i \<and> (\<exists>c. find (\<lambda>c. cn_id c = i) connections = Some c
      \<and> snd (pinned_connection matched scope connections) = Some c)"
  using assms by (auto simp: pinned_connection_def Let_def split: option.splits if_splits)

lemma clean_repository:
  assumes "repository_problems pin scope = []" "dict_get scope ''repository'' = Some (PStr e)"
  shows "is_repository_pattern e \<and> (\<forall>c. pin = Some c \<longrightarrow> cn_type c = ''cli''
      \<longrightarrow> (\<exists>permitted. cn_allowed c = Some permitted \<and> repository_covered_by_allow_list e permitted))"
  using assms
  by (auto simp: repository_problems_def Let_def sandbox_allow_list_problems_def split: if_splits option.splits)

lemma without_keeps: "p \<noteq> [] \<Longrightarrow> x \<in> set (drop n s) \<Longrightarrow> x \<notin> set p \<Longrightarrow> x \<in> set (without p n s)"
proof (induction p n s rule: without.induct)
  case (3 p c cs)
  show ?case
  proof (cases "starts_with (c # cs) p")
    case True
    then obtain rest where rest: "c # cs = p @ rest"
      by (auto simp: prefix_def)
    then have "cs = tl p @ rest" "c \<in> set p"
      using "3.prems"(1) by (cases p; simp)+
    then have "x \<in> set (drop (length p - 1) cs)"
      using "3.prems" rest by (auto dest: list.set_sel(2) [of p, rotated])
    then show ?thesis
      using "3.IH"(1) [OF True] "3.prems"(1,3) True by simp
  next
    case False
    then show ?thesis
      using "3.IH"(2) [OF False] "3.prems" by auto
  qed
qed simp_all

lemma strip_by_keeps: "x \<in> set s \<Longrightarrow> \<not> P x \<Longrightarrow> x \<in> set (strip_by P s)"
proof -
  have drop_keeps: "x \<in> set xs \<Longrightarrow> \<not> P x \<Longrightarrow> x \<in> set (dropWhile P xs)" for xs
    by (induction xs) auto
  assume "x \<in> set s" "\<not> P x"
  then have "x \<in> set (rev (dropWhile P s))"
    using drop_keeps by simp
  then show ?thesis
    using drop_keeps \<open>\<not> P x\<close> by (simp add: strip_by_def)
qed

text \<open>The text of an identifier has none of the characters a pattern gives a meaning to.\<close>

lemma uuid_plain:
  assumes "uuid_text raw"
  shows "glob_plain raw"
proof -
  let ?hex = "without ''-'' 0 (strip_by (\<lambda>c. c = CHR ''{'' \<or> c = CHR ''}'') (without ''uuid:'' 0 (without ''urn:'' 0 raw)))"
  have special: "x \<notin> set raw" if x: "x \<in> {CHR ''*'', CHR ''?'', CHR ''[''}" for x
  proof
    assume "x \<in> set raw"
    moreover have "x \<notin> set ''urn:''" "x \<notin> set ''uuid:''" "x \<notin> set ''-''" "\<not> (x = CHR ''{'' \<or> x = CHR ''}'')"
      using x by auto
    ultimately have "x \<in> set ?hex"
      by (simp add: without_keeps strip_by_keeps del: set_ConsD)
    moreover have "int16_text ?hex"
      using assms by (simp add: uuid_text_def Let_def)
    moreover have "\<not> py_isspace x"
      using x by (auto simp: py_isspace_def)
    ultimately have t: "x \<in> set (strip ?hex)"
      by (simp add: strip_def strip_by_keeps)
    let ?t = "strip ?hex"
    let ?u = "if ?t \<noteq> [] \<and> (hd ?t = CHR ''+'' \<or> hd ?t = CHR ''-'') then tl ?t else ?t"
    have u: "x \<in> set ?u"
      using t x by (cases ?t) auto
    let ?d = "if starts_with ?u ''0x'' \<or> starts_with ?u ''0X'' then removeprefix (drop 2 ?u) ''_'' else ?u"
    have "x \<in> set ?d"
    proof (cases "starts_with ?u ''0x'' \<or> starts_with ?u ''0X''")
      case True
      then obtain p v where "?u = p @ v" "p = ''0x'' \<or> p = ''0X''"
        by (auto simp only: prefix_def)
      then have "x \<in> set (drop 2 ?u)"
        using u x by (auto simp only:) auto
      then have "x \<in> set (removeprefix (drop 2 ?u) ''_'')"
        using x by (cases "drop 2 ?u") (auto simp: removeprefix_def)
      with True show ?thesis by simp
    qed (use u in simp)
    then obtain g where "g \<in> set (split_on CHR ''_'' ?d)" "x \<in> set g"
      using split_on_covers [of x ?d "CHR ''_''"] x by auto
    moreover have "list_all (\<lambda>g. g \<noteq> [] \<and> list_all hex_char g) (split_on CHR ''_'' ?d)"
      using \<open>int16_text ?hex\<close> unfolding int16_text_def Let_def by blast
    ultimately have "hex_char x"
      unfolding list_all_iff by blast
    then show False
      using x by (auto simp: hex_char_def)
  qed
  then show ?thesis
    by (auto simp: glob_plain_def)
qed

section \<open>The plan\<close>

lemma start_ok: "resolved_ok connections \<lparr>rs_resolved = [], rs_needs = needs, rs_refusals = []\<rparr>"
  by (simp add: resolved_ok_def dict_get_def)

definition plan_resolution :: "capability_bundle \<Rightarrow> tool list \<Rightarrow> connection list \<Rightarrow> string dict \<Rightarrow> resolution" where
  "plan_resolution b catalog connections chosen =
     resolve_types connections chosen (needed_types (present_tools b catalog))
       \<lparr>rs_resolved = [], rs_needs = catalog_needs b catalog, rs_refusals = []\<rparr>"

definition plan_rows ::
  "capability_bundle \<Rightarrow> tool list \<Rightarrow> connection list \<Rightarrow> string dict \<Rightarrow> string list \<Rightarrow> string option \<Rightarrow> grant_spec list" where
  "plan_rows b catalog connections chosen repositories base =
     dedupe_rows [] (concat (map (tool_rows b (rs_resolved (plan_resolution b catalog connections chosen))
       (fst (validate_repositories repositories)) (fst (validate_base base))) (present_tools b catalog)))"

lemma plan_bundle_fields:
  assumes p: "p = plan_bundle closest b catalog connections existing chosen repositories base"
  shows "pl_grants p = (if pl_needs p \<noteq> [] \<or> pl_refusals p \<noteq> [] then []
      else plan_rows b catalog connections chosen repositories base)"
    and "pl_needs p = rs_needs (plan_resolution b catalog connections chosen)"
    and "pl_refusals p = [] \<Longrightarrow> rs_refusals (plan_resolution b catalog connections chosen) = []
      \<and> concat (map (row_problems closest catalog connections) (plan_rows b catalog connections chosen repositories base)) = []
      \<and> (list_ex (\<lambda>(name, t). ''repository'' \<in> set (t_scope_keys t)) (present_tools b catalog)
          \<longrightarrow> snd (validate_repositories repositories) = [])"
  unfolding p plan_bundle_def Let_def plan_resolution_def [symmetric] plan_rows_def [symmetric]
  by (simp_all add: add_new_Nil split: if_split_asm)

lemma plan_row_in:
  assumes "g \<in> set (pl_grants (plan_bundle closest b catalog connections existing chosen repositories base))"
  obtains name t where "(name, t) \<in> set (present_tools b catalog)"
    "g \<in> set (tool_rows b (rs_resolved (plan_resolution b catalog connections chosen))
       (fst (validate_repositories repositories)) (fst (validate_base base)) (name, t))"
    "row_problems closest catalog connections g = []"
proof -
  let ?p = "plan_bundle closest b catalog connections existing chosen repositories base"
  have none: "pl_needs ?p = []" "pl_refusals ?p = []" and g: "g \<in> set (plan_rows b catalog connections chosen repositories base)"
    using assms unfolding plan_bundle_fields(1) [OF refl] by (auto split: if_splits)
  have "row_problems closest catalog connections g = []"
    using plan_bundle_fields(3) [OF refl none(2)] g by auto
  moreover obtain name t where "(name, t) \<in> set (present_tools b catalog)"
      "g \<in> set (tool_rows b (rs_resolved (plan_resolution b catalog connections chosen))
       (fst (validate_repositories repositories)) (fst (validate_base base)) (name, t))"
    using g set_dedupe unfolding plan_rows_def by fastforce
  ultimately show thesis
    using that by blast
qed

lemma scan_entries: "set (fst (scan_repositories raws entries refusals)) \<subseteq> strip ` set raws \<union> set entries"
proof (induction raws arbitrary: entries refusals)
  case (Cons raw raws)
  show ?case
    using Cons.IH [of entries refusals] Cons.IH [of "entries @ [strip raw]" refusals]
      Cons.IH [of entries "refusals @ [quoted (strip raw) @ '' is not a repository: use owner/name, owner/*, or * for every '' @
                          ''repository.'']"] by auto
qed simp

lemma validated_entries: "e \<in> set (fst (validate_repositories raws)) \<Longrightarrow> \<exists>raw \<in> set raws. e = strip raw"
  using scan_entries [of raws "[]" "[]"]
  by (auto simp: validate_repositories_def Let_def split: prod.splits if_splits dest: in_set_takeD)

lemma present_in: "(name, t) \<in> set (present_tools b catalog) \<Longrightarrow>
    t \<in> set catalog \<and> t_name t = name \<and> name \<in> set (map fst (bu_tools b))"
  using by_key_Some [of t_name catalog] by (auto simp: present_tools_def List.map_filter_def) force

text \<open>What a row of a plan pins, in terms of what the plan was asked for.\<close>

lemma plan_row_pins:
  assumes "g \<in> set (pl_grants (plan_bundle closest b catalog connections existing chosen repositories base))"
    and ids: "distinct (map cn_id connections)"
  obtains name t where "(name, t) \<in> set (present_tools b catalog)" "gs_capability g = t_required_capability t"
    "''connection_id'' \<in> set (t_scope_keys t) \<longrightarrow>
       (\<exists>c \<in> set connections. cn_type c = connector_type_of name \<and> cn_status c = ''active'' \<and> glob_plain (cn_id c)
          \<and> dict_get (gs_scope g) ''connection_id'' = Some (cn_id c)
          \<and> (''repository'' \<in> set (t_scope_keys t) \<and> cn_type c = ''cli'' \<longrightarrow>
               (\<exists>e permitted. dict_get (gs_scope g) ''repository'' = Some e \<and> cn_allowed c = Some permitted
                  \<and> repository_covered_by_allow_list e permitted)))"
    "''repository'' \<in> set (t_scope_keys t) \<longrightarrow>
       (\<exists>raw \<in> set repositories. dict_get (gs_scope g) ''repository'' = Some (strip raw))"
    "''branch'' \<in> set (t_scope_keys t) \<longrightarrow> dict_get (gs_scope g) ''branch'' = Some AGENT_BRANCH_PATTERN"
proof -
  let ?r = "plan_resolution b catalog connections chosen"
  obtain name t where row: "(name, t) \<in> set (present_tools b catalog)"
      "g \<in> set (tool_rows b (rs_resolved ?r) (fst (validate_repositories repositories)) (fst (validate_base base)) (name, t))"
      "row_problems closest catalog connections g = []"
    using plan_row_in [OF assms(1)] by blast
  note g = tool_rows_in [OF row(2)]
  have "grant_problem_details closest (gs_capability g) (json_scope (gs_scope g)) ''allow'' catalog connections = []"
    using row(3) g by (simp add: row_problems_def grant_problems_def)
  then obtain matched where clean: "fst (pinned_connection matched (json_scope (gs_scope g)) connections) = []"
      "repository_problems (snd (pinned_connection matched (json_scope (gs_scope g)) connections)) (json_scope (gs_scope g)) = []"
    by (rule clean_row)
  have ok: "resolved_ok connections ?r"
    unfolding plan_resolution_def resolve_types_def
    using resolve_loop_ok [OF start_ok] by (simp add: resolve_loop_def)
  have pin: "\<exists>c \<in> set connections. cn_type c = connector_type_of name \<and> cn_status c = ''active'' \<and> glob_plain (cn_id c)
          \<and> dict_get (gs_scope g) ''connection_id'' = Some (cn_id c)
          \<and> (''repository'' \<in> set (t_scope_keys t) \<and> cn_type c = ''cli'' \<longrightarrow>
               (\<exists>e permitted. dict_get (gs_scope g) ''repository'' = Some e \<and> cn_allowed c = Some permitted
                  \<and> repository_covered_by_allow_list e permitted))"
    if key: "''connection_id'' \<in> set (t_scope_keys t)"
  proof -
    obtain c where c: "dict_get (rs_resolved ?r) (connector_type_of name) = Some c"
        "dict_get (gs_scope g) ''connection_id'' = Some (cn_id c)"
      using g key by blast
    then have live: "c \<in> set connections" "cn_type c = connector_type_of name" "cn_status c = ''active''"
      using ok by (auto simp: resolved_ok_def)
    have "dict_get (json_scope (gs_scope g)) ''connection_id'' = Some (PStr (cn_id c))"
      using c(2) by (simp add: json_scope_get)
    from clean_pin [OF clean(1) this] obtain d where d: "uuid_text (cn_id c)" "find (\<lambda>x. cn_id x = cn_id c) connections = Some d"
        "snd (pinned_connection matched (json_scope (gs_scope g)) connections) = Some d"
      by blast
    have "d \<in> set connections \<and> cn_id d = cn_id c"
      using find_Some_in [OF d(2)] by simp
    then have "d = c"
      using ids live(1) by (metis distinct_map inj_onD)
    have "\<exists>e permitted. dict_get (gs_scope g) ''repository'' = Some e \<and> cn_allowed c = Some permitted
        \<and> repository_covered_by_allow_list e permitted"
      if rep: "''repository'' \<in> set (t_scope_keys t)" and cli: "cn_type c = ''cli''"
    proof -
      obtain e where e: "dict_get (gs_scope g) ''repository'' = Some e"
        using g rep by blast
      then have "dict_get (json_scope (gs_scope g)) ''repository'' = Some (PStr e)"
        by (simp add: json_scope_get)
      from clean_repository [OF clean(2) this] show ?thesis
        using d(3) \<open>d = c\<close> cli e by blast
    qed
    then show ?thesis
      using live c(2) uuid_plain [OF d(1)] by blast
  qed
  have "\<exists>raw \<in> set repositories. dict_get (gs_scope g) ''repository'' = Some (strip raw)"
    if "''repository'' \<in> set (t_scope_keys t)"
    using g that validated_entries by blast
  then show thesis
    using that [OF row(1)] g pin by blast
qed

section \<open>Properties\<close>

lemma request_pins_repository:
  assumes "scope_matches (request_dimensions t (json_scope scope)) (requested sc)"
    and "\<exists>raw \<in> set repositories. dict_get scope ''repository'' = Some (strip raw)"
    and "''repository'' \<notin> set (t_result_scope_keys t)"
  shows "\<exists>raw \<in> set repositories. dict_get scope ''repository'' = Some (strip raw)
      \<and> (\<exists>r. dict_get (requested sc) ''repository'' = Some (PStr r) \<and> fnmatchcase r (strip raw))"
  using assms(2) scope_entry [OF assms(1)] assms(3) by blast

lemma request_pins_branch:
  assumes "scope_matches (request_dimensions t (json_scope scope)) (requested sc)"
    and "dict_get scope ''branch'' = Some AGENT_BRANCH_PATTERN" "''branch'' \<notin> set (t_result_scope_keys t)"
  shows "\<exists>v. dict_get (requested sc) ''branch'' = Some (PStr v) \<and> starts_with v ''agent/''"
proof -
  obtain v where "dict_get (requested sc) ''branch'' = Some (PStr v)" "fnmatchcase v (''agent/'' @ ''*'')"
    using scope_entry [OF assms(1), of "''branch''" AGENT_BRANCH_PATTERN] assms(2,3) by (auto simp: AGENT_BRANCH_PATTERN_def)
  then show ?thesis
    using fnmatch_plain_star [of "''agent/''" v] by (auto simp: glob_plain_def)
qed

lemma request_pins_connection:
  assumes "scope_matches (request_dimensions t (json_scope scope)) (requested sc)"
    and "glob_plain (cn_id c)" "dict_get scope ''connection_id'' = Some (cn_id c)"
    and "''connection_id'' \<notin> set (t_result_scope_keys t)"
  shows "dict_get (requested sc) ''connection_id'' = Some (PStr (cn_id c))"
proof -
  obtain v where "dict_get (requested sc) ''connection_id'' = Some (PStr v)" "fnmatchcase v (cn_id c)"
    using scope_entry [OF assms(1,3)] assms(4) by blast
  then show ?thesis
    using fnmatch_plain [OF assms(2), of v] by blast
qed

text \<open>
  C8 (safety) An agent that holds nothing but the rows of a plan is confined to what the plan was asked for: a call
  that is not denied needs the capability of a tool of the bundle and, wherever that tool is scoped by them, goes
  through an active connection of the right kind, to a repository that matches one that was asked for (and that the
  sandbox allows), and to a branch below \<open>agent/\<close>. Keys of a listing, which narrow its rows and not the call, are
  excepted. What it needs: the catalog keeps the contract of tools, the ids of connections are distinct, and the
  tool called does not defer its scope to its validator.
\<close>

theorem bundle_confines_agent:
  assumes "list_all tool_contract catalog" "distinct (map cn_id connections)" "\<not> t_defers_scope t"
    and "d_decision (evaluate t (map grant_of (pl_grants
           (plan_bundle closest b catalog connections existing chosen repositories base))) rules sc) \<noteq> DENY"
  shows "\<exists>name u. (name, u) \<in> set (present_tools b catalog) \<and> t_required_capability u = t_required_capability t
    \<and> (''connection_id'' \<in> set (t_scope_keys u) - set (t_result_scope_keys t) \<longrightarrow>
         (\<exists>c \<in> set connections. cn_type c = connector_type_of name \<and> cn_status c = ''active''
            \<and> dict_get (requested sc) ''connection_id'' = Some (PStr (cn_id c))
            \<and> (connector_type_of name = ''cli'' \<and> ''repository'' \<in> set (t_scope_keys u) - set (t_result_scope_keys t) \<longrightarrow>
                 (\<exists>raw \<in> set repositories. \<exists>r permitted. dict_get (requested sc) ''repository'' = Some (PStr r)
                    \<and> fnmatchcase r (strip raw) \<and> cn_allowed c = Some permitted
                    \<and> repository_covered_by_allow_list (strip raw) permitted))))
    \<and> (''repository'' \<in> set (t_scope_keys u) - set (t_result_scope_keys t) \<longrightarrow>
         (\<exists>raw \<in> set repositories. \<exists>r. dict_get (requested sc) ''repository'' = Some (PStr r) \<and> fnmatchcase r (strip raw)))
    \<and> (''branch'' \<in> set (t_scope_keys u) - set (t_result_scope_keys t) \<longrightarrow>
         (\<exists>v. dict_get (requested sc) ''branch'' = Some (PStr v) \<and> starts_with v ''agent/''))"
proof -
  have "call_permitted t (map grant_of (pl_grants (plan_bundle closest b catalog connections existing chosen repositories base)))
      (requested sc)"
    using assms(4) evaluate_refused(1) by blast
  then obtain g where g: "g \<in> set (pl_grants (plan_bundle closest b catalog connections existing chosen repositories base))"
      "grant_authorizes t (requested sc) (grant_of g)"
    by (auto simp: call_permitted_def)
  obtain name u where row: "(name, u) \<in> set (present_tools b catalog)" "gs_capability g = t_required_capability u"
    "''connection_id'' \<in> set (t_scope_keys u) \<longrightarrow>
       (\<exists>c \<in> set connections. cn_type c = connector_type_of name \<and> cn_status c = ''active'' \<and> glob_plain (cn_id c)
          \<and> dict_get (gs_scope g) ''connection_id'' = Some (cn_id c)
          \<and> (''repository'' \<in> set (t_scope_keys u) \<and> cn_type c = ''cli'' \<longrightarrow>
               (\<exists>e permitted. dict_get (gs_scope g) ''repository'' = Some e \<and> cn_allowed c = Some permitted
                  \<and> repository_covered_by_allow_list e permitted)))"
    "''repository'' \<in> set (t_scope_keys u) \<longrightarrow>
       (\<exists>raw \<in> set repositories. dict_get (gs_scope g) ''repository'' = Some (strip raw))"
    "''branch'' \<in> set (t_scope_keys u) \<longrightarrow> dict_get (gs_scope g) ''branch'' = Some AGENT_BRANCH_PATTERN"
    by (rule plan_row_pins [OF g(1) assms(2)])
  have "is_valid_capability (t_required_capability u)"
    using present_in [OF row(1)] assms(1) by (auto simp: list_all_iff tool_contract_def)
  then have cap: "t_required_capability t = t_required_capability u"
    using g(2) row(2) capability_matches_exact by (auto simp: grant_authorizes_def grant_of_def)
  have dims: "scope_matches (request_dimensions t (json_scope (gs_scope g))) (requested sc)"
    using g(2) assms(3) by (auto simp: grant_authorizes_def grant_of_def)
  have repo: "\<exists>raw \<in> set repositories. dict_get (gs_scope g) ''repository'' = Some (strip raw)
      \<and> (\<exists>r. dict_get (requested sc) ''repository'' = Some (PStr r) \<and> fnmatchcase r (strip raw))"
    if "''repository'' \<in> set (t_scope_keys u) - set (t_result_scope_keys t)"
    using request_pins_repository [OF dims] row(4) that by blast
  have conn: "\<exists>c \<in> set connections. cn_type c = connector_type_of name \<and> cn_status c = ''active''
      \<and> dict_get (requested sc) ''connection_id'' = Some (PStr (cn_id c))
      \<and> (connector_type_of name = ''cli'' \<and> ''repository'' \<in> set (t_scope_keys u) - set (t_result_scope_keys t) \<longrightarrow>
           (\<exists>raw \<in> set repositories. \<exists>r permitted. dict_get (requested sc) ''repository'' = Some (PStr r)
              \<and> fnmatchcase r (strip raw) \<and> cn_allowed c = Some permitted
              \<and> repository_covered_by_allow_list (strip raw) permitted))"
    if key: "''connection_id'' \<in> set (t_scope_keys u) - set (t_result_scope_keys t)"
  proof -
    obtain c where c: "c \<in> set connections" "cn_type c = connector_type_of name" "cn_status c = ''active''"
        "glob_plain (cn_id c)" "dict_get (gs_scope g) ''connection_id'' = Some (cn_id c)"
        "''repository'' \<in> set (t_scope_keys u) \<and> cn_type c = ''cli'' \<longrightarrow>
           (\<exists>e permitted. dict_get (gs_scope g) ''repository'' = Some e \<and> cn_allowed c = Some permitted
              \<and> repository_covered_by_allow_list e permitted)"
      using key row(3) by blast
    then have "dict_get (requested sc) ''connection_id'' = Some (PStr (cn_id c))"
      using request_pins_connection [OF dims] key by blast
    moreover have "\<exists>raw \<in> set repositories. \<exists>r permitted. dict_get (requested sc) ''repository'' = Some (PStr r)
        \<and> fnmatchcase r (strip raw) \<and> cn_allowed c = Some permitted
        \<and> repository_covered_by_allow_list (strip raw) permitted"
      if cli: "connector_type_of name = ''cli''" "''repository'' \<in> set (t_scope_keys u) - set (t_result_scope_keys t)"
    proof -
      obtain e permitted where e: "dict_get (gs_scope g) ''repository'' = Some e" "cn_allowed c = Some permitted"
          "repository_covered_by_allow_list e permitted"
        using c(2,6) cli by auto
      with repo [OF cli(2)] show ?thesis
        by auto
    qed
    ultimately show ?thesis
      using c(1-3) by blast
  qed
  have branch: "\<exists>v. dict_get (requested sc) ''branch'' = Some (PStr v) \<and> starts_with v ''agent/''"
    if "''branch'' \<in> set (t_scope_keys u) - set (t_result_scope_keys t)"
    using request_pins_branch [OF dims] row(5) that by blast
  show ?thesis
    by (rule exI [of _ name], rule exI [of _ u], intro conjI impI row(1) cap [symmetric] conn branch) (use repo in blast)+
qed

text \<open>A sandbox for the repositories of one owner, and the tool that pushes from it.\<close>

definition push_tool :: tool where
  "push_tool = \<lparr>t_name = ''cli.repository.push'', t_description = ''push'', t_risk = ELEVATED,
    t_required_capability = ''cli.repository.push'', t_supports_approval = True,
    t_scope_keys = [''connection_id'', ''repository'', ''branch''],
    t_required_grant_scope_keys = [''connection_id'', ''repository'', ''branch''], t_defers_scope = False,
    t_result_scope_keys = [], t_redispatch_is_safe = False\<rparr>"

definition sandbox :: connection where
  "sandbox = \<lparr>cn_id = ''11111111-2222-3333-4444-555555555555'', cn_type = ''cli'', cn_name = ''Sandbox'',
    cn_status = ''active'', cn_git = ''g'', cn_allowed = Some [''octo/*'']\<rparr>"

definition pushing :: capability_bundle where
  "pushing = \<lparr>bu_id = ''pushing'', bu_label = ''Pushing'',
    bu_tools = [(''cli.repository.push'', [(''repository'', ''*''), (''branch'', AGENT_BRANCH_PATTERN)])],
    bu_rules = [\<lparr>r_capability = ''cli.repository.push'', r_risk = None, r_action = APPROVAL\<rparr>]\<rparr>"

definition push_scope :: "pyval dict" where
  "push_scope = [(''connection_id'', PStr (cn_id sandbox)), (''repository'', PStr ''octo/app''), (''branch'', PStr ''agent/fix'')]"

definition push_plan :: bundle_plan where
  "push_plan = plan_bundle (\<lambda>c known. None) pushing [push_tool] [sandbox] [] [] ['' octo/app''] None"

theorem bundle_confines_agent_witness:
  "d_decision (evaluate push_tool (map grant_of (pl_grants push_plan)) (pl_rules push_plan) (Some push_scope)) = REQUIRE_APPROVAL
   \<and> (\<exists>v. dict_get (requested (Some push_scope)) ''branch'' = Some (PStr v) \<and> starts_with v ''agent/'')"
proof -
  have one: "d_decision (evaluate push_tool (map grant_of (pl_grants push_plan)) (pl_rules push_plan) (Some push_scope))
      = REQUIRE_APPROVAL"
    by code_simp
  have "validate_capability_form push_tool = []" "validate_scope_contract push_tool = None"
    by code_simp+
  then have "list_all tool_contract [push_tool]"
    by (simp add: tool_contract_iff)
  moreover have "present_tools pushing [push_tool] = [(''cli.repository.push'', push_tool)]"
    by code_simp
  ultimately show ?thesis
    using bundle_confines_agent [of "[push_tool]" "[sandbox]" push_tool "\<lambda>c known. None" pushing "[]" "[]" "['' octo/app'']" None
        "pl_rules push_plan" "Some push_scope"] one
    unfolding push_plan_def [symmetric] by (auto simp: push_tool_def)
qed

section \<open>Turning a bundle on\<close>

definition annotate ::
  "(string \<Rightarrow> string list \<Rightarrow> string option) \<Rightarrow> tool list \<Rightarrow> connection list \<Rightarrow> grant_spec \<Rightarrow> annotated_grant" where
  "annotate closest catalog connections g =
     \<lparr>an_capability = gs_capability g, an_scope = json_scope (gs_scope g), an_effect = gs_effect g,
      an_problems = row_problems closest catalog connections g\<rparr>"

lemma bundle_capabilities_set:
  "c \<in> set (bundle_capabilities b catalog) \<longleftrightarrow> (\<exists>(name, t) \<in> set (present_tools b catalog). t_required_capability t = c)"
proof -
  have "c \<in> set (foldl (\<lambda>caps (name, fixed).
              case by_key t_name catalog name of
                None \<Rightarrow> caps
              | Some t \<Rightarrow> if t_required_capability t \<in> set caps then caps else caps @ [t_required_capability t]) acc xs)
    \<longleftrightarrow> c \<in> set acc \<or> (\<exists>(name, t) \<in> set (List.map_filter (\<lambda>(name, fixed). map_option (\<lambda>t. (name, t)) (by_key t_name catalog name)) xs).
           t_required_capability t = c)" for acc xs
  proof (induction xs arbitrary: acc)
    case (Cons x xs)
    obtain name fixed where x: "x = (name, fixed)"
      by (cases x)
    show ?case
      by (cases "by_key t_name catalog name") (auto simp: x Cons.IH List.map_filter_simps)
  qed (simp add: List.map_filter_simps)
  from this [of "[]" "bu_tools b"] show ?thesis
    unfolding bundle_capabilities_def present_tools_def by simp
qed

lemma validated_nonempty: "snd (validate_repositories raws) = [] \<Longrightarrow> fst (validate_repositories raws) \<noteq> []"
  by (auto simp: validate_repositories_def Let_def split: prod.splits if_splits)

text \<open>
  C9 (functional) A plan without questions and refusals turns its bundle on: with its rows, and whatever grants
  there are besides, every capability of the bundle is covered by an allow grant without a problem.
\<close>

theorem plan_turns_bundle_on:
  assumes "list_all tool_contract catalog" "bu_tools b \<noteq> []"
    and "p = plan_bundle closest b catalog connections existing chosen repositories base" "pl_needs p = []" "pl_refusals p = []"
  shows "state_of_bundle b (map (annotate closest catalog connections) (pl_grants p) @ others) catalog = BundleOn"
proof -
  let ?r = "plan_resolution b catalog connections chosen"
  note fields = plan_bundle_fields [OF assms(3)]
  have rows: "pl_grants p = plan_rows b catalog connections chosen repositories base"
    using fields(1) assms(4,5) by simp
  note clean = fields(3) [OF assms(5)]
  have closed: "\<not> open_questions ?r"
    using clean fields(2) assms(4) by (simp add: open_questions_def)
  have covered: "list_ex (\<lambda>g. an_effect g = ''allow'' \<and> an_problems g = [] \<and> capability_matches (an_capability g) c)
      (map (annotate closest catalog connections) (pl_grants p) @ others)"
    if cap: "c \<in> set (bundle_capabilities b catalog)" for c
  proof -
    obtain name t where t: "(name, t) \<in> set (present_tools b catalog)" "t_required_capability t = c"
      using cap by (auto simp: bundle_capabilities_set)
    have conn: "dict_get (rs_resolved ?r) (connector_type_of name) \<noteq> None" if "''connection_id'' \<in> set (t_scope_keys t)"
    proof -
      have "connector_type_of name \<in> set (needed_types (present_tools b catalog))"
        using that t(1) by (auto simp: needed_types_iff)
      then show ?thesis
        using resolve_types_settle [OF start_ok] closed unfolding plan_resolution_def by blast
    qed
    have "fst (validate_repositories repositories) \<noteq> []" if "''repository'' \<in> set (t_scope_keys t)"
      using that t(1) clean validated_nonempty by (auto simp: list_ex_iff)
    with conn have "tool_rows b (rs_resolved ?r) (fst (validate_repositories repositories)) (fst (validate_base base)) (name, t) \<noteq> []"
      by (intro tool_rows_exist) auto
    then obtain g where g: "g \<in> set (tool_rows b (rs_resolved ?r) (fst (validate_repositories repositories)) (fst (validate_base base)) (name, t))"
      using hd_in_set by blast
    then have "g \<in> set (concat (map (tool_rows b (rs_resolved ?r) (fst (validate_repositories repositories))
        (fst (validate_base base))) (present_tools b catalog)))"
      using t(1) by auto
    from dedupe_keeps [OF this, of "[]"] obtain h where h: "h \<in> set (pl_grants p)" "signature h = signature g"
      unfolding rows plan_rows_def by auto
    then have "gs_capability h = c"
      using tool_rows_in [OF g] t(2) by (simp add: signature_def)
    moreover have "row_problems closest catalog connections h = []"
      using clean h(1) rows by auto
    moreover have "gs_effect h = ''allow''"
      using h(1) plan_row_in [of h closest b catalog connections existing chosen repositories base] assms(3) tool_rows_in by metis
    moreover have "is_valid_capability c"
      using present_in [OF t(1)] assms(1) t(2) by (auto simp: list_all_iff tool_contract_def)
    ultimately show ?thesis
      using h(1) capability_matches_exact [of c c] by (force simp: list_ex_iff annotate_def)
  qed
  have "catalog_needs b catalog = []"
    using closed resolve_loop_ok [OF start_ok, of connections chosen "needed_types (present_tools b catalog)" "catalog_needs b catalog"]
    by (auto simp: plan_resolution_def resolve_types_def resolve_loop_def grows_def open_questions_def)
  then have "bundle_capabilities b catalog \<noteq> []"
    using assms(2) bundle_capabilities_set [of _ b catalog]
    by (cases "bu_tools b") (force simp: catalog_needs_def present_tools_def List.map_filter_simps split: if_splits)+
  moreover have "covered_capabilities (bundle_capabilities b catalog) (map (annotate closest catalog connections) (pl_grants p) @ others)
      = bundle_capabilities b catalog"
    unfolding covered_capabilities_def using covered by (intro filter_True) blast
  ultimately show ?thesis
    by (simp add: state_of_bundle_def Let_def)
qed

theorem plan_turns_bundle_on_witness:
  "state_of_bundle pushing (map (annotate (\<lambda>c known. None) [push_tool] [sandbox]) (pl_grants push_plan) @ []) [push_tool] = BundleOn"
proof -
  have "validate_capability_form push_tool = []" "validate_scope_contract push_tool = None"
    by code_simp+
  then have "list_all tool_contract [push_tool]"
    by (simp add: tool_contract_iff)
  moreover have "pl_needs push_plan = []" "pl_refusals push_plan = []"
    by code_simp+
  ultimately show ?thesis
    by (intro plan_turns_bundle_on [OF _ _ push_plan_def]) (simp_all add: pushing_def)
qed

end
