(* ===== verification/RateLimit.thy ===== *)
theory RateLimit
  imports Workspaces Complex_Main
begin

text \<open>
  The lockout of logins, \<open>apps/api/src/jhin_api/security/rate_limit.py\<close>, and the attempts that drive it, \<open>login\<close> of
  \<open>apps/api/src/jhin_api/auth/service.py\<close> up to the session. Seconds and scores are real numbers where the source
  has floating-point ones; the clock is an argument.
\<close>

section \<open>The limiter\<close>

definition MAX_TRACKED_KEYS :: nat where
  "MAX_TRACKED_KEYS = 20000"

definition SCORE_EPSILON :: real where
  "SCORE_EPSILON = 0.05"

record bucket =
  bk_score :: real
  bk_updated :: real
  bk_blocked_until :: real

record limiter_config =
  lc_account_max :: int
  lc_ip_max :: int
  lc_half_life :: real
  lc_base_block :: real
  lc_account_max_block :: real
  lc_ip_max_block :: real

record limiter =
  li_accounts :: "bucket dict"
  li_ips :: "bucket dict"

datatype limiter_error = ThresholdTooLow | HalfLifeNotPositive

definition check_config :: "limiter_config \<Rightarrow> limiter_error option" where
  "check_config cfg =
     (if lc_account_max cfg < 1 \<or> lc_ip_max cfg < 1 then Some ThresholdTooLow
      else if lc_half_life cfg \<le> 0 then Some HalfLifeNotPositive
      else None)"

definition default_config :: limiter_config where
  "default_config = \<lparr>lc_account_max = 10, lc_ip_max = 30, lc_half_life = 300, lc_base_block = 30,
    lc_account_max_block = 900, lc_ip_max_block = 3600\<rparr>"

definition limiter_key :: "string \<Rightarrow> string" where
  "limiter_key s = py_lower (strip s)"

definition decayed :: "limiter_config \<Rightarrow> bucket \<Rightarrow> real \<Rightarrow> real" where
  "decayed cfg b now =
     (if now - bk_updated b \<le> 0 then bk_score b
      else bk_score b * (1 / 2) powr ((now - bk_updated b) / lc_half_life cfg))"

definition without_keys :: "string list \<Rightarrow> bucket dict \<Rightarrow> bucket dict" where
  "without_keys ks table = filter (\<lambda>(k, b). k \<notin> set ks) table"

definition prune :: "limiter_config \<Rightarrow> real \<Rightarrow> bucket dict \<Rightarrow> bucket dict" where
  "prune cfg now table =
     (let stale = map fst (filter (\<lambda>(k, b). bk_blocked_until b \<le> now \<and> decayed cfg b now < 0.01) table);
          kept = without_keys stale table;
          overflow = length kept - MAX_TRACKED_KEYS
      in if overflow > 0
         then without_keys (map fst (take overflow (sort_key (\<lambda>(k, b). bk_updated b) kept))) kept
         else kept)"

datatype lockout = NotBlocked | Blocked (scope_of: string) (retry_after: int)

text \<open>\<open>int\<close> of a positive float is its floor.\<close>

definition block_for :: "bucket dict \<Rightarrow> string \<Rightarrow> real \<Rightarrow> lockout" where
  "block_for table k now =
     (case dict_get table k of
        None \<Rightarrow> NotBlocked
      | Some b \<Rightarrow>
          if bk_blocked_until b \<le> now then NotBlocked
          else Blocked [] (max 1 \<lfloor>bk_blocked_until b - now + 0.999\<rfloor>))"

definition failed_bucket :: "limiter_config \<Rightarrow> int \<Rightarrow> real \<Rightarrow> real \<Rightarrow> bucket \<Rightarrow> bucket" where
  "failed_bucket cfg threshold max_block now b =
     (let score = decayed cfg b now + 1;
          over = score - real_of_int threshold
      in \<lparr>bk_score = score, bk_updated = now,
          bk_blocked_until =
            (if - SCORE_EPSILON \<le> over
             then max (bk_blocked_until b) (now + min (lc_base_block cfg * 2 powr (max over 0)) max_block)
             else bk_blocked_until b)\<rparr>)"

definition register_failure ::
  "limiter_config \<Rightarrow> int \<Rightarrow> real \<Rightarrow> bucket dict \<Rightarrow> string \<Rightarrow> real \<Rightarrow> bucket dict" where
  "register_failure cfg threshold max_block table k now =
     (let b = (case dict_get table k of Some b \<Rightarrow> b | None \<Rightarrow> \<lparr>bk_score = 0, bk_updated = 0, bk_blocked_until = 0\<rparr>)
      in prune cfg now (dict_set table k (failed_bucket cfg threshold max_block now b)))"

definition check :: "string \<Rightarrow> string \<Rightarrow> real \<Rightarrow> limiter \<Rightarrow> lockout" where
  "check email ip now s =
     (case block_for (li_accounts s) (limiter_key email) now of
        Blocked sc retry \<Rightarrow> Blocked ''account'' retry
      | NotBlocked \<Rightarrow>
          (case block_for (li_ips s) (limiter_key ip) now of
             Blocked sc retry \<Rightarrow> Blocked ''ip'' retry
           | NotBlocked \<Rightarrow> NotBlocked))"

definition record_failure :: "limiter_config \<Rightarrow> string \<Rightarrow> string \<Rightarrow> real \<Rightarrow> limiter \<Rightarrow> limiter" where
  "record_failure cfg email ip now s =
     (let ip_was_blocked = block_for (li_ips s) (limiter_key ip) now \<noteq> NotBlocked;
          ips = register_failure cfg (lc_ip_max cfg) (lc_ip_max_block cfg) (li_ips s) (limiter_key ip) now;
          accounts = (if ip_was_blocked then li_accounts s
                      else register_failure cfg (lc_account_max cfg) (lc_account_max_block cfg) (li_accounts s)
                             (limiter_key email) now)
      in \<lparr>li_accounts = accounts, li_ips = ips\<rparr>)"

definition reset :: "string \<Rightarrow> string \<Rightarrow> limiter \<Rightarrow> limiter" where
  "reset email ip s =
     \<lparr>li_accounts = without_keys [limiter_key email] (li_accounts s), li_ips = without_keys [limiter_key ip] (li_ips s)\<rparr>"

definition tracked_keys :: "limiter \<Rightarrow> nat \<times> nat" where
  "tracked_keys s = (length (li_accounts s), length (li_ips s))"

definition new_limiter :: limiter where
  "new_limiter = \<lparr>li_accounts = [], li_ips = []\<rparr>"

section \<open>Attempts to log in\<close>

text \<open>Whether the password is right and the account active is part of the attempt.\<close>

record attempt =
  at_email :: string
  at_ip :: string
  at_valid :: bool
  at_time :: real

definition login_attempt :: "limiter_config \<Rightarrow> attempt \<Rightarrow> limiter \<Rightarrow> access_error option \<times> limiter" where
  "login_attempt cfg a s =
     (let email = normalize_email (at_email a)
      in case check email (at_ip a) (at_time a) s of
           Blocked sc retry \<Rightarrow>
             (Some (Http 429 (''Too many failed sign-in attempts. This lock clears itself in ''
                @ ''about '' @ show_int (max 1 (retry div 60)) @ '' minute(s) '' @ em_dash @ '' ''
                @ ''no administrator action is required.'')), s)
         | NotBlocked \<Rightarrow>
             if \<not> at_valid a
             then (Some (Http 401 ''Invalid email or password''), record_failure cfg email (at_ip a) (at_time a) s)
             else (None, reset email (at_ip a) s))"

definition after_attempts :: "limiter_config \<Rightarrow> attempt list \<Rightarrow> limiter" where
  "after_attempts cfg as = foldl (\<lambda>s a. snd (login_attempt cfg a s)) new_limiter as"

section \<open>A lockout ends\<close>

definition key_ends :: "real \<Rightarrow> string \<Rightarrow> bucket dict \<Rightarrow> bool" where
  "key_ends until k table \<longleftrightarrow> (case dict_get table k of None \<Rightarrow> True | Some b \<Rightarrow> bk_blocked_until b \<le> until)"

definition table_ok :: "bucket dict \<Rightarrow> bool" where
  "table_ok table \<longleftrightarrow> wf_dict table \<and> length table \<le> MAX_TRACKED_KEYS"

lemma without_keys_get: "dict_get (without_keys ks t) k = (if k \<in> set ks then None else dict_get t k)"
  by (induction t) (auto simp: without_keys_def dict_get_def)

lemma without_keys_wf: "wf_dict t \<Longrightarrow> wf_dict (without_keys ks t)"
  by (auto simp: wf_dict_def without_keys_def distinct_map_filter)

lemma without_keys_length_le: "length (without_keys ks t) \<le> length t"
  by (simp add: without_keys_def)

lemma without_keys_length:
  assumes "wf_dict t" "set ks \<subseteq> set (map fst t)" "distinct ks"
  shows "length (without_keys ks t) + length ks = length t"
proof -
  let ?gone = "filter (\<lambda>(k, b). k \<in> set ks) t"
  have "distinct (map fst ?gone)"
    using assms(1) unfolding wf_dict_def by (rule distinct_map_filter)
  then have "length ?gone = card (set (map fst ?gone))"
    by (metis distinct_card length_map)
  also have "set (map fst ?gone) = set ks"
    using assms(2) by force
  also have "card (set ks) = length ks"
    using assms(3) by (rule distinct_card)
  finally have "length ?gone = length ks" .
  moreover have "without_keys ks t = filter (\<lambda>x. \<not> (case x of (k, b) \<Rightarrow> k \<in> set ks)) t"
    unfolding without_keys_def by (rule filter_cong) auto
  ultimately show ?thesis
    using sum_length_filter_compl [of "\<lambda>(k, b). k \<in> set ks" t] by simp
qed

lemma prune_get: "dict_get (prune cfg now t) k = dict_get t k \<or> dict_get (prune cfg now t) k = None"
  by (simp add: prune_def Let_def without_keys_get)

lemma prune_ok:
  assumes "wf_dict t"
  shows "table_ok (prune cfg now t)"
proof -
  let ?stale = "map fst (filter (\<lambda>(k, b). bk_blocked_until b \<le> now \<and> decayed cfg b now < 0.01) t)"
  let ?kept = "without_keys ?stale t"
  let ?n = "length ?kept - MAX_TRACKED_KEYS"
  let ?old = "map fst (take ?n (sort_key (\<lambda>(k, b). bk_updated b) ?kept))"
  have kept: "wf_dict ?kept"
    using assms by (rule without_keys_wf)
  show ?thesis
  proof (cases "?n > 0")
    case True
    have "distinct (map fst (sort_key (\<lambda>(k, b). bk_updated b) ?kept))"
      using kept unfolding wf_dict_def distinct_map set_sort distinct_sort .
    then have "distinct ?old"
      unfolding take_map [symmetric] by (rule distinct_take)
    moreover have "set ?old \<subseteq> set (map fst ?kept)"
      using set_take_subset [of ?n "sort_key (\<lambda>(k, b). bk_updated b) ?kept"] by auto
    moreover have "length ?old = ?n"
      by simp
    ultimately have "length (without_keys ?old ?kept) + ?n = length ?kept"
      using without_keys_length [OF kept, of ?old] by simp
    then show ?thesis
      using True without_keys_wf [OF kept] by (simp add: prune_def Let_def table_ok_def)
  next
    case False
    then show ?thesis
      using kept by (simp add: prune_def Let_def table_ok_def)
  qed
qed

lemma register_ok: "wf_dict t \<Longrightarrow> table_ok (register_failure cfg threshold max_block t k now)"
  by (simp add: register_failure_def Let_def prune_ok wf_dict_set)

lemma register_ends:
  assumes "key_ends until k t" "k' = k \<longrightarrow> now + max_block \<le> until" "0 \<le> until"
  shows "key_ends until k (register_failure cfg threshold max_block t k' now)"
proof -
  let ?b = "case dict_get t k' of Some b \<Rightarrow> b | None \<Rightarrow> \<lparr>bk_score = 0, bk_updated = 0, bk_blocked_until = 0\<rparr>"
  have "bk_blocked_until (failed_bucket cfg threshold max_block now b) \<le> max (bk_blocked_until b) (now + max_block)" for b
    by (auto simp: failed_bucket_def Let_def max_def min_def)
  moreover have "k' = k \<Longrightarrow> bk_blocked_until ?b \<le> until"
    using assms(1,3) by (auto simp: key_ends_def split: option.splits)
  ultimately have "k' = k \<Longrightarrow> bk_blocked_until (failed_bucket cfg threshold max_block now ?b) \<le> until"
    using assms(2) by (smt (verit))
  then have "key_ends until k (dict_set t k' (failed_bucket cfg threshold max_block now ?b))"
    using assms(1) by (auto simp: key_ends_def)
  then show ?thesis
    using prune_get [of cfg now "dict_set t k' (failed_bucket cfg threshold max_block now ?b)" k]
    by (auto simp: register_failure_def Let_def key_ends_def)
qed

lemma without_keys_ok: "table_ok t \<Longrightarrow> table_ok (without_keys ks t)"
  using without_keys_wf [of t ks] without_keys_length_le [of ks t] by (simp add: table_ok_def)

lemma attempt_ok:
  assumes "table_ok (li_accounts s)" "table_ok (li_ips s)"
  shows "table_ok (li_accounts (snd (login_attempt cfg a s))) \<and> table_ok (li_ips (snd (login_attempt cfg a s)))"
proof -
  have "wf_dict (li_accounts s)" "wf_dict (li_ips s)"
    using assms by (simp_all add: table_ok_def)
  then show ?thesis
    using assms
    by (simp add: login_attempt_def Let_def record_failure_def reset_def register_ok without_keys_ok split: lockout.split)
qed

lemma attempt_ends:
  assumes "key_ends until email (li_accounts s)" "key_ends until ip (li_ips s)" "0 \<le> until"
    and "limiter_key (normalize_email (at_email a)) = email \<longrightarrow> at_time a + lc_account_max_block cfg \<le> until"
    and "limiter_key (at_ip a) = ip \<longrightarrow> at_time a + lc_ip_max_block cfg \<le> until"
  shows "key_ends until email (li_accounts (snd (login_attempt cfg a s)))
    \<and> key_ends until ip (li_ips (snd (login_attempt cfg a s)))"
proof -
  have "key_ends until email (without_keys ks (li_accounts s))" "key_ends until ip (without_keys ks (li_ips s))" for ks
    using assms(1,2) by (auto simp: key_ends_def without_keys_get)
  then show ?thesis
    using assms register_ends [OF assms(1), of "limiter_key (normalize_email (at_email a))" "at_time a" "lc_account_max_block cfg" cfg]
      register_ends [OF assms(2), of "limiter_key (at_ip a)" "at_time a" "lc_ip_max_block cfg" cfg]
    by (auto simp: login_attempt_def Let_def record_failure_def reset_def split: lockout.split)
qed

text \<open>
  C17 (bounds) Every lockout ends by itself: after any attempts, a person is free to try as soon as the longest block
  of an account has passed since the last attempt on that account, and the longest block of an address since the last
  attempt from that address, whatever others do. And the limiter never tracks more keys than its cap.
\<close>

theorem lockouts_end:
  assumes "list_all (\<lambda>a. limiter_key (normalize_email (at_email a)) = limiter_key (normalize_email email)
      \<longrightarrow> at_time a + lc_account_max_block cfg \<le> now) as"
    and "list_all (\<lambda>a. limiter_key (at_ip a) = limiter_key ip \<longrightarrow> at_time a + lc_ip_max_block cfg \<le> now) as"
    and "0 \<le> now"
  shows "check (normalize_email email) ip now (after_attempts cfg as) = NotBlocked
    \<and> fst (tracked_keys (after_attempts cfg as)) \<le> MAX_TRACKED_KEYS
    \<and> snd (tracked_keys (after_attempts cfg as)) \<le> MAX_TRACKED_KEYS"
proof -
  let ?e = "limiter_key (normalize_email email)" and ?i = "limiter_key ip"
  have "key_ends now ?e (li_accounts (after_attempts cfg as)) \<and> key_ends now ?i (li_ips (after_attempts cfg as))"
    using assms(1,2)
  proof (induction as rule: rev_induct)
    case Nil
    then show ?case
      by (simp add: after_attempts_def new_limiter_def key_ends_def dict_get_def)
  next
    case (snoc a as)
    then show ?case
      using attempt_ends [of now ?e "after_attempts cfg as" ?i a cfg] assms(3) by (simp add: after_attempts_def)
  qed
  moreover have "table_ok (li_accounts (after_attempts cfg as)) \<and> table_ok (li_ips (after_attempts cfg as))"
  proof (induction as rule: rev_induct)
    case Nil
    then show ?case
      by (simp add: after_attempts_def new_limiter_def table_ok_def wf_dict_def)
  next
    case (snoc a as)
    then show ?case
      using attempt_ok [of "after_attempts cfg as" cfg a] by (simp add: after_attempts_def)
  qed
  ultimately show ?thesis
    by (auto simp: check_def block_for_def key_ends_def table_ok_def tracked_keys_def split: option.splits)
qed

text \<open>A guess at somebody's account, and the same address 3600 seconds later.\<close>

theorem lockouts_end_witness:
  "check (normalize_email ''ada@x.org'') ''6.6.6.6'' 3600
     (after_attempts default_config [\<lparr>at_email = ''Ada@x.org'', at_ip = ''6.6.6.6'', at_valid = False, at_time = 0\<rparr>]) = NotBlocked"
  using lockouts_end [of "''ada@x.org''" default_config 3600
      "[\<lparr>at_email = ''Ada@x.org'', at_ip = ''6.6.6.6'', at_valid = False, at_time = 0\<rparr>]" "''6.6.6.6''"]
  by (simp add: default_config_def)

section \<open>A lockout can be kept up\<close>

text \<open>
  One address guesses at one account: ten times at first, and then once more each time the account is free again,
  which the answers tell it (\<open>Retry-After\<close>).
\<close>

definition guess :: "real \<Rightarrow> attempt" where
  "guess now = \<lparr>at_email = ''ada@x.org'', at_ip = ''6.6.6.6'', at_valid = False, at_time = now\<rparr>"

definition free_again :: "limiter \<Rightarrow> real" where
  "free_again s = (case dict_get (li_accounts s) ''ada@x.org'' of Some b \<Rightarrow> bk_blocked_until b | None \<Rightarrow> 0)"

fun siege :: "nat \<Rightarrow> real \<times> limiter" where
  "siege 0 = (0, after_attempts default_config (replicate 10 (guess 0)))"
| "siege (Suc n) = (case siege n of (t, s) \<Rightarrow>
     (free_again s, snd (login_attempt default_config (guess (free_again s)) s)))"

definition besieged :: "real \<Rightarrow> real \<Rightarrow> real \<Rightarrow> limiter" where
  "besieged score t until =
     \<lparr>li_accounts = [(''ada@x.org'', \<lparr>bk_score = score, bk_updated = t, bk_blocked_until = until\<rparr>)],
      li_ips = [(''6.6.6.6'', \<lparr>bk_score = score, bk_updated = t, bk_blocked_until = 0\<rparr>)]\<rparr>"

lemma siege_keys: "limiter_key ''ada@x.org'' = ''ada@x.org''" "limiter_key ''6.6.6.6'' = ''6.6.6.6''"
    "normalize_email ''ada@x.org'' = ''ada@x.org''"
  by code_simp+

lemma prune_one:
  "0.01 \<le> decayed default_config b now \<Longrightarrow> prune default_config now [(k, b)] = [(k, b)]"
  by (simp add: prune_def Let_def without_keys_def MAX_TRACKED_KEYS_def)

text \<open>One more guess, when the account is free.\<close>

lemma guess_step:
  assumes "t \<le> now" "until \<le> now" "0 \<le> now" "1 \<le> score" "score \<le> 25"
  shows "snd (login_attempt default_config (guess now) (besieged score t until)) =
     (let score' = score * (1 / 2) powr ((now - t) / 300) + 1
      in besieged score' now (if 9.95 \<le> score' then max until (now + min (30 * 2 powr (max (score' - 10) 0)) 900) else until))"
proof -
  let ?b = "\<lparr>bk_score = score, bk_updated = t, bk_blocked_until = until\<rparr>"
  have dec: "decayed default_config \<lparr>bk_score = score, bk_updated = t, bk_blocked_until = u\<rparr> now
      = score * (1 / 2) powr ((now - t) / 300)" for u
    using assms(1) by (simp add: decayed_def default_config_def)
  have "(1 / 2 :: real) powr ((now - t) / 300) \<le> 1"
    using assms(1) powr_mono_both' [of 0 "(now - t) / 300" "1/2" "1/2"]
    by (simp add: powr_le1)
  then have "score * (1 / 2) powr ((now - t) / 300) + 1 \<le> 26"
    using assms(4,5) mult_mono [of score 25 "(1 / 2 :: real) powr ((now - t) / 300)" 1] by simp
  moreover have "0 \<le> score * (1 / 2) powr ((now - t) / 300)"
    using assms(4) by simp
  ultimately show ?thesis
    using assms(2,3)
    by (simp add: login_attempt_def Let_def guess_def siege_keys check_def block_for_def besieged_def dict_get_def
        record_failure_def register_failure_def failed_bucket_def dec prune_one decayed_def [of _ "bucket_ext _ now _ _"]
        SCORE_EPSILON_def) (simp add: default_config_def)
qed

text \<open>Bounds on powers of two.\<close>

lemma two_powr_upper:
  assumes "0 \<le> x" "x \<le> (1 :: real)"
  shows "2 powr x \<le> 1 + x"
proof -
  have m: "0 < 1 + x"
    using assms by simp
  have "ln (2 / (1 + x)) \<le> 2 / (1 + x) - 1" "ln (1 / (1 + x)) \<le> 1 / (1 + x) - 1"
    using m by (intro ln_le_minus_one; simp)+
  then have "x * ln (2 / (1 + x)) \<le> x * (2 / (1 + x) - 1)" "(1 - x) * ln (1 / (1 + x)) \<le> (1 - x) * (1 / (1 + x) - 1)"
    using assms by (intro mult_left_mono; simp)+
  then have "x * ln (2 / (1 + x)) + (1 - x) * ln (1 / (1 + x)) \<le> x * (2 / (1 + x) - 1) + (1 - x) * (1 / (1 + x) - 1)"
    by linarith
  also have "\<dots> = 0"
    using m by (simp add: field_simps)
  finally have "x * ln 2 \<le> ln (1 + x)"
    using m by (simp add: ln_div algebra_simps)
  then have "exp (x * ln 2) \<le> exp (ln (1 + x))"
    by simp
  then show ?thesis
    using m by (simp add: powr_def)
qed

lemma ln_two_upper: "ln 2 \<le> (7 / 10 :: real)"
proof -
  have "(2 :: real) \<le> (1 + (7 / 10) / of_nat 40) ^ 40"
    by (simp add: power_divide)
  also have "\<dots> \<le> exp (7 / 10)"
    by (rule exp_ge_one_plus_x_over_n_power_n) simp_all
  finally have "ln 2 \<le> ln (exp (7 / 10 :: real))"
    by (subst ln_le_cancel_iff) simp_all
  then show ?thesis by simp
qed

lemma half_powr_lower: "0 \<le> y \<Longrightarrow> 1 - 7 / 10 * y \<le> (1 / 2 :: real) powr y"
proof -
  assume y: "0 \<le> y"
  have "1 - 7 / 10 * y \<le> 1 + - (y * ln 2)"
    using mult_left_mono [OF ln_two_upper y] by simp
  also have "\<dots> \<le> exp (- (y * ln 2))"
    by (rule exp_ge_add_one_self)
  also have "\<dots> = (1 / 2) powr y"
    by (simp add: powr_def ln_div)
  finally show ?thesis .
qed

lemma tenth_powr_upper: "(1 / 2 :: real) powr (1 / 10) \<le> 100 / 107"
proof -
  have "(1 / 2 :: real) = (1 / 2) powr (1 / 10 * 10)"
    by simp
  also have "\<dots> = ((1 / 2) powr (1 / 10)) ^ 10"
    by (simp only: powr_powr [symmetric] powr_realpow [symmetric]) simp
  finally have half: "((1 / 2) powr (1 / 10)) ^ 10 = (1 / 2 :: real)" by simp
  show ?thesis
  proof (rule ccontr)
    assume "\<not> ?thesis"
    then have "(100 / 107 :: real) ^ 10 < ((1 / 2) powr (1 / 10)) ^ 10"
      by (intro power_strict_mono) simp_all
    then show False
      unfolding half by (simp add: power_divide)
  qed
qed

text \<open>The score of the siege stays between ten and eleven and a half.\<close>

definition next_score :: "real \<Rightarrow> real" where
  "next_score score = score * (1 / 2) powr (30 * 2 powr (score - 10) / 300) + 1"

lemma next_score_bounds:
  assumes "10 \<le> score" "score \<le> 11.5"
  shows "10 \<le> next_score score" "next_score score \<le> 11.5"
proof -
  define e where "e = score - 10"
  define y where "y = 2 powr e / 10"
  have e: "0 \<le> e" "e \<le> 1.5" and score: "score = 10 + e"
    using assms by (simp_all add: e_def)
  have form: "next_score score = score * (1 / 2) powr y + 1"
    by (simp add: next_score_def y_def e_def)
  have y0: "0 \<le> y"
    by (simp add: y_def)
  have lower: "score * (1 - 7 / 10 * y) + 1 \<le> next_score score"
    unfolding form using half_powr_lower [OF y0] assms(1) mult_left_mono [of "1 - 7 / 10 * y" "(1 / 2) powr y" score] by simp
  show "10 \<le> next_score score"
  proof (cases "e \<le> 1")
    case True
    then have "y \<le> (1 + e) / 10"
      using two_powr_upper e by (simp add: y_def)
    then have "score * (1 - 7 / 10 * ((1 + e) / 10)) \<le> score * (1 - 7 / 10 * y)"
      using assms(1) by (intro mult_left_mono) simp_all
    moreover have "9 \<le> score * (1 - 7 / 10 * ((1 + e) / 10))"
    proof -
      have "score * (1 - 7 / 10 * ((1 + e) / 10)) - 9 = (1 + e) * (3 / 10 - 7 / 100 * e)"
        unfolding score by (simp add: field_simps)
      also have "0 \<le> \<dots>"
        using e True by (intro mult_nonneg_nonneg) simp_all
      finally show ?thesis by simp
    qed
    ultimately show ?thesis
      using lower by linarith
  next
    case False
    have "2 powr e = 2 * 2 powr (e - 1)"
      by (simp add: powr_diff)
    then have "y \<le> 2 * e / 10"
      using two_powr_upper [of "e - 1"] e False by (simp add: y_def)
    then have "score * (1 - 7 / 10 * (2 * e / 10)) \<le> score * (1 - 7 / 10 * y)"
      using assms(1) by (intro mult_left_mono) simp_all
    moreover have "9 \<le> score * (1 - 7 / 10 * (2 * e / 10))"
    proof -
      have "e * e \<le> 1.5 * 1.5"
        using e by (intro mult_mono) simp_all
      moreover have "score * (1 - 7 / 10 * (2 * e / 10)) - 9 = 1 - 4 / 10 * e - 14 / 100 * (e * e)"
        unfolding score by (simp add: field_simps)
      ultimately show ?thesis
        using e by linarith
    qed
    ultimately show ?thesis
      using lower by linarith
  qed
  show "next_score score \<le> 11.5"
  proof (cases "e \<le> 1")
    case True
    have "1 / 10 \<le> y"
      using e by (simp add: y_def ge_one_powr_ge_zero)
    then have "(1 / 2 :: real) powr y \<le> (1 / 2) powr (1 / 10)"
      by (intro powr_mono') simp_all
    then have "(1 / 2 :: real) powr y \<le> 100 / 107"
      using tenth_powr_upper by linarith
    then have "score * (1 / 2) powr y \<le> 11 * (100 / 107)"
      using True score assms(1) by (intro mult_mono) simp_all
    then show ?thesis
      unfolding form by simp
  next
    case False
    have "2 powr e = 2 * 2 powr (e - 1)"
      by (simp add: powr_diff)
    moreover have "1 \<le> 2 powr (e - 1)"
      using False by (intro ge_one_powr_ge_zero) simp_all
    ultimately have "1 / 10 + 1 / 10 \<le> y"
      by (simp add: y_def)
    then have "(1 / 2 :: real) powr y \<le> (1 / 2) powr (1 / 10 + 1 / 10)"
      by (intro powr_mono') simp_all
    also have "\<dots> = (1 / 2) powr (1 / 10) * (1 / 2) powr (1 / 10)"
      by (rule powr_add)
    also have "\<dots> \<le> 100 / 107 * (100 / 107)"
      using tenth_powr_upper by (intro mult_mono) simp_all
    finally have "score * (1 / 2) powr y \<le> 11.5 * (100 / 107 * (100 / 107))"
      using assms by (intro mult_mono) simp_all
    then show ?thesis
      unfolding form by simp
  qed
qed

lemma first_guess: "snd (login_attempt default_config (guess 0) new_limiter) = besieged 1 0 0"
  by (simp add: login_attempt_def Let_def guess_def siege_keys check_def block_for_def new_limiter_def besieged_def dict_get_def
      record_failure_def register_failure_def failed_bucket_def decayed_def prune_one SCORE_EPSILON_def)
    (simp add: default_config_def)

lemma burst:
  "n \<le> 9 \<Longrightarrow> after_attempts default_config (replicate (Suc n) (guess 0)) = besieged (real n + 1) 0 (if n = 9 then 30 else 0)"
proof (induction n)
  case 0
  then show ?case
    by (simp add: after_attempts_def first_guess)
next
  case (Suc n)
  have "after_attempts default_config (replicate (Suc (Suc n)) (guess 0))
      = snd (login_attempt default_config (guess 0) (after_attempts default_config (replicate (Suc n) (guess 0))))"
    unfolding replicate_Suc [of "Suc n"] replicate_append_same [symmetric] after_attempts_def by simp
  also have "\<dots> = snd (login_attempt default_config (guess 0) (besieged (real n + 1) 0 0))"
    using Suc by simp
  also have "\<dots> = besieged (real (Suc n) + 1) 0 (if Suc n = 9 then 30 else 0)"
    using Suc.prems by (auto simp: guess_step Let_def max_def)
  finally show ?case .
qed

lemma siege_state:
  "\<exists>t score. siege n = (t, besieged score t (t + 30 * 2 powr (score - 10))) \<and> 10 \<le> score \<and> score \<le> 11.5 \<and> 0 \<le> t"
proof (induction n)
  case 0
  have "after_attempts default_config (replicate 10 (guess 0)) = besieged 10 0 30"
    using burst [of 9] by simp
  then show ?case
    by (intro exI [of _ 0] exI [of _ 10]) simp
next
  case (Suc n)
  then obtain t score where s: "siege n = (t, besieged score t (t + 30 * 2 powr (score - 10)))" "10 \<le> score" "score \<le> 11.5" "0 \<le> t"
    by blast
  let ?u = "t + 30 * 2 powr (score - 10)" and ?s = "next_score score"
  have free: "free_again (besieged score t ?u) = ?u"
    by (simp add: free_again_def besieged_def dict_get_def)
  note bounds = next_score_bounds [OF s(2,3)]
  have "2 powr (?s - 10) \<le> 2 powr (2 :: real)"
    using bounds(2) by (intro powr_mono) simp_all
  then have "30 * 2 powr (?s - 10) \<le> 900"
    by simp
  then have small: "min (30 * 2 powr (?s - 10)) 900 = 30 * 2 powr (?s - 10)"
    by (rule min_absorb1)
  have over: "max (?s - 10) 0 = ?s - 10"
    using bounds(1) by simp
  have later: "max ?u (?u + 30 * 2 powr (?s - 10)) = ?u + 30 * 2 powr (?s - 10)"
    by (rule max_absorb2) simp
  have score: "score * (1 / 2) powr ((?u - t) / 300) + 1 = ?s"
    by (simp add: next_score_def)
  have "snd (login_attempt default_config (guess ?u) (besieged score t ?u)) =
     (let score' = ?s
      in besieged score' ?u (if 9.95 \<le> score' then max ?u (?u + min (30 * 2 powr (max (score' - 10) 0)) 900) else ?u))"
    using guess_step [of t ?u ?u score] s(2-4) unfolding score by simp
  then have "snd (login_attempt default_config (guess ?u) (besieged score t ?u)) = besieged ?s ?u (?u + 30 * 2 powr (?s - 10))"
    using bounds(1) unfolding Let_def over small later by simp
  then have "siege (Suc n) = (?u, besieged ?s ?u (?u + 30 * 2 powr (?s - 10)))"
    by (simp add: s(1) free)
  then show ?case
    using bounds s(4) by (intro exI [of _ ?u] exI [of _ ?s]) simp
qed

text \<open>
  C18 (error) The decay of the score does not stop a patient guesser: from one address that is never blocked itself,
  an account can be kept locked for everybody at every instant between one guess and the next, forever, with a guess
  every thirty seconds or less often.
\<close>

theorem lockout_can_be_kept_up:
  assumes "fst (siege n) \<le> now" "now < fst (siege (Suc n))"
  shows "fst (siege n) + 30 \<le> fst (siege (Suc n))
    \<and> scope_of (check ''ada@x.org'' anybody now (snd (siege n))) = ''account''
    \<and> check ''ada@x.org'' anybody now (snd (siege n)) \<noteq> NotBlocked
    \<and> check ''ada@x.org'' ''6.6.6.6'' (fst (siege (Suc n))) (snd (siege n)) = NotBlocked"
proof -
  obtain t score where s: "siege n = (t, besieged score t (t + 30 * 2 powr (score - 10)))" "10 \<le> score" "0 \<le> t"
    using siege_state by blast
  have next_time: "fst (siege (Suc n)) = t + 30 * 2 powr (score - 10)"
    by (simp add: s(1) free_again_def besieged_def dict_get_def)
  have one: "1 \<le> 2 powr (score - 10)"
    using s(2) by (intro ge_one_powr_ge_zero) simp_all
  then show ?thesis
    using assms s(3) unfolding next_time
    by (simp add: s(1) check_def siege_keys block_for_def besieged_def dict_get_def)
qed

theorem lockout_can_be_kept_up_witness:
  "check ''ada@x.org'' ''9.9.9.9'' (fst (siege 1)) (snd (siege 1)) \<noteq> NotBlocked"
proof -
  have "fst (siege 1) < fst (siege (Suc 1))"
    using siege_state [of 1] by (auto simp: free_again_def besieged_def dict_get_def)
  then show ?thesis
    using lockout_can_be_kept_up [of 1 "fst (siege 1)"] by simp
qed

end
