(* ===== verification/Spec2Isabelle.thy ===== *)
theory Spec2Isabelle
  imports Approvals AgentDefaults Reviews Filters Idempotency EngineeringTicket AgentTaskProps GatewayProps GatewayOutcome SqlPolicyLaws SandboxProps SandboxStreams SandboxSecrets SandboxDispatch RedactionSnapshot Sanitize SandboxOutput WorkingTime AccessOwners AccessKeys BundlePlans RateLimit
begin

text \<open>
  Jhin runs companies of AI agents: a workspace has members, agents and connections; an agent works on
  tasks and tickets, calls tools (SQL on a database, git and shell in a sandbox, another agent), and what
  it may do is decided by grants, rules, reviews and approvals. This library models the decision core of
  the Python packages, from the pure policy up to the programs that keep state across crashes.

  How the parts interact. A person signs in or presents an API key and reaches the routes of a workspace
  (\<open>apps/api\<close>); there members, invitations, keys and the grants of agents are changed. A trigger or a
  person starts a run, a durable workflow (\<open>packages/workflows\<close>) that alternates steps of the model
  with tool calls, waits for people, and is finalized. Each tool call goes through the gateway
  (\<open>packages/tools\<close>), which asks the policy (\<open>packages/policy\<close>) and keeps one row per invocation, so that
  a call survives the death of the worker. Executors that touch the outside are guarded again: SQL by a
  static policy (\<open>packages/connectors/.../supabase\<close>), commands by the sandbox runner
  (\<open>services/sandbox_runner\<close>), and whatever they return is scrubbed of secrets (\<open>packages/secrets\<close>).

  The theories, by part. Each opens with the files it models.

  Prelude (\<open>Prelude\<close>, \<open>PyValue\<close>, \<open>Glob\<close>, \<open>GrantGate\<close>, \<open>WorkflowMonad\<close>): the primitives of Python that
  the code uses, JSON values with Python's equality, \<open>fnmatchcase\<close>, the interface of every decision on
  grants, and the execution model of a workflow (a thread that can be suspended at each \<open>await\<close>).

  Policy, \<open>packages/policy/src/jhin_policy\<close>: \<open>Capabilities\<close> (\<open>capabilities.py\<close>, \<open>risk.py\<close>),
  \<open>Repositories\<close>, \<open>Evaluator\<close> (the decision on a tool call), \<open>TargetScopes\<close>, \<open>Delegation\<close> and
  \<open>WorkRequests\<close>, \<open>Approvals\<close>, \<open>AgentDefaults\<close>, \<open>Reviews\<close>, \<open>Bundles\<close> and \<open>BundlePlans\<close> (the named sets
  of grants and what holding one lets an agent do). The lemmas characterise each decision by its rules
  (\<open>evaluate_refines\<close>, \<open>evaluate_outcome\<close>); the laws of a grant gate (closed by default, a denial wins,
  order and repetition do not count, allowing widens and denying narrows) are proved once.

  Gateway, \<open>packages/tools/src/jhin_tools/gateway.py\<close>: \<open>GatewayState\<close> (the session, the row, the
  database, commits), \<open>GatewayRecovery\<close> (what is made of a row an earlier attempt left), \<open>GatewayRequest\<close>
  and \<open>GatewayResolve\<close> (the three ways into a call), \<open>GatewayHistory\<close> (entries in any number, crashes at
  any commit, decisions of people in between). \<open>GatewayLifecycle\<close> is the abstract specification: the
  statuses of a call and their legal steps. \<open>GatewayLaws\<close>, \<open>GatewayEntry\<close> and \<open>GatewayRun\<close> prove what every
  entry respects given what the elementary writes respect; \<open>GatewayProps\<close> draws from it the bound on
  executor entries, their authorization, the refinement of the life cycle and the permanence of terminal
  rows, \<open>GatewayOutcome\<close> that what a request returns is what it committed. \<open>Sanitize\<close> is \<open>sanitize.py\<close>.
  Two ghost fields, which no operation reads, record a history: \<open>gw_effects\<close> the executor entries,
  \<open>gw_trail\<close> the status each commit leaves.

  Workflows, \<open>packages/workflows/src/jhin_workflows\<close>: \<open>AgentTask\<close> (one turn of the step loop),
  \<open>AgentTaskRun\<close> (the whole run), \<open>AgentTaskLaws\<close> (what a turn can do to the state, for any preorder its
  primitive steps respect) and \<open>AgentTaskProps\<close> (finalization once, steps bounded, a cancel respected,
  failures classified); \<open>EngineeringTicket\<close> (the review loop of a ticket). \<open>WorkingTime\<close> is
  \<open>packages/domain/src/jhin_domain/timing.py\<close>, \<open>Filters\<close> and \<open>Idempotency\<close> are \<open>packages/triggers\<close>.

  Access, \<open>apps/api/src/jhin_api\<close>: \<open>ApiScopes\<close> and \<open>RouteScopes\<close> (what a key may do), \<open>Workspaces\<close> (members,
  invitations, workspaces), \<open>ApiKeys\<close> (keys and the gate of a route), \<open>AccessHistory\<close> (requests as a history
  over the tables), and their properties in \<open>AccessProps\<close>, \<open>AccessOwners\<close> and \<open>AccessKeys\<close>; \<open>RateLimit\<close>
  (the lockout of logins). A request is one transaction; that the checks of two requests can both precede
  their writes is shown in \<open>racing_owners_leave_none\<close>.

  Database connector: \<open>SqlLexer\<close> (the text handed to the parser), \<open>SqlAst\<close> (the tree it returns) and
  \<open>SqlPolicy\<close> (the checks), with \<open>SqlPolicyLaws\<close> for what an accepted statement is.

  Sandbox: \<open>SandboxJobs\<close>, \<open>SandboxSessions\<close>, \<open>SandboxRunner\<close> (jobs, interactive sessions and file operations
  over one table of held workspaces, restarts included), \<open>SandboxFence\<close>, \<open>SandboxExclusion\<close> and
  \<open>SandboxProps\<close> (one holder per workspace, and how a failing creation breaks it), \<open>SandboxLedger\<close> and
  \<open>SandboxDispatch\<close> (a call dispatched again runs once, and when it does not), \<open>SandboxStreams\<close> (what a
  poll returns), \<open>SandboxOutput\<close> (the captured tail). Redaction: \<open>SecretRedaction\<close>, \<open>RedactionLaws\<close>,
  \<open>RedactionSnapshot\<close>, and \<open>SandboxSecrets\<close> for the output of a session under a changing registry.

  Interfaces. \<open>grant_gate\<close> is interpreted by the three decisions on grants; \<open>wf_relation\<close> and
  \<open>turn_relation\<close>, extended by \<open>run_relation\<close>, by the relations the agent-task run respects;
  \<open>gateway_relation\<close> and \<open>gateway_run\<close> by the invariants of the gateway; \<open>workspace_fence\<close> by the runner;
  \<open>record_law\<close> by the window, the inputs and the secrets of a session.

  Conventions. A \<open>str\<close> is a list of characters, one per code point below 256; the em dash, the ellipsis
  and the replacement character are written \<open>CHR 0x97\<close>, \<open>CHR 0x85\<close> and \<open>CHR 0x1A\<close>. A \<open>dict\<close> is an association
  list in insertion order, a database table a list of records. Python's integers are \<open>int\<close>; instants are
  counted in microseconds or milliseconds as the code reads them. In \<open>WorkingTime\<close> a float is the
  rational it stands for and every operation rounds to the nearest double; \<open>RateLimit\<close> reads floats as
  real numbers. An exception is the left side of a sum, or an outcome of the workflow monad. Code of other
  packages is a parameter: the JSON encoder and the hash functions (injective where a property says so),
  the SQL parser, pydantic validators, difflib, Temporal (activity answers, timers and child
  workflows by tick), Docker and the terminal transport (as events), the executors of tools.

  Loops. Every function of the model is total. Where the source has an unbounded loop, the step loop and
  the waits of a workflow, the model runs to a horizon, the end of the observed history: a run that has
  not returned by then is suspended at a command or at a wait, which the properties distinguish. The
  bounded walk of the SQL policy gives up beyond its bounds on nodes and depth, the search for
  a free key within one candidate more than there are keys (\<open>unique_key_search_ends\<close>); the other recursive
  functions have a measure.

  Not modelled: clients of provider APIs and the text of sandbox commands, OAuth, the model providers and
  their prices, prompt assembly, memory and its embeddings, the catalog, encryption of secrets at rest,
  delivery of events, observability, database declarations and migrations, the operator console and the web
  application. They call services or render text and decide nothing the modelled parts rely on, or
  their answers are parameters here. Within the modelled parts, audit metadata, listings and row locks are
  left out, and with them the behaviour of interleaved transactions beyond what is said above.
\<close>

end
